(* ===== verification/Prelude.thy ===== *)
theory Prelude
  imports Main "HOL-Library.Word"
begin

text \<open>
  Shared vocabulary of the development: the fixed-width integers of the firmware,
  little-endian byte access, bounds-checked buffer writes, unsigned tick arithmetic and
  the generic list facts the component theories use.

  A C++ \<open>uintN_t\<close> is an \<open>N word\<close>, so that addition and subtraction wrap exactly as
  in the source. A \<open>size_t\<close> that indexes one of the firmware's static buffers is a
  \<open>nat\<close>: every such index is bounded by a buffer size far below the word size, and the
  bounds are proved where the index is used. A pointer/length pair is a byte list; a
  caller-owned output buffer is a byte list whose length is the capacity.
\<close>

unbundle bit_operations_syntax

type_synonym u8 = "8 word"
type_synonym u16 = "16 word"
type_synonym u32 = "32 word"
type_synonym bytes = "u8 list"

named_theorems bytes_simps \<open>little-endian packing and unpacking\<close>
named_theorems buf_simps \<open>bounds-checked buffer access\<close>

section \<open>Little-endian access\<close>

definition put_u16 :: "u16 \<Rightarrow> bytes" where
  "put_u16 v = [ucast (v AND 0xFF), ucast (drop_bit 8 v AND 0xFF)]"

definition put_u32 :: "u32 \<Rightarrow> bytes" where
  "put_u32 v = [ucast (v AND 0xFF), ucast (drop_bit 8 v AND 0xFF),
                ucast (drop_bit 16 v AND 0xFF), ucast (drop_bit 24 v AND 0xFF)]"

definition get_u16 :: "u8 \<Rightarrow> u8 \<Rightarrow> u16" where
  "get_u16 b0 b1 = ucast b0 OR push_bit 8 (ucast b1)"

definition get_u32 :: "u8 \<Rightarrow> u8 \<Rightarrow> u8 \<Rightarrow> u8 \<Rightarrow> u32" where
  "get_u32 b0 b1 b2 b3 =
     ucast b0 OR push_bit 8 (ucast b1) OR push_bit 16 (ucast b2) OR push_bit 24 (ucast b3)"

definition u16_at :: "bytes \<Rightarrow> nat \<Rightarrow> u16" where
  "u16_at bs i = get_u16 (bs ! i) (bs ! (i + 1))"

definition u32_at :: "bytes \<Rightarrow> nat \<Rightarrow> u32" where
  "u32_at bs i = get_u32 (bs ! i) (bs ! (i + 1)) (bs ! (i + 2)) (bs ! (i + 3))"

lemma mask_0xFF: "(0xFF :: 'a::len word) = mask 8"
  by (simp add: mask_eq_exp_minus_1)

lemma bit_u8_high: "8 \<le> n \<Longrightarrow> \<not> bit (b :: u8) n"
  using bit_imp_le_length [of b n] by auto

lemma get_put_u16 [bytes_simps]:
  "get_u16 (ucast (v AND 0xFF)) (ucast (drop_bit 8 v AND 0xFF)) = v"
  by (rule bit_word_eqI) (auto simp: get_u16_def mask_0xFF bit_simps)

lemma get_put_u32 [bytes_simps]:
  "get_u32 (ucast (v AND 0xFF)) (ucast (drop_bit 8 v AND 0xFF))
           (ucast (drop_bit 16 v AND 0xFF)) (ucast (drop_bit 24 v AND 0xFF)) = v"
  (is "?w = v")
proof (rule bit_word_eqI)
  fix n assume "n < LENGTH(32)"
  then consider "n < 8" | "8 \<le> n \<and> n < 16" | "16 \<le> n \<and> n < 24" | "24 \<le> n \<and> n < 32"
    by fastforce
  then show "bit ?w n = bit v n"
    by cases (auto simp: get_u32_def mask_0xFF bit_simps)
qed

lemma put_get_u16 [bytes_simps]: "put_u16 (get_u16 a b) = [a, b]"
  unfolding put_u16_def
  by (intro arg_cong2 [where f = Cons] refl; rule bit_word_eqI,
      auto simp: get_u16_def mask_0xFF bit_simps bit_u8_high)

lemma put_get_u32 [bytes_simps]: "put_u32 (get_u32 a b c d) = [a, b, c, d]"
  unfolding put_u32_def
  by (intro arg_cong2 [where f = Cons] refl; rule bit_word_eqI,
      auto simp: get_u32_def mask_0xFF bit_simps bit_u8_high)

lemma length_put_u16 [simp]: "length (put_u16 v) = 2"
  by (simp add: put_u16_def)

lemma length_put_u32 [simp]: "length (put_u32 v) = 4"
  by (simp add: put_u32_def)

lemma put_nonempty [simp]: "put_u16 v \<noteq> []" "put_u32 w \<noteq> []"
  by (simp_all add: put_u16_def put_u32_def)

lemma u16_at_put [bytes_simps]: "length xs = i \<Longrightarrow> u16_at (xs @ put_u16 v @ ys) i = v"
  by (auto simp: u16_at_def put_u16_def nth_append get_put_u16)

lemma u32_at_put [bytes_simps]: "length xs = i \<Longrightarrow> u32_at (xs @ put_u32 v @ ys) i = v"
  by (auto simp: u32_at_def put_u32_def nth_append get_put_u32)

lemma u32_at_put_head [simp]: "u32_at (put_u32 v) 0 = v" "u32_at (a # b # put_u32 v) 2 = v"
  using u32_at_put [of "[]" 0 v "[]"] u32_at_put [of "[a, b]" 2 v "[]"] by simp_all

section \<open>Bounds-checked buffers\<close>

text \<open>
  \<open>buf_set\<close> is the store \<open>dst[i] = v\<close>; a store outside the buffer is undefined
  behaviour in the source and \<open>None\<close> here, so that a result \<open>Some\<close> is a proof that
  every store was in bounds. \<open>buf_get\<close> is the checked load.
\<close>

definition buf_set :: "'a list \<Rightarrow> nat \<Rightarrow> 'a \<Rightarrow> 'a list option" where
  "buf_set b i v = (if i < length b then Some (b[i := v]) else None)"

definition buf_get :: "'a list \<Rightarrow> nat \<Rightarrow> 'a option" where
  "buf_get b i = (if i < length b then Some (b ! i) else None)"

lemma buf_set_append [buf_simps]:
  "length xs = i \<Longrightarrow> buf_set (xs @ y # ys) i v = Some (xs @ v # ys)"
  by (auto simp: buf_set_def)

lemma buf_get_append [buf_simps]: "length xs = i \<Longrightarrow> buf_get (xs @ y # ys) i = Some y"
  by (auto simp: buf_get_def)

lemma buf_set_length: "buf_set b i v = Some b' \<Longrightarrow> length b' = length b"
  by (auto simp: buf_set_def split: if_splits)

section \<open>Unsigned time stamps\<close>

text \<open>
  \<open>elapsed now since\<close> is the firmware's idiom \<open>now_ms - since_ms\<close> on \<open>uint32_t\<close>:
  it wraps, so it is the true age of the stamp as long as that age is below \<open>2 ^ 32\<close>.
\<close>

abbreviation elapsed :: "u32 \<Rightarrow> u32 \<Rightarrow> u32" where
  "elapsed now since \<equiv> now - since"

lemma elapsed_of_nat:
  assumes "d < 2 ^ 32"
  shows "unat (elapsed (since + word_of_nat d) since) = d"
  using assms by (simp add: unat_of_nat take_bit_nat_eq_self)

lemma unat_ucast_16_32 [simp]: "unat (ucast (w :: u16) :: u32) = unat w"
proof -
  have "unat w < 2 ^ 16" using unsigned_less [of w] by simp
  then show ?thesis by (simp add: unsigned_ucast_eq take_bit_nat_eq_self)
qed

section \<open>Lists\<close>

lemma take_append_exact: "length xs = n \<Longrightarrow> take n (xs @ ys) = xs"
  by simp

lemma drop_append_exact: "length xs = n \<Longrightarrow> drop n (xs @ ys) = ys"
  by simp

lemma drop_Suc_append: "i < length xs \<Longrightarrow> drop i xs = xs ! i # drop (Suc i) xs"
  by (rule Cons_nth_drop_Suc [symmetric])

lemma drop_take_drop: "a \<le> b \<Longrightarrow> drop a (take b xs) @ drop b xs = drop a xs"
proof -
  assume "a \<le> b"
  then have "drop b xs = drop (b - a) (drop a xs)" by simp
  then show ?thesis by (simp only: drop_take append_take_drop_id)
qed

lemma take_take_drop: "take a xs @ take b (drop a xs) @ drop (a + b) xs = xs"
proof -
  have "drop (a + b) xs = drop b (drop a xs)" by (simp add: add.commute)
  then show ?thesis by (simp only: append_take_drop_id)
qed

text \<open>
  Two strings that differ in exactly one place, each cut into a body and a trailer of the same
  lengths: the difference is either in the body or in the trailer.
\<close>

lemma one_change_split:
  assumes e: "x @ s = xs @ b # ys" and e': "x' @ s' = xs @ b' # ys" and len: "length x = length x'"
  shows "(\<exists>zs. x = xs @ b # zs \<and> x' = xs @ b' # zs \<and> s = s') \<or>
         (\<exists>zs. x = x' \<and> s = zs @ b # ys \<and> s' = zs @ b' # ys)"
proof (cases "length xs < length x")
  case True
  then obtain k where k: "length x = length xs + Suc k" by (metis less_iff_Suc_add add_Suc_right)
  have "x = take (length x) (xs @ b # ys)" and "s = drop (length x) (xs @ b # ys)"
    unfolding e [symmetric] by simp_all
  moreover have "x' = take (length x) (xs @ b' # ys)" and "s' = drop (length x) (xs @ b' # ys)"
    unfolding e' [symmetric] using len by simp_all
  ultimately have "x = xs @ b # take k ys \<and> x' = xs @ b' # take k ys \<and> s = s'"
    unfolding k by simp
  then show ?thesis by blast
next
  case False
  have "x = take (length x) (xs @ b # ys)" and "s = drop (length x) (xs @ b # ys)"
    unfolding e [symmetric] by simp_all
  moreover have "x' = take (length x) (xs @ b' # ys)" and "s' = drop (length x) (xs @ b' # ys)"
    unfolding e' [symmetric] using len by simp_all
  ultimately have "x = x' \<and> s = drop (length x) xs @ b # ys \<and> s' = drop (length x) xs @ b' # ys"
    using False by simp
  then show ?thesis by blast
qed

lemma put_u16_inj: "put_u16 a = put_u16 b \<Longrightarrow> a = b"
  by (metis get_put_u16 put_u16_def list.inject)

end
