(* ===== verification/TokenLease.thy ===== *)
theory TokenLease
  imports Prelude
begin

text \<open>
  The interface of a token lock with a time-to-live, as the firmware has it twice: the
  maintenance lock of the USB API and the lock kept by the command arbiter. A client asks for the
  lock (\<open>acquire\<close>, token 0 meaning denied) and keeps it alive (\<open>refresh\<close>); the lock is
  \<open>valid\<close> at a time as long as the last refresh is recent enough. The laws are what each
  provider promises; mutual exclusion is proved here once from them.
\<close>

text \<open>
  Requests of competing clients, each with the time it is served at: \<open>None\<close> asks for the
  lock, \<open>Some t\<close> presents the token \<open>t\<close>. The answer is the token granted or accepted, or
  0. The operations of the lock are arguments.
\<close>

type_synonym lease_request = "u32 option \<times> u32"

fun lease_serve ::
  "(u32 \<Rightarrow> 's \<Rightarrow> u32 \<times> 's) \<Rightarrow> (u32 \<Rightarrow> u32 \<Rightarrow> 's \<Rightarrow> bool \<times> 's) \<Rightarrow>
   lease_request \<Rightarrow> 's \<Rightarrow> u32 \<times> 's" where
  "lease_serve acq ref (None, now) s = acq now s"
| "lease_serve acq ref (Some t, now) s =
     (if fst (ref t now s) then t else 0, snd (ref t now s))"

fun lease_run ::
  "(u32 \<Rightarrow> 's \<Rightarrow> u32 \<times> 's) \<Rightarrow> (u32 \<Rightarrow> u32 \<Rightarrow> 's \<Rightarrow> bool \<times> 's) \<Rightarrow>
   lease_request list \<Rightarrow> 's \<Rightarrow> u32 list \<times> 's" where
  "lease_run acq ref [] s = ([], s)"
| "lease_run acq ref (r # rs) s =
     (let (t, s') = lease_serve acq ref r s; (ts, s'') = lease_run acq ref rs s' in (t # ts, s''))"

text \<open>The lock is still valid whenever a request of the list is served.\<close>

fun lease_alive ::
  "(u32 \<Rightarrow> 's \<Rightarrow> bool) \<Rightarrow> (u32 \<Rightarrow> 's \<Rightarrow> u32 \<times> 's) \<Rightarrow>
   (u32 \<Rightarrow> u32 \<Rightarrow> 's \<Rightarrow> bool \<times> 's) \<Rightarrow> lease_request list \<Rightarrow> 's \<Rightarrow> bool" where
  "lease_alive val acq ref [] s = True"
| "lease_alive val acq ref (r # rs) s =
     (val (snd r) s \<and> lease_alive val acq ref rs (snd (lease_serve acq ref r s)))"

locale token_lease =
  fixes inv :: "'s \<Rightarrow> bool"
    and valid :: "u32 \<Rightarrow> 's \<Rightarrow> bool"
    and holder :: "'s \<Rightarrow> u32"
    and acquire :: "u32 \<Rightarrow> 's \<Rightarrow> u32 \<times> 's"
    and refresh :: "u32 \<Rightarrow> u32 \<Rightarrow> 's \<Rightarrow> bool \<times> 's"
  assumes acquire_inv: "inv s \<Longrightarrow> inv (snd (acquire now s))"
    and refresh_inv: "inv s \<Longrightarrow> inv (snd (refresh t now s))"
    and acquire_busy: "inv s \<Longrightarrow> valid now s \<Longrightarrow>
          fst (acquire now s) = 0 \<and> holder (snd (acquire now s)) = holder s \<and>
          (\<forall>later. valid later (snd (acquire now s)) = valid later s)"
    and acquire_granted: "inv s \<Longrightarrow> fst (acquire now s) \<noteq> 0 \<Longrightarrow>
          valid now (snd (acquire now s)) \<and> holder (snd (acquire now s)) = fst (acquire now s)"
    and refresh_iff: "inv s \<Longrightarrow>
          fst (refresh t now s) = (valid now s \<and> t = holder s \<and> t \<noteq> 0)"
    and refresh_other: "inv s \<Longrightarrow> valid now s \<Longrightarrow> t \<noteq> holder s \<Longrightarrow>
          holder (snd (refresh t now s)) = holder s \<and>
          (\<forall>later. valid later (snd (refresh t now s)) = valid later s)"
    and refresh_holder: "inv s \<Longrightarrow> valid now s \<Longrightarrow> t = holder s \<Longrightarrow>
          holder (snd (refresh t now s)) = holder s \<and> valid now (snd (refresh t now s))"
    and valid_token: "inv s \<Longrightarrow> valid now s \<Longrightarrow> holder s \<noteq> 0"
begin

text \<open>
  While the lock stays valid, whatever other clients ask for, the holder does not change, no
  second token is granted, and no foreign token is accepted.
\<close>

lemma serve_valid:
  assumes i: "inv s" and v: "valid (snd req) s" and r: "lease_serve acquire refresh req s = (t, s')"
  shows "holder s' = holder s \<and> inv s' \<and> (t = 0 \<or> t = holder s)"
proof (cases "fst req")
  case None
  then have "acquire (snd req) s = (t, s')" using r by (cases req) simp
  then show ?thesis
    using acquire_inv [OF i, of "snd req"] acquire_busy [OF i v] by simp
next
  case (Some u)
  then have t: "t = (if fst (refresh u (snd req) s) then u else 0)"
    and s': "s' = snd (refresh u (snd req) s)"
    using r by (cases req, simp)+
  have "holder s' = holder s"
    using refresh_other [OF i v] refresh_holder [OF i v] s' by metis
  then show ?thesis
    using refresh_inv [OF i] refresh_iff [OF i] t s' by simp
qed

lemma run_exclusive:
  assumes "inv s" and "lease_alive valid acquire refresh rs s"
    and "lease_run acquire refresh rs s = (ts, s')"
  shows "holder s' = holder s \<and> set ts \<subseteq> {0, holder s} \<and> inv s'"
  using assms
proof (induction rs arbitrary: s ts s')
  case (Cons r rs)
  obtain t s1 where s1: "lease_serve acquire refresh r s = (t, s1)" by fastforce
  obtain us s2 where s2: "lease_run acquire refresh rs s1 = (us, s2)" by fastforce
  have v: "valid (snd r) s" and st: "lease_alive valid acquire refresh rs s1"
    using Cons.prems(2) s1 by simp_all
  have one: "holder s1 = holder s" "inv s1" "t = 0 \<or> t = holder s"
    using serve_valid [OF Cons.prems(1) v s1] by simp_all
  have "holder s2 = holder s1 \<and> set us \<subseteq> {0, holder s1} \<and> inv s2"
    using Cons.IH [OF one(2) st s2] .
  then show ?case using one Cons.prems(3) s1 s2 by auto
qed simp

end

end
