(* ===== verification/CommandArbiter.thy ===== *)
theory CommandArbiter
  imports TokenLease
begin

text \<open>
  Command-source arbitration (\<open>safety/command_arbiter.h\<close>, \<open>safety/command_arbiter.cpp\<close>):
  which of RC, Jetson and the Mac maintenance client holds motion authority. The record is the
  class' private state; every public operation is a state-passing function. The theorems show
  that a kill overrides everything and revokes every lock, who can hold authority and when, that a
  lock token is exclusive, non-zero and expires, and the invariant of the published output.
\<close>

section \<open>Data\<close>

datatype CommandSource = SrcNone | SrcRc | SrcJetson | SrcMacMaintenance

fun commandSourceCode :: "CommandSource \<Rightarrow> u8" where
  "commandSourceCode SrcNone = 0"
| "commandSourceCode SrcRc = 1"
| "commandSourceCode SrcJetson = 2"
| "commandSourceCode SrcMacMaintenance = 3"

record ArbiterParams =
  jetson_ttl_ms :: u32
  mac_lock_ttl_ms :: u32

definition ArbiterParams_default :: ArbiterParams where
  "ArbiterParams_default = \<lparr> jetson_ttl_ms = 250, mac_lock_ttl_ms = 1000 \<rparr>"

record RcInputs =
  rc_in_ever_seen :: bool
  rc_in_kill :: bool
  rc_in_failsafe :: bool
  rc_in_armed :: bool
  rc_in_autonomy_enabled :: bool

record ArbiterOutput =
  out_source :: CommandSource
  out_motion_authorized :: bool
  out_kill_active :: bool
  out_mac_lock_held :: bool
  out_mac_lock_token :: u32

definition ArbiterOutput_default :: ArbiterOutput where
  "ArbiterOutput_default = \<lparr> out_source = SrcNone, out_motion_authorized = False,
     out_kill_active = False, out_mac_lock_held = False, out_mac_lock_token = 0 \<rparr>"

record CommandArbiter =
  arb_params :: ArbiterParams
  arb_out :: ArbiterOutput
  jetson_seen :: bool
  jetson_last_ms :: u32
  mac_lock_active :: bool
  mac_lock_token :: u32
  mac_lock_last_ms :: u32
  next_token :: u32
  ext_mac_held :: bool
  ext_mac_token :: u32
  ext_mac_failsafe_recovery :: bool
  host_estop :: bool
  last_kill :: bool
  last_armed :: bool

section \<open>Operations\<close>

definition arb_reset :: "CommandArbiter \<Rightarrow> CommandArbiter" where
  "arb_reset a = a \<lparr>
     arb_out := ArbiterOutput_default \<lparr> out_kill_active := True \<rparr>,
     jetson_seen := False, jetson_last_ms := 0,
     mac_lock_active := False, mac_lock_token := 0, mac_lock_last_ms := 0, next_token := 1,
     ext_mac_held := False, ext_mac_token := 0, ext_mac_failsafe_recovery := False,
     host_estop := False, last_kill := True, last_armed := False \<rparr>"

definition arb_configure :: "ArbiterParams \<Rightarrow> CommandArbiter \<Rightarrow> CommandArbiter" where
  "arb_configure p a = a \<lparr> arb_params := p \<rparr>"

definition jetsonFresh :: "u32 \<Rightarrow> CommandArbiter \<Rightarrow> bool" where
  "jetsonFresh now a \<longleftrightarrow> jetson_seen a \<and> elapsed now (jetson_last_ms a) \<le> jetson_ttl_ms (arb_params a)"

definition jetsonHeartbeat :: "u32 \<Rightarrow> CommandArbiter \<Rightarrow> CommandArbiter" where
  "jetsonHeartbeat now a = a \<lparr> jetson_seen := True, jetson_last_ms := now \<rparr>"

definition macLockValid :: "u32 \<Rightarrow> CommandArbiter \<Rightarrow> bool" where
  "macLockValid now a \<longleftrightarrow>
     mac_lock_active a \<and> elapsed now (mac_lock_last_ms a) \<le> mac_lock_ttl_ms (arb_params a)"

definition macLockHeld :: "u32 \<Rightarrow> CommandArbiter \<Rightarrow> bool" where
  "macLockHeld now a \<longleftrightarrow> macLockValid now a \<or> ext_mac_held a"

definition revokeMacLock :: "CommandArbiter \<Rightarrow> CommandArbiter" where
  "revokeMacLock a = a \<lparr> mac_lock_active := False, mac_lock_token := 0, mac_lock_last_ms := 0 \<rparr>"

definition requestMacLock :: "u32 \<Rightarrow> CommandArbiter \<Rightarrow> u32 \<times> CommandArbiter" where
  "requestMacLock now a =
     (if last_kill a \<or> host_estop a then (0, a)
      else if last_armed a then (0, a)
      else if macLockValid now a then (0, a)
      else
        let t = next_token a; n = next_token a + 1 in
        (t, a \<lparr> mac_lock_active := True, mac_lock_token := t,
                next_token := (if n = 0 then 1 else n), mac_lock_last_ms := now \<rparr>))"

definition macLockHeartbeat :: "u32 \<Rightarrow> u32 \<Rightarrow> CommandArbiter \<Rightarrow> bool \<times> CommandArbiter" where
  "macLockHeartbeat token now a =
     (if \<not> mac_lock_active a \<or> token = 0 \<or> token \<noteq> mac_lock_token a then (False, a)
      else if \<not> macLockValid now a then (False, revokeMacLock a)
      else (True, a \<lparr> mac_lock_last_ms := now \<rparr>))"

definition releaseMacLock :: "u32 \<Rightarrow> CommandArbiter \<Rightarrow> CommandArbiter" where
  "releaseMacLock token a =
     (if mac_lock_active a \<and> token = mac_lock_token a then revokeMacLock a else a)"

definition setExternalMacLock :: "bool \<Rightarrow> u32 \<Rightarrow> bool \<Rightarrow> CommandArbiter \<Rightarrow> CommandArbiter" where
  "setExternalMacLock held token failsafe_recovery a =
     a \<lparr> ext_mac_held := held, ext_mac_token := (if held then token else 0),
         ext_mac_failsafe_recovery := (held \<and> failsafe_recovery) \<rparr>"

definition setHostEstop :: "bool \<Rightarrow> CommandArbiter \<Rightarrow> CommandArbiter" where
  "setHostEstop on a = a \<lparr> host_estop := on \<rparr>"

definition arb_kill :: "RcInputs \<Rightarrow> CommandArbiter \<Rightarrow> bool" where
  "arb_kill rc a \<longleftrightarrow>
     (let stale_failsafe_recovery =
            ext_mac_held a \<and> ext_mac_failsafe_recovery a \<and> rc_in_ever_seen rc \<and>
            rc_in_kill rc \<and> rc_in_failsafe rc \<and> \<not> rc_in_armed rc
      in (rc_in_kill rc \<and> \<not> stale_failsafe_recovery) \<or> host_estop a)"

definition arb_update :: "RcInputs \<Rightarrow> u32 \<Rightarrow> CommandArbiter \<Rightarrow> ArbiterOutput \<times> CommandArbiter" where
  "arb_update rc now a0 =
     (let kill_active = arb_kill rc a0;
          a = a0 \<lparr> last_kill := kill_active, last_armed := rc_in_armed rc,
                   arb_out := (arb_out a0) \<lparr> out_kill_active := kill_active \<rparr> \<rparr>
      in
      if kill_active then
        let a = (revokeMacLock a) \<lparr> ext_mac_held := False, ext_mac_token := 0,
                  ext_mac_failsafe_recovery := False \<rparr>;
            out = (arb_out a) \<lparr> out_source := SrcNone, out_motion_authorized := False,
                     out_mac_lock_held := False, out_mac_lock_token := 0 \<rparr>
        in (out, a \<lparr> arb_out := out \<rparr>)
      else
        let mac_held = (macLockValid now a \<or> ext_mac_held a);
            a = (if \<not> mac_held \<and> mac_lock_active a then revokeMacLock a else a);
            out = (arb_out a) \<lparr> out_mac_lock_held := mac_held,
                     out_mac_lock_token :=
                       (if macLockValid now a then mac_lock_token a
                        else if ext_mac_held a then ext_mac_token a else 0) \<rparr>;
            out = (if mac_held
                   then out \<lparr> out_source := SrcMacMaintenance, out_motion_authorized := True \<rparr>
                   else if rc_in_armed rc \<and> rc_in_autonomy_enabled rc \<and> jetsonFresh now a
                   then out \<lparr> out_source := SrcJetson, out_motion_authorized := True \<rparr>
                   else if rc_in_armed rc
                   then out \<lparr> out_source := SrcRc, out_motion_authorized := True \<rparr>
                   else out \<lparr> out_source := SrcNone, out_motion_authorized := False \<rparr>)
        in (out, a \<lparr> arb_out := out \<rparr>))"

lemmas arb_defs = arb_reset_def arb_configure_def jetsonHeartbeat_def revokeMacLock_def
  requestMacLock_def macLockHeartbeat_def releaseMacLock_def setExternalMacLock_def setHostEstop_def

section \<open>Behaviour of a cycle\<close>

text \<open>What one arbitration cycle publishes, as a specification over the state before it.\<close>

definition arb_source_spec :: "RcInputs \<Rightarrow> u32 \<Rightarrow> CommandArbiter \<Rightarrow> CommandSource" where
  "arb_source_spec rc now a =
     (if arb_kill rc a then SrcNone
      else if macLockHeld now a then SrcMacMaintenance
      else if rc_in_armed rc \<and> rc_in_autonomy_enabled rc \<and> jetsonFresh now a then SrcJetson
      else if rc_in_armed rc then SrcRc
      else SrcNone)"

lemma arb_update_eqs:
  assumes "arb_update rc now a = (out, a')"
  shows "out = fst (arb_update rc now a)" and "a' = snd (arb_update rc now a)"
  using assms by simp_all

lemma arb_update_out:
  assumes "arb_update rc now a = (out, a')"
  shows "arb_out a' = out" and "out_kill_active out = arb_kill rc a"
    and "out_source out = arb_source_spec rc now a"
    and "out_motion_authorized out = (out_source out \<noteq> SrcNone)"
    and "out_mac_lock_held out = (\<not> arb_kill rc a \<and> macLockHeld now a)"
  unfolding arb_update_eqs [OF assms]
  by (simp_all add: arb_update_def arb_source_spec_def Let_def macLockHeld_def macLockValid_def
      jetsonFresh_def revokeMacLock_def) blast

lemma arb_update_state:
  assumes "arb_update rc now a = (out, a')"
  shows "last_kill a' = arb_kill rc a" and "last_armed a' = rc_in_armed rc"
    and "next_token a' = next_token a" and "host_estop a' = host_estop a"
    and "arb_params a' = arb_params a"
    and "mac_lock_active a' = (mac_lock_active a \<and> \<not> arb_kill rc a \<and> macLockHeld now a)"
    and "mac_lock_token a' = (if mac_lock_active a' then mac_lock_token a
           else if arb_kill rc a \<or> mac_lock_active a then 0 else mac_lock_token a)"
    and "ext_mac_held a' = (ext_mac_held a \<and> \<not> arb_kill rc a)"
    and "ext_mac_failsafe_recovery a' = (ext_mac_failsafe_recovery a \<and> \<not> arb_kill rc a)"
  unfolding arb_update_eqs [OF assms]
  by (simp_all add: arb_update_def Let_def macLockHeld_def macLockValid_def revokeMacLock_def)

section \<open>Invariant\<close>

definition arb_inv :: "CommandArbiter \<Rightarrow> bool" where
  "arb_inv a \<longleftrightarrow>
     next_token a \<noteq> 0 \<and>
     (mac_lock_active a \<longleftrightarrow> mac_lock_token a \<noteq> 0) \<and>
     (ext_mac_failsafe_recovery a \<longrightarrow> ext_mac_held a) \<and>
     out_motion_authorized (arb_out a) = (out_source (arb_out a) \<noteq> SrcNone) \<and>
     (out_kill_active (arb_out a) \<longrightarrow>
        out_source (arb_out a) = SrcNone \<and> \<not> out_mac_lock_held (arb_out a)) \<and>
     (out_source (arb_out a) = SrcMacMaintenance \<longleftrightarrow> out_mac_lock_held (arb_out a))"

datatype arb_op =
    ArbUpdate RcInputs u32 | ArbRequest u32 | ArbHeartbeat u32 u32 | ArbRelease u32
  | ArbJetson u32 | ArbHostEstop bool | ArbExternal bool u32 bool | ArbConfigure ArbiterParams

fun arb_step :: "arb_op \<Rightarrow> CommandArbiter \<Rightarrow> CommandArbiter" where
  "arb_step (ArbUpdate rc now) a = snd (arb_update rc now a)"
| "arb_step (ArbRequest now) a = snd (requestMacLock now a)"
| "arb_step (ArbHeartbeat t now) a = snd (macLockHeartbeat t now a)"
| "arb_step (ArbRelease t) a = releaseMacLock t a"
| "arb_step (ArbJetson now) a = jetsonHeartbeat now a"
| "arb_step (ArbHostEstop on) a = setHostEstop on a"
| "arb_step (ArbExternal held t rec) a = setExternalMacLock held t rec a"
| "arb_step (ArbConfigure p) a = arb_configure p a"

lemma arb_inv_reset: "arb_inv (arb_reset a)"
  by (simp add: arb_inv_def arb_reset_def ArbiterOutput_default_def)

lemma arb_inv_update: "arb_inv a \<Longrightarrow> arb_inv (snd (arb_update rc now a))"
proof -
  assume inv: "arb_inv a"
  obtain out a' where u: "arb_update rc now a = (out, a')" by fastforce
  have "ext_mac_failsafe_recovery a' \<longrightarrow> ext_mac_held a'"
    using inv arb_update_state(8,9) [OF u] by (simp add: arb_inv_def)
  moreover have "mac_lock_active a' \<longleftrightarrow> mac_lock_token a' \<noteq> 0"
    using inv arb_update_state(6,7) [OF u] by (auto simp: arb_inv_def split: if_splits)
  ultimately show ?thesis
    using inv u arb_update_out [OF u] arb_update_state(3) [OF u]
    by (auto simp: arb_inv_def arb_source_spec_def split: if_splits)
qed

lemma arb_inv_step: "arb_inv a \<Longrightarrow> arb_inv (arb_step op a)"
  using arb_inv_update
  by (cases op) (auto simp: arb_inv_def arb_defs Let_def)

lemma arb_inv_run: "arb_inv a \<Longrightarrow> arb_inv (fold arb_step ops a)"
  by (induction ops arbitrary: a) (simp_all add: arb_inv_step)

section \<open>The lock as a lease\<close>

interpretation arb_lease:
  token_lease arb_inv macLockValid mac_lock_token requestMacLock macLockHeartbeat
proof unfold_locales
  fix s now t
  show "arb_inv (snd (requestMacLock now s))" if "arb_inv s"
    using arb_inv_step [OF that, of "ArbRequest now"] by simp
  show "arb_inv (snd (macLockHeartbeat t now s))" if "arb_inv s"
    using arb_inv_step [OF that, of "ArbHeartbeat t now"] by simp
qed (auto simp: requestMacLock_def macLockHeartbeat_def macLockValid_def arb_inv_def Let_def
      split: if_splits)

subsection \<open>Properties\<close>

text \<open>
  One arbitration cycle implements the documented priority: kill or host E-stop first, then
  a maintenance lock, then Jetson (RC armed, autonomy switch on and heartbeat fresh), then RC when
  armed, else nobody; motion is authorised exactly when some source holds authority, and a kill
  drops both the arbiter's lock and the mirrored USB lock in the same cycle.
\<close>

theorem arb_update_priority:
  "case arb_update rc now a of (out, a') \<Rightarrow>
     out_source out =
       (if arb_kill rc a then SrcNone
        else if macLockHeld now a then SrcMacMaintenance
        else if rc_in_armed rc \<and> rc_in_autonomy_enabled rc \<and> jetsonFresh now a then SrcJetson
        else if rc_in_armed rc then SrcRc else SrcNone) \<and>
     out_motion_authorized out = (out_source out \<noteq> SrcNone) \<and>
     out_kill_active out = arb_kill rc a \<and> arb_out a' = out \<and>
     macLockHeld now a' = (\<not> arb_kill rc a \<and> macLockHeld now a)"
proof -
  obtain out a' where u: "arb_update rc now a = (out, a')" by fastforce
  have "macLockHeld now a' = (\<not> arb_kill rc a \<and> macLockHeld now a)"
    using u by (auto simp: arb_update_def macLockHeld_def macLockValid_def revokeMacLock_def Let_def
        split: if_splits)
  then show ?thesis
    using u arb_update_out [OF u] by (simp add: arb_source_spec_def)
qed

text \<open>
  C8: a live RC kill or a host E-stop can not be bypassed: for every state the arbiter can get into
  by any sequence of operations after reset, a cycle with the host E-stop latched, or with a kill
  that is not a stale failsafe (a fresh frame, or RC armed, or no recovery lock), authorises no
  motion, publishes no source and leaves no lock of either kind.
\<close>

theorem arb_kill_dominates:
  assumes "a = fold arb_step ops (arb_reset a0)"
    and "host_estop a \<or> rc_in_kill rc \<and>
           (\<not> rc_in_failsafe rc \<or> rc_in_armed rc \<or> \<not> ext_mac_failsafe_recovery a)"
    and "arb_update rc now a = (out, a')"
  shows "out_source out = SrcNone \<and> \<not> out_motion_authorized out \<and> \<not> macLockHeld later a' \<and>
         mac_lock_token a' = 0 \<and> arb_inv a'"
proof -
  have inv: "arb_inv a" using assms(1) arb_inv_run arb_inv_reset by blast
  have k: "arb_kill rc a" using assms(2) by (auto simp: arb_kill_def Let_def)
  have a': "arb_inv a'" using arb_inv_update [OF inv, of rc now] assms(3) by simp
  have "\<not> mac_lock_active a'" "\<not> ext_mac_held a'"
    using arb_update_state(6,8) [OF assms(3)] k by simp_all
  then have "\<not> macLockHeld later a'" "mac_lock_token a' = 0"
    using a' by (auto simp: macLockHeld_def macLockValid_def arb_inv_def)
  then show ?thesis
    using arb_update_out(3,4) [OF assms(3)] k a' by (simp add: arb_source_spec_def)
qed

definition arb_sample :: CommandArbiter where
  "arb_sample = \<lparr> arb_params = ArbiterParams_default, arb_out = ArbiterOutput_default,
     jetson_seen = False, jetson_last_ms = 0, mac_lock_active = False, mac_lock_token = 0,
     mac_lock_last_ms = 0, next_token = 1, ext_mac_held = False, ext_mac_token = 0,
     ext_mac_failsafe_recovery = False, host_estop = False, last_kill = True, last_armed = False \<rparr>"

definition rc_idle :: RcInputs where
  "rc_idle = \<lparr> rc_in_ever_seen = True, rc_in_kill = False, rc_in_failsafe = False,
               rc_in_armed = False, rc_in_autonomy_enabled = False \<rparr>"

definition arb_locked :: CommandArbiter where
  "arb_locked = fold arb_step [ArbUpdate rc_idle 0, ArbRequest 5] (arb_reset arb_sample)"

theorem arb_kill_dominates_witness:
  "case arb_update (rc_idle \<lparr> rc_in_kill := True \<rparr>) 10 arb_locked of (out, a') \<Rightarrow>
     macLockHeld 10 arb_locked \<and> out_source out = SrcNone \<and> \<not> out_motion_authorized out \<and>
     \<not> macLockHeld 11 a' \<and> mac_lock_token a' = 0 \<and> arb_inv a'"
proof -
  obtain out a' where u: "arb_update (rc_idle \<lparr> rc_in_kill := True \<rparr>) 10 arb_locked = (out, a')"
    by fastforce
  have "macLockHeld 10 arb_locked"
    by (simp add: arb_locked_def arb_sample_def arb_update_def arb_kill_def rc_idle_def arb_defs
        macLockHeld_def macLockValid_def Let_def ArbiterParams_default_def)
  moreover have "rc_in_kill (rc_idle \<lparr> rc_in_kill := True \<rparr>)"
    "\<not> rc_in_failsafe (rc_idle \<lparr> rc_in_kill := True \<rparr>)"
    by (simp_all add: rc_idle_def)
  ultimately show ?thesis
    using arb_kill_dominates [OF arb_locked_def _ u, of 11] unfolding u by simp
qed

text \<open>
  The arbiter's maintenance lock is exclusive: in any reachable state in which a lock is valid,
  serve any interleaving of lock requests and heartbeats with arbitrary tokens during its lifetime;
  the holder never changes, no other token is ever granted or accepted.
\<close>

theorem arb_lock_exclusive:
  assumes "a = fold arb_step ops (arb_reset a0)"
    and "lease_alive macLockValid requestMacLock macLockHeartbeat rs a"
    and "lease_run requestMacLock macLockHeartbeat rs a = (ts, a')"
  shows "mac_lock_token a' = mac_lock_token a \<and> set ts \<subseteq> {0, mac_lock_token a}"
  using arb_lease.run_exclusive [OF _ assms(2,3)] assms(1) arb_inv_run arb_inv_reset by blast

definition rival_requests :: "lease_request list" where
  "rival_requests = [(None, 6), (Some 2, 7), (Some 1, 8)]"

theorem arb_lock_exclusive_witness:
  "mac_lock_token arb_locked = 1 \<and>
   (case lease_run requestMacLock macLockHeartbeat rival_requests arb_locked of (ts, a') \<Rightarrow>
      mac_lock_token a' = mac_lock_token arb_locked \<and> set ts \<subseteq> {0, mac_lock_token arb_locked})"
proof -
  obtain ts a' where run: "lease_run requestMacLock macLockHeartbeat rival_requests arb_locked = (ts, a')"
    by fastforce
  have "lease_alive macLockValid requestMacLock macLockHeartbeat rival_requests arb_locked"
    and "mac_lock_token arb_locked = 1"
    by (simp_all add: rival_requests_def arb_locked_def arb_sample_def arb_update_def arb_kill_def
        rc_idle_def arb_defs macLockHeld_def macLockValid_def Let_def ArbiterParams_default_def)
  then show ?thesis
    using arb_lock_exclusive [OF arb_locked_def _ run] unfolding run by simp
qed

end
