(* ===== verification/StateMachine.thy ===== *)
theory StateMachine
  imports CommandArbiter
begin

text \<open>
  The safety state machine (\<open>safety/system_state.h\<close>, \<open>safety/state_machine.h\<close>,
  \<open>safety/state_machine.cpp\<close>). \<open>sm_update\<close> is the whole of \<open>StateMachine::update\<close> in
  the source's order: arm-edge bookkeeping, latched hard fault, E-stop sources with the debounced
  battery, idle disarm, host disarm, and the per-state progression. Time stamps are \<open>32 word\<close>
  values and every interval is computed with wrap-around.
\<close>

section \<open>Data\<close>

datatype State = Boot | ConfigLoad | Disarmed | ArmingChecks | StandReady | RcManual
  | ContactTerrain | JetsonAssisted | MacMaintenance | PassivePoseStream | FaultSoft | FaultHard | Estop

fun stateCode :: "State \<Rightarrow> u8" where
  "stateCode Boot = 0" | "stateCode ConfigLoad = 1" | "stateCode Disarmed = 2"
| "stateCode ArmingChecks = 3" | "stateCode StandReady = 4" | "stateCode RcManual = 5"
| "stateCode ContactTerrain = 6" | "stateCode JetsonAssisted = 7" | "stateCode MacMaintenance = 8"
| "stateCode PassivePoseStream = 9" | "stateCode FaultSoft = 10" | "stateCode FaultHard = 11"
| "stateCode Estop = 12"

datatype FaultReason = NoFault | RcKill | HostEstop | RcLinkLost | BatteryLow | WatchdogFault
  | DxlHardware | ArmingTimeout

record StateParams =
  battery_min_mv :: u16
  battery_low_debounce_ms :: u16
  arming_timeout_ms :: u16
  idle_disarm_ms :: u32

definition StateParams_default :: StateParams where
  "StateParams_default = \<lparr> battery_min_mv = 10000, battery_low_debounce_ms = 250,
     arming_timeout_ms = 10000, idle_disarm_ms = 60000 \<rparr>"

record StateInputs =
  in_config_loaded :: bool
  in_battery_mv :: u16
  in_battery_valid :: bool
  in_watchdog_fault :: bool
  in_dxl_hard_fault :: bool
  in_host_estop :: bool
  in_rc_kill :: bool
  in_rc_failsafe :: bool
  in_rc_ever_seen :: bool
  in_rc_armed :: bool
  in_arming_checks_pass :: bool
  in_host_disarm :: bool
  in_command_source :: u8
  in_jetson_fresh :: bool
  in_rc_autonomy :: bool
  in_mac_lock_held :: bool
  in_maintenance_request :: bool
  in_maintenance_failsafe_recovery :: bool
  in_passive_request :: bool
  in_torque_off :: bool
  in_contact_enabled :: bool
  in_contact_confident :: bool
  in_motion_active :: bool

record StateMachine =
  sm_params :: StateParams
  sm_state :: State
  sm_reason :: FaultReason
  sm_last_fault_reason :: FaultReason
  sm_last_fault_timestamp_ms :: u32
  sm_clear_fault_requested :: bool
  sm_batt_low_active :: bool
  sm_batt_low_since_ms :: u32
  sm_arming_since_ms :: u32
  sm_last_activity_ms :: u32
  sm_arm_release_required :: bool

section \<open>State predicates\<close>

fun isOperational :: "State \<Rightarrow> bool" where
  "isOperational ArmingChecks = True" | "isOperational StandReady = True"
| "isOperational RcManual = True" | "isOperational ContactTerrain = True"
| "isOperational JetsonAssisted = True" | "isOperational _ = False"

definition srcIs :: "u8 \<Rightarrow> CommandSource \<Rightarrow> bool" where
  "srcIs src want \<longleftrightarrow> src = commandSourceCode want"

fun idleDisarmEligible :: "State \<Rightarrow> bool" where
  "idleDisarmEligible StandReady = True" | "idleDisarmEligible RcManual = True"
| "idleDisarmEligible ContactTerrain = True" | "idleDisarmEligible JetsonAssisted = True"
| "idleDisarmEligible _ = False"

fun stateAllowsMotion :: "State \<Rightarrow> bool" where
  "stateAllowsMotion RcManual = True" | "stateAllowsMotion ContactTerrain = True"
| "stateAllowsMotion JetsonAssisted = True" | "stateAllowsMotion MacMaintenance = True"
| "stateAllowsMotion _ = False"

definition stateAllowsTorque :: "State \<Rightarrow> bool" where
  "stateAllowsTorque s \<longleftrightarrow> s = StandReady \<or> stateAllowsMotion s"

definition stateAllowsDxlPower :: "State \<Rightarrow> bool" where
  "stateAllowsDxlPower s \<longleftrightarrow> s = ArmingChecks \<or> s = PassivePoseStream \<or> stateAllowsTorque s"

section \<open>Operations\<close>

definition sm_configure :: "StateParams \<Rightarrow> StateMachine \<Rightarrow> StateMachine" where
  "sm_configure p m = m \<lparr> sm_params := p \<rparr>"

definition sm_reset :: "StateMachine \<Rightarrow> StateMachine" where
  "sm_reset m = m \<lparr> sm_state := Boot, sm_reason := NoFault, sm_last_fault_reason := NoFault,
     sm_last_fault_timestamp_ms := 0, sm_clear_fault_requested := False,
     sm_batt_low_active := False, sm_batt_low_since_ms := 0, sm_arming_since_ms := 0,
     sm_last_activity_ms := 0, sm_arm_release_required := True \<rparr>"

definition requestClearFault :: "StateMachine \<Rightarrow> StateMachine" where
  "requestClearFault m = m \<lparr> sm_clear_fault_requested := True \<rparr>"

definition latchFault :: "FaultReason \<Rightarrow> u32 \<Rightarrow> StateMachine \<Rightarrow> StateMachine" where
  "latchFault reason now m =
     (if reason = NoFault \<or> reason = sm_reason m then m
      else m \<lparr> sm_last_fault_reason := reason, sm_last_fault_timestamp_ms := now \<rparr>)"

text \<open>Battery debounce: the updated machine carries the start of the low stretch.\<close>

definition sm_battery :: "StateInputs \<Rightarrow> u32 \<Rightarrow> StateMachine \<Rightarrow> StateMachine" where
  "sm_battery inp now m =
     (if in_battery_valid inp \<and> in_battery_mv inp < battery_min_mv (sm_params m) then
        if \<not> sm_batt_low_active m
        then m \<lparr> sm_batt_low_active := True, sm_batt_low_since_ms := now \<rparr>
        else m
      else m \<lparr> sm_batt_low_active := False \<rparr>)"

definition batt_unsafe :: "u32 \<Rightarrow> StateMachine \<Rightarrow> bool" where
  "batt_unsafe now m \<longleftrightarrow> sm_batt_low_active m \<and>
     elapsed now (sm_batt_low_since_ms m) \<ge> ucast (battery_low_debounce_ms (sm_params m))"

definition stale_failsafe_maintenance_recovery :: "StateInputs \<Rightarrow> bool" where
  "stale_failsafe_maintenance_recovery inp \<longleftrightarrow>
     in_maintenance_failsafe_recovery inp \<and> in_maintenance_request inp \<and>
     in_mac_lock_held inp \<and> in_rc_ever_seen inp \<and> in_rc_kill inp \<and> in_rc_failsafe inp"

definition failsafe_stop :: "StateInputs \<Rightarrow> StateMachine \<Rightarrow> bool" where
  "failsafe_stop inp m \<longleftrightarrow> in_rc_failsafe inp \<and> in_rc_ever_seen inp \<and>
     (isOperational (sm_state m) \<or> sm_state m = Estop) \<and>
     \<not> stale_failsafe_maintenance_recovery inp"

definition estop_reason :: "StateInputs \<Rightarrow> u32 \<Rightarrow> StateMachine \<Rightarrow> FaultReason" where
  "estop_reason inp now m =
     (if in_host_estop inp then HostEstop
      else if in_rc_kill inp \<and> in_rc_ever_seen inp \<and> \<not> stale_failsafe_maintenance_recovery inp
      then RcKill
      else if batt_unsafe now m then BatteryLow
      else if in_watchdog_fault inp then WatchdogFault
      else if failsafe_stop inp m then RcLinkLost
      else NoFault)"

fun hostDisarmApplies :: "State \<Rightarrow> bool" where
  "hostDisarmApplies ArmingChecks = True" | "hostDisarmApplies StandReady = True"
| "hostDisarmApplies RcManual = True" | "hostDisarmApplies ContactTerrain = True"
| "hostDisarmApplies JetsonAssisted = True" | "hostDisarmApplies MacMaintenance = True"
| "hostDisarmApplies PassivePoseStream = True" | "hostDisarmApplies _ = False"

text \<open>The final \<open>switch (state_)\<close>: normal progression, one branch per state.\<close>

definition sm_progress :: "StateInputs \<Rightarrow> u32 \<Rightarrow> StateMachine \<Rightarrow> StateMachine" where
  "sm_progress inp now m =
     (let jetson = in_jetson_fresh inp \<and> in_rc_autonomy inp \<and> srcIs (in_command_source inp) SrcJetson;
          rc = srcIs (in_command_source inp) SrcRc;
          contact = in_contact_enabled inp \<and> in_contact_confident inp in
      case sm_state m of
        Boot \<Rightarrow> m \<lparr> sm_state := ConfigLoad \<rparr>
      | ConfigLoad \<Rightarrow> if in_config_loaded inp then m \<lparr> sm_state := Disarmed \<rparr> else m
      | Disarmed \<Rightarrow>
          let m = (if \<not> in_rc_armed inp then m \<lparr> sm_arm_release_required := False \<rparr> else m) in
          if in_host_disarm inp then m
          else if in_passive_request inp \<and> in_torque_off inp then m \<lparr> sm_state := PassivePoseStream \<rparr>
          else if in_maintenance_request inp \<and> in_mac_lock_held inp then m \<lparr> sm_state := MacMaintenance \<rparr>
          else if in_rc_armed inp \<and> \<not> sm_arm_release_required m
          then m \<lparr> sm_state := ArmingChecks, sm_reason := NoFault, sm_arming_since_ms := now \<rparr>
          else m
      | ArmingChecks \<Rightarrow>
          if \<not> in_rc_armed inp then m \<lparr> sm_state := Disarmed \<rparr>
          else if in_arming_checks_pass inp \<and> in_battery_valid inp \<and>
                  in_battery_mv inp \<ge> battery_min_mv (sm_params m)
          then m \<lparr> sm_state := StandReady \<rparr>
          else if elapsed now (sm_arming_since_ms m) \<ge> ucast (arming_timeout_ms (sm_params m))
          then (latchFault ArmingTimeout now
                 (m \<lparr> sm_arm_release_required := True, sm_state := FaultSoft \<rparr>))
                 \<lparr> sm_reason := ArmingTimeout \<rparr>
          else m
      | StandReady \<Rightarrow>
          if \<not> in_rc_armed inp then m \<lparr> sm_state := Disarmed \<rparr>
          else if jetson then m \<lparr> sm_state := JetsonAssisted \<rparr>
          else if contact \<and> rc then m \<lparr> sm_state := ContactTerrain \<rparr>
          else if rc then m \<lparr> sm_state := RcManual \<rparr>
          else m
      | RcManual \<Rightarrow>
          if \<not> in_rc_armed inp then m \<lparr> sm_state := Disarmed \<rparr>
          else if jetson then m \<lparr> sm_state := JetsonAssisted \<rparr>
          else if \<not> rc then m \<lparr> sm_state := StandReady \<rparr>
          else if contact then m \<lparr> sm_state := ContactTerrain \<rparr>
          else m
      | ContactTerrain \<Rightarrow>
          if \<not> in_rc_armed inp then m \<lparr> sm_state := Disarmed \<rparr>
          else if jetson then m \<lparr> sm_state := JetsonAssisted \<rparr>
          else if \<not> rc then m \<lparr> sm_state := StandReady \<rparr>
          else if \<not> contact then m \<lparr> sm_state := RcManual \<rparr>
          else m
      | JetsonAssisted \<Rightarrow>
          if \<not> in_rc_armed inp then m \<lparr> sm_state := Disarmed \<rparr>
          else if \<not> (in_jetson_fresh inp \<and> in_rc_autonomy inp) then m \<lparr> sm_state := StandReady \<rparr>
          else m
      | MacMaintenance \<Rightarrow>
          if in_passive_request inp \<and> in_torque_off inp then m \<lparr> sm_state := PassivePoseStream \<rparr>
          else if \<not> in_maintenance_request inp \<or> \<not> in_mac_lock_held inp
          then m \<lparr> sm_state := Disarmed \<rparr>
          else m
      | PassivePoseStream \<Rightarrow> if \<not> in_passive_request inp then m \<lparr> sm_state := Disarmed \<rparr> else m
      | FaultSoft \<Rightarrow>
          if sm_clear_fault_requested m
          then m \<lparr> sm_clear_fault_requested := False, sm_state := Disarmed, sm_reason := NoFault \<rparr>
          else m
      | FaultHard \<Rightarrow> m
      | Estop \<Rightarrow> m)"

definition sm_disarm :: "StateMachine \<Rightarrow> StateMachine" where
  "sm_disarm m = m \<lparr> sm_arm_release_required := True, sm_state := Disarmed, sm_reason := NoFault \<rparr>"

definition sm_update :: "StateInputs \<Rightarrow> u32 \<Rightarrow> StateMachine \<Rightarrow> StateMachine" where
  "sm_update inp now m0 =
     (let m = (if sm_state m0 \<noteq> Boot \<and> sm_state m0 \<noteq> ConfigLoad \<and> sm_state m0 \<noteq> Disarmed \<and>
                  in_rc_armed inp
               then m0 \<lparr> sm_arm_release_required := True \<rparr> else m0) in
      if in_dxl_hard_fault inp then
        (latchFault DxlHardware now (m \<lparr> sm_arm_release_required := True, sm_state := FaultHard \<rparr>))
          \<lparr> sm_reason := DxlHardware, sm_clear_fault_requested := False \<rparr>
      else if sm_state m = FaultHard then
        if sm_clear_fault_requested m
        then m \<lparr> sm_clear_fault_requested := False, sm_state := Disarmed, sm_reason := NoFault \<rparr>
        else m
      else
        let m = sm_battery inp now m; reason = estop_reason inp now m in
        if reason \<noteq> NoFault then
          (latchFault reason now (m \<lparr> sm_arm_release_required := True, sm_state := Estop \<rparr>))
            \<lparr> sm_reason := reason \<rparr>
        else if sm_state m = Estop then m \<lparr> sm_state := Disarmed, sm_reason := NoFault \<rparr>
        else
          let m = (if in_motion_active inp \<or> \<not> idleDisarmEligible (sm_state m)
                   then m \<lparr> sm_last_activity_ms := now \<rparr> else m) in
          if idle_disarm_ms (sm_params m) \<noteq> 0 \<and> idleDisarmEligible (sm_state m) \<and>
             elapsed now (sm_last_activity_ms m) \<ge> idle_disarm_ms (sm_params m)
          then sm_disarm m
          else if in_host_disarm inp \<and> hostDisarmApplies (sm_state m) then sm_disarm m
          else sm_progress inp now m)"

section \<open>One update, case by case\<close>

text \<open>The E-stop cause an update computes, as a function of the machine before it.\<close>

definition stop_cause :: "StateInputs \<Rightarrow> u32 \<Rightarrow> StateMachine \<Rightarrow> FaultReason" where
  "stop_cause inp now m = estop_reason inp now (sm_battery inp now m)"

definition idle_expired :: "StateInputs \<Rightarrow> u32 \<Rightarrow> StateMachine \<Rightarrow> bool" where
  "idle_expired inp now m \<longleftrightarrow>
     idle_disarm_ms (sm_params m) \<noteq> 0 \<and> idleDisarmEligible (sm_state m) \<and>
     elapsed now (if in_motion_active inp then now else sm_last_activity_ms m) \<ge> idle_disarm_ms (sm_params m)"

lemma latchFault_simps [simp]:
  "sm_state (latchFault r now m) = sm_state m" "sm_reason (latchFault r now m) = sm_reason m"
  "sm_params (latchFault r now m) = sm_params m"
  "sm_arm_release_required (latchFault r now m) = sm_arm_release_required m"
  "sm_clear_fault_requested (latchFault r now m) = sm_clear_fault_requested m"
  "sm_arming_since_ms (latchFault r now m) = sm_arming_since_ms m"
  "sm_batt_low_active (latchFault r now m) = sm_batt_low_active m"
  "sm_last_activity_ms (latchFault r now m) = sm_last_activity_ms m"
  by (simp_all add: latchFault_def)

lemma sm_battery_simps [simp]:
  "sm_state (sm_battery inp now m) = sm_state m" "sm_reason (sm_battery inp now m) = sm_reason m"
  "sm_params (sm_battery inp now m) = sm_params m"
  "sm_arm_release_required (sm_battery inp now m) = sm_arm_release_required m"
  "sm_clear_fault_requested (sm_battery inp now m) = sm_clear_fault_requested m"
  "sm_arming_since_ms (sm_battery inp now m) = sm_arming_since_ms m"
  "sm_last_activity_ms (sm_battery inp now m) = sm_last_activity_ms m"
  by (simp_all add: sm_battery_def)

lemma sm_battery_release [simp]:
  "sm_battery inp now (m \<lparr> sm_arm_release_required := b \<rparr>) =
   (sm_battery inp now m) \<lparr> sm_arm_release_required := b \<rparr>"
  by (simp add: sm_battery_def)

lemma estop_reason_release [simp]:
  "estop_reason inp now (m \<lparr> sm_arm_release_required := b \<rparr>) = estop_reason inp now m"
proof -
  have "batt_unsafe now (m \<lparr> sm_arm_release_required := b \<rparr>) = batt_unsafe now m"
    by (simp add: batt_unsafe_def)
  moreover have "failsafe_stop inp (m \<lparr> sm_arm_release_required := b \<rparr>) = failsafe_stop inp m"
    by (simp add: failsafe_stop_def)
  ultimately show ?thesis by (simp add: estop_reason_def)
qed

text \<open>
  The machine as the progression sees it: only the arm-edge flag, the battery debounce and the
  activity stamp may have changed.
\<close>

definition before_progress :: "StateInputs \<Rightarrow> u32 \<Rightarrow> StateMachine \<Rightarrow> StateMachine \<Rightarrow> bool" where
  "before_progress inp now m m1 \<longleftrightarrow>
     sm_state m1 = sm_state m \<and> sm_reason m1 = sm_reason m \<and> sm_params m1 = sm_params m \<and>
     sm_clear_fault_requested m1 = sm_clear_fault_requested m \<and>
     sm_arming_since_ms m1 = sm_arming_since_ms m \<and>
     sm_arm_release_required m1 =
       (sm_arm_release_required m \<or>
        sm_state m \<notin> {Boot, ConfigLoad, Disarmed} \<and> in_rc_armed inp) \<and>
     sm_last_activity_ms m1 =
       (if in_motion_active inp \<or> \<not> idleDisarmEligible (sm_state m) then now
        else sm_last_activity_ms m)"

lemma sm_update_cases:
  obtains
    (hard_fault) "in_dxl_hard_fault inp" "sm_state (sm_update inp now m) = FaultHard"
      "sm_reason (sm_update inp now m) = DxlHardware" "sm_arm_release_required (sm_update inp now m)"
      "\<not> sm_clear_fault_requested (sm_update inp now m)"
  | (hard_latched) "\<not> in_dxl_hard_fault inp" "sm_state m = FaultHard" "\<not> sm_clear_fault_requested m"
      "sm_state (sm_update inp now m) = FaultHard" "sm_reason (sm_update inp now m) = sm_reason m"
      "\<not> sm_clear_fault_requested (sm_update inp now m)"
      "sm_arm_release_required m \<longrightarrow> sm_arm_release_required (sm_update inp now m)"
  | (hard_cleared) "\<not> in_dxl_hard_fault inp" "sm_state m = FaultHard" "sm_clear_fault_requested m"
      "sm_state (sm_update inp now m) = Disarmed" "sm_reason (sm_update inp now m) = NoFault"
      "\<not> sm_clear_fault_requested (sm_update inp now m)"
      "sm_arm_release_required m \<longrightarrow> sm_arm_release_required (sm_update inp now m)"
  | (estop) "\<not> in_dxl_hard_fault inp" "sm_state m \<noteq> FaultHard" "stop_cause inp now m \<noteq> NoFault"
      "sm_state (sm_update inp now m) = Estop" "sm_reason (sm_update inp now m) = stop_cause inp now m"
      "sm_arm_release_required (sm_update inp now m)"
      "sm_clear_fault_requested (sm_update inp now m) = sm_clear_fault_requested m"
  | (estop_cleared) "\<not> in_dxl_hard_fault inp" "stop_cause inp now m = NoFault" "sm_state m = Estop"
      "sm_state (sm_update inp now m) = Disarmed" "sm_reason (sm_update inp now m) = NoFault"
      "sm_arm_release_required m \<longrightarrow> sm_arm_release_required (sm_update inp now m)"
      "sm_clear_fault_requested (sm_update inp now m) = sm_clear_fault_requested m"
  | (disarm) "\<not> in_dxl_hard_fault inp" "stop_cause inp now m = NoFault"
      "idle_expired inp now m \<or> in_host_disarm inp" "hostDisarmApplies (sm_state m)"
      "sm_state (sm_update inp now m) = Disarmed" "sm_reason (sm_update inp now m) = NoFault"
      "sm_arm_release_required (sm_update inp now m)"
      "sm_clear_fault_requested (sm_update inp now m) = sm_clear_fault_requested m"
  | (progress) m1 where "\<not> in_dxl_hard_fault inp" "stop_cause inp now m = NoFault"
      "sm_state m \<noteq> FaultHard" "sm_state m \<noteq> Estop" "\<not> idle_expired inp now m"
      "\<not> (in_host_disarm inp \<and> hostDisarmApplies (sm_state m))"
      "before_progress inp now m m1" "sm_update inp now m = sm_progress inp now m1"
proof -
  define b where "b = (sm_arm_release_required m \<or>
     sm_state m \<notin> {Boot, ConfigLoad, Disarmed} \<and> in_rc_armed inp)"
  define m0 where "m0 = m \<lparr> sm_arm_release_required := b \<rparr>"
  have m0: "(if sm_state m \<noteq> Boot \<and> sm_state m \<noteq> ConfigLoad \<and> sm_state m \<noteq> Disarmed \<and> in_rc_armed inp
             then m \<lparr> sm_arm_release_required := True \<rparr> else m) = m0"
    by (simp add: m0_def b_def)
  have st: "sm_state m0 = sm_state m" "sm_clear_fault_requested m0 = sm_clear_fault_requested m"
    "sm_reason m0 = sm_reason m" "sm_arm_release_required m0 = b"
    by (simp_all add: m0_def)
  define m1 where "m1 = (if in_motion_active inp \<or> \<not> idleDisarmEligible (sm_state m)
     then (sm_battery inp now m0) \<lparr> sm_last_activity_ms := now \<rparr> else sm_battery inp now m0)"
  have bp: "before_progress inp now m m1"
    by (auto simp: before_progress_def m1_def m0_def b_def)
  have cause: "estop_reason inp now (sm_battery inp now m0) = stop_cause inp now m"
    by (simp add: m0_def stop_cause_def)
  have idle: "(idle_disarm_ms (sm_params m1) \<noteq> 0 \<and> idleDisarmEligible (sm_state m1) \<and>
      elapsed now (sm_last_activity_ms m1) \<ge> idle_disarm_ms (sm_params m1)) = idle_expired inp now m"
    using bp by (auto simp: before_progress_def idle_expired_def)
  have elig: "idle_expired inp now m \<Longrightarrow> hostDisarmApplies (sm_state m)"
    by (cases "sm_state m") (simp_all add: idle_expired_def)
  have upd: "sm_update inp now m =
      (if in_dxl_hard_fault inp then
         (latchFault DxlHardware now (m0 \<lparr> sm_arm_release_required := True, sm_state := FaultHard \<rparr>))
           \<lparr> sm_reason := DxlHardware, sm_clear_fault_requested := False \<rparr>
       else if sm_state m = FaultHard then
         if sm_clear_fault_requested m
         then m0 \<lparr> sm_clear_fault_requested := False, sm_state := Disarmed, sm_reason := NoFault \<rparr>
         else m0
       else if stop_cause inp now m \<noteq> NoFault then
         (latchFault (stop_cause inp now m) now
            ((sm_battery inp now m0) \<lparr> sm_arm_release_required := True, sm_state := Estop \<rparr>))
           \<lparr> sm_reason := stop_cause inp now m \<rparr>
       else if sm_state m = Estop then
         (sm_battery inp now m0) \<lparr> sm_state := Disarmed, sm_reason := NoFault \<rparr>
       else if idle_expired inp now m then sm_disarm m1
       else if in_host_disarm inp \<and> hostDisarmApplies (sm_state m) then sm_disarm m1
       else sm_progress inp now m1)"
    unfolding sm_update_def Let_def m0 cause using st idle bp
    by (simp add: m1_def before_progress_def)
  have b: "sm_arm_release_required m \<longrightarrow> b" by (simp add: b_def)
  consider (hf) "in_dxl_hard_fault inp"
    | (hl) "\<not> in_dxl_hard_fault inp" "sm_state m = FaultHard"
    | (es) "\<not> in_dxl_hard_fault inp" "sm_state m \<noteq> FaultHard" "stop_cause inp now m \<noteq> NoFault"
    | (ec) "\<not> in_dxl_hard_fault inp" "stop_cause inp now m = NoFault" "sm_state m = Estop"
    | (di) "\<not> in_dxl_hard_fault inp" "sm_state m \<noteq> FaultHard" "stop_cause inp now m = NoFault"
        "sm_state m \<noteq> Estop" "idle_expired inp now m \<or> in_host_disarm inp \<and> hostDisarmApplies (sm_state m)"
    | (pr) "\<not> in_dxl_hard_fault inp" "sm_state m \<noteq> FaultHard" "stop_cause inp now m = NoFault"
        "sm_state m \<noteq> Estop" "\<not> idle_expired inp now m"
        "\<not> (in_host_disarm inp \<and> hostDisarmApplies (sm_state m))"
    by blast
  then show thesis
  proof cases
    case hf
    then show thesis by (intro hard_fault) (simp_all add: upd)
  next
    case hl
    then show thesis
      using hard_latched hard_cleared st b by (cases "sm_clear_fault_requested m") (simp_all add: upd)
  next
    case es
    then show thesis using st by (intro estop) (simp_all add: upd)
  next
    case ec
    then show thesis using st b by (intro estop_cleared) (simp_all add: upd)
  next
    case di
    then have "sm_update inp now m = sm_disarm m1" by (auto simp: upd)
    then show thesis
      using di elig bp by (intro disarm) (auto simp: sm_disarm_def before_progress_def)
  next
    case pr
    then show thesis using bp by (intro progress [of m1]) (auto simp: upd)
  qed
qed

section \<open>The progression\<close>

lemmas progress_defs = sm_progress_def Let_def

text \<open>What the inputs of a cycle must grant for the progression to end in a powered state.\<close>

lemma progress_motion:
  "sm_state (sm_progress inp now m) \<in> {StandReady, RcManual, ContactTerrain, JetsonAssisted} \<Longrightarrow>
   in_rc_armed inp"
  by (cases "sm_state m") (auto simp: progress_defs split: if_splits)

lemma progress_rc:
  "sm_state (sm_progress inp now m) \<in> {RcManual, ContactTerrain} \<Longrightarrow> srcIs (in_command_source inp) SrcRc"
  by (cases "sm_state m") (auto simp: progress_defs split: if_splits)

lemma progress_contact:
  "sm_state (sm_progress inp now m) = ContactTerrain \<Longrightarrow> in_contact_enabled inp \<and> in_contact_confident inp"
  by (cases "sm_state m") (auto simp: progress_defs split: if_splits)

lemma progress_jetson:
  "sm_state (sm_progress inp now m) = JetsonAssisted \<Longrightarrow> in_jetson_fresh inp \<and> in_rc_autonomy inp"
  by (cases "sm_state m") (auto simp: progress_defs split: if_splits)

lemma progress_mac:
  "sm_state (sm_progress inp now m) = MacMaintenance \<Longrightarrow> in_maintenance_request inp \<and> in_mac_lock_held inp"
  by (cases "sm_state m") (auto simp: progress_defs split: if_splits)

lemma progress_arming:
  "sm_state (sm_progress inp now m) = ArmingChecks \<Longrightarrow>
   sm_state m \<noteq> ArmingChecks \<Longrightarrow> sm_state m = Disarmed \<and> in_rc_armed inp \<and> \<not> sm_arm_release_required m \<and>
     \<not> in_host_disarm inp"
  by (cases "sm_state m") (auto simp: progress_defs split: if_splits)

lemma progress_stand:
  "sm_state (sm_progress inp now m) \<in> {StandReady, RcManual, ContactTerrain, JetsonAssisted} \<Longrightarrow>
   \<not> idleDisarmEligible (sm_state m) \<Longrightarrow>
   sm_state m = ArmingChecks \<and> in_arming_checks_pass inp \<and> in_battery_valid inp \<and>
     battery_min_mv (sm_params m) \<le> in_battery_mv inp"
  by (cases "sm_state m") (auto simp: progress_defs split: if_splits)

lemma progress_passive:
  "sm_state (sm_progress inp now m) = PassivePoseStream \<Longrightarrow>
   in_passive_request inp \<and> (sm_state m \<noteq> PassivePoseStream \<longrightarrow> in_torque_off inp)"
  by (cases "sm_state m") (auto simp: progress_defs split: if_splits)

lemma progress_params [simp]: "sm_params (sm_progress inp now m) = sm_params m"
  by (cases "sm_state m") (auto simp: progress_defs)

lemma progress_release:
  "in_rc_armed inp \<Longrightarrow> sm_arm_release_required m \<Longrightarrow> sm_arm_release_required (sm_progress inp now m)"
  by (cases "sm_state m") (auto simp: progress_defs)

lemma progress_no_estop:
  "sm_state m \<noteq> FaultHard \<Longrightarrow> sm_state m \<noteq> Estop \<Longrightarrow>
   sm_state (sm_progress inp now m) \<noteq> FaultHard \<and> sm_state (sm_progress inp now m) \<noteq> Estop"
  by (cases "sm_state m") (auto simp: progress_defs)

lemma progress_operational:
  "isOperational (sm_state (sm_progress inp now m)) \<Longrightarrow> \<not> isOperational (sm_state m) \<Longrightarrow>
   sm_state m = Disarmed \<and> in_rc_armed inp \<and> \<not> sm_arm_release_required m"
  by (cases "sm_state m") (auto simp: progress_defs split: if_splits)

section \<open>Invariant\<close>

definition estop_causes :: "FaultReason set" where
  "estop_causes = {RcKill, HostEstop, RcLinkLost, BatteryLow, WatchdogFault}"

definition sm_inv :: "StateMachine \<Rightarrow> bool" where
  "sm_inv m \<longleftrightarrow>
     (sm_state m = FaultHard \<longrightarrow> sm_reason m = DxlHardware \<and> sm_arm_release_required m) \<and>
     (sm_state m = Estop \<longrightarrow> sm_reason m \<in> estop_causes \<and> sm_arm_release_required m) \<and>
     (sm_state m = FaultSoft \<longrightarrow> sm_reason m = ArmingTimeout \<and> sm_arm_release_required m) \<and>
     (sm_state m \<notin> {FaultHard, Estop, FaultSoft} \<longrightarrow> sm_reason m = NoFault)"

datatype sm_event = SmUpdate StateInputs u32 | SmClearFault | SmConfigure StateParams

fun sm_step :: "sm_event \<Rightarrow> StateMachine \<Rightarrow> StateMachine" where
  "sm_step (SmUpdate inp now) m = sm_update inp now m"
| "sm_step SmClearFault m = requestClearFault m"
| "sm_step (SmConfigure p) m = sm_configure p m"

inductive sm_reachable :: "StateMachine \<Rightarrow> bool" where
  start: "sm_reachable (sm_reset m)"
| step: "sm_reachable m \<Longrightarrow> sm_reachable (sm_step e m)"

lemma stop_cause_in: "stop_cause inp now m \<noteq> NoFault \<Longrightarrow> stop_cause inp now m \<in> estop_causes"
  by (auto simp: stop_cause_def estop_reason_def estop_causes_def split: if_splits)

lemma sm_inv_progress:
  "sm_inv m \<Longrightarrow> sm_state m \<noteq> FaultHard \<Longrightarrow> sm_state m \<noteq> Estop \<Longrightarrow> sm_inv (sm_progress inp now m)"
  by (cases "sm_state m") (auto simp: progress_defs sm_inv_def)

lemma sm_inv_update: "sm_inv m \<Longrightarrow> sm_inv (sm_update inp now m)"
proof (cases rule: sm_update_cases [where inp = inp and now = now and m = m])
  case estop
  then show ?thesis using stop_cause_in [OF estop(3)] by (simp add: sm_inv_def)
next
  case (progress m1)
  assume "sm_inv m"
  then have "sm_inv m1" "sm_state m1 \<noteq> FaultHard" "sm_state m1 \<noteq> Estop"
    using progress(3,4,7) by (auto simp: sm_inv_def before_progress_def)
  then show ?thesis unfolding progress(8) by (rule sm_inv_progress)
qed (auto simp: sm_inv_def)

lemma sm_inv_reachable: "sm_reachable m \<Longrightarrow> sm_inv m"
proof (induction rule: sm_reachable.induct)
  case (start m)
  then show ?case by (simp add: sm_inv_def sm_reset_def)
next
  case (step m e)
  then show ?case
    using sm_inv_update
    by (cases e) (auto simp: requestClearFault_def sm_configure_def sm_inv_def)
qed

section \<open>Properties\<close>

definition sm_initial :: StateMachine where
  "sm_initial = sm_reset \<lparr> sm_params = StateParams_default, sm_state = Boot, sm_reason = NoFault,
     sm_last_fault_reason = NoFault, sm_last_fault_timestamp_ms = 0,
     sm_clear_fault_requested = False, sm_batt_low_active = False, sm_batt_low_since_ms = 0,
     sm_arming_since_ms = 0, sm_last_activity_ms = 0, sm_arm_release_required = True \<rparr>"

definition quiet :: StateInputs where
  "quiet = \<lparr> in_config_loaded = True, in_battery_mv = 12000, in_battery_valid = True,
     in_watchdog_fault = False, in_dxl_hard_fault = False, in_host_estop = False, in_rc_kill = False,
     in_rc_failsafe = False, in_rc_ever_seen = True, in_rc_armed = False,
     in_arming_checks_pass = False, in_host_disarm = False, in_command_source = 0,
     in_jetson_fresh = False, in_rc_autonomy = False, in_mac_lock_held = False,
     in_maintenance_request = False, in_maintenance_failsafe_recovery = False,
     in_passive_request = False, in_torque_off = False, in_contact_enabled = False,
     in_contact_confident = False, in_motion_active = False \<rparr>"

abbreviation armed_inputs :: StateInputs where
  "armed_inputs \<equiv> quiet \<lparr> in_rc_armed := True, in_arming_checks_pass := True, in_command_source := 1 \<rparr>"

lemmas sm_eval = sm_update_def sm_progress_def sm_battery_def estop_reason_def batt_unsafe_def
  failsafe_stop_def stale_failsafe_maintenance_recovery_def latchFault_def sm_disarm_def srcIs_def
  sm_initial_def sm_reset_def quiet_def StateParams_default_def requestClearFault_def Let_def

text \<open>
  C6: stop conditions win. A DXL hard fault, a host E-stop or a stalled critical task leads from every
  state in that very update to a state with no motion, no torque and no DXL power. So does, once a
  receiver has been seen and unless the stale failsafe of a recovery maintenance lock is in force, an
  RC kill from every state and a lost RC link from every operational state.
\<close>

theorem sm_stop_dominates:
  assumes "in_dxl_hard_fault inp \<or> in_host_estop inp \<or> in_watchdog_fault inp \<or>
           in_rc_ever_seen inp \<and> \<not> stale_failsafe_maintenance_recovery inp \<and>
             (in_rc_kill inp \<or> in_rc_failsafe inp \<and> isOperational (sm_state m))"
  shows "sm_state (sm_update inp now m) \<in> {FaultHard, Estop, Disarmed} \<and>
         (sm_state m \<noteq> FaultHard \<longrightarrow> sm_state (sm_update inp now m) \<in> {FaultHard, Estop}) \<and>
         \<not> stateAllowsDxlPower (sm_state (sm_update inp now m)) \<and>
         \<not> stateAllowsTorque (sm_state (sm_update inp now m)) \<and>
         \<not> stateAllowsMotion (sm_state (sm_update inp now m))"
proof -
  have cause: "\<not> in_dxl_hard_fault inp \<Longrightarrow> stop_cause inp now m \<noteq> NoFault"
    using assms by (auto simp: stop_cause_def estop_reason_def failsafe_stop_def)
  have "sm_state (sm_update inp now m) \<in> {FaultHard, Estop, Disarmed} \<and>
      (sm_state m \<noteq> FaultHard \<longrightarrow> sm_state (sm_update inp now m) \<in> {FaultHard, Estop})"
    using cause by (cases rule: sm_update_cases [where inp = inp and now = now and m = m]) auto
  then show ?thesis by (auto simp: stateAllowsDxlPower_def stateAllowsTorque_def)
qed

theorem sm_stop_dominates_witness:
  "sm_state (sm_update (armed_inputs \<lparr> in_rc_kill := True \<rparr>) 9 (sm_initial \<lparr> sm_state := RcManual \<rparr>))
     \<in> {FaultHard, Estop, Disarmed} \<and>
   \<not> stateAllowsDxlPower
       (sm_state (sm_update (armed_inputs \<lparr> in_rc_kill := True \<rparr>) 9 (sm_initial \<lparr> sm_state := RcManual \<rparr>)))"
proof -
  have "in_rc_ever_seen (armed_inputs \<lparr> in_rc_kill := True \<rparr>) \<and>
      \<not> stale_failsafe_maintenance_recovery (armed_inputs \<lparr> in_rc_kill := True \<rparr>) \<and>
      in_rc_kill (armed_inputs \<lparr> in_rc_kill := True \<rparr>)"
    by (simp add: stale_failsafe_maintenance_recovery_def quiet_def)
  then show ?thesis
    using sm_stop_dominates [of "armed_inputs \<lparr> in_rc_kill := True \<rparr>" "sm_initial \<lparr> sm_state := RcManual \<rparr>" 9]
    by blast
qed

text \<open>
  No state grants motion beyond what the inputs of that cycle authorise: after any update from
  any state, RC walking states imply the RC arm switch and RC as the command source, terrain mode
  in addition enabled and confident contact sensing, Jetson assistance a fresh heartbeat and the RC
  autonomy switch, bench maintenance a request under a held lock; and none of them survives a host
  disarm, a host E-stop or a hard fault in the same cycle.
\<close>

theorem sm_motion_authority:
  "case sm_state (sm_update inp now m) of
     RcManual \<Rightarrow> in_rc_armed inp \<and> srcIs (in_command_source inp) SrcRc \<and> \<not> in_host_disarm inp \<and>
                  \<not> in_host_estop inp \<and> \<not> in_dxl_hard_fault inp \<and> \<not> in_watchdog_fault inp
   | ContactTerrain \<Rightarrow> in_rc_armed inp \<and> srcIs (in_command_source inp) SrcRc \<and>
                  in_contact_enabled inp \<and> in_contact_confident inp \<and> \<not> in_host_disarm inp \<and>
                  \<not> in_host_estop inp \<and> \<not> in_dxl_hard_fault inp \<and> \<not> in_watchdog_fault inp
   | JetsonAssisted \<Rightarrow> in_rc_armed inp \<and> in_jetson_fresh inp \<and> in_rc_autonomy inp \<and>
                  \<not> in_host_disarm inp \<and> \<not> in_host_estop inp \<and> \<not> in_dxl_hard_fault inp \<and>
                  \<not> in_watchdog_fault inp
   | MacMaintenance \<Rightarrow> in_maintenance_request inp \<and> in_mac_lock_held inp \<and> \<not> in_host_disarm inp \<and>
                  \<not> in_host_estop inp \<and> \<not> in_dxl_hard_fault inp \<and> \<not> in_watchdog_fault inp
   | s \<Rightarrow> \<not> stateAllowsMotion s"
proof (cases rule: sm_update_cases [where inp = inp and now = now and m = m])
  case (progress m1)
  have "\<not> in_host_estop inp" "\<not> in_watchdog_fault inp"
    using progress(2) by (auto simp: stop_cause_def estop_reason_def split: if_splits)
  moreover have "\<not> in_host_disarm inp"
    if "stateAllowsMotion (sm_state (sm_progress inp now m1))"
    using that progress(6,7)
    by (cases "sm_state m1") (auto simp: progress_defs before_progress_def split: if_splits)
  ultimately show ?thesis
    using progress(1) progress_motion [of inp now m1] progress_rc [of inp now m1]
      progress_contact [of inp now m1] progress_jetson [of inp now m1] progress_mac [of inp now m1]
    unfolding progress(8) by (cases "sm_state (sm_progress inp now m1)") simp_all
qed auto

text \<open>
  C7: a held arm switch never restarts the robot: after any update that ended in E-stop, a fault, or
  a forced or idle disarm (all of which demand a release), however many further updates arrive
  with the switch held, with whatever other inputs, and however often faults are cleared, the
  machine never gets back to an arming or armed state.
\<close>

definition held_event :: "sm_event \<Rightarrow> bool" where
  "held_event e = (case e of SmUpdate inp now \<Rightarrow> in_rc_armed inp | _ \<Rightarrow> True)"

lemma held_step:
  assumes "sm_arm_release_required m" and "\<not> isOperational (sm_state m)" and "held_event e"
  shows "sm_arm_release_required (sm_step e m) \<and> \<not> isOperational (sm_state (sm_step e m))"
proof (cases e)
  case (SmUpdate inp now)
  then have armed: "in_rc_armed inp" using assms(3) by (simp add: held_event_def)
  have "sm_arm_release_required (sm_update inp now m) \<and>
      \<not> isOperational (sm_state (sm_update inp now m))" (is ?goal)
  proof (cases rule: sm_update_cases [where inp = inp and now = now and m = m])
    case (progress m1)
    then have "sm_arm_release_required m1" "\<not> isOperational (sm_state m1)"
      using assms by (auto simp: before_progress_def)
    then show ?goal
      using progress_release [OF armed, of m1 now] progress_operational [of inp now m1]
      unfolding progress(8) by metis
  qed (use assms(1) in simp_all)
  then show ?thesis by (simp add: SmUpdate)
qed (use assms in \<open>simp_all add: requestClearFault_def sm_configure_def\<close>)

theorem sm_held_switch_never_rearms:
  assumes "sm_reachable m" and "sm_state m \<in> {Estop, FaultSoft, FaultHard}"
    and "list_all held_event es"
  shows "\<not> isOperational (sm_state (fold sm_step es m))"
proof -
  have "sm_arm_release_required m" "\<not> isOperational (sm_state m)"
    using sm_inv_reachable [OF assms(1)] assms(2) by (auto simp: sm_inv_def)
  then have "sm_arm_release_required (fold sm_step es m) \<and> \<not> isOperational (sm_state (fold sm_step es m))"
    using assms(3)
  proof (induction es arbitrary: m)
    case (Cons e es)
    then show ?case using held_step [of m e] by simp
  qed simp
  then show ?thesis by blast
qed

lemma sm_reachable_run: "sm_reachable m \<Longrightarrow> sm_reachable (fold sm_step es m)"
  by (induction es arbitrary: m) (simp_all add: sm_reachable.step)

theorem sm_held_switch_never_rearms_witness:
  "\<not> isOperational (sm_state (fold sm_step [SmClearFault, SmUpdate armed_inputs 2, SmUpdate armed_inputs 3]
      (fold sm_step [SmUpdate (armed_inputs \<lparr> in_host_estop := True \<rparr>) 1] sm_initial)))"
proof (rule sm_held_switch_never_rearms)
  show "sm_reachable (fold sm_step [SmUpdate (armed_inputs \<lparr> in_host_estop := True \<rparr>) 1] sm_initial)"
    by (rule sm_reachable_run) (simp only: sm_initial_def sm_reachable.start)
  show "sm_state (fold sm_step [SmUpdate (armed_inputs \<lparr> in_host_estop := True \<rparr>) 1] sm_initial)
      \<in> {Estop, FaultSoft, FaultHard}"
    by (simp add: sm_eval)
qed (simp add: held_event_def quiet_def)

text \<open>
  Torque on an armed robot is reachable only through the arming sequence: an update that enters
  StandReady or a walking state from a state outside that group starts in ArmingChecks and finds
  the RC switch armed, the arming checks passed and a valid battery reading at or above the
  minimum; an update that enters ArmingChecks starts in Disarmed after the arm switch was seen
  released, with no host disarm.
\<close>

theorem sm_arming_sequence:
  "(idleDisarmEligible (sm_state (sm_update inp now m)) \<and> \<not> idleDisarmEligible (sm_state m) \<longrightarrow>
      sm_state m = ArmingChecks \<and> in_rc_armed inp \<and> in_arming_checks_pass inp \<and>
      in_battery_valid inp \<and> battery_min_mv (sm_params m) \<le> in_battery_mv inp) \<and>
   (sm_state (sm_update inp now m) = ArmingChecks \<and> sm_state m \<noteq> ArmingChecks \<longrightarrow>
      sm_state m = Disarmed \<and> in_rc_armed inp \<and> \<not> sm_arm_release_required m \<and> \<not> in_host_disarm inp)"
proof (cases rule: sm_update_cases [where inp = inp and now = now and m = m])
  case (progress m1)
  have elig: "idleDisarmEligible s \<longleftrightarrow> s \<in> {StandReady, RcManual, ContactTerrain, JetsonAssisted}" for s
    by (cases s) simp_all
  have "sm_state m1 = sm_state m" "sm_params m1 = sm_params m"
    "sm_state m = Disarmed \<longrightarrow> sm_arm_release_required m1 = sm_arm_release_required m"
    using progress(7) by (auto simp: before_progress_def)
  then show ?thesis
    using progress_motion [of inp now m1] progress_stand [of inp now m1] progress_arming [of inp now m1]
    unfolding progress(8) elig by auto
qed auto

theorem sm_arming_sequence_witness:
  "idleDisarmEligible (sm_state (sm_update armed_inputs 5 (sm_initial \<lparr> sm_state := ArmingChecks \<rparr>))) \<and>
   in_arming_checks_pass armed_inputs \<and>
   battery_min_mv (sm_params (sm_initial \<lparr> sm_state := ArmingChecks \<rparr>)) \<le> in_battery_mv armed_inputs"
proof -
  have "idleDisarmEligible (sm_state (sm_update armed_inputs 5 (sm_initial \<lparr> sm_state := ArmingChecks \<rparr>)))"
    by (simp add: sm_eval)
  moreover have "\<not> idleDisarmEligible (sm_state (sm_initial \<lparr> sm_state := ArmingChecks \<rparr>))" by simp
  ultimately show ?thesis
    using sm_arming_sequence [of armed_inputs 5 "sm_initial \<lparr> sm_state := ArmingChecks \<rparr>"] by blast
qed

text \<open>
  A hard fault is latched: once a DXL hard fault has been reported, no sequence of updates
  leaves FaultHard as long as the operator does not ask for a clear, and a clear request that was
  pending before the fault does not count.
\<close>

definition no_clear :: "sm_event \<Rightarrow> bool" where
  "no_clear e = (e \<noteq> SmClearFault)"

theorem sm_hard_fault_latched:
  assumes "in_dxl_hard_fault inp" and "list_all no_clear es"
  shows "sm_state (fold sm_step es (sm_update inp now m)) = FaultHard"
proof -
  have step: "sm_state (sm_step e m) = FaultHard \<and> \<not> sm_clear_fault_requested (sm_step e m)"
    if "sm_state m = FaultHard" "\<not> sm_clear_fault_requested m" "no_clear e" for e m
  proof (cases e)
    case (SmUpdate inp now)
    show ?thesis unfolding SmUpdate sm_step.simps
      using that by (cases rule: sm_update_cases [where inp = inp and now = now and m = m]) auto
  qed (use that in \<open>simp_all add: no_clear_def sm_configure_def\<close>)
  have "sm_state (sm_update inp now m) = FaultHard \<and> \<not> sm_clear_fault_requested (sm_update inp now m)"
    using assms(1) by (cases rule: sm_update_cases [where inp = inp and now = now and m = m]) auto
  then have "sm_state (fold sm_step es (sm_update inp now m)) = FaultHard \<and>
      \<not> sm_clear_fault_requested (fold sm_step es (sm_update inp now m))"
    using assms(2)
  proof (induction es arbitrary: inp now m rule: rev_induct)
    case (snoc e es)
    then show ?case using step [of "fold sm_step es (sm_update inp now m)" e] by simp
  qed simp
  then show ?thesis by blast
qed

theorem sm_hard_fault_latched_witness:
  "sm_state (fold sm_step [SmUpdate quiet 4, SmUpdate armed_inputs 5]
     (sm_update (quiet \<lparr> in_dxl_hard_fault := True \<rparr>) 3 (requestClearFault sm_initial))) = FaultHard"
  by (rule sm_hard_fault_latched) (simp_all add: no_clear_def)

text \<open>
  Arming can not hang: a machine that entered ArmingChecks at time \<open>t\<close> and is updated at any
  time from the time-out on (and before the 32-bit millisecond counter wraps) leaves ArmingChecks
  in that update, whatever the inputs.
\<close>

theorem sm_arming_terminates:
  assumes "sm_state m = ArmingChecks" and "sm_arming_since_ms m = t"
    and "unat (arming_timeout_ms (sm_params m)) \<le> d" and "d < 2 ^ 32"
  shows "sm_state (sm_update inp (t + word_of_nat d) m) \<noteq> ArmingChecks"
proof (cases rule: sm_update_cases [where inp = inp and now = "t + word_of_nat d" and m = m])
  case (progress m1)
  have "sm_state m1 = ArmingChecks" "sm_arming_since_ms m1 = t" "sm_params m1 = sm_params m"
    using progress(7) assms(1,2) by (auto simp: before_progress_def)
  moreover have "ucast (arming_timeout_ms (sm_params m)) \<le> elapsed (t + word_of_nat d) t"
    using assms(3,4) by (simp add: word_le_nat_alt unat_of_nat take_bit_nat_eq_self)
  ultimately show ?thesis
    unfolding progress(8) by (simp add: progress_defs)
qed auto

theorem sm_arming_terminates_witness:
  "sm_state (sm_update (quiet \<lparr> in_rc_armed := True \<rparr>) (4294967000 + word_of_nat 10001)
     (sm_initial \<lparr> sm_state := ArmingChecks, sm_arming_since_ms := 4294967000 \<rparr>)) \<noteq> ArmingChecks"
  by (rule sm_arming_terminates) (simp_all add: sm_initial_def sm_reset_def StateParams_default_def)

text \<open>
  The idle timer cuts power: an armed machine whose last activity was at \<open>t\<close>, updated without
  motion at any time from \<open>idle_disarm_ms\<close> on (and before the counter wraps), is no longer in an
  armed state after the update; if no stop source is active it is in Disarmed, DXL power is no longer
  permitted and the arm switch must be released before the next arming.
\<close>

theorem sm_idle_disarms:
  assumes "idleDisarmEligible (sm_state m)" and "sm_last_activity_ms m = t"
    and "idle_disarm_ms (sm_params m) \<noteq> 0" and "unat (idle_disarm_ms (sm_params m)) \<le> d" and "d < 2 ^ 32"
    and "\<not> in_motion_active inp"
  shows "\<not> stateAllowsDxlPower (sm_state (sm_update inp (t + word_of_nat d) m)) \<and>
         sm_arm_release_required (sm_update inp (t + word_of_nat d) m) \<and>
         (\<not> in_dxl_hard_fault inp \<and> stop_cause inp (t + word_of_nat d) m = NoFault \<longrightarrow>
            sm_state (sm_update inp (t + word_of_nat d) m) = Disarmed)"
proof -
  have "idle_disarm_ms (sm_params m) \<le> elapsed (t + word_of_nat d) t"
    using assms(4,5) by (simp add: word_le_nat_alt unat_of_nat take_bit_nat_eq_self)
  then have "idle_expired inp (t + word_of_nat d) m"
    using assms by (simp add: idle_expired_def)
  moreover have "sm_state m \<noteq> FaultHard" "sm_state m \<noteq> Estop" using assms(1) by auto
  ultimately show ?thesis
    by (cases rule: sm_update_cases [where inp = inp and now = "t + word_of_nat d" and m = m])
       (auto simp: stateAllowsDxlPower_def stateAllowsTorque_def)
qed

theorem sm_idle_disarms_witness:
  "\<not> stateAllowsDxlPower (sm_state (sm_update armed_inputs (100 + word_of_nat 60000)
      (sm_initial \<lparr> sm_state := StandReady, sm_last_activity_ms := 100 \<rparr>)))"
  using sm_idle_disarms [of "sm_initial \<lparr> sm_state := StandReady, sm_last_activity_ms := 100 \<rparr>" 100 60000 armed_inputs]
  by (simp add: sm_initial_def sm_reset_def StateParams_default_def quiet_def)

definition sm_updates :: "(StateInputs \<times> u32) list \<Rightarrow> StateMachine \<Rightarrow> StateMachine" where
  "sm_updates us m = fold (\<lambda>(inp, now). sm_update inp now) us m"

lemma clear_request_kept:
  assumes "\<not> in_dxl_hard_fault inp" and "sm_state m \<noteq> FaultSoft" and "sm_state m \<noteq> FaultHard" and "sm_clear_fault_requested m"
  shows "sm_clear_fault_requested (sm_update inp now m) \<and> sm_state (sm_update inp now m) \<noteq> FaultHard"
proof (cases rule: sm_update_cases [where inp = inp and now = now and m = m])
  case (progress m1)
  then have m1: "sm_state m1 = sm_state m" "sm_clear_fault_requested m1" using assms(4) by (simp_all add: before_progress_def)
  show ?thesis unfolding progress(8) using m1 assms(2,3) by (cases "sm_state m") (auto simp: sm_progress_def Let_def)
qed (use assms in auto)

lemma clear_request_pending:
  assumes "sm_state m \<noteq> FaultHard" and "list_all (\<lambda>(inp, now). \<not> in_dxl_hard_fault inp) us"
    and "\<forall>n < length us. sm_state (sm_updates (take n us) (requestClearFault m)) \<noteq> FaultSoft"
  shows "sm_clear_fault_requested (sm_updates us (requestClearFault m)) \<and> sm_state (sm_updates us (requestClearFault m)) \<noteq> FaultHard"
  using assms
proof (induction us rule: rev_induct)
  case Nil
  then show ?case by (simp add: sm_updates_def requestClearFault_def)
next
  case (snoc u us)
  obtain inp now where u: "u = (inp, now)" by (cases u)
  have "\<forall>n < length us. sm_state (sm_updates (take n us) (requestClearFault m)) \<noteq> FaultSoft"
  proof (intro allI impI)
    fix n assume "n < length us"
    then show "sm_state (sm_updates (take n us) (requestClearFault m)) \<noteq> FaultSoft" using snoc.prems(3) [rule_format, of n] by simp
  qed
  with snoc have IH: "sm_clear_fault_requested (sm_updates us (requestClearFault m))" "sm_state (sm_updates us (requestClearFault m)) \<noteq> FaultHard" by simp_all
  have "sm_state (sm_updates us (requestClearFault m)) \<noteq> FaultSoft" using snoc.prems(3) [rule_format, of "length us"] by simp
  then show ?case using clear_request_kept [OF _ _ IH(2,1), of inp now] snoc.prems(2) u by (simp add: sm_updates_def)
qed

text \<open>
  C35: a clear request does not only act on the fault it was meant for. A CLEAR_FAULT received in any state
  but the two faults stays pending through every further update without a DXL hard fault; so when at some
  later time the arming time-out leads to FaultSoft, the next update without a stop condition leaves that
  fault again by itself, although nobody asked for it after the fault.
\<close>

theorem sm_stale_clear_request:
  assumes "sm_state m \<noteq> FaultHard" and "list_all (\<lambda>(inp, now). \<not> in_dxl_hard_fault inp) us"
    and "\<forall>n < length us. sm_state (sm_updates (take n us) (requestClearFault m)) \<noteq> FaultSoft"
    and "sm_state (sm_updates us (requestClearFault m)) = FaultSoft"
    and "\<not> in_dxl_hard_fault inp" and "stop_cause inp now (sm_updates us (requestClearFault m)) = NoFault"
  shows "sm_state (sm_updates (us @ [(inp, now)]) (requestClearFault m)) = Disarmed"
proof -
  let ?m = "sm_updates us (requestClearFault m)"
  note p = clear_request_pending [OF assms(1-3)]
  have "sm_state (sm_update inp now ?m) = Disarmed"
  proof (cases rule: sm_update_cases [where inp = inp and now = now and m = ?m])
    case (progress m1)
    then show ?thesis using p assms(4) by (simp add: before_progress_def sm_progress_def)
  qed (use assms p in auto)
  then show ?thesis by (simp add: sm_updates_def)
qed

definition stale_clear_trace :: "(StateInputs \<times> u32) list" where
  "stale_clear_trace = [(quiet, 2), (quiet \<lparr> in_rc_armed := True \<rparr>, 10), (quiet \<lparr> in_rc_armed := True \<rparr>, 10010)]"

theorem sm_stale_clear_request_witness:
  "sm_state (sm_updates stale_clear_trace (requestClearFault (sm_initial \<lparr> sm_state := Disarmed \<rparr>))) = FaultSoft \<and>
   sm_state (sm_updates (stale_clear_trace @ [(quiet \<lparr> in_rc_armed := True \<rparr>, 10020)]) (requestClearFault (sm_initial \<lparr> sm_state := Disarmed \<rparr>))) = Disarmed"
proof -
  let ?m = "sm_initial \<lparr> sm_state := Disarmed \<rparr>"
  have f: "sm_state (sm_updates stale_clear_trace (requestClearFault ?m)) = FaultSoft"
    by (simp add: stale_clear_trace_def sm_updates_def sm_eval)
  have n: "\<forall>n < length stale_clear_trace. sm_state (sm_updates (take n stale_clear_trace) (requestClearFault ?m)) \<noteq> FaultSoft"
    by (simp add: stale_clear_trace_def sm_updates_def sm_eval All_less_Suc numeral_3_eq_3)
  have h: "list_all (\<lambda>(inp, now). \<not> in_dxl_hard_fault inp) stale_clear_trace" by (simp add: stale_clear_trace_def quiet_def)
  have s: "stop_cause (quiet \<lparr> in_rc_armed := True \<rparr>) 10020 (sm_updates stale_clear_trace (requestClearFault ?m)) = NoFault"
    by (simp add: stop_cause_def stale_clear_trace_def sm_updates_def sm_eval)
  show ?thesis using f sm_stale_clear_request [OF _ h n f _ s] by (simp add: quiet_def)
qed

end
