(* ===== verification/CrcRegister.thy ===== *)
theory CrcRegister
  imports Prelude
begin

text \<open>
  Linear feedback shift registers, shared by the CRC-16 of the USB link and the store and by the CRC-8
  of the radio link. A shift is a bijection of the register as soon as the polynomial has its constant
  term; the locale states what a byte-wise register promises (both arguments of a step can be recovered
  from its result) and derives that every error confined to one byte changes the checksum.
\<close>

definition lfsr_shift :: "'a::len word \<Rightarrow> 'a word \<Rightarrow> 'a word" where
  "lfsr_shift poly w = (if bit w (LENGTH('a) - 1) then push_bit 1 w XOR poly else push_bit 1 w)"

lemma bit_shifted: "bit (push_bit 1 (w :: 'a::len word)) n \<longleftrightarrow> 0 < n \<and> n < LENGTH('a) \<and> bit w (n - 1)"
  by (simp only: bit_push_bit_iff) (auto simp: Suc_le_eq)

lemma lfsr_shift_bit0: "bit poly 0 \<Longrightarrow> bit (lfsr_shift poly (w :: 'a::len word)) 0 = bit w (LENGTH('a) - 1)"
  by (simp only: lfsr_shift_def bit_xor_iff bit_shifted if_split [where P = "\<lambda>w. bit w 0 = _"]) simp

lemma push_bit_1_eqD:
  assumes "push_bit 1 a = push_bit 1 (b :: 'a::len word)" and "bit a (LENGTH('a) - 1) = bit b (LENGTH('a) - 1)"
  shows "a = b"
proof (rule bit_word_eqI)
  fix n assume n: "n < LENGTH('a)"
  show "bit a n = bit b n"
  proof (cases "Suc n < LENGTH('a)")
    case True
    then show ?thesis using bit_shifted [of a "Suc n"] bit_shifted [of b "Suc n"] assms(1) by simp
  next
    case False
    then have "n = LENGTH('a) - 1" using n by simp
    then show ?thesis using assms(2) by simp
  qed
qed

lemma xor_cancel: "(a :: 'a::len word) XOR c = b XOR c \<longleftrightarrow> a = b" "c XOR a = c XOR b \<longleftrightarrow> a = b"
  by (metis xor.assoc xor_self_eq xor.right_neutral, metis xor.assoc xor_self_eq xor.left_neutral)

lemma lfsr_shift_inj:
  assumes "bit poly 0" and eq: "lfsr_shift poly a = lfsr_shift poly (b :: 'a::len word)"
  shows "a = b"
proof -
  have top: "bit a (LENGTH('a) - 1) = bit b (LENGTH('a) - 1)" using lfsr_shift_bit0 [OF assms(1)] eq by metis
  then have "push_bit 1 a = push_bit 1 b" using eq by (auto simp: lfsr_shift_def xor_cancel split: if_splits)
  then show ?thesis using top by (rule push_bit_1_eqD)
qed

lemma lfsr_shifts_inj: "bit poly 0 \<Longrightarrow> (lfsr_shift poly ^^ n) a = (lfsr_shift poly ^^ n) b \<Longrightarrow> a = b"
  by (induction n) (auto dest: lfsr_shift_inj)

locale crc_register =
  fixes feed :: "'r \<Rightarrow> 'b \<Rightarrow> 'r"
  assumes feed_register: "feed c b = feed d b \<Longrightarrow> c = d"
    and feed_byte: "feed c b = feed c b' \<Longrightarrow> b = b'"
begin

lemma run_inj: "fold (\<lambda>b c. feed c b) bs c = fold (\<lambda>b c. feed c b) bs d \<Longrightarrow> c = d"
  by (induction bs arbitrary: c d) (auto dest: feed_register)

lemma detects_byte_change:
  "b \<noteq> b' \<Longrightarrow> fold (\<lambda>b c. feed c b) (xs @ b # ys) c \<noteq> fold (\<lambda>b c. feed c b) (xs @ b' # ys) c"
  by (auto dest: run_inj feed_byte)

end

end
