(* ===== verification/Crc16.thy ===== *)
theory Crc16
  imports CrcRegister
begin

text \<open>
  CRC-16/CCITT-FALSE (\<open>protocol/crc16.h\<close>, \<open>protocol/crc16.cpp\<close>): the bitwise update
  loop of the source, the one-shot form, and the facts its clients rest on: an update over
  two buffers is the update over their concatenation, the update of a single byte is a
  bijection of the register, and therefore every error confined to one byte is detected.
\<close>

definition kCrc16Init :: u16 where
  "kCrc16Init = 0xFFFF"

text \<open>One iteration of the inner loop \<open>for (bit = 0; bit < 8; ++bit)\<close>.\<close>

definition crc16_shift :: "u16 \<Rightarrow> u16" where
  "crc16_shift crc =
     (if crc AND 0x8000 \<noteq> 0 then push_bit 1 crc XOR 0x1021 else push_bit 1 crc)"

text \<open>One iteration of the outer loop: fold a byte into the top of the register.\<close>

definition crc16_byte :: "u16 \<Rightarrow> u8 \<Rightarrow> u16" where
  "crc16_byte crc b = (crc16_shift ^^ 8) (crc XOR push_bit 8 (ucast b))"

fun crc16Update :: "u16 \<Rightarrow> bytes \<Rightarrow> u16" where
  "crc16Update crc [] = crc"
| "crc16Update crc (b # bs) = crc16Update (crc16_byte crc b) bs"

definition crc16 :: "bytes \<Rightarrow> u16" where
  "crc16 data = crc16Update kCrc16Init data"

lemma crc16Update_append: "crc16Update crc (xs @ ys) = crc16Update (crc16Update crc xs) ys"
  by (induction xs arbitrary: crc) simp_all

subsection \<open>The register update is injective\<close>

lemma crc16_shift_lfsr: "crc16_shift = lfsr_shift 0x1021"
proof
  fix w :: u16
  have "(0x8000 :: u16) = push_bit 15 1" by (simp add: push_bit_eq_mult)
  then have "w AND 0x8000 \<noteq> 0 \<longleftrightarrow> bit w 15" by (simp only: bit_iff_and_push_bit_not_eq_0)
  then show "crc16_shift w = lfsr_shift 0x1021 w" by (simp add: crc16_shift_def lfsr_shift_def)
qed

lemma crc16_shifts_inj: "(crc16_shift ^^ n) a = (crc16_shift ^^ n) b \<Longrightarrow> a = b"
  unfolding crc16_shift_lfsr by (rule lfsr_shifts_inj) simp_all

lemma push_8_inj: "push_bit 8 (ucast (b :: u8) :: u16) = push_bit 8 (ucast d) \<Longrightarrow> b = d"
proof (rule bit_word_eqI)
  fix n assume eq: "push_bit 8 (ucast b :: u16) = push_bit 8 (ucast d)" and n: "n < LENGTH(8)"
  from eq have "bit (push_bit 8 (ucast b :: u16)) (n + 8) = bit (push_bit 8 (ucast d :: u16)) (n + 8)" by simp
  with n show "bit b n = bit d n" by (simp add: bit_simps)
qed

interpretation crc16_reg: crc_register crc16_byte
  by unfold_locales (auto simp: crc16_byte_def xor_cancel dest!: crc16_shifts_inj push_8_inj)

lemma crc16Update_fold: "crc16Update c bs = fold (\<lambda>b c. crc16_byte c b) bs c"
  by (induction bs arbitrary: c) simp_all

subsection \<open>Chunked evaluation\<close>

text \<open>
  The interface a store or a codec needs of its checksum: it can be computed piecewise.
  \<open>run_chunks\<close> is a loop that feeds consecutive chunks to the update function.
\<close>

locale incremental_checksum =
  fixes init :: 'c
    and upd :: "'c \<Rightarrow> 'b list \<Rightarrow> 'c"
  assumes upd_nil: "upd c [] = c"
    and upd_append: "upd c (xs @ ys) = upd (upd c xs) ys"
begin

lemma upd_concat: "upd c (concat xss) = fold (\<lambda>xs c. upd c xs) xss c"
  by (induction xss arbitrary: c) (simp_all add: upd_nil upd_append)

lemma upd_take_drop: "upd (upd c (take n xs)) (drop n xs) = upd c xs"
  by (metis upd_append append_take_drop_id)

end

interpretation crc16_sum: incremental_checksum kCrc16Init crc16Update
  by unfold_locales (simp_all add: crc16Update_append)

lemma crc16_detects_byte_change: "b \<noteq> b' \<Longrightarrow> crc16Update c (xs @ b # ys) \<noteq> crc16Update c (xs @ b' # ys)"
  unfolding crc16Update_fold by (rule crc16_reg.detects_byte_change)

end
