(* ===== verification/Cobs.thy ===== *)
theory Cobs
  imports Prelude "HOL-Library.Monad_Syntax"
begin

text \<open>
  Consistent Overhead Byte Stuffing (\<open>protocol/cobs.h\<close>, \<open>protocol/cobs.cpp\<close>).

  \<open>cobsEncode\<close> and \<open>cobsDecode\<close> are the index-and-buffer loops of the source, with every
  load and store bounds-checked (\<open>None\<close> is an access outside a buffer). \<open>cobs_enc\<close> and
  \<open>cobs_dec\<close> are block-wise reference definitions. The loops are shown to compute the
  reference definitions without any out-of-bounds access, the reference definitions are
  inverse to each other, and the encoding is free of zero bytes and of bounded length.
\<close>

section \<open>The source's loops\<close>

definition cobsMaxEncodedLen :: "nat \<Rightarrow> nat" where
  "cobsMaxEncodedLen n = n + n div 254 + 1"

text \<open>
  The encoder loop; \<open>write_idx\<close>, \<open>code_idx\<close> and \<open>code\<close> are the source's locals. The
  first argument is what is left of the source buffer. The result is the returned byte
  count with the final output buffer.
\<close>

fun cobs_enc_loop :: "bytes \<Rightarrow> bytes \<Rightarrow> nat \<Rightarrow> nat \<Rightarrow> u8 \<Rightarrow> (nat \<times> bytes) option" where
  "cobs_enc_loop [] dst write_idx code_idx code =
     do { dst \<leftarrow> buf_set dst code_idx code; Some (write_idx, dst) }"
| "cobs_enc_loop (x # xs) dst write_idx code_idx code =
     (if x = 0 then
        do { dst \<leftarrow> buf_set dst code_idx code;
             cobs_enc_loop xs dst (write_idx + 1) write_idx 1 }
      else
        do { dst \<leftarrow> buf_set dst write_idx x;
             if code + 1 = 0xFF then
               do { dst \<leftarrow> buf_set dst code_idx (code + 1);
                    cobs_enc_loop xs dst (write_idx + 2) (write_idx + 1) 1 }
             else cobs_enc_loop xs dst (write_idx + 1) code_idx (code + 1) })"

definition cobsEncode :: "bytes \<Rightarrow> bytes \<Rightarrow> (nat \<times> bytes) option" where
  "cobsEncode src dst =
     (if length dst < cobsMaxEncodedLen (length src) then Some (0, dst)
      else cobs_enc_loop src dst 1 0 1)"

text \<open>
  The decoder's inner copy loop over the \<open>n = code - 1\<close> data bytes of a block. \<open>Inl dst\<close>
  is the early \<open>return 0\<close> when the output is full; \<open>Inr\<close> carries the advanced read and
  write indices.
\<close>

fun cobs_dec_copy ::
  "bytes \<Rightarrow> nat \<Rightarrow> nat \<Rightarrow> nat \<Rightarrow> bytes \<Rightarrow> (bytes + nat \<times> nat \<times> bytes) option" where
  "cobs_dec_copy src 0 read_idx write_idx dst = Some (Inr (read_idx, write_idx, dst))"
| "cobs_dec_copy src (Suc n) read_idx write_idx dst =
     (if write_idx \<ge> length dst then Some (Inl dst)
      else do { b \<leftarrow> buf_get src read_idx;
                dst \<leftarrow> buf_set dst write_idx b;
                cobs_dec_copy src n (read_idx + 1) (write_idx + 1) dst })"

lemma cobs_dec_copy_read_idx:
  "cobs_dec_copy src n r w dst = Some (Inr (r', w', dst')) \<Longrightarrow> r' = r + n"
  by (induction src n r w dst rule: cobs_dec_copy.induct)
     (auto split: if_splits bind_splits)

text \<open>
  The decoder loop. The read index grows by the block length in every iteration, which is
  at least one because a zero code returns.
\<close>

function cobs_dec_loop :: "bytes \<Rightarrow> nat \<Rightarrow> nat \<Rightarrow> bytes \<Rightarrow> (nat \<times> bytes) option" where
  "cobs_dec_loop src read_idx write_idx dst =
     (if read_idx < length src then
        (let code = src ! read_idx in
         if code = 0 then Some (0, dst)
         else if read_idx + unat code > length src then Some (0, dst)
         else
           (case cobs_dec_copy src (unat code - 1) (read_idx + 1) write_idx dst of
              None \<Rightarrow> None
            | Some (Inl dst) \<Rightarrow> Some (0, dst)
            | Some (Inr (read_idx', write_idx, dst)) \<Rightarrow>
                if code \<noteq> 0xFF \<and> read_idx' < length src then
                  if write_idx \<ge> length dst then Some (0, dst)
                  else do { dst \<leftarrow> buf_set dst write_idx 0;
                            cobs_dec_loop src read_idx' (write_idx + 1) dst }
                else cobs_dec_loop src read_idx' write_idx dst))
      else Some (write_idx, dst))"
  by pat_completeness auto
termination
  by (relation "measure (\<lambda>(src, r, w, d). length src - r)")
     (auto dest!: cobs_dec_copy_read_idx)

declare cobs_dec_loop.simps [simp del]

definition cobsDecode :: "bytes \<Rightarrow> bytes \<Rightarrow> (nat \<times> bytes) option" where
  "cobsDecode src dst = cobs_dec_loop src 0 0 dst"

section \<open>Reference definitions\<close>

text \<open>
  \<open>cobs_enc blk xs\<close>: the encoding of what is left (\<open>xs\<close>) when the bytes \<open>blk\<close> of the
  current block have been read.
\<close>

definition code_byte :: "nat \<Rightarrow> u8" where
  "code_byte n = word_of_nat (n + 1)"

fun cobs_enc :: "bytes \<Rightarrow> bytes \<Rightarrow> bytes" where
  "cobs_enc blk [] = code_byte (length blk) # blk"
| "cobs_enc blk (x # xs) =
     (if x = 0 then code_byte (length blk) # blk @ cobs_enc [] xs
      else if length blk + 2 = 255 then 255 # blk @ x # cobs_enc [] xs
      else cobs_enc (blk @ [x]) xs)"

function cobs_dec :: "bytes \<Rightarrow> bytes option" where
  "cobs_dec [] = Some []"
| "cobs_dec (c # bs) =
     (if c = 0 \<or> length bs < unat c - 1 then None
      else map_option (\<lambda>t. take (unat c - 1) bs @
                            (if c \<noteq> 0xFF \<and> drop (unat c - 1) bs \<noteq> [] then [0] else []) @ t)
                      (cobs_dec (drop (unat c - 1) bs)))"
  by pat_completeness auto
termination
  by (relation "measure length") auto

declare cobs_dec.simps(2) [simp del]

section \<open>The reference definitions are inverse\<close>

lemma cobs_enc_nonempty [simp]: "cobs_enc blk xs \<noteq> []"
  by (induction blk xs rule: cobs_enc.induct) auto

lemma unat_code: "n < 255 \<Longrightarrow> unat (code_byte n) = Suc n"
  unfolding code_byte_def unat_of_nat by (simp add: take_bit_nat_eq_self)

lemma code_nonzero: "n < 255 \<Longrightarrow> code_byte n \<noteq> 0"
  using unat_code [of n] by auto

lemma code_not_255: "n < 254 \<Longrightarrow> code_byte n \<noteq> 0xFF"
  using unat_code [of n] by auto

lemma cobs_dec_short_block:
  assumes "length blk < 254"
  shows "cobs_dec (code_byte (length blk) # blk @ rest) =
         map_option (\<lambda>t. blk @ (if rest \<noteq> [] then [0] else []) @ t) (cobs_dec rest)"
  using assms by (simp add: cobs_dec.simps(2) unat_code code_nonzero code_not_255)

lemma cobs_dec_full_block:
  assumes "length blk = 254"
  shows "cobs_dec (255 # blk @ rest) = map_option (\<lambda>t. blk @ t) (cobs_dec rest)"
  using assms by (simp add: cobs_dec.simps(2))

lemma cobs_dec_enc: "length blk < 254 \<Longrightarrow> cobs_dec (cobs_enc blk xs) = Some (blk @ xs)"
proof (induction blk xs rule: cobs_enc.induct)
  case (1 blk)
  then show ?case using cobs_dec_short_block [of blk "[]"] by simp
next
  case (2 blk x xs)
  consider "x = 0" | "x \<noteq> 0" "length blk + 2 = 255" | "x \<noteq> 0" "length blk + 2 \<noteq> 255" by blast
  then show ?case
  proof cases
    case 1
    with 2 show ?thesis by (simp add: cobs_dec_short_block)
  next
    case b: 2
    with 2 have "cobs_dec (cobs_enc [] xs) = Some xs" by simp
    then show ?thesis using b cobs_dec_full_block [of "blk @ [x]" "cobs_enc [] xs"] by simp
  next
    case 3
    with 2 show ?thesis by simp
  qed
qed

lemma cobs_enc_no_zero:
  "length blk < 254 \<Longrightarrow> 0 \<notin> set blk \<Longrightarrow> 0 \<notin> set (cobs_enc blk xs)"
  by (induction blk xs rule: cobs_enc.induct)
     (auto simp: code_nonzero [symmetric])

lemma cobs_enc_length:
  "length blk < 254 \<Longrightarrow>
   length (cobs_enc blk xs) \<le> length blk + length xs + (length blk + length xs) div 254 + 1"
proof (induction blk xs rule: cobs_enc.induct)
  case (2 blk x xs)
  consider "x = 0" | "x \<noteq> 0" "length blk + 2 = 255" | "x \<noteq> 0" "length blk + 2 \<noteq> 255" by blast
  then show ?case
  proof cases
    case 1
    have "length xs div 254 \<le> (length blk + Suc (length xs)) div 254" by (rule div_le_mono) simp
    with 1 2 show ?thesis by simp
  next
    case b: 2
    then have "length blk = 253" by simp
    moreover have "(253 + Suc (length xs)) div 254 = 1 + length xs div 254" by simp
    ultimately show ?thesis using 2 b by simp
  next
    case 3
    with 2 show ?thesis by simp
  qed
qed simp

lemma cobs_enc_min_length: "1 + length blk \<le> length (cobs_enc blk xs)"
  by (induction blk xs rule: cobs_enc.induct) auto

lemma cobs_enc_length_max: "length (cobs_enc [] xs) \<le> cobsMaxEncodedLen (length xs)"
  using cobs_enc_length [of "[]" xs] by (simp add: cobsMaxEncodedLen_def)

lemma cobsMaxEncodedLen_mono: "m \<le> n \<Longrightarrow> cobsMaxEncodedLen m \<le> cobsMaxEncodedLen n"
  by (simp add: cobsMaxEncodedLen_def add_mono div_le_mono)

section \<open>The loops compute the reference definitions\<close>

lemma code_byte_Suc: "code_byte n + 1 = code_byte (Suc n)"
  by (simp add: code_byte_def)

lemma code_byte_0: "code_byte 0 = 1"
  by (simp add: code_byte_def)

lemma code_byte_full: "n < 254 \<Longrightarrow> code_byte (Suc n) = 0xFF \<longleftrightarrow> n = 253"
  using unat_code [of "Suc n"] by (auto simp: code_byte_def)

lemma code_byte_253: "code_byte 253 = 0xFE" and code_byte_254: "code_byte 254 = 0xFF"
  by (simp_all add: code_byte_def)

lemma cobs_enc_loop_correct:
  assumes "length blk < 254" and "length (cobs_enc blk xs) \<le> 1 + length blk + length rest"
  shows "cobs_enc_loop xs (out @ c # blk @ rest) (length out + 1 + length blk) (length out)
           (code_byte (length blk)) =
         Some (length (out @ cobs_enc blk xs),
               out @ cobs_enc blk xs @ drop (length (cobs_enc blk xs) - 1 - length blk) rest)"
  using assms
proof (induction blk xs arbitrary: out c rest rule: cobs_enc.induct)
  case (1 blk)
  then show ?case by (simp add: buf_simps)
next
  case (2 blk x xs)
  consider "x = 0" | "x \<noteq> 0" "length blk = 253" | "x \<noteq> 0" "length blk \<noteq> 253" by blast
  then show ?case
  proof cases
    case 1
    have "0 < length (cobs_enc [] xs)" by simp
    with 1 "2.prems" obtain c' rest' where rest: "rest = c' # rest'"
      by (cases rest) auto
    have "cobs_enc_loop xs ((out @ code_byte (length blk) # blk) @ c' # [] @ rest')
            (length (out @ code_byte (length blk) # blk) + 1 + length ([] :: bytes))
            (length (out @ code_byte (length blk) # blk)) (code_byte (length ([] :: bytes))) =
          Some (length ((out @ code_byte (length blk) # blk) @ cobs_enc [] xs),
                (out @ code_byte (length blk) # blk) @ cobs_enc [] xs
                @ drop (length (cobs_enc [] xs) - 1 - length ([] :: bytes)) rest')"
      using 1 "2.prems" rest by (intro "2.IH"(1)) auto
    then show ?thesis
      using 1 rest by (simp add: buf_simps code_byte_0 Cons_nth_drop_Suc drop_Cons')
  next
    case b: 2
    have "2 \<le> length rest"
      using cobs_enc_min_length [of "[]" xs] b "2.prems" by simp
    then obtain y c' rest' where rest: "rest = y # c' # rest'"
      by (cases rest; cases "tl rest") auto
    have "cobs_enc_loop xs ((out @ 255 # blk @ [x]) @ c' # [] @ rest')
            (length (out @ 255 # blk @ [x]) + 1 + length ([] :: bytes))
            (length (out @ 255 # blk @ [x])) (code_byte (length ([] :: bytes))) =
          Some (length ((out @ 255 # blk @ [x]) @ cobs_enc [] xs),
                (out @ 255 # blk @ [x]) @ cobs_enc [] xs
                @ drop (length (cobs_enc [] xs) - 1 - length ([] :: bytes)) rest')"
      using b "2.prems" rest by (intro "2.IH"(2)) auto
    moreover have "buf_set (out @ c # blk @ y # c' # rest') (length out + 1 + length blk) x =
        Some (out @ c # (blk @ [x]) @ c' # rest')"
      using buf_set_append [of "out @ c # blk" _ y "c' # rest'" x] by simp
    moreover have "buf_set (out @ c # (blk @ [x]) @ c' # rest') (length out) 255 =
        Some (out @ 255 # (blk @ [x]) @ c' # rest')"
      by (simp add: buf_simps)
    ultimately show ?thesis
      using b rest by (simp add: code_byte_0 code_byte_253 code_byte_254 drop_Cons' add.commute)
  next
    case d: 3
    have "1 + length (blk @ [x]) \<le> length (cobs_enc (blk @ [x]) xs)"
      using cobs_enc_min_length by blast
    with d "2.prems" obtain y rest' where rest: "rest = y # rest'"
      by (cases rest) auto
    have "cobs_enc_loop xs (out @ c # (blk @ [x]) @ rest') (length out + 1 + length (blk @ [x]))
            (length out) (code_byte (length (blk @ [x]))) =
          Some (length (out @ cobs_enc (blk @ [x]) xs),
                out @ cobs_enc (blk @ [x]) xs
                @ drop (length (cobs_enc (blk @ [x]) xs) - 1 - length (blk @ [x])) rest')"
      using d "2.prems" rest by (intro "2.IH"(3)) auto
    moreover have "buf_set (out @ c # blk @ y # rest') (length out + 1 + length blk) x =
        Some (out @ c # (blk @ [x]) @ rest')"
      using buf_set_append [of "out @ c # blk" _ y rest' x] by simp
    ultimately show ?thesis
      using d rest "2.prems" cobs_enc_min_length [of "blk @ [x]" xs]
      by (simp add: code_byte_Suc code_byte_full drop_Cons')
  qed
qed

lemma cobsEncode_correct:
  assumes "cobsMaxEncodedLen (length src) \<le> length dst"
  shows "cobsEncode src dst =
         Some (length (cobs_enc [] src), cobs_enc [] src @ drop (length (cobs_enc [] src)) dst)"
proof -
  have len: "length (cobs_enc [] src) \<le> length dst"
    using cobs_enc_length_max assms by (rule le_trans)
  moreover have "0 < length (cobs_enc [] src)" by simp
  ultimately obtain c rest where dst: "dst = c # rest" by (cases dst) auto
  show ?thesis
    using cobs_enc_loop_correct [of "[]" src rest "[]" c] assms len dst
    by (simp add: cobsEncode_def code_byte_0 drop_Cons')
qed

lemma cobs_dec_copy_fits:
  "r + n \<le> length src \<Longrightarrow> n \<le> length rest \<Longrightarrow>
   cobs_dec_copy src n r (length out) (out @ rest) =
   Some (Inr (r + n, length out + n, out @ take n (drop r src) @ drop n rest))"
proof (induction n arbitrary: r out rest)
  case (Suc n)
  then obtain y rest' where rest: "rest = y # rest'" by (cases rest) auto
  have "cobs_dec_copy src n (r + 1) (length (out @ [src ! r])) ((out @ [src ! r]) @ rest') =
        Some (Inr (r + 1 + n, length (out @ [src ! r]) + n,
                   (out @ [src ! r]) @ take n (drop (r + 1) src) @ drop n rest'))"
    using Suc.prems rest by (intro Suc.IH) auto
  with Suc.prems rest show ?case
    by (simp add: buf_simps buf_get_def drop_Suc_append)
qed simp

lemma cobs_dec_copy_full:
  "r + n \<le> length src \<Longrightarrow> length rest < n \<Longrightarrow>
   \<exists>d. cobs_dec_copy src n r (length out) (out @ rest) = Some (Inl d)"
proof (induction n arbitrary: r out rest)
  case (Suc n)
  show ?case
  proof (cases rest)
    case (Cons y rest')
    have "\<exists>d. cobs_dec_copy src n (r + 1) (length (out @ [src ! r])) ((out @ [src ! r]) @ rest') =
        Some (Inl d)"
      using Suc.prems Cons by (intro Suc.IH) auto
    with Suc.prems Cons show ?thesis by (simp add: buf_simps buf_get_def)
  qed simp
qed simp

text \<open>
  What the decoder loop returns from a given point on: the reference decoding of the rest
  of the input if it is well formed and fits, and \<open>0\<close> otherwise. On failure the output
  buffer holds some partial result \<open>d\<close>.
\<close>

definition dec_result :: "bytes option \<Rightarrow> bytes \<Rightarrow> bytes \<Rightarrow> bytes \<Rightarrow> nat \<times> bytes" where
  "dec_result res out rest d =
     (case res of
        Some t \<Rightarrow> if length t \<le> length rest
                  then (length out + length t, out @ t @ drop (length t) rest) else (0, d)
      | None \<Rightarrow> (0, d))"

lemma dec_result_prefix:
  assumes "length blk \<le> length rest"
  shows "dec_result res (out @ blk) (drop (length blk) rest) d =
         dec_result (map_option (\<lambda>t. blk @ t) res) out rest d"
  using assms by (auto simp: dec_result_def add.commute split: option.split)

lemma dec_result_too_long:
  assumes "length rest < length blk"
  shows "dec_result (map_option (\<lambda>t. blk @ t) res) out rest d = (0, d)"
  using assms by (auto simp: dec_result_def split: option.split)

text \<open>One iteration of the decoder on a well-formed block \<open>c # blk\<close> at index \<open>r\<close>.\<close>

lemma cobs_dec_loop_block:
  assumes "r < length src" and "src ! r = c" and "unat c = Suc n" and "r + Suc n \<le> length src"
    and "n \<le> length rest" and "blk = take n (drop (Suc r) src)"
    and "\<not> (c \<noteq> 0xFF \<and> r + Suc n < length src)"
  shows "cobs_dec_loop src r (length out) (out @ rest) =
         cobs_dec_loop src (r + Suc n) (length (out @ blk)) ((out @ blk) @ drop n rest)"
proof -
  have "cobs_dec_copy src n (Suc r) (length out) (out @ rest) =
        Some (Inr (r + Suc n, length (out @ blk), out @ blk @ drop n rest))"
    using assms cobs_dec_copy_fits [of "Suc r" n src rest out] by simp
  moreover have "c \<noteq> 0" using assms(3) by auto
  ultimately show ?thesis
    using assms by (subst cobs_dec_loop.simps) (auto simp: Let_def)
qed

lemma cobs_dec_loop_block_zero:
  assumes "r < length src" and "src ! r = c" and "unat c = Suc n" and "r + Suc n < length src"
    and "n < length rest" and "blk = take n (drop (Suc r) src)" and "c \<noteq> 0xFF"
  shows "cobs_dec_loop src r (length out) (out @ rest) =
         cobs_dec_loop src (r + Suc n) (length (out @ blk @ [0]))
           ((out @ blk @ [0]) @ drop (Suc n) rest)"
proof -
  have copy: "cobs_dec_copy src n (Suc r) (length out) (out @ rest) =
        Some (Inr (r + Suc n, length (out @ blk), out @ blk @ drop n rest))"
    using assms cobs_dec_copy_fits [of "Suc r" n src rest out] by simp
  have split: "drop n rest = rest ! n # drop (Suc n) rest"
    using assms(5) by (simp add: Cons_nth_drop_Suc)
  have "buf_set ((out @ blk) @ drop n rest) (length (out @ blk)) 0 =
        Some ((out @ blk) @ 0 # drop (Suc n) rest)"
    unfolding split by (rule buf_set_append) simp
  moreover have "c \<noteq> 0" using assms(3) by auto
  ultimately show ?thesis
    using assms copy by (subst cobs_dec_loop.simps) (simp add: Let_def)
qed

lemma cobs_dec_loop_full:
  assumes "r < length src" and "src ! r = c" and "unat c = Suc n" and "r + Suc n \<le> length src"
    and "length rest < n \<or> length rest = n \<and> c \<noteq> 0xFF \<and> r + Suc n < length src"
  shows "\<exists>d. cobs_dec_loop src r (length out) (out @ rest) = Some (0, d)"
proof (cases "length rest < n")
  case True
  then obtain d where "cobs_dec_copy src n (Suc r) (length out) (out @ rest) = Some (Inl d)"
    using cobs_dec_copy_full [of "Suc r" n src rest out] assms by auto
  moreover have "c \<noteq> 0" using assms(3) by auto
  ultimately show ?thesis
    using assms by (subst cobs_dec_loop.simps) (simp add: Let_def)
next
  case False
  then have "cobs_dec_copy src n (Suc r) (length out) (out @ rest) =
        Some (Inr (r + Suc n, length out + n, out @ take n (drop (Suc r) src)))"
    using assms cobs_dec_copy_fits [of "Suc r" n src rest out] by simp
  moreover have "c \<noteq> 0" using assms(3) by auto
  ultimately show ?thesis
    using assms False by (subst cobs_dec_loop.simps) (simp add: Let_def)
qed

lemma cobs_dec_loop_malformed:
  assumes "r < length src" and "src ! r = 0 \<or> length src < r + unat (src ! r)"
  shows "cobs_dec_loop src r w dst = Some (0, dst)" and "cobs_dec (drop r src) = None"
proof -
  have "drop r src = src ! r # drop (Suc r) src"
    using assms(1) by (simp add: Cons_nth_drop_Suc)
  then show "cobs_dec (drop r src) = None"
    using assms by (auto simp: cobs_dec.simps(2))
  show "cobs_dec_loop src r w dst = Some (0, dst)"
    using assms by (subst cobs_dec_loop.simps) (auto simp: Let_def)
qed

lemma cobs_dec_block:
  assumes "r < length src" and "unat (src ! r) = Suc n" and "r + Suc n \<le> length src"
  shows "cobs_dec (drop r src) =
         map_option (\<lambda>t. (take n (drop (Suc r) src) @
             (if src ! r \<noteq> 0xFF \<and> r + Suc n < length src then [0] else [])) @ t)
           (cobs_dec (drop (r + Suc n) src))"
proof -
  have "drop r src = src ! r # drop (Suc r) src"
    using assms(1) by (simp add: Cons_nth_drop_Suc)
  moreover have "src ! r \<noteq> 0" and "\<not> length (drop (Suc r) src) < n"
    using assms by auto
  ultimately show ?thesis
    using assms by (simp add: cobs_dec.simps(2) add.commute)
qed

lemma cobs_dec_loop_correct:
  "r \<le> length src \<Longrightarrow>
   \<exists>d. cobs_dec_loop src r (length out) (out @ rest) =
       Some (dec_result (cobs_dec (drop r src)) out rest d)"
proof (induction "length src - r" arbitrary: r out rest rule: less_induct)
  case less
  consider (finished) "r = length src"
    | (bad) "r < length src" "src ! r = 0 \<or> length src < r + unat (src ! r)"
    | (block) "r < length src" "src ! r \<noteq> 0" "r + unat (src ! r) \<le> length src"
    using less.prems by fastforce
  then show ?case
  proof cases
    case finished
    then show ?thesis by (subst cobs_dec_loop.simps) (simp add: dec_result_def)
  next
    case bad
    then show ?thesis using cobs_dec_loop_malformed [OF bad] by (simp add: dec_result_def)
  next
    case block
    then obtain n where n: "unat (src ! r) = Suc n" and fit: "r + Suc n \<le> length src"
      using unat_gt_0 [of "src ! r"] by (metis Suc_pred)
    define blk where "blk = take n (drop (Suc r) src)"
    have lblk: "length blk = n" using fit by (simp add: blk_def)
    define z :: bytes where "z = (if src ! r \<noteq> 0xFF \<and> r + Suc n < length src then [0] else [])"
    note dec = cobs_dec_block [OF block(1) n fit, folded blk_def z_def]
    have lt: "length src - (r + Suc n) < length src - r" using block(1) fit by linarith
    note IH = less.hyps [OF lt fit]
    show ?thesis
    proof (cases "length (blk @ z) \<le> length rest")
      case False
      then have "length rest < n \<or>
          length rest = n \<and> src ! r \<noteq> 0xFF \<and> r + Suc n < length src"
        using lblk by (auto simp: z_def split: if_splits)
      then obtain d where "cobs_dec_loop src r (length out) (out @ rest) = Some (0, d)"
        using cobs_dec_loop_full [OF block(1) refl n fit] by blast
      then show ?thesis
        using dec_result_too_long [of rest "blk @ z"] False by (auto simp: dec)
    next
      case True
      then have "cobs_dec_loop src r (length out) (out @ rest) =
          cobs_dec_loop src (r + Suc n) (length (out @ blk @ z))
            ((out @ blk @ z) @ drop (length (blk @ z)) rest)"
        using cobs_dec_loop_block [OF block(1) refl n fit _ blk_def, of rest out]
          cobs_dec_loop_block_zero [OF block(1) refl n _ _ blk_def, of rest out] lblk
        by (auto simp: z_def split: if_splits)
      then show ?thesis
        using IH [of "out @ blk @ z" "drop (length (blk @ z)) rest"]
          dec_result_prefix [OF True] by (simp add: dec)
    qed
  qed
qed

lemma cobsDecode_correct:
  "\<exists>d. cobsDecode src dst = Some (dec_result (cobs_dec src) [] dst d)"
  using cobs_dec_loop_correct [of 0 src "[]" dst] by (simp add: cobsDecode_def)

subsection \<open>Properties\<close>

text \<open>
  C16: encoding any buffer and decoding the result gives the buffer back, through the source's own
  index loops: whenever the output buffers are large enough, neither loop makes an out-of-bounds
  access, the encoder returns at most \<open>cobsMaxEncodedLen\<close> bytes, none of them the frame
  delimiter 0x00, and the decoder returns exactly the original bytes.
\<close>

theorem cobs_roundtrip:
  assumes "cobsMaxEncodedLen (length src) \<le> length dst" and "length src \<le> length buf"
  shows "\<exists>n dst'. cobsEncode src dst = Some (n, dst') \<and>
           n \<le> cobsMaxEncodedLen (length src) \<and> 0 \<notin> set (take n dst') \<and>
           cobsDecode (take n dst') buf = Some (length src, src @ drop (length src) buf)"
proof -
  let ?e = "cobs_enc [] src"
  obtain d where "cobsDecode ?e buf = Some (dec_result (cobs_dec ?e) [] buf d)"
    using cobsDecode_correct by blast
  then have "cobsDecode ?e buf = Some (length src, src @ drop (length src) buf)"
    using assms(2) by (simp add: cobs_dec_enc dec_result_def)
  moreover have "0 \<notin> set ?e" by (rule cobs_enc_no_zero) simp_all
  ultimately show ?thesis
    using cobsEncode_correct [OF assms(1)] cobs_enc_length_max [of src] by simp
qed

theorem cobs_roundtrip_witness:
  "\<exists>n dst'. cobsEncode [0x11, 0, 0x22] [0, 0, 0, 0, 9] = Some (n, dst') \<and>
     n \<le> cobsMaxEncodedLen (length [0x11 :: u8, 0, 0x22]) \<and> 0 \<notin> set (take n dst') \<and>
     cobsDecode (take n dst') [7, 7, 7, 7] =
       Some (length [0x11 :: u8, 0, 0x22], [0x11, 0, 0x22] @ drop (length [0x11 :: u8, 0, 0x22]) [7, 7, 7, 7])"
  by (rule cobs_roundtrip) (simp_all add: cobsMaxEncodedLen_def)

text \<open>
  The decoder is total and memory safe on every input, well formed or not: it always returns,
  never reads past the input nor writes past the output, returns at most the output's capacity,
  and a non-zero count means that the input is a well-formed encoding whose decoding is what the
  output now starts with.
\<close>

theorem cobsDecode_total:
  "\<exists>n d. cobsDecode src dst = Some (n, d) \<and> n \<le> length dst \<and>
          (n = 0 \<or> cobs_dec src = Some (take n d))"
proof -
  obtain d where "cobsDecode src dst = Some (dec_result (cobs_dec src) [] dst d)"
    using cobsDecode_correct by blast
  then show ?thesis
    by (auto simp: dec_result_def split: option.splits if_splits)
qed

end
