(* ===== verification/Framing.thy ===== *)
theory Framing
  imports Crc16 Cobs
begin

text \<open>
  The frame format (\<open>protocol/framing.h\<close>, \<open>protocol/framing.cpp\<close>): a 14-byte header,
  the payload and a CRC-16 over both, COBS-encoded and bracketed by 0x00. The header codec is
  shown to be a bijection between headers and 14-byte strings, decoding an encoded frame gives
  the frame back, and a frame is accepted only with the right magic, length and CRC.
\<close>

section \<open>Data\<close>

definition kMagic :: u8 where "kMagic = 0xA5"
definition kVersionMajor :: u8 where "kVersionMajor = 0"
definition kVersionMinor :: u8 where "kVersionMinor = 5"
definition kHeaderLen :: nat where "kHeaderLen = 14"
definition kCrcLen :: nat where "kCrcLen = 2"
definition kMaxPayload :: nat where "kMaxPayload = 256"
definition kMaxFrameBody :: nat where "kMaxFrameBody = kHeaderLen + kMaxPayload + kCrcLen"
definition kMaxWireFrame :: nat where "kMaxWireFrame = cobsMaxEncodedLen kMaxFrameBody + 2"

lemmas framing_consts = kMagic_def kHeaderLen_def kCrcLen_def kMaxPayload_def kMaxFrameBody_def

datatype MsgType = MsgCommand | MsgResponse | MsgTelemetry | MsgEvent

fun msgTypeCode :: "MsgType \<Rightarrow> u8" where
  "msgTypeCode MsgCommand = 0"
| "msgTypeCode MsgResponse = 1"
| "msgTypeCode MsgTelemetry = 2"
| "msgTypeCode MsgEvent = 3"

record Header =
  magic :: u8
  version_major :: u8
  version_minor :: u8
  msg_type :: u8
  msg_id :: u8
  flags :: u8
  seq :: u16
  timestamp_ms :: u32
  payload_len :: u16

definition Header_default :: Header where
  "Header_default = \<lparr> magic = kMagic, version_major = kVersionMajor,
     version_minor = kVersionMinor, msg_type = 0, msg_id = 0, flags = 0, seq = 0,
     timestamp_ms = 0, payload_len = 0 \<rparr>"

datatype DecodeStatus = DecOk | TooShort | BadCobs | BadMagic | BadCrc | BadLength | BufferTooSmall

section \<open>Header bytes\<close>

definition writeHeader :: "Header \<Rightarrow> bytes" where
  "writeHeader h =
     [magic h, version_major h, version_minor h, msg_type h, msg_id h, flags h]
     @ put_u16 (seq h) @ put_u32 (timestamp_ms h) @ put_u16 (payload_len h)"

definition readHeader :: "bytes \<Rightarrow> Header" where
  "readHeader b =
     \<lparr> magic = b ! 0, version_major = b ! 1, version_minor = b ! 2, msg_type = b ! 3,
       msg_id = b ! 4, flags = b ! 5, seq = u16_at b 6, timestamp_ms = u32_at b 8,
       payload_len = u16_at b 12 \<rparr>"

section \<open>Frames\<close>

text \<open>
  \<open>frame_body\<close> is the stack buffer \<open>body\<close> of \<open>encodeFrame\<close>: header, the first
  \<open>payload_len\<close> payload bytes and the little-endian CRC.
\<close>

definition frame_body :: "Header \<Rightarrow> bytes \<Rightarrow> bytes" where
  "frame_body h payload =
     (let b = writeHeader h @ take (unat (payload_len h)) payload in b @ put_u16 (crc16 b))"

text \<open>
  \<open>encodeFrame\<close> returns the byte count and the output buffer; the count is 0 on error. As in
  the source, the COBS encoder works on the part of the buffer behind the leading delimiter and
  sees \<open>out_cap - 2\<close> bytes of it.
\<close>

definition encodeFrame :: "Header \<Rightarrow> bytes \<Rightarrow> bytes \<Rightarrow> (nat \<times> bytes) option" where
  "encodeFrame h payload out =
     (if unat (payload_len h) > kMaxPayload then Some (0, out)
      else
        let body = frame_body h payload in
        if length out < cobsMaxEncodedLen (length body) + 2 then Some (0, out)
        else do {
          out \<leftarrow> buf_set out 0 0;
          (enc, window) \<leftarrow> cobsEncode body (take (length out - 2) (drop 1 out));
          let out = take 1 out @ window @ drop (length out - 1) out;
          if enc = 0 then Some (0, out)
          else do {
            out \<leftarrow> buf_set out (1 + enc) 0;
            Some (enc + 2, out)
          }
        })"

text \<open>
  \<open>decodeFrameBody\<close> returns the status, the header out-parameter (written as soon as the
  magic byte is right) and the payload bytes copied out (only on \<open>DecOk\<close>).
\<close>

definition decodeFrameBody ::
  "bytes \<Rightarrow> Header \<Rightarrow> nat \<Rightarrow> (DecodeStatus \<times> Header \<times> bytes) option" where
  "decodeFrameBody body_cobs header payload_cap =
     do {
       (decoded, body) \<leftarrow> cobsDecode body_cobs (replicate kMaxFrameBody 0);
       if decoded = 0 then Some (BadCobs, header, [])
       else if decoded < kHeaderLen + kCrcLen then Some (TooShort, header, [])
       else if body ! 0 \<noteq> kMagic then Some (BadMagic, header, [])
       else
         let h = readHeader body; n = unat (payload_len h) in
         if n > kMaxPayload \<or> kHeaderLen + n + kCrcLen \<noteq> decoded then Some (BadLength, h, [])
         else if crc16 (take (kHeaderLen + n) body) \<noteq> u16_at body (kHeaderLen + n)
         then Some (BadCrc, h, [])
         else if n > payload_cap then Some (BufferTooSmall, h, [])
         else Some (DecOk, h, take n (drop kHeaderLen body))
     }"

section \<open>Header codec\<close>

lemma length_writeHeader [simp]: "length (writeHeader h) = kHeaderLen"
  by (simp add: writeHeader_def kHeaderLen_def)

lemma readHeader_writeHeader: "readHeader (writeHeader h @ rest) = h"
proof -
  let ?p = "[magic h, version_major h, version_minor h, msg_type h, msg_id h, flags h]"
  let ?b = "writeHeader h @ rest"
  have "u16_at (?p @ put_u16 (seq h) @ put_u32 (timestamp_ms h) @ put_u16 (payload_len h) @ rest) 6 = seq h"
    by (rule u16_at_put) simp
  then have s: "u16_at ?b 6 = seq h" by (simp add: writeHeader_def)
  have "u32_at ((?p @ put_u16 (seq h)) @ put_u32 (timestamp_ms h) @ put_u16 (payload_len h) @ rest) 8
        = timestamp_ms h"
    by (rule u32_at_put) simp
  then have t: "u32_at ?b 8 = timestamp_ms h" by (simp add: writeHeader_def)
  have "u16_at ((?p @ put_u16 (seq h) @ put_u32 (timestamp_ms h)) @ put_u16 (payload_len h) @ rest) 12
        = payload_len h"
    by (rule u16_at_put) simp
  then have l: "u16_at ?b 12 = payload_len h" by (simp add: writeHeader_def)
  show ?thesis
    unfolding readHeader_def s t l by (simp add: writeHeader_def)
qed

lemma length14_cases:
  assumes "length (bs :: 'a list) = 14"
  obtains a b c d e f g h i j k l m n where "bs = [a, b, c, d, e, f, g, h, i, j, k, l, m, n]"
  using assms by (auto simp: numeral_eq_Suc length_Suc_conv)

lemma writeHeader_readHeader:
  assumes "length bs = kHeaderLen"
  shows "writeHeader (readHeader bs) = bs"
proof -
  obtain a b c d e f g h i j k l m n where bs: "bs = [a, b, c, d, e, f, g, h, i, j, k, l, m, n]"
    using assms unfolding kHeaderLen_def by (rule length14_cases)
  show ?thesis
    unfolding bs writeHeader_def readHeader_def
    by (simp add: u16_at_def u32_at_def put_get_u16 put_get_u32)
qed

lemma readHeader_append: "length bs = kHeaderLen \<Longrightarrow> readHeader (bs @ rest) = readHeader bs"
  by (metis readHeader_writeHeader writeHeader_readHeader append_Nil2)

section \<open>Encoding\<close>

definition frame_wf :: "Header \<Rightarrow> bytes \<Rightarrow> bool" where
  "frame_wf h payload \<longleftrightarrow>
     magic h = kMagic \<and> unat (payload_len h) = length payload \<and> length payload \<le> kMaxPayload"

lemma frame_body_wf:
  "frame_wf h p \<Longrightarrow> frame_body h p = writeHeader h @ p @ put_u16 (crc16 (writeHeader h @ p))"
  by (simp add: frame_body_def frame_wf_def)

lemma length_frame_body: "frame_wf h p \<Longrightarrow> length (frame_body h p) = kHeaderLen + length p + kCrcLen"
  by (simp add: frame_body_wf kCrcLen_def)

lemma length_frame_body_max: "frame_wf h p \<Longrightarrow> length (frame_body h p) \<le> kMaxFrameBody"
  by (simp add: length_frame_body kMaxFrameBody_def frame_wf_def)

definition frame_wire :: "Header \<Rightarrow> bytes \<Rightarrow> bytes" where
  "frame_wire h p = cobs_enc [] (frame_body h p)"

lemma frame_wire_no_zero: "0 \<notin> set (frame_wire h p)"
  unfolding frame_wire_def by (rule cobs_enc_no_zero) simp_all

lemma frame_wire_nonempty: "frame_wire h p \<noteq> []"
  by (simp add: frame_wire_def)

lemma frame_wire_length: "frame_wf h p \<Longrightarrow> length (frame_wire h p) \<le> cobsMaxEncodedLen kMaxFrameBody"
  unfolding frame_wire_def
  by (meson cobs_enc_length_max cobsMaxEncodedLen_mono length_frame_body_max le_trans)

lemma encodeFrame_correct:
  assumes wf: "frame_wf h p" and cap: "kMaxWireFrame \<le> length out"
  shows "encodeFrame h p out =
         Some (length (frame_wire h p) + 2,
               0 # frame_wire h p @ 0 # drop (length (frame_wire h p) + 2) out)"
proof -
  let ?e = "frame_wire h p"
  have room: "cobsMaxEncodedLen (length (frame_body h p)) + 2 \<le> length out"
    using cobsMaxEncodedLen_mono [OF length_frame_body_max [OF wf]] cap
    by (simp add: kMaxWireFrame_def)
  then obtain o1 rest where out: "out = o1 # rest" by (cases out) auto
  have elen: "length ?e + 2 \<le> length out"
    using cobs_enc_length_max [of "frame_body h p"] room by (simp add: frame_wire_def)
  have enc: "cobsEncode (frame_body h p) (take (length rest - 1) rest) =
      Some (length ?e, ?e @ drop (length ?e) (take (length rest - 1) rest))"
    using room out unfolding frame_wire_def by (intro cobsEncode_correct) simp
  have win: "drop (length ?e) (take (length rest - 1) rest) @ drop (length rest - 1) rest =
      drop (length ?e) rest"
    using elen out by (intro drop_take_drop) simp
  obtain y ys where ys: "drop (length ?e) rest = y # ys"
    using elen out by (cases "drop (length ?e) rest") auto
  have "ys = drop (length ?e + 2) out"
    using ys out by (metis add_2_eq_Suc' drop_Suc drop_Suc_Cons list.sel(3) tl_drop)
  moreover have "drop (length rest) (0 # rest) = drop (length rest - 1) rest"
    using room out by (cases "length rest") auto
  moreover have "buf_set out 0 0 = Some (0 # rest)"
    by (simp add: out buf_set_def)
  moreover have "buf_set (0 # ?e @ y # ys) (1 + length ?e) 0 = Some (0 # ?e @ 0 # ys)"
    using buf_set_append [of "0 # ?e" "1 + length ?e" y ys 0] by simp
  ultimately show ?thesis
    using wf room enc win ys out frame_wire_nonempty [of h p]
    by (simp add: encodeFrame_def frame_wf_def Let_def)
qed

section \<open>Decoding\<close>

lemma cobsDecode_fits:
  assumes "cobs_dec src = Some t" and "length t \<le> n"
  shows "cobsDecode src (replicate n 0) = Some (length t, t @ replicate (n - length t) 0)"
  using cobsDecode_correct [of src "replicate n 0"] assms by (auto simp: dec_result_def)

lemma cobsDecode_Some:
  assumes "cobsDecode src (replicate n 0) = Some (m, d)" and "m \<noteq> 0"
  shows "\<exists>t. cobs_dec src = Some t \<and> m = length t \<and> d = t @ replicate (n - length t) 0"
  using cobsDecode_correct [of src "replicate n 0"] assms
  by (auto simp: dec_result_def split: option.splits if_splits)

lemma decodeFrameBody_encoded:
  assumes wf: "frame_wf h p" and cap: "length p \<le> payload_cap"
  shows "decodeFrameBody (frame_wire h p) h0 payload_cap = Some (DecOk, h, p)"
proof -
  let ?b = "frame_body h p"
  define pad where "pad = replicate (kMaxFrameBody - length ?b) (0 :: u8)"
  let ?hp = "writeHeader h @ p"
  have b: "?b = ?hp @ put_u16 (crc16 ?hp)" using wf by (simp add: frame_body_wf)
  have dec: "cobsDecode (frame_wire h p) (replicate kMaxFrameBody 0) = Some (length ?b, ?b @ pad)"
    unfolding frame_wire_def pad_def
    using wf by (intro cobsDecode_fits cobs_dec_enc [of "[]", simplified] length_frame_body_max)
  have hd: "readHeader (?b @ pad) = h"
    unfolding b by (simp add: readHeader_writeHeader)
  have m: "(?b @ pad) ! 0 = kMagic"
    using wf unfolding b by (simp add: writeHeader_def frame_wf_def)
  have crc: "u16_at (?b @ pad) (kHeaderLen + length p) = crc16 ?hp"
    using u16_at_put [of ?hp "kHeaderLen + length p" "crc16 ?hp" pad] unfolding b by simp
  have body: "take (kHeaderLen + length p) (?b @ pad) = ?hp" and
    pay: "take (length p) (drop kHeaderLen (?b @ pad)) = p"
    unfolding b by simp_all
  have len: "length ?b = kHeaderLen + length p + kCrcLen"
    using wf by (rule length_frame_body)
  have min: "kHeaderLen + kCrcLen \<le> length ?b" "length ?b \<noteq> 0"
    using len by (simp_all add: kHeaderLen_def)
  show ?thesis
    using wf cap min unfolding decodeFrameBody_def dec
    by (simp add: hd m crc body pay len Let_def frame_wf_def del: take_append drop_append)
qed

lemma decodeFrameBody_Ok:
  assumes ok: "decodeFrameBody bs h0 payload_cap = Some (DecOk, h, p)"
  shows "frame_wf h p \<and> cobs_dec bs = Some (frame_body h p) \<and> length p \<le> payload_cap"
proof -
  obtain m d where dec: "cobsDecode bs (replicate kMaxFrameBody 0) = Some (m, d)"
    using cobsDecode_correct [of bs "replicate kMaxFrameBody 0"] by fastforce
  let ?n = "unat (payload_len h)"
  from ok dec have m: "m \<noteq> 0" and magic: "d ! 0 = kMagic" and h: "h = readHeader d"
    and n: "?n \<le> kMaxPayload" "kHeaderLen + ?n + kCrcLen = m"
    and crc: "crc16 (take (kHeaderLen + ?n) d) = u16_at d (kHeaderLen + ?n)"
    and p: "p = take ?n (drop kHeaderLen d)" and cap: "?n \<le> payload_cap"
    by (auto simp: decodeFrameBody_def Let_def split: if_splits)
  obtain t where t: "cobs_dec bs = Some t" "m = length t"
    and d: "d = t @ replicate (kMaxFrameBody - length t) 0"
    using cobsDecode_Some [OF dec m] by blast
  define hb where "hb = take kHeaderLen t"
  define rest where "rest = drop (kHeaderLen + ?n) t"
  have len: "length hb = kHeaderLen" "length p = ?n" "length rest = kCrcLen"
    using t(2) n(2) by (simp_all add: hb_def rest_def p d)
  have "p = take ?n (drop kHeaderLen t)"
    using t(2) n(2) by (simp add: p d)
  then have split: "t = hb @ p @ rest"
    using take_take_drop [of kHeaderLen t ?n] by (simp only: hb_def rest_def)
  have whd: "writeHeader h = hb"
    unfolding h d split using len(1) by (simp add: readHeader_append writeHeader_readHeader)
  obtain r0 r1 where r: "rest = [r0, r1]"
    using len(3) by (auto simp: kCrcLen_def numeral_eq_Suc length_Suc_conv)
  have "u16_at d (kHeaderLen + ?n) = get_u16 r0 r1"
    unfolding u16_at_def d split r using len by (simp add: nth_append)
  moreover have "take (kHeaderLen + ?n) d = hb @ p"
    unfolding d split using len by simp
  ultimately have "rest = put_u16 (crc16 (hb @ p))"
    using crc r by (simp add: put_get_u16)
  moreover have "magic h = kMagic"
    using magic unfolding h by (simp add: readHeader_def)
  ultimately show ?thesis
    using len n(1) t(1) split whd cap by (simp add: frame_wf_def frame_body_def)
qed

subsection \<open>Properties\<close>

text \<open>
  The decoder accepts exactly the encodings of well-formed frames: on every input it returns
  \<open>DecOk\<close> only if the input is the COBS encoding of header, payload and matching CRC, with the
  right magic, a payload length that agrees with the frame and fits the caller's buffer; and then
  the header and payload it hands out are the ones that were framed.
\<close>

theorem decodeFrameBody_sound:
  assumes "decodeFrameBody bs h0 payload_cap = Some (DecOk, h, p)"
  shows "magic h = kMagic \<and> unat (payload_len h) = length p \<and> length p \<le> kMaxPayload \<and>
         length p \<le> payload_cap \<and>
         cobs_dec bs = Some (writeHeader h @ p @ put_u16 (crc16 (writeHeader h @ p)))"
  using decodeFrameBody_Ok [OF assms] frame_body_wf by (simp add: frame_wf_def)

definition sample_header :: Header where
  "sample_header = Header_default \<lparr> msg_id := 1, seq := 0x0102, timestamp_ms := 7, payload_len := 2 \<rparr>"

lemma sample_frame_wf: "frame_wf sample_header [0, 9]"
  by (simp add: frame_wf_def sample_header_def Header_default_def kMaxPayload_def)

theorem decodeFrameBody_sound_witness:
  "magic sample_header = kMagic \<and> unat (payload_len sample_header) = length [0 :: u8, 9] \<and>
   length [0 :: u8, 9] \<le> kMaxPayload \<and> length [0 :: u8, 9] \<le> 2 \<and>
   cobs_dec (frame_wire sample_header [0, 9]) =
     Some (writeHeader sample_header @ [0, 9] @ put_u16 (crc16 (writeHeader sample_header @ [0, 9])))"
  by (rule decodeFrameBody_sound [of _ Header_default])
     (rule decodeFrameBody_encoded [OF sample_frame_wf], simp)

text \<open>
  C24: a frame damaged in a single byte is never accepted: replacing any one byte of the unencoded
  frame (header, payload or CRC) by a different value yields an input on which the decoder does not
  return \<open>DecOk\<close>.
\<close>

theorem decodeFrameBody_rejects_byte_error:
  assumes wf: "frame_wf h p" and body: "frame_body h p = xs @ b # ys" and "b \<noteq> b'"
  shows "\<not> (\<exists>h' p'. decodeFrameBody (cobs_enc [] (xs @ b' # ys)) h0 payload_cap =
              Some (DecOk, h', p'))"
proof
  assume "\<exists>h' p'. decodeFrameBody (cobs_enc [] (xs @ b' # ys)) h0 payload_cap =
              Some (DecOk, h', p')"
  then obtain h' p' where
    "decodeFrameBody (cobs_enc [] (xs @ b' # ys)) h0 payload_cap = Some (DecOk, h', p')" by blast
  then have wf': "frame_wf h' p'" and body': "frame_body h' p' = xs @ b' # ys"
    using decodeFrameBody_Ok cobs_dec_enc [of "[]" "xs @ b' # ys"] by fastforce+
  let ?x = "writeHeader h @ p" and ?x' = "writeHeader h' @ p'"
  have eq: "?x @ put_u16 (crc16 ?x) = xs @ b # ys" and eq': "?x' @ put_u16 (crc16 ?x') = xs @ b' # ys"
    using wf wf' body body' frame_body_wf by simp_all
  have "length (xs @ b # ys) = length (xs @ b' # ys)" by simp
  then have len: "length ?x = length ?x'"
    unfolding eq [symmetric] eq' [symmetric] by simp
  from one_change_split [OF eq eq' len] consider
      (body) zs where "?x = xs @ b # zs" "?x' = xs @ b' # zs" "put_u16 (crc16 ?x) = put_u16 (crc16 ?x')"
    | (trailer) zs where "?x = ?x'" "put_u16 (crc16 ?x) = zs @ b # ys" "put_u16 (crc16 ?x') = zs @ b' # ys"
    by blast
  then show False
  proof cases
    case body
    then show False
      using put_u16_inj [OF body(3)] crc16_detects_byte_change [OF \<open>b \<noteq> b'\<close>] by (simp add: crc16_def)
  next
    case trailer
    then show False using \<open>b \<noteq> b'\<close> by simp
  qed
qed

theorem decodeFrameBody_rejects_byte_error_witness:
  "\<not> (\<exists>h' p'. decodeFrameBody
        (cobs_enc [] ([] @ 0xA4 # tl (frame_body sample_header [0, 9]))) Header_default 16 =
      Some (DecOk, h', p'))"
proof (rule decodeFrameBody_rejects_byte_error [OF sample_frame_wf])
  show "frame_body sample_header [0, 9] = [] @ 0xA5 # tl (frame_body sample_header [0, 9])"
    using sample_frame_wf
    by (simp add: frame_body_wf writeHeader_def sample_header_def Header_default_def kMagic_def)
qed simp

end
