(* ===== verification/FrameReader.thy ===== *)
theory FrameReader
  imports Framing
begin

text \<open>
  The streaming frame reader (\<open>protocol/frame_reader.h\<close>, \<open>protocol/frame_reader.cpp\<close>).
  The receive buffer is kept as the fixed array of the source; \<open>push\<close> is shown to be in
  bounds in every reachable state, to resynchronise at every delimiter, and to hand out exactly
  the bytes between delimiters. Together with the frame codec this gives the receive path of the
  USB protocol: whatever state the reader is in, an encoded frame that follows a delimiter is
  delivered and decodes to what was sent.
\<close>

section \<open>The reader\<close>

definition kMaxFrameBodyCobs :: nat where
  "kMaxFrameBodyCobs = cobsMaxEncodedLen kMaxFrameBody"

record FrameReader =
  fr_buf :: bytes
  fr_len :: nat
  fr_overflow :: bool
  fr_ready :: bool
  fr_frames_ok :: u32
  fr_overflows_dropped :: u32

definition FrameReader_reset :: "FrameReader \<Rightarrow> FrameReader" where
  "FrameReader_reset r = r \<lparr> fr_len := 0, fr_overflow := False, fr_ready := False,
     fr_frames_ok := 0, fr_overflows_dropped := 0 \<rparr>"

text \<open>The constructor leaves the array uninitialised; any content of the right size will do.\<close>

definition FrameReader_new :: "bytes \<Rightarrow> FrameReader" where
  "FrameReader_new junk = FrameReader_reset \<lparr> fr_buf = junk, fr_len = 0, fr_overflow = False,
     fr_ready = False, fr_frames_ok = 0, fr_overflows_dropped = 0 \<rparr>"

definition FrameReader_push :: "u8 \<Rightarrow> FrameReader \<Rightarrow> (bool \<times> FrameReader) option" where
  "FrameReader_push byte r =
     (let r = (if fr_ready r then r \<lparr> fr_ready := False, fr_len := 0, fr_overflow := False \<rparr> else r) in
      if byte = 0 then
        if fr_len r > 0 \<and> \<not> fr_overflow r
        then Some (True, r \<lparr> fr_ready := True, fr_frames_ok := fr_frames_ok r + 1 \<rparr>)
        else Some (False, r \<lparr> fr_len := 0, fr_overflow := False \<rparr>)
      else if fr_overflow r then Some (False, r)
      else if fr_len r \<ge> length (fr_buf r)
      then Some (False, r \<lparr> fr_overflow := True, fr_len := 0,
                            fr_overflows_dropped := fr_overflows_dropped r + 1 \<rparr>)
      else do {
        b \<leftarrow> buf_set (fr_buf r) (fr_len r) byte;
        Some (False, r \<lparr> fr_buf := b, fr_len := fr_len r + 1 \<rparr>)
      })"

definition FrameReader_body :: "FrameReader \<Rightarrow> bytes" where
  "FrameReader_body r = take (fr_len r) (fr_buf r)"

text \<open>
  The receive loop of the caller: push every byte and collect the bodies that become available.
\<close>

fun push_all :: "bytes \<Rightarrow> FrameReader \<Rightarrow> (bytes list \<times> FrameReader) option" where
  "push_all [] r = Some ([], r)"
| "push_all (b # bs) r =
     do {
       (avail, r) \<leftarrow> FrameReader_push b r;
       (fs, r') \<leftarrow> push_all bs r;
       Some (if avail then FrameReader_body r # fs else fs, r')
     }"

section \<open>Abstract reader\<close>

text \<open>
  The contract: a reader is either collecting the bytes since the last delimiter or discarding an
  overlong run until the next one.
\<close>

datatype rstate = Collect bytes | Discard

fun spec_push :: "nat \<Rightarrow> u8 \<Rightarrow> rstate \<Rightarrow> bytes option \<times> rstate" where
  "spec_push cap b (Collect acc) =
     (if b = 0 then (if acc = [] then None else Some acc, Collect [])
      else if cap \<le> length acc then (None, Discard) else (None, Collect (acc @ [b])))"
| "spec_push cap b Discard = (None, if b = 0 then Collect [] else Discard)"

fun spec_run :: "nat \<Rightarrow> bytes \<Rightarrow> rstate \<Rightarrow> bytes list \<times> rstate" where
  "spec_run cap [] s = ([], s)"
| "spec_run cap (b # bs) s =
     (let (f, s') = spec_push cap b s; (fs, s'') = spec_run cap bs s'
      in ((case f of None \<Rightarrow> fs | Some x \<Rightarrow> x # fs), s''))"

definition reader_inv :: "FrameReader \<Rightarrow> bool" where
  "reader_inv r \<longleftrightarrow> fr_len r \<le> length (fr_buf r) \<and> (fr_overflow r \<longrightarrow> fr_len r = 0)
     \<and> (fr_ready r \<longrightarrow> \<not> fr_overflow r)"

definition reader_abs :: "FrameReader \<Rightarrow> rstate" where
  "reader_abs r = (if fr_ready r then Collect [] else if fr_overflow r then Discard
                   else Collect (take (fr_len r) (fr_buf r)))"

lemma reader_inv_reset: "reader_inv (FrameReader_reset r)"
  by (simp add: reader_inv_def FrameReader_reset_def)

lemma reader_inv_new: "reader_inv (FrameReader_new junk)"
  by (simp add: FrameReader_new_def reader_inv_reset)

lemma take_Suc_update: "n < length xs \<Longrightarrow> take (Suc n) (xs[n := x]) = take n xs @ [x]"
  by (simp add: take_Suc_conv_app_nth)

text \<open>One push: no out-of-bounds store, the invariant is kept, and it simulates the contract.\<close>

definition push_ok :: "u8 \<Rightarrow> FrameReader \<Rightarrow> bool" where
  "push_ok b r \<longleftrightarrow>
     (\<exists>avail r'. FrameReader_push b r = Some (avail, r') \<and> reader_inv r' \<and>
        length (fr_buf r') = length (fr_buf r) \<and>
        spec_push (length (fr_buf r)) b (reader_abs r) =
          (if avail then Some (FrameReader_body r') else None, reader_abs r'))"

lemma push_okI:
  assumes "FrameReader_push b r = Some (avail, r')" and "reader_inv r'"
    and "length (fr_buf r') = length (fr_buf r)"
    and "spec_push (length (fr_buf r)) b (reader_abs r) =
          (if avail then Some (FrameReader_body r') else None, reader_abs r')"
  shows "push_ok b r"
  using assms unfolding push_ok_def by blast

lemmas reader_defs = reader_inv_def reader_abs_def FrameReader_body_def

lemma push_ok_not_ready:
  assumes inv: "reader_inv r" and nr: "\<not> fr_ready r"
  shows "push_ok b r"
proof -
  consider (body) "b = 0" "fr_len r > 0" "\<not> fr_overflow r"
    | (empty) "b = 0" "\<not> (fr_len r > 0 \<and> \<not> fr_overflow r)"
    | (drop) "b \<noteq> 0" "fr_overflow r"
    | (full) "b \<noteq> 0" "\<not> fr_overflow r" "length (fr_buf r) \<le> fr_len r"
    | (store) "b \<noteq> 0" "\<not> fr_overflow r" "fr_len r < length (fr_buf r)"
    by fastforce
  then show ?thesis
  proof cases
    case body
    have "fr_buf r \<noteq> []" using inv body(2) by (auto simp: reader_inv_def)
    with body inv nr show ?thesis
      by (intro push_okI [where avail = True and
            r' = "r \<lparr> fr_ready := True, fr_frames_ok := fr_frames_ok r + 1 \<rparr>"])
         (auto simp: FrameReader_push_def reader_defs)
  next
    case empty
    with inv nr show ?thesis
      by (intro push_okI [where avail = False and r' = "r \<lparr> fr_len := 0, fr_overflow := False \<rparr>"])
         (auto simp: FrameReader_push_def reader_defs)
  next
    case drop
    with inv nr show ?thesis
      by (intro push_okI [where avail = False and r' = "r"])
         (auto simp: FrameReader_push_def reader_defs)
  next
    case full
    with inv nr show ?thesis
      by (intro push_okI [where avail = False and r' = "r \<lparr> fr_overflow := True, fr_len := 0,
            fr_overflows_dropped := fr_overflows_dropped r + 1 \<rparr>"])
         (auto simp: FrameReader_push_def reader_defs)
  next
    case store
    with inv nr show ?thesis
      by (intro push_okI [where avail = False and r' = "r \<lparr> fr_buf := (fr_buf r)[fr_len r := b], fr_len := fr_len r + 1 \<rparr>"])
         (auto simp: FrameReader_push_def reader_defs buf_set_def take_Suc_update)
  qed
qed

lemma FrameReader_push_refines:
  assumes "reader_inv r"
  shows "push_ok b r"
proof (cases "fr_ready r")
  case True
  define r1 where "r1 = r \<lparr> fr_ready := False, fr_len := 0, fr_overflow := False \<rparr>"
  have "FrameReader_push b r = FrameReader_push b r1"
    using True by (simp add: FrameReader_push_def r1_def)
  moreover have "reader_abs r = reader_abs r1" "fr_buf r1 = fr_buf r"
    using True by (simp_all add: reader_abs_def r1_def)
  moreover have "push_ok b r1"
    using assms by (intro push_ok_not_ready) (simp_all add: reader_inv_def r1_def)
  ultimately show ?thesis unfolding push_ok_def by simp
next
  case False
  with assms show ?thesis by (intro push_ok_not_ready)
qed

lemma push_all_refines:
  "reader_inv r \<Longrightarrow>
   \<exists>fs r'. push_all bs r = Some (fs, r') \<and> reader_inv r' \<and> length (fr_buf r') = length (fr_buf r) \<and>
           spec_run (length (fr_buf r)) bs (reader_abs r) = (fs, reader_abs r')"
proof (induction bs arbitrary: r)
  case (Cons b bs)
  obtain avail r1 where p: "FrameReader_push b r = Some (avail, r1)" "reader_inv r1"
    "length (fr_buf r1) = length (fr_buf r)"
    "spec_push (length (fr_buf r)) b (reader_abs r) =
       (if avail then Some (FrameReader_body r1) else None, reader_abs r1)"
    using FrameReader_push_refines [OF Cons.prems] unfolding push_ok_def by blast
  obtain fs r2 where q: "push_all bs r1 = Some (fs, r2)" "reader_inv r2"
    "length (fr_buf r2) = length (fr_buf r1)"
    "spec_run (length (fr_buf r1)) bs (reader_abs r1) = (fs, reader_abs r2)"
    using Cons.IH [OF p(2)] by blast
  then show ?case using p by (auto simp: Let_def)
qed simp

section \<open>Streams of delimited bodies\<close>

lemma spec_run_append:
  "spec_run cap (xs @ ys) s =
     (let (fs, s') = spec_run cap xs s; (gs, s'') = spec_run cap ys s' in (fs @ gs, s''))"
  by (induction xs arbitrary: s) (auto simp: Let_def split: prod.split option.split)

lemma spec_run_body:
  "0 \<notin> set bs \<Longrightarrow> length acc + length bs \<le> cap \<Longrightarrow>
   spec_run cap bs (Collect acc) = ([], Collect (acc @ bs))"
  by (induction bs arbitrary: acc) (auto simp: Let_def)

lemma spec_push_zero: "\<exists>f. spec_push cap 0 s = (f, Collect [])"
  by (cases s) auto

text \<open>
  What a framed link needs of its byte stuffing: encoded bodies are non-empty, free of the
  delimiter and no longer than the reader's buffer, and can be decoded.
\<close>

locale delimited_codec =
  fixes enc :: "'m \<Rightarrow> bytes"
    and dec :: "bytes \<Rightarrow> 'm option"
    and valid :: "'m \<Rightarrow> bool"
    and cap :: nat
  assumes enc_nonempty: "enc m \<noteq> []"
    and enc_no_zero: "0 \<notin> set (enc m)"
    and enc_length: "valid m \<Longrightarrow> length (enc m) \<le> cap"
    and dec_enc: "valid m \<Longrightarrow> dec (enc m) = Some m"
begin

lemma run_one:
  assumes "valid m"
  shows "spec_run cap (enc m @ [0]) (Collect []) = ([enc m], Collect [])"
  using spec_run_body [of "enc m" "[]" cap] assms enc_nonempty [of m] enc_no_zero [of m]
    enc_length [of m]
  by (simp add: spec_run_append)

text \<open>
  A batch of messages, each bracketed by delimiters as the sender emits them, is delivered in
  order and complete. From any reader state and behind any garbage, at most what came before the
  first delimiter is lost.
\<close>

lemma run_bracketed:
  "(\<forall>m \<in> set ms. valid m) \<Longrightarrow>
   spec_run cap (concat (map (\<lambda>m. 0 # enc m @ [0]) ms)) (Collect []) = (map enc ms, Collect [])"
proof (induction ms)
  case (Cons m ms)
  then have "spec_run cap ((0 # enc m @ [0]) @ concat (map (\<lambda>m. 0 # enc m @ [0]) ms)) (Collect []) =
      (enc m # map enc ms, Collect [])"
    by (subst spec_run_append) (simp add: run_one)
  then show ?case by simp
qed simp

lemma run_bracketed_resync:
  assumes "\<forall>m \<in> set ms. valid m"
  shows "\<exists>junk s'. spec_run cap (garbage @ concat (map (\<lambda>m. 0 # enc m @ [0]) ms)) s =
           (junk @ map enc ms, s')"
proof (cases ms)
  case Nil
  then show ?thesis by (cases "spec_run cap garbage s") simp
next
  case (Cons m rest)
  obtain fs s1 where g: "spec_run cap garbage s = (fs, s1)" by fastforce
  obtain f where f: "spec_push cap 0 s1 = (f, Collect [])" using spec_push_zero by blast
  have "spec_run cap ((enc m @ [0]) @ concat (map (\<lambda>m. 0 # enc m @ [0]) rest)) (Collect []) =
      (map enc ms, Collect [])"
    using assms Cons by (subst spec_run_append) (simp add: run_one run_bracketed)
  then have "spec_run cap (concat (map (\<lambda>m. 0 # enc m @ [0]) ms)) s1 =
      ((case f of None \<Rightarrow> [] | Some x \<Rightarrow> [x]) @ map enc ms, Collect [])"
    using Cons f by (simp split: option.split)
  then show ?thesis
    using g by (auto simp: spec_run_append)
qed

lemma batch_decodes: "(\<forall>m \<in> set ms. valid m) \<Longrightarrow> map dec (map enc ms) = map Some ms"
  using dec_enc by (induction ms) auto

end

definition frame_enc :: "Header \<times> bytes \<Rightarrow> bytes" where
  "frame_enc m = frame_wire (fst m) (snd m)"

definition frame_dec :: "bytes \<Rightarrow> (Header \<times> bytes) option" where
  "frame_dec bs = (case decodeFrameBody bs Header_default kMaxPayload of
                     Some (DecOk, h, p) \<Rightarrow> Some (h, p) | _ \<Rightarrow> None)"

definition frame_valid :: "Header \<times> bytes \<Rightarrow> bool" where
  "frame_valid m = frame_wf (fst m) (snd m)"

interpretation usb_frames: delimited_codec frame_enc frame_dec frame_valid kMaxFrameBodyCobs
proof unfold_locales
  show "frame_enc m \<noteq> []" "0 \<notin> set (frame_enc m)" for m
    by (simp_all add: frame_enc_def frame_wire_nonempty frame_wire_no_zero)
  show "length (frame_enc m) \<le> kMaxFrameBodyCobs" if "frame_valid m" for m
    using that frame_wire_length by (simp add: frame_enc_def frame_valid_def kMaxFrameBodyCobs_def)
  show "frame_dec (frame_enc m) = Some m" if "frame_valid m" for m
    using that decodeFrameBody_encoded [of "fst m" "snd m" kMaxPayload]
    by (simp add: frame_dec_def frame_enc_def frame_valid_def frame_wf_def)
qed

subsection \<open>Properties\<close>

text \<open>The bytes \<open>encodeFrame\<close> puts on the wire for a message.\<close>

definition frame_bytes :: "Header \<times> bytes \<Rightarrow> bytes" where
  "frame_bytes m = (case encodeFrame (fst m) (snd m) (replicate kMaxWireFrame 0) of
                      Some (n, out) \<Rightarrow> take n out | None \<Rightarrow> [])"

lemma frame_bytes_valid: "frame_valid m \<Longrightarrow> frame_bytes m = 0 # frame_enc m @ [0]"
  using encodeFrame_correct [of "fst m" "snd m" "replicate kMaxWireFrame 0"]
  by (simp add: frame_bytes_def frame_valid_def frame_enc_def)

text \<open>
  C10: the receive path delivers what was sent: from every state of a reader that keeps its
  invariant, and after any garbage whatever, a sequence of frames produced by \<open>encodeFrame\<close> is
  handed out completely and in order (possibly preceded by bodies cut from the garbage), no byte is
  stored out of bounds, and decoding each delivered body gives the header and payload that were
  sent.
\<close>

theorem frames_delivered:
  assumes "reader_inv r" and "length (fr_buf r) = kMaxFrameBodyCobs"
    and "list_all frame_valid ms"
  shows "\<exists>junk bodies r'. push_all (garbage @ concat (map frame_bytes ms)) r = Some (junk @ bodies, r') \<and>
           reader_inv r' \<and> map frame_dec bodies = map Some ms"
proof -
  have ms: "\<forall>m \<in> set ms. frame_valid m" using assms(3) by (simp add: list_all_iff)
  let ?stream = "garbage @ concat (map frame_bytes ms)"
  have "map frame_bytes ms = map (\<lambda>m. 0 # frame_enc m @ [0]) ms"
    using ms by (simp add: frame_bytes_valid)
  then obtain junk s' where spec: "spec_run (length (fr_buf r)) ?stream (reader_abs r) =
      (junk @ map frame_enc ms, s')"
    using usb_frames.run_bracketed_resync [OF ms, of garbage "reader_abs r"] assms(2) by metis
  obtain fs r' where run: "push_all ?stream r = Some (fs, r')" "reader_inv r'"
    "spec_run (length (fr_buf r)) ?stream (reader_abs r) = (fs, reader_abs r')"
    using push_all_refines [OF assms(1)] by blast
  then have "fs = junk @ map frame_enc ms" using spec by simp
  then show ?thesis using run usb_frames.batch_decodes [OF ms] by blast
qed

theorem frames_delivered_witness:
  "\<exists>junk bodies r'. push_all ([3, 1, 4] @ concat (map frame_bytes [(sample_header, [0, 9])]))
       (FrameReader_new (replicate kMaxFrameBodyCobs 0)) = Some (junk @ bodies, r') \<and>
     reader_inv r' \<and> map frame_dec bodies = map Some [(sample_header, [0, 9])]"
  by (rule frames_delivered, rule reader_inv_new)
     (simp_all add: FrameReader_new_def FrameReader_reset_def frame_valid_def sample_frame_wf)

text \<open>
  An overlong run can not wedge the reader and is dropped as one: whatever bytes arrive before
  the next delimiter, the reader never stores outside its buffer, and after that delimiter it is
  back to an empty collecting state.
\<close>

theorem push_all_resynchronises:
  assumes "reader_inv r"
  shows "\<exists>fs r'. push_all (bs @ [0]) r = Some (fs, r') \<and> reader_inv r' \<and>
           reader_abs r' = Collect [] \<and> length (fr_buf r') = length (fr_buf r)"
proof -
  obtain fs r' where run: "push_all (bs @ [0]) r = Some (fs, r')" "reader_inv r'"
    "length (fr_buf r') = length (fr_buf r)"
    "spec_run (length (fr_buf r)) (bs @ [0]) (reader_abs r) = (fs, reader_abs r')"
    using push_all_refines [OF assms] by blast
  obtain fs1 s1 where "spec_run (length (fr_buf r)) bs (reader_abs r) = (fs1, s1)" by fastforce
  moreover obtain f where "spec_push (length (fr_buf r)) 0 s1 = (f, Collect [])"
    using spec_push_zero by blast
  ultimately have "reader_abs r' = Collect []"
    using run(4) by (auto simp: spec_run_append Let_def)
  then show ?thesis using run by blast
qed

theorem push_all_resynchronises_witness:
  "\<exists>fs r'. push_all ([1, 2, 3] @ [0]) (FrameReader_new [0, 0]) = Some (fs, r') \<and> reader_inv r' \<and>
     reader_abs r' = Collect [] \<and> length (fr_buf r') = length (fr_buf (FrameReader_new [0, 0]))"
  by (rule push_all_resynchronises) (rule reader_inv_new)

end
