(* ===== verification/ApiResponse.thy ===== *)
theory ApiResponse
  imports Prelude
begin

text \<open>
  What every USB command group has in common: a handler takes the message id, the request payload
  and the capacity of the response buffer, and either does not know the message (\<open>None\<close>, the
  source's \<open>return false\<close>) or produces the response bytes with the frame flags, and the new
  state of the group.
\<close>

record Response =
  resp_bytes :: bytes
  resp_flags :: u8

type_synonym 's handler = "u8 \<Rightarrow> bytes \<Rightarrow> nat \<Rightarrow> 's \<Rightarrow> (Response \<times> 's) option"

definition kErrorFlag :: u8 where
  "kErrorFlag = 0x02"

definition err_response :: "u8 \<Rightarrow> Response" where
  "err_response code = \<lparr> resp_bytes = [code], resp_flags = kErrorFlag \<rparr>"

text \<open>
  The contract the dispatcher relies on: a handler answers only the ids of its group and, for a
  buffer of at least 64 bytes (the dispatcher passes 256), with a response that is not empty and not
  longer than the buffer. Smaller buffers do not occur, and some handlers would overrun them.
\<close>

locale command_group =
  fixes handle :: "'s handler"
    and ids :: "u8 \<Rightarrow> bool"
  assumes handles_only: "handle mid req cap s = Some (r, s') \<Longrightarrow> ids mid"
    and resp_nonempty: "handle mid req cap s = Some (r, s') \<Longrightarrow> 64 \<le> cap \<Longrightarrow> resp_bytes r \<noteq> []"
    and resp_fits: "handle mid req cap s = Some (r, s') \<Longrightarrow> 64 \<le> cap \<Longrightarrow> length (resp_bytes r) \<le> cap"
begin

lemma foreign_id: "\<not> ids mid \<Longrightarrow> handle mid req cap s = None"
  using handles_only by (cases "handle mid req cap s") auto

end

end
