(* ===== verification/MaintenanceApi.thy ===== *)
theory MaintenanceApi
  imports ApiResponse TokenLease
begin

text \<open>
  The USB maintenance lock (\<open>protocol/maintenance_api.h\<close>, \<open>protocol/maintenance_api.cpp\<close>):
  ENTER, EXIT and HEARTBEAT over a token with a time-to-live. The lock is an instance of the token
  lease, so mutual exclusion between USB clients follows from the lease laws.
\<close>

datatype MaintResult = MaintOk | MaintRejected | MaintBadRequest | MaintBusy | MaintBadToken

fun maintResultCode :: "MaintResult \<Rightarrow> u8" where
  "maintResultCode MaintOk = 0" | "maintResultCode MaintRejected = 1"
| "maintResultCode MaintBadRequest = 2" | "maintResultCode MaintBusy = 3"
| "maintResultCode MaintBadToken = 4"

definition isMaintMsg :: "u8 \<Rightarrow> bool" where
  "isMaintMsg mid \<longleftrightarrow> 0x50 \<le> mid \<and> mid \<le> 0x5F"

definition maint_kDisarmed :: u8 where "maint_kDisarmed = 2"
definition maint_kMacMaintenance :: u8 where "maint_kMacMaintenance = 8"
definition maint_kEstop :: u8 where "maint_kEstop = 12"

record MaintenanceApi =
  mt_locked :: bool
  mt_token :: u32
  mt_next_token :: u32
  mt_last_hb_ms :: u32
  mt_ttl_ms :: u32
  mt_now_ms :: u32
  mt_live_state :: u8
  mt_failsafe_recovery_allowed :: bool
  mt_recovery_lock :: bool

definition kDefaultTtlMs :: u32 where "kDefaultTtlMs = 2000"

definition maint_reset :: "MaintenanceApi \<Rightarrow> MaintenanceApi" where
  "maint_reset s = \<lparr> mt_locked = False, mt_token = 0, mt_next_token = 1, mt_last_hb_ms = 0,
     mt_ttl_ms = kDefaultTtlMs, mt_now_ms = 0, mt_live_state = 0,
     mt_failsafe_recovery_allowed = False, mt_recovery_lock = False \<rparr>"

definition maint_setNow :: "u32 \<Rightarrow> MaintenanceApi \<Rightarrow> MaintenanceApi" where
  "maint_setNow now s = s \<lparr> mt_now_ms := now \<rparr>"

definition maint_setLiveState :: "u8 \<Rightarrow> MaintenanceApi \<Rightarrow> MaintenanceApi" where
  "maint_setLiveState st s = s \<lparr> mt_live_state := st \<rparr>"

definition setFailsafeRecoveryAllowed :: "bool \<Rightarrow> MaintenanceApi \<Rightarrow> MaintenanceApi" where
  "setFailsafeRecoveryAllowed allowed s = s \<lparr> mt_failsafe_recovery_allowed := allowed \<rparr>"

definition maint_setTtlMs :: "u32 \<Rightarrow> MaintenanceApi \<Rightarrow> MaintenanceApi" where
  "maint_setTtlMs ttl s = s \<lparr> mt_ttl_ms := ttl \<rparr>"

definition lockHeld :: "u32 \<Rightarrow> MaintenanceApi \<Rightarrow> bool" where
  "lockHeld now s \<longleftrightarrow> mt_locked s \<and> elapsed now (mt_last_hb_ms s) \<le> mt_ttl_ms s"

definition recoveryLockHeld :: "u32 \<Rightarrow> MaintenanceApi \<Rightarrow> bool" where
  "recoveryLockHeld now s \<longleftrightarrow> lockHeld now s \<and> mt_recovery_lock s"

definition feedTtl :: "u32 \<Rightarrow> MaintenanceApi \<Rightarrow> MaintenanceApi" where
  "feedTtl now s = (if lockHeld now s then s \<lparr> mt_last_hb_ms := now \<rparr> else s)"

definition maint_revoke :: "MaintenanceApi \<Rightarrow> MaintenanceApi" where
  "maint_revoke s = s \<lparr> mt_locked := False, mt_token := 0, mt_recovery_lock := False \<rparr>"

definition maint_canEnter :: "MaintenanceApi \<Rightarrow> bool" where
  "maint_canEnter s \<longleftrightarrow> mt_live_state s = maint_kDisarmed \<or> mt_live_state s = maint_kMacMaintenance \<or>
     (mt_failsafe_recovery_allowed s \<and> mt_live_state s = maint_kEstop)"

definition maint_writeResult :: "MaintResult \<Rightarrow> nat \<Rightarrow> MaintenanceApi \<Rightarrow> Response" where
  "maint_writeResult r cap s =
     (if cap < 2 then err_response (maintResultCode MaintBadRequest)
      else \<lparr> resp_bytes = [maintResultCode r, mt_live_state s],
             resp_flags = (if r = MaintBadRequest then kErrorFlag else 0) \<rparr>)"

definition maint_handle :: "MaintenanceApi handler" where
  "maint_handle mid req cap s0 =
     (if \<not> isMaintMsg mid then None
      else
        let s = (if mt_locked s0 \<and> elapsed (mt_now_ms s0) (mt_last_hb_ms s0) > mt_ttl_ms s0
                 then maint_revoke s0 else s0) in
        if mid = 0x50 then
          if \<not> maint_canEnter s then Some (maint_writeResult MaintRejected cap s, s)
          else if mt_locked s then Some (maint_writeResult MaintBusy cap s, s)
          else
            let t = mt_next_token s; n = mt_next_token s + 1;
                s = s \<lparr> mt_token := t, mt_next_token := (if n = 0 then 1 else n), mt_locked := True,
                        mt_recovery_lock := (mt_live_state s = maint_kEstop),
                        mt_last_hb_ms := mt_now_ms s \<rparr> in
            if cap < 6 then Some (maint_writeResult MaintBadRequest cap s, s)
            else Some (\<lparr> resp_bytes = [maintResultCode MaintOk, mt_live_state s] @ put_u32 t,
                         resp_flags = 0 \<rparr>, s)
        else if mid = 0x51 then
          if length req < 4 then Some (maint_writeResult MaintBadRequest cap s, s)
          else if \<not> mt_locked s \<or> u32_at req 0 \<noteq> mt_token s
          then Some (maint_writeResult MaintBadToken cap s, s)
          else let s = maint_revoke s in Some (maint_writeResult MaintOk cap s, s)
        else if mid = 0x52 then
          if length req < 4 then Some (maint_writeResult MaintBadRequest cap s, s)
          else if \<not> mt_locked s \<or> u32_at req 0 \<noteq> mt_token s
          then Some (maint_writeResult MaintBadToken cap s, s)
          else let s = s \<lparr> mt_last_hb_ms := mt_now_ms s \<rparr> in Some (maint_writeResult MaintOk cap s, s)
        else None)"

text \<open>What a call that answers \<open>return false\<close> leaves behind: for an id of the block a lapsed lock is
  dropped all the same.\<close>

definition maint_declined :: "u8 \<Rightarrow> MaintenanceApi \<Rightarrow> MaintenanceApi" where
  "maint_declined mid s =
     (if isMaintMsg mid \<and> mt_locked s \<and> elapsed (mt_now_ms s) (mt_last_hb_ms s) > mt_ttl_ms s
      then maint_revoke s else s)"

lemmas maint_defs = maint_setNow_def maint_setLiveState_def setFailsafeRecoveryAllowed_def
  maint_setTtlMs_def feedTtl_def maint_revoke_def maint_reset_def

interpretation maint_group: command_group maint_handle isMaintMsg
  by unfold_locales
     (auto simp: maint_handle_def maint_writeResult_def err_response_def Let_def split: if_splits)

section \<open>Invariant\<close>

definition maint_inv :: "MaintenanceApi \<Rightarrow> bool" where
  "maint_inv s \<longleftrightarrow> mt_next_token s \<noteq> 0 \<and> (mt_locked s \<longleftrightarrow> mt_token s \<noteq> 0) \<and>
     (mt_recovery_lock s \<longrightarrow> mt_locked s)"

lemma maint_inv_reset: "maint_inv (maint_reset s)"
  by (simp add: maint_inv_def maint_reset_def)

lemma maint_inv_handle: "maint_inv s \<Longrightarrow> maint_handle mid req cap s = Some (r, s') \<Longrightarrow> maint_inv s'"
  by (auto simp: maint_handle_def maint_inv_def maint_revoke_def Let_def split: if_splits)

lemma maint_inv_ops:
  assumes "maint_inv s"
  shows "maint_inv (maint_setNow now s)" "maint_inv (maint_setLiveState st s)"
    "maint_inv (setFailsafeRecoveryAllowed b s)" "maint_inv (feedTtl now s)" "maint_inv (maint_revoke s)"
    "maint_inv (maint_setTtlMs ttl s)"
  using assms by (auto simp: maint_defs maint_inv_def)

section \<open>The lock as a lease\<close>

text \<open>
  A client's view: an ENTER or HEARTBEAT frame served at a given time, with a response buffer of the
  full payload size. \<open>maint_acquire\<close> is the token in the response, 0 when there is none.
\<close>

definition maint_acquire :: "u32 \<Rightarrow> MaintenanceApi \<Rightarrow> u32 \<times> MaintenanceApi" where
  "maint_acquire now s =
     (case maint_handle 0x50 [] 256 (maint_setNow now s) of
        Some (r, s') \<Rightarrow> (if length (resp_bytes r) = 6 then u32_at (resp_bytes r) 2 else 0, s')
      | None \<Rightarrow> (0, s))"

definition maint_refresh :: "u32 \<Rightarrow> u32 \<Rightarrow> MaintenanceApi \<Rightarrow> bool \<times> MaintenanceApi" where
  "maint_refresh t now s =
     (case maint_handle 0x52 (put_u32 t) 256 (maint_setNow now s) of
        Some (r, s') \<Rightarrow> (resp_bytes r ! 0 = maintResultCode MaintOk, s')
      | None \<Rightarrow> (False, s))"

lemma maint_acquire_eq:
  "maint_acquire now s =
     (let s1 = maint_setNow now s;
          s2 = (if mt_locked s \<and> \<not> lockHeld now s then maint_revoke s1 else s1) in
      if \<not> maint_canEnter s \<or> lockHeld now s then (0, s2)
      else (mt_next_token s, s2 \<lparr> mt_token := mt_next_token s,
              mt_next_token := (if mt_next_token s + 1 = 0 then 1 else mt_next_token s + 1),
              mt_locked := True, mt_recovery_lock := (mt_live_state s = maint_kEstop),
              mt_last_hb_ms := now \<rparr>))"
  by (auto simp: maint_acquire_def maint_handle_def isMaintMsg_def maint_writeResult_def Let_def
      maint_canEnter_def maint_setNow_def maint_revoke_def lockHeld_def not_less)

lemma maint_refresh_eq:
  "maint_refresh t now s =
     (let s1 = maint_setNow now s;
          s2 = (if mt_locked s \<and> \<not> lockHeld now s then maint_revoke s1 else s1) in
      if lockHeld now s \<and> t = mt_token s then (True, s2 \<lparr> mt_last_hb_ms := now \<rparr>) else (False, s2))"
  by (auto simp: maint_refresh_def maint_handle_def isMaintMsg_def maint_writeResult_def Let_def
      maint_setNow_def maint_revoke_def lockHeld_def not_less)

interpretation maint_lease: token_lease maint_inv lockHeld mt_token maint_acquire maint_refresh
proof unfold_locales
  fix s now t
  show "maint_inv (snd (maint_acquire now s))" if "maint_inv s"
    using that by (auto simp: maint_acquire_eq maint_inv_def maint_defs Let_def)
  show "maint_inv (snd (maint_refresh t now s))" if "maint_inv s"
    using that by (auto simp: maint_refresh_eq maint_inv_def maint_defs Let_def)
  show "fst (maint_refresh t now s) = (lockHeld now s \<and> t = mt_token s \<and> t \<noteq> 0)" if "maint_inv s"
    using that by (auto simp: maint_refresh_eq maint_inv_def lockHeld_def Let_def)
qed (auto simp: maint_acquire_eq maint_refresh_eq maint_inv_def lockHeld_def maint_defs Let_def
      split: if_splits)

section \<open>Reachable states\<close>

datatype maint_op =
    MaintNow u32 | MaintLive u8 | MaintRecovery bool | MaintFeed u32 | MaintRevoke
  | MaintTtl u32 | MaintFrame u8 bytes nat

fun maint_step :: "maint_op \<Rightarrow> MaintenanceApi \<Rightarrow> MaintenanceApi" where
  "maint_step (MaintNow now) s = maint_setNow now s"
| "maint_step (MaintLive st) s = maint_setLiveState st s"
| "maint_step (MaintRecovery b) s = setFailsafeRecoveryAllowed b s"
| "maint_step (MaintFeed now) s = feedTtl now s"
| "maint_step MaintRevoke s = maint_revoke s"
| "maint_step (MaintTtl ttl) s = maint_setTtlMs ttl s"
| "maint_step (MaintFrame mid req cap) s =
     (case maint_handle mid req cap s of Some (r, s') \<Rightarrow> s' | None \<Rightarrow> maint_declined mid s)"

lemma maint_inv_step: "maint_inv s \<Longrightarrow> maint_inv (maint_step op s)"
  by (cases op) (auto simp: maint_inv_ops maint_declined_def intro: maint_inv_handle split: option.splits)

lemma maint_inv_run: "maint_inv s \<Longrightarrow> maint_inv (fold maint_step ops s)"
  by (induction ops arbitrary: s) (simp_all add: maint_inv_step)

text \<open>
  C30: the USB maintenance lock is exclusive: from every state the API can get into after
  \<open>reset\<close> by any sequence of published states, clock updates, revocations and command frames,
  serve any interleaving of ENTER and HEARTBEAT frames with arbitrary tokens while the lock is
  held; the holder's token never changes, and no frame is answered with, or accepted for, any
  other token.
\<close>

theorem maint_lock_exclusive:
  assumes "s = fold maint_step ops (maint_reset s0)"
    and "lease_alive lockHeld maint_acquire maint_refresh rs s"
    and "lease_run maint_acquire maint_refresh rs s = (ts, s')"
  shows "mt_token s' = mt_token s \<and> set ts \<subseteq> {0, mt_token s}"
  using maint_lease.run_exclusive [OF _ assms(2,3)] assms(1) maint_inv_run maint_inv_reset by blast

definition maint_sample :: MaintenanceApi where
  "maint_sample = \<lparr> mt_locked = False, mt_token = 0, mt_next_token = 1, mt_last_hb_ms = 0,
     mt_ttl_ms = 0, mt_now_ms = 0, mt_live_state = 0, mt_failsafe_recovery_allowed = False,
     mt_recovery_lock = False \<rparr>"

definition maint_held :: MaintenanceApi where
  "maint_held = fold maint_step [MaintLive 2, MaintNow 5, MaintFrame 0x50 [] 256] (maint_reset maint_sample)"

lemmas maint_eval = maint_held_def maint_sample_def maint_defs maint_handle_def isMaintMsg_def
  maint_canEnter_def maint_kDisarmed_def maint_kMacMaintenance_def maint_kEstop_def
  maint_writeResult_def kDefaultTtlMs_def lockHeld_def Let_def

theorem maint_lock_exclusive_witness:
  "mt_token maint_held = 1 \<and>
   (case lease_run maint_acquire maint_refresh [(None, 6), (Some 2, 7), (Some 1, 2000)] maint_held of
      (ts, s') \<Rightarrow> mt_token s' = mt_token maint_held \<and> set ts \<subseteq> {0, mt_token maint_held})"
proof -
  obtain ts s' where run:
    "lease_run maint_acquire maint_refresh [(None, 6), (Some 2, 7), (Some 1, 2000)] maint_held = (ts, s')"
    by fastforce
  have "lease_alive lockHeld maint_acquire maint_refresh [(None, 6), (Some 2, 7), (Some 1, 2000)] maint_held"
    and "mt_token maint_held = 1"
    by (simp_all add: maint_acquire_eq maint_refresh_eq maint_eval)
  then show ?thesis
    using maint_lock_exclusive [OF maint_held_def _ run] unfolding run by simp
qed

text \<open>
  The lock is granted only by ENTER, only when no live lock exists, and only in a safe live
  state: Disarmed, MacMaintenance, or E-stop while failsafe recovery is allowed (and then it is
  marked as a recovery lock). The granted token is fresh and never zero, and the lock then holds
  for exactly the time-to-live after the grant.
\<close>

theorem maint_grant_guarded:
  assumes "maint_inv s" and "maint_handle mid req cap s = Some (r, s')"
    and "lockHeld (mt_now_ms s) s'" and "\<not> lockHeld (mt_now_ms s) s"
  shows "mid = 0x50 \<and> mt_token s' = mt_next_token s \<and> mt_token s' \<noteq> 0 \<and>
         mt_token s' \<noteq> mt_next_token s' \<and>
         (mt_live_state s = maint_kDisarmed \<or> mt_live_state s = maint_kMacMaintenance \<or>
          mt_live_state s = maint_kEstop \<and> mt_failsafe_recovery_allowed s) \<and>
         mt_recovery_lock s' = (mt_live_state s = maint_kEstop) \<and>
         lockHeld later s' = (elapsed later (mt_now_ms s) \<le> mt_ttl_ms s)"
  using assms
  by (auto simp: maint_handle_def maint_inv_def lockHeld_def maint_canEnter_def maint_revoke_def Let_def
      split: if_splits)

theorem maint_grant_guarded_witness:
  "\<exists>r s'. maint_handle 0x50 [] 256 (maint_setLiveState 2 (maint_reset maint_sample)) = Some (r, s') \<and>
     mt_token s' = 1 \<and> mt_token s' \<noteq> mt_next_token s' \<and> \<not> mt_recovery_lock s' \<and>
     lockHeld 2000 s' \<and> \<not> lockHeld 2001 s'"
proof -
  let ?s = "maint_setLiveState 2 (maint_reset maint_sample)"
  have inv: "maint_inv ?s" by (simp add: maint_inv_ops maint_inv_reset)
  obtain r s' where h: "maint_handle 0x50 [] 256 ?s = Some (r, s')"
    by (simp add: maint_eval)
  then have "lockHeld (mt_now_ms ?s) s'" "\<not> lockHeld (mt_now_ms ?s) ?s"
    by (auto simp: maint_eval)
  note g = maint_grant_guarded [OF inv h this]
  have "mt_now_ms ?s = 0" "mt_ttl_ms ?s = 2000" "mt_next_token ?s = 1" "mt_live_state ?s = 2"
    by (simp_all add: maint_eval)
  then show ?thesis
    using h g [of 2000] g [of 2001] by (auto simp: maint_kEstop_def)
qed

end
