(* ===== verification/PassiveApi.thy ===== *)
theory PassiveApi
  imports ApiResponse
begin

text \<open>
  Passive pose streaming commands (\<open>protocol/passive_api.h\<close>, \<open>protocol/passive_api.cpp\<close>): the
  host's latched request, the staged stream rate and the zero-reference counter.
\<close>

datatype PassiveResult = PassiveOk | PassiveRejected | PassiveBadRequest

fun passiveResultCode :: "PassiveResult \<Rightarrow> u8" where
  "passiveResultCode PassiveOk = 0" | "passiveResultCode PassiveRejected = 1"
| "passiveResultCode PassiveBadRequest = 2"

definition isPassiveMsg :: "u8 \<Rightarrow> bool" where
  "isPassiveMsg mid \<longleftrightarrow> 0x80 \<le> mid \<and> mid \<le> 0x83"

definition passive_kDefaultHz :: u16 where "passive_kDefaultHz = 50"
definition passive_kMinHz :: u16 where "passive_kMinHz = 1"
definition passive_kMaxHz :: u16 where "passive_kMaxHz = 200"

record PassiveApi =
  pv_requested :: bool
  pv_rate_hz :: u16
  pv_zero_seq :: u32
  pv_live_state :: u8

definition passive_reset :: "PassiveApi \<Rightarrow> PassiveApi" where
  "passive_reset s = \<lparr> pv_requested = False, pv_rate_hz = passive_kDefaultHz, pv_zero_seq = 0,
                       pv_live_state = 0 \<rparr>"

definition passive_setLiveState :: "u8 \<Rightarrow> PassiveApi \<Rightarrow> PassiveApi" where
  "passive_setLiveState st s = s \<lparr> pv_live_state := st \<rparr>"

definition passive_clear :: "PassiveApi \<Rightarrow> PassiveApi" where
  "passive_clear s = s \<lparr> pv_requested := False \<rparr>"

definition passive_canEnter :: "PassiveApi \<Rightarrow> bool" where
  "passive_canEnter s \<longleftrightarrow> pv_live_state s = 2 \<or> pv_live_state s = 8 \<or> pv_live_state s = 9"

definition passive_writeResult :: "PassiveResult \<Rightarrow> bytes \<Rightarrow> nat \<Rightarrow> PassiveApi \<Rightarrow> Response" where
  "passive_writeResult r extra cap s =
     (if cap < 2 + length extra then err_response (passiveResultCode PassiveBadRequest)
      else \<lparr> resp_bytes = [passiveResultCode r, pv_live_state s] @ extra,
             resp_flags = (if r = PassiveBadRequest then kErrorFlag else 0) \<rparr>)"

definition passive_handle :: "PassiveApi handler" where
  "passive_handle mid req cap s =
     (if \<not> isPassiveMsg mid then None
      else if mid = 0x80 then
        if \<not> passive_canEnter s then Some (passive_writeResult PassiveRejected [] cap s, s)
        else let s = s \<lparr> pv_requested := True \<rparr> in Some (passive_writeResult PassiveOk [] cap s, s)
      else if mid = 0x81 then
        let s = s \<lparr> pv_requested := False \<rparr> in Some (passive_writeResult PassiveOk [] cap s, s)
      else if mid = 0x82 then
        if length req < 2 then Some (passive_writeResult PassiveBadRequest [] cap s, s)
        else if \<not> pv_requested s then Some (passive_writeResult PassiveRejected [] cap s, s)
        else let rate = u16_at req 0 in
          if rate < passive_kMinHz \<or> rate > passive_kMaxHz
          then Some (passive_writeResult PassiveBadRequest [] cap s, s)
          else let s = s \<lparr> pv_rate_hz := rate \<rparr> in
               Some (passive_writeResult PassiveOk (put_u16 (pv_rate_hz s)) cap s, s)
      else if mid = 0x83 then
        if \<not> pv_requested s then Some (passive_writeResult PassiveRejected [] cap s, s)
        else let s = s \<lparr> pv_zero_seq := pv_zero_seq s + 1 \<rparr> in
             Some (passive_writeResult PassiveOk [] cap s, s)
      else None)"

interpretation passive_group: command_group passive_handle isPassiveMsg
  by unfold_locales
     (auto simp: passive_handle_def passive_writeResult_def err_response_def Let_def split: if_splits)

section \<open>Reachable states\<close>

datatype passive_op = PassiveLive u8 | PassiveClear | PassiveFrame u8 bytes nat

fun passive_step :: "passive_op \<Rightarrow> PassiveApi \<Rightarrow> PassiveApi" where
  "passive_step (PassiveLive st) s = passive_setLiveState st s"
| "passive_step PassiveClear s = passive_clear s"
| "passive_step (PassiveFrame mid req cap) s =
     (case passive_handle mid req cap s of Some (r, s') \<Rightarrow> s' | None \<Rightarrow> s)"

definition passive_inv :: "PassiveApi \<Rightarrow> bool" where
  "passive_inv s \<longleftrightarrow> passive_kMinHz \<le> pv_rate_hz s \<and> pv_rate_hz s \<le> passive_kMaxHz"

lemma passive_inv_step: "passive_inv s \<Longrightarrow> passive_inv (passive_step op s)"
  by (cases op)
     (auto simp: passive_inv_def passive_setLiveState_def passive_clear_def passive_handle_def Let_def
       not_less split: option.splits if_splits)

lemma passive_inv_run: "passive_inv s \<Longrightarrow> passive_inv (fold passive_step ops s)"
  by (induction ops arbitrary: s) (simp_all add: passive_inv_step)

lemma passive_inv_reset: "passive_inv (passive_reset s)"
  by (simp add: passive_inv_def passive_reset_def passive_kDefaultHz_def passive_kMinHz_def passive_kMaxHz_def)

text \<open>What changes in one operation: the rate and the counter only under an active request, the
  request only by an ENTER in a safe live state.\<close>

lemma passive_step_changes:
  shows "pv_requested (passive_step op s) \<Longrightarrow> \<not> pv_requested s \<Longrightarrow>
           (\<exists>req cap. op = PassiveFrame 0x80 req cap) \<and> pv_live_state s \<in> {2, 8, 9}"
    and "\<not> pv_requested s \<Longrightarrow> pv_rate_hz (passive_step op s) = pv_rate_hz s \<and>
           pv_zero_seq (passive_step op s) = pv_zero_seq s"
  by (cases op;
      auto simp: passive_setLiveState_def passive_clear_def passive_handle_def passive_canEnter_def Let_def
        split: option.splits if_splits)+

text \<open>
  From reset on, whatever frames arrive and states are published: the staged stream rate is
  between 1 and 200 Hz, so the control task never divides by a zero rate; a passive request appears
  only through PASSIVE_ENTER in Disarmed, MacMaintenance or PassivePoseStream; and without a request
  neither the rate nor the zero-reference counter moves.
\<close>

theorem passive_request_guarded:
  assumes "s = fold passive_step ops (passive_reset s0)" and "s' = passive_step op s"
  shows "1 \<le> pv_rate_hz s' \<and> pv_rate_hz s' \<le> 200 \<and>
         (pv_requested s' \<and> \<not> pv_requested s \<longrightarrow>
            (\<exists>req cap. op = PassiveFrame 0x80 req cap) \<and> pv_live_state s \<in> {2, 8, 9}) \<and>
         (\<not> pv_requested s \<longrightarrow> pv_rate_hz s' = pv_rate_hz s \<and> pv_zero_seq s' = pv_zero_seq s)"
proof -
  have "passive_inv s'"
    using assms passive_inv_run [OF passive_inv_reset] passive_inv_step by simp
  then show ?thesis
    using passive_step_changes [where op = op and s = s] assms(2)
    by (simp add: passive_inv_def passive_kMinHz_def passive_kMaxHz_def)
qed

definition passive_sample :: PassiveApi where
  "passive_sample = \<lparr> pv_requested = False, pv_rate_hz = 0, pv_zero_seq = 7, pv_live_state = 3 \<rparr>"

theorem passive_request_guarded_witness:
  "\<not> pv_requested (fold passive_step [PassiveLive 8] (passive_reset passive_sample)) \<and>
   (let s' = passive_step (PassiveFrame 0x80 [] 64) (fold passive_step [PassiveLive 8] (passive_reset passive_sample))
    in pv_requested s' \<and> 1 \<le> pv_rate_hz s' \<and> pv_rate_hz s' \<le> 200 \<and> pv_zero_seq s' = 0)"
  using passive_request_guarded [OF refl refl, of "PassiveFrame 0x80 [] 64" "[PassiveLive 8]" passive_sample]
  by (simp add: passive_reset_def passive_setLiveState_def passive_handle_def isPassiveMsg_def
      passive_canEnter_def Let_def)

end
