(* ===== verification/ControlApi.thy ===== *)
theory ControlApi
  imports ApiResponse
begin

text \<open>
  The safety command group (\<open>protocol/control_api.h\<close>, \<open>protocol/control_api.cpp\<close>): ESTOP,
  CLEAR_FAULT, SET_ARMING and SET_MODE recorded as latched or one-shot host intent, and the one-shot
  Jetson heartbeat.
\<close>

datatype CtrlResult = CtrlOk | CtrlRejected | CtrlBadRequest

fun ctrlResultCode :: "CtrlResult \<Rightarrow> u8" where
  "ctrlResultCode CtrlOk = 0" | "ctrlResultCode CtrlRejected = 1" | "ctrlResultCode CtrlBadRequest = 2"

datatype ArmingRequest = ArmDisarm | ArmArm

definition isControlMsg :: "u8 \<Rightarrow> bool" where
  "isControlMsg mid \<longleftrightarrow> 0x30 \<le> mid \<and> mid \<le> 0x33"

record ControlApi =
  ct_estop :: bool
  ct_disarm :: bool
  ct_clear_fault :: bool
  ct_jetson_hb :: bool
  ct_live_state :: u8
  ct_live_fault :: u8

definition control_reset :: "ControlApi \<Rightarrow> ControlApi" where
  "control_reset s = \<lparr> ct_estop = False, ct_disarm = False, ct_clear_fault = False, ct_jetson_hb = False,
                       ct_live_state = 0, ct_live_fault = 0 \<rparr>"

definition control_setLiveState :: "u8 \<Rightarrow> u8 \<Rightarrow> ControlApi \<Rightarrow> ControlApi" where
  "control_setLiveState st fault s = s \<lparr> ct_live_state := st, ct_live_fault := fault \<rparr>"

definition consumeClearFault :: "ControlApi \<Rightarrow> bool \<times> ControlApi" where
  "consumeClearFault s = (ct_clear_fault s, s \<lparr> ct_clear_fault := False \<rparr>)"

definition noteJetsonHeartbeat :: "ControlApi \<Rightarrow> ControlApi" where
  "noteJetsonHeartbeat s = s \<lparr> ct_jetson_hb := True \<rparr>"

definition consumeJetsonHeartbeat :: "ControlApi \<Rightarrow> bool \<times> ControlApi" where
  "consumeJetsonHeartbeat s = (ct_jetson_hb s, s \<lparr> ct_jetson_hb := False \<rparr>)"

definition control_writeStatus :: "CtrlResult \<Rightarrow> ControlApi \<Rightarrow> Response" where
  "control_writeStatus r s =
     \<lparr> resp_bytes = [ctrlResultCode r, ct_live_state s, ct_live_fault s], resp_flags = 0 \<rparr>"

text \<open>The cast of the request byte: every value but 0 takes the source's \<open>else\<close> branch.\<close>

definition armingRequest :: "u8 \<Rightarrow> ArmingRequest" where
  "armingRequest b = (if b = 0 then ArmDisarm else ArmArm)"

definition control_handle :: "ControlApi handler" where
  "control_handle mid req cap s =
     (if \<not> isControlMsg mid then None
      else if cap < 3 then Some (err_response (ctrlResultCode CtrlBadRequest), s)
      else if mid = 0x30 then
        let s = s \<lparr> ct_estop := True \<rparr> in Some (control_writeStatus CtrlOk s, s)
      else if mid = 0x31 then
        let s = s \<lparr> ct_estop := False, ct_clear_fault := True \<rparr> in Some (control_writeStatus CtrlOk s, s)
      else if mid = 0x32 then
        if length req < 1 then Some (err_response (ctrlResultCode CtrlBadRequest), s)
        else (case armingRequest (req ! 0) of
            ArmDisarm \<Rightarrow> let s = s \<lparr> ct_disarm := True \<rparr> in Some (control_writeStatus CtrlOk s, s)
          | ArmArm \<Rightarrow> let s = s \<lparr> ct_disarm := False \<rparr> in Some (control_writeStatus CtrlOk s, s))
      else if mid = 0x33 then
        if length req < 1 then Some (err_response (ctrlResultCode CtrlBadRequest), s)
        else let mode = req ! 0 in
          if mode = 12 then let s = s \<lparr> ct_estop := True \<rparr> in Some (control_writeStatus CtrlOk s, s)
          else if mode = 2 then let s = s \<lparr> ct_disarm := True \<rparr> in Some (control_writeStatus CtrlOk s, s)
          else Some (control_writeStatus CtrlRejected s, s)
      else None)"

interpretation control_group: command_group control_handle isControlMsg
  by unfold_locales
     (auto simp: control_handle_def control_writeStatus_def err_response_def Let_def
       split: if_splits ArmingRequest.splits)

section \<open>Intent of a command history\<close>

text \<open>
  The specification: the intent is determined by the last relevant accepted command. A command is
  an estop (ESTOP or SET_MODE 12), a clear (CLEAR_FAULT), a disarm (SET_ARMING 0 or SET_MODE 2), an
  arm (SET_ARMING with any other byte) or nothing.
\<close>

datatype host_command = HostEstop | HostClear | HostDisarm | HostArm | HostNothing

definition host_command :: "u8 \<Rightarrow> bytes \<Rightarrow> host_command" where
  "host_command mid req =
     (if mid = 0x30 then HostEstop
      else if mid = 0x31 then HostClear
      else if mid = 0x32 \<and> req \<noteq> [] then (if hd req = 0 then HostDisarm else HostArm)
      else if mid = 0x33 \<and> req \<noteq> [] \<and> hd req = 12 then HostEstop
      else if mid = 0x33 \<and> req \<noteq> [] \<and> hd req = 2 then HostDisarm
      else HostNothing)"

fun host_intent :: "host_command list \<Rightarrow> bool \<times> bool \<times> bool" where
  "host_intent [] = (False, False, False)"
| "host_intent (c # cs) =
     (let (e, d, f) = host_intent cs in
      case c of HostEstop \<Rightarrow> (True, d, f) | HostClear \<Rightarrow> (False, d, True)
              | HostDisarm \<Rightarrow> (e, True, f) | HostArm \<Rightarrow> (e, False, f) | HostNothing \<Rightarrow> (e, d, f))"

text \<open>The frames served so far, the latest first, and the state they lead to from reset.\<close>

fun control_serve :: "(u8 \<times> bytes) list \<Rightarrow> ControlApi \<Rightarrow> ControlApi" where
  "control_serve [] s = control_reset s"
| "control_serve ((mid, req) # frames) s =
     (let s = control_serve frames s in
      case control_handle mid req 256 s of Some (r, s') \<Rightarrow> s' | None \<Rightarrow> s)"

definition ct_intent :: "ControlApi \<Rightarrow> bool \<times> bool \<times> bool" where
  "ct_intent s = (ct_estop s, ct_disarm s, ct_clear_fault s)"

lemma control_handle_intent:
  "ct_intent (case control_handle mid req 256 s of Some (r, s') \<Rightarrow> s' | None \<Rightarrow> s) =
     (let (e, d, f) = ct_intent s in
      case host_command mid req of HostEstop \<Rightarrow> (True, d, f) | HostClear \<Rightarrow> (False, d, True)
        | HostDisarm \<Rightarrow> (e, True, f) | HostArm \<Rightarrow> (e, False, f) | HostNothing \<Rightarrow> (e, d, f))"
  by (cases req)
     (auto simp: control_handle_def host_command_def ct_intent_def armingRequest_def isControlMsg_def Let_def
       split: if_splits)

text \<open>
  C31: after any history of command frames, of any group and with any payload, the host intent is
  exactly that of the specification: the E-stop latch is set by ESTOP or SET_MODE(Estop) and released
  only by CLEAR_FAULT, which also raises the fault-clear request; the disarm latch is set by
  SET_ARMING(0) or SET_MODE(Disarmed) and released only by SET_ARMING; every other frame, malformed
  ones included, changes nothing, and the Jetson heartbeat and the published live state are never
  touched by a command.
\<close>

theorem control_intent_refines:
  "ct_intent (control_serve frames s) = host_intent (map (\<lambda>(mid, req). host_command mid req) frames) \<and>
   \<not> ct_jetson_hb (control_serve frames s) \<and> ct_live_state (control_serve frames s) = 0"
proof (induction frames)
  case Nil
  then show ?case by (simp add: ct_intent_def control_reset_def)
next
  case (Cons fr frames)
  obtain mid req where fr: "fr = (mid, req)" by fastforce
  have "\<not> ct_jetson_hb (control_serve (fr # frames) s) \<and> ct_live_state (control_serve (fr # frames) s) = 0"
    using Cons by (auto simp: fr control_handle_def Let_def split: option.splits if_splits ArmingRequest.splits)
  then show ?case
    using Cons control_handle_intent [where mid = mid and req = req and s = "control_serve frames s"] by (simp add: fr Let_def)
qed

end
