(* ===== verification/Codec.thy ===== *)
theory Codec
  imports Prelude "HOL-Library.Monad_Syntax"
begin

text \<open>
  Little-endian field readers and writers of \<open>config/config_schema.cpp\<close>. The source keeps a
  pointer and an offset that each call advances; here the cursor is the list of bytes not read yet.
  A read past the end of the payload is \<open>None\<close>, so a result \<open>Some\<close> shows that every load was
  inside the payload. The locale \<open>field_codec\<close> states what a matching pair of writer and reader
  promises; fixed-size arrays of fields follow once from it.
\<close>

type_synonym 'a reader = "bytes \<Rightarrow> ('a \<times> bytes) option"

fun getU8 :: "u8 reader" where
  "getU8 (b # bs) = Some (b, bs)"
| "getU8 [] = None"

fun getU16 :: "u16 reader" where
  "getU16 (a # b # bs) = Some (get_u16 a b, bs)"
| "getU16 bs = None"

fun getU32 :: "u32 reader" where
  "getU32 (a # b # c # d # bs) = Some (get_u32 a b c d, bs)"
| "getU32 bs = None"

definition get_bytes :: "nat \<Rightarrow> bytes reader" where
  "get_bytes n bs = (if n \<le> length bs then Some (take n bs, drop n bs) else None)"

fun get_list :: "nat \<Rightarrow> 'a reader \<Rightarrow> 'a list reader" where
  "get_list 0 g bs = Some ([], bs)"
| "get_list (Suc n) g bs = do { (x, bs) \<leftarrow> g bs; (xs, bs) \<leftarrow> get_list n g bs; Some (x # xs, bs) }"

definition putU8 :: "u8 \<Rightarrow> bytes" where
  "putU8 v = [v]"

lemma length_putU8 [simp]: "length (putU8 v) = 1"
  by (simp add: putU8_def)

lemma getU8_iff [simp]: "getU8 bs = Some (v, r) \<longleftrightarrow> bs = putU8 v @ r"
  by (cases bs) (auto simp: putU8_def)

lemma getU16_iff [simp]: "getU16 bs = Some (v, r) \<longleftrightarrow> bs = put_u16 v @ r"
  by (cases bs rule: getU16.cases)
     (auto simp: put_get_u16 dest: arg_cong [where f = length],
      auto simp: put_u16_def get_put_u16)

lemma getU32_iff [simp]: "getU32 bs = Some (v, r) \<longleftrightarrow> bs = put_u32 v @ r"
  by (cases bs rule: getU32.cases)
     (auto simp: put_get_u32 dest: arg_cong [where f = length],
      auto simp: put_u32_def get_put_u32)

lemma get_bytes_iff [simp]: "get_bytes n bs = Some (v, r) \<longleftrightarrow> length v = n \<and> bs = v @ r"
  by (auto simp: get_bytes_def min_def)

lemma put_eq [simp]:
  "putU8 v = putU8 w \<longleftrightarrow> v = w" "put_u16 a = put_u16 b \<longleftrightarrow> a = b" "put_u32 c = put_u32 d \<longleftrightarrow> c = d"
  by (auto simp: putU8_def dest: put_u16_inj) (metis u32_at_put_head(1))

lemma putU8_nonempty [simp]: "putU8 v \<noteq> []"
  by (simp add: putU8_def)

lemma getU8_None [simp]: "getU8 bs = None \<longleftrightarrow> length bs < 1"
  by (cases bs) auto

lemma getU16_None [simp]: "getU16 bs = None \<longleftrightarrow> length bs < 2"
  by (cases bs rule: getU16.cases) auto

lemma getU32_None [simp]: "getU32 bs = None \<longleftrightarrow> length bs < 4"
  by (cases bs rule: getU32.cases) auto

lemma get_bytes_None [simp]: "get_bytes n bs = None \<longleftrightarrow> length bs < n"
  by (auto simp: get_bytes_def)

text \<open>A writer and a reader that agree on a field of a fixed size.\<close>

locale field_codec =
  fixes put :: "'a \<Rightarrow> bytes"
    and get :: "'a reader"
    and sz :: nat
  assumes put_size: "length (put v) = sz"
    and get_iff: "get bs = Some (v, r) \<longleftrightarrow> bs = put v @ r"
    and get_None: "get bs = None \<longleftrightarrow> length bs < sz"
begin

lemma get_put: "get (put v @ r) = Some (v, r)"
  by (simp add: get_iff)

lemma list_size: "length (concat (map put vs)) = sz * length vs"
  by (induction vs) (simp_all add: put_size)

lemma list_iff: "get_list n get bs = Some (vs, r) \<longleftrightarrow> length vs = n \<and> bs = concat (map put vs) @ r"
proof (induction n arbitrary: bs vs)
  case (Suc n)
  show ?case
  proof (cases vs)
    case (Cons w ws)
    then show ?thesis
      using Suc.IH [of _ ws] by (auto simp: Option.bind_eq_Some_conv get_iff)
  qed (auto simp: Option.bind_eq_Some_conv)
qed auto

lemma list_get_put: "length vs = n \<Longrightarrow> get_list n get (concat (map put vs) @ r) = Some (vs, r)"
  by (simp add: list_iff)

lemma list_None: "get_list n get bs = None \<longleftrightarrow> length bs < n * sz"
proof (induction n arbitrary: bs)
  case (Suc n)
  show ?case
  proof (cases "get bs")
    case None
    then show ?thesis using get_None [of bs] by simp
  next
    case (Some p)
    then obtain v r where g: "get bs = Some (v, r)" by (cases p) simp
    then have "length bs = sz + length r" using get_iff put_size by simp
    moreover have "get_list (Suc n) get bs = None \<longleftrightarrow> get_list n get r = None"
      using g by (cases "get_list n get r") auto
    ultimately show ?thesis using Suc.IH by simp
  qed
qed simp

end

interpretation u8_codec: field_codec putU8 getU8 1
  by unfold_locales simp_all

interpretation u16_codec: field_codec put_u16 getU16 2
  by unfold_locales simp_all

interpretation u32_codec: field_codec put_u32 getU32 4
  by unfold_locales simp_all

end
