(* ===== verification/ConfigStore.thy ===== *)
theory ConfigStore
  imports Crc16 Codec
begin

text \<open>
  The transactional, append-only configuration store (\<open>config/config_store.h\<close>,
  \<open>config/config_store.cpp\<close>) and the boot sequence that loads or initialises it
  (\<open>config/config_bootstrap.cpp\<close>). The abstract \<open>ConfigFile\<close> of the source is modelled by its
  contents and by an adversary: each call takes the next entry of a schedule that lets it succeed or
  fail, a failing append leaving any prefix of its data behind, as a reset or a removed card does. An
  empty schedule is a file that always works. Offsets are naturals: the source's 32-bit offsets agree
  with them for every file at least one record shorter than 4 GiB, the limit of the card's file system.
\<close>

definition kConfigMagic :: u32 where "kConfigMagic = 0x48455843"
definition kConfigVersion :: u16 where "kConfigVersion = 1"
definition kCommitMagic :: u32 where "kCommitMagic = 0x54494D43"
definition kHeaderSize :: nat where "kHeaderSize = 16"
definition kTrailerSize :: nat where "kTrailerSize = 8"
definition kMaxStorePayload :: nat where "kMaxStorePayload = 2032"

record SlotHeader =
  sh_magic :: u32
  sh_version :: u16
  sh_sequence :: u32
  sh_length :: u16
  sh_payload_crc :: u16
  sh_header_crc :: u16

section \<open>The file\<close>

datatype io = IoOk | IoFail nat

record ConfigFile =
  cf_bytes :: bytes
  cf_faults :: "io list"

definition io_next :: "ConfigFile \<Rightarrow> io \<times> ConfigFile" where
  "io_next f = (case cf_faults f of [] \<Rightarrow> (IoOk, f) | x # xs \<Rightarrow> (x, f \<lparr> cf_faults := xs \<rparr>))"

definition cf_size :: "ConfigFile \<Rightarrow> nat option \<times> ConfigFile" where
  "cf_size f = (case io_next f of
      (IoOk, f) \<Rightarrow> (Some (length (cf_bytes f)), f)
    | (IoFail n, f) \<Rightarrow> (None, f))"

definition cf_read :: "nat \<Rightarrow> nat \<Rightarrow> ConfigFile \<Rightarrow> bytes option \<times> ConfigFile" where
  "cf_read off len f = (case io_next f of
      (IoOk, f) \<Rightarrow> (if off + len \<le> length (cf_bytes f)
                    then (Some (take len (drop off (cf_bytes f))), f) else (None, f))
    | (IoFail n, f) \<Rightarrow> (None, f))"

definition cf_append :: "bytes \<Rightarrow> ConfigFile \<Rightarrow> bool \<times> ConfigFile" where
  "cf_append bs f = (case io_next f of
      (IoOk, f) \<Rightarrow> (True, f \<lparr> cf_bytes := cf_bytes f @ bs \<rparr>)
    | (IoFail n, f) \<Rightarrow> (False, f \<lparr> cf_bytes := cf_bytes f @ take n bs \<rparr>))"

definition cf_sync :: "ConfigFile \<Rightarrow> bool \<times> ConfigFile" where
  "cf_sync f = (case io_next f of (IoOk, f) \<Rightarrow> (True, f) | (IoFail n, f) \<Rightarrow> (False, f))"

section \<open>Records\<close>

definition serializeHeader :: "SlotHeader \<Rightarrow> bytes" where
  "serializeHeader h = put_u32 (sh_magic h) @ put_u16 (sh_version h) @ put_u32 (sh_sequence h)
     @ put_u16 (sh_length h) @ put_u16 (sh_payload_crc h) @ put_u16 (sh_header_crc h)"

definition deserializeHeader :: "bytes \<Rightarrow> SlotHeader" where
  "deserializeHeader b = \<lparr> sh_magic = u32_at b 0, sh_version = u16_at b 4, sh_sequence = u32_at b 6,
     sh_length = u16_at b 10, sh_payload_crc = u16_at b 12, sh_header_crc = u16_at b 14 \<rparr>"

definition headerCrc :: "bytes \<Rightarrow> u16" where
  "headerCrc serialized = crc16 (take (kHeaderSize - 2) serialized)"

record StoreStatus =
  has_valid_record :: bool
  st_sequence :: u32
  st_length :: u16
  st_file_size :: nat
  valid_records :: u32

definition StoreStatus_init :: "nat \<Rightarrow> StoreStatus" where
  "StoreStatus_init n = \<lparr> has_valid_record = False, st_sequence = 0, st_length = 0, st_file_size = n,
                          valid_records = 0 \<rparr>"

record RecordLocation =
  payload_offset :: nat
  loc_header :: SlotHeader

definition RecordLocation_init :: RecordLocation where
  "RecordLocation_init = \<lparr> payload_offset = 0, loc_header = \<lparr> sh_magic = 0, sh_version = 0,
     sh_sequence = 0, sh_length = 0, sh_payload_crc = 0, sh_header_crc = 0 \<rparr> \<rparr>"

record ConfigStore =
  cs_file :: ConfigFile
  latest_sequence :: u32
  sequence_known :: bool

function payload_crc_loop :: "nat \<Rightarrow> nat \<Rightarrow> nat \<Rightarrow> u16 \<Rightarrow> ConfigFile \<Rightarrow> u16 option \<times> ConfigFile" where
  "payload_crc_loop base remaining off crc f =
     (if remaining = 0 then (Some crc, f)
      else let n = (if remaining < 64 then remaining else 64) in
        case cf_read (base + off) n f of
          (None, f) \<Rightarrow> (None, f)
        | (Some chunk, f) \<Rightarrow> payload_crc_loop base (remaining - n) (off + n) (crc16Update crc chunk) f)"
  by auto
termination by (relation "measure (\<lambda>(_, remaining, _). remaining)") auto

declare payload_crc_loop.simps [simp del]

definition payloadValid :: "nat \<Rightarrow> SlotHeader \<Rightarrow> ConfigFile \<Rightarrow> bool \<times> ConfigFile" where
  "payloadValid off h f =
     (case payload_crc_loop off (unat (sh_length h)) 0 kCrc16Init f of
        (None, f) \<Rightarrow> (False, f)
      | (Some crc, f) \<Rightarrow> (crc = sh_payload_crc h, f))"

definition header_valid :: "bytes \<Rightarrow> bool" where
  "header_valid raw \<longleftrightarrow> (let h = deserializeHeader raw in
     sh_magic h = kConfigMagic \<and> sh_version h = kConfigVersion \<and> unat (sh_length h) \<le> kMaxStorePayload \<and>
     headerCrc raw = sh_header_crc h)"

definition record_accept :: "nat \<Rightarrow> SlotHeader \<Rightarrow> StoreStatus \<times> RecordLocation \<Rightarrow> StoreStatus \<times> RecordLocation" where
  "record_accept payload_off h sn =
     (let st = (fst sn) \<lparr> valid_records := valid_records (fst sn) + 1 \<rparr> in
      if \<not> has_valid_record st \<or> sh_sequence h > st_sequence st
      then (st \<lparr> has_valid_record := True, st_sequence := sh_sequence h, st_length := sh_length h \<rparr>,
            \<lparr> payload_offset = payload_off, loc_header = h \<rparr>)
      else (st, snd sn))"

text \<open>
  The scan loop: \<open>raw\<close> is the header window, \<open>None\<close> when it has to be read again. The result
  \<open>None\<close> is the source's \<open>return false\<close>.
\<close>

function scan_loop ::
  "nat \<Rightarrow> nat \<Rightarrow> bytes option \<Rightarrow> StoreStatus \<times> RecordLocation \<Rightarrow> ConfigFile \<Rightarrow>
   (StoreStatus \<times> RecordLocation) option \<times> ConfigFile" where
  "scan_loop file_size offset raw_opt sn f =
     (if file_size < offset + (kHeaderSize + kTrailerSize) then (Some sn, f)
      else
        case (case raw_opt of Some raw \<Rightarrow> (Some raw, f) | None \<Rightarrow> cf_read offset kHeaderSize f) of
          (None, f) \<Rightarrow> (None, f)
        | (Some raw, f) \<Rightarrow>
            let h = deserializeHeader raw in
            if \<not> header_valid raw then
              case cf_read (offset + kHeaderSize) 1 f of
                (None, f) \<Rightarrow> (None, f)
              | (Some b, f) \<Rightarrow> scan_loop file_size (offset + 1) (Some (drop 1 raw @ b)) sn f
            else
              let payload_off = offset + kHeaderSize;
                  trailer_off = payload_off + unat (sh_length h);
                  record_end = trailer_off + kTrailerSize in
              if record_end > file_size then (Some sn, f)
              else
                let (payload_valid, f) = payloadValid payload_off h f in
                case cf_read trailer_off kTrailerSize f of
                  (None, f) \<Rightarrow> (None, f)
                | (Some trailer, f) \<Rightarrow>
                    let committed = (u32_at trailer 0 = kCommitMagic \<and> u32_at trailer 4 = sh_sequence h);
                        sn = (if payload_valid \<and> committed then record_accept payload_off h sn else sn)
                    in scan_loop file_size record_end None sn f)"
  by auto
termination
  by (relation "measure (\<lambda>(file_size, offset, _). file_size - offset)") (auto simp: kHeaderSize_def kTrailerSize_def)

declare scan_loop.simps [simp del]

definition store_scan :: "ConfigFile \<Rightarrow> (StoreStatus \<times> RecordLocation) option \<times> ConfigFile" where
  "store_scan f =
     (case cf_size f of
        (None, f) \<Rightarrow> (None, f)
      | (Some n, f) \<Rightarrow> scan_loop n 0 None (StoreStatus_init n, RecordLocation_init) f)"

text \<open>\<open>load\<close> returns the payload, or \<open>None\<close> for the source's \<open>false\<close>.\<close>

definition store_load :: "nat \<Rightarrow> ConfigStore \<Rightarrow> bytes option \<times> ConfigStore" where
  "store_load max_len s =
     (case store_scan (cs_file s) of
        (None, f) \<Rightarrow> (None, s \<lparr> cs_file := f, sequence_known := False \<rparr>)
      | (Some (status, newest), f) \<Rightarrow>
          let s = s \<lparr> cs_file := f, latest_sequence := st_sequence status, sequence_known := True \<rparr> in
          if \<not> has_valid_record status then (None, s)
          else if unat (sh_length (loc_header newest)) > max_len then (None, s)
          else case cf_read (payload_offset newest) (unat (sh_length (loc_header newest))) (cs_file s) of
              (None, f) \<Rightarrow> (None, s \<lparr> cs_file := f \<rparr>)
            | (Some payload, f) \<Rightarrow> (Some payload, s \<lparr> cs_file := f \<rparr>))"

definition commit_header :: "u32 \<Rightarrow> bytes \<Rightarrow> bytes" where
  "commit_header sq payload =
     (let h = \<lparr> sh_magic = kConfigMagic, sh_version = kConfigVersion, sh_sequence = sq,
                sh_length = word_of_nat (length payload), sh_payload_crc = crc16 payload,
                sh_header_crc = 0 \<rparr>;
          raw = serializeHeader h
      in take 14 raw @ put_u16 (headerCrc raw))"

definition commit_trailer :: "u32 \<Rightarrow> bytes" where
  "commit_trailer sq = put_u32 kCommitMagic @ put_u32 sq"

definition store_append :: "u32 \<Rightarrow> bytes \<Rightarrow> ConfigStore \<Rightarrow> bool \<times> ConfigStore" where
  "store_append sq payload s =
     (case cf_append (commit_header sq payload) (cs_file s) of
        (False, f) \<Rightarrow> (False, s \<lparr> cs_file := f \<rparr>)
      | (True, f) \<Rightarrow>
        (case (if length payload > 0 then cf_append payload f else (True, f)) of
           (False, f) \<Rightarrow> (False, s \<lparr> cs_file := f \<rparr>)
         | (True, f) \<Rightarrow>
           (case cf_append (commit_trailer sq) f of
              (False, f) \<Rightarrow> (False, s \<lparr> cs_file := f \<rparr>)
            | (True, f) \<Rightarrow>
              (case cf_sync f of
                 (False, f) \<Rightarrow> (False, s \<lparr> cs_file := f \<rparr>)
               | (True, f) \<Rightarrow> (True, s \<lparr> cs_file := f, latest_sequence := sq \<rparr>)))))"

definition store_commit :: "bytes \<Rightarrow> ConfigStore \<Rightarrow> bool \<times> ConfigStore" where
  "store_commit payload s =
     (if length payload > kMaxStorePayload then (False, s)
      else if \<not> sequence_known s then
        case store_scan (cs_file s) of
          (None, f) \<Rightarrow> (False, s \<lparr> cs_file := f \<rparr>)
        | (Some (status, newest), f) \<Rightarrow>
            let s = s \<lparr> cs_file := f, latest_sequence := st_sequence status, sequence_known := True \<rparr>
            in store_append (latest_sequence s + 1) payload s
      else store_append (latest_sequence s + 1) payload s)"

definition store_inspect :: "ConfigStore \<Rightarrow> StoreStatus option \<times> ConfigStore" where
  "store_inspect s =
     (case store_scan (cs_file s) of
        (None, f) \<Rightarrow> (None, s \<lparr> cs_file := f, sequence_known := False \<rparr>)
      | (Some (status, newest), f) \<Rightarrow>
          (Some status, s \<lparr> cs_file := f, latest_sequence := st_sequence status, sequence_known := True \<rparr>))"

text \<open>A payload that cannot be read counts as one with a wrong checksum: the scan goes on without its record.\<close>

lemma unreadable_payload_skipped:
  assumes "sh_length h \<noteq> 0" and "io_next f = (IoFail n, f')"
  shows "payloadValid off h f = (False, f')"
  using assms by (simp add: payloadValid_def payload_crc_loop.simps [of _ "unat (sh_length h)"] cf_read_def unat_eq_0 Let_def)

section \<open>A file that works\<close>

lemma io_next_good [simp]: "cf_faults f = [] \<Longrightarrow> io_next f = (IoOk, f)"
  by (simp add: io_next_def)

lemma cf_size_good [simp]: "cf_faults f = [] \<Longrightarrow> cf_size f = (Some (length (cf_bytes f)), f)"
  by (simp add: cf_size_def)

lemma cf_read_good:
  "cf_faults f = [] \<Longrightarrow> cf_bytes f = pre @ xs @ rest \<Longrightarrow> length pre = off \<Longrightarrow> length xs = n \<Longrightarrow>
   cf_read off n f = (Some xs, f)"
  by (auto simp: cf_read_def)

lemma payload_crc_loop_good:
  "cf_faults f = [] \<Longrightarrow> cf_bytes f = pre @ done_bytes @ todo @ rest \<Longrightarrow> length done_bytes = off \<Longrightarrow>
   payload_crc_loop (length pre) (length todo) off crc f = (Some (crc16Update crc todo), f)"
proof (induction "length todo" arbitrary: todo done_bytes off crc rule: less_induct)
  case less
  show ?case
  proof (cases "todo = []")
    case True
    then show ?thesis by (simp add: payload_crc_loop.simps)
  next
    case False
    define n where "n = (if length todo < 64 then length todo else 64)"
    have n: "0 < n" "n \<le> length todo" using False by (auto simp: n_def)
    have rd: "cf_read (length pre + off) n f = (Some (take n todo), f)"
      by (rule cf_read_good [where pre = "pre @ done_bytes" and rest = "drop n todo @ rest"])
         (use less.prems n in auto)
    have "payload_crc_loop (length pre) (length (drop n todo)) (off + n) (crc16Update crc (take n todo)) f =
            (Some (crc16Update (crc16Update crc (take n todo)) (drop n todo)), f)"
      by (rule less.hyps [where done_bytes = "done_bytes @ take n todo"]) (use less.prems n in auto)
    then show ?thesis
      using rd False n by (simp add: payload_crc_loop.simps [of _ "length todo"] n_def [symmetric]
          crc16_sum.upd_take_drop Let_def)
  qed
qed

section \<open>Records written by a commit\<close>

definition rec_bytes :: "u32 \<Rightarrow> bytes \<Rightarrow> bytes" where
  "rec_bytes sq p = commit_header sq p @ p @ commit_trailer sq"

definition rec_header :: "u32 \<Rightarrow> bytes \<Rightarrow> SlotHeader" where
  "rec_header sq p = deserializeHeader (commit_header sq p)"

lemma commit_header_length [simp]: "length (commit_header sq p) = kHeaderSize"
  by (simp add: commit_header_def serializeHeader_def kHeaderSize_def Let_def)

lemma commit_trailer_length [simp]: "length (commit_trailer sq) = kTrailerSize"
  by (simp add: commit_trailer_def kTrailerSize_def)

lemma commit_header_eq:
  "commit_header sq p =
     put_u32 kConfigMagic @ put_u16 kConfigVersion @ put_u32 sq @ put_u16 (word_of_nat (length p))
     @ put_u16 (crc16 p) @ put_u16 (crc16 (put_u32 kConfigMagic @ put_u16 kConfigVersion @ put_u32 sq
          @ put_u16 (word_of_nat (length p)) @ put_u16 (crc16 p)))"
  by (simp add: commit_header_def serializeHeader_def headerCrc_def kHeaderSize_def Let_def)

lemma header_fields:
  fixes a c :: u32 and b d e g :: u16
  defines "bs \<equiv> put_u32 a @ put_u16 b @ put_u32 c @ put_u16 d @ put_u16 e @ put_u16 g"
  shows "deserializeHeader bs = \<lparr> sh_magic = a, sh_version = b, sh_sequence = c, sh_length = d,
           sh_payload_crc = e, sh_header_crc = g \<rparr>"
  using u32_at_put [of "[]" 0 a "put_u16 b @ put_u32 c @ put_u16 d @ put_u16 e @ put_u16 g"]
    u16_at_put [of "put_u32 a" 4 b "put_u32 c @ put_u16 d @ put_u16 e @ put_u16 g"]
    u32_at_put [of "put_u32 a @ put_u16 b" 6 c "put_u16 d @ put_u16 e @ put_u16 g"]
    u16_at_put [of "put_u32 a @ put_u16 b @ put_u32 c" 10 d "put_u16 e @ put_u16 g"]
    u16_at_put [of "put_u32 a @ put_u16 b @ put_u32 c @ put_u16 d" 12 e "put_u16 g"]
    u16_at_put [of "put_u32 a @ put_u16 b @ put_u32 c @ put_u16 d @ put_u16 e" 14 g "[]"]
  by (simp add: deserializeHeader_def bs_def)

lemma rec_header_eq:
  "rec_header sq p = \<lparr> sh_magic = kConfigMagic, sh_version = kConfigVersion, sh_sequence = sq,
     sh_length = word_of_nat (length p), sh_payload_crc = crc16 p,
     sh_header_crc = headerCrc (commit_header sq p) \<rparr>"
proof -
  have "headerCrc (commit_header sq p) = crc16 (put_u32 kConfigMagic @ put_u16 kConfigVersion @ put_u32 sq
          @ put_u16 (word_of_nat (length p)) @ put_u16 (crc16 p))"
    by (simp add: headerCrc_def commit_header_eq kHeaderSize_def)
  then show ?thesis
    by (simp add: rec_header_def commit_header_eq header_fields)
qed

lemma header_valid_commit: "length p \<le> kMaxStorePayload \<Longrightarrow> header_valid (commit_header sq p)"
  using rec_header_eq [of sq p]
  by (simp add: header_valid_def rec_header_def [symmetric] kMaxStorePayload_def unat_of_nat
      take_bit_nat_eq_self Let_def)

lemma rec_header_length: "length p \<le> kMaxStorePayload \<Longrightarrow> unat (sh_length (rec_header sq p)) = length p"
  by (simp add: rec_header_eq kMaxStorePayload_def unat_of_nat take_bit_nat_eq_self)

lemma trailer_fields: "u32_at (commit_trailer sq) 0 = kCommitMagic" "u32_at (commit_trailer sq) 4 = sq"
  using u32_at_put [of "[]" 0 kCommitMagic "put_u32 sq"] u32_at_put [of "put_u32 kCommitMagic" 4 sq "[]"]
  by (simp_all add: commit_trailer_def)

lemma rec_bytes_length: "length (rec_bytes sq p) = kHeaderSize + length p + kTrailerSize"
  by (simp add: rec_bytes_def)

lemma scan_record:
  assumes "cf_faults f = []" and "cf_bytes f = pre @ rec_bytes sq p @ rest" and "length p \<le> kMaxStorePayload"
  shows "scan_loop (length (cf_bytes f)) (length pre) None sn f =
         scan_loop (length (cf_bytes f)) (length (pre @ rec_bytes sq p)) None
           (record_accept (length pre + kHeaderSize) (rec_header sq p) sn) f"
proof -
  have rd: "cf_read (length pre) kHeaderSize f = (Some (commit_header sq p), f)"
    by (rule cf_read_good) (use assms in \<open>auto simp: rec_bytes_def\<close>)
  have crc: "payloadValid (length pre + kHeaderSize) (rec_header sq p) f = (True, f)"
    using payload_crc_loop_good [of f "pre @ commit_header sq p" "[]" p "commit_trailer sq @ rest" 0 kCrc16Init]
      assms rec_header_length [OF assms(3), of sq]
    by (simp add: payloadValid_def rec_bytes_def rec_header_eq crc16_def)
  have tr: "cf_read (length pre + kHeaderSize + length p) kTrailerSize f = (Some (commit_trailer sq), f)"
    by (rule cf_read_good [where pre = "pre @ commit_header sq p @ p" and rest = rest])
       (use assms in \<open>auto simp: rec_bytes_def\<close>)
  show ?thesis
    using rd crc tr assms rec_header_length [OF assms(3), of sq] header_valid_commit [OF assms(3), of sq]
    by (subst scan_loop.simps)
       (simp add: rec_header_def [symmetric] trailer_fields rec_bytes_length Let_def add.assoc rec_header_eq)
qed

lemma scan_torn:
  assumes "cf_faults f = []" and "cf_bytes f = pre @ take k (rec_bytes sq p)"
    and "k < length (rec_bytes sq p)" and "length p \<le> kMaxStorePayload"
  shows "scan_loop (length (cf_bytes f)) (length pre) None sn f = (Some sn, f)"
proof (cases "k < kHeaderSize + kTrailerSize")
  case True
  then show ?thesis using assms by (subst scan_loop.simps) (simp add: rec_bytes_length)
next
  case False
  then have "take k (rec_bytes sq p) = commit_header sq p @ take (k - kHeaderSize) (p @ commit_trailer sq)"
    by (simp add: rec_bytes_def)
  then have rd: "cf_read (length pre) kHeaderSize f = (Some (commit_header sq p), f)"
    by (intro cf_read_good) (use assms in auto)
  then show ?thesis
    using assms False rec_header_length [OF assms(4), of sq] header_valid_commit [OF assms(4), of sq]
    by (subst scan_loop.simps)
       (simp add: rec_header_def [symmetric] rec_bytes_length Let_def)
qed

section \<open>The journal\<close>

text \<open>The abstract contents of a healthy store: the payloads committed so far, in order, numbered
  from \<open>k + 1\<close>.\<close>

fun journal :: "nat \<Rightarrow> bytes list \<Rightarrow> bytes" where
  "journal k [] = []"
| "journal k (p # ps) = rec_bytes (word_of_nat (k + 1)) p @ journal (k + 1) ps"

lemma journal_snoc: "journal k (ps @ [p]) = journal k ps @ rec_bytes (word_of_nat (k + length ps + 1)) p"
  by (induction ps arbitrary: k) (simp_all add: add.commute add.left_commute)

definition payloads_fit :: "bytes list \<Rightarrow> bool" where
  "payloads_fit ps \<longleftrightarrow> (\<forall>p\<in>set ps. length p \<le> kMaxStorePayload)"

definition points_at :: "ConfigFile \<Rightarrow> u32 \<Rightarrow> bytes \<Rightarrow> RecordLocation \<Rightarrow> bool" where
  "points_at f sq p loc \<longleftrightarrow> loc_header loc = rec_header sq p \<and>
     (\<exists>x y. cf_bytes f = x @ p @ y \<and> length x = payload_offset loc)"

lemma unat_small: "n < 2 ^ 32 \<Longrightarrow> unat (word_of_nat n :: u32) = n"
  by (simp add: unat_of_nat take_bit_nat_eq_self)

lemma record_accept_newer:
  assumes "unat (st_sequence (fst sn)) < unat (sh_sequence h)"
  shows "has_valid_record (fst (record_accept off h sn))"
    and "st_sequence (fst (record_accept off h sn)) = sh_sequence h"
    and "snd (record_accept off h sn) = \<lparr> payload_offset = off, loc_header = h \<rparr>"
  using assms by (simp_all add: record_accept_def Let_def word_less_nat_alt)

lemma scan_journal:
  assumes "cf_faults f = []" and "cf_bytes f = pre @ journal k ps @ tail" and "payloads_fit ps"
    and "k + length ps < 2 ^ 32" and "unat (st_sequence (fst sn)) \<le> k"
  shows "\<exists>sn'. scan_loop (length (cf_bytes f)) (length pre) None sn f =
                 scan_loop (length (cf_bytes f)) (length (pre @ journal k ps)) None sn' f \<and>
               (ps = [] \<longrightarrow> sn' = sn) \<and>
               (ps \<noteq> [] \<longrightarrow> has_valid_record (fst sn') \<and>
                  st_sequence (fst sn') = word_of_nat (k + length ps) \<and>
                  points_at f (word_of_nat (k + length ps)) (last ps) (snd sn'))"
  using assms
proof (induction ps arbitrary: pre k sn)
  case (Cons p ps)
  let ?sq = "word_of_nat (k + 1) :: u32"
  let ?sn = "record_accept (length pre + kHeaderSize) (rec_header ?sq p) sn"
  have p: "length p \<le> kMaxStorePayload" and fit: "payloads_fit ps"
    using Cons.prems(3) by (simp_all add: payloads_fit_def)
  have sq: "unat ?sq = k + 1" using Cons.prems(4) by (intro unat_small) simp
  note new = record_accept_newer [where sn = sn and h = "rec_header ?sq p" and off = "length pre + kHeaderSize"]
  have sq_h: "sh_sequence (rec_header ?sq p) = ?sq" by (simp only: rec_header_eq) simp
  have acc: "has_valid_record (fst ?sn)" "st_sequence (fst ?sn) = ?sq"
    "snd ?sn = \<lparr> payload_offset = length pre + kHeaderSize, loc_header = rec_header ?sq p \<rparr>"
    using new Cons.prems(5) sq sq_h by simp_all
  have bytes: "cf_bytes f = pre @ rec_bytes ?sq p @ (journal (k + 1) ps @ tail)"
    and bytes': "cf_bytes f = (pre @ rec_bytes ?sq p) @ journal (k + 1) ps @ tail"
    using Cons.prems(2) by simp_all
  have one: "scan_loop (length (cf_bytes f)) (length pre) None sn f =
      scan_loop (length (cf_bytes f)) (length (pre @ rec_bytes ?sq p)) None ?sn f"
    by (rule scan_record [OF Cons.prems(1) bytes p])
  have at: "points_at f ?sq p (snd ?sn)"
    unfolding points_at_def acc(3) bytes
    by (auto simp: rec_bytes_def intro: exI [where x = "pre @ commit_header ?sq p"])
  have lt: "k + 1 + length ps < 2 ^ 32" and le: "unat (st_sequence (fst ?sn)) \<le> k + 1"
    using Cons.prems(4) acc(2) sq by simp_all
  obtain sn' where sn': "scan_loop (length (cf_bytes f)) (length (pre @ rec_bytes ?sq p)) None ?sn f =
        scan_loop (length (cf_bytes f)) (length ((pre @ rec_bytes ?sq p) @ journal (k + 1) ps)) None sn' f"
    "ps = [] \<longrightarrow> sn' = ?sn"
    "ps \<noteq> [] \<longrightarrow> has_valid_record (fst sn') \<and> st_sequence (fst sn') = word_of_nat (k + 1 + length ps) \<and>
        points_at f (word_of_nat (k + 1 + length ps)) (last ps) (snd sn')"
    using Cons.IH [OF Cons.prems(1) bytes' fit lt le] by blast
  show ?case
  proof (cases "ps = []")
    case True
    then show ?thesis using one sn' acc at by (intro exI [of _ ?sn]) simp
  next
    case False
    then show ?thesis using one sn' by (intro exI [of _ sn']) (simp add: add.commute add.left_commute)
  qed
qed auto

text \<open>A tail behind the journal that the scan gives up on, whatever it found before.\<close>

definition scan_ends :: "bytes list \<Rightarrow> ConfigFile \<Rightarrow> bool" where
  "scan_ends ps f \<longleftrightarrow> cf_faults f = [] \<and> (\<exists>tail. cf_bytes f = journal 0 ps @ tail) \<and>
     (\<forall>sn. scan_loop (length (cf_bytes f)) (length (journal 0 ps)) None sn f = (Some sn, f))"

lemma scan_ends_torn:
  assumes "cf_faults f = []" and "cf_bytes f = journal 0 ps @ take n (rec_bytes sq q)"
    and "n < length (rec_bytes sq q)" and "length q \<le> kMaxStorePayload"
  shows "scan_ends ps f"
  unfolding scan_ends_def using assms(1,2) scan_torn [OF assms] by blast

lemma scan_ends_clean: "cf_faults f = [] \<Longrightarrow> cf_bytes f = journal 0 ps \<Longrightarrow> scan_ends ps f"
  using scan_ends_torn [of f ps 0 0 "[]"] by (simp add: rec_bytes_length kHeaderSize_def)

lemma store_scan_journal:
  assumes "scan_ends ps f" and "payloads_fit ps" and "length ps < 2 ^ 32"
  shows "\<exists>st loc. store_scan f = (Some (st, loc), f) \<and> st_sequence st = word_of_nat (length ps) \<and>
           has_valid_record st = (ps \<noteq> []) \<and>
           (ps \<noteq> [] \<longrightarrow> points_at f (word_of_nat (length ps)) (last ps) loc)"
proof -
  let ?sn = "(StoreStatus_init (length (cf_bytes f)), RecordLocation_init)"
  obtain tail where b0: "cf_bytes f = [] @ journal 0 ps @ tail" and good: "cf_faults f = []"
    and ends: "\<And>sn. scan_loop (length (cf_bytes f)) (length (journal 0 ps)) None sn f = (Some sn, f)"
    using assms(1) unfolding scan_ends_def append_Nil by blast
  have z: "0 + length ps < 2 ^ 32" "unat (st_sequence (fst ?sn)) \<le> 0"
    using assms(3) by (simp_all add: StoreStatus_init_def)
  obtain sn' where sn': "scan_loop (length (cf_bytes f)) 0 None ?sn f =
      scan_loop (length (cf_bytes f)) (length (journal 0 ps)) None sn' f"
    "ps = [] \<longrightarrow> sn' = ?sn"
    "ps \<noteq> [] \<longrightarrow> has_valid_record (fst sn') \<and> st_sequence (fst sn') = word_of_nat (length ps) \<and>
       points_at f (word_of_nat (length ps)) (last ps) (snd sn')"
    using scan_journal [OF good b0 assms(2) z] unfolding append_Nil list.size(3) add_0 by blast
  have "store_scan f = (Some (fst sn', snd sn'), f)"
    using sn'(1) good ends [of sn'] by (simp add: store_scan_def)
  then show ?thesis
    using sn'(2,3)
    by (intro exI [of _ "fst sn'"] exI [of _ "snd sn'"], cases "ps = []") (auto simp: StoreStatus_init_def)
qed

definition store_boot :: "bytes \<Rightarrow> ConfigStore" where
  "store_boot bs = \<lparr> cs_file = \<lparr> cf_bytes = bs, cf_faults = [] \<rparr>, latest_sequence = 0, sequence_known = False \<rparr>"

definition newest_payload :: "nat \<Rightarrow> bytes list \<Rightarrow> bytes option" where
  "newest_payload max_len ps =
     (if ps \<noteq> [] \<and> length (last ps) \<le> max_len then Some (last ps) else None)"

lemma store_load_journal:
  assumes "scan_ends ps (cs_file s)" and "payloads_fit ps" and "length ps < 2 ^ 32"
  shows "store_load m s = (newest_payload m ps,
           s \<lparr> latest_sequence := word_of_nat (length ps), sequence_known := True \<rparr>)"
proof -
  have good: "cf_faults (cs_file s) = []" using assms(1) by (simp add: scan_ends_def)
  obtain st loc where sc: "store_scan (cs_file s) = (Some (st, loc), cs_file s)"
    and st: "st_sequence st = word_of_nat (length ps)" "has_valid_record st = (ps \<noteq> [])"
    and at: "ps \<noteq> [] \<longrightarrow> points_at (cs_file s) (word_of_nat (length ps)) (last ps) loc"
    using store_scan_journal [OF assms] by blast
  show ?thesis
  proof (cases "ps = []")
    case False
    then have "length (last ps) \<le> kMaxStorePayload" using assms(2) by (simp add: payloads_fit_def)
    then have len: "unat (sh_length (loc_header loc)) = length (last ps)"
      using at False rec_header_length by (simp add: points_at_def)
    have "cf_read (payload_offset loc) (length (last ps)) (cs_file s) = (Some (last ps), cs_file s)"
      using at False good by (auto simp: points_at_def intro: cf_read_good)
    then show ?thesis
      using sc st len False by (simp add: store_load_def newest_payload_def Let_def)
  qed (use sc st in \<open>simp add: store_load_def newest_payload_def Let_def\<close>)
qed

section \<open>Commits\<close>

text \<open>Whatever fails during a commit, the file grows by a prefix of the new record, and a commit that
  reports success has written all of it.\<close>

lemma take_le_ex: "\<exists>n \<le> length xs. take m xs = take n xs"
  by (cases "m \<le> length xs") (auto intro: exI [of _ m] exI [of _ "length xs"])

lemma cf_append_prefix:
  "cf_append bs f = (ok, f') \<Longrightarrow> \<exists>n \<le> length bs. cf_bytes f' = cf_bytes f @ take n bs \<and> (ok \<longrightarrow> n = length bs)"
  by (auto simp: cf_append_def io_next_def split: list.splits io.splits
      intro: take_le_ex exI [of _ "length bs"])

lemma cf_sync_bytes: "cf_sync f = (ok, f') \<Longrightarrow> cf_bytes f' = cf_bytes f"
  by (auto simp: cf_sync_def io_next_def split: list.splits io.splits)

lemma store_append_prefix:
  assumes "store_append sq p s = (ok, s')"
  shows "\<exists>n \<le> length (rec_bytes sq p). cf_bytes (cs_file s') = cf_bytes (cs_file s) @ take n (rec_bytes sq p) \<and>
           (ok \<longrightarrow> n = length (rec_bytes sq p))"
proof -
  obtain o1 f1 where a1: "cf_append (commit_header sq p) (cs_file s) = (o1, f1)" by fastforce
  obtain n1 where n1: "n1 \<le> kHeaderSize" "cf_bytes f1 = cf_bytes (cs_file s) @ take n1 (commit_header sq p)"
    "o1 \<longrightarrow> n1 = kHeaderSize"
    using cf_append_prefix [OF a1] by auto
  show ?thesis
  proof (cases o1)
    case False
    then show ?thesis using assms a1 n1
      by (auto simp: store_append_def rec_bytes_def intro!: exI [of _ n1])
  next
    case True
    obtain o2 f2 where a2: "(if length p > 0 then cf_append p f1 else (True, f1)) = (o2, f2)" by fastforce
    have "\<exists>n2 \<le> length p. cf_bytes f2 = cf_bytes f1 @ take n2 p \<and> (o2 \<longrightarrow> n2 = length p)"
      using a2 cf_append_prefix [of p f1 o2 f2] by (cases "length p > 0") auto
    then obtain n2 where n2: "n2 \<le> length p" "cf_bytes f2 = cf_bytes f1 @ take n2 p" "o2 \<longrightarrow> n2 = length p"
      by blast
    show ?thesis
    proof (cases o2)
      case False
      then show ?thesis using assms a1 a2 n1 n2 True
        by (auto simp: store_append_def rec_bytes_def intro!: exI [of _ "kHeaderSize + n2"])
    next
      case o2: True
      obtain o3 f3 where a3: "cf_append (commit_trailer sq) f2 = (o3, f3)" by fastforce
      obtain o4 f4 where a4: "cf_sync f3 = (o4, f4)" by fastforce
      obtain n3 where n3: "n3 \<le> kTrailerSize" "cf_bytes f3 = cf_bytes f2 @ take n3 (commit_trailer sq)"
        "o3 \<longrightarrow> n3 = kTrailerSize"
        using cf_append_prefix [OF a3] by auto
      show ?thesis
        using assms a1 a2 a3 a4 n1 n2 n3 True o2 cf_sync_bytes [OF a4]
        by (auto simp: store_append_def rec_bytes_def split: bool.splits
            intro!: exI [of _ "kHeaderSize + (length p + n3)"])
    qed
  qed
qed

lemma store_append_good:
  "cf_faults (cs_file s) = [] \<Longrightarrow>
   store_append sq p s = (True, s \<lparr> cs_file := (cs_file s) \<lparr> cf_bytes := cf_bytes (cs_file s) @ rec_bytes sq p \<rparr>,
                                   latest_sequence := sq \<rparr>)"
  by (auto simp: store_append_def cf_append_def cf_sync_def rec_bytes_def)

text \<open>Commits one after the other, as long as each reports success.\<close>

fun store_commits :: "bytes list \<Rightarrow> ConfigStore \<Rightarrow> ConfigStore option" where
  "store_commits [] s = Some s"
| "store_commits (q # qs) s = (case store_commit q s of (ok, s') \<Rightarrow> if ok then store_commits qs s' else None)"

text \<open>The store knows the journal it stands on.\<close>

definition store_at :: "bytes list \<Rightarrow> ConfigStore \<Rightarrow> bool" where
  "store_at ps s \<longleftrightarrow> cf_bytes (cs_file s) = journal 0 ps \<and> sequence_known s \<and> latest_sequence s = word_of_nat (length ps)"

lemma commit_step:
  assumes "store_at ps s" and "payloads_fit (ps @ [p])" and "store_commit p s = (ok, s')"
  shows "\<exists>n \<le> length (rec_bytes (word_of_nat (length ps + 1)) p).
      cf_bytes (cs_file s') = journal 0 ps @ take n (rec_bytes (word_of_nat (length ps + 1)) p) \<and>
      (ok \<longrightarrow> n = length (rec_bytes (word_of_nat (length ps + 1)) p)) \<and> (ok \<longrightarrow> store_at (ps @ [p]) s')"
proof -
  let ?sq = "word_of_nat (length ps + 1) :: u32"
  have ap: "store_append ?sq p s = (ok, s')"
    using assms by (simp add: store_commit_def store_at_def payloads_fit_def add.commute)
  obtain n where n: "n \<le> length (rec_bytes ?sq p)" "ok \<longrightarrow> n = length (rec_bytes ?sq p)"
    "cf_bytes (cs_file s') = journal 0 ps @ take n (rec_bytes ?sq p)"
    using store_append_prefix [OF ap] assms(1) by (auto simp: store_at_def)
  have "ok \<longrightarrow> latest_sequence s' = ?sq \<and> sequence_known s' = sequence_known s"
    using ap by (auto simp: store_append_def split: prod.splits bool.splits)
  then have "ok \<longrightarrow> store_at (ps @ [p]) s'" using n(2,3) assms(1) by (auto simp: store_at_def journal_snoc)
  then show ?thesis using n by blast
qed

lemma commits_at:
  "store_at ps s \<Longrightarrow> payloads_fit (ps @ qs) \<Longrightarrow> store_commits qs s = Some s' \<Longrightarrow> store_at (ps @ qs) s'"
proof (induction qs arbitrary: ps s)
  case (Cons q qs)
  obtain ok s1 where c: "store_commit q s = (ok, s1)" by fastforce
  then have ok: "ok" "store_commits qs s1 = Some s'" using Cons.prems(3) by (auto split: if_splits)
  have "payloads_fit (ps @ [q])" using Cons.prems(2) by (auto simp: payloads_fit_def)
  then have "store_at (ps @ [q]) s1" using commit_step [OF Cons.prems(1) _ c] ok(1) by blast
  from Cons.IH [OF this _ ok(2)] Cons.prems(2) show ?case by simp
qed simp

text \<open>The store after a boot over a working card, which from then on follows a schedule of faults.\<close>

definition store_session :: "bytes list \<Rightarrow> io list \<Rightarrow> ConfigStore" where
  "store_session ps faults =
     (let s = snd (store_load kMaxStorePayload (store_boot (journal 0 ps))) in s \<lparr> cs_file := (cs_file s) \<lparr> cf_faults := faults \<rparr> \<rparr>)"

lemma session_at:
  assumes "payloads_fit ps" and "length ps < 2 ^ 32"
  shows "store_at ps (store_session ps faults)"
proof -
  let ?s = "store_boot (journal 0 ps)"
  have "scan_ends ps (cs_file ?s)" by (rule scan_ends_clean) (simp_all add: store_boot_def)
  from store_load_journal [OF this assms] show ?thesis by (simp add: store_session_def store_at_def store_boot_def)
qed

text \<open>
  C9: a commit is atomic with respect to resets and card failures. Let the store have booted over a card that
  holds the records of any completed commits, possibly none, and let every further commit have reported success;
  from the boot on every single file operation succeeds or fails arbitrarily, appends leaving any prefix behind.
  Then after the next commit, whatever fails in it, and a next boot whose own reads succeed the store
  loads either the previous newest payload or the new one, never anything else; and if the commit
  reported success, it loads the new one. (A card that still holds a record whose commit was
  interrupted is outside this statement; what happens there is shown below.)
\<close>

theorem commit_atomic:
  assumes "payloads_fit (ps @ qs @ [p])" and "length (ps @ qs) + 1 < 2 ^ 32"
    and "store_commits qs (store_session ps faults) = Some s" and "store_commit p s = (ok, s')"
  shows "let loaded = fst (store_load kMaxStorePayload (store_boot (cf_bytes (cs_file s')))) in
         (loaded = Some p \<or> \<not> ok \<and> loaded = newest_payload kMaxStorePayload (ps @ qs))"
proof -
  let ?ps = "ps @ qs"
  let ?sq = "word_of_nat (length ?ps + 1) :: u32"
  have fit: "length p \<le> kMaxStorePayload" "payloads_fit ?ps" "payloads_fit ps" "payloads_fit (?ps @ [p])"
    using assms(1) by (auto simp: payloads_fit_def)
  have "store_at ps (store_session ps faults)" using session_at [OF fit(3)] assms(2) by simp
  then have "store_at ?ps s" by (rule commits_at [OF _ fit(2) assms(3)])
  from commit_step [OF this fit(4) assms(4)] obtain n where n: "n \<le> length (rec_bytes ?sq p)" "ok \<longrightarrow> n = length (rec_bytes ?sq p)"
    "cf_bytes (cs_file s') = journal 0 ?ps @ take n (rec_bytes ?sq p)" by blast
  let ?b = "store_boot (cf_bytes (cs_file s'))"
  show ?thesis
  proof (cases "n = length (rec_bytes ?sq p)")
    case True
    then have "cf_bytes (cs_file ?b) = journal 0 (?ps @ [p])"
      using n(3) journal_snoc [of 0 ?ps p] by (simp add: store_boot_def)
    then have "scan_ends (?ps @ [p]) (cs_file ?b)" by (intro scan_ends_clean) (simp_all add: store_boot_def)
    then have "fst (store_load kMaxStorePayload ?b) = newest_payload kMaxStorePayload (?ps @ [p])"
      using store_load_journal [of "?ps @ [p]" ?b] fit(4) assms(2) by simp
    then show ?thesis using fit(1) by (simp add: newest_payload_def Let_def)
  next
    case False
    then have "scan_ends ?ps (cs_file ?b)"
      using n fit(1) by (intro scan_ends_torn [where n = n and sq = ?sq and q = p]) (simp_all add: store_boot_def)
    then have "fst (store_load kMaxStorePayload ?b) = newest_payload kMaxStorePayload ?ps"
      using store_load_journal [of ?ps ?b] fit(2) assms(2) by simp
    then show ?thesis using False n(2) by (simp add: Let_def)
  qed
qed

text \<open>One commit that succeeds, and one whose payload is cut after a byte.\<close>

definition torn_faults :: "io list" where
  "torn_faults = [IoOk, IoOk, IoOk, IoOk, IoOk, IoFail 1]"

theorem commit_atomic_witness:
  "\<exists>s. store_commits [[5]] (store_session [[1]] torn_faults) = Some s \<and> \<not> fst (store_commit [2, 3] s) \<and>
   fst (store_load kMaxStorePayload (store_boot (cf_bytes (cs_file (snd (store_commit [2, 3] s)))))) \<in>
     {Some [2, 3], newest_payload kMaxStorePayload [[1], [5]]}"
proof -
  have at: "store_at [[1]] (store_session [[1]] torn_faults)" by (rule session_at) (simp_all add: payloads_fit_def kMaxStorePayload_def)
  have fa: "cf_faults (cs_file (store_session [[1]] torn_faults)) = torn_faults" by (simp add: store_session_def Let_def)
  obtain s where s: "store_commits [[5]] (store_session [[1]] torn_faults) = Some s" "cf_faults (cs_file s) = [IoOk, IoFail 1]"
    using at fa by (simp add: store_at_def store_commit_def store_append_def cf_append_def cf_sync_def io_next_def torn_faults_def kMaxStorePayload_def)
  have "store_at [[1], [5]] s" using commits_at [OF at _ s(1)] by (simp add: payloads_fit_def kMaxStorePayload_def)
  obtain ok s' where c: "store_commit [2, 3] s = (ok, s')" by fastforce
  have "\<not> ok" using c s(2) \<open>store_at [[1], [5]] s\<close>
    by (auto simp: store_at_def store_commit_def store_append_def cf_append_def io_next_def kMaxStorePayload_def)
  then show ?thesis
    using commit_atomic [OF _ _ s(1) c] c s(1) by (auto simp: payloads_fit_def kMaxStorePayload_def Let_def)
qed

text \<open>A working file: every commit succeeds and extends the journal.\<close>

definition holds_journal :: "bytes list \<Rightarrow> ConfigStore \<Rightarrow> bool" where
  "holds_journal ps s \<longleftrightarrow> cf_faults (cs_file s) = [] \<and> cf_bytes (cs_file s) = journal 0 ps \<and> payloads_fit ps \<and>
     (sequence_known s \<longrightarrow> latest_sequence s = word_of_nat (length ps))"

lemma store_load_holds:
  assumes "holds_journal ps s" and "length ps < 2 ^ 32"
  shows "store_load m s = (newest_payload m ps,
           s \<lparr> latest_sequence := word_of_nat (length ps), sequence_known := True \<rparr>)"
  using store_load_journal [OF scan_ends_clean] assms by (simp add: holds_journal_def)

lemma store_commit_holds:
  assumes "holds_journal ps s" and "length ps + 1 < 2 ^ 32" and "length p \<le> kMaxStorePayload"
  shows "\<exists>s'. store_commit p s = (True, s') \<and> holds_journal (ps @ [p]) s' \<and> sequence_known s'"
proof -
  let ?s = "s \<lparr> latest_sequence := word_of_nat (length ps), sequence_known := True \<rparr>"
  have j: "journal 0 (ps @ [p]) = journal 0 ps @ rec_bytes (word_of_nat (length ps) + 1) p"
    using journal_snoc [of 0 ps p] by (simp add: add.commute)
  have fit: "payloads_fit (ps @ [p])" using assms by (simp add: holds_journal_def payloads_fit_def)
  have app: "store_append (word_of_nat (length ps) + 1) p t =
      (True, t \<lparr> cs_file := (cs_file t) \<lparr> cf_bytes := journal 0 (ps @ [p]) \<rparr>,
                 latest_sequence := word_of_nat (length ps) + 1 \<rparr>)"
    if "cs_file t = cs_file s" for t
    using store_append_good [of t "word_of_nat (length ps) + 1" p] assms(1) that j
    by (simp add: holds_journal_def)
  have "\<exists>t. store_commit p s = store_append (word_of_nat (length ps) + 1) p t \<and> cs_file t = cs_file s \<and>
            sequence_known t"
  proof (cases "sequence_known s")
    case True
    then show ?thesis using assms by (intro exI [of _ s]) (simp add: store_commit_def holds_journal_def)
  next
    case False
    have "scan_ends ps (cs_file s)" "payloads_fit ps" "length ps < 2 ^ 32"
      using assms scan_ends_clean by (simp_all add: holds_journal_def)
    then obtain st loc where "store_scan (cs_file s) = (Some (st, loc), cs_file s)"
      "st_sequence st = word_of_nat (length ps)"
      using store_scan_journal by blast
    then show ?thesis
      using False assms(3) by (intro exI [of _ ?s]) (simp add: store_commit_def Let_def)
  qed
  then obtain t where t: "store_commit p s = store_append (word_of_nat (length ps) + 1) p t"
    "cs_file t = cs_file s" "sequence_known t" by blast
  then show ?thesis
    using app [OF t(2)] assms(1) fit by (simp add: holds_journal_def add.commute)
qed

lemma store_commit_load:
  assumes "holds_journal ps s" and "length ps + 1 < 2 ^ 32" and "length p \<le> kMaxStorePayload"
    and "store_commit p s = (ok, s')"
  shows "ok \<and> holds_journal (ps @ [p]) s' \<and> fst (store_load (length p) s') = Some p"
proof -
  have h: "ok" "holds_journal (ps @ [p]) s'" using store_commit_holds [OF assms(1-3)] assms(4) by auto
  then show ?thesis
    using store_load_holds [of "ps @ [p]" s' "length p"] assms(2) by (simp add: newest_payload_def)
qed

section \<open>Boot\<close>

datatype BootstrapResult = Loaded | InitializedDefaults | RecoveredDefaults | StorageError

text \<open>The result with the payload in the output buffer, empty when the source leaves
  \<open>out_len\<close> zero. An empty \<open>defaults\<close> list is the source's null pointer or zero length.\<close>

definition loadOrInitializeConfig :: "bytes \<Rightarrow> nat \<Rightarrow> ConfigStore \<Rightarrow> (BootstrapResult \<times> bytes) \<times> ConfigStore" where
  "loadOrInitializeConfig defaults out_capacity s =
     (case cf_size (cs_file s) of
        (None, f) \<Rightarrow> ((StorageError, []), s \<lparr> cs_file := f \<rparr>)
      | (Some file_size, f) \<Rightarrow>
        (case store_load out_capacity (s \<lparr> cs_file := f \<rparr>) of
           (Some payload, s) \<Rightarrow> ((Loaded, payload), s)
         | (None, s) \<Rightarrow>
           if defaults = [] then ((StorageError, []), s)
           else (case store_commit defaults s of
               (False, s) \<Rightarrow> ((StorageError, []), s)
             | (True, s) \<Rightarrow>
               (case store_load out_capacity s of
                  (None, s) \<Rightarrow> ((StorageError, []), s)
                | (Some payload, s) \<Rightarrow>
                    ((if file_size = 0 then InitializedDefaults else RecoveredDefaults, payload), s)))))"

text \<open>
  Booting from a working file: a journal of earlier commits yields the newest payload and leaves
  the file as it is; an empty file is initialised with the defaults, which are then what is loaded,
  now and at every later boot.
\<close>

theorem bootstrap_correct:
  assumes "payloads_fit (ps @ [d])" and "length ps + 1 < 2 ^ 32" and "d \<noteq> []"
  shows "case loadOrInitializeConfig d kMaxStorePayload (store_boot (journal 0 ps)) of (res, s') \<Rightarrow>
           res = (if ps = [] then (InitializedDefaults, d) else (Loaded, last ps)) \<and>
           cf_bytes (cs_file s') = journal 0 (if ps = [] then [d] else ps) \<and>
           fst (loadOrInitializeConfig d kMaxStorePayload (store_boot (cf_bytes (cs_file s')))) =
             (Loaded, if ps = [] then d else last ps)"
proof -
  have fit: "payloads_fit ps" "length d \<le> kMaxStorePayload" using assms(1) by (simp_all add: payloads_fit_def)
  have hold: "holds_journal qs (store_boot (journal 0 qs))" if "payloads_fit qs" for qs
    using that by (simp add: holds_journal_def store_boot_def)
  have same: "s \<lparr> cs_file := cs_file s \<rparr> = s" for s :: ConfigStore by simp
  have loaded: "loadOrInitializeConfig d kMaxStorePayload (store_boot (journal 0 qs)) =
      ((Loaded, last qs), (store_boot (journal 0 qs)) \<lparr> latest_sequence := word_of_nat (length qs), sequence_known := True \<rparr>)"
    if "payloads_fit qs" "qs \<noteq> []" "length qs < 2 ^ 32" for qs
  proof -
    have "length (last qs) \<le> kMaxStorePayload" using that by (simp add: payloads_fit_def)
    then show ?thesis
      using store_load_holds [OF hold [OF that(1)] that(3), of kMaxStorePayload] that(2)
      by (simp add: loadOrInitializeConfig_def newest_payload_def store_boot_def)
  qed
  show ?thesis
  proof (cases "ps = []")
    case False
    then show ?thesis using loaded [of ps] fit assms(2) by (simp add: store_boot_def)
  next
    case True
    let ?s = "(store_boot []) \<lparr> latest_sequence := 0, sequence_known := True \<rparr>"
    have ld: "store_load kMaxStorePayload (store_boot []) = (None, ?s)"
      using store_load_holds [OF hold [of "[]"], of kMaxStorePayload] by (simp add: payloads_fit_def newest_payload_def)
    have "holds_journal [] ?s" by (simp add: holds_journal_def store_boot_def payloads_fit_def)
    then obtain s' where c: "store_commit d ?s = (True, s')" "holds_journal [d] s'"
      using store_commit_holds [of "[]" ?s d] fit by auto
    have ld': "store_load kMaxStorePayload s' = (Some d, s' \<lparr> latest_sequence := 1, sequence_known := True \<rparr>)"
      using store_load_holds [OF c(2), of kMaxStorePayload] fit by (simp add: newest_payload_def)
    have "loadOrInitializeConfig d kMaxStorePayload (store_boot []) =
        ((InitializedDefaults, d), s' \<lparr> latest_sequence := 1, sequence_known := True \<rparr>)"
      using ld c(1) ld' assms(3) by (simp add: loadOrInitializeConfig_def store_boot_def)
    then show ?thesis
      using True c(2) loaded [of "[d]"] fit by (simp add: holds_journal_def payloads_fit_def)
  qed
qed

theorem bootstrap_correct_witness:
  "case loadOrInitializeConfig [7] kMaxStorePayload (store_boot (journal 0 [])) of (res, s') \<Rightarrow>
     res = (InitializedDefaults, [7]) \<and>
     fst (loadOrInitializeConfig [7] kMaxStorePayload (store_boot (cf_bytes (cs_file s')))) = (Loaded, [7])"
  using bootstrap_correct [of "[]" "[7]"] by (auto simp: payloads_fit_def kMaxStorePayload_def)

section \<open>A commit after a torn commit\<close>

lemma cf_read_file: "cf_faults f = [] \<Longrightarrow> snd (cf_read off n f) = f"
  by (simp add: cf_read_def)

lemma payload_crc_loop_file: "cf_faults f = [] \<Longrightarrow> snd (payload_crc_loop base rem off crc f) = f"
proof (induction base rem off crc f rule: payload_crc_loop.induct)
  case (1 base rem off crc f)
  obtain o' f' where rd: "cf_read (base + off) (if rem < 64 then rem else 64) f = (o', f')" by fastforce
  then have f': "f' = f" using cf_read_file [OF 1(2)] by (metis snd_conv)
  show ?case
    using 1(1) [OF _ refl rd [symmetric]] 1(2) rd f'
    by (subst payload_crc_loop.simps) (auto simp: Let_def split: option.splits)
qed

lemma payloadValid_file: "cf_faults f = [] \<Longrightarrow> \<exists>b. payloadValid off h f = (b, f)"
  using payload_crc_loop_file [of f off "unat (sh_length h)" 0 kCrc16Init]
  by (auto simp: payloadValid_def split: prod.splits option.splits)

lemma scan_jump:
  assumes "cf_faults f = []" and "cf_bytes f = pre @ commit_header sq p @ rest"
    and "length p \<le> kMaxStorePayload" and "length rest < length p + kTrailerSize + (kHeaderSize + kTrailerSize)"
    and "u32_at rest (length p) \<noteq> kCommitMagic"
  shows "scan_loop (length (cf_bytes f)) (length pre) None sn f = (Some sn, f)"
proof -
  have rd: "cf_read (length pre) kHeaderSize f = (Some (commit_header sq p), f)"
    by (rule cf_read_good) (use assms in auto)
  obtain b where pv: "payloadValid (length pre + kHeaderSize) (rec_header sq p) f = (b, f)"
    using payloadValid_file [OF assms(1)] by blast
  have len: "unat (sh_length (rec_header sq p)) = length p" using rec_header_length [OF assms(3)] .
  have end_scan: "scan_loop (length (cf_bytes f)) (length pre + kHeaderSize + length p + kTrailerSize) None sn f = (Some sn, f)"
    using assms(2,4) by (subst scan_loop.simps) simp
  show ?thesis
  proof (cases "length p + kTrailerSize \<le> length rest")
    case False
    then show ?thesis
      using rd pv len header_valid_commit [OF assms(3), of sq] assms(2)
      by (subst scan_loop.simps) (simp add: rec_header_def [symmetric] Let_def)
  next
    case True
    let ?t = "take kTrailerSize (drop (length p) rest)"
    have tr: "cf_read (length pre + kHeaderSize + length p) kTrailerSize f = (Some ?t, f)"
      by (rule cf_read_good [where pre = "pre @ commit_header sq p @ take (length p) rest" and
            rest = "drop kTrailerSize (drop (length p) rest)"])
         (use assms True in \<open>auto simp: take_take_drop [simplified] simp del: drop_drop\<close>)
    have "u32_at ?t 0 = u32_at rest (length p)"
      using True by (simp add: u32_at_def kTrailerSize_def)
    then show ?thesis
      using rd pv len tr end_scan header_valid_commit [OF assms(3), of sq] assms(2,5) True
      by (subst scan_loop.simps) (simp add: rec_header_def [symmetric] Let_def)
  qed
qed

text \<open>
  C36: a torn commit hides the next complete one. Let a commit of \<open>p\<close> be interrupted after its
  header and fewer than \<open>24 + |p| - |q|\<close> bytes in all; the header left behind has a valid checksum, so
  the scan trusts its length and jumps past the trailer that was never written, into the record
  appended by the following commit of \<open>q\<close>. Unless the bytes of the new record that lie where the
  old trailer should be happen to be the commit magic, that commit reports success and yet the next
  boot loads the payload from before both commits.
\<close>

theorem torn_commit_hides_next:
  assumes "payloads_fit (ps @ [p, q])" and "length ps + 1 < 2 ^ 32" and "sq = word_of_nat (length ps + 1)"
    and "kHeaderSize \<le> k" and "k < length (rec_bytes sq p)" and "k + length q < 24 + length p"
    and "u32_at (take k (rec_bytes sq p) @ rec_bytes sq q) (kHeaderSize + length p) \<noteq> kCommitMagic"
  shows "case store_commit q (store_boot (journal 0 ps @ take k (rec_bytes sq p))) of (ok, s') \<Rightarrow>
           ok \<and> fst (store_load kMaxStorePayload (store_boot (cf_bytes (cs_file s')))) =
             newest_payload kMaxStorePayload ps"
proof -
  let ?torn = "take k (rec_bytes sq p)"
  let ?s = "store_boot (journal 0 ps @ ?torn)"
  let ?f = "\<lparr> cf_bytes = journal 0 ps @ ?torn @ rec_bytes sq q, cf_faults = [] \<rparr>"
  have fit: "payloads_fit ps" "length p \<le> kMaxStorePayload" "length q \<le> kMaxStorePayload"
    using assms(1) by (auto simp: payloads_fit_def)
  have small: "length ps < 2 ^ 32" using assms(2) by simp
  have "scan_ends ps (cs_file ?s)"
    using assms(5) fit(2) by (intro scan_ends_torn [where n = k and sq = sq and q = p]) (simp_all add: store_boot_def)
  then obtain st loc where "store_scan (cs_file ?s) = (Some (st, loc), cs_file ?s)"
    "st_sequence st = word_of_nat (length ps)"
    using store_scan_journal [OF _ fit(1) small] by blast
  then have c: "fst (store_commit q ?s)" "cs_file (snd (store_commit q ?s)) = ?f"
    using fit(3) assms(3) by (simp_all add: store_commit_def store_boot_def Let_def store_append_good add.commute)
  define rest where "rest = take (k - kHeaderSize) (p @ commit_trailer sq) @ rec_bytes sq q"
  have torn: "?torn @ rec_bytes sq q = commit_header sq p @ rest"
    using assms(4) by (simp add: rest_def rec_bytes_def)
  have jump: "scan_loop (length (cf_bytes ?f)) (length (journal 0 ps)) None sn ?f = (Some sn, ?f)" for sn
  proof (rule scan_jump [where p = p and sq = sq and rest = rest])
    show "length rest < length p + kTrailerSize + (kHeaderSize + kTrailerSize)"
      using assms(4-6) by (simp add: rest_def rec_bytes_length kHeaderSize_def kTrailerSize_def)
    show "u32_at rest (length p) \<noteq> kCommitMagic"
      using assms(7) unfolding torn by (simp add: u32_at_def nth_append)
  qed (use torn fit in simp_all)
  have "scan_ends ps (cs_file (store_boot (cf_bytes ?f)))"
    unfolding scan_ends_def using jump by (simp add: store_boot_def)
  then have "fst (store_load kMaxStorePayload (store_boot (cf_bytes ?f))) = newest_payload kMaxStorePayload ps"
    using store_load_journal [OF _ fit(1) small] by simp
  then show ?thesis using c by (simp add: case_prod_beta)
qed

theorem torn_commit_hides_next_witness:
  "case store_commit [4] (store_boot (journal 0 [[1]] @ take 16 (rec_bytes 2 [2, 3]))) of (ok, s') \<Rightarrow>
     ok \<and> fst (store_load kMaxStorePayload (store_boot (cf_bytes (cs_file s')))) = Some [1]"
proof -
  have "u32_at (take 16 (rec_bytes 2 [2, 3]) @ rec_bytes 2 [4]) (kHeaderSize + length [2 :: u8, 3]) \<noteq> kCommitMagic"
    by (simp add: rec_bytes_def commit_header_eq u32_at_def nth_append put_u32_def put_u16_def get_u32_def
        kHeaderSize_def kConfigMagic_def kConfigVersion_def kCommitMagic_def)
  then show ?thesis
    using torn_commit_hides_next [where ps = "[[1]]" and p = "[2, 3]" and q = "[4]" and k = 16 and sq = 2]
    by (simp add: payloads_fit_def kMaxStorePayload_def kHeaderSize_def kTrailerSize_def rec_bytes_length
        newest_payload_def)
qed

end
