(* ===== verification/ConfigSchema.thy ===== *)
theory ConfigSchema
  imports Codec
begin

text \<open>
  The persistent robot configuration (\<open>config/config_schema.h\<close>, \<open>config/config_schema.cpp\<close>):
  its structures, compiled defaults, payload codec with the migration of older schema versions, and
  the validation that guards every configuration before it is used. A C++ \<open>intN_t\<close> is kept as
  the N-bit word that holds it and read with \<open>sint\<close> where the code compares signed values.
\<close>

type_synonym i8 = "8 word"
type_synonym i16 = "16 word"
type_synonym i32 = "32 word"

section \<open>Dimensions and limits\<close>

definition kNumLegs :: nat where "kNumLegs = 6"
definition kJointsPerLeg :: nat where "kJointsPerLeg = 3"
definition kNumServos :: nat where "kNumServos = kNumLegs * kJointsPerLeg"
definition kNumFootSensors :: nat where "kNumFootSensors = 6"
definition kNumRcAnalogInputs :: nat where "kNumRcAnalogInputs = 8"
definition kRobotNameLen :: nat where "kRobotNameLen = 16"

definition kSchemaVersion :: u16 where "kSchemaVersion = 9"
definition kLegacySchemaVersionV8 :: u16 where "kLegacySchemaVersionV8 = 8"
definition kLegacySchemaVersionV7 :: u16 where "kLegacySchemaVersionV7 = 7"
definition kLegacySchemaVersionV6 :: u16 where "kLegacySchemaVersionV6 = 6"
definition kLegacySchemaVersionV5 :: u16 where "kLegacySchemaVersionV5 = 5"
definition kLegacySchemaVersionV4 :: u16 where "kLegacySchemaVersionV4 = 4"
definition kLegacySchemaVersionV3 :: u16 where "kLegacySchemaVersionV3 = 3"

lemmas schema_versions = kSchemaVersion_def kLegacySchemaVersionV8_def kLegacySchemaVersionV7_def
  kLegacySchemaVersionV6_def kLegacySchemaVersionV5_def kLegacySchemaVersionV4_def kLegacySchemaVersionV3_def

definition kServoMaxTick :: u16 where "kServoMaxTick = 4095"

definition kMaxGaitStrideMm :: u16 where "kMaxGaitStrideMm = 80"
definition kMaxGaitStepMm :: u16 where "kMaxGaitStepMm = 50"
definition kMinGaitBodyHeightMm :: u16 where "kMinGaitBodyHeightMm = 40"
definition kMaxGaitBodyHeightMm :: u16 where "kMaxGaitBodyHeightMm = 160"

definition kRcFilterTauMaxMs :: u16 where "kRcFilterTauMaxMs = 1000"
definition kRcSwitchDebounceMaxMs :: u16 where "kRcSwitchDebounceMaxMs = 2000"

definition kBodyCommandMaxScaleMilli :: u16 where "kBodyCommandMaxScaleMilli = 1000"
definition kBodyCommandMaxAccelMilliPerS :: u16 where "kBodyCommandMaxAccelMilliPerS = 5000"
definition kBodyHeightRateMaxMmPerS :: u16 where "kBodyHeightRateMaxMmPerS = 200"
definition kBodyPoseTranslationRateMaxMmPerS :: u16 where "kBodyPoseTranslationRateMaxMmPerS = 200"
definition kBodyPoseRotationRateMaxMilliRadPerS :: u16 where "kBodyPoseRotationRateMaxMilliRadPerS = 2000"

text \<open>The five feature bits FootContact, TerrainLeveling, SensorPolling, PassivePoseStream and
  JetsonControl, and the default mask with SensorPolling on.\<close>

definition kFeatFootContact :: u32 where "kFeatFootContact = push_bit 0 1"
definition kFeatTerrainLeveling :: u32 where "kFeatTerrainLeveling = push_bit 1 1"
definition kFeatSensorPolling :: u32 where "kFeatSensorPolling = push_bit 2 1"
definition kFeatPassivePoseStream :: u32 where "kFeatPassivePoseStream = push_bit 3 1"
definition kFeatJetsonControl :: u32 where "kFeatJetsonControl = push_bit 4 1"

definition kKnownFeatureBits :: u32 where
  "kKnownFeatureBits = kFeatFootContact OR kFeatTerrainLeveling OR kFeatSensorPolling OR
     kFeatPassivePoseStream OR kFeatJetsonControl"

definition kFeatureDefaultMask :: u32 where "kFeatureDefaultMask = push_bit 2 1"

section \<open>Structures\<close>

record LegGeometry =
  mount_x_dmm :: i16
  mount_y_dmm :: i16
  mount_z_dmm :: i16
  mount_yaw_cdeg :: i16

record LinkLengths =
  coxa_cmm :: u16
  femur_cmm :: u16
  tibia_cmm :: u16

record BodyGeometry =
  home_radius_cmm :: u16
  home_foot_z_cmm :: i16
  coxa_lift_cmm :: u16

record ServoConfig =
  servo_id :: u8
  servo_leg :: u8
  servo_joint :: u8
  servo_sign :: i8
  trim_ticks :: i16
  min_tick :: u16
  max_tick :: u16

datatype GaitId = Stand | Sit | Tripod | Ripple | Wave | Crawl

fun gaitCode :: "GaitId \<Rightarrow> u8" where
  "gaitCode Stand = 0" | "gaitCode Sit = 1" | "gaitCode Tripod = 2" | "gaitCode Ripple = 3"
| "gaitCode Wave = 4" | "gaitCode Crawl = 5"

record GaitDefaults =
  body_height_mm :: u16
  stride_len_mm :: u16
  step_height_mm :: u16
  duty_x255 :: u8
  speed_x255 :: u8
  gait_id :: u8

record RcChannelCalibration =
  rc_source :: u8
  rc_type :: u8
  min_raw :: i16
  center_raw :: i16
  max_raw :: i16
  rc_reversed :: u8
  deadband_x255 :: u8
  expo_x255 :: u8
  filter_tau_ms :: u16
  switch_debounce_ms :: u16

record BodyCommandLimits =
  max_forward_milli :: u16
  max_reverse_milli :: u16
  max_lateral_milli :: u16
  max_yaw_milli :: u16
  forward_accel_milli_per_s :: u16
  forward_decel_milli_per_s :: u16
  lateral_accel_milli_per_s :: u16
  lateral_decel_milli_per_s :: u16
  yaw_accel_milli_per_s :: u16
  yaw_decel_milli_per_s :: u16
  height_rise_mm_per_s :: u16
  height_lower_mm_per_s :: u16
  pose_translation_rate_mm_per_s :: u16
  pose_rotation_rate_millirad_per_s :: u16

record FootSensorCal =
  pressure_baseline :: i32
  near_thresh :: u16
  touch_thresh :: u16
  load_thresh :: u16
  foot_enabled :: u8

record RobotConfig =
  schema_version :: u16
  robot_name :: bytes
  cfg_links :: LinkLengths
  cfg_geometry :: BodyGeometry
  cfg_legs :: "LegGeometry list"
  cfg_servos :: "ServoConfig list"
  cfg_gait :: GaitDefaults
  cfg_rc_input :: "RcChannelCalibration list"
  cfg_body_command :: BodyCommandLimits
  cfg_feet :: "FootSensorCal list"
  feature_defaults :: u32

text \<open>The dimensions of the fixed-size arrays, which C++ gives by type.\<close>

definition config_dims :: "RobotConfig \<Rightarrow> bool" where
  "config_dims cfg \<longleftrightarrow> length (robot_name cfg) = kRobotNameLen \<and> length (cfg_legs cfg) = kNumLegs \<and>
     length (cfg_servos cfg) = kNumServos \<and> length (cfg_rc_input cfg) = kNumRcAnalogInputs \<and>
     length (cfg_feet cfg) = kNumFootSensors"

section \<open>Defaults\<close>

definition zero_leg :: LegGeometry where
  "zero_leg = \<lparr> mount_x_dmm = 0, mount_y_dmm = 0, mount_z_dmm = 0, mount_yaw_cdeg = 0 \<rparr>"

definition zero_servo :: ServoConfig where
  "zero_servo = \<lparr> servo_id = 0, servo_leg = 0, servo_joint = 0, servo_sign = 1, trim_ticks = 0,
                  min_tick = 0, max_tick = kServoMaxTick \<rparr>"

definition zero_rc_channel :: RcChannelCalibration where
  "zero_rc_channel = \<lparr> rc_source = 0, rc_type = 0, min_raw = 0, center_raw = 0, max_raw = 0,
     rc_reversed = 0, deadband_x255 = 0, expo_x255 = 0, filter_tau_ms = 0, switch_debounce_ms = 0 \<rparr>"

definition zero_foot :: FootSensorCal where
  "zero_foot = \<lparr> pressure_baseline = 0, near_thresh = 0, touch_thresh = 0, load_thresh = 0,
                 foot_enabled = 0 \<rparr>"

definition defaultBodyCommandLimits :: BodyCommandLimits where
  "defaultBodyCommandLimits = \<lparr> max_forward_milli = 1000, max_reverse_milli = 1000,
     max_lateral_milli = 1000, max_yaw_milli = 1000, forward_accel_milli_per_s = 1200,
     forward_decel_milli_per_s = 1800, lateral_accel_milli_per_s = 1000,
     lateral_decel_milli_per_s = 1500, yaw_accel_milli_per_s = 1500, yaw_decel_milli_per_s = 2000,
     height_rise_mm_per_s = 20, height_lower_mm_per_s = 30, pose_translation_rate_mm_per_s = 60,
     pose_rotation_rate_millirad_per_s = 500 \<rparr>"

definition kZeroRobotConfig :: RobotConfig where
  "kZeroRobotConfig = \<lparr> schema_version = kSchemaVersion, robot_name = replicate kRobotNameLen 0,
     cfg_links = \<lparr> coxa_cmm = 0, femur_cmm = 0, tibia_cmm = 0 \<rparr>,
     cfg_geometry = \<lparr> home_radius_cmm = 0, home_foot_z_cmm = 0, coxa_lift_cmm = 0 \<rparr>,
     cfg_legs = replicate kNumLegs zero_leg, cfg_servos = replicate kNumServos zero_servo,
     cfg_gait = \<lparr> body_height_mm = 0, stride_len_mm = 0, step_height_mm = 0, duty_x255 = 0,
                  speed_x255 = 0, gait_id = 0 \<rparr>,
     cfg_rc_input = replicate kNumRcAnalogInputs zero_rc_channel,
     cfg_body_command = defaultBodyCommandLimits,
     cfg_feet = replicate kNumFootSensors zero_foot, feature_defaults = 0 \<rparr>"

definition kLegSeeds :: "LegGeometry list" where
  "kLegSeeds =
     [\<lparr> mount_x_dmm = -656, mount_y_dmm = -1156, mount_z_dmm = 0, mount_yaw_cdeg = 13500 \<rparr>,
      \<lparr> mount_x_dmm = 656, mount_y_dmm = -1156, mount_z_dmm = 0, mount_yaw_cdeg = -13500 \<rparr>,
      \<lparr> mount_x_dmm = 698, mount_y_dmm = 0, mount_z_dmm = 0, mount_yaw_cdeg = -9000 \<rparr>,
      \<lparr> mount_x_dmm = 656, mount_y_dmm = 1156, mount_z_dmm = 0, mount_yaw_cdeg = -4500 \<rparr>,
      \<lparr> mount_x_dmm = -656, mount_y_dmm = 1156, mount_z_dmm = 0, mount_yaw_cdeg = 4500 \<rparr>,
      \<lparr> mount_x_dmm = -698, mount_y_dmm = 0, mount_z_dmm = 0, mount_yaw_cdeg = 9000 \<rparr>]"

definition applyRobotKinematicsProfile :: "RobotConfig \<Rightarrow> RobotConfig" where
  "applyRobotKinematicsProfile cfg = cfg \<lparr>
     cfg_links := \<lparr> coxa_cmm = 5200, femur_cmm = 6651, tibia_cmm = 11716 \<rparr>,
     cfg_geometry := \<lparr> home_radius_cmm = 12675, home_foot_z_cmm = -13173, coxa_lift_cmm = 0 \<rparr>,
     cfg_legs := kLegSeeds,
     cfg_gait := \<lparr> body_height_mm = 132, stride_len_mm = 60, step_height_mm = 30, duty_x255 = 159,
                   speed_x255 = 128, gait_id = 0 \<rparr> \<rparr>"

definition profile_servo :: "nat \<Rightarrow> nat \<Rightarrow> ServoConfig" where
  "profile_servo leg joint =
     \<lparr> servo_id = word_of_nat (leg * kJointsPerLeg + joint + 1), servo_leg = word_of_nat leg,
       servo_joint = word_of_nat joint, servo_sign = 1, trim_ticks = 0, min_tick = 1024,
       max_tick = 3072 \<rparr>"

definition applyRobotMotionProfile :: "RobotConfig \<Rightarrow> RobotConfig" where
  "applyRobotMotionProfile cfg = (applyRobotKinematicsProfile cfg) \<lparr>
     cfg_servos := concat (map (\<lambda>leg. map (profile_servo leg) [0..<kJointsPerLeg]) [0..<kNumLegs]) \<rparr>"

definition default_rc_channel :: "nat \<Rightarrow> RcChannelCalibration" where
  "default_rc_channel index =
     (let c = zero_rc_channel \<lparr> rc_source := word_of_nat (index + 1) \<rparr> in
      if index < 4 then
        c \<lparr> rc_type := 0, min_raw := -1000, center_raw := 0, max_raw := 1000, deadband_x255 := 13,
            filter_tau_ms := 60 \<rparr>
      else if index < 6 then
        c \<lparr> rc_type := 1, min_raw := 0, center_raw := 0, max_raw := 1000, filter_tau_ms := 120 \<rparr>
      else
        c \<lparr> rc_type := 2, min_raw := 0, center_raw := 0, max_raw := 2047 \<rparr>)"

definition defaultRcInputCalibration :: "RcChannelCalibration list" where
  "defaultRcInputCalibration = map default_rc_channel [0..<kNumRcAnalogInputs]"

text \<open>The name is the string \<open>HexNav\<close>, zero padded.\<close>

definition default_name :: bytes where
  "default_name = [0x48, 0x65, 0x78, 0x4E, 0x61, 0x76] @ replicate 10 0"

definition defaultRobotConfig :: RobotConfig where
  "defaultRobotConfig = (applyRobotMotionProfile
       (kZeroRobotConfig \<lparr> schema_version := kSchemaVersion, robot_name := default_name \<rparr>)) \<lparr>
     cfg_rc_input := defaultRcInputCalibration, cfg_body_command := defaultBodyCommandLimits,
     cfg_feet := replicate kNumFootSensors zero_foot, feature_defaults := kFeatureDefaultMask \<rparr>"

section \<open>Payload codec\<close>

definition kLegacyConfigPayloadSizeV3 :: nat where
  "kLegacyConfigPayloadSizeV3 = 2 + kRobotNameLen + 3 * 2 + (2 + 2 + 2) + kNumLegs * (4 * 2)
     + kNumServos * (1 + 1 + 1 + 1 + 2 + 2 + 2) + (2 + 2 + 2 + 1 + 1 + 1)
     + kNumFootSensors * (4 + 2 + 2 + 2 + 1) + 4"

definition kLegacyConfigPayloadSizeV4 :: nat where
  "kLegacyConfigPayloadSizeV4 = kLegacyConfigPayloadSizeV3
     + kNumRcAnalogInputs * (1 + 1 + 2 + 2 + 2 + 1 + 1 + 1 + 2 + 2)"

definition kConfigPayloadSize :: nat where
  "kConfigPayloadSize = 2 + kRobotNameLen + 3 * 2 + (2 + 2 + 2) + kNumLegs * (4 * 2)
     + kNumServos * (1 + 1 + 1 + 1 + 2 + 2 + 2) + (2 + 2 + 2 + 1 + 1 + 1)
     + kNumRcAnalogInputs * (1 + 1 + 2 + 2 + 2 + 1 + 1 + 1 + 2 + 2) + 14 * 2
     + kNumFootSensors * (4 + 2 + 2 + 2 + 1) + 4"

lemmas config_sizes = kLegacyConfigPayloadSizeV3_def kLegacyConfigPayloadSizeV4_def
  kConfigPayloadSize_def kRobotNameLen_def kNumLegs_def kNumServos_def kJointsPerLeg_def
  kNumRcAnalogInputs_def kNumFootSensors_def

definition put_links :: "LinkLengths \<Rightarrow> bytes" where
  "put_links l = put_u16 (coxa_cmm l) @ put_u16 (femur_cmm l) @ put_u16 (tibia_cmm l)"

definition get_links :: "LinkLengths reader" where
  "get_links b = do {
     (a, b) \<leftarrow> getU16 b; (c, b) \<leftarrow> getU16 b; (d, b) \<leftarrow> getU16 b;
     Some (\<lparr> coxa_cmm = a, femur_cmm = c, tibia_cmm = d \<rparr>, b) }"

definition put_geometry :: "BodyGeometry \<Rightarrow> bytes" where
  "put_geometry g = put_u16 (home_radius_cmm g) @ put_u16 (home_foot_z_cmm g) @ put_u16 (coxa_lift_cmm g)"

definition get_geometry :: "BodyGeometry reader" where
  "get_geometry b = do {
     (r, b) \<leftarrow> getU16 b; (z, b) \<leftarrow> getU16 b; (l, b) \<leftarrow> getU16 b;
     Some (\<lparr> home_radius_cmm = r, home_foot_z_cmm = z, coxa_lift_cmm = l \<rparr>, b) }"

definition put_leg :: "LegGeometry \<Rightarrow> bytes" where
  "put_leg l = put_u16 (mount_x_dmm l) @ put_u16 (mount_y_dmm l) @ put_u16 (mount_z_dmm l)
     @ put_u16 (mount_yaw_cdeg l)"

definition get_leg :: "LegGeometry reader" where
  "get_leg b = do {
     (x, b) \<leftarrow> getU16 b; (y, b) \<leftarrow> getU16 b; (z, b) \<leftarrow> getU16 b; (w, b) \<leftarrow> getU16 b;
     Some (\<lparr> mount_x_dmm = x, mount_y_dmm = y, mount_z_dmm = z, mount_yaw_cdeg = w \<rparr>, b) }"

definition put_servo :: "ServoConfig \<Rightarrow> bytes" where
  "put_servo s = putU8 (servo_id s) @ putU8 (servo_leg s) @ putU8 (servo_joint s) @ putU8 (servo_sign s)
     @ put_u16 (trim_ticks s) @ put_u16 (min_tick s) @ put_u16 (max_tick s)"

definition get_servo :: "ServoConfig reader" where
  "get_servo b = do {
     (i, b) \<leftarrow> getU8 b; (l, b) \<leftarrow> getU8 b; (j, b) \<leftarrow> getU8 b; (s, b) \<leftarrow> getU8 b;
     (t, b) \<leftarrow> getU16 b; (lo, b) \<leftarrow> getU16 b; (hi, b) \<leftarrow> getU16 b;
     Some (\<lparr> servo_id = i, servo_leg = l, servo_joint = j, servo_sign = s, trim_ticks = t,
             min_tick = lo, max_tick = hi \<rparr>, b) }"

definition put_gait :: "GaitDefaults \<Rightarrow> bytes" where
  "put_gait g = put_u16 (body_height_mm g) @ put_u16 (stride_len_mm g) @ put_u16 (step_height_mm g)
     @ putU8 (duty_x255 g) @ putU8 (speed_x255 g) @ putU8 (gait_id g)"

definition get_gait :: "GaitDefaults reader" where
  "get_gait b = do {
     (h, b) \<leftarrow> getU16 b; (l, b) \<leftarrow> getU16 b; (s, b) \<leftarrow> getU16 b;
     (d, b) \<leftarrow> getU8 b; (v, b) \<leftarrow> getU8 b; (g, b) \<leftarrow> getU8 b;
     Some (\<lparr> body_height_mm = h, stride_len_mm = l, step_height_mm = s, duty_x255 = d,
             speed_x255 = v, gait_id = g \<rparr>, b) }"

definition put_rc_channel :: "RcChannelCalibration \<Rightarrow> bytes" where
  "put_rc_channel c = putU8 (rc_source c) @ putU8 (rc_type c) @ put_u16 (min_raw c)
     @ put_u16 (center_raw c) @ put_u16 (max_raw c) @ putU8 (rc_reversed c) @ putU8 (deadband_x255 c)
     @ putU8 (expo_x255 c) @ put_u16 (filter_tau_ms c) @ put_u16 (switch_debounce_ms c)"

definition get_rc_channel :: "RcChannelCalibration reader" where
  "get_rc_channel b = do {
     (s, b) \<leftarrow> getU8 b; (t, b) \<leftarrow> getU8 b; (lo, b) \<leftarrow> getU16 b; (ce, b) \<leftarrow> getU16 b; (hi, b) \<leftarrow> getU16 b;
     (r, b) \<leftarrow> getU8 b; (d, b) \<leftarrow> getU8 b; (e, b) \<leftarrow> getU8 b; (f, b) \<leftarrow> getU16 b; (w, b) \<leftarrow> getU16 b;
     Some (\<lparr> rc_source = s, rc_type = t, min_raw = lo, center_raw = ce, max_raw = hi, rc_reversed = r,
             deadband_x255 = d, expo_x255 = e, filter_tau_ms = f, switch_debounce_ms = w \<rparr>, b) }"

definition put_body_command :: "BodyCommandLimits \<Rightarrow> bytes" where
  "put_body_command l = put_u16 (max_forward_milli l) @ put_u16 (max_reverse_milli l)
     @ put_u16 (max_lateral_milli l) @ put_u16 (max_yaw_milli l) @ put_u16 (forward_accel_milli_per_s l)
     @ put_u16 (forward_decel_milli_per_s l) @ put_u16 (lateral_accel_milli_per_s l)
     @ put_u16 (lateral_decel_milli_per_s l) @ put_u16 (yaw_accel_milli_per_s l)
     @ put_u16 (yaw_decel_milli_per_s l) @ put_u16 (height_rise_mm_per_s l)
     @ put_u16 (height_lower_mm_per_s l) @ put_u16 (pose_translation_rate_mm_per_s l)
     @ put_u16 (pose_rotation_rate_millirad_per_s l)"

definition get_body_command :: "BodyCommandLimits reader" where
  "get_body_command b = do {
     (v1, b) \<leftarrow> getU16 b; (v2, b) \<leftarrow> getU16 b; (v3, b) \<leftarrow> getU16 b; (v4, b) \<leftarrow> getU16 b;
     (v5, b) \<leftarrow> getU16 b; (v6, b) \<leftarrow> getU16 b; (v7, b) \<leftarrow> getU16 b; (v8, b) \<leftarrow> getU16 b;
     (v9, b) \<leftarrow> getU16 b; (v10, b) \<leftarrow> getU16 b; (v11, b) \<leftarrow> getU16 b; (v12, b) \<leftarrow> getU16 b;
     (v13, b) \<leftarrow> getU16 b; (v14, b) \<leftarrow> getU16 b;
     Some (\<lparr> max_forward_milli = v1, max_reverse_milli = v2, max_lateral_milli = v3, max_yaw_milli = v4,
             forward_accel_milli_per_s = v5, forward_decel_milli_per_s = v6,
             lateral_accel_milli_per_s = v7, lateral_decel_milli_per_s = v8,
             yaw_accel_milli_per_s = v9, yaw_decel_milli_per_s = v10, height_rise_mm_per_s = v11,
             height_lower_mm_per_s = v12, pose_translation_rate_mm_per_s = v13,
             pose_rotation_rate_millirad_per_s = v14 \<rparr>, b) }"

definition put_foot :: "FootSensorCal \<Rightarrow> bytes" where
  "put_foot f = put_u32 (pressure_baseline f) @ put_u16 (near_thresh f) @ put_u16 (touch_thresh f)
     @ put_u16 (load_thresh f) @ putU8 (foot_enabled f)"

definition get_foot :: "FootSensorCal reader" where
  "get_foot b = do {
     (p, b) \<leftarrow> getU32 b; (n, b) \<leftarrow> getU16 b; (t, b) \<leftarrow> getU16 b; (l, b) \<leftarrow> getU16 b; (e, b) \<leftarrow> getU8 b;
     Some (\<lparr> pressure_baseline = p, near_thresh = n, touch_thresh = t, load_thresh = l,
             foot_enabled = e \<rparr>, b) }"

interpretation links_codec: field_codec put_links get_links 6
  by unfold_locales
     (auto simp: put_links_def get_links_def Option.bind_eq_Some_conv split: Option.bind_splits)

interpretation geometry_codec: field_codec put_geometry get_geometry 6
  by unfold_locales
     (auto simp: put_geometry_def get_geometry_def Option.bind_eq_Some_conv split: Option.bind_splits)

interpretation leg_codec: field_codec put_leg get_leg 8
  by unfold_locales
     (auto simp: put_leg_def get_leg_def Option.bind_eq_Some_conv split: Option.bind_splits)

interpretation servo_codec: field_codec put_servo get_servo 10
  by unfold_locales
     (auto simp: put_servo_def get_servo_def Option.bind_eq_Some_conv split: Option.bind_splits)

interpretation gait_codec: field_codec put_gait get_gait 9
  by unfold_locales
     (auto simp: put_gait_def get_gait_def Option.bind_eq_Some_conv split: Option.bind_splits)

interpretation rc_channel_codec: field_codec put_rc_channel get_rc_channel 15
  by unfold_locales
     (auto simp: put_rc_channel_def get_rc_channel_def Option.bind_eq_Some_conv split: Option.bind_splits)

interpretation body_command_codec: field_codec put_body_command get_body_command 28
  by unfold_locales
     (auto simp: put_body_command_def get_body_command_def Option.bind_eq_Some_conv split: Option.bind_splits)

interpretation foot_codec: field_codec put_foot get_foot 11
  by unfold_locales
     (auto simp: put_foot_def get_foot_def Option.bind_eq_Some_conv split: Option.bind_splits)

text \<open>\<open>serializeRobotConfig\<close> returns the bytes written; the empty list is the source's 0.\<close>

definition serializeRobotConfig :: "RobotConfig \<Rightarrow> nat \<Rightarrow> bytes" where
  "serializeRobotConfig cfg max_len =
     (if max_len < kConfigPayloadSize then []
      else put_u16 (schema_version cfg) @ robot_name cfg @ put_links (cfg_links cfg)
        @ put_geometry (cfg_geometry cfg) @ concat (map put_leg (cfg_legs cfg))
        @ concat (map put_servo (cfg_servos cfg)) @ put_gait (cfg_gait cfg)
        @ concat (map put_rc_channel (cfg_rc_input cfg)) @ put_body_command (cfg_body_command cfg)
        @ concat (map put_foot (cfg_feet cfg)) @ put_u32 (feature_defaults cfg))"

text \<open>
  The field reads of \<open>deserializeRobotConfig\<close>, in payload order, into the output argument;
  \<open>no_rc\<close> and \<open>no_body\<close> are the legacy layouts that lack a block.
\<close>

definition read_fields :: "bool \<Rightarrow> bool \<Rightarrow> RobotConfig \<Rightarrow> RobotConfig reader" where
  "read_fields no_rc no_body out b = do {
     (name, b) \<leftarrow> get_bytes kRobotNameLen b;
     (links, b) \<leftarrow> get_links b;
     (geometry, b) \<leftarrow> get_geometry b;
     (legs, b) \<leftarrow> get_list kNumLegs get_leg b;
     (servos, b) \<leftarrow> get_list kNumServos get_servo b;
     (gait, b) \<leftarrow> get_gait b;
     (rc, b) \<leftarrow> (if no_rc then Some (defaultRcInputCalibration, b)
                 else get_list kNumRcAnalogInputs get_rc_channel b);
     (body, b) \<leftarrow> (if no_body then Some (defaultBodyCommandLimits, b) else get_body_command b);
     (feet, b) \<leftarrow> get_list kNumFootSensors get_foot b;
     (features, b) \<leftarrow> getU32 b;
     Some (out \<lparr> robot_name := name[kRobotNameLen - 1 := 0], cfg_links := links,
             cfg_geometry := geometry, cfg_legs := legs, cfg_servos := servos, cfg_gait := gait,
             cfg_rc_input := rc, cfg_body_command := body, cfg_feet := feet,
             feature_defaults := features \<rparr>, b) }"

text \<open>
  \<open>deserializeRobotConfig inp out\<close>: the returned flag and the new value of the output argument,
  which the source overwrites before it knows whether the payload is acceptable. The outer
  \<open>None\<close> is a read outside the payload.
\<close>

definition deserializeRobotConfig :: "bytes \<Rightarrow> RobotConfig \<Rightarrow> (bool \<times> RobotConfig) option" where
  "deserializeRobotConfig inp out =
     (let len = length inp in
      if len < 2 then Some (False, out)
      else do {
        (version, b) \<leftarrow> getU16 inp;
        let out = kZeroRobotConfig \<lparr> schema_version := version \<rparr>;
        let legacy_v3 = (version = kLegacySchemaVersionV3 \<and> len = kLegacyConfigPayloadSizeV3);
        let legacy_v4 = (version = kLegacySchemaVersionV4 \<and> len = kLegacyConfigPayloadSizeV4);
        let legacy_v5 = (version = kLegacySchemaVersionV5 \<and> len = kConfigPayloadSize);
        let legacy_v6 = (version = kLegacySchemaVersionV6 \<and> len = kConfigPayloadSize);
        let legacy_v7 = (version = kLegacySchemaVersionV7 \<and> len = kConfigPayloadSize);
        let legacy_v8 = (version = kLegacySchemaVersionV8 \<and> len = kConfigPayloadSize);
        if \<not> legacy_v3 \<and> \<not> legacy_v4 \<and> \<not> legacy_v5 \<and> \<not> legacy_v6 \<and> \<not> legacy_v7 \<and> \<not> legacy_v8 \<and>
           (version \<noteq> kSchemaVersion \<or> len \<noteq> kConfigPayloadSize)
        then Some (False, out)
        else do {
          (out, b) \<leftarrow> read_fields legacy_v3 (legacy_v3 \<or> legacy_v4) out b;
          if b \<noteq> [] then Some (False, out)
          else
            let out = (if legacy_v6 \<or> legacy_v7 then applyRobotMotionProfile out
                       else if legacy_v3 \<or> legacy_v4 \<or> legacy_v5 \<or> legacy_v8
                       then applyRobotKinematicsProfile out else out)
            in Some (True, out \<lparr> schema_version := kSchemaVersion \<rparr>)
        }
      })"

lemmas codec_puts = links_codec.get_put geometry_codec.get_put leg_codec.list_get_put
  servo_codec.list_get_put gait_codec.get_put rc_channel_codec.list_get_put
  body_command_codec.get_put foot_codec.list_get_put u32_codec.get_put u16_codec.get_put

lemmas codec_iffs = links_codec.get_iff geometry_codec.get_iff leg_codec.list_iff servo_codec.list_iff
  gait_codec.get_iff rc_channel_codec.list_iff body_command_codec.get_iff foot_codec.list_iff

lemmas codec_Nones = links_codec.get_None geometry_codec.get_None leg_codec.list_None servo_codec.list_None
  gait_codec.get_None rc_channel_codec.list_None body_command_codec.get_None foot_codec.list_None

lemmas codec_sizes = links_codec.put_size geometry_codec.put_size leg_codec.list_size servo_codec.list_size
  gait_codec.put_size rc_channel_codec.list_size body_command_codec.put_size foot_codec.list_size

definition put_fields :: "RobotConfig \<Rightarrow> bytes" where
  "put_fields cfg = robot_name cfg @ put_links (cfg_links cfg)
        @ put_geometry (cfg_geometry cfg) @ concat (map put_leg (cfg_legs cfg))
        @ concat (map put_servo (cfg_servos cfg)) @ put_gait (cfg_gait cfg)
        @ concat (map put_rc_channel (cfg_rc_input cfg)) @ put_body_command (cfg_body_command cfg)
        @ concat (map put_foot (cfg_feet cfg)) @ put_u32 (feature_defaults cfg)"

lemma serialize_eq:
  "kConfigPayloadSize \<le> n \<Longrightarrow> serializeRobotConfig cfg n = put_u16 (schema_version cfg) @ put_fields cfg"
  by (simp add: serializeRobotConfig_def put_fields_def)

lemma put_fields_length: "config_dims cfg \<Longrightarrow> length (put_fields cfg) = kConfigPayloadSize - 2"
  by (simp add: put_fields_def config_dims_def codec_sizes config_sizes)

lemma get_bytes_put: "length v = n \<Longrightarrow> get_bytes n (v @ r) = Some (v, r)"
  by simp

lemma read_fields_put:
  "config_dims cfg \<Longrightarrow> read_fields False False out (put_fields cfg @ r) =
     Some (cfg \<lparr> schema_version := schema_version out,
                 robot_name := (robot_name cfg)[kRobotNameLen - 1 := 0] \<rparr>, r)"
  by (simp add: read_fields_def put_fields_def config_dims_def codec_puts get_bytes_put)

text \<open>The size the reader consumes, and the shape of what it produces.\<close>

definition fields_size :: "bool \<Rightarrow> bool \<Rightarrow> nat" where
  "fields_size no_rc no_body = kLegacyConfigPayloadSizeV3 - 2
     + (if no_rc then 0 else kNumRcAnalogInputs * 15) + (if no_body then 0 else 28)"

lemma defaultRc_length: "length defaultRcInputCalibration = kNumRcAnalogInputs"
  by (simp add: defaultRcInputCalibration_def)

lemma read_fields_None: "read_fields no_rc no_body out b = None \<longleftrightarrow> length b < fields_size no_rc no_body"
  by (cases no_rc; cases no_body)
     (auto simp: read_fields_def codec_Nones codec_iffs codec_sizes fields_size_def config_sizes
       split: Option.bind_splits)

lemma read_fields_Some:
  assumes "read_fields no_rc no_body out b = Some (out', r)"
  shows "length b = fields_size no_rc no_body + length r" and "config_dims out'"
    and "robot_name out' ! (kRobotNameLen - 1) = 0" and "schema_version out' = schema_version out"
  using assms
  by (cases no_rc; cases no_body;
      auto simp: read_fields_def Option.bind_eq_Some_conv codec_iffs codec_sizes fields_size_def
        config_dims_def config_sizes defaultRc_length)+

lemma deserialize_serialize:
  assumes "config_dims cfg" and "schema_version cfg = kSchemaVersion"
    and "robot_name cfg ! (kRobotNameLen - 1) = 0" and "kConfigPayloadSize \<le> n"
  shows "deserializeRobotConfig (serializeRobotConfig cfg n) out = Some (True, cfg)"
proof -
  let ?p = "serializeRobotConfig cfg n"
  have p: "?p = put_u16 kSchemaVersion @ put_fields cfg" using serialize_eq assms by simp
  have len: "length ?p = kConfigPayloadSize"
    using put_fields_length [OF assms(1)] p by (simp add: config_sizes)
  then have len': "Suc (Suc (length (put_fields cfg))) = kConfigPayloadSize" using p by simp
  have name: "(robot_name cfg)[kRobotNameLen - Suc 0 := 0] = robot_name cfg"
    using assms(3) by (metis list_update_id One_nat_def)
  have same: "cfg \<lparr> robot_name := robot_name cfg, schema_version := 9 \<rparr> = cfg"
    using assms(2) by (cases cfg) (simp add: kSchemaVersion_def)
  have "\<not> kConfigPayloadSize < 2" by (simp add: config_sizes)
  then show ?thesis
    using read_fields_put [OF assms(1), of _ "[]"] assms(2)
    by (simp add: deserializeRobotConfig_def Let_def len p u16_codec.get_put schema_versions name len' same)
qed

text \<open>
  C14: the configuration codec is a round trip: a configuration with the active schema version and
  a terminated name, serialised into a buffer that is large enough, takes exactly the declared
  payload size (which fits the store's 2032-byte slot) and is read back unchanged, whatever the
  output argument held before.
\<close>

theorem config_roundtrip:
  assumes "config_dims cfg" and "schema_version cfg = kSchemaVersion"
    and "robot_name cfg ! (kRobotNameLen - 1) = 0" and "kConfigPayloadSize \<le> n"
  shows "deserializeRobotConfig (serializeRobotConfig cfg n) out = Some (True, cfg) \<and>
         length (serializeRobotConfig cfg n) = kConfigPayloadSize \<and> kConfigPayloadSize \<le> 2032"
  using deserialize_serialize [OF assms] put_fields_length [OF assms(1)] serialize_eq [OF assms(4), of cfg]
  by (simp add: config_sizes)

lemma default_dims: "config_dims defaultRobotConfig"
  by (simp add: config_dims_def defaultRobotConfig_def applyRobotMotionProfile_def kZeroRobotConfig_def
      applyRobotKinematicsProfile_def default_name_def kLegSeeds_def defaultRc_length config_sizes
      upt_conv_Cons)

lemma default_name_terminated:
  "robot_name defaultRobotConfig ! (kRobotNameLen - 1) = 0" "schema_version defaultRobotConfig = kSchemaVersion"
  by (simp_all add: defaultRobotConfig_def applyRobotMotionProfile_def applyRobotKinematicsProfile_def
      default_name_def kRobotNameLen_def numeral_eq_Suc)

theorem config_roundtrip_witness:
  "deserializeRobotConfig (serializeRobotConfig defaultRobotConfig 485) kZeroRobotConfig =
     Some (True, defaultRobotConfig)"
  using config_roundtrip [OF default_dims default_name_terminated(2,1), of 485 kZeroRobotConfig]
  by (simp add: config_sizes)

section \<open>Migration\<close>

text \<open>The schema versions a payload of a given length may carry.\<close>

definition accepted_version :: "u16 \<Rightarrow> nat \<Rightarrow> bool" where
  "accepted_version v len \<longleftrightarrow>
     v = 3 \<and> len = kLegacyConfigPayloadSizeV3 \<or> v = 4 \<and> len = kLegacyConfigPayloadSizeV4 \<or>
     v \<in> {5, 6, 7, 8, 9} \<and> len = kConfigPayloadSize"

lemma fields_size_total:
  "2 + fields_size True True = kLegacyConfigPayloadSizeV3"
  "2 + fields_size False True = kLegacyConfigPayloadSizeV4"
  "2 + fields_size False False = kConfigPayloadSize"
  by (simp_all add: fields_size_def config_sizes)

lemma deserialize_rejects:
  assumes "2 \<le> length inp" and "\<not> accepted_version (u16_at inp 0) (length inp)"
  shows "deserializeRobotConfig inp out =
           Some (False, kZeroRobotConfig \<lparr> schema_version := u16_at inp 0 \<rparr>)"
proof -
  obtain a b bs where "inp = a # b # bs"
    using assms(1) by (metis Suc_le_length_iff numeral_2_eq_2)
  then show ?thesis
    using assms(2)
    by (auto simp: deserializeRobotConfig_def Let_def schema_versions accepted_version_def u16_at_def)
qed

text \<open>An accepted payload, read field by field and migrated by its version.\<close>

definition migrate :: "u16 \<Rightarrow> RobotConfig \<Rightarrow> RobotConfig" where
  "migrate v cfg = (if v = 6 \<or> v = 7 then applyRobotMotionProfile cfg
                    else if v \<in> {3, 4, 5, 8} then applyRobotKinematicsProfile cfg else cfg)"

lemma deserialize_accepts:
  assumes "accepted_version (u16_at inp 0) (length inp)"
  shows "\<exists>cfg. read_fields (u16_at inp 0 = 3) (u16_at inp 0 \<in> {3, 4})
                 (kZeroRobotConfig \<lparr> schema_version := u16_at inp 0 \<rparr>) (drop 2 inp) = Some (cfg, []) \<and>
               deserializeRobotConfig inp out =
                 Some (True, migrate (u16_at inp 0) cfg \<lparr> schema_version := kSchemaVersion \<rparr>)"
proof -
  let ?v = "u16_at inp 0"
  let ?r = "read_fields (?v = 3) (?v \<in> {3, 4}) (kZeroRobotConfig \<lparr> schema_version := ?v \<rparr>) (drop 2 inp)"
  have len: "length inp = 2 + fields_size (?v = 3) (?v \<in> {3, 4})"
    using assms fields_size_total by (auto simp: accepted_version_def)
  then have "?r \<noteq> None" by (simp only: read_fields_None) simp
  then obtain cfg rest where r: "?r = Some (cfg, rest)" by auto
  then have rest: "rest = []" using read_fields_Some(1) [OF r] len by simp
  obtain a b bs where inp: "inp = a # b # bs"
    using len by (metis Suc_le_length_iff numeral_2_eq_2 le_add1)
  have sizes: "kLegacyConfigPayloadSizeV3 \<noteq> kConfigPayloadSize" "kLegacyConfigPayloadSizeV4 \<noteq> kConfigPayloadSize"
    by (simp_all add: config_sizes)
  have "deserializeRobotConfig inp out =
          Some (True, migrate ?v cfg \<lparr> schema_version := kSchemaVersion \<rparr>)"
    using assms r rest
    by (auto simp: deserializeRobotConfig_def Let_def schema_versions accepted_version_def inp u16_at_def
        migrate_def sizes)
  then show ?thesis using r rest by blast
qed

lemma read_fields_servos:
  assumes "read_fields no_rc no_body out b = Some (cfg, r)"
  shows "take 180 (drop 76 b) = concat (map put_servo (cfg_servos cfg))"
proof -
  have "\<exists>pre suf. b = pre @ concat (map put_servo (cfg_servos cfg)) @ suf \<and> length pre = 76 \<and>
          length (cfg_servos cfg) = 18"
    using assms
    by (cases no_rc; cases no_body)
       (force simp: read_fields_def Option.bind_eq_Some_conv codec_iffs codec_sizes config_sizes
         intro: exI [where x = "_ @ put_links _ @ put_geometry _ @ concat (map put_leg _)"])+
  then show ?thesis by (auto simp: servo_codec.list_size)
qed

lemma migrate_shape:
  assumes "config_dims cfg" and "robot_name cfg ! (kRobotNameLen - 1) = 0"
  shows "config_dims (migrate v cfg \<lparr> schema_version := kSchemaVersion \<rparr>)"
    and "robot_name (migrate v cfg) ! (kRobotNameLen - 1) = 0"
  using assms default_dims
  by (auto simp: migrate_def config_dims_def applyRobotMotionProfile_def applyRobotKinematicsProfile_def
      defaultRobotConfig_def)

lemma deserialize_good:
  assumes "deserializeRobotConfig inp out = Some (True, cfg)"
  shows "config_dims cfg" and "robot_name cfg ! (kRobotNameLen - 1) = 0"
proof -
  have "accepted_version (u16_at inp 0) (length inp)"
    using assms deserialize_rejects [of inp out]
    by (cases "length inp < 2") (auto simp: deserializeRobotConfig_def not_less)
  then obtain c where "read_fields (u16_at inp 0 = 3) (u16_at inp 0 \<in> {3, 4})
        (kZeroRobotConfig \<lparr> schema_version := u16_at inp 0 \<rparr>) (drop 2 inp) = Some (c, [])"
    and "cfg = migrate (u16_at inp 0) c \<lparr> schema_version := kSchemaVersion \<rparr>"
    using deserialize_accepts [of inp out] assms by auto
  then show "config_dims cfg" "robot_name cfg ! (kRobotNameLen - 1) = 0"
    using read_fields_Some(2,3) migrate_shape by simp_all
qed

text \<open>
  Reading a stored payload, of any length and content, never reads outside it. It succeeds
  exactly for the supported versions at their exact length; the result then has the active schema
  version, the array dimensions of the structure and a terminated name. Every migrated version gets
  the measured kinematic profile; the servo calibration bytes survive unchanged from versions 3, 4,
  5, 8 and 9 and are replaced by the verified map for versions 6 and 7.
\<close>

theorem config_migration:
  "case deserializeRobotConfig inp out of
     None \<Rightarrow> False
   | Some (ok, cfg) \<Rightarrow>
       (ok \<longleftrightarrow> accepted_version (u16_at inp 0) (length inp)) \<and>
       (ok \<longrightarrow>
          config_dims cfg \<and> schema_version cfg = 9 \<and> robot_name cfg ! 15 = 0 \<and>
          (u16_at inp 0 \<noteq> 9 \<longrightarrow> applyRobotKinematicsProfile cfg = cfg) \<and>
          (u16_at inp 0 \<in> {3, 4, 5, 8, 9} \<longrightarrow>
             concat (map put_servo (cfg_servos cfg)) = take 180 (drop 78 inp)) \<and>
          (u16_at inp 0 \<in> {6, 7} \<longrightarrow> applyRobotMotionProfile cfg = cfg))"
proof (cases "accepted_version (u16_at inp 0) (length inp)")
  case False
  moreover have "\<not> accepted_version (u16_at inp 0) (length inp)" if "length inp < 2"
    using that by (simp add: accepted_version_def config_sizes)
  ultimately show ?thesis
    using deserialize_rejects [of inp out] by (cases "length inp < 2") (simp_all add: deserializeRobotConfig_def)
next
  case True
  obtain cfg where r: "read_fields (u16_at inp 0 = 3) (u16_at inp 0 \<in> {3, 4})
        (kZeroRobotConfig \<lparr> schema_version := u16_at inp 0 \<rparr>) (drop 2 inp) = Some (cfg, [])"
    and d: "deserializeRobotConfig inp out =
        Some (True, migrate (u16_at inp 0) cfg \<lparr> schema_version := kSchemaVersion \<rparr>)"
    using deserialize_accepts [OF True] by blast
  have v: "u16_at inp 0 \<in> {3, 4, 5, 6, 7, 8, 9}" using True by (auto simp: accepted_version_def)
  have servos: "take 180 (drop 78 inp) = concat (map put_servo (cfg_servos cfg))"
    using read_fields_servos [OF r] by simp
  have dims: "config_dims (migrate v cfg \<lparr> schema_version := kSchemaVersion \<rparr>)"
    and name: "robot_name (migrate v cfg) ! 15 = 0" for v
    using migrate_shape [OF read_fields_Some(2,3) [OF r]] by (simp_all add: kRobotNameLen_def)
  show ?thesis
    using True v servos dims name unfolding d
    by (auto simp: migrate_def applyRobotMotionProfile_def applyRobotKinematicsProfile_def kSchemaVersion_def)
qed

definition v7_payload :: bytes where
  "v7_payload = put_u16 7 @ put_fields kZeroRobotConfig"

theorem config_migration_witness:
  "case deserializeRobotConfig v7_payload kZeroRobotConfig of
     None \<Rightarrow> False
   | Some (ok, cfg) \<Rightarrow> ok \<and> config_dims cfg \<and> schema_version cfg = 9 \<and> applyRobotMotionProfile cfg = cfg"
proof -
  have "config_dims kZeroRobotConfig" by (simp add: config_dims_def kZeroRobotConfig_def)
  then have "length v7_payload = kConfigPayloadSize"
    by (simp add: v7_payload_def put_fields_length config_sizes)
  moreover have "u16_at v7_payload 0 = 7"
    using u16_at_put [of "[]" 0 7] by (simp add: v7_payload_def)
  ultimately have "u16_at v7_payload 0 = 7" "accepted_version (u16_at v7_payload 0) (length v7_payload)"
    by (simp_all add: accepted_version_def)
  then show ?thesis
    using config_migration [of v7_payload kZeroRobotConfig] by (auto split: option.splits)
qed

section \<open>Validation\<close>

definition rc_channel_bad :: "RcChannelCalibration \<Rightarrow> bool" where
  "rc_channel_bad c \<longleftrightarrow>
     rc_type c > 2 \<or> rc_reversed c > 1 \<or> deadband_x255 c > 128 \<or> filter_tau_ms c > kRcFilterTauMaxMs \<or>
     switch_debounce_ms c > kRcSwitchDebounceMaxMs \<or> sint (min_raw c) \<ge> sint (max_raw c) \<or>
     sint (center_raw c) < sint (min_raw c) \<or> sint (center_raw c) > sint (max_raw c)"

fun validate_rc_loop :: "RcChannelCalibration list \<Rightarrow> bool list \<Rightarrow> bool" where
  "validate_rc_loop [] source_seen = True"
| "validate_rc_loop (c # cs) source_seen =
     (if rc_source c = 0 \<or> unat (rc_source c) > kNumRcAnalogInputs then False
      else let source_index = unat (rc_source c - 1) in
        if source_seen ! source_index then False
        else if rc_channel_bad c then False
        else if source_index < 4 \<and> rc_type c \<noteq> 0 then False
        else if source_index \<ge> 4 \<and> source_index < 6 \<and> rc_type c \<noteq> 1 then False
        else if source_index \<ge> 6 \<and> rc_type c \<noteq> 2 then False
        else if rc_type c = 0 \<and> (center_raw c = min_raw c \<or> center_raw c = max_raw c) then False
        else validate_rc_loop cs (source_seen[source_index := True]))"

definition validateRcInputCalibration :: "RcChannelCalibration list \<Rightarrow> bool" where
  "validateRcInputCalibration cs = validate_rc_loop cs (replicate kNumRcAnalogInputs False)"

definition validateBodyCommandLimits :: "BodyCommandLimits \<Rightarrow> bool" where
  "validateBodyCommandLimits l \<longleftrightarrow>
     \<not> (max_forward_milli l = 0 \<or> max_forward_milli l > kBodyCommandMaxScaleMilli \<or>
        max_reverse_milli l = 0 \<or> max_reverse_milli l > kBodyCommandMaxScaleMilli \<or>
        max_lateral_milli l = 0 \<or> max_lateral_milli l > kBodyCommandMaxScaleMilli \<or>
        max_yaw_milli l = 0 \<or> max_yaw_milli l > kBodyCommandMaxScaleMilli) \<and>
     list_all (\<lambda>a. \<not> (a = 0 \<or> a > kBodyCommandMaxAccelMilliPerS))
       [forward_accel_milli_per_s l, forward_decel_milli_per_s l, lateral_accel_milli_per_s l,
        lateral_decel_milli_per_s l, yaw_accel_milli_per_s l, yaw_decel_milli_per_s l] \<and>
     height_rise_mm_per_s l > 0 \<and> height_rise_mm_per_s l \<le> kBodyHeightRateMaxMmPerS \<and>
     height_lower_mm_per_s l > 0 \<and> height_lower_mm_per_s l \<le> kBodyHeightRateMaxMmPerS \<and>
     pose_translation_rate_mm_per_s l > 0 \<and>
     pose_translation_rate_mm_per_s l \<le> kBodyPoseTranslationRateMaxMmPerS \<and>
     pose_rotation_rate_millirad_per_s l > 0 \<and>
     pose_rotation_rate_millirad_per_s l \<le> kBodyPoseRotationRateMaxMilliRadPerS"

text \<open>The neutral foot lies in the annulus the femur and tibia can reach; the source computes in
  64-bit signed integers, whose range the squares of 17-bit lengths never leave.\<close>

definition home_reachable :: "RobotConfig \<Rightarrow> bool" where
  "home_reachable cfg \<longleftrightarrow>
     (let home_planar = int (unat (home_radius_cmm (cfg_geometry cfg))) - int (unat (coxa_cmm (cfg_links cfg)));
          home_z = sint (home_foot_z_cmm (cfg_geometry cfg));
          home_distance_sq = home_planar * home_planar + home_z * home_z;
          reach_min = int (unat (femur_cmm (cfg_links cfg))) - int (unat (tibia_cmm (cfg_links cfg)));
          reach_min = (if reach_min < 0 then - reach_min else reach_min);
          reach_max = int (unat (femur_cmm (cfg_links cfg))) + int (unat (tibia_cmm (cfg_links cfg)))
      in \<not> (home_distance_sq < reach_min * reach_min \<or> home_distance_sq > reach_max * reach_max))"

text \<open>The servo loop: the slots seen so far, the servos already accepted, the rest.\<close>

fun validate_servo_loop ::
  "bool list list \<Rightarrow> ServoConfig list \<Rightarrow> ServoConfig list \<Rightarrow> bool list list option" where
  "validate_servo_loop joint_seen prev [] = Some joint_seen"
| "validate_servo_loop joint_seen prev (s # ss) =
     (if servo_id s = 0 \<or> servo_id s > 253 then None
      else if unat (servo_leg s) \<ge> kNumLegs then None
      else if unat (servo_joint s) \<ge> kJointsPerLeg then None
      else if sint (servo_sign s) \<noteq> 1 \<and> sint (servo_sign s) \<noteq> -1 then None
      else if min_tick s \<ge> max_tick s then None
      else if max_tick s > kServoMaxTick then None
      else let l = unat (servo_leg s); j = unat (servo_joint s) in
        if joint_seen ! l ! j then None
        else if servo_id s \<in> servo_id ` set prev then None
        else validate_servo_loop (joint_seen[l := (joint_seen ! l)[j := True]]) (prev @ [s]) ss)"

definition validate_feet :: "FootSensorCal list \<Rightarrow> bool" where
  "validate_feet = list_all (\<lambda>c.
     foot_enabled c = 0 \<or>
     \<not> (near_thresh c = 0 \<or> touch_thresh c = 0 \<or> load_thresh c = 0) \<and> \<not> load_thresh c < touch_thresh c)"

definition validateRobotConfig :: "RobotConfig \<Rightarrow> bool" where
  "validateRobotConfig cfg =
     (if schema_version cfg \<noteq> kSchemaVersion then False
      else if coxa_cmm (cfg_links cfg) = 0 \<or> femur_cmm (cfg_links cfg) = 0 \<or> tibia_cmm (cfg_links cfg) = 0
      then False
      else if home_radius_cmm (cfg_geometry cfg) = 0 then False
      else if \<not> home_reachable cfg then False
      else if gait_id (cfg_gait cfg) > 5 then False
      else if body_height_mm (cfg_gait cfg) < kMinGaitBodyHeightMm \<or>
              body_height_mm (cfg_gait cfg) > kMaxGaitBodyHeightMm then False
      else if stride_len_mm (cfg_gait cfg) > kMaxGaitStrideMm then False
      else if step_height_mm (cfg_gait cfg) > kMaxGaitStepMm then False
      else if \<not> validateRcInputCalibration (cfg_rc_input cfg) then False
      else if \<not> validateBodyCommandLimits (cfg_body_command cfg) then False
      else if feature_defaults cfg AND NOT kKnownFeatureBits \<noteq> 0 then False
      else case validate_servo_loop (replicate kNumLegs (replicate kJointsPerLeg False)) [] (cfg_servos cfg) of
          None \<Rightarrow> False
        | Some joint_seen \<Rightarrow>
            if \<not> list_all (list_all (\<lambda>b. b)) joint_seen then False
            else validate_feet (cfg_feet cfg))"

section \<open>What validation guarantees\<close>

definition servo_slot :: "ServoConfig \<Rightarrow> nat \<times> nat" where
  "servo_slot s = (unat (servo_leg s), unat (servo_joint s))"

definition servo_ok :: "ServoConfig \<Rightarrow> bool" where
  "servo_ok s \<longleftrightarrow> servo_id s \<noteq> 0 \<and> servo_id s \<le> 253 \<and> servo_slot s \<in> {..<kNumLegs} \<times> {..<kJointsPerLeg} \<and>
     sint (servo_sign s) \<in> {1, -1} \<and> min_tick s < max_tick s \<and> max_tick s \<le> 4095"

definition seen_slots :: "bool list list \<Rightarrow> (nat \<times> nat) set" where
  "seen_slots seen = {(l, j). l < kNumLegs \<and> j < kJointsPerLeg \<and> seen ! l ! j}"

definition seen_shape :: "bool list list \<Rightarrow> bool" where
  "seen_shape seen \<longleftrightarrow> length seen = kNumLegs \<and> (\<forall>r\<in>set seen. length r = kJointsPerLeg)"

lemma seen_update:
  assumes "seen_shape seen" "l < kNumLegs" "j < kJointsPerLeg"
  shows "seen_shape (seen[l := (seen ! l)[j := True]])"
    and "seen_slots (seen[l := (seen ! l)[j := True]]) = insert (l, j) (seen_slots seen)"
  using assms
  by (auto simp: seen_shape_def seen_slots_def nth_list_update set_update_subset_insert
      dest!: subsetD [OF set_update_subset_insert] split: if_splits)

lemma validate_servo_loop_sound:
  assumes "validate_servo_loop seen prev ss = Some seen'" and "seen_shape seen"
    and "seen_slots seen = servo_slot ` set prev" and "distinct (map servo_slot prev)"
    and "distinct (map servo_id prev)" and "\<forall>s\<in>set prev. servo_ok s"
  shows "seen_shape seen' \<and> seen_slots seen' = servo_slot ` set (prev @ ss) \<and>
         distinct (map servo_slot (prev @ ss)) \<and> distinct (map servo_id (prev @ ss)) \<and>
         (\<forall>s\<in>set (prev @ ss). servo_ok s)"
  using assms
proof (induction ss arbitrary: seen prev)
  case (Cons s ss)
  let ?l = "unat (servo_leg s)" and ?j = "unat (servo_joint s)"
  let ?seen = "seen[?l := (seen ! ?l)[?j := True]]"
  have ok: "servo_ok s" and new: "\<not> seen ! ?l ! ?j" and nid: "servo_id s \<notin> servo_id ` set prev"
    and run: "validate_servo_loop ?seen (prev @ [s]) ss = Some seen'"
    using Cons.prems(1)
    by (auto simp: servo_ok_def servo_slot_def kServoMaxTick_def Let_def not_less not_le split: if_splits)
  then have lj: "?l < kNumLegs" "?j < kJointsPerLeg" by (simp_all add: servo_ok_def servo_slot_def)
  have slot: "servo_slot s \<notin> servo_slot ` set prev"
    using new lj Cons.prems(3) by (auto simp: seen_slots_def servo_slot_def)
  note upd = seen_update [OF Cons.prems(2) lj]
  have a: "seen_slots ?seen = servo_slot ` set (prev @ [s])"
    using upd(2) Cons.prems(3) by (simp add: servo_slot_def)
  have b: "distinct (map servo_slot (prev @ [s]))" "distinct (map servo_id (prev @ [s]))"
    "\<forall>s\<in>set (prev @ [s]). servo_ok s"
    using Cons.prems(4-6) slot nid ok by auto
  show ?case
    using Cons.IH [OF run upd(1) a b] unfolding append_assoc append_Cons append_Nil .
qed simp

text \<open>The RC loop accepts every logical source at most once.\<close>

lemma validate_rc_loop_sound:
  assumes "validate_rc_loop cs seen" and "length seen = kNumRcAnalogInputs"
  shows "distinct (map rc_source cs) \<and>
         (\<forall>c\<in>set cs. rc_source c \<noteq> 0 \<and> unat (rc_source c) \<le> kNumRcAnalogInputs \<and>
            \<not> seen ! unat (rc_source c - 1) \<and> \<not> rc_channel_bad c)"
  using assms
proof (induction cs arbitrary: seen)
  case (Cons c cs)
  let ?i = "unat (rc_source c - 1)"
  have c: "rc_source c \<noteq> 0" "unat (rc_source c) \<le> kNumRcAnalogInputs" "\<not> seen ! ?i" "\<not> rc_channel_bad c"
    and run: "validate_rc_loop cs (seen[?i := True])"
    using Cons.prems(1) by (auto simp: Let_def not_less split: if_splits)
  have "?i = unat (rc_source c) - 1" using c(1) by (simp add: unat_minus_one)
  then have i: "?i < length seen" using c(1,2) Cons.prems(2) by (simp add: unat_gt_0 [symmetric])
  have IH: "distinct (map rc_source cs)"
    "\<And>d. d \<in> set cs \<Longrightarrow> rc_source d \<noteq> 0 \<and> unat (rc_source d) \<le> kNumRcAnalogInputs \<and>
        \<not> seen[?i := True] ! unat (rc_source d - 1) \<and> \<not> rc_channel_bad d"
    using Cons.IH [OF run] Cons.prems(2) by auto
  have "rc_source c \<noteq> rc_source d" "\<not> seen ! unat (rc_source d - 1)" if "d \<in> set cs" for d
    using IH(2) [OF that] i by (auto simp: nth_list_update split: if_splits)
  then show ?case using IH c by auto
qed simp

lemma validate_servo_map:
  assumes v: "validateRobotConfig cfg" and dims: "config_dims cfg"
  shows "list_all servo_ok (cfg_servos cfg)" and "distinct (map servo_id (cfg_servos cfg))"
    and "distinct (map servo_slot (cfg_servos cfg))"
    and "servo_slot ` set (cfg_servos cfg) = {..<kNumLegs} \<times> {..<kJointsPerLeg}"
proof -
  let ?seen0 = "replicate kNumLegs (replicate kJointsPerLeg False)"
  obtain seen where run: "validate_servo_loop ?seen0 [] (cfg_servos cfg) = Some seen"
    and all: "list_all (list_all (\<lambda>b. b)) seen"
    using v by (auto simp: validateRobotConfig_def split: if_splits option.splits)
  have "seen_shape ?seen0" "seen_slots ?seen0 = servo_slot ` set []"
    by (auto simp: seen_shape_def seen_slots_def)
  note r = validate_servo_loop_sound [OF run this, simplified]
  have full: "seen_slots seen = {..<kNumLegs} \<times> {..<kJointsPerLeg}"
  proof -
    have "seen ! l ! j" if "l < kNumLegs" "j < kJointsPerLeg" for l j
    proof -
      have "seen ! l \<in> set seen" and "length (seen ! l) = kJointsPerLeg"
        using r that(1) by (auto simp: seen_shape_def)
      then show ?thesis using all that(2) by (metis list_all_length list_all_iff)
    qed
    then show ?thesis by (auto simp: seen_slots_def)
  qed
  show "list_all servo_ok (cfg_servos cfg)" "distinct (map servo_id (cfg_servos cfg))"
    "distinct (map servo_slot (cfg_servos cfg))"
    "servo_slot ` set (cfg_servos cfg) = {..<kNumLegs} \<times> {..<kJointsPerLeg}"
    using r full by (auto simp: list_all_iff)
qed

lemma validate_rc_sources:
  assumes "validateRobotConfig cfg" and "config_dims cfg"
  shows "distinct (map rc_source (cfg_rc_input cfg))"
    and "unat ` rc_source ` set (cfg_rc_input cfg) = {1..kNumRcAnalogInputs}"
proof -
  have "validate_rc_loop (cfg_rc_input cfg) (replicate kNumRcAnalogInputs False)"
    using assms(1) by (auto simp: validateRobotConfig_def validateRcInputCalibration_def split: if_splits)
  note r = validate_rc_loop_sound [OF this, simplified]
  then show d: "distinct (map rc_source (cfg_rc_input cfg))" by simp
  have "inj_on unat (rc_source ` set (cfg_rc_input cfg))"
    by (rule inj_onI) (simp add: word_unat_eq_iff)
  then have "card (unat ` rc_source ` set (cfg_rc_input cfg)) = kNumRcAnalogInputs"
    using assms(2) distinct_card [OF d] by (simp add: card_image config_dims_def)
  moreover have "unat ` rc_source ` set (cfg_rc_input cfg) \<subseteq> {1..kNumRcAnalogInputs}"
    using r by (auto simp: unat_gt_0 Suc_le_eq)
  ultimately show "unat ` rc_source ` set (cfg_rc_input cfg) = {1..kNumRcAnalogInputs}"
    by (intro card_subset_eq) auto
qed

lemma validate_home:
  assumes "validateRobotConfig cfg"
  shows "coxa_cmm (cfg_links cfg) \<noteq> 0" "femur_cmm (cfg_links cfg) \<noteq> 0" "tibia_cmm (cfg_links cfg) \<noteq> 0"
    and "home_reachable cfg"
  using assms by (auto simp: validateRobotConfig_def split: if_splits)

text \<open>
  C13: a configuration that passes validation maps the joints of the robot one to one: every
  (leg, joint) pair belongs to exactly one of the 18 servos, bus ids are distinct and in 1..253,
  signs are plus or minus one, and every travel range is a non-empty range of device ticks; the
  eight logical RC sources are each calibrated exactly once; and the neutral foot lies in the
  annulus that femur and tibia can reach.
\<close>

theorem validated_config_sound:
  assumes "validateRobotConfig cfg" and "config_dims cfg"
  shows "(\<forall>l < 6. \<forall>j < 3. \<exists>!i. i < 18 \<and> servo_slot (cfg_servos cfg ! i) = (l, j)) \<and>
         distinct (map servo_id (cfg_servos cfg)) \<and> list_all servo_ok (cfg_servos cfg) \<and>
         unat ` rc_source ` set (cfg_rc_input cfg) = {1..8} \<and>
         distinct (map rc_source (cfg_rc_input cfg)) \<and>
         (let d = (int (unat (home_radius_cmm (cfg_geometry cfg))) - int (unat (coxa_cmm (cfg_links cfg))))\<^sup>2
                  + (sint (home_foot_z_cmm (cfg_geometry cfg)))\<^sup>2;
              f = int (unat (femur_cmm (cfg_links cfg))); t = int (unat (tibia_cmm (cfg_links cfg)))
          in (f - t)\<^sup>2 \<le> d \<and> d \<le> (f + t)\<^sup>2)"
proof -
  note servos = validate_servo_map [OF assms]
  have len: "length (cfg_servos cfg) = 18"
    using assms(2) by (simp add: config_dims_def kNumServos_def kNumLegs_def kJointsPerLeg_def)
  have "\<exists>!i. i < 18 \<and> servo_slot (cfg_servos cfg ! i) = (l, j)" if "l < 6" "j < 3" for l j
  proof -
    have "(l, j) \<in> servo_slot ` set (cfg_servos cfg)"
      using servos(4) that by (simp add: kNumLegs_def kJointsPerLeg_def)
    then obtain i where "i < 18" "servo_slot (cfg_servos cfg ! i) = (l, j)"
      by (auto simp: in_set_conv_nth len)
    moreover have "i' = i'' " if "i' < 18" "i'' < 18"
      "servo_slot (cfg_servos cfg ! i') = servo_slot (cfg_servos cfg ! i'')" for i' i''
      using servos(3) that len by (auto simp: distinct_conv_nth)
    ultimately show ?thesis by metis
  qed
  moreover have "let d = (int (unat (home_radius_cmm (cfg_geometry cfg))) - int (unat (coxa_cmm (cfg_links cfg))))\<^sup>2
                  + (sint (home_foot_z_cmm (cfg_geometry cfg)))\<^sup>2;
              f = int (unat (femur_cmm (cfg_links cfg))); t = int (unat (tibia_cmm (cfg_links cfg)))
          in (f - t)\<^sup>2 \<le> d \<and> d \<le> (f + t)\<^sup>2"
    using validate_home(4) [OF assms(1)]
    by (auto simp: home_reachable_def Let_def power2_eq_square not_less split: if_splits)
       (simp_all add: algebra_simps)
  ultimately show ?thesis
    using servos(1,2) validate_rc_sources [OF assms] by (simp add: kNumRcAnalogInputs_def)
qed

lemma default_valid: "validateRobotConfig defaultRobotConfig"
  by code_simp

theorem validated_config_sound_witness:
  "validateRobotConfig defaultRobotConfig \<and>
   (\<exists>!i. i < 18 \<and> servo_slot (cfg_servos defaultRobotConfig ! i) = (5, 2)) \<and>
   distinct (map servo_id (cfg_servos defaultRobotConfig)) \<and>
   unat ` rc_source ` set (cfg_rc_input defaultRobotConfig) = {1..8}"
  using validated_config_sound [OF default_valid default_dims] default_valid by simp

end
