(* ===== verification/ConfigApi.thy ===== *)
theory ConfigApi
  imports ConfigSchema ApiResponse
begin

text \<open>
  The CFG command group (\<open>config/config_api.h\<close>, \<open>config/config_api.cpp\<close>): an editable staging
  buffer, the last known-good configuration, and a transactional commit. The abstract
  \<open>ConfigPersistence\<close> sink is a pair of functions over a state \<open>'w\<close> of the storage:
  \<open>persistent w\<close> and \<open>commitPayload payload w\<close>, both arguments of the operations that use it.
\<close>

datatype CfgResult = CfgOk | ValidationFailed | CfgVolatile | CommitFailed | CfgRejected

fun cfgResultCode :: "CfgResult \<Rightarrow> u8" where
  "cfgResultCode CfgOk = 0" | "cfgResultCode ValidationFailed = 1" | "cfgResultCode CfgVolatile = 2"
| "cfgResultCode CommitFailed = 3" | "cfgResultCode CfgRejected = 4"

datatype CfgError = CfgErrNone | CfgErrBadRequest | CfgErrBadRange | CfgErrRejected

fun cfgErrorCode :: "CfgError \<Rightarrow> u8" where
  "cfgErrorCode CfgErrNone = 0" | "cfgErrorCode CfgErrBadRequest = 1" | "cfgErrorCode CfgErrBadRange = 2"
| "cfgErrorCode CfgErrRejected = 3"

definition kCfgBlockMax :: u16 where "kCfgBlockMax = 192"

definition isConfigMsg :: "u8 \<Rightarrow> bool" where
  "isConfigMsg mid \<longleftrightarrow> 0x20 \<le> mid \<and> mid \<le> 0x25"

record ConfigApi =
  ca_shadow :: RobotConfig
  ca_staging :: bytes
  ca_staging_len :: nat
  ca_shadow_rev :: u32
  ca_staging_allowed :: bool
  ca_apply_allowed :: bool

type_synonym 'w persist_commit = "bytes \<Rightarrow> 'w \<Rightarrow> bool \<times> 'w"

definition config_resetToDefaults :: "ConfigApi \<Rightarrow> ConfigApi" where
  "config_resetToDefaults s =
     (let payload = serializeRobotConfig defaultRobotConfig kConfigPayloadSize in
      s \<lparr> ca_shadow := defaultRobotConfig, ca_staging := payload, ca_staging_len := length payload,
          ca_shadow_rev := ca_shadow_rev s + 1 \<rparr>)"

definition ConfigApi_new :: ConfigApi where
  "ConfigApi_new = config_resetToDefaults
     \<lparr> ca_shadow = kZeroRobotConfig, ca_staging = replicate kConfigPayloadSize 0,
       ca_staging_len = kConfigPayloadSize, ca_shadow_rev = 0, ca_staging_allowed = False,
       ca_apply_allowed = False \<rparr>"

text \<open>\<open>decode_valid\<close>: deserialize and validate, as both callers do.\<close>

definition decode_valid :: "bytes \<Rightarrow> RobotConfig option" where
  "decode_valid payload =
     (case deserializeRobotConfig payload kZeroRobotConfig of
        Some (True, cfg) \<Rightarrow> if validateRobotConfig cfg then Some cfg else None
      | _ \<Rightarrow> None)"

definition adoptPayload :: "bytes \<Rightarrow> ConfigApi \<Rightarrow> bool \<times> ConfigApi" where
  "adoptPayload payload s =
     (case decode_valid payload of
        None \<Rightarrow> (False, s)
      | Some tmp \<Rightarrow>
          let staged = serializeRobotConfig tmp kConfigPayloadSize;
              s = s \<lparr> ca_shadow := tmp, ca_staging := staged, ca_staging_len := length staged \<rparr> in
          if ca_staging_len s \<noteq> kConfigPayloadSize then (False, s)
          else (True, s \<lparr> ca_shadow_rev := ca_shadow_rev s + 1 \<rparr>))"

definition stagedValid :: "ConfigApi \<Rightarrow> RobotConfig option" where
  "stagedValid s = decode_valid (take (ca_staging_len s) (ca_staging s))"

definition saveGaitDefaults ::
  "('w \<Rightarrow> bool) \<Rightarrow> 'w persist_commit \<Rightarrow> GaitDefaults \<Rightarrow> ConfigApi \<times> 'w \<Rightarrow> CfgResult \<times> ConfigApi \<times> 'w" where
  "saveGaitDefaults persistent commitPayload gait sw =
     (let (s, w) = sw;
          candidate = (ca_shadow s) \<lparr> cfg_gait := gait \<rparr> in
      if \<not> validateRobotConfig candidate then (ValidationFailed, s, w)
      else
        let payload = serializeRobotConfig candidate kConfigPayloadSize in
        if length payload \<noteq> kConfigPayloadSize then (ValidationFailed, s, w)
        else if \<not> persistent w then (CfgVolatile, s, w)
        else case commitPayload payload w of
            (False, w) \<Rightarrow> (CommitFailed, s, w)
          | (True, w) \<Rightarrow>
              let staged = serializeRobotConfig candidate kConfigPayloadSize in
              (CfgOk, s \<lparr> ca_shadow := candidate, ca_staging := staged, ca_staging_len := length staged,
                          ca_shadow_rev := ca_shadow_rev s + 1 \<rparr>, w))"

definition setMutationPolicy :: "bool \<Rightarrow> bool \<Rightarrow> ConfigApi \<Rightarrow> ConfigApi" where
  "setMutationPolicy staging apply s = s \<lparr> ca_staging_allowed := staging, ca_apply_allowed := apply \<rparr>"

definition ok_response :: "bytes \<Rightarrow> Response" where
  "ok_response bs = \<lparr> resp_bytes = bs, resp_flags = 0 \<rparr>"

definition config_summary :: "bool \<Rightarrow> ConfigApi \<Rightarrow> bytes" where
  "config_summary persistent s =
     (let staged_ok = (stagedValid s \<noteq> None);
          view = (case stagedValid s of Some c \<Rightarrow> c | None \<Rightarrow> ca_shadow s);
          flags = (if persistent then 0x01 else 0) OR (if staged_ok then 0x02 else 0)
      in put_u16 kSchemaVersion @ put_u16 (word_of_nat kConfigPayloadSize) @ put_u16 kCfgBlockMax
         @ [flags] @ put_u32 (feature_defaults view) @ take kRobotNameLen (robot_name view))"

definition config_handle ::
  "('w \<Rightarrow> bool) \<Rightarrow> 'w persist_commit \<Rightarrow> (ConfigApi \<times> 'w) handler" where
  "config_handle persistent commitPayload mid req cap sw =
     (let (s, w) = sw in
      if \<not> isConfigMsg mid then None
      else if mid = 0x20 then
        if cap < 27 then Some (ok_response [], s, w)
        else Some (ok_response (config_summary (persistent w) s), s, w)
      else if mid = 0x21 then
        if length req < 4 then Some (err_response (cfgErrorCode CfgErrBadRequest), s, w)
        else let offset = u16_at req 0; len = u16_at req 2 in
          if len = 0 \<or> len > kCfgBlockMax \<or> unat offset + unat len > ca_staging_len s \<or> unat len + 4 > cap
          then Some (err_response (cfgErrorCode CfgErrBadRange), s, w)
          else Some (ok_response (put_u16 offset @ put_u16 len
                       @ take (unat len) (drop (unat offset) (ca_staging s))), s, w)
      else if mid = 0x22 then
        if \<not> ca_staging_allowed s then Some (err_response (cfgErrorCode CfgErrRejected), s, w)
        else if length req < 4 then Some (err_response (cfgErrorCode CfgErrBadRequest), s, w)
        else let offset = u16_at req 0; len = u16_at req 2 in
          if len = 0 \<or> len > kCfgBlockMax \<or> unat offset + unat len > ca_staging_len s \<or>
             length req \<noteq> 4 + unat len
          then Some (err_response (cfgErrorCode CfgErrBadRange), s, w)
          else Some (ok_response (put_u16 offset @ put_u16 len),
                     s \<lparr> ca_staging := take (unat offset) (ca_staging s) @ take (unat len) (drop 4 req)
                           @ drop (unat offset + unat len) (ca_staging s) \<rparr>, w)
      else if mid = 0x23 then
        Some (ok_response [cfgResultCode (if stagedValid s \<noteq> None then CfgOk else ValidationFailed)], s, w)
      else if mid = 0x24 then
        if \<not> ca_apply_allowed s then Some (ok_response [cfgResultCode CfgRejected], s, w)
        else (case stagedValid s of
            None \<Rightarrow> Some (ok_response [cfgResultCode ValidationFailed], s, w)
          | Some tmp \<Rightarrow>
              if \<not> persistent w then Some (ok_response [cfgResultCode CfgVolatile], s, w)
              else (case commitPayload (take (ca_staging_len s) (ca_staging s)) w of
                  (False, w) \<Rightarrow> Some (ok_response [cfgResultCode CommitFailed], s, w)
                | (True, w) \<Rightarrow> Some (ok_response [cfgResultCode CfgOk],
                    s \<lparr> ca_shadow := tmp, ca_shadow_rev := ca_shadow_rev s + 1 \<rparr>, w)))
      else if mid = 0x25 then
        if \<not> ca_apply_allowed s then Some (ok_response [cfgResultCode CfgRejected], s, w)
        else Some (ok_response [cfgResultCode CfgOk], config_resetToDefaults s, w)
      else None)"

interpretation config_group: command_group "config_handle persistent commitPayload" isConfigMsg
  by unfold_locales
     (auto simp: config_handle_def ok_response_def err_response_def config_summary_def kRobotNameLen_def Let_def
       split: if_splits option.splits prod.splits bool.splits)

section \<open>Known-good configurations\<close>

definition config_good :: "RobotConfig \<Rightarrow> bool" where
  "config_good cfg \<longleftrightarrow> config_dims cfg \<and> validateRobotConfig cfg \<and> robot_name cfg ! (kRobotNameLen - 1) = 0"

lemma validate_version: "validateRobotConfig cfg \<Longrightarrow> schema_version cfg = kSchemaVersion"
  by (simp add: validateRobotConfig_def split: if_splits)

lemma good_serialize:
  assumes "config_good cfg"
  shows "length (serializeRobotConfig cfg kConfigPayloadSize) = kConfigPayloadSize"
    and "decode_valid (serializeRobotConfig cfg kConfigPayloadSize) = Some cfg"
proof -
  let ?p = "serializeRobotConfig cfg kConfigPayloadSize"
  have g: "config_dims cfg" "validateRobotConfig cfg" "robot_name cfg ! (kRobotNameLen - 1) = 0"
    using assms by (simp_all add: config_good_def)
  show "length ?p = kConfigPayloadSize"
    using put_fields_length [OF g(1)] serialize_eq [of kConfigPayloadSize cfg] by (simp add: config_sizes)
  show "decode_valid ?p = Some cfg"
    using deserialize_serialize [OF g(1) validate_version [OF g(2)] g(3) order_refl] g(2)
    by (simp add: decode_valid_def)
qed

lemma decode_valid_good: "decode_valid payload = Some cfg \<Longrightarrow> config_good cfg"
  using deserialize_good [of payload kZeroRobotConfig]
  by (auto simp: decode_valid_def config_good_def split: option.splits prod.splits bool.splits if_splits)

lemma default_good: "config_good defaultRobotConfig"
  using default_dims default_valid default_name_terminated by (simp add: config_good_def)

definition config_inv :: "ConfigApi \<Rightarrow> bool" where
  "config_inv s \<longleftrightarrow> config_good (ca_shadow s) \<and> length (ca_staging s) = kConfigPayloadSize \<and>
     ca_staging_len s = kConfigPayloadSize"

lemma config_inv_reset: "config_inv (config_resetToDefaults s)"
  using good_serialize(1) [OF default_good] default_good
  by (simp add: config_inv_def config_resetToDefaults_def Let_def)

lemma config_inv_adopt: "config_inv s \<Longrightarrow> config_inv (snd (adoptPayload payload s))"
  using decode_valid_good good_serialize(1)
  by (auto simp: config_inv_def adoptPayload_def Let_def split: option.splits)

lemma config_inv_saveGait:
  assumes "config_inv s"
  shows "config_inv (fst (snd (saveGaitDefaults persistent commit g (s, w))))"
proof -
  let ?c = "(ca_shadow s) \<lparr> cfg_gait := g \<rparr>"
  have "config_good ?c" if "validateRobotConfig ?c"
    using assms that by (simp add: config_inv_def config_good_def config_dims_def)
  then show ?thesis
    using assms good_serialize(1)
    by (auto simp: saveGaitDefaults_def config_inv_def Let_def split: prod.splits bool.splits)
qed

lemma config_inv_handle:
  assumes "config_inv s" and "config_handle persistent commit mid req cap (s, w) = Some (r, s', w')"
  shows "config_inv s'"
proof -
  have "config_good tmp" if "stagedValid s = Some tmp" for tmp
    using that decode_valid_good by (auto simp: stagedValid_def)
  then show ?thesis
    using assms config_inv_reset [of s]
    by (auto simp: config_handle_def config_inv_def Let_def
        split: if_splits option.splits prod.splits bool.splits)
qed

datatype config_op =
    CfgFrame u8 bytes nat | CfgPolicy bool bool | CfgAdopt bytes | CfgSaveGait GaitDefaults

fun config_step ::
  "('w \<Rightarrow> bool) \<Rightarrow> 'w persist_commit \<Rightarrow> config_op \<Rightarrow> ConfigApi \<times> 'w \<Rightarrow> ConfigApi \<times> 'w" where
  "config_step persistent commit (CfgFrame mid req cap) sw =
     (case config_handle persistent commit mid req cap sw of Some (r, sw') \<Rightarrow> sw' | None \<Rightarrow> sw)"
| "config_step persistent commit (CfgPolicy a b) sw = (setMutationPolicy a b (fst sw), snd sw)"
| "config_step persistent commit (CfgAdopt payload) sw = (snd (adoptPayload payload (fst sw)), snd sw)"
| "config_step persistent commit (CfgSaveGait g) sw = snd (saveGaitDefaults persistent commit g sw)"

lemma config_inv_step: "config_inv (fst sw) \<Longrightarrow> config_inv (fst (config_step persistent commit op sw))"
proof (cases op)
  case (CfgFrame mid req cap)
  assume "config_inv (fst sw)"
  then show ?thesis
    using config_inv_handle [of "fst sw" persistent commit mid req cap "snd sw"] CfgFrame
    by (auto split: option.splits)
next
  case (CfgSaveGait g)
  assume "config_inv (fst sw)"
  then show ?thesis using config_inv_saveGait [of "fst sw" persistent commit g "snd sw"] CfgSaveGait by simp
qed (auto simp: setMutationPolicy_def config_inv_def config_inv_adopt [unfolded config_inv_def])

lemma config_inv_run: "config_inv (fst sw) \<Longrightarrow> config_inv (fst (fold (config_step persistent commit) ops sw))"
  by (induction ops arbitrary: sw) (simp_all add: config_inv_step)

text \<open>
  C12: whatever command frames, policies, boot payloads and gait saves arrive, and whatever the storage
  does, the configuration the firmware runs on is always a validated one of the active schema with a
  terminated name, and the staging buffer keeps the size of a payload.
\<close>

theorem config_always_validated:
  "case fold (config_step persistent commit) ops (ConfigApi_new, w) of (s, w') \<Rightarrow>
     validateRobotConfig (ca_shadow s) \<and> config_dims (ca_shadow s) \<and> schema_version (ca_shadow s) = 9 \<and>
     robot_name (ca_shadow s) ! 15 = 0 \<and>
     length (ca_staging s) = kConfigPayloadSize \<and> ca_staging_len s = kConfigPayloadSize"
proof -
  have "config_inv (fst (fold (config_step persistent commit) ops (ConfigApi_new, w)))"
    by (rule config_inv_run) (simp add: ConfigApi_new_def config_inv_reset)
  then show ?thesis
    using validate_version
    by (auto simp: config_inv_def config_good_def kSchemaVersion_def kRobotNameLen_def case_prod_beta)
qed

text \<open>
  The mutation policy is enforced: without the apply permission no frame changes the running
  configuration, its revision or the storage; without the staging permission no frame changes the
  staging buffer, except a permitted reset; and neither permission can be gained through a frame.
\<close>

theorem config_policy_enforced:
  assumes "config_handle persistent commit mid req cap (s, w) = Some (r, s', w')"
  shows "(\<not> ca_apply_allowed s \<longrightarrow> ca_shadow s' = ca_shadow s \<and> ca_shadow_rev s' = ca_shadow_rev s \<and> w' = w) \<and>
         (\<not> ca_staging_allowed s \<longrightarrow> ca_staging s' = ca_staging s \<or> ca_apply_allowed s \<and> mid = 0x25) \<and>
         ca_apply_allowed s' = ca_apply_allowed s \<and> ca_staging_allowed s' = ca_staging_allowed s"
  using assms
  by (auto simp: config_handle_def config_resetToDefaults_def Let_def
      split: if_splits option.splits prod.splits bool.splits)

theorem config_policy_enforced_witness:
  "\<exists>r s'. config_handle (\<lambda>w. True) (\<lambda>p w. (True, w + 1)) 0x25 [] 256 (ConfigApi_new, 5 :: nat) = Some (r, s', 5) \<and>
     ca_shadow s' = ca_shadow ConfigApi_new \<and> ca_staging s' = ca_staging ConfigApi_new"
proof -
  have na: "\<not> ca_apply_allowed ConfigApi_new" "\<not> ca_staging_allowed ConfigApi_new"
    by (simp_all add: ConfigApi_new_def config_resetToDefaults_def Let_def)
  then obtain r s' w' where
    h: "config_handle (\<lambda>w. True) (\<lambda>p w. (True, w + 1)) 0x25 [] 256 (ConfigApi_new, 5 :: nat) = Some (r, s', w')"
    by (simp add: config_handle_def isConfigMsg_def Let_def)
  show ?thesis using config_policy_enforced [OF h] na h by auto
qed

text \<open>
  A successful commit is what the next boot adopts: whenever COMMIT or a gait save reports Ok,
  the storage accepted exactly one payload, and an API that adopts this payload after the next boot
  runs on the same configuration.
\<close>

theorem commit_survives_reboot:
  assumes "config_inv s"
  shows "(case config_handle persistent commit 0x24 req 256 (s, w) of
            Some (r, s', w') \<Rightarrow> resp_bytes r = [cfgResultCode CfgOk] \<longrightarrow>
              (let p = ca_staging s in
               commit p w = (True, w') \<and> fst (adoptPayload p ConfigApi_new) \<and>
               ca_shadow (snd (adoptPayload p ConfigApi_new)) = ca_shadow s')
          | None \<Rightarrow> False) \<and>
         (case saveGaitDefaults persistent commit g (s, w) of
            (r, s', w') \<Rightarrow> r = CfgOk \<longrightarrow>
              commit (ca_staging s') w = (True, w') \<and> fst (adoptPayload (ca_staging s') ConfigApi_new) \<and>
              ca_shadow (snd (adoptPayload (ca_staging s') ConfigApi_new)) = ca_shadow s' \<and>
              ca_shadow s' = (ca_shadow s) \<lparr> cfg_gait := g \<rparr>)"
proof -
  have adopt: "adoptPayload p t = (True, t \<lparr> ca_shadow := c, ca_staging := serializeRobotConfig c kConfigPayloadSize,
      ca_staging_len := kConfigPayloadSize, ca_shadow_rev := ca_shadow_rev t + 1 \<rparr>)"
    if "decode_valid p = Some c" for p c t
    using that good_serialize(1) [OF decode_valid_good [OF that]] by (simp add: adoptPayload_def Let_def)
  have full: "take (ca_staging_len s) (ca_staging s) = ca_staging s"
    using assms by (simp add: config_inv_def)
  let ?c = "(ca_shadow s) \<lparr> cfg_gait := g \<rparr>"
  have gait: "config_good ?c" if "validateRobotConfig ?c"
    using assms that by (simp add: config_inv_def config_good_def config_dims_def)
  show ?thesis
  proof (rule conjI)
    show "case config_handle persistent commit 0x24 req 256 (s, w) of
            Some (r, s', w') \<Rightarrow> resp_bytes r = [cfgResultCode CfgOk] \<longrightarrow>
              (let p = ca_staging s in
               commit p w = (True, w') \<and> fst (adoptPayload p ConfigApi_new) \<and>
               ca_shadow (snd (adoptPayload p ConfigApi_new)) = ca_shadow s')
          | None \<Rightarrow> False"
      using adopt full
      by (auto simp: config_handle_def isConfigMsg_def ok_response_def stagedValid_def Let_def
          split: option.splits prod.splits bool.splits)
    show "case saveGaitDefaults persistent commit g (s, w) of
            (r, s', w') \<Rightarrow> r = CfgOk \<longrightarrow>
              commit (ca_staging s') w = (True, w') \<and> fst (adoptPayload (ca_staging s') ConfigApi_new) \<and>
              ca_shadow (snd (adoptPayload (ca_staging s') ConfigApi_new)) = ca_shadow s' \<and>
              ca_shadow s' = ?c"
      using adopt gait good_serialize
      by (auto simp: saveGaitDefaults_def Let_def split: prod.splits bool.splits)
  qed
qed

theorem commit_survives_reboot_witness:
  "let s = setMutationPolicy True True ConfigApi_new;
       commit = (\<lambda>p w. (True, p # w)) in
   case config_handle (\<lambda>w. True) commit 0x24 [] 256 (s, []) of
     Some (r, s', w') \<Rightarrow> resp_bytes r = [0] \<and> w' = [ca_staging s] \<and>
       ca_shadow (snd (adoptPayload (ca_staging s) ConfigApi_new)) = ca_shadow s'
   | None \<Rightarrow> False"
proof -
  let ?s = "setMutationPolicy True True ConfigApi_new"
  have inv: "config_inv ?s"
    using config_inv_reset by (simp add: setMutationPolicy_def ConfigApi_new_def config_inv_def)
  have st: "ca_staging ?s = serializeRobotConfig defaultRobotConfig kConfigPayloadSize"
    by (simp add: setMutationPolicy_def ConfigApi_new_def config_resetToDefaults_def Let_def)
  have "stagedValid ?s = Some defaultRobotConfig"
    using inv good_serialize(2) [OF default_good] by (simp add: stagedValid_def st config_inv_def)
  then show ?thesis
    using commit_survives_reboot [OF inv, where persistent = "\<lambda>w. True" and commit = "\<lambda>p w. (True, p # w)" and
        req = "[]" and w = "[]"] inv
    by (auto simp: config_handle_def isConfigMsg_def setMutationPolicy_def ok_response_def config_inv_def Let_def)
qed

end
