(* ===== verification/FeatureApi.thy ===== *)
theory FeatureApi
  imports ApiResponse ConfigSchema
begin

text \<open>
  Runtime feature flags (\<open>protocol/feature_api.h\<close>, \<open>protocol/feature_api.cpp\<close>): the host's
  desired set, the availability published by the control task, and the FEATURE commands.
\<close>

datatype Feature = FootContact | TerrainLeveling | SensorPolling | JetsonControl | PassivePose

fun featureIndex :: "Feature \<Rightarrow> nat" where
  "featureIndex FootContact = 0" | "featureIndex TerrainLeveling = 1" | "featureIndex SensorPolling = 2"
| "featureIndex JetsonControl = 3" | "featureIndex PassivePose = 4"

definition kFeatureCount :: nat where "kFeatureCount = 5"

datatype FeatureReason =
    ReasonNone | HardwareMissing | NotCalibrated | UnsafeState | StaleData | DependencyOff | NotImplemented

fun featureReasonCode :: "FeatureReason \<Rightarrow> u8" where
  "featureReasonCode ReasonNone = 0" | "featureReasonCode HardwareMissing = 1"
| "featureReasonCode NotCalibrated = 2" | "featureReasonCode UnsafeState = 3"
| "featureReasonCode StaleData = 4" | "featureReasonCode DependencyOff = 5"
| "featureReasonCode NotImplemented = 6"

datatype FeatureResult = FeatureOk | FeatureRejected | FeatureBadRequest

fun featureResultCode :: "FeatureResult \<Rightarrow> u8" where
  "featureResultCode FeatureOk = 0" | "featureResultCode FeatureRejected = 1"
| "featureResultCode FeatureBadRequest = 2"

definition isFeatureMsg :: "u8 \<Rightarrow> bool" where
  "isFeatureMsg mid \<longleftrightarrow> 0x39 \<le> mid \<and> mid \<le> 0x3C"

definition kFeatureDefaultEnabled :: "bool list" where
  "kFeatureDefaultEnabled = [False, False, True, False, False]"

record FeatureState =
  fs_desired :: bool
  fs_available :: bool
  fs_reason :: FeatureReason

record FeatureApi =
  ft_state :: "FeatureState list"
  ft_live_state :: u8
  ft_seq :: u32

definition feature_reset :: "FeatureApi \<Rightarrow> FeatureApi" where
  "feature_reset s =
     \<lparr> ft_state = map (\<lambda>d. \<lparr> fs_desired = d, fs_available = False, fs_reason = NotImplemented \<rparr>) kFeatureDefaultEnabled,
       ft_live_state = 0, ft_seq = 0 \<rparr>"

text \<open>Set the desired flags from a list of wanted values and count the change once.\<close>

definition set_desired :: "bool list \<Rightarrow> FeatureApi \<Rightarrow> FeatureApi" where
  "set_desired want s =
     (let changed = (map fs_desired (ft_state s) \<noteq> want) in
      s \<lparr> ft_state := map2 (\<lambda>e w. e \<lparr> fs_desired := w \<rparr>) (ft_state s) want,
          ft_seq := (if changed then ft_seq s + 1 else ft_seq s) \<rparr>)"

definition feature_applyDefaults :: "u32 \<Rightarrow> FeatureApi \<Rightarrow> FeatureApi" where
  "feature_applyDefaults msk = set_desired (map (\<lambda>i. drop_bit i msk AND 1 \<noteq> 0) [0..<kFeatureCount])"

definition setAvailability :: "Feature \<Rightarrow> bool \<Rightarrow> FeatureReason \<Rightarrow> FeatureApi \<Rightarrow> FeatureApi" where
  "setAvailability f avail reason s =
     (let i = featureIndex f in
      s \<lparr> ft_state := (ft_state s)[i := (ft_state s ! i) \<lparr> fs_available := avail, fs_reason := reason \<rparr>] \<rparr>)"

definition feature_setLiveState :: "u8 \<Rightarrow> FeatureApi \<Rightarrow> FeatureApi" where
  "feature_setLiveState st s = s \<lparr> ft_live_state := st \<rparr>"

definition desiredEnabled :: "Feature \<Rightarrow> FeatureApi \<Rightarrow> bool" where
  "desiredEnabled f s = fs_desired (ft_state s ! featureIndex f)"

definition effectiveEnabled :: "Feature \<Rightarrow> FeatureApi \<Rightarrow> bool" where
  "effectiveEnabled f s \<longleftrightarrow> fs_desired (ft_state s ! featureIndex f) \<and> fs_available (ft_state s ! featureIndex f)"

definition availableMask :: "FeatureApi \<Rightarrow> u32" where
  "availableMask s = fold (\<lambda>i msk. if fs_available (ft_state s ! i) then msk OR push_bit i 1 else msk)
     [0..<kFeatureCount] 0"

record FeatureApplyResult =
  ar_result :: FeatureResult
  ar_feature :: nat
  ar_available :: bool
  ar_enabled :: bool
  ar_reason :: FeatureReason

definition applyDesired :: "nat \<Rightarrow> bool \<Rightarrow> FeatureApi \<Rightarrow> FeatureApplyResult \<times> FeatureApi" where
  "applyDesired i enable s =
     (if i \<ge> kFeatureCount
      then (\<lparr> ar_result = FeatureBadRequest, ar_feature = i, ar_available = False, ar_enabled = False,
              ar_reason = ReasonNone \<rparr>, s)
      else
        let e = ft_state s ! i;
            reject = (enable \<and> \<not> fs_available e);
            s' = (if reject then s
                  else s \<lparr> ft_seq := (if fs_desired e \<noteq> enable then ft_seq s + 1 else ft_seq s),
                           ft_state := (ft_state s)[i := e \<lparr> fs_desired := enable \<rparr>] \<rparr>);
            e' = ft_state s' ! i
        in (\<lparr> ar_result = (if reject then FeatureRejected else FeatureOk), ar_feature = i,
              ar_available = fs_available e', ar_enabled = (fs_desired e' \<and> fs_available e'),
              ar_reason = fs_reason e' \<rparr>, s'))"

definition bool_byte :: "bool \<Rightarrow> u8" where
  "bool_byte b = (if b then 1 else 0)"

definition writeFullState :: "FeatureApi \<Rightarrow> bytes" where
  "writeFullState s = concat (map (\<lambda>i. let e = ft_state s ! i in
     [word_of_nat i, bool_byte (fs_available e), bool_byte (fs_desired e \<and> fs_available e),
      featureReasonCode (fs_reason e)]) [0..<kFeatureCount])"

definition feature_handle :: "FeatureApi handler" where
  "feature_handle mid req cap s =
     (if \<not> isFeatureMsg mid then None
      else if mid = 0x39 then
        if cap < 2 + 4 * kFeatureCount then Some (err_response (featureResultCode FeatureBadRequest), s)
        else Some (\<lparr> resp_bytes = [ft_live_state s, word_of_nat kFeatureCount] @ writeFullState s,
                     resp_flags = 0 \<rparr>, s)
      else if mid = 0x3A then
        if length req < 2 then Some (err_response (featureResultCode FeatureBadRequest), s)
        else let fid = unat (req ! 0); enable = (req ! 1 \<noteq> 0) in
          if \<not> fid < kFeatureCount then Some (err_response (featureResultCode FeatureBadRequest), s)
          else let (r, s') = applyDesired fid enable s in
            Some (\<lparr> resp_bytes = [featureResultCode (ar_result r), ft_live_state s', word_of_nat (ar_feature r),
                       bool_byte (ar_available r), bool_byte (ar_enabled r), featureReasonCode (ar_reason r)],
                    resp_flags = 0 \<rparr>, s')
      else if mid = 0x3B then
        if cap < 2 + 2 * kFeatureCount then Some (err_response (featureResultCode FeatureBadRequest), s)
        else Some (\<lparr> resp_bytes = [ft_live_state s, word_of_nat kFeatureCount]
                       @ concat (map (\<lambda>i. [word_of_nat i, featureReasonCode (fs_reason (ft_state s ! i))])
                           [0..<kFeatureCount]),
                     resp_flags = 0 \<rparr>, s)
      else if mid = 0x3C then
        if cap < 3 + 4 * kFeatureCount then Some (err_response (featureResultCode FeatureBadRequest), s)
        else let s' = set_desired kFeatureDefaultEnabled s in
          Some (\<lparr> resp_bytes = [featureResultCode FeatureOk, ft_live_state s', word_of_nat kFeatureCount]
                    @ writeFullState s', resp_flags = 0 \<rparr>, s')
      else None)"

lemma writeFullState_length: "length (writeFullState s) = 4 * kFeatureCount"
  by (simp add: writeFullState_def kFeatureCount_def upt_conv_Cons Let_def)

interpretation feature_group: command_group feature_handle isFeatureMsg
  by unfold_locales
     (auto simp: feature_handle_def err_response_def writeFullState_length kFeatureCount_def upt_conv_Cons Let_def
       split: if_splits prod.splits)

section \<open>Behaviour\<close>

definition feature_inv :: "FeatureApi \<Rightarrow> bool" where
  "feature_inv s \<longleftrightarrow> length (ft_state s) = kFeatureCount"

datatype feature_op =
    FtFrame u8 bytes nat | FtAvail Feature bool FeatureReason | FtLive u8 | FtDefaults u32 | FtApply nat bool

fun feature_step :: "feature_op \<Rightarrow> FeatureApi \<Rightarrow> FeatureApi" where
  "feature_step (FtFrame mid req cap) s =
     (case feature_handle mid req cap s of Some (r, s') \<Rightarrow> s' | None \<Rightarrow> s)"
| "feature_step (FtAvail f a r) s = setAvailability f a r s"
| "feature_step (FtLive st) s = feature_setLiveState st s"
| "feature_step (FtDefaults msk) s = feature_applyDefaults msk s"
| "feature_step (FtApply i b) s = snd (applyDesired i b s)"

lemma applyDesired_inv: "feature_inv s \<Longrightarrow> feature_inv (snd (applyDesired i b s))"
  by (simp add: feature_inv_def applyDesired_def Let_def)

lemma set_desired_inv: "feature_inv s \<Longrightarrow> length want = kFeatureCount \<Longrightarrow> feature_inv (set_desired want s)"
  by (simp add: feature_inv_def set_desired_def Let_def)

lemma feature_inv_step: "feature_inv s \<Longrightarrow> feature_inv (feature_step op s)"
proof (cases op)
  case (FtFrame mid req cap)
  assume "feature_inv s"
  then show ?thesis
    using FtFrame applyDesired_inv set_desired_inv
    by (auto simp: feature_handle_def kFeatureDefaultEnabled_def kFeatureCount_def Let_def
        split: if_splits prod.splits) (metis snd_conv)
qed (auto simp: applyDesired_inv setAvailability_def feature_setLiveState_def feature_applyDefaults_def
      set_desired_inv feature_inv_def [symmetric] Let_def, auto simp: feature_inv_def)

lemma feature_inv_run: "feature_inv s \<Longrightarrow> feature_inv (fold feature_step ops s)"
  by (induction ops arbitrary: s) (simp_all add: feature_inv_step)

lemma feature_inv_reset: "feature_inv (feature_reset s)"
  by (simp add: feature_inv_def feature_reset_def kFeatureDefaultEnabled_def kFeatureCount_def)

lemma featureIndex_less: "featureIndex f < kFeatureCount"
  by (cases f) (simp_all add: kFeatureCount_def)

text \<open>
  FEATURE_SET never forces a feature on: in every state reachable from reset, a request to enable
  an unavailable feature is rejected with its reason and changes nothing, while any other request sets
  exactly the addressed flag, leaves the other features alone, reports the effective value (desired and
  available) and bumps the sequence counter exactly when the flag changes.
\<close>

theorem feature_set_gated:
  assumes "s = fold feature_step ops (feature_reset s0)" and "unat fid < 5" and "e = ft_state s ! unat fid"
  shows "case feature_handle 0x3A [fid, en] 256 s of
           Some (r, s') \<Rightarrow>
             (if en \<noteq> 0 \<and> \<not> fs_available e
              then s' = s \<and> resp_bytes r = [1, ft_live_state s, fid, 0, 0, featureReasonCode (fs_reason e)]
              else ft_state s' = (ft_state s)[unat fid := e \<lparr> fs_desired := (en \<noteq> 0) \<rparr>] \<and>
                   resp_bytes r = [0, ft_live_state s, fid, bool_byte (fs_available e),
                                   bool_byte (en \<noteq> 0 \<and> fs_available e), featureReasonCode (fs_reason e)] \<and>
                   ft_seq s' = (if fs_desired e = (en \<noteq> 0) then ft_seq s else ft_seq s + 1))
         | None \<Rightarrow> False"
proof -
  have "feature_inv s" using assms(1) feature_inv_run feature_inv_reset by blast
  then have len: "unat fid < length (ft_state s)" "unat fid < kFeatureCount"
    using assms(2) by (simp_all add: feature_inv_def kFeatureCount_def)
  then show ?thesis
    using assms(3)
    by (auto simp: feature_handle_def isFeatureMsg_def applyDesired_def bool_byte_def Let_def)
qed

definition feature_sample :: FeatureApi where
  "feature_sample = feature_reset \<lparr> ft_state = [], ft_live_state = 0, ft_seq = 0 \<rparr>"

theorem feature_set_gated_witness:
  "case feature_handle 0x3A [3, 1] 256 feature_sample of
     Some (r, s') \<Rightarrow> s' = feature_sample \<and> resp_bytes r = [1, 0, 3, 0, 0, 6]
   | None \<Rightarrow> False"
proof -
  have e: "unat (3 :: u8) < 5" "fs_available (ft_state feature_sample ! unat (3 :: u8)) = False"
    "fs_reason (ft_state feature_sample ! unat (3 :: u8)) = NotImplemented" "ft_live_state feature_sample = 0"
    by code_simp+
  have "feature_sample = fold feature_step [] (feature_reset \<lparr> ft_state = [], ft_live_state = 0, ft_seq = 0 \<rparr>)"
    by (simp add: feature_sample_def)
  from feature_set_gated [OF this e(1) refl, of 1] show ?thesis
    unfolding e(2,3,4) by (auto split: option.splits)
qed

text \<open>
  C37: the persisted feature defaults and the runtime features disagree on two bits. A configuration
  that asks for passive pose streaming by the schema's own bit enables Jetson control at run time
  instead, and the schema's Jetson bit enables passive pose streaming.
\<close>

theorem feature_bits_swapped:
  "desiredEnabled JetsonControl (feature_applyDefaults kFeatPassivePoseStream (feature_reset s)) \<and>
   \<not> desiredEnabled PassivePose (feature_applyDefaults kFeatPassivePoseStream (feature_reset s)) \<and>
   desiredEnabled PassivePose (feature_applyDefaults kFeatJetsonControl (feature_reset s)) \<and>
   \<not> desiredEnabled JetsonControl (feature_applyDefaults kFeatJetsonControl (feature_reset s)) \<and>
   desiredEnabled SensorPolling (feature_applyDefaults kFeatSensorPolling (feature_reset s))"
proof -
  have des: "map fs_desired (ft_state (feature_applyDefaults m (feature_reset s))) =
          map (\<lambda>i. drop_bit i m AND 1 \<noteq> 0) [0..<kFeatureCount]" for m
    by (simp add: feature_applyDefaults_def set_desired_def feature_reset_def kFeatureDefaultEnabled_def
        kFeatureCount_def upt_conv_Cons Let_def)
  have "desiredEnabled f (feature_applyDefaults m (feature_reset s)) = (drop_bit (featureIndex f) m AND 1 \<noteq> 0)"
    for f m
  proof -
    let ?t = "feature_applyDefaults m (feature_reset s)"
    have "length (map fs_desired (ft_state ?t)) = kFeatureCount" unfolding des by simp
    then have "desiredEnabled f ?t = map fs_desired (ft_state ?t) ! featureIndex f"
      using featureIndex_less [of f] by (simp add: desiredEnabled_def)
    then show ?thesis unfolding des using featureIndex_less [of f] by simp
  qed
  then show ?thesis
    by (simp add: kFeatPassivePoseStream_def kFeatJetsonControl_def kFeatSensorPolling_def)
qed

end
