(* ===== verification/DxlJobApi.thy ===== *)
theory DxlJobApi
  imports ApiResponse
begin

text \<open>
  The DYNAMIXEL maintenance commands (\<open>protocol/dxl_job_api.h\<close>, \<open>protocol/dxl_job_api.cpp\<close>): a
  single-slot queue between the API task, which submits jobs and polls results, and the bus task, which
  claims and completes them; and the command group that gates and parses submissions.
\<close>

datatype JobType =
    JobNone | JobScan | JobPing | JobTorque | JobGetProfile | JobGetParam | JobSetParam | JobSetLimits
  | JobReadReg | JobWriteReg | JobPower

datatype Slot = SlotEmpty | SlotPending | SlotRunning | SlotDone

fun slotCode :: "Slot \<Rightarrow> u8" where
  "slotCode SlotEmpty = 0" | "slotCode SlotPending = 1" | "slotCode SlotRunning = 2" | "slotCode SlotDone = 3"

datatype JobCode =
    CodeOk | CodeNotFound | CodePowerOff | CodeBusError | CodeUnsupported | CodeVerifyFailed | CodeOutputDisabled

fun jobCode :: "JobCode \<Rightarrow> u8" where
  "jobCode CodeOk = 0" | "jobCode CodeNotFound = 1" | "jobCode CodePowerOff = 2" | "jobCode CodeBusError = 3"
| "jobCode CodeUnsupported = 4" | "jobCode CodeVerifyFailed = 5" | "jobCode CodeOutputDisabled = 6"

definition kMaxResult :: nat where "kMaxResult = 160"

record DxlJobRequest =
  jr_type :: JobType
  jr_arg0 :: u8
  jr_arg1 :: u8
  jr_param :: u8
  jr_val_a :: u32
  jr_val_b :: u32

definition DxlJobRequest_default :: DxlJobRequest where
  "DxlJobRequest_default = \<lparr> jr_type = JobNone, jr_arg0 = 0, jr_arg1 = 0, jr_param = 0, jr_val_a = 0, jr_val_b = 0 \<rparr>"

text \<open>A result: its code and the \<open>len\<close> valid bytes of the data array.\<close>

record DxlJobResult =
  jres_code :: JobCode
  jres_data :: bytes

definition DxlJobResult_default :: DxlJobResult where
  "DxlJobResult_default = \<lparr> jres_code = CodeOk, jres_data = [] \<rparr>"

record DxlJobQueue =
  dq_slot :: Slot
  dq_job_id :: u8
  dq_next_id :: u8
  dq_req :: DxlJobRequest
  dq_result :: DxlJobResult

definition dxlq_reset :: "DxlJobQueue \<Rightarrow> DxlJobQueue" where
  "dxlq_reset q = \<lparr> dq_slot = SlotEmpty, dq_job_id = 0, dq_next_id = 0, dq_req = DxlJobRequest_default,
                    dq_result = DxlJobResult_default \<rparr>"

definition nextJobId :: "u8 \<Rightarrow> u8" where
  "nextJobId n = (let n = n + 1 in if n = 0 then 1 else n)"

definition dxlq_submit :: "DxlJobRequest \<Rightarrow> DxlJobQueue \<Rightarrow> u8 option \<times> DxlJobQueue" where
  "dxlq_submit req q =
     (if dq_slot q \<noteq> SlotEmpty \<and> dq_slot q \<noteq> SlotDone then (None, q)
      else let n = nextJobId (dq_next_id q) in
        (Some n, q \<lparr> dq_req := req, dq_next_id := n, dq_job_id := n, dq_slot := SlotPending \<rparr>))"

definition dxlq_poll :: "u8 \<Rightarrow> DxlJobQueue \<Rightarrow> Slot \<times> DxlJobResult option" where
  "dxlq_poll job_id q =
     (if job_id = 0 \<or> job_id \<noteq> dq_job_id q then (SlotEmpty, None)
      else (dq_slot q, if dq_slot q = SlotDone then Some (dq_result q) else None))"

definition dxlq_claim :: "DxlJobQueue \<Rightarrow> (u8 \<times> DxlJobRequest) option \<times> DxlJobQueue" where
  "dxlq_claim q =
     (if dq_slot q \<noteq> SlotPending then (None, q)
      else (Some (dq_job_id q, dq_req q), q \<lparr> dq_slot := SlotRunning \<rparr>))"

text \<open>The data pointer and length are a byte list; a null pointer with a length stands for zeros.\<close>

definition dxlq_complete :: "u8 \<Rightarrow> JobCode \<Rightarrow> bytes \<Rightarrow> DxlJobQueue \<Rightarrow> DxlJobQueue" where
  "dxlq_complete job_id code data q =
     (if dq_slot q \<noteq> SlotRunning \<or> job_id \<noteq> dq_job_id q then q
      else q \<lparr> dq_result := \<lparr> jres_code = code, jres_data = take kMaxResult data \<rparr>, dq_slot := SlotDone \<rparr>)"

datatype DxlSubmit = SubAccepted | SubRejected | SubBusy | SubBadRequest

fun dxlSubmitCode :: "DxlSubmit \<Rightarrow> u8" where
  "dxlSubmitCode SubAccepted = 0" | "dxlSubmitCode SubRejected = 1" | "dxlSubmitCode SubBusy = 2"
| "dxlSubmitCode SubBadRequest = 3"

definition isDxlMsg :: "u8 \<Rightarrow> bool" where
  "isDxlMsg mid \<longleftrightarrow> 0x60 \<le> mid \<and> mid \<le> 0x6F"

record DxlJobApi =
  dj_queue :: DxlJobQueue
  dj_live_state :: u8
  dj_lock_held :: bool
  dj_raw_register_enabled :: bool

definition dxlapi_reset :: "DxlJobApi \<Rightarrow> DxlJobApi" where
  "dxlapi_reset s = \<lparr> dj_queue = dxlq_reset (dj_queue s), dj_live_state = 0, dj_lock_held = False,
                      dj_raw_register_enabled = False \<rparr>"

definition dxlapi_setLiveState :: "u8 \<Rightarrow> bool \<Rightarrow> DxlJobApi \<Rightarrow> DxlJobApi" where
  "dxlapi_setLiveState st lock s = s \<lparr> dj_live_state := st, dj_lock_held := lock \<rparr>"

definition setRawRegisterEnabled :: "bool \<Rightarrow> DxlJobApi \<Rightarrow> DxlJobApi" where
  "setRawRegisterEnabled b s = s \<lparr> dj_raw_register_enabled := b \<rparr>"

definition gateOpen :: "DxlJobApi \<Rightarrow> bool" where
  "gateOpen s \<longleftrightarrow> dj_lock_held s \<and> dj_live_state s = 8"

definition writeSubmit :: "DxlSubmit \<Rightarrow> u8 \<Rightarrow> Slot \<Rightarrow> nat \<Rightarrow> Response" where
  "writeSubmit r job_id slot cap =
     (if cap < 3 then err_response (dxlSubmitCode SubBadRequest)
      else \<lparr> resp_bytes = [dxlSubmitCode r, job_id, slotCode slot],
             resp_flags = (if r = SubAccepted then 0 else kErrorFlag) \<rparr>)"

text \<open>The parser of the submit commands: \<open>None\<close> is an unassigned id of the block, \<open>Inl\<close> an
  immediate answer, \<open>Inr\<close> the job to submit.\<close>

definition parse_job :: "u8 \<Rightarrow> bytes \<Rightarrow> bool \<Rightarrow> (DxlSubmit + DxlJobRequest) option" where
  "parse_job mid req raw_enabled =
     (let job = DxlJobRequest_default; bad = Some (Inl SubBadRequest) in
      if mid = 0x60 then
        let (first, last) = (if length req \<ge> 2 then (req ! 0, req ! 1)
                             else if length req = 1 then (req ! 0, req ! 0) else (1, 252)) in
        if first = 0 \<or> last < first then bad
        else Some (Inr (job \<lparr> jr_type := JobScan, jr_arg0 := first, jr_arg1 := last \<rparr>))
      else if mid = 0x61 then
        if length req < 1 \<or> req ! 0 = 0 then bad
        else Some (Inr (job \<lparr> jr_type := JobPing, jr_arg0 := req ! 0 \<rparr>))
      else if mid = 0x62 then
        if length req < 1 then bad
        else Some (Inr (job \<lparr> jr_type := JobTorque, jr_arg0 := (if req ! 0 \<noteq> 0 then 1 else 0) \<rparr>))
      else if mid = 0x63 then
        if length req < 1 \<or> req ! 0 = 0 then bad
        else Some (Inr (job \<lparr> jr_type := JobGetProfile, jr_arg0 := req ! 0 \<rparr>))
      else if mid = 0x65 then
        if length req < 2 \<or> req ! 0 = 0 then bad
        else Some (Inr (job \<lparr> jr_type := JobGetParam, jr_arg0 := req ! 0, jr_param := req ! 1 \<rparr>))
      else if mid = 0x66 then
        if length req < 6 \<or> req ! 0 = 0 then bad
        else Some (Inr (job \<lparr> jr_type := JobSetParam, jr_arg0 := req ! 0, jr_param := req ! 1,
                              jr_val_a := u32_at req 2 \<rparr>))
      else if mid = 0x67 then
        if length req < 9 \<or> req ! 0 = 0 then bad
        else let lo = u32_at req 1; hi = u32_at req 5 in
          if sint hi < sint lo then bad
          else Some (Inr (job \<lparr> jr_type := JobSetLimits, jr_arg0 := req ! 0, jr_val_a := lo, jr_val_b := hi \<rparr>))
      else if mid = 0x68 then
        if \<not> raw_enabled then Some (Inl SubRejected)
        else if length req < 4 \<or> req ! 0 = 0 then bad
        else let len = req ! 3 in
          if len \<noteq> 1 \<and> len \<noteq> 2 \<and> len \<noteq> 4 then bad
          else Some (Inr (job \<lparr> jr_type := JobReadReg, jr_arg0 := req ! 0, jr_val_a := ucast (u16_at req 1),
                                jr_param := len \<rparr>))
      else if mid = 0x69 then
        if \<not> raw_enabled then Some (Inl SubRejected)
        else if length req < 9 \<or> req ! 0 = 0 then bad
        else let len = req ! 3 in
          if len \<noteq> 1 \<and> len \<noteq> 2 \<and> len \<noteq> 4 then bad
          else Some (Inr (job \<lparr> jr_type := JobWriteReg, jr_arg0 := req ! 0, jr_val_a := ucast (u16_at req 1),
                                jr_param := len, jr_val_b := u32_at req 4, jr_arg1 := req ! 8 \<rparr>))
      else if mid = 0x6A then
        if length req < 1 then bad
        else Some (Inr (job \<lparr> jr_type := JobPower, jr_arg0 := (if req ! 0 \<noteq> 0 then 1 else 0) \<rparr>))
      else None)"

definition dxl_getResult :: "bytes \<Rightarrow> nat \<Rightarrow> DxlJobQueue \<Rightarrow> Response" where
  "dxl_getResult req cap q =
     (if length req < 1
      then \<lparr> resp_bytes = [slotCode SlotEmpty, jobCode CodeOk, 0], resp_flags = kErrorFlag \<rparr>
      else case dxlq_poll (req ! 0) q of
          (s, Some res) \<Rightarrow>
            let n = min (length (jres_data res)) (if cap > 3 then cap - 3 else 0) in
            \<lparr> resp_bytes = [slotCode s, jobCode (jres_code res), word_of_nat n] @ take n (jres_data res),
              resp_flags = 0 \<rparr>
        | (s, None) \<Rightarrow> \<lparr> resp_bytes = [slotCode s, jobCode CodeOk, 0], resp_flags = 0 \<rparr>)"

definition dxl_handle :: "DxlJobApi handler" where
  "dxl_handle mid req cap s =
     (if \<not> isDxlMsg mid then None
      else if mid = 0x64 then Some (dxl_getResult req cap (dj_queue s), s)
      else if \<not> gateOpen s then Some (writeSubmit SubRejected 0 SlotEmpty cap, s)
      else case parse_job mid req (dj_raw_register_enabled s) of
          None \<Rightarrow> None
        | Some (Inl r) \<Rightarrow> Some (writeSubmit r 0 SlotEmpty cap, s)
        | Some (Inr job) \<Rightarrow>
            (case dxlq_submit job (dj_queue s) of
               (None, q) \<Rightarrow> Some (writeSubmit SubBusy 0 (dq_slot q) cap, s \<lparr> dj_queue := q \<rparr>)
             | (Some job_id, q) \<Rightarrow> Some (writeSubmit SubAccepted job_id SlotPending cap, s \<lparr> dj_queue := q \<rparr>)))"

interpretation dxl_group: command_group dxl_handle isDxlMsg
  by unfold_locales
     (auto simp: dxl_handle_def dxl_getResult_def writeSubmit_def err_response_def Let_def
       split: if_splits option.splits sum.splits prod.splits)

section \<open>The queue as a mailbox\<close>

text \<open>
  The specification: a mailbox is empty, or holds a submitted job, a job being executed, or a finished
  job with its result; nothing else is remembered but the last id given out.
\<close>

datatype mailbox =
    MbEmpty
  | MbSubmitted u8 DxlJobRequest
  | MbExecuting u8 DxlJobRequest
  | MbFinished u8 DxlJobRequest DxlJobResult

fun mb_free :: "mailbox \<Rightarrow> bool" where
  "mb_free MbEmpty = True" | "mb_free (MbFinished j r x) = True" | "mb_free _ = False"

definition dxlq_abs :: "DxlJobQueue \<Rightarrow> mailbox" where
  "dxlq_abs q = (case dq_slot q of
      SlotEmpty \<Rightarrow> MbEmpty
    | SlotPending \<Rightarrow> MbSubmitted (dq_job_id q) (dq_req q)
    | SlotRunning \<Rightarrow> MbExecuting (dq_job_id q) (dq_req q)
    | SlotDone \<Rightarrow> MbFinished (dq_job_id q) (dq_req q) (dq_result q))"

text \<open>The operations of the two tasks on the queue, in any interleaving.\<close>

datatype dxlq_op = DqSubmit DxlJobRequest | DqClaim | DqComplete u8 JobCode bytes

fun dxlq_step :: "dxlq_op \<Rightarrow> DxlJobQueue \<Rightarrow> DxlJobQueue" where
  "dxlq_step (DqSubmit r) q = snd (dxlq_submit r q)"
| "dxlq_step DqClaim q = snd (dxlq_claim q)"
| "dxlq_step (DqComplete j c d) q = dxlq_complete j c d q"

text \<open>Mailbox steps, with the id of a new job as an argument.\<close>

fun mb_step :: "u8 \<Rightarrow> dxlq_op \<Rightarrow> mailbox \<Rightarrow> mailbox" where
  "mb_step new (DqSubmit r) m = (if mb_free m then MbSubmitted new r else m)"
| "mb_step new DqClaim (MbSubmitted j r) = MbExecuting j r"
| "mb_step new DqClaim m = m"
| "mb_step new (DqComplete i c d) (MbExecuting j r) =
     (if i = j then MbFinished j r \<lparr> jres_code = c, jres_data = take 160 d \<rparr> else MbExecuting j r)"
| "mb_step new (DqComplete i c d) m = m"

lemma dxlq_refines: "dxlq_abs (dxlq_step op q) = mb_step (nextJobId (dq_next_id q)) op (dxlq_abs q)"
  by (cases op; cases "dq_slot q")
     (auto simp: dxlq_abs_def dxlq_submit_def dxlq_claim_def dxlq_complete_def kMaxResult_def Let_def)

lemma nextJobId_nonzero: "nextJobId n \<noteq> 0"
  by (simp add: nextJobId_def Let_def)

definition dxlq_inv :: "DxlJobQueue \<Rightarrow> bool" where
  "dxlq_inv q \<longleftrightarrow> (dq_slot q \<noteq> SlotEmpty \<longrightarrow> dq_job_id q \<noteq> 0) \<and> length (jres_data (dq_result q)) \<le> kMaxResult"

lemma dxlq_inv_step: "dxlq_inv q \<Longrightarrow> dxlq_inv (dxlq_step op q)"
  using nextJobId_nonzero
  by (cases op) (auto simp: dxlq_inv_def dxlq_submit_def dxlq_claim_def dxlq_complete_def Let_def)

section \<open>Gate\<close>

text \<open>What the executor may rely on in a job it claims.\<close>

definition job_valid :: "bool \<Rightarrow> DxlJobRequest \<Rightarrow> bool" where
  "job_valid raw_enabled r = (case jr_type r of
      JobNone \<Rightarrow> False
    | JobScan \<Rightarrow> jr_arg0 r \<noteq> 0 \<and> jr_arg0 r \<le> jr_arg1 r
    | JobTorque \<Rightarrow> jr_arg0 r \<in> {0, 1}
    | JobPower \<Rightarrow> jr_arg0 r \<in> {0, 1}
    | JobSetLimits \<Rightarrow> jr_arg0 r \<noteq> 0 \<and> sint (jr_val_a r) \<le> sint (jr_val_b r)
    | JobReadReg \<Rightarrow> raw_enabled \<and> jr_arg0 r \<noteq> 0 \<and> jr_param r \<in> {1, 2, 4} \<and> jr_val_a r \<le> 0xFFFF
    | JobWriteReg \<Rightarrow> raw_enabled \<and> jr_arg0 r \<noteq> 0 \<and> jr_param r \<in> {1, 2, 4} \<and> jr_val_a r \<le> 0xFFFF
    | _ \<Rightarrow> jr_arg0 r \<noteq> 0)"

lemma ucast_u16_bound: "(ucast (w :: u16) :: u32) \<le> 0xFFFF"
proof -
  have "unat w < 2 ^ 16" using unsigned_less [of w] by simp
  then show ?thesis by (simp add: word_le_nat_alt)
qed

lemma parse_job_valid: "parse_job mid req raw = Some (Inr job) \<Longrightarrow> job_valid raw job"
  by (auto simp: parse_job_def job_valid_def DxlJobRequest_default_def ucast_u16_bound not_less Let_def
      split: if_splits)

text \<open>
  A DXL job reaches the bus task only through the maintenance gate: a command frame changes the
  queue only if the maintenance lock is held, the live state is MacMaintenance and no job is in flight;
  the job it then submits is well formed (a servo id that is not zero, an ordered scan range, ordered
  travel limits, a register width of 1, 2 or 4, a switch of 0 or 1), and raw register access only when
  it is enabled. The answer then carries the new, non-zero job id.
\<close>

theorem dxl_submit_gated:
  assumes "dxl_handle mid req 256 s = Some (resp, s')" and "dj_queue s' \<noteq> dj_queue s"
  shows "dj_lock_held s \<and> dj_live_state s = 8 \<and> mb_free (dxlq_abs (dj_queue s)) \<and>
         (\<exists>j r. dxlq_abs (dj_queue s') = MbSubmitted j r \<and> j \<noteq> 0 \<and> resp_bytes resp = [0, j, 1] \<and>
            job_valid (dj_raw_register_enabled s) r)"
proof -
  obtain job where p: "parse_job mid req (dj_raw_register_enabled s) = Some (Inr job)"
    and g: "gateOpen s" and m: "mid \<noteq> 0x64" "isDxlMsg mid"
    using assms by (auto simp: dxl_handle_def split: if_splits option.splits sum.splits)
  then show ?thesis
    using assms parse_job_valid [OF p] nextJobId_nonzero
    by (auto simp: dxl_handle_def gateOpen_def dxlq_submit_def dxlq_abs_def writeSubmit_def Let_def
        split: if_splits Slot.splits)
qed

definition dxl_sample :: DxlJobApi where
  "dxl_sample = \<lparr> dj_queue = \<lparr> dq_slot = SlotEmpty, dq_job_id = 0, dq_next_id = 255,
       dq_req = DxlJobRequest_default, dq_result = DxlJobResult_default \<rparr>,
     dj_live_state = 8, dj_lock_held = True, dj_raw_register_enabled = False \<rparr>"

theorem dxl_submit_gated_witness:
  "\<exists>resp s' r. dxl_handle 0x61 [7] 256 dxl_sample = Some (resp, s') \<and>
     dxlq_abs (dj_queue s') = MbSubmitted 1 r \<and> resp_bytes resp = [0, 1, 1] \<and> job_valid False r"
proof -
  obtain resp s' where h: "dxl_handle 0x61 [7] 256 dxl_sample = Some (resp, s')"
    and st: "dj_queue s' \<noteq> dj_queue dxl_sample" "dq_job_id (dj_queue s') = 1"
    by (auto simp: dxl_handle_def isDxlMsg_def gateOpen_def parse_job_def dxl_sample_def dxlq_submit_def
        nextJobId_def Let_def)
  obtain j r where "dxlq_abs (dj_queue s') = MbSubmitted j r" "resp_bytes resp = [0, j, 1]" "job_valid False r"
    using dxl_submit_gated [OF h st(1)] by (auto simp: dxl_sample_def)
  moreover from this have "j = 1" using st(2) by (auto simp: dxlq_abs_def split: Slot.splits)
  ultimately show ?thesis using h by blast
qed

section \<open>Delivery\<close>

text \<open>Job ids count cyclically through 1 to 255, so an id is not reused within 255 submissions.\<close>

lemma unat_nextJobId:
  assumes "j \<noteq> 0"
  shows "unat (nextJobId j) = (unat j - 1 + 1) mod 255 + 1"
proof -
  have pos: "0 < unat j" using assms by (simp add: unat_gt_0)
  have lt: "unat j < 256" using unsigned_less [of j] by simp
  have suc: "unat (j + 1) = (unat j + 1) mod 256" by (simp add: unat_word_ariths)
  have "j + 1 = 0 \<longleftrightarrow> unat (j + 1) = 0" by (metis unat_eq_zero)
  moreover have "unat j = 255 \<or> unat j + 1 < 256" using lt by linarith
  ultimately have wrap: "j + 1 = 0 \<longleftrightarrow> unat j = 255" using suc by (auto dest: dvd_imp_le)
  show ?thesis
    using pos lt suc wrap by (cases "unat j = 255") (simp_all add: nextJobId_def Let_def)
qed

lemma nextJobId_iter: "j \<noteq> 0 \<Longrightarrow> unat ((nextJobId ^^ n) j) = (unat j - 1 + n) mod 255 + 1"
proof (induction n)
  case 0
  have "0 < unat j" "unat j < 256" using 0 unsigned_less [of j] by (simp_all add: unat_gt_0)
  then show ?case by simp
next
  case (Suc n)
  have "(nextJobId ^^ n) j \<noteq> 0" using Suc by (metis unat_0 add_is_0 one_neq_zero)
  then show ?case
    using unat_nextJobId [of "(nextJobId ^^ n) j"] Suc by (simp add: mod_Suc_eq)
qed

lemma nextJobId_fresh:
  assumes "j \<noteq> 0" "0 < n" "n < 255"
  shows "(nextJobId ^^ n) j \<noteq> j"
proof
  assume "(nextJobId ^^ n) j = j"
  then have e: "(unat j - 1 + n) mod 255 + 1 = unat j" using nextJobId_iter [OF assms(1), of n] by metis
  define a where "a = unat j - 1"
  have "unat j < 256" using unsigned_less [of j] by simp
  then have a: "unat j = a + 1" "a < 255" using assms(1) by (simp_all add: a_def unat_gt_0)
  then have "(a + n) mod 255 = a" using e by (simp add: a_def [symmetric])
  then show False using assms(2,3) a(2) by (cases "a + n < 255") (auto simp: le_mod_geq)
qed

fun is_submit :: "dxlq_op \<Rightarrow> bool" where
  "is_submit (DqSubmit r) = True" | "is_submit _ = False"

text \<open>The history shows a claim followed by a completion of the job with this result.\<close>

definition completed_in :: "u8 \<Rightarrow> dxlq_op list \<Rightarrow> DxlJobResult \<Rightarrow> bool" where
  "completed_in j ops res \<longleftrightarrow> (\<exists>ops1 ops2 c d. ops = ops1 @ DqComplete j c d # ops2 \<and> DqClaim \<in> set ops1 \<and>
     res = \<lparr> jres_code = c, jres_data = take kMaxResult d \<rparr>)"

lemma completed_in_snoc: "completed_in j ops res \<Longrightarrow> completed_in j (ops @ [op]) res"
  unfolding completed_in_def by (metis append_assoc append_Cons)

lemma completed_in_new:
  "DqClaim \<in> set ops \<Longrightarrow>
   completed_in j (ops @ [DqComplete j c d]) \<lparr> jres_code = c, jres_data = take kMaxResult d \<rparr>"
  unfolding completed_in_def by blast

text \<open>
  The life of a job after its submission, for any history of further operations: either it is still
  the current job, in the phase the history says, or it has been replaced by a later one.
\<close>

definition job_current :: "u8 \<Rightarrow> DxlJobRequest \<Rightarrow> dxlq_op list \<Rightarrow> DxlJobQueue \<Rightarrow> bool" where
  "job_current j r ops q \<longleftrightarrow> dq_req q = r \<and>
     (dq_slot q = SlotRunning \<longrightarrow> DqClaim \<in> set ops) \<and> (dq_slot q = SlotDone \<longrightarrow> completed_in j ops (dq_result q))"

definition job_tracked :: "u8 \<Rightarrow> DxlJobRequest \<Rightarrow> dxlq_op list \<Rightarrow> DxlJobQueue \<Rightarrow> bool" where
  "job_tracked j r ops q \<longleftrightarrow>
     dq_slot q \<noteq> SlotEmpty \<and>
     (\<exists>k \<le> length (filter is_submit ops). dq_job_id q = (nextJobId ^^ k) j \<and> dq_next_id q = dq_job_id q \<and>
       (k = 0 \<longrightarrow> job_current j r ops q))"

lemma job_tracked_snoc:
  assumes t: "job_tracked j r ops q"
  shows "job_tracked j r (ops @ [op]) (dxlq_step op q)"
proof -
  obtain k where ne: "dq_slot q \<noteq> SlotEmpty" and k: "k \<le> length (filter is_submit ops)"
    and id: "dq_job_id q = (nextJobId ^^ k) j" "dq_next_id q = dq_job_id q"
    and cur: "k = 0 \<longrightarrow> job_current j r ops q"
    using t unfolding job_tracked_def by blast
  have same: ?thesis if "dxlq_step op q = q"
    using ne k id cur completed_in_snoc that
    by (auto simp: job_tracked_def job_current_def intro!: exI [of _ k])
  show ?thesis
  proof (cases op)
    case (DqSubmit r')
    show ?thesis
    proof (cases "dq_slot q = SlotDone")
      case True
      then show ?thesis
        using DqSubmit k id
        by (auto simp: job_tracked_def dxlq_submit_def Let_def intro!: exI [of _ "Suc k"])
    qed (use ne DqSubmit same in \<open>simp add: dxlq_submit_def\<close>)
  next
    case DqClaim
    show ?thesis
    proof (cases "dq_slot q = SlotPending")
      case True
      then show ?thesis
        using DqClaim k id cur
        by (auto simp: job_tracked_def job_current_def dxlq_claim_def intro!: exI [of _ k])
    qed (use DqClaim same in \<open>simp add: dxlq_claim_def\<close>)
  next
    case (DqComplete i c d)
    show ?thesis
    proof (cases "dq_slot q = SlotRunning \<and> i = dq_job_id q")
      case True
      then show ?thesis
        using DqComplete k id cur completed_in_new [of ops j c d]
        by (auto simp: job_tracked_def job_current_def dxlq_complete_def intro!: exI [of _ k])
    qed (use DqComplete same in \<open>auto simp: dxlq_complete_def\<close>)
  qed
qed

lemma job_tracked_run: "job_tracked j r pre q \<Longrightarrow> job_tracked j r (pre @ ops) (fold dxlq_step ops q)"
proof (induction ops arbitrary: pre q)
  case (Cons op ops)
  show ?case using Cons.IH [OF job_tracked_snoc [OF Cons.prems]] by simp
qed simp

text \<open>
  C15: the two tasks never mix up jobs. After a job has been submitted, let the API task and the bus
  task perform any interleaving of operations with fewer than 255 further submissions. If a poll with
  the job's id then reports a result, the bus task claimed the job and completed it, in this order, and
  the result is exactly (up to the 160-byte limit) what it completed this very id with.
\<close>

theorem dxl_result_delivery:
  assumes "dxlq_submit r q = (Some j, q1)" and "length (filter is_submit ops) < 255"
    and "dxlq_poll j (fold dxlq_step ops q1) = (SlotDone, Some res)"
  shows "\<exists>ops1 ops2 c d. ops = ops1 @ DqComplete j c d # ops2 \<and> DqClaim \<in> set ops1 \<and>
           res = \<lparr> jres_code = c, jres_data = take 160 d \<rparr>"
proof -
  let ?q = "fold dxlq_step ops q1"
  have j: "j \<noteq> 0" "dq_slot q1 = SlotPending" "dq_job_id q1 = j" "dq_next_id q1 = j" "dq_req q1 = r"
    using assms(1) nextJobId_nonzero by (auto simp: dxlq_submit_def Let_def split: if_splits)
  then have "job_tracked j r [] q1" by (simp add: job_tracked_def job_current_def)
  then have tr: "job_tracked j r ops ?q" using job_tracked_run [of j r "[]" q1 ops] by simp
  have done_q: "dq_job_id ?q = j" "dq_slot ?q = SlotDone" "dq_result ?q = res"
    using assms(3) by (auto simp: dxlq_poll_def split: if_splits)
  obtain k where "k \<le> length (filter is_submit ops)" "dq_job_id ?q = (nextJobId ^^ k) j"
    and cur: "k = 0 \<longrightarrow> job_current j r ops ?q"
    using tr unfolding job_tracked_def by blast
  then have "k = 0" using nextJobId_fresh [OF j(1), of k] assms(2) done_q(1) by (cases "k = 0") auto
  then show ?thesis using cur done_q by (simp add: job_current_def completed_in_def kMaxResult_def)
qed

theorem dxl_result_delivery_witness:
  "\<exists>ops1 ops2 c d.
     [DqClaim, DqSubmit DxlJobRequest_default, DqComplete 9 CodeBusError [], DqComplete 1 CodeOk [5]] =
       ops1 @ DqComplete 1 c d # ops2 \<and> DqClaim \<in> set ops1 \<and>
     \<lparr> jres_code = CodeOk, jres_data = [5] \<rparr> = \<lparr> jres_code = c, jres_data = take 160 d \<rparr>"
proof (rule dxl_result_delivery [where r = DxlJobRequest_default and q = "dj_queue dxl_sample"])
  show "dxlq_submit DxlJobRequest_default (dj_queue dxl_sample) = (Some 1, snd (dxlq_submit DxlJobRequest_default (dj_queue dxl_sample)))"
    by (simp add: dxlq_submit_def dxl_sample_def nextJobId_def Let_def)
qed (simp_all add: dxlq_submit_def dxl_sample_def nextJobId_def dxlq_claim_def dxlq_complete_def dxlq_poll_def
      kMaxResult_def Let_def)

end
