(* ===== verification/ErrorJournal.thy ===== *)
theory ErrorJournal
  imports Prelude
begin

text \<open>
  The deduplicating error journal (\<open>safety/error_journal.h\<close>, \<open>safety/error_journal.cpp\<close>): a
  table of at most twelve distinct (code, detail) keys, each with a pending mark, filled by \<open>note\<close>
  and drained by \<open>takePending\<close>.
\<close>

datatype ErrorCode =
    ErrNone | SafetyFault | DxlWriteFailed | DxlReadFailed | DxlHardwareError | DxlBusSilent
  | DxlDiscoveryIncomplete | I2cFootSensorFault | I2cMuxMissing | ConfigStorageMissing | ConfigVolatile
  | ConfigCommitFailed | RcFailsafe | RcFrameErrors | GoalUnreachable | GoalClamped | BatteryLowError
  | WatchdogStall | GaitSaveRejected | CaptureUnavailable | CaptureWriteFailed | ArmingStarted

text \<open>Severities Info 0, Warning 1, Error 2, Critical 3; the code compares them as numbers.\<close>

datatype ErrorSeverity = SevInfo | SevWarning | SevError | SevCritical

fun severityRank :: "ErrorSeverity \<Rightarrow> nat" where
  "severityRank SevInfo = 0" | "severityRank SevWarning = 1" | "severityRank SevError = 2"
| "severityRank SevCritical = 3"

definition kMaxErrorEntries :: nat where "kMaxErrorEntries = 12"
definition kRepeatIntervalMs :: u32 where "kRepeatIntervalMs = 5000"
definition kClearAfterMs :: u32 where "kClearAfterMs = 15000"

record ErrorEntry =
  ee_code :: ErrorCode
  ee_detail :: u8
  ee_severity :: ErrorSeverity
  ee_count :: u16
  ee_first_ms :: u32
  ee_last_ms :: u32
  ee_sequence :: u8

definition ErrorEntry_default :: ErrorEntry where
  "ErrorEntry_default = \<lparr> ee_code = ErrNone, ee_detail = 0, ee_severity = SevInfo, ee_count = 0,
     ee_first_ms = 0, ee_last_ms = 0, ee_sequence = 0 \<rparr>"

record ErrorJournal =
  ej_entries :: "ErrorEntry list"
  ej_pending :: "bool list"
  ej_latest :: ErrorEntry
  ej_count :: nat
  ej_pending_count :: nat
  ej_next_sequence :: u8
  ej_suppressed :: u32

definition journal_reset :: ErrorJournal where
  "journal_reset = \<lparr> ej_entries = replicate kMaxErrorEntries ErrorEntry_default,
     ej_pending = replicate kMaxErrorEntries False, ej_latest = ErrorEntry_default, ej_count = 0,
     ej_pending_count = 0, ej_next_sequence = 1, ej_suppressed = 0 \<rparr>"

text \<open>\<open>find\<close>: the first index below \<open>count\<close> with the key; \<open>None\<close> is the source's -1.\<close>

fun journal_find_from :: "ErrorCode \<Rightarrow> u8 \<Rightarrow> ErrorEntry list \<Rightarrow> nat list \<Rightarrow> nat option" where
  "journal_find_from c d es [] = None"
| "journal_find_from c d es (i # is) =
     (if ee_code (es ! i) = c \<and> ee_detail (es ! i) = d then Some i else journal_find_from c d es is)"

definition journal_find :: "ErrorCode \<Rightarrow> u8 \<Rightarrow> ErrorJournal \<Rightarrow> nat option" where
  "journal_find c d s = journal_find_from c d (ej_entries s) [0..<ej_count s]"

text \<open>One step of the recycling loop: the best slot so far and the next index.\<close>

definition recycle_pick :: "ErrorSeverity \<Rightarrow> u32 \<Rightarrow> ErrorJournal \<Rightarrow> nat \<Rightarrow> nat option \<Rightarrow> nat option" where
  "recycle_pick incoming now s i best =
     (if ej_pending s ! i \<and> severityRank (ee_severity (ej_entries s ! i)) \<ge> severityRank incoming then best
      else case best of
          None \<Rightarrow> Some i
        | Some b \<Rightarrow>
            let candidate = ej_entries s ! i; current = ej_entries s ! b in
            if ee_severity candidate \<noteq> ee_severity current then
              if severityRank (ee_severity candidate) < severityRank (ee_severity current) then Some i else Some b
            else if elapsed now (ee_last_ms candidate) > elapsed now (ee_last_ms current) then Some i
            else Some b)"

definition recycleSlot :: "ErrorSeverity \<Rightarrow> u32 \<Rightarrow> ErrorJournal \<Rightarrow> nat option" where
  "recycleSlot incoming now s = fold (recycle_pick incoming now s) [0..<ej_count s] None"

text \<open>The slot of a new key: the next free one, or a recycled one whose pending mark is dropped.\<close>

definition journal_claim :: "ErrorSeverity \<Rightarrow> u32 \<Rightarrow> ErrorJournal \<Rightarrow> (nat \<times> ErrorJournal) option" where
  "journal_claim sev now s =
     (if ej_count s < kMaxErrorEntries then Some (ej_count s, s \<lparr> ej_count := ej_count s + 1 \<rparr>)
      else case recycleSlot sev now s of
          None \<Rightarrow> None
        | Some slot \<Rightarrow>
            Some (slot, if ej_pending s ! slot
                        then s \<lparr> ej_pending := (ej_pending s)[slot := False],
                                 ej_pending_count := ej_pending_count s - 1 \<rparr>
                        else s))"

text \<open>The common end of \<open>note\<close>: update the slot and announce it if it is news.\<close>

definition journal_record :: "nat \<Rightarrow> bool \<Rightarrow> ErrorSeverity \<Rightarrow> u32 \<Rightarrow> ErrorJournal \<Rightarrow> bool \<times> ErrorJournal" where
  "journal_record slot announce sev now s =
     (let e = ej_entries s ! slot;
          e = e \<lparr> ee_severity := sev, ee_last_ms := now,
                  ee_count := (if ee_count e < 0xFFFF then ee_count e + 1 else ee_count e) \<rparr> in
      if \<not> announce
      then (False, s \<lparr> ej_entries := (ej_entries s)[slot := e], ej_suppressed := ej_suppressed s + 1 \<rparr>)
      else
        let e = e \<lparr> ee_sequence := ej_next_sequence s \<rparr>; n = ej_next_sequence s + 1;
            s = s \<lparr> ej_entries := (ej_entries s)[slot := e], ej_next_sequence := (if n = 0 then 1 else n) \<rparr> in
        (True, if ej_pending s ! slot then s
               else s \<lparr> ej_pending := (ej_pending s)[slot := True],
                        ej_pending_count := ej_pending_count s + 1 \<rparr>))"

definition journal_note :: "ErrorCode \<Rightarrow> u8 \<Rightarrow> ErrorSeverity \<Rightarrow> u32 \<Rightarrow> ErrorJournal \<Rightarrow> bool \<times> ErrorJournal" where
  "journal_note c d sev now s =
     (if c = ErrNone then (False, s)
      else case journal_find c d s of
          None \<Rightarrow>
            (case journal_claim sev now s of
               None \<Rightarrow> (False, s \<lparr> ej_suppressed := ej_suppressed s + 1 \<rparr>)
             | Some (slot, s) \<Rightarrow>
                 journal_record slot True sev now
                   (s \<lparr> ej_entries := (ej_entries s)[slot := ErrorEntry_default \<lparr> ee_code := c, ee_detail := d,
                          ee_first_ms := now \<rparr>] \<rparr>))
        | Some slot \<Rightarrow>
            let e = ej_entries s ! slot in
            if elapsed now (ee_last_ms e) \<ge> kClearAfterMs then
              journal_record slot True sev now
                (s \<lparr> ej_entries := (ej_entries s)[slot := e \<lparr> ee_count := 0, ee_first_ms := now \<rparr>] \<rparr>)
            else if elapsed now (ee_first_ms e) \<ge> kRepeatIntervalMs \<and> \<not> ej_pending s ! slot then
              journal_record slot True sev now
                (s \<lparr> ej_entries := (ej_entries s)[slot := e \<lparr> ee_first_ms := now \<rparr>] \<rparr>)
            else journal_record slot False sev now s)"

definition journal_noteIf ::
  "bool \<Rightarrow> ErrorCode \<Rightarrow> u8 \<Rightarrow> ErrorSeverity \<Rightarrow> u32 \<Rightarrow> ErrorJournal \<Rightarrow> bool \<times> ErrorJournal" where
  "journal_noteIf active c d sev now s = (if active then journal_note c d sev now s else (False, s))"

definition take_pick :: "ErrorJournal \<Rightarrow> nat \<Rightarrow> nat option \<Rightarrow> nat option" where
  "take_pick s i best =
     (if \<not> ej_pending s ! i then best
      else case best of
          None \<Rightarrow> Some i
        | Some b \<Rightarrow>
            let candidate = ej_entries s ! i; current = ej_entries s ! b in
            if severityRank (ee_severity candidate) > severityRank (ee_severity current) then Some i
            else if ee_severity candidate = ee_severity current \<and> ee_first_ms candidate < ee_first_ms current
            then Some i
            else Some b)"

definition takePending :: "ErrorJournal \<Rightarrow> ErrorEntry option \<times> ErrorJournal" where
  "takePending s =
     (if ej_pending_count s = 0 then (None, s)
      else case fold (take_pick s) [0..<ej_count s] None of
          None \<Rightarrow> (None, s \<lparr> ej_pending_count := 0 \<rparr>)
        | Some b \<Rightarrow>
            (Some (ej_entries s ! b),
             s \<lparr> ej_pending := (ej_pending s)[b := False], ej_pending_count := ej_pending_count s - 1,
                 ej_latest := ej_entries s ! b \<rparr>))"

section \<open>Invariant\<close>

definition entry_key :: "ErrorEntry \<Rightarrow> ErrorCode \<times> u8" where
  "entry_key e = (ee_code e, ee_detail e)"

definition pending_slots :: "ErrorJournal \<Rightarrow> nat set" where
  "pending_slots s = {i. i < kMaxErrorEntries \<and> ej_pending s ! i}"

definition journal_inv :: "ErrorJournal \<Rightarrow> bool" where
  "journal_inv s \<longleftrightarrow>
     length (ej_entries s) = kMaxErrorEntries \<and> length (ej_pending s) = kMaxErrorEntries \<and>
     ej_count s \<le> kMaxErrorEntries \<and> pending_slots s \<subseteq> {..<ej_count s} \<and>
     ej_pending_count s = card (pending_slots s) \<and>
     inj_on (\<lambda>i. entry_key (ej_entries s ! i)) {..<ej_count s} \<and>
     (\<forall>i < ej_count s. ee_code (ej_entries s ! i) \<noteq> ErrNone)"

lemma pending_slots_finite [simp]: "finite (pending_slots s)"
  by (simp add: pending_slots_def)

lemma pending_slots_update:
  "length (ej_pending s) = kMaxErrorEntries \<Longrightarrow> i < kMaxErrorEntries \<Longrightarrow>
   pending_slots (s \<lparr> ej_pending := (ej_pending s)[i := b] \<rparr>) =
     (if b then insert i (pending_slots s) else pending_slots s - {i})"
  by (auto simp: pending_slots_def nth_list_update split: if_splits)

lemma journal_find_Some:
  "journal_find c d s = Some i \<Longrightarrow> i < ej_count s \<and> entry_key (ej_entries s ! i) = (c, d)"
proof -
  have "journal_find_from c d es is = Some i \<Longrightarrow> i \<in> set is \<and> entry_key (es ! i) = (c, d)" for es "is"
    by (induction "is") (auto simp: entry_key_def split: if_splits)
  then show "journal_find c d s = Some i \<Longrightarrow> i < ej_count s \<and> entry_key (ej_entries s ! i) = (c, d)"
    by (fastforce simp: journal_find_def)
qed

lemma journal_find_None:
  "journal_find c d s = None \<Longrightarrow> i < ej_count s \<Longrightarrow> entry_key (ej_entries s ! i) \<noteq> (c, d)"
proof -
  have "journal_find_from c d es is = None \<Longrightarrow> i \<in> set is \<Longrightarrow> entry_key (es ! i) \<noteq> (c, d)" for es "is"
    by (induction "is") (auto simp: entry_key_def split: if_splits)
  then show "journal_find c d s = None \<Longrightarrow> i < ej_count s \<Longrightarrow> entry_key (ej_entries s ! i) \<noteq> (c, d)"
    by (fastforce simp: journal_find_def)
qed

lemma recycleSlot_Some:
  assumes "recycleSlot sev now s = Some b"
  shows "b < ej_count s \<and> (ej_pending s ! b \<longrightarrow> severityRank (ee_severity (ej_entries s ! b)) < severityRank sev)"
proof -
  let ?ok = "\<lambda>best. \<forall>b. best = Some b \<longrightarrow> b < ej_count s \<and>
    (ej_pending s ! b \<longrightarrow> severityRank (ee_severity (ej_entries s ! b)) < severityRank sev)"
  have "?ok (fold (recycle_pick sev now s) [0..<ej_count s] None)"
    by (rule fold_invariant [where Q = "\<lambda>i. i < ej_count s"])
       (auto simp: recycle_pick_def Let_def split: option.splits if_splits)
  then show ?thesis using assms by (simp add: recycleSlot_def)
qed

text \<open>The slot claimed for a new key: in range, not holding another unsent error that matters as much.\<close>

lemma journal_claim_Some:
  assumes inv: "journal_inv s" and c: "journal_claim sev now s = Some (slot, s1)"
  shows "slot < kMaxErrorEntries" "slot < ej_count s1" "slot \<notin> pending_slots s1"
    and "{..<ej_count s1} = insert slot {..<ej_count s}" and "ej_entries s1 = ej_entries s"
    and "pending_slots s1 = pending_slots s - {slot}" and "length (ej_pending s1) = kMaxErrorEntries"
    and "ej_count s1 \<le> kMaxErrorEntries" and "ej_pending_count s1 = card (pending_slots s1)"
    and "slot \<in> pending_slots s \<Longrightarrow> severityRank (ee_severity (ej_entries s ! slot)) < severityRank sev"
proof -
  have i: "length (ej_pending s) = kMaxErrorEntries" "ej_count s \<le> kMaxErrorEntries"
    "pending_slots s \<subseteq> {..<ej_count s}" "ej_pending_count s = card (pending_slots s)"
    using inv by (simp_all add: journal_inv_def)
  have *: "slot < kMaxErrorEntries \<and> slot < ej_count s1 \<and> slot \<notin> pending_slots s1 \<and>
    {..<ej_count s1} = insert slot {..<ej_count s} \<and> ej_entries s1 = ej_entries s \<and>
    pending_slots s1 = pending_slots s - {slot} \<and> length (ej_pending s1) = kMaxErrorEntries \<and>
    ej_count s1 \<le> kMaxErrorEntries \<and> ej_pending_count s1 = card (pending_slots s1) \<and>
    (slot \<in> pending_slots s \<longrightarrow> severityRank (ee_severity (ej_entries s ! slot)) < severityRank sev)"
  proof (cases "ej_count s < kMaxErrorEntries")
    case True
    then have s: "slot = ej_count s" "s1 = s \<lparr> ej_count := ej_count s + 1 \<rparr>"
      using c by (auto simp: journal_claim_def)
    have "slot \<notin> pending_slots s" using i(3) s(1) by auto
    moreover have "pending_slots s1 = pending_slots s" by (simp add: pending_slots_def s(2))
    ultimately show ?thesis using True i s by (auto simp: lessThan_Suc)
  next
    case False
    then obtain r: "recycleSlot sev now s = Some slot"
      and s1: "s1 = (if ej_pending s ! slot then s \<lparr> ej_pending := (ej_pending s)[slot := False],
                        ej_pending_count := ej_pending_count s - 1 \<rparr> else s)"
      using c by (auto simp: journal_claim_def split: option.splits)
    note b = recycleSlot_Some [OF r]
    then have lt: "slot < kMaxErrorEntries" using i(2) by simp
    have pend: "ej_pending s ! slot \<longleftrightarrow> slot \<in> pending_slots s" using lt by (simp add: pending_slots_def)
    have ps: "pending_slots s1 = pending_slots s - {slot}"
    proof (cases "ej_pending s ! slot")
      case True
      then have "pending_slots s1 = pending_slots (s \<lparr> ej_pending := (ej_pending s)[slot := False] \<rparr>)"
        by (simp add: s1 pending_slots_def)
      then show ?thesis using pending_slots_update [OF i(1) lt, of False] by simp
    qed (use s1 pend in auto)
    then show ?thesis using b lt i pend s1 by auto
  qed
  then show "slot < kMaxErrorEntries" "slot < ej_count s1" "slot \<notin> pending_slots s1"
    "{..<ej_count s1} = insert slot {..<ej_count s}" "ej_entries s1 = ej_entries s"
    "pending_slots s1 = pending_slots s - {slot}" "length (ej_pending s1) = kMaxErrorEntries"
    "ej_count s1 \<le> kMaxErrorEntries" "ej_pending_count s1 = card (pending_slots s1)"
    "slot \<in> pending_slots s \<Longrightarrow> severityRank (ee_severity (ej_entries s ! slot)) < severityRank sev"
    by blast+
qed

text \<open>The end of \<open>note\<close>, for a slot in use.\<close>

lemma journal_record_effect:
  assumes "length (ej_entries s) = kMaxErrorEntries" "length (ej_pending s) = kMaxErrorEntries"
    and "slot < kMaxErrorEntries" and "ej_pending_count s = card (pending_slots s)"
    and "journal_record slot announce sev now s = (b, s')"
  shows "b = announce" "ej_count s' = ej_count s"
    and "length (ej_entries s') = kMaxErrorEntries" "length (ej_pending s') = kMaxErrorEntries"
    and "pending_slots s' = (if announce then insert slot (pending_slots s) else pending_slots s)"
    and "ej_pending_count s' = card (pending_slots s')"
    and "i \<noteq> slot \<Longrightarrow> ej_entries s' ! i = ej_entries s ! i"
    and "entry_key (ej_entries s' ! slot) = entry_key (ej_entries s ! slot)"
    and "ee_severity (ej_entries s' ! slot) = sev" "ee_last_ms (ej_entries s' ! slot) = now"
proof -
  have pend: "ej_pending s ! slot \<longleftrightarrow> slot \<in> pending_slots s" using assms(3) by (simp add: pending_slots_def)
  have ps: "pending_slots s' = (if announce then insert slot (pending_slots s) else pending_slots s)"
    using assms(2,3,5)
    by (auto simp: journal_record_def pending_slots_def Let_def nth_list_update split: if_splits)
  show "pending_slots s' = (if announce then insert slot (pending_slots s) else pending_slots s)" by (rule ps)
  show "ej_pending_count s' = card (pending_slots s')"
  proof -
    have "s' = snd (journal_record slot announce sev now s)" using assms(5) by simp
    then have "ej_pending_count s' =
        (if announce \<and> \<not> ej_pending s ! slot then ej_pending_count s + 1 else ej_pending_count s)"
      by (simp add: journal_record_def Let_def)
    then show ?thesis using ps pend assms(4) by (auto simp: insert_absorb)
  qed
qed (use assms in \<open>auto simp: journal_record_def entry_key_def Let_def split: if_splits\<close>)

lemma inj_on_if: "inj_on f A \<Longrightarrow> (\<And>i. i \<in> A \<Longrightarrow> f i \<noteq> v) \<Longrightarrow> inj_on (\<lambda>i. if i = a then v else f i) (insert a A)"
  unfolding inj_on_def by (metis insertE)

text \<open>
  What \<open>note\<close> prepares before it records: a slot in use for the key, in a table \<open>t\<close> that still
  satisfies the invariant and differs from \<open>s\<close> only in that slot. If the slot held an unsent error
  of another key, that error was less severe.
\<close>

definition slot_ready :: "ErrorJournal \<Rightarrow> ErrorCode \<times> u8 \<Rightarrow> ErrorSeverity \<Rightarrow> nat \<Rightarrow> ErrorJournal \<Rightarrow> bool" where
  "slot_ready s k sev slot t \<longleftrightarrow> journal_inv t \<and> slot < ej_count t \<and> entry_key (ej_entries t ! slot) = k \<and>
     pending_slots s - {slot} \<subseteq> pending_slots t \<and> (\<forall>i. i \<noteq> slot \<longrightarrow> ej_entries t ! i = ej_entries s ! i) \<and>
     (slot \<in> pending_slots s \<longrightarrow> entry_key (ej_entries s ! slot) = k \<or>
        severityRank (ee_severity (ej_entries s ! slot)) < severityRank sev)"

lemma slot_ready_update:
  assumes "journal_inv s" and "slot < ej_count s" and "entry_key (ej_entries s ! slot) = k" and "entry_key e = k"
  shows "slot_ready s k sev slot (s \<lparr> ej_entries := (ej_entries s)[slot := e] \<rparr>)"
proof -
  let ?t = "s \<lparr> ej_entries := (ej_entries s)[slot := e] \<rparr>"
  have len: "slot < length (ej_entries s)" using assms(1,2) by (simp add: journal_inv_def)
  have key: "entry_key (ej_entries ?t ! i) = entry_key (ej_entries s ! i)" for i
    using assms(3,4) len by (auto simp: nth_list_update)
  then have "ee_code (ej_entries ?t ! i) = ee_code (ej_entries s ! i)" for i
    by (metis entry_key_def fst_conv)
  moreover have "pending_slots ?t = pending_slots s" by (simp add: pending_slots_def)
  ultimately show ?thesis
    using assms key len by (simp add: slot_ready_def journal_inv_def del: nth_list_update)
qed

lemma slot_ready_new:
  assumes inv: "journal_inv s" and nf: "journal_find c d s = None" and c: "c \<noteq> ErrNone"
    and cl: "journal_claim sev now s = Some (slot, s1)" and e: "entry_key e = (c, d)"
  shows "slot_ready s (c, d) sev slot (s1 \<lparr> ej_entries := (ej_entries s1)[slot := e] \<rparr>)"
proof -
  let ?t = "s1 \<lparr> ej_entries := (ej_entries s1)[slot := e] \<rparr>"
  note cl = journal_claim_Some [OF inv cl]
  have len: "length (ej_entries s) = kMaxErrorEntries" using inv by (simp add: journal_inv_def)
  have nth: "ej_entries ?t ! i = (if i = slot then e else ej_entries s ! i)" for i
    using cl(1,5) len by (simp add: nth_list_update)
  then have key: "entry_key (ej_entries ?t ! i) = (if i = slot then (c, d) else entry_key (ej_entries s ! i))" for i
    using e by simp
  have "inj_on (\<lambda>i. entry_key (ej_entries s ! i)) {..<ej_count s}" using inv by (simp add: journal_inv_def)
  then have "inj_on (\<lambda>i. if i = slot then (c, d) else entry_key (ej_entries s ! i)) (insert slot {..<ej_count s})"
    by (rule inj_on_if) (use journal_find_None [OF nf] in simp)
  moreover have dom: "{..<ej_count ?t} = insert slot {..<ej_count s}" using cl(4) by simp
  ultimately have inj: "inj_on (\<lambda>i. entry_key (ej_entries ?t ! i)) {..<ej_count ?t}"
    unfolding key by simp
  have ps: "pending_slots ?t = pending_slots s1" by (simp add: pending_slots_def)
  have "ee_code e = c" using e by (simp add: entry_key_def)
  moreover have "i \<in> insert slot {..<ej_count s}" if "i < ej_count ?t" for i
    using that unfolding dom [symmetric] by simp
  ultimately have codes: "\<forall>i < ej_count ?t. ee_code (ej_entries ?t ! i) \<noteq> ErrNone"
    using inv c unfolding nth by (auto simp: journal_inv_def)
  have "pending_slots ?t \<subseteq> {..<ej_count ?t}"
    unfolding ps dom cl(6) using inv by (auto simp: journal_inv_def)
  then have "journal_inv ?t"
    using cl inj codes len ps by (simp add: journal_inv_def)
  then show ?thesis
    using cl ps nth e by (simp add: slot_ready_def del: nth_list_update)
qed

lemma journal_note_cases:
  assumes inv: "journal_inv s" and n: "journal_note c d sev now s = (news, s')"
  obtains (dropped) "\<not> news" "s' = s \<lparr> ej_suppressed := ej_suppressed s' \<rparr>"
  | (recorded) slot t ann where "slot_ready s (c, d) sev slot t" "journal_record slot ann sev now t = (news, s')"
proof (cases "c = ErrNone")
  case True
  then show ?thesis using n dropped by (simp add: journal_note_def)
next
  case c: False
  show ?thesis
  proof (cases "journal_find c d s")
    case None
    show ?thesis
    proof (cases "journal_claim sev now s")
      case None': None
      then show ?thesis using n c None dropped by (auto simp: journal_note_def)
    next
      case (Some p)
      obtain slot s1 where p: "p = (slot, s1)" by fastforce
      let ?e = "ErrorEntry_default \<lparr> ee_code := c, ee_detail := d, ee_first_ms := now \<rparr>"
      have "entry_key ?e = (c, d)" by (simp add: entry_key_def ErrorEntry_default_def)
      note ready = slot_ready_new [OF inv None c Some [unfolded p] this]
      show ?thesis
        by (rule recorded [OF ready, of True]) (use n c None Some p in \<open>simp add: journal_note_def\<close>)
    qed
  next
    case (Some slot)
    note f = journal_find_Some [OF Some]
    have ready: "slot_ready s (c, d) sev slot (s \<lparr> ej_entries := (ej_entries s)[slot := e] \<rparr>)"
      if "entry_key e = (c, d)" for e
      using slot_ready_update [OF inv] f that by simp
    let ?e = "ej_entries s ! slot"
    have k: "entry_key (?e \<lparr> ee_count := 0, ee_first_ms := now \<rparr>) = (c, d)"
      "entry_key (?e \<lparr> ee_first_ms := now \<rparr>) = (c, d)" "entry_key ?e = (c, d)"
      using f by (simp_all add: entry_key_def)
    have r: "slot_ready s (c, d) sev slot s" using ready [OF k(3)] by simp
    show ?thesis
      using n c Some recorded [OF ready [OF k(1)], of True] recorded [OF ready [OF k(2)], of True]
        recorded [OF r, of False]
      by (auto simp: journal_note_def Let_def split: if_splits)
  qed
qed

lemma journal_inv_note:
  assumes inv: "journal_inv s" and n: "journal_note c d sev now s = (b, s')"
  shows "journal_inv s'"
  using inv n
proof (cases rule: journal_note_cases)
  case dropped
  have "journal_inv (s \<lparr> ej_suppressed := ej_suppressed s' \<rparr>)"
    using inv by (simp add: journal_inv_def pending_slots_def)
  then show ?thesis using dropped(2) by simp
next
  case (recorded slot t ann)
  have t: "journal_inv t" "slot < ej_count t" using recorded(1) by (simp_all add: slot_ready_def)
  then have lt: "slot < kMaxErrorEntries" by (simp add: journal_inv_def)
  note e = journal_record_effect [OF _ _ lt _ recorded(2)]
  have key: "entry_key (ej_entries s' ! i) = entry_key (ej_entries t ! i)" for i
    using e(7,8) t by (cases "i = slot") (simp_all add: journal_inv_def)
  moreover have "ee_code (ej_entries s' ! i) = ee_code (ej_entries t ! i)" for i
    using key [of i] by (simp add: entry_key_def)
  ultimately show ?thesis
    using e(2-6) t by (auto simp: journal_inv_def)
qed

lemma journal_inv_reset: "journal_inv journal_reset"
  by (simp add: journal_inv_def journal_reset_def pending_slots_def kMaxErrorEntries_def)

section \<open>Draining\<close>

lemma take_fold:
  "case fold (take_pick s) [0..<n] None of
     None \<Rightarrow> (\<forall>i < n. \<not> ej_pending s ! i)
   | Some b \<Rightarrow> b < n \<and> ej_pending s ! b \<and>
       (\<forall>i < n. ej_pending s ! i \<longrightarrow>
          severityRank (ee_severity (ej_entries s ! i)) \<le> severityRank (ee_severity (ej_entries s ! b)))"
proof (induction n)
  case (Suc n)
  let ?rank = "\<lambda>i. severityRank (ee_severity (ej_entries s ! i))"
  show ?case
  proof (cases "fold (take_pick s) [0..<n] None")
    case None
    then have "fold (take_pick s) [0..<Suc n] None = (if ej_pending s ! n then Some n else None)"
      by (simp add: take_pick_def)
    then show ?thesis using Suc None by (auto simp: less_Suc_eq)
  next
    case (Some b)
    then have b: "b < n" "ej_pending s ! b" "\<forall>i < n. ej_pending s ! i \<longrightarrow> ?rank i \<le> ?rank b" using Suc by simp_all
    have step: "fold (take_pick s) [0..<Suc n] None = take_pick s n (Some b)" using Some by simp
    show ?thesis
    proof (cases "ej_pending s ! n \<and> ?rank b \<le> ?rank n")
      case True
      then have all: "\<forall>i < Suc n. ej_pending s ! i \<longrightarrow> ?rank i \<le> ?rank n"
        using b(3) by (auto simp: less_Suc_eq intro: order_trans)
      show ?thesis
      proof (cases "take_pick s n (Some b) = Some n")
        case True
        then show ?thesis using all step \<open>ej_pending s ! n \<and> ?rank b \<le> ?rank n\<close> by simp
      next
        case False
        then have "take_pick s n (Some b) = Some b" "?rank n \<le> ?rank b"
          using True by (auto simp: take_pick_def Let_def split: if_splits)
        then show ?thesis using b step by (auto simp: less_Suc_eq)
      qed
    next
      case False
      then have "take_pick s n (Some b) = Some b"
        by (auto simp: take_pick_def Let_def not_le)
      then show ?thesis using b step False by (auto simp: less_Suc_eq)
    qed
  qed
qed simp

lemma journal_inv_take: "journal_inv s \<Longrightarrow> journal_inv (snd (takePending s))"
proof -
  assume inv: "journal_inv s"
  then have i: "length (ej_pending s) = kMaxErrorEntries" "ej_count s \<le> kMaxErrorEntries"
    "pending_slots s \<subseteq> {..<ej_count s}" "ej_pending_count s = card (pending_slots s)"
    by (simp_all add: journal_inv_def)
  show ?thesis
  proof (cases "fold (take_pick s) [0..<ej_count s] None")
    case None
    then have "pending_slots s = {}" using take_fold [where s = s and n = "ej_count s"] i(3) by (auto simp: pending_slots_def)
    then show ?thesis using inv None by (simp add: takePending_def journal_inv_def pending_slots_def)
  next
    case (Some b)
    then have b: "b < ej_count s" "ej_pending s ! b" using take_fold [where s = s and n = "ej_count s"] by simp_all
    have lt: "b < kMaxErrorEntries" using b(1) i(2) by simp
    let ?s = "s \<lparr> ej_pending := (ej_pending s)[b := False] \<rparr>"
    have ps: "pending_slots ?s = pending_slots s - {b}" using pending_slots_update [OF i(1) lt] by simp
    have bp: "b \<in> pending_slots s" using b(2) lt by (simp add: pending_slots_def)
    then have pos: "ej_pending_count s \<noteq> 0" using i(4) by auto
    let ?s' = "snd (takePending s)"
    have "pending_slots ?s' = pending_slots s - {b}"
      using ps Some pos by (simp add: takePending_def pending_slots_def)
    moreover have "ej_entries ?s' = ej_entries s" "ej_count ?s' = ej_count s"
      "ej_pending_count ?s' = ej_pending_count s - 1" "length (ej_pending ?s') = kMaxErrorEntries"
      using Some pos i(1) by (simp_all add: takePending_def)
    ultimately show ?thesis using inv bp by (auto simp: journal_inv_def)
  qed
qed

datatype journal_op = JNote ErrorCode u8 ErrorSeverity u32 | JTake

fun journal_step :: "journal_op \<Rightarrow> ErrorJournal \<Rightarrow> ErrorJournal" where
  "journal_step (JNote c d sev now) s = snd (journal_note c d sev now s)"
| "journal_step JTake s = snd (takePending s)"

lemma journal_inv_run: "journal_inv s \<Longrightarrow> journal_inv (fold journal_step ops s)"
proof (induction ops arbitrary: s)
  case (Cons op ops)
  have "journal_inv (journal_step op s)"
    using journal_inv_take [OF Cons.prems] journal_inv_note [OF Cons.prems]
    by (cases op) (simp_all, metis prod.collapse)
  then show ?case using Cons.IH by simp
qed simp

definition journal_pending :: "ErrorJournal \<Rightarrow> ErrorEntry set" where
  "journal_pending s = (\<lambda>i. ej_entries s ! i) ` pending_slots s"

text \<open>
  C33: the journal never loses an unsent error to a less important one. In every state reachable by
  any interleaving of \<open>note\<close> and \<open>takePending\<close>, recording an error keeps every other pending
  entry that is at least as severe, unchanged and pending; if the call reports news, the error itself
  is pending afterwards, under its key and with its severity and time; and the table never holds two
  entries of the same key.
\<close>

theorem journal_keeps_unsent:
  assumes "s = fold journal_step ops journal_reset" and "journal_note c d sev now s = (news, s')"
  shows "(\<forall>e \<in> journal_pending s. entry_key e \<noteq> (c, d) \<and> severityRank sev \<le> severityRank (ee_severity e) \<longrightarrow>
            e \<in> journal_pending s') \<and>
         (news \<longrightarrow> (\<exists>e \<in> journal_pending s'. entry_key e = (c, d) \<and> ee_severity e = sev \<and> ee_last_ms e = now)) \<and>
         distinct (map entry_key (take (ej_count s') (ej_entries s')))"
proof -
  have inv: "journal_inv s" using assms(1) journal_inv_run journal_inv_reset by blast
  have inv': "journal_inv s'" using journal_inv_note [OF inv assms(2)] .
  have "distinct (map entry_key (take (ej_count s') (ej_entries s')))"
    using inv' by (auto simp: journal_inv_def distinct_conv_nth inj_on_def)
  moreover have "(\<forall>e \<in> journal_pending s. entry_key e \<noteq> (c, d) \<and> severityRank sev \<le> severityRank (ee_severity e) \<longrightarrow>
            e \<in> journal_pending s') \<and>
         (news \<longrightarrow> (\<exists>e \<in> journal_pending s'. entry_key e = (c, d) \<and> ee_severity e = sev \<and> ee_last_ms e = now))"
    using inv assms(2)
  proof (cases rule: journal_note_cases)
    case dropped
    have "pending_slots s' = pending_slots s" "ej_entries s' = ej_entries s"
      by (subst dropped(2), simp add: pending_slots_def)+
    then show ?thesis using dropped(1) by (simp add: journal_pending_def)
  next
    case (recorded slot t ann)
    note r = recorded(1) [unfolded slot_ready_def]
    have lt: "slot < kMaxErrorEntries" using r by (simp add: journal_inv_def)
    note e = journal_record_effect [OF _ _ lt _ recorded(2)]
    have lens: "length (ej_entries t) = kMaxErrorEntries" "length (ej_pending t) = kMaxErrorEntries"
      "ej_pending_count t = card (pending_slots t)"
      using r by (simp_all add: journal_inv_def)
    note eff = e [OF lens]
    have "ej_entries s ! i \<in> journal_pending s'"
      if "i \<in> pending_slots s" "entry_key (ej_entries s ! i) \<noteq> (c, d)"
        "severityRank sev \<le> severityRank (ee_severity (ej_entries s ! i))" for i
    proof -
      have "i \<noteq> slot" using r that by auto
      then have "i \<in> pending_slots s'" "ej_entries s' ! i = ej_entries s ! i"
        using r that(1) eff(5,7) by auto
      then show ?thesis by (metis journal_pending_def imageI)
    qed
    moreover have "\<exists>e \<in> journal_pending s'. entry_key e = (c, d) \<and> ee_severity e = sev \<and> ee_last_ms e = now" if news
    proof -
      have "slot \<in> pending_slots s'" using eff(1,5) that by simp
      then show ?thesis using eff(8-10) r by (auto simp: journal_pending_def)
    qed
    ultimately show ?thesis by (auto simp: journal_pending_def)
  qed
  ultimately show ?thesis by blast
qed

theorem journal_keeps_unsent_witness:
  "let s = fold journal_step [JNote BatteryLowError 70 SevCritical 5] journal_reset;
       s' = snd (journal_note DxlReadFailed 3 SevWarning 6 s) in
   \<exists>e \<in> journal_pending s'. entry_key e = (BatteryLowError, 70) \<and> ee_severity e = SevCritical"
proof -
  let ?s = "fold journal_step [JNote BatteryLowError 70 SevCritical 5] journal_reset"
  obtain news s' where n: "journal_note DxlReadFailed 3 SevWarning 6 ?s = (news, s')" by fastforce
  have "0 \<in> pending_slots ?s \<and> entry_key (ej_entries ?s ! 0) = (BatteryLowError, 70) \<and>
      ee_severity (ej_entries ?s ! 0) = SevCritical"
    by (simp add: journal_note_def journal_reset_def journal_find_def journal_claim_def journal_record_def
        kMaxErrorEntries_def pending_slots_def entry_key_def ErrorEntry_default_def Let_def)
  then have "ej_entries ?s ! 0 \<in> journal_pending ?s" "entry_key (ej_entries ?s ! 0) = (BatteryLowError, 70)"
    "ee_severity (ej_entries ?s ! 0) = SevCritical"
    by (simp_all add: journal_pending_def)
  then show ?thesis
    using journal_keeps_unsent [OF refl n] unfolding n Let_def by (auto simp: n)
qed

text \<open>
  Draining returns an error exactly when one is pending, always one of the highest pending
  severity, and removes exactly its mark: the pending entries afterwards are the others.
\<close>

theorem journal_take_most_severe:
  assumes "s = fold journal_step ops journal_reset"
  shows "case takePending s of
           (None, s') \<Rightarrow> journal_pending s = {} \<and> s' = s
         | (Some e, s') \<Rightarrow> e \<in> journal_pending s \<and>
             (\<forall>e' \<in> journal_pending s. severityRank (ee_severity e') \<le> severityRank (ee_severity e)) \<and>
             journal_pending s' = journal_pending s - {e} \<and>
             ej_pending_count s = Suc (ej_pending_count s')"
proof -
  have inv: "journal_inv s" using assms journal_inv_run journal_inv_reset by blast
  then have i: "length (ej_pending s) = kMaxErrorEntries" "ej_count s \<le> kMaxErrorEntries"
    "pending_slots s \<subseteq> {..<ej_count s}" "ej_pending_count s = card (pending_slots s)"
    and inj: "inj_on (\<lambda>i. entry_key (ej_entries s ! i)) {..<ej_count s}"
    by (simp_all add: journal_inv_def)
  show ?thesis
  proof (cases "ej_pending_count s = 0")
    case True
    then show ?thesis using i(4) by (simp add: takePending_def journal_pending_def)
  next
    case pos: False
    then obtain j where j: "j \<in> pending_slots s" using i(4) by fastforce
    then have "j < ej_count s" "ej_pending s ! j" using i(3) by (auto simp: pending_slots_def)
    then obtain b where f: "fold (take_pick s) [0..<ej_count s] None = Some b"
      using take_fold [where s = s and n = "ej_count s"] by (cases "fold (take_pick s) [0..<ej_count s] None") auto
    have b: "b < ej_count s" "ej_pending s ! b"
      "\<forall>i < ej_count s. ej_pending s ! i \<longrightarrow>
         severityRank (ee_severity (ej_entries s ! i)) \<le> severityRank (ee_severity (ej_entries s ! b))"
      using take_fold [where s = s and n = "ej_count s"] f by simp_all
    have lt: "b < kMaxErrorEntries" using b(1) i(2) by simp
    have bp: "b \<in> pending_slots s" using b(2) lt by (simp add: pending_slots_def)
    let ?s' = "snd (takePending s)"
    have ps: "pending_slots ?s' = pending_slots s - {b}" "ej_entries ?s' = ej_entries s"
      "ej_pending_count ?s' = ej_pending_count s - 1"
      using pending_slots_update [OF i(1) lt, of False] f pos by (simp_all add: takePending_def pending_slots_def)
    have "inj_on (\<lambda>i. ej_entries s ! i) (pending_slots s)"
    proof (rule inj_onI)
      fix x y assume "x \<in> pending_slots s" "y \<in> pending_slots s" "ej_entries s ! x = ej_entries s ! y"
      then show "x = y" using inj_onD [OF inj, of x y] i(3) by auto
    qed
    then have "journal_pending ?s' = journal_pending s - {ej_entries s ! b}"
      unfolding journal_pending_def ps using bp by (simp add: inj_on_image_set_diff)
    moreover have "takePending s = (Some (ej_entries s ! b), ?s')" using f pos by (simp add: takePending_def)
    ultimately show ?thesis
      using b(3) bp i(3) ps(3) pos by (auto simp: journal_pending_def pending_slots_def subset_eq)
  qed
qed

definition journal_two :: ErrorJournal where
  "journal_two = fold journal_step [JNote DxlReadFailed 3 SevWarning 5, JNote BatteryLowError 70 SevCritical 6]
     journal_reset"

theorem journal_take_most_severe_witness:
  "case takePending journal_two of
     (None, s') \<Rightarrow> False
   | (Some e, s') \<Rightarrow> ee_severity e = SevCritical \<and> e \<notin> journal_pending s' \<and>
       ej_pending_count journal_two = Suc (ej_pending_count s')"
proof -
  have "1 \<in> pending_slots journal_two \<and> ee_severity (ej_entries journal_two ! 1) = SevCritical"
    by (simp add: journal_two_def journal_note_def journal_reset_def journal_find_def journal_claim_def
        journal_record_def kMaxErrorEntries_def pending_slots_def ErrorEntry_default_def Let_def upt_conv_Cons)
  then have crit: "ej_entries journal_two ! 1 \<in> journal_pending journal_two"
    "ee_severity (ej_entries journal_two ! 1) = SevCritical"
    by (simp_all add: journal_pending_def)
  have top: "ee_severity e = SevCritical" if "3 \<le> severityRank (ee_severity e)" for e :: ErrorEntry
    using that by (cases "ee_severity e") simp_all
  show ?thesis
    using journal_take_most_severe [OF journal_two_def] crit top by (fastforce split: option.splits)
qed

end
