(* ===== verification/Watchdog.thy ===== *)
theory Watchdog
  imports Prelude
begin

text \<open>
  The cooperative watchdog (\<open>safety/watchdog.h\<close>, \<open>safety/watchdog.cpp\<close>), in its target build:
  per-task heartbeat counters, the evaluation by the health task, the decision to arm and pet the
  hardware watchdog, and the diagnostics retained over a reset. The peripheral registers are not
  modelled: whether enabling the hardware watchdog succeeded is an argument of \<open>evaluate\<close>, and
  whether it was petted is part of the result.
\<close>

datatype TaskId = TaskControl | TaskDxl | TaskRc | TaskApi | TaskI2c | TaskHealth

fun taskIndex :: "TaskId \<Rightarrow> nat" where
  "taskIndex TaskControl = 0" | "taskIndex TaskDxl = 1" | "taskIndex TaskRc = 2" | "taskIndex TaskApi = 3"
| "taskIndex TaskI2c = 4" | "taskIndex TaskHealth = 5"

definition kTaskCount :: nat where "kTaskCount = 6"

definition kCriticalMask :: u32 where "kCriticalMask = push_bit 0 1 OR push_bit 1 1"

definition kRetainedMagic :: u32 where "kRetainedMagic = 0x57445431"

record RetainedWatchdogState =
  rw_magic :: u32
  rw_missed_mask :: u32
  rw_missed_mask_inverse :: u32
  rw_progress_marker :: u32
  rw_progress_marker_inverse :: u32
  rw_control_progress :: u32
  rw_safety_state :: u32

record Watchdog =
  wd_beats :: "u32 list"
  wd_lastSeen :: "u32 list"
  wd_missedMask :: u32
  wd_lastResetMissedMask :: u32
  wd_lastResetProgressMarker :: u8
  wd_lastResetControlProgress :: u8
  wd_lastResetSafetyState :: u8
  wd_retained :: RetainedWatchdogState
  wd_hwArmed :: bool
  wd_windowPrimed :: bool

definition retainedDiagnosticsValidRaw :: "Watchdog \<Rightarrow> bool" where
  "retainedDiagnosticsValidRaw w \<longleftrightarrow>
     (let r = wd_retained w in
      rw_magic r = kRetainedMagic \<and> rw_missed_mask_inverse r = NOT (rw_missed_mask r) \<and>
      rw_progress_marker_inverse r = NOT (rw_progress_marker r))"

definition wd_init :: "u8 \<Rightarrow> Watchdog \<Rightarrow> Watchdog" where
  "wd_init reset_cause w =
     (let adopt = (reset_cause AND 0x20 \<noteq> 0 \<and> retainedDiagnosticsValidRaw w); r = wd_retained w in
      \<lparr> wd_beats = replicate kTaskCount 0, wd_lastSeen = replicate kTaskCount 0, wd_missedMask = 0,
        wd_lastResetMissedMask = (if adopt then rw_missed_mask r else 0),
        wd_lastResetProgressMarker = (if adopt then ucast (rw_progress_marker r) else 0),
        wd_lastResetControlProgress = (if adopt then ucast (rw_control_progress r) else 0),
        wd_lastResetSafetyState = (if adopt then ucast (rw_safety_state r) else 0),
        wd_retained = \<lparr> rw_magic = kRetainedMagic, rw_missed_mask = 0, rw_missed_mask_inverse = NOT 0,
          rw_progress_marker = 0, rw_progress_marker_inverse = NOT 0, rw_control_progress = 0,
          rw_safety_state = 0 \<rparr>,
        wd_hwArmed = False, wd_windowPrimed = False \<rparr>)"

definition checkIn :: "TaskId \<Rightarrow> Watchdog \<Rightarrow> Watchdog" where
  "checkIn t w = w \<lparr> wd_beats := (wd_beats w)[taskIndex t := wd_beats w ! taskIndex t + 1] \<rparr>"

text \<open>The loop over the tasks: a bit for every counter that has not moved.\<close>

definition missed_of :: "Watchdog \<Rightarrow> u32" where
  "missed_of w = fold (\<lambda>i missed. if wd_beats w ! i = wd_lastSeen w ! i then missed OR push_bit i 1 else missed)
     [0..<kTaskCount] 0"

text \<open>\<open>hw_enable_ok\<close> is the result of enabling the hardware watchdog if the call tries to.\<close>

definition wd_evaluate :: "bool \<Rightarrow> Watchdog \<Rightarrow> bool \<times> Watchdog" where
  "wd_evaluate hw_enable_ok w =
     (if \<not> wd_windowPrimed w then
        (False, w \<lparr> wd_lastSeen := wd_beats w, wd_missedMask := 0,
                    wd_retained := (wd_retained w) \<lparr> rw_missed_mask := 0, rw_missed_mask_inverse := NOT 0 \<rparr>,
                    wd_windowPrimed := True \<rparr>)
      else
        let missed = missed_of w;
            w = w \<lparr> wd_lastSeen := wd_beats w, wd_missedMask := missed,
                    wd_retained := (wd_retained w) \<lparr> rw_missed_mask := missed,
                                                     rw_missed_mask_inverse := NOT missed \<rparr> \<rparr>;
            w = (if \<not> wd_hwArmed w \<and> missed AND kCriticalMask = 0 \<and> wd_beats w ! 0 \<noteq> 0 \<and> wd_beats w ! 1 \<noteq> 0
                 then w \<lparr> wd_hwArmed := hw_enable_ok \<rparr> else w)
        in (wd_hwArmed w \<and> missed AND kCriticalMask = 0, w))"

definition markProgress :: "u8 \<Rightarrow> Watchdog \<Rightarrow> Watchdog" where
  "markProgress m w = w \<lparr> wd_retained := (wd_retained w) \<lparr> rw_progress_marker := ucast m,
                                          rw_progress_marker_inverse := NOT (ucast m) \<rparr> \<rparr>"

definition markControlProgress :: "u8 \<Rightarrow> Watchdog \<Rightarrow> Watchdog" where
  "markControlProgress m w = w \<lparr> wd_retained := (wd_retained w) \<lparr> rw_control_progress := ucast m \<rparr> \<rparr>"

definition markSafetyState :: "u8 \<Rightarrow> Watchdog \<Rightarrow> Watchdog" where
  "markSafetyState m w = w \<lparr> wd_retained := (wd_retained w) \<lparr> rw_safety_state := ucast m \<rparr> \<rparr>"

definition criticalStalled :: "Watchdog \<Rightarrow> bool" where
  "criticalStalled w \<longleftrightarrow> wd_missedMask w AND kCriticalMask \<noteq> 0"

definition retainedMissedMaskRaw :: "Watchdog \<Rightarrow> u32" where
  "retainedMissedMaskRaw w = (if retainedDiagnosticsValidRaw w then rw_missed_mask (wd_retained w) else 0)"

definition retainedProgressMarkerRaw :: "Watchdog \<Rightarrow> u8" where
  "retainedProgressMarkerRaw w =
     (if retainedDiagnosticsValidRaw w then ucast (rw_progress_marker (wd_retained w)) else 0)"

definition retainedControlProgressRaw :: "Watchdog \<Rightarrow> u8" where
  "retainedControlProgressRaw w =
     (if retainedDiagnosticsValidRaw w then ucast (rw_control_progress (wd_retained w)) else 0)"

definition retainedSafetyStateRaw :: "Watchdog \<Rightarrow> u8" where
  "retainedSafetyStateRaw w =
     (if retainedDiagnosticsValidRaw w then ucast (rw_safety_state (wd_retained w)) else 0)"

section \<open>A window of heartbeats\<close>

lemma taskIndex_less: "taskIndex t < kTaskCount"
  by (cases t) (simp_all add: kTaskCount_def)

lemma taskIndex_inj: "taskIndex t = taskIndex u \<Longrightarrow> t = u"
  by (cases t; cases u) simp_all


lemma bit_missed_fold:
  "bit (fold (\<lambda>i missed. if P i then missed OR push_bit i 1 else missed) xs (m :: u32)) n \<longleftrightarrow>
     bit m n \<or> n < 32 \<and> n \<in> set xs \<and> P n"
  by (induction xs arbitrary: m) (auto simp: bit_simps)

lemma bit_missed_of: "bit (missed_of w) i \<longleftrightarrow> i < kTaskCount \<and> wd_beats w ! i = wd_lastSeen w ! i"
  by (auto simp: missed_of_def bit_missed_fold kTaskCount_def)

lemma critical_iff: "(m :: u32) AND kCriticalMask = 0 \<longleftrightarrow> \<not> bit m 0 \<and> \<not> bit m 1"
proof -
  have "kCriticalMask = mask 2" by (simp add: kCriticalMask_def mask_eq_exp_minus_1)
  then have "m AND kCriticalMask = take_bit 2 m" by (simp add: take_bit_eq_mask)
  moreover have "take_bit 2 m = 0 \<longleftrightarrow> (\<forall>n < 2. \<not> bit m n)"
    by (auto simp: bit_eq_iff bit_take_bit_iff dest: bit_imp_le_length)
  ultimately show ?thesis by (auto simp: less_2_cases_iff)
qed

lemma fold_checkIn:
  assumes "length (wd_beats w) = kTaskCount"
  shows "wd_beats (fold checkIn ts w) ! taskIndex t = wd_beats w ! taskIndex t + word_of_nat (length (filter ((=) t) ts))"
    and "length (wd_beats (fold checkIn ts w)) = kTaskCount"
    and "wd_lastSeen (fold checkIn ts w) = wd_lastSeen w" "wd_windowPrimed (fold checkIn ts w) = wd_windowPrimed w"
    and "wd_hwArmed (fold checkIn ts w) = wd_hwArmed w" "wd_retained (fold checkIn ts w) = wd_retained w"
  using assms taskIndex_less
  by (induction ts arbitrary: w)
     (auto simp: checkIn_def nth_list_update algebra_simps dest: taskIndex_inj)

lemma beats_unchanged:
  assumes "length (wd_beats w) = kTaskCount" and "length ts < 2 ^ 32"
  shows "wd_beats (fold checkIn ts w) ! taskIndex t = wd_beats w ! taskIndex t \<longleftrightarrow> t \<notin> set ts"
proof -
  let ?n = "length (filter ((=) t) ts)"
  have "?n < 2 ^ 32" using assms(2) length_filter_le [of "(=) t" ts] by linarith
  then have "unat (word_of_nat ?n :: u32) = ?n" by (simp add: unat_of_nat take_bit_nat_eq_self)
  then have "(word_of_nat ?n :: u32) = 0 \<longleftrightarrow> ?n = 0" by (metis unat_eq_zero)
  then show ?thesis using fold_checkIn(1) [OF assms(1)] by (auto simp: filter_empty_conv)
qed

section \<open>Reachable states\<close>

datatype wd_op =
    WdCheckIn TaskId | WdEvaluate bool | WdProgress u8 | WdControl u8 | WdSafety u8 | WdInit u8

fun wd_step :: "wd_op \<Rightarrow> Watchdog \<Rightarrow> Watchdog" where
  "wd_step (WdCheckIn t) w = checkIn t w"
| "wd_step (WdEvaluate ok) w = snd (wd_evaluate ok w)"
| "wd_step (WdProgress m) w = markProgress m w"
| "wd_step (WdControl m) w = markControlProgress m w"
| "wd_step (WdSafety m) w = markSafetyState m w"
| "wd_step (WdInit c) w = wd_init c w"

definition wd_inv :: "Watchdog \<Rightarrow> bool" where
  "wd_inv w \<longleftrightarrow> length (wd_beats w) = kTaskCount \<and> length (wd_lastSeen w) = kTaskCount \<and>
     retainedDiagnosticsValidRaw w \<and> rw_missed_mask (wd_retained w) = wd_missedMask w"

lemma wd_inv_init: "wd_inv (wd_init c w)"
  by (simp add: wd_inv_def wd_init_def retainedDiagnosticsValidRaw_def Let_def)

lemma wd_inv_step: "wd_inv w \<Longrightarrow> wd_inv (wd_step op w)"
  by (cases op)
     (auto simp: wd_inv_init, auto simp: wd_inv_def checkIn_def wd_evaluate_def markProgress_def
       markControlProgress_def markSafetyState_def retainedDiagnosticsValidRaw_def Let_def)

lemma wd_inv_run: "wd_inv w \<Longrightarrow> wd_inv (fold wd_step ops w)"
  by (induction ops arbitrary: w) (simp_all add: wd_inv_step)

text \<open>
  C32: the watchdog sees exactly the tasks that stopped. Take any state after start-up in which a
  window begins (an evaluation has just run), let the tasks check in in any order, fewer than
  \<open>2 ^ 32\<close> times, and evaluate: the missed mask has exactly the bits of the tasks that did not check
  in. The hardware watchdog is petted only if both motion-critical tasks did, and always then once it
  is armed; so a stalled control or bus task always lets it expire. If it expires, the mask is what
  the next boot reports.
\<close>

theorem watchdog_detects_stall:
  assumes "w = fold wd_step ops (wd_init c w0)" and "w1 = snd (wd_evaluate ok1 w)" and "length ts < 2 ^ 32"
    and "wd_evaluate ok2 (fold checkIn ts w1) = (pet, w2)"
  shows "(\<forall>t. bit (wd_missedMask w2) (taskIndex t) \<longleftrightarrow> t \<notin> set ts) \<and>
         (pet \<longrightarrow> TaskControl \<in> set ts \<and> TaskDxl \<in> set ts) \<and>
         (wd_hwArmed w1 \<and> TaskControl \<in> set ts \<and> TaskDxl \<in> set ts \<longrightarrow> pet) \<and>
         criticalStalled w2 = (\<not> (TaskControl \<in> set ts \<and> TaskDxl \<in> set ts)) \<and>
         wd_lastResetMissedMask (wd_init 0x20 w2) = wd_missedMask w2"
proof -
  let ?w = "fold checkIn ts w1"
  have inv: "wd_inv w" using assms(1) wd_inv_run wd_inv_init by blast
  then have inv1: "wd_inv w1" using wd_inv_step [of w "WdEvaluate ok1"] assms(2) by simp
  have len: "length (wd_beats w1) = kTaskCount" using inv1 by (simp add: wd_inv_def)
  have start: "wd_lastSeen w1 = wd_beats w1" "wd_windowPrimed w1"
    unfolding assms(2) by (auto simp: wd_evaluate_def Let_def)
  note fc = fold_checkIn [OF len, of ts]
  have miss: "bit (missed_of ?w) (taskIndex t) \<longleftrightarrow> t \<notin> set ts" for t
    using beats_unchanged [OF len assms(3), of t] taskIndex_less [of t] start fc(3)
    by (simp add: bit_missed_of)
  have crit: "missed_of ?w AND kCriticalMask = 0 \<longleftrightarrow> TaskControl \<in> set ts \<and> TaskDxl \<in> set ts"
    using miss [of TaskControl] miss [of TaskDxl] by (simp add: critical_iff)
  have ev: "wd_missedMask w2 = missed_of ?w" "pet = (wd_hwArmed w2 \<and> missed_of ?w AND kCriticalMask = 0)"
    "wd_hwArmed w1 \<longrightarrow> wd_hwArmed w2"
    using assms(4) start(2) fc(4,5) by (auto simp: wd_evaluate_def Let_def split: if_splits)
  have "fold checkIn ts w1 = fold wd_step (map WdCheckIn ts) w1" by (induction ts arbitrary: w1) simp_all
  then have "wd_inv ?w" using wd_inv_run [OF inv1] by simp
  then have inv2: "wd_inv w2" using wd_inv_step [of ?w "WdEvaluate ok2"] assms(4) by simp
  have "wd_lastResetMissedMask (wd_init 0x20 w2) = wd_missedMask w2"
    using inv2 by (simp add: wd_init_def wd_inv_def Let_def)
  then show ?thesis using miss crit ev by (simp add: criticalStalled_def)
qed

definition wd_sample :: Watchdog where
  "wd_sample = \<lparr> wd_beats = [], wd_lastSeen = [], wd_missedMask = 0, wd_lastResetMissedMask = 0,
     wd_lastResetProgressMarker = 0, wd_lastResetControlProgress = 0, wd_lastResetSafetyState = 0,
     wd_retained = \<lparr> rw_magic = 0, rw_missed_mask = 0, rw_missed_mask_inverse = 0, rw_progress_marker = 0,
       rw_progress_marker_inverse = 0, rw_control_progress = 0, rw_safety_state = 0 \<rparr>,
     wd_hwArmed = False, wd_windowPrimed = False \<rparr>"

theorem watchdog_detects_stall_witness:
  "case wd_evaluate True (fold checkIn [TaskControl, TaskRc, TaskControl]
          (snd (wd_evaluate True (fold wd_step [WdCheckIn TaskDxl] (wd_init 1 wd_sample))))) of
     (pet, w2) \<Rightarrow> \<not> pet \<and> criticalStalled w2 \<and> bit (wd_missedMask w2) (taskIndex TaskDxl) \<and>
       \<not> bit (wd_missedMask w2) (taskIndex TaskControl)"
proof -
  let ?w1 = "snd (wd_evaluate True (fold wd_step [WdCheckIn TaskDxl] (wd_init 1 wd_sample)))"
  obtain pet w2 where e: "wd_evaluate True (fold checkIn [TaskControl, TaskRc, TaskControl] ?w1) = (pet, w2)"
    by (rule prod.exhaust)
  have "length [TaskControl, TaskRc, TaskControl] < 2 ^ 32" by simp
  note r = watchdog_detects_stall [OF refl refl this e]
  have s: "TaskDxl \<notin> set [TaskControl, TaskRc, TaskControl]" "TaskControl \<in> set [TaskControl, TaskRc, TaskControl]"
    by simp_all
  from r s have "\<not> pet \<and> criticalStalled w2 \<and> bit (wd_missedMask w2) (taskIndex TaskDxl) \<and>
       \<not> bit (wd_missedMask w2) (taskIndex TaskControl)" by blast
  then show ?thesis unfolding e prod.case .
qed

end
