(* ===== verification/Telemetry.thy ===== *)
theory Telemetry
  imports ApiResponse
begin

text \<open>
  Rate-limited telemetry subscriptions (\<open>protocol/telemetry.h\<close>, \<open>protocol/telemetry.cpp\<close>): the
  per-stream state, the SUBSCRIBE command group and the emit gate that the api task polls. A
  \<open>StreamId\<close> is its wire number, because the handler casts the id of the request and the
  operations check it themselves.
\<close>

datatype StreamId =
    StreamHealth | StreamControlState | StreamServoStatus | StreamContactState | StreamI2cSensorsRaw
  | StreamRcInput | StreamApiStats | StreamJointState | StreamServoGoals | StreamLegState
  | StreamControllerState | StreamRcDiagnostics | StreamHilStatus | StreamBenchmark

fun streamIndex :: "StreamId \<Rightarrow> nat" where
  "streamIndex StreamHealth = 0" | "streamIndex StreamControlState = 1" | "streamIndex StreamServoStatus = 2"
| "streamIndex StreamContactState = 3" | "streamIndex StreamI2cSensorsRaw = 4" | "streamIndex StreamRcInput = 5"
| "streamIndex StreamApiStats = 6" | "streamIndex StreamJointState = 7" | "streamIndex StreamServoGoals = 8"
| "streamIndex StreamLegState = 9" | "streamIndex StreamControllerState = 10"
| "streamIndex StreamRcDiagnostics = 11" | "streamIndex StreamHilStatus = 12" | "streamIndex StreamBenchmark = 13"

definition kNumStreams :: nat where "kNumStreams = 14"

definition isTelemetryMsg :: "u8 \<Rightarrow> bool" where
  "isTelemetryMsg mid \<longleftrightarrow> 0x10 \<le> mid \<and> mid \<le> 0x13"

datatype SubResult = SubOk | SubBadStream | SubBadRequestT

fun subResultCode :: "SubResult \<Rightarrow> u8" where
  "subResultCode SubOk = 0" | "subResultCode SubBadStream = 1" | "subResultCode SubBadRequestT = 2"

definition kMinRateHz :: u16 where "kMinRateHz = 1"

definition kMaxRate :: "u16 list" where
  "kMaxRate = [10, 100, 50, 100, 100, 50, 10, 50, 50, 50, 50, 50, 10, 10]"

record StreamState =
  ss_enabled :: bool
  ss_primed :: bool
  ss_rate_hz :: u16
  ss_interval_ms :: u16
  ss_last_emit_ms :: u32
  ss_emitted :: u32
  ss_dropped :: u32

definition StreamState_default :: StreamState where
  "StreamState_default = \<lparr> ss_enabled = False, ss_primed = False, ss_rate_hz = 0, ss_interval_ms = 0,
     ss_last_emit_ms = 0, ss_emitted = 0, ss_dropped = 0 \<rparr>"

record SubscriptionManager =
  sub_streams :: "StreamState list"
  sub_tx_backlog :: u32

definition validStream :: "nat \<Rightarrow> bool" where
  "validStream i \<longleftrightarrow> i < kNumStreams"

definition maxRateHz :: "nat \<Rightarrow> u16" where
  "maxRateHz i = (if i \<ge> kNumStreams then 0 else kMaxRate ! i)"

definition clampRate :: "nat \<Rightarrow> u16 \<Rightarrow> u16" where
  "clampRate i rate_hz =
     (let mx = maxRateHz i in if rate_hz < kMinRateHz then kMinRateHz else if rate_hz > mx then mx else rate_hz)"

definition sub_reset :: SubscriptionManager where
  "sub_reset = \<lparr> sub_streams = replicate kNumStreams StreamState_default, sub_tx_backlog = 0 \<rparr>"

text \<open>\<open>static_cast<uint16_t>(1000u / eff)\<close>, and 1 when that is 0.\<close>

definition interval_of :: "u16 \<Rightarrow> u16" where
  "interval_of eff = (let i = ucast (1000 div (ucast eff :: u32)) in if i = 0 then 1 else i)"

definition sub_subscribe :: "nat \<Rightarrow> u16 \<Rightarrow> SubscriptionManager \<Rightarrow> u16 \<times> SubscriptionManager" where
  "sub_subscribe i rate_hz s =
     (if \<not> validStream i then (0, s)
      else let eff = clampRate i rate_hz;
               st = (sub_streams s ! i) \<lparr> ss_enabled := True, ss_primed := False, ss_rate_hz := eff,
                                          ss_interval_ms := interval_of eff \<rparr>
           in (eff, s \<lparr> sub_streams := (sub_streams s)[i := st] \<rparr>))"

definition sub_setRate :: "nat \<Rightarrow> u16 \<Rightarrow> SubscriptionManager \<Rightarrow> u16 \<times> SubscriptionManager" where
  "sub_setRate i rate_hz s =
     (if \<not> validStream i then (0, s)
      else let eff = clampRate i rate_hz;
               st = (sub_streams s ! i) \<lparr> ss_rate_hz := eff, ss_interval_ms := interval_of eff,
                                          ss_primed := False \<rparr>
           in (eff, s \<lparr> sub_streams := (sub_streams s)[i := st] \<rparr>))"

definition sub_unsubscribe :: "nat \<Rightarrow> SubscriptionManager \<Rightarrow> SubscriptionManager" where
  "sub_unsubscribe i s =
     (if \<not> validStream i then s
      else s \<lparr> sub_streams := (sub_streams s)[i := (sub_streams s ! i) \<lparr> ss_enabled := False, ss_primed := False \<rparr>] \<rparr>)"

definition sub_enabled :: "nat \<Rightarrow> SubscriptionManager \<Rightarrow> bool" where
  "sub_enabled i s \<longleftrightarrow> validStream i \<and> ss_enabled (sub_streams s ! i)"

definition sub_rateHz :: "nat \<Rightarrow> SubscriptionManager \<Rightarrow> u16" where
  "sub_rateHz i s = (if \<not> validStream i then 0 else ss_rate_hz (sub_streams s ! i))"

text \<open>The gate of one stream; \<open>shouldEmit\<close> applies it to the addressed slot.\<close>

definition stream_poll :: "u32 \<Rightarrow> StreamState \<Rightarrow> bool \<times> StreamState" where
  "stream_poll now st =
     (if \<not> ss_enabled st \<or> ss_interval_ms st = 0 then (False, st)
      else if \<not> ss_primed st
      then (True, st \<lparr> ss_primed := True, ss_last_emit_ms := now, ss_emitted := ss_emitted st + 1 \<rparr>)
      else
        let interval = ucast (ss_interval_ms st); age = elapsed now (ss_last_emit_ms st) in
        if age < interval then (False, st)
        else let slots = age div interval in
          (True, st \<lparr> ss_dropped := (if slots > 1 then ss_dropped st + (slots - 1) else ss_dropped st),
                      ss_last_emit_ms := ss_last_emit_ms st + slots * interval,
                      ss_emitted := ss_emitted st + 1 \<rparr>))"

definition shouldEmit :: "nat \<Rightarrow> u32 \<Rightarrow> SubscriptionManager \<Rightarrow> bool \<times> SubscriptionManager" where
  "shouldEmit i now s =
     (if \<not> validStream i then (False, s)
      else let (e, st) = stream_poll now (sub_streams s ! i) in
           (e, s \<lparr> sub_streams := (sub_streams s)[i := st] \<rparr>))"

definition noteTxBacklog :: "SubscriptionManager \<Rightarrow> SubscriptionManager" where
  "noteTxBacklog s = s \<lparr> sub_tx_backlog := sub_tx_backlog s + 1 \<rparr>"

definition stream_stats :: "nat \<Rightarrow> StreamState \<Rightarrow> bytes" where
  "stream_stats i st = [word_of_nat i, (if ss_enabled st then 1 else 0)] @ put_u16 (ss_rate_hz st)
     @ put_u32 (ss_emitted st) @ put_u32 (ss_dropped st)"

definition telemetry_handle :: "SubscriptionManager handler" where
  "telemetry_handle mid req cap s =
     (if \<not> isTelemetryMsg mid then None
      else if mid = 0x10 \<or> mid = 0x12 then
        if length req < 3 \<or> cap < 4 then Some (err_response (subResultCode SubBadRequestT), s)
        else let sid = req ! 0; rate = u16_at req 1 in
          if \<not> validStream (unat sid)
          then Some (\<lparr> resp_bytes = [subResultCode SubBadStream, sid], resp_flags = 0x02 \<rparr>, s)
          else let (eff, s) = (if mid = 0x10 then sub_subscribe (unat sid) rate s else sub_setRate (unat sid) rate s) in
            Some (\<lparr> resp_bytes = [subResultCode SubOk, sid] @ put_u16 eff, resp_flags = 0 \<rparr>, s)
      else if mid = 0x11 then
        if length req < 1 \<or> cap < 2 then Some (err_response (subResultCode SubBadRequestT), s)
        else let sid = req ! 0 in
          if \<not> validStream (unat sid)
          then Some (\<lparr> resp_bytes = [subResultCode SubBadStream, sid], resp_flags = 0x02 \<rparr>, s)
          else Some (\<lparr> resp_bytes = [subResultCode SubOk, sid], resp_flags = 0 \<rparr>, sub_unsubscribe (unat sid) s)
      else if mid = 0x13 then
        if cap < 1 + 4 + kNumStreams * 12 then Some (err_response (subResultCode SubBadRequestT), s)
        else Some (\<lparr> resp_bytes = [word_of_nat kNumStreams] @ put_u32 (sub_tx_backlog s)
                       @ concat (map (\<lambda>i. stream_stats i (sub_streams s ! i)) [0..<kNumStreams]),
                     resp_flags = 0 \<rparr>, s)
      else None)"

lemma length_stream_stats [simp]: "length (stream_stats i st) = 12"
  by (simp add: stream_stats_def)

lemma length_all_stats [simp]: "length (concat (map (\<lambda>i. stream_stats i (f i)) is)) = 12 * length is"
  by (induction "is") simp_all

interpretation telemetry_group: command_group telemetry_handle isTelemetryMsg
  by unfold_locales
     (auto simp: telemetry_handle_def err_response_def kNumStreams_def Let_def split: if_splits prod.splits)

section \<open>Rates stay within the limits\<close>

datatype telemetry_op = TelPoll nat u32 | TelBacklog | TelReset | TelFrame u8 bytes nat

fun telemetry_step :: "telemetry_op \<Rightarrow> SubscriptionManager \<Rightarrow> SubscriptionManager" where
  "telemetry_step (TelPoll i now) s = snd (shouldEmit i now s)"
| "telemetry_step TelBacklog s = noteTxBacklog s"
| "telemetry_step TelReset s = sub_reset"
| "telemetry_step (TelFrame mid req cap) s =
     (case telemetry_handle mid req cap s of Some (r, s') \<Rightarrow> s' | None \<Rightarrow> s)"

definition stream_ok :: "nat \<Rightarrow> StreamState \<Rightarrow> bool" where
  "stream_ok i st \<longleftrightarrow>
     (ss_rate_hz st = 0 \<and> ss_interval_ms st = 0 \<and> \<not> ss_enabled st) \<or>
     (1 \<le> ss_rate_hz st \<and> ss_rate_hz st \<le> maxRateHz i \<and> ss_interval_ms st = interval_of (ss_rate_hz st))"

definition telemetry_inv :: "SubscriptionManager \<Rightarrow> bool" where
  "telemetry_inv s \<longleftrightarrow> length (sub_streams s) = kNumStreams \<and> (\<forall>i < kNumStreams. stream_ok i (sub_streams s ! i))"

lemma maxRate_pos: "i < kNumStreams \<Longrightarrow> 1 \<le> maxRateHz i \<and> maxRateHz i \<le> 100"
proof -
  have "\<forall>i \<in> set [0..<14]. 1 \<le> kMaxRate ! i \<and> kMaxRate ! i \<le> 100" by (simp add: kMaxRate_def upt_conv_Cons)
  then show "i < kNumStreams \<Longrightarrow> 1 \<le> maxRateHz i \<and> maxRateHz i \<le> 100" by (simp add: maxRateHz_def kNumStreams_def)
qed

lemma word_ge_1: "1 \<le> (r :: u16) \<longleftrightarrow> r \<noteq> 0"
  by (simp add: word_le_nat_alt Suc_le_eq unat_gt_0)

lemma clampRate_bounds: "i < kNumStreams \<Longrightarrow> 1 \<le> clampRate i r \<and> clampRate i r \<le> maxRateHz i"
  using maxRate_pos [of i] by (auto simp: clampRate_def kMinRateHz_def Let_def not_less word_ge_1)

lemma stream_ok_poll: "stream_ok i st \<Longrightarrow> stream_ok i (snd (stream_poll now st))"
  by (auto simp: stream_ok_def stream_poll_def Let_def)

lemma telemetry_inv_update:
  assumes "telemetry_inv s" and "i < kNumStreams" and "stream_ok i st"
  shows "telemetry_inv (s \<lparr> sub_streams := (sub_streams s)[i := st] \<rparr>)"
  using assms by (auto simp: telemetry_inv_def nth_list_update)

lemma telemetry_inv_set:
  assumes "telemetry_inv s"
  shows "telemetry_inv (snd (sub_subscribe i r s))" and "telemetry_inv (snd (sub_setRate i r s))"
    and "telemetry_inv (sub_unsubscribe i s)"
  using assms clampRate_bounds [of i r]
  by (auto simp: sub_subscribe_def sub_setRate_def sub_unsubscribe_def validStream_def Let_def stream_ok_def
      telemetry_inv_def nth_list_update)

lemma telemetry_inv_step: "telemetry_inv s \<Longrightarrow> telemetry_inv (telemetry_step op s)"
proof (cases op)
  case (TelPoll i now)
  then show "telemetry_inv s \<Longrightarrow> telemetry_inv (telemetry_step op s)"
    using telemetry_inv_update [of s i "snd (stream_poll now (sub_streams s ! i))"]
      stream_ok_poll [of i "sub_streams s ! i" now]
    by (auto simp: shouldEmit_def validStream_def telemetry_inv_def split: prod.splits)
next
  case (TelFrame mid req cap)
  then show "telemetry_inv s \<Longrightarrow> telemetry_inv (telemetry_step op s)"
    using telemetry_inv_set(1,2) [of s "unat (req ! 0)" "u16_at req 1"] telemetry_inv_set(3) [of s]
    by (auto simp: telemetry_handle_def Let_def split: option.splits if_splits prod.splits)
qed (auto simp: noteTxBacklog_def telemetry_inv_def sub_reset_def StreamState_default_def stream_ok_def)

lemma telemetry_inv_run: "telemetry_inv s \<Longrightarrow> telemetry_inv (fold telemetry_step ops s)"
  by (induction ops arbitrary: s) (simp_all add: telemetry_inv_step)

lemma telemetry_inv_reset: "telemetry_inv sub_reset"
  using telemetry_inv_step [where op = TelReset]
  by (simp add: telemetry_inv_def sub_reset_def StreamState_default_def stream_ok_def)

section \<open>Every interval is either sent or counted\<close>

text \<open>One poll in terms of the true time: \<open>L\<close> is the last slot, \<open>t\<close> the time of the poll.\<close>

lemma stream_poll_nat:
  assumes en: "ss_enabled st" "ss_primed st" and iv: "ss_interval_ms st = iv" "iv \<noteq> 0"
    and L: "ss_last_emit_ms st = word_of_nat L" "L \<le> t" "t < L + 2 ^ 32"
  shows "stream_poll (word_of_nat t) st =
    (let k = (t - L) div unat iv in
     if k = 0 then (False, st)
     else (True, st \<lparr> ss_dropped := ss_dropped st + word_of_nat (k - 1),
                       ss_last_emit_ms := word_of_nat (L + k * unat iv), ss_emitted := ss_emitted st + 1 \<rparr>))"
proof -
  have age: "elapsed (word_of_nat t) (ss_last_emit_ms st) = word_of_nat (t - L)"
    using L by simp
  have small: "t - L < 2 ^ 32" using L by simp
  then have un: "unat (word_of_nat (t - L) :: u32) = t - L" by (simp add: unat_of_nat take_bit_nat_eq_self)
  have pos: "0 < unat iv" using iv(2) by (simp add: unat_gt_0)
  have k32: "(t - L) div unat iv < 2 ^ 32" using le_less_trans [OF div_le_dividend small] .
  have dv: "(word_of_nat (t - L) :: u32) div ucast iv = word_of_nat ((t - L) div unat iv)"
    by (rule word_unat_eq_iff [THEN iffD2]) (simp only: unat_div un unat_ucast_16_32, use k32 in
        \<open>simp add: unat_of_nat take_bit_nat_eq_self\<close>)
  have lt: "(word_of_nat (t - L) :: u32) < ucast iv \<longleftrightarrow> (t - L) div unat iv = 0"
    using pos by (simp add: word_less_nat_alt un div_eq_0_iff)
  have one: "(word_of_nat k :: u32) > 1 \<longleftrightarrow> k > 1" if "k < 2 ^ 32" for k
    using that by (simp add: word_less_nat_alt unat_of_nat take_bit_nat_eq_self)
  have sl: "(word_of_nat k :: u32) * ucast iv = word_of_nat (k * unat iv)" for k
    by (simp add: of_nat_unat)
  have drop: "(if (word_of_nat k :: u32) > 1 then d + (word_of_nat k - 1) else d) = d + word_of_nat (k - 1)"
    if "k < 2 ^ 32" "k \<noteq> 0" for k and d :: u32
    using that by (cases "k = 1") (auto simp: one)
  show ?thesis
  proof (cases "(t - L) div unat iv = 0")
    case True
    then show ?thesis unfolding stream_poll_def Let_def age iv(1) lt using en iv(2) by simp
  next
    case False
    have "stream_poll (word_of_nat t) st =
      (True, st \<lparr> ss_dropped := ss_dropped st + word_of_nat ((t - L) div unat iv - 1),
         ss_last_emit_ms := ss_last_emit_ms st + word_of_nat ((t - L) div unat iv * unat iv),
         ss_emitted := ss_emitted st + 1 \<rparr>)"
      unfolding stream_poll_def Let_def age iv(1) lt dv sl drop [OF k32 False] using en iv(2) False by simp
    then show ?thesis using False L(1) by (simp add: Let_def)
  qed
qed

fun poll_all :: "nat \<Rightarrow> nat list \<Rightarrow> SubscriptionManager \<Rightarrow> nat \<times> SubscriptionManager" where
  "poll_all i [] s = (0, s)"
| "poll_all i (t # ts) s =
     (let (e, s) = shouldEmit i (word_of_nat t) s; (n, s) = poll_all i ts s in ((if e then 1 else 0) + n, s))"

lemma shouldEmit_slot:
  assumes "i < kNumStreams" and "length (sub_streams s) = kNumStreams"
  shows "fst (shouldEmit i now s) = fst (stream_poll now (sub_streams s ! i))"
    and "sub_streams (snd (shouldEmit i now s)) ! i = snd (stream_poll now (sub_streams s ! i))"
    and "length (sub_streams (snd (shouldEmit i now s))) = kNumStreams"
  using assms by (auto simp: shouldEmit_def validStream_def split: prod.splits)

lemma poll_all_conserves:
  assumes "i < kNumStreams" and "length (sub_streams s) = kNumStreams" and "st = sub_streams s ! i"
    and "ss_enabled st" "ss_primed st" and "ss_interval_ms st \<noteq> 0"
    and "ss_last_emit_ms st = word_of_nat L" and "sorted (L # ts)" and "last (L # ts) < L + 2 ^ 32"
    and "poll_all i ts s = (n, s')"
  shows "\<exists>d. n + d = (last (L # ts) - L) div unat (ss_interval_ms st) \<and>
             ss_emitted (sub_streams s' ! i) = ss_emitted st + word_of_nat n \<and>
             ss_dropped (sub_streams s' ! i) = ss_dropped st + word_of_nat d"
  using assms
proof (induction ts arbitrary: s st L n)
  case Nil
  then show ?case by (auto intro!: exI [where x = 0])
next
  case (Cons t ts)
  let ?iv = "unat (ss_interval_ms st)"
  define k where "k = (t - L) div ?iv"
  define s1 where "s1 = snd (shouldEmit i (word_of_nat t) s)"
  define st1 where "st1 = sub_streams s1 ! i"
  define L1 where "L1 = L + k * ?iv"
  obtain m where m: "poll_all i ts s1 = (m, s')" and n: "n = (if fst (shouldEmit i (word_of_nat t) s) then 1 else 0) + m"
    using Cons.prems(10) by (auto simp: s1_def Let_def split: prod.splits)
  have t: "L \<le> t" "t \<le> last (L # t # ts)" "sorted (t # ts)"
    using Cons.prems(8) by (auto simp: last_in_set split: if_splits dest: bspec [OF _ last_in_set])
  then have poll: "stream_poll (word_of_nat t) st = (if k = 0 then (False, st)
     else (True, st \<lparr> ss_dropped := ss_dropped st + word_of_nat (k - 1),
                       ss_last_emit_ms := word_of_nat L1, ss_emitted := ss_emitted st + 1 \<rparr>))"
    using stream_poll_nat [OF Cons.prems(4,5) refl Cons.prems(6,7) t(1)] Cons.prems(9)
    by (simp add: k_def L1_def Let_def)
  note slot = shouldEmit_slot [OF Cons.prems(1,2), of "word_of_nat t", folded s1_def Cons.prems(3)]
  have "k * ?iv \<le> t - L" by (simp add: k_def)
  then have L1: "L1 \<le> t" "L \<le> L1" using t(1) unfolding L1_def by linarith+
  have st1: "ss_enabled st1" "ss_primed st1" "ss_interval_ms st1 = ss_interval_ms st"
    "ss_last_emit_ms st1 = word_of_nat L1" "ss_emitted st1 = ss_emitted st + (if k = 0 then 0 else 1)"
    "ss_dropped st1 = ss_dropped st + word_of_nat (k - 1)"
    using Cons.prems(4,5,7) slot(2) by (auto simp: st1_def poll L1_def)
  have sorted: "sorted (L1 # ts)" using t(3) L1(1) by auto
  have lastle: "last (L1 # ts) \<le> last (L # t # ts)" "last (L1 # ts) < L1 + 2 ^ 32"
    using Cons.prems(9) L1 t(2) by (auto split: if_splits)
  obtain d where d: "m + d = (last (L1 # ts) - L1) div ?iv"
    "ss_emitted (sub_streams s' ! i) = ss_emitted st1 + word_of_nat m"
    "ss_dropped (sub_streams s' ! i) = ss_dropped st1 + word_of_nat d"
    using Cons.IH [OF Cons.prems(1) slot(3) st1_def st1(1,2) _ st1(4) sorted lastle(2) m] st1(3) Cons.prems(6)
    by auto
  have pos: "0 < ?iv" using Cons.prems(6) by (simp add: unat_gt_0)
  have "(last (L # t # ts) - L) div ?iv = k + (m + d)"
  proof (cases "ts = []")
    case False
    then have "last (L # t # ts) - L = last (L1 # ts) - L1 + k * ?iv"
      using lastle L1 t(2) by (simp add: L1_def)
    then show ?thesis using pos d(1) by simp
  qed (use d(1) in \<open>simp add: k_def\<close>)
  moreover have "n = (if k = 0 then 0 else 1) + m" using n slot(1) by (simp add: poll)
  ultimately show ?case
    using d(2,3) st1(5,6) by (intro exI [where x = "k - 1 + d"]) auto
qed

lemma unat_interval_of:
  assumes "1 \<le> r" and "r \<le> 100"
  shows "unat (interval_of r) = 1000 div unat r" and "10 \<le> 1000 div unat r"
proof -
  have r: "1 \<le> unat r" "unat r \<le> 100" using assms by (simp_all add: word_le_nat_alt)
  then show ten: "10 \<le> 1000 div unat r" using div_le_mono2 [of "unat r" 100 1000] by simp
  have le: "1000 div unat r \<le> 1000" by simp
  have q: "unat (1000 div (ucast r :: u32)) = 1000 div unat r" by (simp add: unat_div)
  have c: "unat (ucast (1000 div (ucast r :: u32)) :: u16) = 1000 div unat r"
    using le_less_trans [OF le, of "2 ^ 16"] by (simp add: unsigned_ucast_eq q take_bit_nat_eq_self)
  then have "(ucast (1000 div (ucast r :: u32)) :: u16) \<noteq> 0" using ten unat_eq_zero by fastforce
  then show "unat (interval_of r) = 1000 div unat r" by (simp add: interval_of_def Let_def c)
qed

text \<open>
  Rate limiting loses nothing silently. Take any history of commands, polls and resets, a stream
  that is subscribed and has sent its first frame in slot time \<open>L\<close>, and poll it at any
  non-decreasing times over less than a full turn of the millisecond counter. Its rate is between
  1 Hz and the maximum of the stream, and the frames sent plus the frames added to the drop counter
  are exactly the whole intervals of \<open>1000 / rate\<close> ms that have passed since \<open>L\<close>; in particular
  never more than one frame per interval is sent.
\<close>

theorem telemetry_slots_accounted:
  assumes "s = fold telemetry_step ops sub_reset" and "i < kNumStreams" and "st = sub_streams s ! i"
    and "ss_enabled st" and "ss_primed st" and "ss_last_emit_ms st = word_of_nat L"
    and "sorted (L # ts)" and "last (L # ts) < L + 2 ^ 32"
    and "poll_all i ts s = (n, s')"
  shows "1 \<le> ss_rate_hz st \<and> ss_rate_hz st \<le> maxRateHz i \<and>
         (\<exists>d. n + d = (last (L # ts) - L) div (1000 div unat (ss_rate_hz st)) \<and>
              ss_emitted (sub_streams s' ! i) = ss_emitted st + word_of_nat n \<and>
              ss_dropped (sub_streams s' ! i) = ss_dropped st + word_of_nat d)"
proof -
  have inv: "telemetry_inv s" using assms(1) telemetry_inv_run telemetry_inv_reset by simp
  then have r: "1 \<le> ss_rate_hz st" "ss_rate_hz st \<le> maxRateHz i" "ss_interval_ms st = interval_of (ss_rate_hz st)"
    and len: "length (sub_streams s) = kNumStreams"
    using assms(2-4) by (auto simp: telemetry_inv_def stream_ok_def)
  have "ss_rate_hz st \<le> 100" using r(2) maxRate_pos [OF assms(2)] by (meson order_trans)
  note iv = unat_interval_of [OF r(1) this, folded r(3)]
  have "ss_interval_ms st \<noteq> 0" using iv by fastforce
  from poll_all_conserves [OF assms(2) len assms(3-5) this assms(6-9)] show ?thesis
    unfolding iv(1) using r(1,2) by blast
qed

theorem telemetry_slots_accounted_witness:
  "let s = fold telemetry_step [TelFrame 0x10 [5, 200, 0] 64, TelPoll 5 7] sub_reset;
       (n, s') = poll_all 5 [10, 27, 100] s in
   n = 2 \<and> ss_rate_hz (sub_streams s ! 5) \<le> 50 \<and>
   (\<exists>d. n + d = 4 \<and> ss_dropped (sub_streams s' ! 5) = word_of_nat d)"
proof -
  let ?s = "fold telemetry_step [TelFrame 0x10 [5, 200, 0] 64, TelPoll 5 7] sub_reset"
  have st: "sub_streams ?s ! 5 = \<lparr> ss_enabled = True, ss_primed = True, ss_rate_hz = 50, ss_interval_ms = 20,
      ss_last_emit_ms = 7, ss_emitted = 1, ss_dropped = 0 \<rparr>" by code_simp
  obtain n s' where p: "poll_all 5 [10, 27, 100] ?s = (n, s')" by (rule prod.exhaust)
  have n: "fst (poll_all 5 [10, 27, 100] ?s) = 2" by code_simp
  have "5 < kNumStreams" "ss_enabled (sub_streams ?s ! 5)" "ss_primed (sub_streams ?s ! 5)"
    "ss_last_emit_ms (sub_streams ?s ! 5) = word_of_nat 7" "sorted [7, 10, 27, 100 :: nat]"
    "last [7, 10, 27, 100 :: nat] < 7 + 2 ^ 32"
    unfolding st by (simp_all add: kNumStreams_def)
  note r = telemetry_slots_accounted [OF refl this(1) refl this(2-6) p]
  have mx: "maxRateHz 5 = 50" by code_simp
  show ?thesis using r n unfolding Let_def p mx st by simp
qed

end
