(* ===== verification/ObserverApi.thy ===== *)
theory ObserverApi
  imports ApiResponse
begin

text \<open>
  The output guard of the hardware-in-the-loop image (\<open>hil/output_guard.h\<close>,
  \<open>hil/output_guard.cpp\<close>) and the observer command group (\<open>hil/observer_api.h\<close>,
  \<open>hil/observer_api.cpp\<close>): observer sessions, capture requests, markers and aborts. Whether the
  image was built with disabled outputs is a field of both states. The guard is modelled in the
  configurations that record blocked goals.
\<close>

section \<open>Output guard\<close>

record OutputGuardStatus =
  og_output_disabled :: bool
  og_power_guard_active :: bool
  og_torque_guard_active :: bool
  og_goal_guard_active :: bool
  og_write_guard_active :: bool
  og_blocked_power_enable :: u32
  og_blocked_torque_enable :: u32
  og_blocked_goal_write :: u32
  og_blocked_dxl_write :: u32
  og_last_goal_sequence :: u32
  og_last_goal_count :: u8

definition OutputGuardStatus_default :: OutputGuardStatus where
  "OutputGuardStatus_default = \<lparr> og_output_disabled = False, og_power_guard_active = False,
     og_torque_guard_active = False, og_goal_guard_active = False, og_write_guard_active = False,
     og_blocked_power_enable = 0, og_blocked_torque_enable = 0, og_blocked_goal_write = 0,
     og_blocked_dxl_write = 0, og_last_goal_sequence = 0, og_last_goal_count = 0 \<rparr>"

record GoalTargetRecord =
  gt_id :: u8
  gt_tick :: u32

definition kMaxRecordedGoalTargets :: nat where "kMaxRecordedGoalTargets = 18"

record OutputGuard =
  g_output_disabled :: bool
  g_blocked_power_enable :: u32
  g_blocked_torque_enable :: u32
  g_blocked_goal_write :: u32
  g_blocked_dxl_write :: u32
  g_last_goal_sequence :: u32
  g_last_goal_count :: u8
  g_goal_capture_in_progress :: bool
  g_last_blocked_goals :: "GoalTargetRecord list"

definition guard_reset :: "OutputGuard \<Rightarrow> OutputGuard" where
  "guard_reset g = g \<lparr> g_blocked_power_enable := 0, g_blocked_torque_enable := 0, g_blocked_goal_write := 0,
     g_blocked_dxl_write := 0, g_last_goal_sequence := 0, g_last_goal_count := 0,
     g_goal_capture_in_progress := False,
     g_last_blocked_goals := replicate kMaxRecordedGoalTargets \<lparr> gt_id = 0, gt_tick = 0 \<rparr> \<rparr>"

definition allowPowerEnable :: "OutputGuard \<Rightarrow> bool \<times> OutputGuard" where
  "allowPowerEnable g =
     (if \<not> g_output_disabled g then (True, g)
      else (False, g \<lparr> g_blocked_power_enable := g_blocked_power_enable g + 1 \<rparr>))"

definition allowTorque :: "bool \<Rightarrow> OutputGuard \<Rightarrow> bool \<times> OutputGuard" where
  "allowTorque on g =
     (if \<not> g_output_disabled g \<or> \<not> on then (True, g)
      else (False, g \<lparr> g_blocked_torque_enable := g_blocked_torque_enable g + 1 \<rparr>))"

definition allowGoalWrite :: "u8 \<Rightarrow> OutputGuard \<Rightarrow> bool \<times> OutputGuard" where
  "allowGoalWrite goal_count g =
     (if \<not> g_output_disabled g then (True, g)
      else (False, g \<lparr> g_blocked_goal_write := g_blocked_goal_write g + 1, g_goal_capture_in_progress := True,
              g_last_goal_count := (if goal_count > word_of_nat kMaxRecordedGoalTargets
                                    then word_of_nat kMaxRecordedGoalTargets else goal_count),
              g_last_goal_sequence := g_last_goal_sequence g + 1 \<rparr>))"

definition recordBlockedGoal :: "u8 \<Rightarrow> u8 \<Rightarrow> u32 \<Rightarrow> OutputGuard \<Rightarrow> OutputGuard option" where
  "recordBlockedGoal index i tick g =
     (if \<not> g_output_disabled g \<or> index \<ge> g_last_goal_count g then Some g
      else map_option (\<lambda>b. g \<lparr> g_last_blocked_goals := b \<rparr>)
             (buf_set (g_last_blocked_goals g) (unat index) \<lparr> gt_id = i, gt_tick = tick \<rparr>))"

definition finishBlockedGoalWrite :: "OutputGuard \<Rightarrow> OutputGuard" where
  "finishBlockedGoalWrite g = (if \<not> g_output_disabled g then g else g \<lparr> g_goal_capture_in_progress := False \<rparr>)"

definition copyLastBlockedGoals :: "u8 \<Rightarrow> OutputGuard \<Rightarrow> GoalTargetRecord list" where
  "copyLastBlockedGoals out_cap g =
     (if g_goal_capture_in_progress g then []
      else take (unat (min (g_last_goal_count g) out_cap)) (g_last_blocked_goals g))"

definition allowDxlWrite :: "OutputGuard \<Rightarrow> bool \<times> OutputGuard" where
  "allowDxlWrite g =
     (if \<not> g_output_disabled g then (True, g)
      else (False, g \<lparr> g_blocked_dxl_write := g_blocked_dxl_write g + 1 \<rparr>))"

definition guard_status :: "OutputGuard \<Rightarrow> OutputGuardStatus" where
  "guard_status g = \<lparr> og_output_disabled = g_output_disabled g, og_power_guard_active = g_output_disabled g,
     og_torque_guard_active = g_output_disabled g, og_goal_guard_active = g_output_disabled g,
     og_write_guard_active = g_output_disabled g, og_blocked_power_enable = g_blocked_power_enable g,
     og_blocked_torque_enable = g_blocked_torque_enable g, og_blocked_goal_write = g_blocked_goal_write g,
     og_blocked_dxl_write = g_blocked_dxl_write g, og_last_goal_sequence = g_last_goal_sequence g,
     og_last_goal_count = g_last_goal_count g \<rparr>"

section \<open>Observer sessions\<close>

definition isObserverMsg :: "u8 \<Rightarrow> bool" where
  "isObserverMsg mid \<longleftrightarrow> 0x14 \<le> mid \<and> mid \<le> 0x1B"

datatype ObserverResult =
    ObsOk | ObsNotAvailable | ObsBadRequest | ObsRejected | ObsBadToken | ObsBusy | ObsRateLimited | ObsNoCapture

fun observerResultCode :: "ObserverResult \<Rightarrow> u8" where
  "observerResultCode ObsOk = 0" | "observerResultCode ObsNotAvailable = 1" | "observerResultCode ObsBadRequest = 2"
| "observerResultCode ObsRejected = 3" | "observerResultCode ObsBadToken = 4" | "observerResultCode ObsBusy = 5"
| "observerResultCode ObsRateLimited = 6" | "observerResultCode ObsNoCapture = 7"

datatype CaptureEndReason =
    CapComplete | CapHostHeartbeatExpired | CapTransportOverflow | CapTransportTimeout | CapHostAborted
  | CapSessionClosed

record CaptureRequest =
  cr_session_id :: u32
  cr_capture_id :: u32
  cr_step_count :: u8

record CaptureAbortRequest =
  ab_session_id :: u32
  ab_capture_id :: u32
  ab_reason :: CaptureEndReason

record MarkerRequest =
  mk_capture_id :: u32
  mk_marker_id :: u32

definition kTraceSchemaVersion :: u16 where "kTraceSchemaVersion = 1"
definition kSessionTtlMs :: u32 where "kSessionTtlMs = 1000"
definition kCaptureStartIntervalMs :: u32 where "kCaptureStartIntervalMs = 1000"
definition kMinCaptureSteps :: u8 where "kMinCaptureSteps = 1"
definition kMaxCaptureSteps :: u8 where "kMaxCaptureSteps = 32"
definition obs_kDisarmedState :: u8 where "obs_kDisarmedState = 2"
definition obs_kMacMaintenanceState :: u8 where "obs_kMacMaintenanceState = 8"

record ObserverApi =
  ob_build_available :: bool
  ob_guard :: OutputGuardStatus
  ob_now_ms :: u32
  ob_live_state :: u8
  ob_maintenance_token :: u32
  ob_maintenance_held :: bool
  ob_task_request_capacity :: bool
  ob_next_session_id :: u32
  ob_next_session_token :: u32
  ob_next_capture_id :: u32
  ob_session_id :: u32
  ob_session_token :: u32
  ob_last_heartbeat_ms :: u32
  ob_last_capture_start_ms :: u32
  ob_have_capture_start :: bool
  ob_session_open :: bool
  ob_capture_active :: bool
  ob_capture_pending :: bool
  ob_abort_pending :: bool
  ob_marker_pending :: bool
  ob_capture_request :: CaptureRequest
  ob_abort_request :: CaptureAbortRequest
  ob_marker_request :: MarkerRequest

definition ObserverApi_new :: "bool \<Rightarrow> ObserverApi" where
  "ObserverApi_new build_available = \<lparr> ob_build_available = build_available, ob_guard = OutputGuardStatus_default, ob_now_ms = 0,
     ob_live_state = 0, ob_maintenance_token = 0, ob_maintenance_held = False, ob_task_request_capacity = True,
     ob_next_session_id = 1, ob_next_session_token = 1, ob_next_capture_id = 1, ob_session_id = 0,
     ob_session_token = 0, ob_last_heartbeat_ms = 0, ob_last_capture_start_ms = 0, ob_have_capture_start = False,
     ob_session_open = False, ob_capture_active = False, ob_capture_pending = False, ob_abort_pending = False,
     ob_marker_pending = False,
     ob_capture_request = \<lparr> cr_session_id = 0, cr_capture_id = 0, cr_step_count = 0 \<rparr>,
     ob_abort_request = \<lparr> ab_session_id = 0, ab_capture_id = 0, ab_reason = CapHostAborted \<rparr>,
     ob_marker_request = \<lparr> mk_capture_id = 0, mk_marker_id = 0 \<rparr> \<rparr>"

definition obs_reset :: "ObserverApi \<Rightarrow> ObserverApi" where
  "obs_reset s = ObserverApi_new (ob_build_available s)"

definition obs_setNow :: "u32 \<Rightarrow> ObserverApi \<Rightarrow> ObserverApi" where
  "obs_setNow now s = s \<lparr> ob_now_ms := now \<rparr>"

definition obs_setLiveState :: "u8 \<Rightarrow> ObserverApi \<Rightarrow> ObserverApi" where
  "obs_setLiveState st s = s \<lparr> ob_live_state := st \<rparr>"

definition setMaintenanceLock :: "u32 \<Rightarrow> bool \<Rightarrow> ObserverApi \<Rightarrow> ObserverApi" where
  "setMaintenanceLock token held s = s \<lparr> ob_maintenance_token := token, ob_maintenance_held := held \<rparr>"

definition setOutputGuard :: "OutputGuardStatus \<Rightarrow> ObserverApi \<Rightarrow> ObserverApi" where
  "setOutputGuard g s = s \<lparr> ob_guard := g \<rparr>"

definition setTaskRequestCapacity :: "bool \<Rightarrow> ObserverApi \<Rightarrow> ObserverApi" where
  "setTaskRequestCapacity b s = s \<lparr> ob_task_request_capacity := b \<rparr>"

definition obs_available :: "ObserverApi \<Rightarrow> bool" where
  "obs_available s \<longleftrightarrow> ob_build_available s \<and> og_output_disabled (ob_guard s) \<and>
     og_power_guard_active (ob_guard s) \<and> og_torque_guard_active (ob_guard s) \<and> og_goal_guard_active (ob_guard s)"

definition hasSessionToken :: "bytes \<Rightarrow> ObserverApi \<Rightarrow> bool" where
  "hasSessionToken req s \<longleftrightarrow> length req \<ge> 4 \<and> ob_session_open s \<and> u32_at req 0 = ob_session_token s"

definition obs_canOpen :: "u32 \<Rightarrow> ObserverApi \<Rightarrow> bool" where
  "obs_canOpen token s \<longleftrightarrow> obs_available s \<and>
     (ob_live_state s = obs_kDisarmedState \<or> ob_live_state s = obs_kMacMaintenanceState) \<and>
     ob_maintenance_held s \<and> token \<noteq> 0 \<and> token = ob_maintenance_token s"

definition closeSession :: "CaptureEndReason \<Rightarrow> ObserverApi \<Rightarrow> ObserverApi" where
  "closeSession reason s =
     (let s = (if ob_capture_active s
               then s \<lparr> ob_abort_request := \<lparr> ab_session_id = ob_session_id s,
                            ab_capture_id = cr_capture_id (ob_capture_request s), ab_reason = reason \<rparr>,
                          ob_abort_pending := True \<rparr>
               else s)
      in s \<lparr> ob_session_open := False, ob_session_id := 0, ob_session_token := 0, ob_marker_pending := False \<rparr>)"

definition obs_tick :: "ObserverApi \<Rightarrow> ObserverApi" where
  "obs_tick s =
     (if ob_session_open s \<and> elapsed (ob_now_ms s) (ob_last_heartbeat_ms s) > kSessionTtlMs
      then closeSession CapHostHeartbeatExpired s else s)"

definition bump :: "u32 \<Rightarrow> u32" where
  "bump n = (if n + 1 = 0 then 1 else n + 1)"

text \<open>\<open>None\<close> is the \<open>return false\<close> for a response buffer that is too small.\<close>

definition obs_writeResult :: "ObserverResult \<Rightarrow> nat \<Rightarrow> Response option" where
  "obs_writeResult r cap =
     (if cap < 1 then None
      else Some \<lparr> resp_bytes = [observerResultCode r],
                  resp_flags = (if r = ObsBadRequest then kErrorFlag else 0) \<rparr>)"

definition flag_byte :: "bool \<Rightarrow> u8" where
  "flag_byte b = (if b then 1 else 0)"

definition obs_writeStatus :: "ObserverResult \<Rightarrow> nat \<Rightarrow> ObserverApi \<Rightarrow> Response option" where
  "obs_writeStatus r cap s =
     (if cap < 19 then None
      else Some \<lparr> resp_bytes = [observerResultCode r, flag_byte (ob_session_open s), flag_byte (ob_capture_active s),
                    flag_byte (obs_available s)] @ put_u32 (ob_session_id s)
                    @ put_u32 (cr_capture_id (ob_capture_request s)) @ put_u32 (ob_last_heartbeat_ms s)
                    @ put_u16 kTraceSchemaVersion @ [flag_byte (og_output_disabled (ob_guard s))],
                  resp_flags = (if r = ObsBadRequest then kErrorFlag else 0) \<rparr>)"

text \<open>The branches after the tick and the availability check, one definition per command that changes
  more than one field.\<close>

definition obs_reply :: "Response option \<Rightarrow> ObserverApi \<Rightarrow> (Response \<times> ObserverApi) option" where
  "obs_reply r s = map_option (\<lambda>r. (r, s)) r"

definition obs_open :: "bytes \<Rightarrow> nat \<Rightarrow> ObserverApi \<Rightarrow> Response option \<times> ObserverApi" where
  "obs_open req cap s =
     (if length req \<noteq> 4 then (obs_writeResult ObsBadRequest cap, s)
      else if ob_session_open s then (obs_writeResult ObsBusy cap, s)
      else if \<not> obs_canOpen (u32_at req 0) s then (obs_writeResult ObsRejected cap, s)
      else
        let s = s \<lparr> ob_session_id := ob_next_session_id s, ob_next_session_id := bump (ob_next_session_id s),
                    ob_session_token := ob_next_session_token s,
                    ob_next_session_token := bump (ob_next_session_token s),
                    ob_session_open := True, ob_last_heartbeat_ms := ob_now_ms s \<rparr> in
        if cap < 12 then (obs_writeResult ObsBadRequest cap, closeSession CapSessionClosed s)
        else (Some \<lparr> resp_bytes = [observerResultCode ObsOk] @ put_u32 (ob_session_id s)
                       @ put_u32 (ob_session_token s) @ put_u16 kTraceSchemaVersion @ [0x0F],
                     resp_flags = 0 \<rparr>, s))"

definition obs_capture :: "bytes \<Rightarrow> nat \<Rightarrow> ObserverApi \<Rightarrow> Response option \<times> ObserverApi" where
  "obs_capture req cap s =
     (if length req \<noteq> 5 then (obs_writeResult ObsBadRequest cap, s)
      else if \<not> hasSessionToken req s then (obs_writeResult ObsBadToken cap, s)
      else if req ! 4 < kMinCaptureSteps \<or> req ! 4 > kMaxCaptureSteps then (obs_writeResult ObsBadRequest cap, s)
      else if ob_capture_active s then (obs_writeResult ObsBusy cap, s)
      else if \<not> ob_task_request_capacity s then (obs_writeResult ObsBusy cap, s)
      else if ob_have_capture_start s \<and>
              elapsed (ob_now_ms s) (ob_last_capture_start_ms s) < kCaptureStartIntervalMs
      then (obs_writeResult ObsRateLimited cap, s)
      else
        let s = s \<lparr> ob_capture_request := \<lparr> cr_session_id = ob_session_id s, cr_capture_id = ob_next_capture_id s,
                                             cr_step_count = req ! 4 \<rparr>,
                    ob_next_capture_id := bump (ob_next_capture_id s), ob_capture_active := True,
                    ob_capture_pending := True, ob_last_capture_start_ms := ob_now_ms s,
                    ob_have_capture_start := True \<rparr> in
        if cap < 5
        then (obs_writeResult ObsBadRequest cap, s \<lparr> ob_capture_active := False, ob_capture_pending := False \<rparr>)
        else (Some \<lparr> resp_bytes = [observerResultCode ObsOk] @ put_u32 (cr_capture_id (ob_capture_request s)),
                     resp_flags = 0 \<rparr>, s))"

definition obs_abort :: "bytes \<Rightarrow> nat \<Rightarrow> ObserverApi \<Rightarrow> Response option \<times> ObserverApi" where
  "obs_abort req cap s =
     (if \<not> hasSessionToken req s then (obs_writeResult ObsBadToken cap, s)
      else if \<not> ob_capture_active s then (obs_writeResult ObsNoCapture cap, s)
      else if ob_abort_pending s \<or> \<not> ob_task_request_capacity s then (obs_writeResult ObsBusy cap, s)
      else (obs_writeResult ObsOk cap,
            s \<lparr> ob_abort_request := \<lparr> ab_session_id = ob_session_id s,
                  ab_capture_id = cr_capture_id (ob_capture_request s), ab_reason = CapHostAborted \<rparr>,
                ob_abort_pending := True \<rparr>))"

definition obs_mark :: "bytes \<Rightarrow> nat \<Rightarrow> ObserverApi \<Rightarrow> Response option \<times> ObserverApi" where
  "obs_mark req cap s =
     (if length req \<noteq> 8 then (obs_writeResult ObsBadRequest cap, s)
      else if \<not> hasSessionToken req s then (obs_writeResult ObsBadToken cap, s)
      else if \<not> ob_capture_active s then (obs_writeResult ObsNoCapture cap, s)
      else if ob_marker_pending s \<or> \<not> ob_task_request_capacity s then (obs_writeResult ObsBusy cap, s)
      else (obs_writeResult ObsOk cap,
            s \<lparr> ob_marker_request := \<lparr> mk_capture_id = cr_capture_id (ob_capture_request s),
                  mk_marker_id = u32_at req 4 \<rparr>,
                ob_marker_pending := True \<rparr>))"

definition obs_dispatch :: "u8 \<Rightarrow> bytes \<Rightarrow> nat \<Rightarrow> ObserverApi \<Rightarrow> Response option \<times> ObserverApi" where
  "obs_dispatch mid req cap s =
     (if mid = 0x14 then (obs_writeStatus (if obs_available s then ObsOk else ObsNotAvailable) cap s, s)
      else if \<not> obs_available s then (obs_writeResult ObsNotAvailable cap, s)
      else if mid = 0x15 then obs_open req cap s
      else if mid = 0x16 then
        if \<not> hasSessionToken req s then (obs_writeResult ObsBadToken cap, s)
        else (obs_writeResult ObsOk cap, closeSession CapSessionClosed s)
      else if mid = 0x17 then
        if \<not> hasSessionToken req s then (obs_writeResult ObsBadToken cap, s)
        else (obs_writeResult ObsOk cap, s \<lparr> ob_last_heartbeat_ms := ob_now_ms s \<rparr>)
      else if mid = 0x18 then obs_capture req cap s
      else if mid = 0x19 then obs_abort req cap s
      else if mid = 0x1A then obs_mark req cap s
      else if mid = 0x1B then
        if \<not> hasSessionToken req s then (obs_writeResult ObsBadToken cap, s)
        else (obs_writeStatus ObsOk cap s, s)
      else (None, s))"

definition observer_handle :: "ObserverApi handler" where
  "observer_handle mid req cap s =
     (if \<not> isObserverMsg mid then None
      else let (r, s') = obs_dispatch mid req cap (obs_tick s) in obs_reply r s')"

text \<open>What a call that answers \<open>return false\<close> leaves behind; for a message of the group that needs a
  response buffer below 19 bytes (the dispatcher's has 256), and the command has taken effect.\<close>

definition observer_declined :: "u8 \<Rightarrow> bytes \<Rightarrow> nat \<Rightarrow> ObserverApi \<Rightarrow> ObserverApi" where
  "observer_declined mid req cap s = (if isObserverMsg mid then snd (obs_dispatch mid req cap (obs_tick s)) else s)"

definition takeCaptureRequest :: "ObserverApi \<Rightarrow> CaptureRequest option \<times> ObserverApi" where
  "takeCaptureRequest s =
     (if \<not> ob_capture_pending s then (None, s)
      else (Some (ob_capture_request s), s \<lparr> ob_capture_pending := False \<rparr>))"

definition takeAbortRequest :: "ObserverApi \<Rightarrow> CaptureAbortRequest option \<times> ObserverApi" where
  "takeAbortRequest s =
     (if \<not> ob_abort_pending s then (None, s)
      else (Some (ob_abort_request s), s \<lparr> ob_abort_pending := False \<rparr>))"

definition takeMarkerRequest :: "ObserverApi \<Rightarrow> MarkerRequest option \<times> ObserverApi" where
  "takeMarkerRequest s =
     (if \<not> ob_marker_pending s then (None, s)
      else (Some (ob_marker_request s), s \<lparr> ob_marker_pending := False \<rparr>))"

definition noteCaptureFinished :: "u32 \<Rightarrow> ObserverApi \<Rightarrow> ObserverApi" where
  "noteCaptureFinished cid s =
     (if ob_capture_active s \<and> cr_capture_id (ob_capture_request s) = cid
      then s \<lparr> ob_capture_active := False, ob_capture_pending := False, ob_marker_pending := False \<rparr> else s)"

lemmas obs_defs = obs_setNow_def obs_setLiveState_def setMaintenanceLock_def setOutputGuard_def
  setTaskRequestCapacity_def closeSession_def obs_tick_def takeCaptureRequest_def takeAbortRequest_def
  takeMarkerRequest_def noteCaptureFinished_def

lemmas obs_branch_defs = obs_dispatch_def obs_open_def obs_capture_def obs_abort_def obs_mark_def
  obs_writeResult_def obs_writeStatus_def

lemma observer_handle_SomeD:
  assumes "observer_handle mid req cap s = Some (r, s')"
  shows "isObserverMsg mid" and "obs_dispatch mid req cap (obs_tick s) = (Some r, s')"
  using assms by (auto simp: observer_handle_def obs_reply_def split: if_splits prod.splits)

lemma obs_dispatch_response:
  assumes "obs_dispatch mid req cap s = (Some r, s')" and "64 \<le> cap"
  shows "resp_bytes r \<noteq> [] \<and> length (resp_bytes r) \<le> cap"
  using assms by (auto simp: obs_branch_defs Let_def split: if_splits)

interpretation observer_group: command_group observer_handle isObserverMsg
proof unfold_locales
  fix mid req cap s r s'
  assume h: "observer_handle mid req cap s = Some (r, s')"
  note d = observer_handle_SomeD [OF h]
  show "isObserverMsg mid" by (rule d(1))
  show "64 \<le> cap \<Longrightarrow> resp_bytes r \<noteq> []" "64 \<le> cap \<Longrightarrow> length (resp_bytes r) \<le> cap"
    using obs_dispatch_response [OF d(2)] by blast+
qed

section \<open>Histories\<close>

datatype obs_op =
    ObsNow u32 | ObsLive u8 | ObsLock u32 bool | ObsGuard OutputGuardStatus | ObsCapacity bool | ObsTick
  | ObsFrame u8 bytes nat | ObsTakeCapture | ObsTakeAbort | ObsTakeMarker | ObsFinished u32 | ObsReset

fun obs_step :: "obs_op \<Rightarrow> ObserverApi \<Rightarrow> ObserverApi" where
  "obs_step (ObsNow t) s = obs_setNow t s"
| "obs_step (ObsLive st) s = obs_setLiveState st s"
| "obs_step (ObsLock t h) s = setMaintenanceLock t h s"
| "obs_step (ObsGuard g) s = setOutputGuard g s"
| "obs_step (ObsCapacity b) s = setTaskRequestCapacity b s"
| "obs_step ObsTick s = obs_tick s"
| "obs_step (ObsFrame mid req cap) s = (case observer_handle mid req cap s of Some (r, s') \<Rightarrow> s' | None \<Rightarrow> observer_declined mid req cap s)"
| "obs_step ObsTakeCapture s = snd (takeCaptureRequest s)"
| "obs_step ObsTakeAbort s = snd (takeAbortRequest s)"
| "obs_step ObsTakeMarker s = snd (takeMarkerRequest s)"
| "obs_step (ObsFinished cid) s = noteCaptureFinished cid s"
| "obs_step ObsReset s = obs_reset s"

lemma obs_step_frame: "obs_step (ObsFrame mid req cap) s = observer_declined mid req cap s"
  using observer_handle_SomeD [of mid req cap s]
  by (auto simp: observer_declined_def split: option.splits)

definition obs_inv :: "ObserverApi \<Rightarrow> bool" where
  "obs_inv s \<longleftrightarrow> ob_next_session_id s \<noteq> 0 \<and> ob_next_session_token s \<noteq> 0 \<and> ob_next_capture_id s \<noteq> 0 \<and>
     (ob_session_open s \<longleftrightarrow> ob_session_token s \<noteq> 0) \<and>
     (ob_capture_pending s \<longrightarrow> ob_capture_active s) \<and>
     (ob_capture_active s \<longrightarrow> ob_have_capture_start s \<and> cr_capture_id (ob_capture_request s) \<noteq> 0 \<and>
        kMinCaptureSteps \<le> cr_step_count (ob_capture_request s) \<and>
        cr_step_count (ob_capture_request s) \<le> kMaxCaptureSteps) \<and>
     (ob_marker_pending s \<longrightarrow> ob_session_open s \<and> ob_capture_active s)"

lemma bump_nonzero [simp]: "bump n \<noteq> 0"
  by (simp add: bump_def)

lemma obs_inv_tick: "obs_inv s \<Longrightarrow> obs_inv (obs_tick s)"
  by (auto simp: obs_inv_def obs_tick_def closeSession_def Let_def)

lemma obs_inv_dispatch:
  assumes "obs_inv s" and "obs_dispatch mid req cap s = (r, s')"
  shows "obs_inv s'"
  using assms
  by (auto simp: obs_inv_def obs_dispatch_def obs_open_def obs_capture_def obs_abort_def obs_mark_def
      hasSessionToken_def closeSession_def Let_def not_less split: if_splits)

lemma obs_inv_step:
  assumes "obs_inv s"
  shows "obs_inv (obs_step op s)"
proof (cases op)
  case (ObsFrame mid req cap)
  then show ?thesis
    using assms obs_inv_dispatch [OF obs_inv_tick [OF assms], of mid req cap]
    by (cases "obs_dispatch mid req cap (obs_tick s)")
       (simp add: obs_step_frame observer_declined_def del: obs_step.simps)
next
  case ObsTick
  then show ?thesis using obs_inv_tick [OF assms] by simp
qed (use assms in \<open>auto simp: obs_inv_def obs_defs obs_reset_def ObserverApi_new_def\<close>)

lemma obs_inv_run: "obs_inv s \<Longrightarrow> obs_inv (fold obs_step ops s)"
  by (induction ops arbitrary: s) (simp_all add: obs_inv_step)

lemma obs_inv_new: "obs_inv (ObserverApi_new b)"
  by (simp add: obs_inv_def ObserverApi_new_def)

lemma obs_tick_frame [simp]:
  "obs_available (obs_tick s) = obs_available s" "ob_capture_active (obs_tick s) = ob_capture_active s"
  "ob_capture_pending (obs_tick s) = ob_capture_pending s" "ob_now_ms (obs_tick s) = ob_now_ms s"
  "ob_have_capture_start (obs_tick s) = ob_have_capture_start s"
  "ob_last_capture_start_ms (obs_tick s) = ob_last_capture_start_ms s"
  "ob_live_state (obs_tick s) = ob_live_state s" "ob_maintenance_held (obs_tick s) = ob_maintenance_held s"
  "ob_maintenance_token (obs_tick s) = ob_maintenance_token s"
  by (auto simp: obs_tick_def closeSession_def obs_available_def Let_def)

lemma obs_tick_open:
  "ob_session_open (obs_tick s) \<longleftrightarrow>
     ob_session_open s \<and> elapsed (ob_now_ms s) (ob_last_heartbeat_ms s) \<le> kSessionTtlMs"
  "ob_session_open (obs_tick s) \<Longrightarrow> ob_session_token (obs_tick s) = ob_session_token s"
  by (auto simp: obs_tick_def closeSession_def Let_def not_less)

lemma obs_dispatch_capture:
  assumes "obs_dispatch mid req cap s = (r, s')" and "ob_capture_pending s'" and "\<not> ob_capture_pending s"
  shows "mid = 0x18 \<and> obs_available s \<and> hasSessionToken req s \<and> \<not> ob_capture_active s \<and>
         (ob_have_capture_start s \<longrightarrow>
            kCaptureStartIntervalMs \<le> elapsed (ob_now_ms s) (ob_last_capture_start_ms s))"
  using assms
  by (auto simp: obs_dispatch_def obs_open_def obs_capture_def obs_abort_def obs_mark_def closeSession_def Let_def
      not_less split: if_splits)

lemma obs_dispatch_opens:
  assumes "obs_dispatch mid req cap s = (r, s')" and "ob_session_open s'" and "\<not> ob_session_open s"
  shows "mid = 0x15 \<and> obs_canOpen (u32_at req 0) s"
  using assms
  by (auto simp: obs_dispatch_def obs_open_def obs_capture_def obs_abort_def obs_mark_def closeSession_def
      hasSessionToken_def Let_def split: if_splits)

text \<open>
  Captures of the hardware-in-the-loop image are guarded. In every state reachable by any
  interleaving of frames, snapshots and the recorder's hand-off calls: a new capture request appears
  only through CAPTURE carrying the token of an open session whose heartbeat has not expired, while
  the image reports all its output guards active, with no capture running and at least one second
  after the previous start, and it asks for 1 to 32 steps under a non-zero id; a session opens only
  through OPEN, with the held maintenance lock's token, in Disarmed or MacMaintenance.
\<close>

theorem observer_capture_guarded:
  assumes "s = fold obs_step ops (ObserverApi_new b)" and "s' = obs_step op s"
  shows "(ob_capture_pending s' \<and> \<not> ob_capture_pending s \<longrightarrow>
            (\<exists>req cap. op = ObsFrame 0x18 req cap \<and> u32_at req 0 = ob_session_token s) \<and>
            ob_session_open s \<and> elapsed (ob_now_ms s) (ob_last_heartbeat_ms s) \<le> 1000 \<and>
            obs_available s \<and> \<not> ob_capture_active s \<and>
            (ob_have_capture_start s \<longrightarrow> 1000 \<le> elapsed (ob_now_ms s) (ob_last_capture_start_ms s)) \<and>
            cr_capture_id (ob_capture_request s') \<noteq> 0 \<and>
            1 \<le> cr_step_count (ob_capture_request s') \<and> cr_step_count (ob_capture_request s') \<le> 32) \<and>
         (ob_session_open s' \<and> \<not> ob_session_open s \<longrightarrow>
            (\<exists>req cap. op = ObsFrame 0x15 req cap \<and> u32_at req 0 = ob_maintenance_token s) \<and>
            ob_maintenance_held s \<and> obs_available s \<and> ob_live_state s \<in> {2, 8})"
proof -
  have "obs_inv s'" using assms obs_inv_run [OF obs_inv_new] obs_inv_step by simp
  then have inv: "ob_capture_pending s' \<Longrightarrow> cr_capture_id (ob_capture_request s') \<noteq> 0 \<and>
      1 \<le> cr_step_count (ob_capture_request s') \<and> cr_step_count (ob_capture_request s') \<le> 32"
    by (simp add: obs_inv_def kMinCaptureSteps_def kMaxCaptureSteps_def)
  show ?thesis
  proof (cases op)
    case (ObsFrame mid req cap)
    show ?thesis
    proof (cases "isObserverMsg mid")
      case False
      then have "s' = s" unfolding assms(2) ObsFrame obs_step_frame by (simp add: observer_declined_def)
      then show ?thesis by simp
    next
      case True
      then have "s' = snd (obs_dispatch mid req cap (obs_tick s))"
        unfolding assms(2) ObsFrame obs_step_frame by (simp add: observer_declined_def)
      then obtain r where d: "obs_dispatch mid req cap (obs_tick s) = (r, s')"
        by (cases "obs_dispatch mid req cap (obs_tick s)") simp
      have "ob_capture_pending s' \<and> \<not> ob_capture_pending s \<longrightarrow>
          mid = 0x18 \<and> u32_at req 0 = ob_session_token s \<and> ob_session_open s \<and>
          elapsed (ob_now_ms s) (ob_last_heartbeat_ms s) \<le> 1000 \<and> obs_available s \<and> \<not> ob_capture_active s \<and>
          (ob_have_capture_start s \<longrightarrow> 1000 \<le> elapsed (ob_now_ms s) (ob_last_capture_start_ms s))"
        using obs_dispatch_capture [OF d] obs_tick_open [of s]
        by (auto simp: hasSessionToken_def kSessionTtlMs_def kCaptureStartIntervalMs_def)
      moreover have "ob_session_open s' \<and> \<not> ob_session_open s \<longrightarrow>
          mid = 0x15 \<and> u32_at req 0 = ob_maintenance_token s \<and> ob_maintenance_held s \<and> obs_available s \<and>
          ob_live_state s \<in> {2, 8}"
        using obs_dispatch_opens [OF d] obs_tick_open(1) [of s]
        by (auto simp: obs_canOpen_def obs_kDisarmedState_def obs_kMacMaintenanceState_def)
      ultimately show ?thesis using inv ObsFrame by blast
    qed
  qed (use assms(2) obs_tick_open(1) [of s] in \<open>auto simp: obs_defs obs_reset_def ObserverApi_new_def Let_def split: if_splits\<close>)
qed

definition obs_sample_history :: "obs_op list" where
  "obs_sample_history = [ObsNow 5000, ObsLive 2, ObsLock 7 True,
     ObsGuard (OutputGuardStatus_default \<lparr> og_output_disabled := True, og_power_guard_active := True,
       og_torque_guard_active := True, og_goal_guard_active := True \<rparr>), ObsFrame 0x15 [7, 0, 0, 0] 64]"

definition obs_sample :: ObserverApi where
  "obs_sample = fold obs_step obs_sample_history
     (ObserverApi_new True)"

theorem observer_capture_guarded_witness:
  "\<not> ob_capture_pending obs_sample \<and> ob_session_open obs_sample \<and>
   ob_capture_pending (obs_step (ObsFrame 0x18 [1, 0, 0, 0, 4] 64) obs_sample) \<and>
   1 \<le> cr_step_count (ob_capture_request (obs_step (ObsFrame 0x18 [1, 0, 0, 0, 4] 64) obs_sample))"
proof -
  have "\<not> ob_capture_pending obs_sample" "ob_session_open obs_sample"
    "ob_capture_pending (obs_step (ObsFrame 0x18 [1, 0, 0, 0, 4] 64) obs_sample)"
    by (simp_all add: obs_sample_def obs_sample_history_def obs_defs ObserverApi_new_def observer_handle_def
        isObserverMsg_def obs_dispatch_def obs_open_def obs_capture_def obs_available_def obs_canOpen_def
        hasSessionToken_def OutputGuardStatus_default_def obs_reply_def bump_def u32_at_def get_u32_def
        obs_kDisarmedState_def kMinCaptureSteps_def kMaxCaptureSteps_def kSessionTtlMs_def Let_def)
  then show ?thesis using observer_capture_guarded [OF obs_sample_def refl] by blast
qed

end
