(* ===== verification/SensorApi.thy ===== *)
theory SensorApi
  imports FeatureApi
begin

text \<open>
  Sensor, contact and leveling commands (\<open>protocol/sensor_api.h\<close>, \<open>protocol/sensor_api.cpp\<close>): the
  staged thresholds and parameters, the scan, rate and calibration intents, and the encoders of the
  published topology and foot snapshots. The shared \<open>FeatureApi\<close> that the source reaches through a
  pointer is passed in and returned next to the state of the group; the two snapshots, which the
  sensor task owns, are part of the record as read-only values (\<open>None\<close> for a null pointer).
\<close>

definition isSensorMsg :: "u8 \<Rightarrow> bool" where
  "isSensorMsg mid \<longleftrightarrow> 0x70 \<le> mid \<and> mid \<le> 0x7F"

definition kSensorNumFeet :: nat where "kSensorNumFeet = 6"
definition kSensorNumChannels :: nat where "kSensorNumChannels = 8"

datatype SensorResult = SensorOk | SensorRejected | SensorBadRequest

fun sensorResultCode :: "SensorResult \<Rightarrow> u8" where
  "sensorResultCode SensorOk = 0" | "sensorResultCode SensorRejected = 1" | "sensorResultCode SensorBadRequest = 2"

record ContactThresholds =
  th_near :: "u16 list"
  th_touch :: "u16 list"
  th_load :: "u16 list"

record LevelingParams =
  lv_max_tilt_mdeg :: u16
  lv_rate_mdeg_s :: u16
  lv_response_x255 :: u16

record TopologyChannel =
  tc_scanned :: u8
  tc_vcnl_present :: u8
  tc_lps_present :: u8
  tc_device_count :: u8
  tc_state :: u8

record TopologySnapshot =
  tp_valid :: u8
  tp_mux_present :: u8
  tp_eeprom_present :: u8
  tp_oled_present :: u8
  tp_num_channels :: u8
  tp_channels :: "TopologyChannel list"

record FootStatus =
  fo_state :: u8
  fo_confidence :: u8
  fo_proximity :: u16
  fo_pressure_delta :: u16
  fo_flags :: u8

record StatusSnapshot =
  sn_valid :: u8
  sn_num_feet :: u8
  sn_present_mask :: u8
  sn_polling_enabled :: u8
  sn_feet :: "FootStatus list"

record SensorApi =
  se_topo :: "TopologySnapshot option"
  se_status :: "StatusSnapshot option"
  se_thresholds :: ContactThresholds
  se_threshold_seq :: u32
  se_leveling :: LevelingParams
  se_leveling_seq :: u32
  se_scan_seq :: u32
  se_calibrate_mask :: u8
  se_calibrate_seq :: u32
  se_rate_hz :: u16
  se_rate_seq :: u32

definition sensor_reset :: "SensorApi \<Rightarrow> SensorApi" where
  "sensor_reset s = s \<lparr> se_thresholds := \<lparr> th_near = replicate kSensorNumFeet 0,
       th_touch = replicate kSensorNumFeet 0, th_load = replicate kSensorNumFeet 0 \<rparr>,
     se_threshold_seq := 0,
     se_leveling := \<lparr> lv_max_tilt_mdeg = 0, lv_rate_mdeg_s = 0, lv_response_x255 = 0 \<rparr>, se_leveling_seq := 0,
     se_scan_seq := 0, se_calibrate_mask := 0, se_calibrate_seq := 0, se_rate_hz := 0, se_rate_seq := 0 \<rparr>"

definition setSnapshots :: "TopologySnapshot option \<Rightarrow> StatusSnapshot option \<Rightarrow> SensorApi \<Rightarrow> SensorApi" where
  "setSnapshots topo status s = s \<lparr> se_topo := topo, se_status := status \<rparr>"

fun mapResult :: "FeatureResult \<Rightarrow> SensorResult" where
  "mapResult FeatureOk = SensorOk" | "mapResult FeatureRejected = SensorRejected"
| "mapResult FeatureBadRequest = SensorBadRequest"

definition sensor_applyFeature :: "Feature \<Rightarrow> bool \<Rightarrow> nat \<Rightarrow> FeatureApi option \<Rightarrow> Response \<times> FeatureApi option" where
  "sensor_applyFeature f enable cap features =
     (case features of
        None \<Rightarrow> (err_response (sensorResultCode SensorRejected), None)
      | Some fa \<Rightarrow>
          if cap < 5 then (err_response (sensorResultCode SensorRejected), features)
          else let (r, fa) = applyDesired (featureIndex f) enable fa in
            (\<lparr> resp_bytes = [sensorResultCode (mapResult (ar_result r)), ft_live_state fa, bool_byte (ar_available r),
                 bool_byte (ar_enabled r), featureReasonCode (ar_reason r)],
               resp_flags = (if ar_result r = FeatureOk then 0 else 0x02) \<rparr>, Some fa))"

definition topology_channel :: "TopologyChannel \<Rightarrow> bytes" where
  "topology_channel c = [tc_scanned c, tc_vcnl_present c, tc_lps_present c, tc_device_count c, tc_state c]"

definition encodeTopology :: "nat \<Rightarrow> SensorApi \<Rightarrow> bytes" where
  "encodeTopology cap s =
     (if cap < 4 + kSensorNumChannels * 5 then [sensorResultCode SensorRejected]
      else case se_topo s of
        Some t \<Rightarrow>
          if tp_valid t \<noteq> 0 then
            [tp_mux_present t, tp_eeprom_present t, word_of_nat kSensorNumChannels]
            @ concat (map (\<lambda>i. topology_channel (tp_channels t ! i)) [0..<kSensorNumChannels]) @ [tp_oled_present t]
          else [0, 0, word_of_nat kSensorNumChannels] @ replicate (5 * kSensorNumChannels) 0 @ [0]
      | None \<Rightarrow> [0, 0, word_of_nat kSensorNumChannels] @ replicate (5 * kSensorNumChannels) 0 @ [0])"

definition foot_status :: "FootStatus \<Rightarrow> bytes" where
  "foot_status f = [fo_state f, fo_confidence f] @ put_u16 (fo_proximity f) @ put_u16 (fo_pressure_delta f)
     @ [fo_flags f]"

definition encodeStatus :: "nat \<Rightarrow> SensorApi \<Rightarrow> bytes" where
  "encodeStatus cap s =
     (if cap < 3 + kSensorNumFeet * 7 then [sensorResultCode SensorRejected]
      else case se_status s of
        Some st \<Rightarrow>
          if sn_valid st \<noteq> 0 then
            [word_of_nat kSensorNumFeet, sn_present_mask st, sn_polling_enabled st]
            @ concat (map (\<lambda>i. foot_status (sn_feet st ! i)) [0..<kSensorNumFeet])
          else [word_of_nat kSensorNumFeet, 0, 0] @ replicate (7 * kSensorNumFeet) 0
      | None \<Rightarrow> [word_of_nat kSensorNumFeet, 0, 0] @ replicate (7 * kSensorNumFeet) 0)"

definition stageCalibrate :: "u8 \<Rightarrow> SensorApi \<Rightarrow> Response \<times> SensorApi" where
  "stageCalibrate msk s =
     (if (case se_status s of None \<Rightarrow> False | Some st \<Rightarrow> sn_valid st \<noteq> 0 \<and> sn_present_mask st AND msk = 0)
      then (\<lparr> resp_bytes = [sensorResultCode SensorRejected, msk], resp_flags = 0x02 \<rparr>, s)
      else (\<lparr> resp_bytes = [sensorResultCode SensorOk, msk], resp_flags = 0 \<rparr>,
            s \<lparr> se_calibrate_mask := msk, se_calibrate_seq := se_calibrate_seq s + 1 \<rparr>))"

definition sensor_all_feet :: u8 where
  "sensor_all_feet = push_bit kSensorNumFeet 1 - 1"

definition sensor_setThresholds :: "bytes \<Rightarrow> SensorApi \<Rightarrow> Response \<times> SensorApi" where
  "sensor_setThresholds req s =
     (if length req < 7 then (err_response (sensorResultCode SensorBadRequest), s)
      else if unat (req ! 0) \<ge> kSensorNumFeet then (err_response (sensorResultCode SensorBadRequest), s)
      else
        let foot = unat (req ! 0); near = u16_at req 1; touch = u16_at req 3; load = u16_at req 5;
            t = se_thresholds s in
        (\<lparr> resp_bytes = [sensorResultCode SensorOk, req ! 0] @ put_u16 near @ put_u16 touch @ put_u16 load,
           resp_flags = 0 \<rparr>,
         s \<lparr> se_thresholds := \<lparr> th_near = (th_near t)[foot := near], th_touch = (th_touch t)[foot := touch],
                                th_load = (th_load t)[foot := load] \<rparr>,
             se_threshold_seq := se_threshold_seq s + 1 \<rparr>))"

definition sensor_command :: "u8 \<Rightarrow> bytes \<Rightarrow> nat \<Rightarrow> SensorApi \<Rightarrow> (Response \<times> SensorApi) option" where
  "sensor_command mid req cap s =
     (if mid = 0x72 then Some (sensor_setThresholds req s)
      else if mid = 0x75 then
        if length req < 6 then Some (err_response (sensorResultCode SensorBadRequest), s)
        else let p = \<lparr> lv_max_tilt_mdeg = u16_at req 0, lv_rate_mdeg_s = u16_at req 2, lv_response_x255 = u16_at req 4 \<rparr> in
          Some (\<lparr> resp_bytes = [sensorResultCode SensorOk] @ put_u16 (lv_max_tilt_mdeg p)
                    @ put_u16 (lv_rate_mdeg_s p) @ put_u16 (lv_response_x255 p), resp_flags = 0 \<rparr>,
                s \<lparr> se_leveling := p, se_leveling_seq := se_leveling_seq s + 1 \<rparr>)
      else if mid = 0x76 then
        let s = s \<lparr> se_scan_seq := se_scan_seq s + 1 \<rparr> in
        Some (\<lparr> resp_bytes = [sensorResultCode SensorOk] @ put_u16 (ucast (se_scan_seq s)), resp_flags = 0 \<rparr>, s)
      else if mid = 0x77 then Some (\<lparr> resp_bytes = encodeTopology cap s, resp_flags = 0 \<rparr>, s)
      else if mid = 0x78 then Some (\<lparr> resp_bytes = encodeStatus cap s, resp_flags = 0 \<rparr>, s)
      else if mid = 0x79 then
        if length req < 2 then Some (err_response (sensorResultCode SensorBadRequest), s)
        else let rate = u16_at req 0 in
          if rate = 0 \<or> rate > 1000 then Some (err_response (sensorResultCode SensorBadRequest), s)
          else let s = s \<lparr> se_rate_hz := rate, se_rate_seq := se_rate_seq s + 1 \<rparr> in
            Some (\<lparr> resp_bytes = [sensorResultCode SensorOk] @ put_u16 (se_rate_hz s), resp_flags = 0 \<rparr>, s)
      else if mid = 0x7A then
        if length req < 1 then Some (err_response (sensorResultCode SensorBadRequest), s)
        else let foot = req ! 0 in
          if foot = 0xFF then Some (stageCalibrate sensor_all_feet s)
          else if unat foot < kSensorNumFeet then Some (stageCalibrate (push_bit (unat foot) 1) s)
          else Some (err_response (sensorResultCode SensorBadRequest), s)
      else if mid = 0x7B then Some (stageCalibrate sensor_all_feet s)
      else None)"

definition sensor_handle :: "(FeatureApi option \<times> SensorApi) handler" where
  "sensor_handle mid req cap fs =
     (let (features, s) = fs in
      if \<not> isSensorMsg mid then None
      else if mid = 0x70 then let (r, fa) = sensor_applyFeature FootContact True cap features in Some (r, fa, s)
      else if mid = 0x71 then let (r, fa) = sensor_applyFeature FootContact False cap features in Some (r, fa, s)
      else if mid = 0x73 then let (r, fa) = sensor_applyFeature TerrainLeveling True cap features in Some (r, fa, s)
      else if mid = 0x74 then let (r, fa) = sensor_applyFeature TerrainLeveling False cap features in Some (r, fa, s)
      else map_option (\<lambda>(r, s). (r, features, s)) (sensor_command mid req cap s))"

lemma length_topology [simp]: "length (concat (map (\<lambda>i. topology_channel (f i)) is)) = 5 * length is"
  by (induction "is") (simp_all add: topology_channel_def)

lemma length_feet [simp]: "length (concat (map (\<lambda>i. foot_status (f i)) is)) = 7 * length is"
  by (induction "is") (simp_all add: foot_status_def)

lemma encode_size:
  "64 \<le> cap \<Longrightarrow> length (encodeTopology cap s) = 44" "64 \<le> cap \<Longrightarrow> length (encodeStatus cap s) = 45"
  by (simp_all add: encodeTopology_def encodeStatus_def kSensorNumChannels_def kSensorNumFeet_def split: option.split)

lemma stageCalibrate_response: "length (resp_bytes (fst (stageCalibrate msk s))) = 2"
  by (simp add: stageCalibrate_def)

lemma sensor_setThresholds_response:
  "length (resp_bytes (fst (sensor_setThresholds req s))) \<in> {1, 8}"
  by (simp add: sensor_setThresholds_def err_response_def Let_def)

lemma sensor_command_response:
  assumes "sensor_command mid req cap s = Some (r, s')" and "64 \<le> cap"
  shows "resp_bytes r \<noteq> [] \<and> length (resp_bytes r) \<le> 64"
proof -
  have st: "resp_bytes (fst (stageCalibrate m s)) \<noteq> [] \<and> length (resp_bytes (fst (stageCalibrate m s))) \<le> 64" for m
    using stageCalibrate_response [of m s] by auto
  have th: "resp_bytes (fst (sensor_setThresholds req s)) \<noteq> [] \<and>
      length (resp_bytes (fst (sensor_setThresholds req s))) \<le> 64"
    using sensor_setThresholds_response [of req s] by auto
  have en: "encodeTopology cap s \<noteq> [] \<and> length (encodeTopology cap s) \<le> 64"
    "encodeStatus cap s \<noteq> [] \<and> length (encodeStatus cap s) \<le> 64"
    using encode_size [OF assms(2), of s] by auto
  show ?thesis
    using assms(1) st [of sensor_all_feet] st [of "push_bit (unat (req ! 0)) 1"] th en
    by (auto simp: sensor_command_def err_response_def Let_def split: if_splits)
qed

lemma sensor_applyFeature_response:
  "resp_bytes (fst (sensor_applyFeature f e cap fa)) \<noteq> [] \<and> length (resp_bytes (fst (sensor_applyFeature f e cap fa))) \<le> 5"
  by (auto simp: sensor_applyFeature_def err_response_def Let_def split: option.split prod.split)

interpretation sensor_group: command_group sensor_handle isSensorMsg
proof unfold_locales
  fix mid req cap fs r fs'
  assume h: "sensor_handle mid req cap fs = Some (r, fs')"
  show "isSensorMsg mid" using h by (auto simp: sensor_handle_def split: prod.splits if_splits)
  obtain fa s where fs: "fs = (fa, s)" by (cases fs)
  consider f e where "r = fst (sensor_applyFeature f e cap fa)"
    | s' where "sensor_command mid req cap s = Some (r, s')"
    using h unfolding fs sensor_handle_def by (auto split: if_splits prod.splits) (metis fst_conv)+
  then have "64 \<le> cap \<Longrightarrow> resp_bytes r \<noteq> [] \<and> length (resp_bytes r) \<le> cap"
  proof cases
    case 1
    show "64 \<le> cap \<Longrightarrow> ?thesis" unfolding 1 using sensor_applyFeature_response [of f e cap fa] by linarith
  next
    case 2
    show "64 \<le> cap \<Longrightarrow> ?thesis" using sensor_command_response [OF 2] by linarith
  qed
  then show "64 \<le> cap \<Longrightarrow> resp_bytes r \<noteq> []" "64 \<le> cap \<Longrightarrow> length (resp_bytes r) \<le> cap" by blast+
qed

end
