(* ===== verification/Float32.thy ===== *)
theory Float32
  imports Prelude Complex_Main "HOL-Library.Log_Nat"
begin

text \<open>
  The C++ \<open>float\<close> of the firmware: IEEE 754 binary32 with rounding to nearest, ties to even. A finite
  value is a rational number; the two zeros are one value, which no code modelled here can tell
  apart (nothing divides by a zero or reads a sign bit). Every operation rounds its exact result
  once: the target has no fused multiply-add, so no expression is contracted. The definitions
  compute; the theory provides what the component proofs need, above all that rounding is
  monotone, so that an exact bound by representable numbers is a bound of the rounded result.
\<close>

section \<open>Rounding\<close>

text \<open>To the nearest integer, ties to the even one.\<close>

definition rnd_even :: "rat \<Rightarrow> int" where
  "rnd_even x = (let f = \<lfloor>x\<rfloor>; r = x - of_int f in
     if r < 1 / 2 then f else if r > 1 / 2 then f + 1 else if even f then f else f + 1)"

text \<open>The binary exponent of a positive rational.\<close>

definition ilog2 :: "rat \<Rightarrow> int" where
  "ilog2 x = (let (n, d) = quotient_of x; k = bitlen n - bitlen d in if 2 powi k \<le> x then k else k - 1)"

text \<open>Unit in the last place: 24 significant bits, and not below the smallest subnormal number.\<close>

definition ulp32 :: "rat \<Rightarrow> rat" where
  "ulp32 x = 2 powi (max (ilog2 \<bar>x\<bar>) (- 126) - 23)"

definition rnd32 :: "rat \<Rightarrow> rat" where
  "rnd32 x = (if x = 0 then 0 else of_int (rnd_even (x / ulp32 x)) * ulp32 x)"

lemma rnd_even_bounds: "\<lfloor>x\<rfloor> \<le> rnd_even x" "rnd_even x \<le> \<lfloor>x\<rfloor> + 1"
  by (simp_all add: rnd_even_def Let_def)

lemma rnd_even_of_int [simp]: "rnd_even (of_int n) = n"
  by (simp add: rnd_even_def Let_def)

lemma rnd_even_mono:
  assumes "x \<le> y"
  shows "rnd_even x \<le> rnd_even y"
proof (cases "\<lfloor>x\<rfloor> = \<lfloor>y\<rfloor>")
  case True
  then have "x - of_int \<lfloor>x\<rfloor> \<le> y - of_int \<lfloor>y\<rfloor>" using assms by simp
  then show ?thesis unfolding rnd_even_def Let_def True by (auto split: if_splits)
next
  case False
  then have "\<lfloor>x\<rfloor> + 1 \<le> \<lfloor>y\<rfloor>" using floor_mono [OF assms] by linarith
  then show ?thesis using rnd_even_bounds [of x] rnd_even_bounds [of y] by linarith
qed

lemma rnd_even_minus: "rnd_even (- x) = - rnd_even x"
proof (cases "x = of_int \<lfloor>x\<rfloor>")
  case True
  then have "rnd_even (- x) = rnd_even (of_int (- \<lfloor>x\<rfloor>))" "rnd_even x = rnd_even (of_int \<lfloor>x\<rfloor>)" by simp_all
  then show ?thesis by (simp only: rnd_even_of_int)
next
  case False
  have "\<lceil>x\<rceil> = \<lfloor>x\<rfloor> + 1" using False by (metis ceiling_altdef)
  then have fl: "\<lfloor>- x\<rfloor> = - \<lfloor>x\<rfloor> - 1" by (simp add: floor_minus)
  show ?thesis
    unfolding rnd_even_def Let_def fl by (auto split: if_splits)
qed

lemma powi_mono: "a \<le> b \<Longrightarrow> (2 :: rat) powi a \<le> 2 powi b"
  by (simp add: power_int_increasing)

lemma bitlen_powi:
  assumes "0 < n"
  shows "2 powi (bitlen n - 1) \<le> (of_int n :: rat)" and "(of_int n :: rat) < 2 powi (bitlen n)"
proof -
  have "1 \<le> bitlen n" using assms bitlen_eq_zero_iff [of n] bitlen_nonneg [of n] by linarith
  then have "(2 :: rat) powi (bitlen n - 1) = of_int (2 ^ nat (bitlen n - 1))"
    "(2 :: rat) powi (bitlen n) = of_int (2 ^ nat (bitlen n))"
    by (simp_all add: power_int_def)
  then show "2 powi (bitlen n - 1) \<le> (of_int n :: rat)" and "(of_int n :: rat) < 2 powi (bitlen n)"
    using bitlen_bounds [OF assms] by (simp_all only: of_int_le_iff of_int_less_iff)
qed

lemma powi_split: "(2 :: rat) powi (a - b) = 2 powi a / 2 powi b" "(2 :: rat) powi (a + b) = 2 powi a * 2 powi b"
  by (simp_all add: power_int_diff power_int_add)

lemma ilog2_bounds:
  assumes "0 < x"
  shows "2 powi (ilog2 x) \<le> x" and "x < 2 powi (ilog2 x + 1)"
proof -
  obtain n d where q: "quotient_of x = (n, d)" by (cases "quotient_of x")
  have d: "0 < d" using quotient_of_denom_pos [OF q] .
  have x: "x = of_int n / of_int d" using quotient_of_div [OF q] .
  have n: "0 < n" using assms d unfolding x by (simp add: zero_less_divide_iff)
  define k where "k = bitlen n - bitlen d"
  have "x < 2 powi (bitlen n) / 2 powi (bitlen d - 1)"
    unfolding x using bitlen_powi [OF n] bitlen_powi [OF d] n d by (intro frac_less) auto
  also have "\<dots> = 2 powi (k + 1)" by (simp add: k_def algebra_simps flip: powi_split(1))
  finally have hi: "x < 2 powi (k + 1)" .
  have "2 powi (bitlen n - 1) / 2 powi (bitlen d) \<le> x"
    unfolding x using bitlen_powi [OF n] bitlen_powi [OF d] n d by (intro frac_le) auto
  then have lo: "2 powi (k - 1) \<le> x" by (simp add: k_def algebra_simps flip: powi_split(1))
  have "ilog2 x = (if 2 powi k \<le> x then k else k - 1)" by (simp add: ilog2_def q k_def)
  then show "2 powi (ilog2 x) \<le> x" and "x < 2 powi (ilog2 x + 1)" using hi lo by (auto split: if_splits)
qed

lemma ilog2_mono:
  assumes "0 < x" and "x \<le> y"
  shows "ilog2 x \<le> ilog2 y"
proof (rule ccontr)
  assume "\<not> ilog2 x \<le> ilog2 y"
  then have "2 powi (ilog2 y + 1) \<le> (2 :: rat) powi (ilog2 x)" by (intro powi_mono) simp
  then show False using ilog2_bounds [of x] ilog2_bounds [of y] assms by linarith
qed

section \<open>Rounding is monotone\<close>

lemma ulp32_pos [simp]: "0 < ulp32 x"
  by (simp add: ulp32_def)

lemma ulp32_minus [simp]: "ulp32 (- x) = ulp32 x"
  by (simp add: ulp32_def)

lemma rnd32_minus: "rnd32 (- x) = - rnd32 x"
  by (simp add: rnd32_def rnd_even_minus)

lemma rnd32_zero [simp]: "rnd32 0 = 0"
  by (simp add: rnd32_def)

text \<open>A power of two that is a multiple of the unit bounds the rounded value.\<close>

lemma rnd32_le_powi:
  assumes "0 < x" and "x \<le> 2 powi e" and "max (ilog2 x) (- 126) - 23 \<le> e"
  shows "rnd32 x \<le> 2 powi e"
proof -
  define u where "u = max (ilog2 x) (- 126) - 23"
  have ux: "ulp32 x = 2 powi u" using assms(1) by (simp add: ulp32_def u_def)
  have "(2 :: rat) powi (e - u) = of_int (2 ^ nat (e - u))" using assms(3) by (simp add: power_int_def u_def)
  moreover have "x / ulp32 x \<le> 2 powi (e - u)" using assms(2) by (simp add: ux powi_split divide_right_mono)
  ultimately have "rnd_even (x / ulp32 x) \<le> 2 ^ nat (e - u)"
    using rnd_even_mono [of "x / ulp32 x" "of_int (2 ^ nat (e - u))"] by (simp only: rnd_even_of_int)
  then have "of_int (rnd_even (x / ulp32 x)) \<le> (2 :: rat) powi (e - u)"
    unfolding \<open>2 powi (e - u) = of_int (2 ^ nat (e - u))\<close> by (simp only: of_int_le_iff)
  then have "of_int (rnd_even (x / ulp32 x)) * 2 powi u \<le> (2 :: rat) powi (e - u) * 2 powi u"
    by (intro mult_right_mono) simp_all
  then show ?thesis using assms(1) by (simp add: rnd32_def ux powi_split(1))
qed

lemma rnd32_ge_powi:
  assumes "0 < x" and "2 powi e \<le> x" and "max (ilog2 x) (- 126) - 23 \<le> e"
  shows "2 powi e \<le> rnd32 x"
proof -
  define u where "u = max (ilog2 x) (- 126) - 23"
  have ux: "ulp32 x = 2 powi u" using assms(1) by (simp add: ulp32_def u_def)
  have "(2 :: rat) powi (e - u) = of_int (2 ^ nat (e - u))" using assms(3) by (simp add: power_int_def u_def)
  moreover have "2 powi (e - u) \<le> x / ulp32 x" using assms(2) by (simp add: ux powi_split divide_right_mono)
  ultimately have "2 ^ nat (e - u) \<le> rnd_even (x / ulp32 x)"
    using rnd_even_mono [of "of_int (2 ^ nat (e - u))" "x / ulp32 x"] by (simp only: rnd_even_of_int)
  then have "(2 :: rat) powi (e - u) \<le> of_int (rnd_even (x / ulp32 x))"
    unfolding \<open>2 powi (e - u) = of_int (2 ^ nat (e - u))\<close> by (simp only: of_int_le_iff)
  then have "(2 :: rat) powi (e - u) * 2 powi u \<le> of_int (rnd_even (x / ulp32 x)) * 2 powi u"
    by (intro mult_right_mono) simp_all
  then show ?thesis using assms(1) by (simp add: rnd32_def ux powi_split(1))
qed

lemma rnd32_mono_pos:
  assumes "0 < x" and "x \<le> y"
  shows "rnd32 x \<le> rnd32 y"
proof (cases "ulp32 x = ulp32 y")
  case True
  then have "rnd_even (x / ulp32 x) \<le> rnd_even (y / ulp32 y)"
    using assms by (intro rnd_even_mono) (simp add: divide_right_mono less_imp_le)
  then show ?thesis using assms True by (simp add: rnd32_def mult_right_mono less_imp_le)
next
  case False
  have y: "0 < y" using assms by simp
  have "ilog2 x \<le> ilog2 y" by (rule ilog2_mono [OF assms])
  moreover have "max (ilog2 x) (- 126) \<noteq> max (ilog2 y) (- 126)" using False assms y by (auto simp: ulp32_def)
  ultimately have lt: "ilog2 x < ilog2 y" "- 126 < ilog2 y" by linarith+
  have "x < 2 powi (ilog2 x + 1)" by (rule ilog2_bounds [OF assms(1)])
  also have "\<dots> \<le> 2 powi (ilog2 y)" using lt by (intro powi_mono) simp
  finally have "rnd32 x \<le> 2 powi (ilog2 y)" using assms(1) lt by (intro rnd32_le_powi) simp_all
  also have "\<dots> \<le> rnd32 y" using y lt ilog2_bounds(1) [OF y] by (intro rnd32_ge_powi) simp_all
  finally show ?thesis .
qed

lemma rnd32_nonneg: "0 \<le> x \<Longrightarrow> 0 \<le> rnd32 x"
proof -
  assume "0 \<le> x"
  then have "0 \<le> x / ulp32 x" by (simp add: less_imp_le)
  then have "rnd_even (of_int 0) \<le> rnd_even (x / ulp32 x)" by (intro rnd_even_mono) simp
  then have "0 \<le> rnd_even (x / ulp32 x)" by (simp only: rnd_even_of_int)
  then show "0 \<le> rnd32 x" by (simp add: rnd32_def less_imp_le)
qed

lemma rnd32_mono:
  assumes "x \<le> y"
  shows "rnd32 x \<le> rnd32 y"
proof -
  consider "0 < x" | "y < 0" | "x \<le> 0" "0 \<le> y" by linarith
  then show ?thesis
  proof cases
    case 2
    then show ?thesis using rnd32_mono_pos [of "- y" "- x"] assms by (simp add: rnd32_minus)
  next
    case 3
    then show ?thesis using rnd32_nonneg [of y] rnd32_nonneg [of "- x"] by (simp add: rnd32_minus)
  qed (use assms rnd32_mono_pos in simp)
qed

text \<open>A bound by representable numbers survives rounding.\<close>

lemma rnd32_bounded:
  assumes "lo \<le> x" "x \<le> hi" and "rnd32 lo = lo" "rnd32 hi = hi"
  shows "lo \<le> rnd32 x" and "rnd32 x \<le> hi"
  using rnd32_mono [OF assms(1)] rnd32_mono [OF assms(2)] assms(3,4) by simp_all

section \<open>Rounding on integers\<close>

text \<open>An equivalent form of \<open>rnd32\<close> over the numerator and denominator, with which evaluation normalises
  a fraction only once.\<close>

definition rnd_quot :: "int \<Rightarrow> int \<Rightarrow> int" where
  "rnd_quot n d = (let q = n div d; r = 2 * (n mod d) in
     if r < d then q else if r > d then q + 1 else if even q then q else q + 1)"

lemma rnd_even_quot:
  assumes "0 < d"
  shows "rnd_even (of_int n / of_int d) = rnd_quot n d"
proof -
  have fl: "\<lfloor>of_int n / of_int d :: rat\<rfloor> = n div d" by (rule floor_divide_of_int_eq)
  have "of_int n = (of_int (n div d) * of_int d + of_int (n mod d) :: rat)"
    by (metis of_int_add of_int_mult div_mult_mod_eq)
  then have r: "of_int n / of_int d - of_int (n div d) = (of_int (n mod d) / of_int d :: rat)"
    using assms by (simp add: field_simps)
  have "(of_int (n mod d) / of_int d < (1 / 2 :: rat)) = (of_int (2 * (n mod d)) < (of_int d :: rat))"
    "(of_int (n mod d) / of_int d > (1 / 2 :: rat)) = (of_int (2 * (n mod d)) > (of_int d :: rat))"
    using assms by (simp_all add: field_simps)
  then show ?thesis by (simp only: rnd_even_def rnd_quot_def Let_def fl r of_int_less_iff)
qed

function int_len :: "int \<Rightarrow> int" where
  "int_len n = (if n \<le> 0 then 0 else 1 + int_len (n div 2))"
  by auto
termination by (relation "measure nat") auto

declare int_len.simps [simp del]

lemma int_len_bitlen: "int_len n = bitlen n"
proof (induction n rule: int_len.induct)
  case (1 n)
  show ?case
  proof (cases "n \<le> 0")
    case False
    then show ?thesis using 1
      by (subst int_len.simps) (simp add: bitlen_def compute_floorlog [of 2 "nat n"] nat_div_distrib)
  qed (simp add: int_len.simps bitlen_def floorlog_def)
qed

definition quot_log2 :: "int \<Rightarrow> int \<Rightarrow> int" where
  "quot_log2 n d = (let k = int_len n - int_len d in
     if (if 0 \<le> k then d * 2 ^ nat k \<le> n else d \<le> n * 2 ^ nat (- k)) then k else k - 1)"

lemma ilog2_quot:
  assumes "quotient_of x = (n, d)" and "0 < n"
  shows "ilog2 x = quot_log2 n d"
proof -
  have d: "0 < d" by (rule quotient_of_denom_pos [OF assms(1)])
  have x: "x = of_int n / of_int d" by (rule quotient_of_div [OF assms(1)])
  have "(2 powi k \<le> x) = (if 0 \<le> k then d * 2 ^ nat k \<le> n else d \<le> n * 2 ^ nat (- k))" for k
  proof (cases "0 \<le> k")
    case True
    have "(2 powi k \<le> x) = (of_int (d * 2 ^ nat k) \<le> (of_int n :: rat))"
      using d True unfolding x by (simp add: power_int_def field_simps)
    then show ?thesis using True by (simp only: of_int_le_iff if_True)
  next
    case False
    have "(2 powi k \<le> x) = (of_int d \<le> (of_int (n * 2 ^ nat (- k)) :: rat))"
      using d False unfolding x by (simp add: power_int_def field_simps)
    then show ?thesis using False by (simp only: of_int_le_iff if_False)
  qed
  then show ?thesis by (simp only: ilog2_def quot_log2_def int_len_bitlen assms(1) Let_def prod.case)
qed

lemma rnd32_code [code]:
  "rnd32 x = (case quotient_of x of (n, d) \<Rightarrow>
     if n = 0 then 0
     else let e = max (quot_log2 \<bar>n\<bar> d) (- 126) - 23 in
       if 0 \<le> e then of_int (rnd_quot n (d * 2 ^ nat e) * 2 ^ nat e)
       else of_int (rnd_quot (n * 2 ^ nat (- e)) d) / of_int (2 ^ nat (- e)))"
proof -
  obtain n d where q: "quotient_of x = (n, d)" by (cases "quotient_of x")
  have d: "0 < d" by (rule quotient_of_denom_pos [OF q])
  have x: "x = of_int n / of_int d" by (rule quotient_of_div [OF q])
  have qa: "quotient_of \<bar>x\<bar> = (\<bar>n\<bar>, d)" by (simp add: rat_abs_code q)
  show ?thesis
  proof (cases "n = 0")
    case True
    then show ?thesis by (simp add: q x)
  next
    case False
    have nz: "x \<noteq> 0" using False d by (simp add: x)
    define e where "e = max (quot_log2 \<bar>n\<bar> d) (- 126) - 23"
    have u: "ulp32 x = 2 powi e" using False by (simp add: ulp32_def e_def ilog2_quot [OF qa])
    have r: "rnd32 x = of_int (rnd_even (x / 2 powi e)) * 2 powi e" using nz by (simp add: rnd32_def u)
    show ?thesis
    proof (cases "0 \<le> e")
      case True
      have "x / 2 powi e = of_int n / of_int (d * 2 ^ nat e)" using True by (simp add: x power_int_def)
      moreover have "0 < d * 2 ^ nat e" using d by simp
      ultimately have "rnd32 x = of_int (rnd_quot n (d * 2 ^ nat e)) * 2 powi e" by (simp only: r rnd_even_quot)
      then show ?thesis unfolding q prod.case Let_def e_def [symmetric] using True False by (simp add: power_int_def)
    next
      case neg: False
      have "x / 2 powi e = of_int (n * 2 ^ nat (- e)) / of_int d" using neg by (simp add: x power_int_def field_simps)
      then have "rnd32 x = of_int (rnd_quot (n * 2 ^ nat (- e)) d) * 2 powi e" by (simp only: r rnd_even_quot [OF d])
      then show ?thesis unfolding q prod.case Let_def e_def [symmetric] using neg False by (simp add: power_int_def field_simps)
    qed
  qed
qed

section \<open>Values and operations\<close>

text \<open>\<open>Inf True\<close> is the negative infinity.\<close>

datatype f32 = Fin rat | Inf bool | NaN

definition f_round :: "rat \<Rightarrow> f32" where
  "f_round x = (let v = rnd32 x in if 2 powi 128 \<le> \<bar>v\<bar> then Inf (v < 0) else Fin v)"

lemma f_round_code [code]:
  "f_round x = (let v = rnd32 x in if 340282366920938463463374607431768211456 \<le> \<bar>v\<bar> then Inf (v < 0) else Fin v)"
  by (simp add: f_round_def power_int_def)

fun f_neg :: "f32 \<Rightarrow> f32" where
  "f_neg (Fin a) = Fin (- a)" | "f_neg (Inf s) = Inf (\<not> s)" | "f_neg NaN = NaN"

fun f_add :: "f32 \<Rightarrow> f32 \<Rightarrow> f32" where
  "f_add (Fin a) (Fin b) = f_round (a + b)"
| "f_add (Inf s) (Inf t) = (if s = t then Inf s else NaN)"
| "f_add (Inf s) (Fin b) = Inf s"
| "f_add (Fin a) (Inf t) = Inf t"
| "f_add _ _ = NaN"

definition f_sub :: "f32 \<Rightarrow> f32 \<Rightarrow> f32" where
  "f_sub a b = f_add a (f_neg b)"

fun f_mul :: "f32 \<Rightarrow> f32 \<Rightarrow> f32" where
  "f_mul (Fin a) (Fin b) = f_round (a * b)"
| "f_mul (Inf s) (Inf t) = Inf (s \<noteq> t)"
| "f_mul (Inf s) (Fin b) = (if b = 0 then NaN else Inf (s \<noteq> (b < 0)))"
| "f_mul (Fin a) (Inf t) = (if a = 0 then NaN else Inf (t \<noteq> (a < 0)))"
| "f_mul _ _ = NaN"

fun f_div :: "f32 \<Rightarrow> f32 \<Rightarrow> f32" where
  "f_div (Fin a) (Fin b) = (if b = 0 then if a = 0 then NaN else Inf (a < 0) else f_round (a / b))"
| "f_div (Inf s) (Fin b) = Inf (s \<noteq> (b < 0))"
| "f_div (Fin a) (Inf t) = Fin 0"
| "f_div _ _ = NaN"

text \<open>Comparisons with a NaN are false.\<close>

fun f_lt :: "f32 \<Rightarrow> f32 \<Rightarrow> bool" where
  "f_lt (Fin a) (Fin b) \<longleftrightarrow> a < b"
| "f_lt (Inf s) (Inf t) \<longleftrightarrow> s \<and> \<not> t"
| "f_lt (Inf s) (Fin b) \<longleftrightarrow> s"
| "f_lt (Fin a) (Inf t) \<longleftrightarrow> \<not> t"
| "f_lt _ _ \<longleftrightarrow> False"

fun f_eq :: "f32 \<Rightarrow> f32 \<Rightarrow> bool" where
  "f_eq (Fin a) (Fin b) \<longleftrightarrow> a = b"
| "f_eq (Inf s) (Inf t) \<longleftrightarrow> s = t"
| "f_eq _ _ \<longleftrightarrow> False"

definition f_le :: "f32 \<Rightarrow> f32 \<Rightarrow> bool" where
  "f_le a b \<longleftrightarrow> f_lt a b \<or> f_eq a b"

text \<open>
  Conversions. A decimal literal and an integer are rounded; the conversion to an integer truncates
  and \<open>lroundf\<close> rounds half away from zero. What is not a number in the range of the integer type
  is undefined behaviour: \<open>None\<close> here, with the range checked by the caller of \<open>f_trunc\<close>.
\<close>

definition f_lit :: "rat \<Rightarrow> f32" where
  "f_lit x = f_round x"

definition f_of_int :: "int \<Rightarrow> f32" where
  "f_of_int i = f_round (of_int i)"

fun f_trunc :: "f32 \<Rightarrow> int option" where
  "f_trunc (Fin a) = Some (if 0 \<le> a then \<lfloor>a\<rfloor> else \<lceil>a\<rceil>)"
| "f_trunc _ = None"

fun f_lround :: "f32 \<Rightarrow> int option" where
  "f_lround (Fin a) = Some (if 0 \<le> a then \<lfloor>a + 1 / 2\<rfloor> else \<lceil>a - 1 / 2\<rceil>)"
| "f_lround _ = None"

text \<open>The \<open>clamp\<close> helper that several source files define in the same words.\<close>

definition f_clamp :: "f32 \<Rightarrow> f32 \<Rightarrow> f32 \<Rightarrow> f32" where
  "f_clamp v lo hi = (if f_lt v lo then lo else if f_lt hi v then hi else v)"

fun f_in :: "rat \<Rightarrow> rat \<Rightarrow> f32 \<Rightarrow> bool" where
  "f_in lo hi (Fin a) \<longleftrightarrow> lo \<le> a \<and> a \<le> hi"
| "f_in lo hi _ \<longleftrightarrow> False"

lemma f_inE:
  assumes "f_in lo hi v"
  obtains a where "v = Fin a" "lo \<le> a" "a \<le> hi"
  using assms by (cases v) auto

lemma f_in_mono: "f_in lo hi v \<Longrightarrow> lo' \<le> lo \<Longrightarrow> hi \<le> hi' \<Longrightarrow> f_in lo' hi' v"
  by (cases v) auto

lemma f_clamp_in: "v \<noteq> NaN \<Longrightarrow> lo \<le> hi \<Longrightarrow> f_in lo hi (f_clamp v (Fin lo) (Fin hi))"
  by (cases v) (auto simp: f_clamp_def)

lemma f_clamp_id: "f_in lo hi v \<Longrightarrow> f_clamp v (Fin lo) (Fin hi) = v"
  by (cases v) (auto simp: f_clamp_def)

text \<open>Rounding an exact result with representable bounds.\<close>

lemma f_round_in:
  assumes "lo \<le> x" "x \<le> hi" and "rnd32 lo = lo" "rnd32 hi = hi" and "- (2 powi 128) < lo" "hi < 2 powi 128"
  shows "f_in lo hi (f_round x)"
  using rnd32_bounded [OF assms(1-4)] assms(5,6) by (auto simp: f_round_def Let_def abs_le_iff)

lemma f_round_not_NaN [simp]: "f_round x \<noteq> NaN"
  by (simp add: f_round_def Let_def)

lemma f_of_int_not_NaN [simp]: "f_of_int i \<noteq> NaN" "f_lit x \<noteq> NaN"
  by (simp_all add: f_of_int_def f_lit_def)

section \<open>Rounding error\<close>

lemma rnd_even_error: "\<bar>of_int (rnd_even x) - x\<bar> \<le> 1 / 2"
  using of_int_floor_le [of x] floor_correct [of x]
  by (auto simp: rnd_even_def Let_def abs_le_iff)

text \<open>Half a unit in the last place, for every bound of the magnitude that is not tiny.\<close>

lemma rnd32_error:
  assumes "\<bar>x\<bar> \<le> B" and "1 / 2 ^ 20 \<le> B"
  shows "\<bar>rnd32 x - x\<bar> \<le> B / 2 ^ 23"
proof (cases "x = 0")
  case False
  have "2 powi (max (ilog2 \<bar>x\<bar>) (- 126)) \<le> B"
  proof (cases "ilog2 \<bar>x\<bar> \<le> - 126")
    case True
    have "(2 :: rat) powi (- 126) \<le> 1 / 2 ^ 20" by code_simp
    then show ?thesis using True assms(2) by simp
  next
    case large: False
    then show ?thesis using ilog2_bounds(1) [of "\<bar>x\<bar>"] False assms(1) by simp
  qed
  then have "2 powi (max (ilog2 \<bar>x\<bar>) (- 126)) / 2 ^ 23 \<le> B / 2 ^ 23" by (rule divide_right_mono) simp
  then have u: "ulp32 x \<le> B / 2 ^ 23" unfolding ulp32_def powi_split(1) by (simp only: power_int_numeral)
  have "rnd32 x - x = (of_int (rnd_even (x / ulp32 x)) - x / ulp32 x) * ulp32 x"
    using False less_imp_neq [OF ulp32_pos [of x]] by (simp add: rnd32_def algebra_simps)
  then have "\<bar>rnd32 x - x\<bar> = \<bar>of_int (rnd_even (x / ulp32 x)) - x / ulp32 x\<bar> * ulp32 x"
    by (simp add: abs_mult less_imp_le)
  also have "\<dots> \<le> 1 / 2 * ulp32 x"
    by (intro mult_right_mono rnd_even_error) (simp add: less_imp_le)
  also have "\<dots> \<le> B / 2 ^ 23" using u ulp32_pos [of x] by linarith
  finally show ?thesis .
qed (use assms in simp)

lemma f_round_Fin:
  assumes "\<bar>x\<bar> \<le> B" and "1 / 2 ^ 20 \<le> B" and "B \<le> 2 ^ 100"
  shows "f_round x = Fin (rnd32 x)"
proof -
  have "\<bar>rnd32 x - x\<bar> \<le> B / 2 ^ 23" by (rule rnd32_error [OF assms(1,2)])
  moreover have "B / 2 ^ 23 \<le> B" using assms(1) by simp
  moreover have "\<bar>rnd32 x\<bar> \<le> \<bar>rnd32 x - x\<bar> + \<bar>x\<bar>" using abs_triangle_ineq [of "rnd32 x - x" x] by simp
  ultimately have "\<bar>rnd32 x\<bar> \<le> 2 * 2 ^ 100" using assms(1,3) by linarith
  also have "\<dots> < 2 powi 128" by (simp add: power_int_def)
  finally have "\<bar>rnd32 x\<bar> < 2 powi 128" .
  then show ?thesis by (simp add: f_round_def Let_def not_le)
qed

text \<open>Binary fractions of up to 24 significant bits are represented exactly.\<close>

lemma rnd32_dyadic:
  assumes "\<bar>n\<bar> < 2 ^ 24" and "k \<le> 100"
  shows "rnd32 (of_int n / 2 ^ k) = of_int n / 2 ^ k"
proof (cases "n = 0")
  case False
  define x :: rat where "x = of_int n / 2 ^ k"
  let ?e = "max (ilog2 \<bar>x\<bar>) (- 126)"
  have x: "0 < \<bar>x\<bar>" using False by (simp add: x_def)
  have "ilog2 \<bar>x\<bar> < 24 - int k"
  proof (rule ccontr)
    assume "\<not> ilog2 \<bar>x\<bar> < 24 - int k"
    then have "(2 :: rat) powi (24 - int k) \<le> 2 powi (ilog2 \<bar>x\<bar>)" by (intro powi_mono) simp
    also have "\<dots> \<le> \<bar>x\<bar>" by (rule ilog2_bounds(1) [OF x])
    finally have "2 ^ 24 / 2 ^ k \<le> \<bar>of_int n\<bar> / (2 :: rat) ^ k" by (simp add: powi_split(1) x_def)
    then have "of_int (2 ^ 24) \<le> (of_int \<bar>n\<bar> :: rat)" by (simp add: divide_le_cancel)
    then show False using assms(1) by (simp only: of_int_le_iff)
  qed
  then have "0 \<le> 23 - ?e - int k" using assms(2) by linarith
  then have "(2 :: rat) powi (23 - ?e - int k) = of_int (2 ^ nat (23 - ?e - int k))" by (simp add: power_int_def)
  moreover have "x / ulp32 x = of_int n * 2 powi (23 - ?e - int k)"
    by (simp add: x_def ulp32_def powi_split(1))
  ultimately have "x / ulp32 x = of_int (n * 2 ^ nat (23 - ?e - int k))" by simp
  then have "of_int (rnd_even (x / ulp32 x)) = x / ulp32 x" by (simp only: rnd_even_of_int)
  then have "rnd32 x = x" using x less_imp_neq [OF ulp32_pos [of x]] by (simp add: rnd32_def)
  then show ?thesis by (simp only: x_def)
qed simp

lemma rnd32_of_int: "\<bar>n\<bar> < 2 ^ 24 \<Longrightarrow> rnd32 (of_int n) = of_int n"
  using rnd32_dyadic [of n 0] by simp

lemma f_round_dyadic:
  assumes "\<bar>n\<bar> < 2 ^ 24" and "k \<le> 100"
  shows "f_round (of_int n / 2 ^ k) = Fin (of_int n / 2 ^ k)"
proof -
  have "\<bar>of_int n\<bar> < (2 ^ 24 :: rat)" using assms(1) by (metis of_int_abs of_int_less_numeral_power_cancel_iff)
  moreover have "\<bar>of_int n\<bar> / 2 ^ k \<le> (\<bar>of_int n\<bar> :: rat)"
    using mult_left_mono [of 1 "2 ^ k :: rat" "\<bar>of_int n\<bar>"] by (simp add: divide_le_eq)
  ultimately have "\<bar>of_int n / 2 ^ k\<bar> < (2 powi 128 :: rat)" by (simp add: power_int_def)
  then show ?thesis by (simp add: f_round_def rnd32_dyadic [OF assms] Let_def not_le)
qed

lemma f_of_int_exact: "\<bar>n\<bar> < 2 ^ 24 \<Longrightarrow> f_of_int n = Fin (of_int n)"
  using f_round_dyadic [of n 0] by (simp add: f_of_int_def)

lemma f_lround_near: "\<bar>b - of_int k\<bar> < 1 / 2 \<Longrightarrow> f_lround (Fin b) = Some k"
proof -
  assume near: "\<bar>b - of_int k\<bar> < 1 / 2"
  then have "of_int k - 1 / 2 < b" "b < of_int k + 1 / 2" by linarith+
  then have "\<lfloor>b + 1 / 2\<rfloor> = k" "\<lceil>b - 1 / 2\<rceil> = k" by (intro floor_unique ceiling_unique; linarith)+
  then show "f_lround (Fin b) = Some k" by simp
qed

section \<open>The C library\<close>

text \<open>
  The mathematical functions whose accuracy the C standard leaves to the implementation are a
  parameter of the code that calls them, and so is what \<open>lroundf\<close> returns for a value outside the
  range of \<open>long\<close>, 32 bits on the target.
\<close>

record libm =
  lm_sqrtf :: "f32 \<Rightarrow> f32"
  lm_sinf :: "f32 \<Rightarrow> f32"
  lm_cosf :: "f32 \<Rightarrow> f32"
  lm_acosf :: "f32 \<Rightarrow> f32"
  lm_asinf :: "f32 \<Rightarrow> f32"
  lm_atan2f :: "f32 \<Rightarrow> f32 \<Rightarrow> f32"
  lm_expf :: "f32 \<Rightarrow> f32"
  lm_lround_other :: "f32 \<Rightarrow> u32"

definition lroundf :: "libm \<Rightarrow> f32 \<Rightarrow> u32" where
  "lroundf m v = (case f_lround v of
      Some n \<Rightarrow> if - (2 ^ 31) \<le> n \<and> n < 2 ^ 31 then word_of_int n else lm_lround_other m v
    | None \<Rightarrow> lm_lround_other m v)"

fun fabsf :: "f32 \<Rightarrow> f32" where
  "fabsf (Fin a) = Fin \<bar>a\<bar>" | "fabsf (Inf s) = Inf False" | "fabsf NaN = NaN"

fun floorf :: "f32 \<Rightarrow> f32" where
  "floorf (Fin a) = Fin (of_int \<lfloor>a\<rfloor>)" | "floorf (Inf s) = Inf s" | "floorf NaN = NaN"

text \<open>\<open>fmaxf\<close> ignores a NaN argument.\<close>

definition fmaxf :: "f32 \<Rightarrow> f32 \<Rightarrow> f32" where
  "fmaxf u v = (if u = NaN then v else if v = NaN then u else if f_lt u v then v else u)"

text \<open>A checked conversion to an integer type with the given bounds; \<open>None\<close> is undefined behaviour.\<close>

definition f_cast :: "int \<Rightarrow> int \<Rightarrow> f32 \<Rightarrow> int option" where
  "f_cast lo hi v = (case f_trunc v of Some n \<Rightarrow> if lo \<le> n \<and> n \<le> hi then Some n else None | None \<Rightarrow> None)"

lemma f_cast_in:
  assumes "f_in 0 (of_int hi) v"
  shows "\<exists>n. f_cast 0 hi v = Some n \<and> 0 \<le> n \<and> n \<le> hi"
proof -
  obtain a where a: "v = Fin a" "0 \<le> a" "a \<le> of_int hi" using assms by (rule f_inE)
  then show ?thesis by (auto simp: f_cast_def floor_le_iff)
qed

lemma f_cast_half:
  assumes "f_in 0 (of_int hi + 1 / 2) v"
  shows "\<exists>n. f_cast 0 hi v = Some n \<and> 0 \<le> n \<and> n \<le> hi"
proof -
  obtain a where a: "v = Fin a" "0 \<le> a" "a \<le> of_int hi + 1 / 2" using assms by (rule f_inE)
  then have "\<lfloor>a\<rfloor> \<le> hi" by (simp add: floor_le_iff)
  then show ?thesis using a by (auto simp: f_cast_def)
qed

end
