(* ===== verification/ServoMap.thy ===== *)
theory ServoMap
  imports ConfigSchema Float32
begin

text \<open>
  The servo map (\<open>dxl/servo_map.h\<close>, \<open>dxl/servo_map.cpp\<close>), the last gate between a joint angle and
  the servo bus. \<open>long\<close> is 32 bits on the target; its arithmetic is modelled with wrap-around, so
  that the limits are proved for every angle, NaN and infinities included, and for every result
  \<open>lroundf\<close> may give outside its range.
\<close>

definition kServoCenterTick :: u16 where "kServoCenterTick = 2048"

definition kTicksPerRev :: f32 where "kTicksPerRev = f_lit 4096"
definition kTicksPerDeg :: f32 where "kTicksPerDeg = f_div kTicksPerRev (f_lit 360)"
definition kPi :: f32 where "kPi = f_lit (314159265358979323846 / 100000000000000000000)"
definition kRadToDeg :: f32 where "kRadToDeg = f_div (f_lit 180) kPi"
definition kDegToRad :: f32 where "kDegToRad = f_div kPi (f_lit 180)"

record JointCommand =
  jc_tick :: u16
  jc_clamped_low :: bool
  jc_clamped_high :: bool
  jc_unmapped :: bool

definition servoFor :: "RobotConfig \<Rightarrow> u8 \<Rightarrow> u8 \<Rightarrow> ServoConfig option" where
  "servoFor cfg leg joint = find (\<lambda>s. servo_leg s = leg \<and> servo_joint s = joint) (cfg_servos cfg)"

definition servoForId :: "RobotConfig \<Rightarrow> u8 \<Rightarrow> ServoConfig option" where
  "servoForId cfg i = find (\<lambda>s. servo_id s = i) (cfg_servos cfg)"

text \<open>The four saturation steps, on the value of the \<open>long\<close> \<open>raw\<close>.\<close>

definition clamp_raw :: "int \<Rightarrow> ServoConfig \<Rightarrow> JointCommand" where
  "clamp_raw raw s =
     (let lo = int (unat (min_tick s)); hi = int (unat (max_tick s)); top = int (unat kServoMaxTick);
          (raw, cl) = (if raw < lo then (lo, True) else (raw, False));
          (raw, ch) = (if raw > hi then (hi, True) else (raw, False));
          (raw, cl) = (if raw < 0 then (0, True) else (raw, cl));
          (raw, ch) = (if raw > top then (top, True) else (raw, ch))
      in \<lparr> jc_tick = word_of_int raw, jc_clamped_low = cl, jc_clamped_high = ch, jc_unmapped = False \<rparr>)"

definition angleToTick :: "libm \<Rightarrow> RobotConfig \<Rightarrow> u8 \<Rightarrow> u8 \<Rightarrow> f32 \<Rightarrow> JointCommand" where
  "angleToTick m cfg leg joint angle_rad =
     (case servoFor cfg leg joint of
        None \<Rightarrow> \<lparr> jc_tick = kServoCenterTick, jc_clamped_low = False, jc_clamped_high = False, jc_unmapped = True \<rparr>
      | Some s \<Rightarrow>
          let deg = f_mul angle_rad kRadToDeg;
              offset = lroundf m (f_mul deg kTicksPerDeg);
              raw = ucast kServoCenterTick + scast (trim_ticks s) + scast (servo_sign s) * offset
          in clamp_raw (sint (raw :: u32)) s)"

definition tickToAngle :: "RobotConfig \<Rightarrow> u8 \<Rightarrow> u8 \<Rightarrow> u16 \<Rightarrow> f32" where
  "tickToAngle cfg leg joint tick =
     (case servoFor cfg leg joint of
        None \<Rightarrow> Fin 0
      | Some s \<Rightarrow>
          let offset_ticks = f_of_int (int (unat tick) - int (unat kServoCenterTick) - sint (trim_ticks s));
              deg = f_div offset_ticks kTicksPerDeg
          in f_mul (f_mul (f_of_int (sint (servo_sign s))) deg) kDegToRad)"

section \<open>Every commanded tick is within the travel of its servo\<close>

lemma servoFor_valid:
  assumes "validateRobotConfig cfg" and "config_dims cfg" and "unat leg < 6" and "unat joint < 3"
  shows "\<exists>s. servoFor cfg leg joint = Some s \<and> s \<in> set (cfg_servos cfg) \<and> servo_ok s \<and>
           servo_leg s = leg \<and> servo_joint s = joint"
proof -
  note v = validate_servo_map [OF assms(1,2)]
  have "(unat leg, unat joint) \<in> servo_slot ` set (cfg_servos cfg)"
    using v(4) assms(3,4) by (simp add: kNumLegs_def kJointsPerLeg_def)
  then obtain s where "s \<in> set (cfg_servos cfg)" "servo_leg s = leg" "servo_joint s = joint"
    by (auto simp: servo_slot_def word_unat_eq_iff)
  then obtain s' where s': "servoFor cfg leg joint = Some s'"
    unfolding servoFor_def by (metis (mono_tags, lifting) find_None_iff not_None_eq)
  then have "s' \<in> set (cfg_servos cfg) \<and> servo_leg s' = leg \<and> servo_joint s' = joint"
    unfolding servoFor_def by (auto simp: find_Some_iff)
  then show ?thesis using s' v(1) by (auto simp: list_all_iff)
qed

lemma clamp_raw_eq:
  assumes "min_tick s < max_tick s" and "max_tick s \<le> 4095"
  shows "clamp_raw raw s =
    \<lparr> jc_tick = (if raw < uint (min_tick s) then min_tick s
                 else if uint (max_tick s) < raw then max_tick s else word_of_int raw),
      jc_clamped_low = (raw < uint (min_tick s)), jc_clamped_high = (uint (max_tick s) < raw),
      jc_unmapped = False \<rparr>"
proof -
  have "uint (min_tick s) < uint (max_tick s)" "uint (max_tick s) \<le> 4095" "0 \<le> uint (min_tick s)"
    using assms by (simp_all add: word_less_def word_le_def)
  then show ?thesis
    by (auto simp: clamp_raw_def kServoMaxTick_def Let_def intro: order.strict_trans2 [OF _ uint_ge_0])
qed

lemma clamp_raw_within:
  assumes "servo_ok s"
  shows "min_tick s \<le> jc_tick (clamp_raw raw s)" and "jc_tick (clamp_raw raw s) \<le> max_tick s"
proof -
  have o: "min_tick s < max_tick s" "max_tick s \<le> 4095" using assms by (simp_all add: servo_ok_def)
  have u: "uint (min_tick s) < uint (max_tick s)" "uint (max_tick s) \<le> 4095"
    using o by (simp_all add: word_less_def word_le_def)
  have "uint (word_of_int raw :: u16) = raw" if "uint (min_tick s) \<le> raw" "raw \<le> uint (max_tick s)"
  proof -
    have "0 \<le> raw" using that(1) uint_ge_0 [of "min_tick s"] by linarith
    then show ?thesis using that u by (simp add: uint_word_of_int_eq take_bit_int_eq_self)
  qed
  then show "min_tick s \<le> jc_tick (clamp_raw raw s)" and "jc_tick (clamp_raw raw s) \<le> max_tick s"
    using u unfolding clamp_raw_eq [OF o] by (auto simp: word_le_def)
qed

text \<open>
  No angle drives a servo outside its travel. For a validated configuration and any leg and
  joint, whatever floating-point value is asked for (NaN and infinities included) and whatever
  \<open>lroundf\<close> returns outside its range, the commanded tick lies in the configured range of the servo
  of that joint, which is a range of device ticks; and the two flags say exactly when it was cut.
\<close>

theorem servo_tick_within_limits:
  assumes "validateRobotConfig cfg" and "config_dims cfg" and "unat leg < 6" and "unat joint < 3"
  shows "\<exists>s \<in> set (cfg_servos cfg). servo_leg s = leg \<and> servo_joint s = joint \<and> max_tick s \<le> 4095 \<and>
           min_tick s \<le> jc_tick (angleToTick m cfg leg joint a) \<and>
           jc_tick (angleToTick m cfg leg joint a) \<le> max_tick s \<and>
           \<not> jc_unmapped (angleToTick m cfg leg joint a) \<and>
           (jc_clamped_low (angleToTick m cfg leg joint a) \<longrightarrow> jc_tick (angleToTick m cfg leg joint a) = min_tick s) \<and>
           (jc_clamped_high (angleToTick m cfg leg joint a) \<longrightarrow> jc_tick (angleToTick m cfg leg joint a) = max_tick s)"
proof -
  obtain s where s: "servoFor cfg leg joint = Some s" "s \<in> set (cfg_servos cfg)" "servo_ok s"
    "servo_leg s = leg" "servo_joint s = joint"
    using servoFor_valid [OF assms] by blast
  have o: "min_tick s < max_tick s" "max_tick s \<le> 4095" using s(3) by (simp_all add: servo_ok_def)
  have lt: "uint (min_tick s) < uint (max_tick s)" using o(1) by (simp add: word_less_def)
  obtain raw where a: "angleToTick m cfg leg joint a = clamp_raw raw s"
    by (simp add: angleToTick_def s(1) Let_def)
  show ?thesis
    using s(2,4,5) o clamp_raw_within [OF s(3), of raw] lt unfolding a
    by (intro bexI [where x = s]) (auto simp: clamp_raw_eq [OF o])
qed

theorem servo_tick_within_limits_witness:
  "\<exists>s \<in> set (cfg_servos defaultRobotConfig). servo_leg s = 5 \<and> servo_joint s = 2 \<and>
     min_tick s \<le> jc_tick (angleToTick \<lparr> lm_sqrtf = id, lm_sinf = id, lm_cosf = id, lm_acosf = id, lm_asinf = id,
        lm_atan2f = (\<lambda>y x. y), lm_expf = id, lm_lround_other = (\<lambda>v. 0x80000000) \<rparr> defaultRobotConfig 5 2 NaN)"
proof -
  have "unat (5 :: u8) < 6" "unat (2 :: u8) < 3" by simp_all
  from servo_tick_within_limits [OF default_valid default_dims this] show ?thesis by blast
qed

section \<open>Reading a tick back\<close>

text \<open>The three conversion factors, as exact rationals, and how far their product is from one.\<close>

lemma map_factors:
  obtains T R D where "kTicksPerDeg = Fin T" "kRadToDeg = Fin R" "kDegToRad = Fin D"
    "11 \<le> T" "T \<le> 12" "57 \<le> R" "R \<le> 58" "1 / 58 \<le> D" "D \<le> 1 / 57" "\<bar>D * R - 1\<bar> \<le> 1 / 2 ^ 22"
proof -
  have "f_in 11 12 kTicksPerDeg" "f_in 57 58 kRadToDeg" "f_in (1 / 58) (1 / 57) kDegToRad" by code_simp+
  then obtain T R D where T: "kTicksPerDeg = Fin T" "11 \<le> T" "T \<le> 12" and R: "kRadToDeg = Fin R" "57 \<le> R" "R \<le> 58"
    and D: "kDegToRad = Fin D" "1 / 58 \<le> D" "D \<le> 1 / 57"
    by (elim f_inE)
  have "case kDegToRad of Fin d \<Rightarrow> (case kRadToDeg of Fin r \<Rightarrow> \<bar>d * r - 1\<bar> \<le> 1 / 2 ^ 22 | _ \<Rightarrow> False) | _ \<Rightarrow> False"
    by code_simp
  then have "\<bar>D * R - 1\<bar> \<le> 1 / 2 ^ 22" unfolding D(1) R(1) f32.case .
  then show ?thesis using that T R D by blast
qed

text \<open>One rounded operation after another: the value, its bound, and the error it may have gathered.\<close>

lemma round_step:
  assumes "\<bar>a - x\<bar> \<le> e" and "\<bar>x\<bar> + e \<le> B" and "1 / 2 ^ 20 \<le> B" and "B \<le> 2 ^ 100"
  shows "f_round a = Fin (rnd32 a)" and "\<bar>rnd32 a - x\<bar> \<le> e + B / 2 ^ 23"
proof -
  have a: "\<bar>a\<bar> \<le> B" using assms(1,2) by linarith
  show "f_round a = Fin (rnd32 a)" by (rule f_round_Fin [OF a assms(3,4)])
  show "\<bar>rnd32 a - x\<bar> \<le> e + B / 2 ^ 23" using rnd32_error [OF a assms(3)] assms(1) by linarith
qed

lemma scale_error:
  fixes a x c :: rat
  assumes "\<bar>a - x\<bar> \<le> e" and "0 \<le> c" and "c \<le> k"
  shows "\<bar>a * c - x * c\<bar> \<le> e * k"
proof -
  have "\<bar>a * c - x * c\<bar> = \<bar>a - x\<bar> * c" using assms(2) by (simp add: abs_mult flip: left_diff_distrib)
  also have "\<dots> \<le> e * k" using assms by (intro mult_mono) simp_all
  finally show ?thesis .
qed

lemma tick_chain:
  assumes n: "\<bar>n\<bar> \<le> 40000" and s: "s = 1 \<or> s = (- 1 :: int)"
    and T: "11 \<le> T" "T \<le> 12" and R: "57 \<le> R" "R \<le> 58" and D: "1 / 58 \<le> D" "D \<le> 1 / 57"
    and DR: "\<bar>D * R - 1\<bar> \<le> 1 / 2 ^ 22"
  shows "\<exists>b. f_mul (f_mul (f_mul (f_mul (f_of_int s) (f_div (f_of_int n) (Fin T))) (Fin D)) (Fin R)) (Fin T) = Fin b \<and>
             \<bar>b - of_int (s * n)\<bar> < 1 / 2"
proof -
  have T0: "0 < T" and D0: "0 \<le> D" and R0: "0 \<le> R" using T R D by linarith+
  define x where "x = of_int n / T"
  define y where "y = of_int s * x"
  have n': "\<bar>of_int n\<bar> \<le> (40000 :: rat)" using n by linarith
  have "\<bar>x\<bar> \<le> 40000 / 11" unfolding x_def abs_divide using n' T by (intro frac_le) simp_all
  then have xb: "\<bar>x\<bar> \<le> 3637" by linarith
  then have yb: "\<bar>y\<bar> \<le> 3637" using s by (auto simp: y_def)
  define a1 where "a1 = rnd32 x"
  have 1: "f_round x = Fin a1" "\<bar>a1 - x\<bar> \<le> 4096 / 2 ^ 23"
    using round_step [of x x 0 4096] xb by (simp_all add: a1_def)
  have "of_int s * a1 - y = of_int s * (a1 - x)" by (simp add: y_def algebra_simps)
  then have "\<bar>of_int s * a1 - y\<bar> \<le> 4096 / 2 ^ 23" using 1(2) s by (auto simp: abs_mult)
  note 2 = round_step [OF this, of 4096] 
  define a2 where "a2 = rnd32 (of_int s * a1)"
  have 2: "f_round (of_int s * a1) = Fin a2" "\<bar>a2 - y\<bar> \<le> 4096 / 2 ^ 23 + 4096 / 2 ^ 23"
    using 2 yb by (simp_all add: a2_def)
  define a3 where "a3 = rnd32 (a2 * D)"
  have yD: "\<bar>y * D\<bar> \<le> 3637 / 57" using yb D D0 mult_mono [of "\<bar>y\<bar>" 3637 D "1 / 57"] by (simp add: abs_mult)
  note 3 = round_step [OF scale_error [OF 2(2) D0 D(2)], of 64]
  have 3: "f_round (a2 * D) = Fin a3" "\<bar>a3 - y * D\<bar> \<le> 1 / 2 ^ 15"
    using 3 yD by (simp_all add: a3_def)
  define a4 where "a4 = rnd32 (a3 * R)"
  have "\<bar>y * D * R\<bar> \<le> 3637 / 57 * 58"
    using mult_mono [OF yD R(2)] R0 by (simp add: abs_mult)
  note 4 = round_step [OF scale_error [OF 3(2) R0 R(2)], of 4096] this
  have 4: "f_round (a3 * R) = Fin a4" "\<bar>a4 - y * D * R\<bar> \<le> 1 / 2 ^ 8"
    using 4 by (simp_all add: a4_def)
  define a5 where "a5 = rnd32 (a4 * T)"
  have z: "y * D * R * T = of_int (s * n) * (D * R)" using T0 by (simp add: y_def x_def)
  have sn: "\<bar>of_int (s * n)\<bar> \<le> (40000 :: rat)" using n' s by auto
  have "\<bar>of_int (s * n) * (D * R) - of_int (s * n)\<bar> = \<bar>of_int (s * n)\<bar> * \<bar>D * R - 1\<bar>"
    by (simp add: algebra_simps flip: abs_mult)
  also have "\<dots> \<le> 40000 * (1 / 2 ^ 22)" using sn DR by (intro mult_mono) simp_all
  finally have near: "\<bar>y * D * R * T - of_int (s * n)\<bar> \<le> 40000 / 2 ^ 22" unfolding z by simp
  then have "\<bar>y * D * R * T\<bar> \<le> 40001"
    using sn abs_triangle_ineq [of "y * D * R * T - of_int (s * n)" "of_int (s * n)"] by simp
  note 5 = round_step [OF scale_error [OF 4(2) less_imp_le [OF T0] T(2)], of "2 ^ 16"] this
  have 5: "f_round (a4 * T) = Fin a5" "\<bar>a5 - y * D * R * T\<bar> \<le> 1 / 8"
    using 5 by (simp_all add: a5_def)
  have "f_of_int n = Fin (of_int n)" "f_of_int s = Fin (of_int s)"
    using n s by (intro f_of_int_exact; auto)+
  then have "f_mul (f_mul (f_mul (f_mul (f_of_int s) (f_div (f_of_int n) (Fin T))) (Fin D)) (Fin R)) (Fin T) = Fin a5"
    using T0 1(1) 2(1) 3(1) 4(1) 5(1) by (simp flip: x_def)
  moreover have "\<bar>a5 - of_int (s * n)\<bar> < 1 / 2"
    using near 5(2) abs_triangle_ineq [of "a5 - y * D * R * T" "y * D * R * T - of_int (s * n)"] by simp
  ultimately show ?thesis by blast
qed

lemma sint_small: "- (2 ^ 31) \<le> k \<Longrightarrow> k < 2 ^ 31 \<Longrightarrow> sint (word_of_int k :: u32) = k"
  by (simp add: sint_sbintrunc' signed_take_bit_int_eq_self)

lemma sint_i16_bounds: "- 32768 \<le> sint (w :: u16)" "sint (w :: u16) < 32768"
  using sint_greater_eq [of w] sint_less [of w] by simp_all

text \<open>
  A position read from a servo and sent back is the same position. For a validated
  configuration and every tick in the travel of a joint's servo, converting the tick to a joint
  angle and the angle to a tick, both in single precision, gives that tick without clamping,
  whatever the trim and the sign of the servo: the rounding errors of the five operations never
  reach half a tick.
\<close>

theorem tick_angle_roundtrip:
  assumes "validateRobotConfig cfg" and "config_dims cfg" and "servoFor cfg leg joint = Some s"
    and "min_tick s \<le> tick" and "tick \<le> max_tick s"
  shows "angleToTick m cfg leg joint (tickToAngle cfg leg joint tick) =
         \<lparr> jc_tick = tick, jc_clamped_low = False, jc_clamped_high = False, jc_unmapped = False \<rparr>"
proof -
  have "s \<in> set (cfg_servos cfg)" using assms(3) by (auto simp: servoFor_def find_Some_iff)
  then have ok: "servo_ok s" using validate_servo_map(1) [OF assms(1,2)] by (auto simp: list_all_iff)
  then have o: "min_tick s < max_tick s" "max_tick s \<le> 4095" and sg: "sint (servo_sign s) = 1 \<or> sint (servo_sign s) = - 1"
    by (auto simp: servo_ok_def)
  define n where "n = uint tick - 2048 - sint (trim_ticks s)"
  have t: "uint (min_tick s) \<le> uint tick" "uint tick \<le> uint (max_tick s)" "uint tick \<le> 4095"
    using assms(4,5) order_trans [OF assms(5) o(2)] by (simp_all add: word_le_def)
  have n: "\<bar>n\<bar> \<le> 40000" using t(3) uint_ge_0 [of tick] sint_i16_bounds [of "trim_ticks s"] unfolding n_def by linarith
  obtain T R D where c: "kTicksPerDeg = Fin T" "kRadToDeg = Fin R" "kDegToRad = Fin D"
    and b: "11 \<le> T" "T \<le> 12" "57 \<le> R" "R \<le> 58" "1 / 58 \<le> D" "D \<le> 1 / 57" "\<bar>D * R - 1\<bar> \<le> 1 / 2 ^ 22"
    using map_factors .
  have a: "tickToAngle cfg leg joint tick =
      f_mul (f_mul (f_of_int (sint (servo_sign s))) (f_div (f_of_int n) (Fin T))) (Fin D)"
    by (simp add: tickToAngle_def assms(3) c n_def kServoCenterTick_def Let_def)
  obtain v where v: "f_mul (f_mul (tickToAngle cfg leg joint tick) kRadToDeg) kTicksPerDeg = Fin v"
    "\<bar>v - of_int (sint (servo_sign s) * n)\<bar> < 1 / 2"
    using tick_chain [OF n sg b] unfolding a c by blast
  have "\<bar>sint (servo_sign s) * n\<bar> \<le> 40000" using n sg by auto
  then have lr: "lroundf m (Fin v) = word_of_int (sint (servo_sign s) * n)"
    unfolding lroundf_def f_lround_near [OF v(2)] by (simp add: abs_le_iff)
  have center: "ucast kServoCenterTick = (2048 :: u32)" by (simp add: kServoCenterTick_def)
  have "ucast kServoCenterTick + scast (trim_ticks s) + scast (servo_sign s) * word_of_int (sint (servo_sign s) * n)
      = (word_of_int (2048 + sint (trim_ticks s) + sint (servo_sign s) * (sint (servo_sign s) * n)) :: u32)"
    by (simp only: center scast_eq of_int_add of_int_mult of_int_numeral)
  also have "sint (servo_sign s) * (sint (servo_sign s) * n) = n" using sg by auto
  also have "2048 + sint (trim_ticks s) + n = uint tick" by (simp add: n_def)
  finally have raw: "ucast kServoCenterTick + scast (trim_ticks s) +
      scast (servo_sign s) * word_of_int (sint (servo_sign s) * n) = (word_of_int (uint tick) :: u32)" .
  have "sint (word_of_int (uint tick) :: u32) = uint tick"
    using t(3) order_trans [OF _ uint_ge_0 [of tick], of "- (2 ^ 31)"] by (intro sint_small) simp_all
  then have "angleToTick m cfg leg joint (tickToAngle cfg leg joint tick) = clamp_raw (uint tick) s"
    by (simp only: angleToTick_def assms(3) option.case Let_def v(1) lr raw)
  then show ?thesis using t by (simp add: clamp_raw_eq [OF o])
qed

theorem tick_angle_roundtrip_witness:
  "\<exists>s. servoFor defaultRobotConfig 5 2 = Some s \<and>
     jc_tick (angleToTick \<lparr> lm_sqrtf = id, lm_sinf = id, lm_cosf = id, lm_acosf = id, lm_asinf = id,
        lm_atan2f = (\<lambda>y x. y), lm_expf = id, lm_lround_other = (\<lambda>v. 0) \<rparr> defaultRobotConfig 5 2
        (tickToAngle defaultRobotConfig 5 2 (max_tick s))) = max_tick s"
proof -
  have "unat (5 :: u8) < 6" "unat (2 :: u8) < 3" by simp_all
  from servoFor_valid [OF default_valid default_dims this] obtain s where
    s: "servoFor defaultRobotConfig 5 2 = Some s" "servo_ok s" by blast
  then have "min_tick s \<le> max_tick s" unfolding servo_ok_def by (blast intro: less_imp_le)
  from tick_angle_roundtrip [OF default_valid default_dims s(1) this order.refl] show ?thesis
    by (intro exI [where x = s]) (simp add: s(1))
qed

end
