(* ===== verification/Kinematics.thy ===== *)
theory Kinematics
  imports ServoMap
begin

text \<open>
  Leg and body inverse kinematics (\<open>gait/leg_ik.h\<close>, \<open>gait/leg_ik.cpp\<close>, \<open>gait/body_ik.h\<close>,
  \<open>gait/body_ik.cpp\<close>) in single precision, every operation in the order of the source. The
  trigonometric functions and the square root are the parameter \<open>libm\<close>. A foot position is a triple
  of coordinates; what the source returns through references is part of the result.
\<close>

type_synonym point = "f32 \<times> f32 \<times> f32"

record IkResult =
  ik_coxa :: f32
  ik_femur :: f32
  ik_tibia :: f32
  ik_reachable :: bool

record LegIk =
  leg_l1 :: f32
  leg_l2 :: f32
  leg_l3 :: f32
  leg_femur_rest :: f32
  leg_tibia_rest :: f32

definition kReachMarginFrac :: f32 where "kReachMarginFrac = f_lit (95 / 100)"
definition kReachEpsMm :: f32 where "kReachEpsMm = f_lit (1 / 100)"

definition f_sq_sum :: "f32 \<Rightarrow> f32 \<Rightarrow> f32" where
  "f_sq_sum a b = f_add (f_mul a a) (f_mul b b)"

definition solveRaw :: "libm \<Rightarrow> LegIk \<Rightarrow> point \<Rightarrow> IkResult" where
  "solveRaw m g p =
     (let (x, y, z) = p;
          coxa = lm_atan2f m y x;
          horiz = lm_sqrtf m (f_sq_sum x y);
          planar_r = f_sub horiz (leg_l1 g);
          d = lm_sqrtf m (f_sq_sum planar_r z);
          reach_max = f_add (leg_l2 g) (leg_l3 g);
          reach_min = fabsf (f_sub (leg_l2 g) (leg_l3 g));
          reachable = (f_le d (f_add reach_max kReachEpsMm) \<and> f_le (f_sub reach_min kReachEpsMm) d);
          cos_k = f_div (f_sub (f_sub (f_mul d d) (f_mul (leg_l2 g) (leg_l2 g))) (f_mul (leg_l3 g) (leg_l3 g)))
                        (f_mul (f_mul (f_lit 2) (leg_l2 g)) (leg_l3 g));
          cos_k = f_clamp cos_k (f_lit (- 1)) (f_lit 1);
          beta = f_neg (lm_acosf m cos_k);
          a = lm_atan2f m z planar_r;
          b = lm_atan2f m (f_mul (leg_l3 g) (lm_sinf m beta)) (f_add (leg_l2 g) (f_mul (leg_l3 g) (lm_cosf m beta)))
      in \<lparr> ik_coxa = coxa, ik_femur = f_sub a b, ik_tibia = beta, ik_reachable = reachable \<rparr>)"

definition LegIk_new :: "libm \<Rightarrow> f32 \<Rightarrow> f32 \<Rightarrow> f32 \<Rightarrow> f32 \<Rightarrow> f32 \<Rightarrow> LegIk" where
  "LegIk_new m l1 l2 l3 home_radius home_foot_z =
     (let g = \<lparr> leg_l1 = l1, leg_l2 = l2, leg_l3 = l3, leg_femur_rest = Fin 0, leg_tibia_rest = Fin 0 \<rparr>;
          home = solveRaw m g (home_radius, Fin 0, home_foot_z)
      in g \<lparr> leg_femur_rest := ik_femur home, leg_tibia_rest := ik_tibia home \<rparr>)"

definition leg_solve :: "libm \<Rightarrow> LegIk \<Rightarrow> point \<Rightarrow> IkResult" where
  "leg_solve m g p =
     (let r = solveRaw m g p in
      r \<lparr> ik_femur := f_sub (ik_femur r) (leg_femur_rest g), ik_tibia := f_sub (ik_tibia r) (leg_tibia_rest g) \<rparr>)"

definition reach_max_margin :: "LegIk \<Rightarrow> f32" where
  "reach_max_margin g = f_mul kReachMarginFrac (f_add (leg_l2 g) (leg_l3 g))"

definition reach_min_margin :: "LegIk \<Rightarrow> f32" where
  "reach_min_margin g = f_add (fabsf (f_sub (leg_l2 g) (leg_l3 g)))
     (f_mul (f_sub (f_lit 1) kReachMarginFrac) (f_add (leg_l2 g) (leg_l3 g)))"

definition planar_distance :: "libm \<Rightarrow> LegIk \<Rightarrow> point \<Rightarrow> f32 \<times> f32 \<times> f32" where
  "planar_distance m g p =
     (let (x, y, z) = p; horiz = lm_sqrtf m (f_sq_sum x y); planar_r = f_sub horiz (leg_l1 g)
      in (horiz, planar_r, lm_sqrtf m (f_sq_sum planar_r z)))"

definition withinReachMargin :: "libm \<Rightarrow> LegIk \<Rightarrow> point \<Rightarrow> bool" where
  "withinReachMargin m g p =
     (let (horiz, planar_r, d) = planar_distance m g p
      in f_le (reach_min_margin g) d \<and> f_le d (reach_max_margin g))"

definition clampToReach :: "libm \<Rightarrow> LegIk \<Rightarrow> point \<Rightarrow> bool \<times> point" where
  "clampToReach m g p =
     (let (x, y, z) = p; (horiz, planar_r, d) = planar_distance m g p;
          d_max = reach_max_margin g; d_min = reach_min_margin g in
      if f_le d_min d \<and> f_le d d_max then (False, p)
      else
        let target_d = (if f_lt d_max d then d_max else d_min);
            (planar_r_new, dz_new) =
              (if f_lt (fabsf z) target_d then
                 let pr = lm_sqrtf m (f_sub (f_mul target_d target_d) (f_mul z z))
                 in ((if f_lt planar_r (Fin 0) then f_neg pr else pr), z)
               else let s = f_div target_d d in (f_mul planar_r s, f_mul z s));
            horiz_new = f_add planar_r_new (leg_l1 g);
            (x, y) = (if f_lt (f_lit (1 / 1000000)) horiz
                      then let k = f_div horiz_new horiz in (f_mul x k, f_mul y k)
                      else (horiz_new, Fin 0))
        in (True, (x, y, dz_new)))"

definition forwardRaw :: "libm \<Rightarrow> LegIk \<Rightarrow> f32 \<Rightarrow> f32 \<Rightarrow> f32 \<Rightarrow> point" where
  "forwardRaw m g coxa alpha beta =
     (let planar_r = f_add (f_mul (leg_l2 g) (lm_cosf m alpha)) (f_mul (leg_l3 g) (lm_cosf m (f_add alpha beta)));
          dz = f_add (f_mul (leg_l2 g) (lm_sinf m alpha)) (f_mul (leg_l3 g) (lm_sinf m (f_add alpha beta)));
          horiz = f_add planar_r (leg_l1 g)
      in (f_mul horiz (lm_cosf m coxa), f_mul horiz (lm_sinf m coxa), dz))"

section \<open>Body frame\<close>

record BodyPose =
  bp_x_mm :: f32
  bp_y_mm :: f32
  bp_z_mm :: f32
  bp_roll :: f32
  bp_pitch :: f32
  bp_yaw :: f32

record LegXform =
  lx_hip_x_mm :: f32
  lx_hip_y_mm :: f32
  lx_z_off_mm :: f32
  lx_cos_a :: f32
  lx_sin_a :: f32

record BodyKinematics =
  bk_legs :: "LegXform list"
  bk_ik :: LegIk

definition kHalfPi :: f32 where "kHalfPi = f_div kPi (f_lit 2)"
definition kCentiDegToRad :: f32 where "kCentiDegToRad = f_div (f_div kPi (f_lit 180)) (f_lit 100)"

definition leg_xform :: "libm \<Rightarrow> f32 \<Rightarrow> LegGeometry \<Rightarrow> LegXform" where
  "leg_xform m coxa_lift g =
     (let yaw = f_mul (f_of_int (sint (mount_yaw_cdeg g))) kCentiDegToRad; a = f_neg (f_add yaw kHalfPi)
      in \<lparr> lx_hip_x_mm = f_div (f_of_int (sint (mount_x_dmm g))) (f_lit 10),
           lx_hip_y_mm = f_div (f_of_int (sint (mount_y_dmm g))) (f_lit 10),
           lx_z_off_mm = f_add (f_div (f_of_int (sint (mount_z_dmm g))) (f_lit 10)) coxa_lift,
           lx_cos_a = lm_cosf m a, lx_sin_a = lm_sinf m a \<rparr>)"

definition BodyKinematics_new :: "libm \<Rightarrow> RobotConfig \<Rightarrow> BodyKinematics" where
  "BodyKinematics_new m cfg =
     (let cmm = (\<lambda>i. f_div (f_of_int i) (f_lit 100)); l = cfg_links cfg; g = cfg_geometry cfg
      in \<lparr> bk_legs = map (leg_xform m (cmm (uint (coxa_lift_cmm g)))) (cfg_legs cfg),
           bk_ik = LegIk_new m (cmm (uint (coxa_cmm l))) (cmm (uint (femur_cmm l))) (cmm (uint (tibia_cmm l)))
             (cmm (uint (home_radius_cmm g))) (cmm (sint (home_foot_z_cmm g))) \<rparr>)"

definition footBodyToCoxa :: "BodyKinematics \<Rightarrow> nat \<Rightarrow> point \<Rightarrow> point" where
  "footBodyToCoxa bk leg b =
     (if leg \<ge> kNumLegs then (Fin 0, Fin 0, Fin 0)
      else let (bx, by, bz) = b; x = bk_legs bk ! leg;
               dx = f_sub bx (lx_hip_x_mm x); dy = f_sub by (lx_hip_y_mm x)
           in (f_sub (f_mul (lx_cos_a x) dx) (f_mul (lx_sin_a x) dy),
               f_add (f_mul (lx_sin_a x) dx) (f_mul (lx_cos_a x) dy),
               f_sub bz (lx_z_off_mm x)))"

definition applyBodyPose :: "libm \<Rightarrow> BodyPose \<Rightarrow> point \<Rightarrow> point" where
  "applyBodyPose m pose w =
     (let (wx, wy, wz) = w;
          cy = lm_cosf m (bp_yaw pose); sy = lm_sinf m (bp_yaw pose);
          cp = lm_cosf m (bp_pitch pose); sp = lm_sinf m (bp_pitch pose);
          cr = lm_cosf m (bp_roll pose); sr = lm_sinf m (bp_roll pose);
          r00 = f_mul cy cp;
          r01 = f_sub (f_mul (f_mul cy sp) sr) (f_mul sy cr);
          r02 = f_add (f_mul (f_mul cy sp) cr) (f_mul sy sr);
          r10 = f_mul sy cp;
          r11 = f_add (f_mul (f_mul sy sp) sr) (f_mul cy cr);
          r12 = f_sub (f_mul (f_mul sy sp) cr) (f_mul cy sr);
          r20 = f_neg sp; r21 = f_mul cp sr; r22 = f_mul cp cr;
          vx = f_sub wx (bp_x_mm pose); vy = f_sub wy (bp_y_mm pose); vz = f_sub wz (bp_z_mm pose);
          row = (\<lambda>a b c. f_add (f_add (f_mul a vx) (f_mul b vy)) (f_mul c vz))
      in (row r00 r10 r20, row r01 r11 r21, row r02 r12 r22))"

definition solveBody :: "libm \<Rightarrow> BodyKinematics \<Rightarrow> nat \<Rightarrow> point \<Rightarrow> IkResult" where
  "solveBody m bk leg b = leg_solve m (bk_ik bk) (footBodyToCoxa bk leg b)"

definition solveBodyLimited :: "libm \<Rightarrow> BodyKinematics \<Rightarrow> nat \<Rightarrow> point \<Rightarrow> bool \<times> IkResult" where
  "solveBodyLimited m bk leg b =
     (let (limited, c) = clampToReach m (bk_ik bk) (footBodyToCoxa bk leg b) in (limited, leg_solve m (bk_ik bk) c))"

definition solveBodyPose :: "libm \<Rightarrow> BodyKinematics \<Rightarrow> nat \<Rightarrow> BodyPose \<Rightarrow> point \<Rightarrow> IkResult" where
  "solveBodyPose m bk leg pose w = solveBody m bk leg (applyBodyPose m pose w)"

definition solveBodyPoseLimited :: "libm \<Rightarrow> BodyKinematics \<Rightarrow> nat \<Rightarrow> BodyPose \<Rightarrow> point \<Rightarrow> bool \<times> IkResult" where
  "solveBodyPoseLimited m bk leg pose w = solveBodyLimited m bk leg (applyBodyPose m pose w)"

text \<open>The point at a scale on the segment from the anchor to the target, and the bisection.\<close>

definition path_point :: "point \<Rightarrow> point \<Rightarrow> f32 \<Rightarrow> point" where
  "path_point a t scale =
     (let (ax, ay, az) = a; (tx, ty, tz) = t; mix = (\<lambda>u v. f_add u (f_mul (f_sub v u) scale))
      in (mix ax tx, mix ay ty, mix az tz))"

fun path_bisect :: "nat \<Rightarrow> (f32 \<Rightarrow> bool) \<Rightarrow> f32 \<Rightarrow> f32 \<Rightarrow> f32" where
  "path_bisect 0 ok reachable unreachable = reachable"
| "path_bisect (Suc n) ok reachable unreachable =
     (let scale = f_mul (f_lit (1 / 2)) (f_add reachable unreachable) in
      if ok scale then path_bisect n ok scale unreachable else path_bisect n ok reachable scale)"

definition bodyTargetPathScale :: "libm \<Rightarrow> BodyKinematics \<Rightarrow> nat \<Rightarrow> point \<Rightarrow> point \<Rightarrow> f32" where
  "bodyTargetPathScale m bk leg anchor target =
     (if leg \<ge> kNumLegs then Fin 0
      else
        let t = footBodyToCoxa bk leg target in
        if withinReachMargin m (bk_ik bk) t then Fin 1
        else
          let a = footBodyToCoxa bk leg anchor in
          if \<not> withinReachMargin m (bk_ik bk) a then Fin 0
          else path_bisect 8 (\<lambda>s. withinReachMargin m (bk_ik bk) (path_point a t s)) (Fin 0) (Fin 1))"

section \<open>The path limiter\<close>

lemma bisect_midpoint:
  assumes "a < 2 ^ i" and "i \<le> 20"
  shows "f_mul (f_lit (1 / 2)) (f_add (Fin (of_nat a / 2 ^ i)) (Fin (of_nat (a + 1) / 2 ^ i))) =
         Fin (of_nat (2 * a + 1) / 2 ^ Suc i)"
proof -
  have "a < 2 ^ 20" using assms by (meson less_le_trans power_increasing one_le_numeral)
  then have n: "\<bar>int (2 * a + 1)\<bar> < 2 ^ 24" by simp
  have "of_nat a / 2 ^ i + of_nat (a + 1) / 2 ^ i = (of_int (int (2 * a + 1)) / 2 ^ i :: rat)"
    by (simp flip: add_divide_distrib)
  then have "f_add (Fin (of_nat a / 2 ^ i)) (Fin (of_nat (a + 1) / 2 ^ i)) = Fin (of_int (int (2 * a + 1)) / 2 ^ i)"
    using f_round_dyadic [OF n, of i] assms(2) by (simp only: f_add.simps)
  moreover have "f_lit (1 / 2) = Fin (1 / 2)" by code_simp
  moreover have "1 / 2 * (of_int (int (2 * a + 1)) / 2 ^ i) = (of_int (int (2 * a + 1)) / 2 ^ Suc i :: rat)" by simp
  ultimately show ?thesis using f_round_dyadic [OF n, of "Suc i"] assms(2) by (simp only: f_mul.simps) simp
qed

lemma dyadic_rescale: "(of_nat (c * 2 ^ n) / 2 ^ (i + n) :: rat) = of_nat c / 2 ^ i"
  by (simp add: power_add)

lemma path_bisect_sound:
  assumes "i + n \<le> 20" and "a < 2 ^ i"
  shows "\<exists>b. path_bisect n ok (Fin (of_nat a / 2 ^ i)) (Fin (of_nat (a + 1) / 2 ^ i)) = Fin (of_nat b / 2 ^ (i + n)) \<and>
           a * 2 ^ n \<le> b \<and> b < (a + 1) * 2 ^ n \<and>
           (b = a * 2 ^ n \<or> ok (Fin (of_nat b / 2 ^ (i + n)))) \<and>
           (b + 1 = (a + 1) * 2 ^ n \<or> \<not> ok (Fin (of_nat (b + 1) / 2 ^ (i + n))))"
  using assms
proof (induction n arbitrary: a i)
  case (Suc n)
  have i: "i \<le> 20" using Suc.prems(1) by simp
  note mid = bisect_midpoint [OF Suc.prems(2) i]
  have up: "(of_nat (a + 1) / 2 ^ i :: rat) = of_nat (2 * a + 1 + 1) / 2 ^ Suc i" by (simp add: field_simps)
  have lo: "(of_nat a / 2 ^ i :: rat) = of_nat (2 * a) / 2 ^ Suc i" by simp
  show ?case
  proof (cases "ok (Fin (of_nat (2 * a + 1) / 2 ^ Suc i))")
    case True
    obtain b where b: "path_bisect n ok (Fin (of_nat (2 * a + 1) / 2 ^ Suc i)) (Fin (of_nat (2 * a + 1 + 1) / 2 ^ Suc i))
        = Fin (of_nat b / 2 ^ (Suc i + n))" "(2 * a + 1) * 2 ^ n \<le> b" "b < (2 * a + 1 + 1) * 2 ^ n"
      "b = (2 * a + 1) * 2 ^ n \<or> ok (Fin (of_nat b / 2 ^ (Suc i + n)))"
      "b + 1 = (2 * a + 1 + 1) * 2 ^ n \<or> \<not> ok (Fin (of_nat (b + 1) / 2 ^ (Suc i + n)))"
      using Suc.IH [of "Suc i" "2 * a + 1"] Suc.prems by auto
    have "path_bisect (Suc n) ok (Fin (of_nat a / 2 ^ i)) (Fin (of_nat (a + 1) / 2 ^ i)) =
        Fin (of_nat b / 2 ^ (Suc i + n))"
      unfolding path_bisect.simps Let_def mid using True b(1) by (simp only: up if_True)
    moreover have "ok (Fin (of_nat b / 2 ^ (Suc i + n)))"
      using b(4) True by (elim disjE) (simp_all only: dyadic_rescale)
    moreover have "a * 2 ^ Suc n \<le> b" "b < (a + 1) * 2 ^ Suc n" using b(2,3) by (simp_all add: algebra_simps)
    moreover have "(2 * a + 1 + 1) * 2 ^ n = (a + 1) * 2 ^ Suc n" by simp
    ultimately show ?thesis using b(5) unfolding add_Suc_shift [symmetric] by (intro exI [where x = b]) (simp only: simp_thms)
  next
    case False
    obtain b where b: "path_bisect n ok (Fin (of_nat (2 * a) / 2 ^ Suc i)) (Fin (of_nat (2 * a + 1) / 2 ^ Suc i))
        = Fin (of_nat b / 2 ^ (Suc i + n))" "2 * a * 2 ^ n \<le> b" "b < (2 * a + 1) * 2 ^ n"
      "b = 2 * a * 2 ^ n \<or> ok (Fin (of_nat b / 2 ^ (Suc i + n)))"
      "b + 1 = (2 * a + 1) * 2 ^ n \<or> \<not> ok (Fin (of_nat (b + 1) / 2 ^ (Suc i + n)))"
      using Suc.IH [of "Suc i" "2 * a"] Suc.prems by auto
    have "path_bisect (Suc n) ok (Fin (of_nat a / 2 ^ i)) (Fin (of_nat (a + 1) / 2 ^ i)) =
        Fin (of_nat b / 2 ^ (Suc i + n))"
      unfolding path_bisect.simps Let_def mid using False b(1) by (simp only: lo if_False)
    moreover have "\<not> ok (Fin (of_nat (b + 1) / 2 ^ (Suc i + n)))"
      using b(5) False by (elim disjE) (simp_all only: dyadic_rescale not_False_eq_True)
    moreover have "a * 2 ^ Suc n \<le> b" "b < (a + 1) * 2 ^ Suc n" using b(2,3) by (simp_all add: algebra_simps)
    moreover have "2 * a * 2 ^ n = a * 2 ^ Suc n" by simp
    ultimately show ?thesis using b(4) unfolding add_Suc_shift [symmetric] by (intro exI [where x = b]) (simp only: simp_thms)
  qed
qed auto

lemma path_scale_cases:
  fixes m bk leg anchor target
  assumes "leg < kNumLegs"
  defines "ok \<equiv> \<lambda>p. withinReachMargin m (bk_ik bk) p"
  defines "t \<equiv> footBodyToCoxa bk leg target" and "a \<equiv> footBodyToCoxa bk leg anchor"
  obtains "ok t" "bodyTargetPathScale m bk leg anchor target = Fin 1"
  | "\<not> ok t" "\<not> ok a" "bodyTargetPathScale m bk leg anchor target = Fin 0"
  | b :: nat where "\<not> ok t" "ok a" "bodyTargetPathScale m bk leg anchor target = Fin (of_nat b / 256)" "b < 256"
      "b = 0 \<or> ok (path_point a t (Fin (of_nat b / 256)))"
      "b = 255 \<or> \<not> ok (path_point a t (Fin (of_nat (b + 1) / 256)))"
proof -
  have "\<exists>b. bodyTargetPathScale m bk leg anchor target = Fin (of_nat b / 256) \<and> b < 256 \<and>
      (b = 0 \<or> ok (path_point a t (Fin (of_nat b / 256)))) \<and>
      (b = 255 \<or> \<not> ok (path_point a t (Fin (of_nat (b + 1) / 256))))" if "\<not> ok t" "ok a"
    using path_bisect_sound [of 0 8 0 "\<lambda>s. ok (path_point a t s)"] that assms(1)
    by (auto simp: bodyTargetPathScale_def ok_def t_def a_def)
  then show thesis using that assms(1)
    by (cases "ok t"; cases "ok a") (auto simp: bodyTargetPathScale_def ok_def t_def a_def)
qed

definition unit_libm :: libm where
  "unit_libm = \<lparr> lm_sqrtf = id, lm_sinf = id, lm_cosf = id, lm_acosf = id, lm_asinf = id,
     lm_atan2f = (\<lambda>y x. y), lm_expf = id, lm_lround_other = (\<lambda>v. 0) \<rparr>"

definition unit_body :: BodyKinematics where
  "unit_body = \<lparr> bk_legs = replicate 6 \<lparr> lx_hip_x_mm = Fin 0, lx_hip_y_mm = Fin 0, lx_z_off_mm = Fin 0,
      lx_cos_a = Fin 1, lx_sin_a = Fin 0 \<rparr>,
     bk_ik = \<lparr> leg_l1 = Fin 0, leg_l2 = Fin 4, leg_l3 = Fin 4, leg_femur_rest = Fin 0, leg_tibia_rest = Fin 0 \<rparr> \<rparr>"

text \<open>
  The declaration of the function promises the largest scale that keeps the whole segment inside the
  margin; the code only looks at the target and at the points it samples. A segment across the
  unreachable centre of the annulus with its two ends inside is not shortened at all. (The square
  roots taken here are of 0 and 1.)
\<close>

lemma path_scale_skips_gap:
  "bodyTargetPathScale unit_libm unit_body 5 (Fin 1, Fin 0, Fin 0) (Fin (- 1), Fin 0, Fin 0) = Fin 1 \<and>
   withinReachMargin unit_libm (bk_ik unit_body) (footBodyToCoxa unit_body 5 (Fin 1, Fin 0, Fin 0)) \<and>
   \<not> withinReachMargin unit_libm (bk_ik unit_body)
       (path_point (footBodyToCoxa unit_body 5 (Fin 1, Fin 0, Fin 0)) (footBodyToCoxa unit_body 5 (Fin (- 1), Fin 0, Fin 0)) (Fin (1 / 2)))"
  by (intro conjI) code_simp+

text \<open>
  C34: For a real leg, \<open>bodyTargetPathScale\<close> returns a multiple \<open>k\<close>/256 between 0 and 1. It is 1
  exactly when the target itself is inside the reach margin (the points between are not looked at).
  It is 0 when neither the target nor the anchor is inside. With the target outside and the anchor
  inside, the point on the segment at the returned scale is inside (or the scale is 0, the anchor
  itself), and the point 1/256 further is outside or is the target: the scale is the last step
  before the crossing that the bisection brackets, not always the largest one.
\<close>

theorem path_scale_sound:
  assumes "leg < kNumLegs"
  shows "\<exists>k \<le> 256. bodyTargetPathScale m bk leg anchor target = Fin (of_nat k / 256) \<and>
    (k = 256 \<longleftrightarrow> withinReachMargin m (bk_ik bk) (footBodyToCoxa bk leg target)) \<and>
    (\<not> withinReachMargin m (bk_ik bk) (footBodyToCoxa bk leg target) \<and>
     \<not> withinReachMargin m (bk_ik bk) (footBodyToCoxa bk leg anchor) \<longrightarrow> k = 0) \<and>
    (0 < k \<and> k < 256 \<longrightarrow> withinReachMargin m (bk_ik bk) (footBodyToCoxa bk leg anchor) \<and> withinReachMargin m (bk_ik bk)
       (path_point (footBodyToCoxa bk leg anchor) (footBodyToCoxa bk leg target) (Fin (of_nat k / 256)))) \<and>
    (k < 255 \<and> withinReachMargin m (bk_ik bk) (footBodyToCoxa bk leg anchor) \<longrightarrow>
       \<not> withinReachMargin m (bk_ik bk)
       (path_point (footBodyToCoxa bk leg anchor) (footBodyToCoxa bk leg target) (Fin (of_nat (k + 1) / 256))))"
proof (rule path_scale_cases [OF assms, of m bk target anchor], goal_cases)
  case 1
  then show ?case by (intro exI [where x = 256]) simp
next
  case 2
  then show ?case by (intro exI [where x = 0]) simp
next
  case (3 b)
  then show ?case by (intro exI [where x = b]) auto
qed

theorem path_scale_sound_witness:
  "\<exists>k \<le> 256. bodyTargetPathScale unit_libm unit_body 5 (Fin 1, Fin 1, Fin 1) (Fin 4, Fin 4, Fin 4) = Fin (of_nat k / 256) \<and>
     0 < k \<and> k < 256"
proof -
  have far: "\<not> withinReachMargin unit_libm (bk_ik unit_body) (footBodyToCoxa unit_body 5 (Fin 4, Fin 4, Fin 4))"
    by code_simp
  have near: "withinReachMargin unit_libm (bk_ik unit_body) (footBodyToCoxa unit_body 5 (Fin 1, Fin 1, Fin 1))"
    by code_simp
  have one: "withinReachMargin unit_libm (bk_ik unit_body) (path_point (footBodyToCoxa unit_body 5 (Fin 1, Fin 1, Fin 1))
      (footBodyToCoxa unit_body 5 (Fin 4, Fin 4, Fin 4)) (Fin (of_nat (0 + 1) / 256)))"
    by code_simp
  have "5 < kNumLegs" by (simp add: kNumLegs_def)
  from path_scale_sound [OF this, of unit_libm unit_body "(Fin 1, Fin 1, Fin 1)" "(Fin 4, Fin 4, Fin 4)"] obtain k where
    k: "k \<le> 256" "bodyTargetPathScale unit_libm unit_body 5 (Fin 1, Fin 1, Fin 1) (Fin 4, Fin 4, Fin 4) = Fin (of_nat k / 256)"
      "k \<noteq> 256" "k \<noteq> 0"
    using far near one by (metis add_0 zero_less_numeral)
  then show ?thesis by (intro exI [where x = k]) simp
qed

end
