(* ===== verification/FloatRange.thy ===== *)
theory FloatRange
  imports Float32
begin

text \<open>
  Ranges of single-precision computations: representable values are the fixed points of rounding,
  sums and products of bounded values stay bounded, and a step of a first-order filter between two
  values of \<open>[-1, 1]\<close> does not leave it in spite of its three roundings.
\<close>

lemma rnd32_scaled:
  assumes "\<bar>n\<bar> < 2 ^ 24" and "- 149 \<le> k"
  shows "rnd32 (of_int n * 2 powi k) = of_int n * 2 powi k"
proof (cases "n = 0")
  case False
  define x :: rat where "x = of_int n * 2 powi k"
  let ?e = "max (ilog2 \<bar>x\<bar>) (- 126)"
  have x: "0 < \<bar>x\<bar>" using False by (simp add: x_def)
  have "ilog2 \<bar>x\<bar> < 24 + k"
  proof (rule ccontr)
    assume "\<not> ilog2 \<bar>x\<bar> < 24 + k"
    then have "(2 :: rat) powi (24 + k) \<le> 2 powi (ilog2 \<bar>x\<bar>)" by (intro powi_mono) simp
    also have "\<dots> \<le> \<bar>x\<bar>" by (rule ilog2_bounds(1) [OF x])
    finally have "of_int (2 ^ 24) * 2 powi k \<le> of_int \<bar>n\<bar> * (2 :: rat) powi k"
      by (simp add: powi_split(2) x_def abs_mult)
    then have "of_int (2 ^ 24) \<le> (of_int \<bar>n\<bar> :: rat)" by (rule mult_right_le_imp_le) simp
    then show False using assms(1) by (simp only: of_int_le_iff)
  qed
  then have "0 \<le> 23 - ?e + k" using assms(2) by linarith
  then have "(2 :: rat) powi (23 - ?e + k) = of_int (2 ^ nat (23 - ?e + k))" by (simp add: power_int_def)
  moreover have "x / ulp32 x = of_int n * 2 powi (23 - ?e + k)"
    by (simp add: x_def ulp32_def powi_split)
  ultimately have "x / ulp32 x = of_int (n * 2 ^ nat (23 - ?e + k))" by simp
  then have "of_int (rnd_even (x / ulp32 x)) = x / ulp32 x" by (simp only: rnd_even_of_int)
  then have "rnd32 x = x" using x less_imp_neq [OF ulp32_pos [of x]] by (simp add: rnd32_def)
  then show ?thesis by (simp only: x_def)
qed simp

lemma rnd32_idem [simp]: "rnd32 (rnd32 x) = rnd32 x"
proof (cases "x = 0")
  case False
  define k where "k = max (ilog2 \<bar>x\<bar>) (- 126) - 23"
  define n where "n = rnd_even (x / ulp32 x)"
  have u: "ulp32 x = 2 powi k" by (simp add: ulp32_def k_def)
  have r: "rnd32 x = of_int n * 2 powi k" using False by (simp add: rnd32_def n_def u)
  have "\<bar>x\<bar> < 2 powi (ilog2 \<bar>x\<bar> + 1)" using ilog2_bounds(2) [of "\<bar>x\<bar>"] False by simp
  also have "\<dots> \<le> 2 powi (24 + k)" by (intro powi_mono) (simp add: k_def)
  also have "(2 :: rat) powi (24 + k) = of_int (2 ^ 24) * ulp32 x" by (simp add: powi_split(2) u)
  finally have "\<bar>x\<bar> / ulp32 x < of_int (2 ^ 24)" by (rule pos_divide_less_eq [OF ulp32_pos, THEN iffD2])
  then have "\<bar>x / ulp32 x\<bar> < of_int (2 ^ 24)" by (simp only: abs_divide abs_of_pos [OF ulp32_pos])
  then have "- of_int (2 ^ 24) \<le> x / ulp32 x" "x / ulp32 x \<le> of_int (2 ^ 24)" by linarith+
  then have "rnd_even (of_int (- (2 ^ 24))) \<le> n" "n \<le> rnd_even (of_int (2 ^ 24))"
    unfolding n_def by (intro rnd_even_mono; simp)+
  then have n: "\<bar>n\<bar> \<le> 2 ^ 24" by (simp only: rnd_even_of_int abs_le_iff minus_le_iff simp_thms)
  show ?thesis
  proof (cases "\<bar>n\<bar> = 2 ^ 24")
    case True
    then have "n = 2 ^ 24 \<or> n = - (2 ^ 24)" by linarith
    then have "n = 2 * (n div 2)" "\<bar>n div 2\<bar> < 2 ^ 24" by (elim disjE; simp)+
    then have "rnd32 x = of_int (n div 2) * 2 powi (k + 1)"
      unfolding r powi_split(2) by (metis (no_types, lifting) mult.assoc mult.commute of_int_mult of_int_numeral power_int_1_right)
    then show ?thesis using rnd32_scaled [OF \<open>\<bar>n div 2\<bar> < 2 ^ 24\<close>, of "k + 1"] by (simp add: k_def)
  next
    case False
    then show ?thesis using rnd32_scaled [of n k] n by (simp add: r k_def)
  qed
qed simp

lemma rnd32_error_below:
  assumes "\<bar>x\<bar> < 2 powi k" and "- 126 < k"
  shows "\<bar>rnd32 x - x\<bar> \<le> 2 powi (k - 25)"
proof (cases "x = 0")
  case False
  have "2 powi (ilog2 \<bar>x\<bar>) < (2 :: rat) powi k" using ilog2_bounds(1) [of "\<bar>x\<bar>"] False assms(1) by simp
  then have "ilog2 \<bar>x\<bar> < k" using powi_mono [of k "ilog2 \<bar>x\<bar>"] by linarith
  then have "ulp32 x \<le> 2 powi (k - 24)" unfolding ulp32_def using assms(2) by (intro powi_mono) linarith
  moreover have "(2 :: rat) powi (k - 24) = 2 * 2 powi (k - 25)" by (simp add: powi_split(1))
  moreover have "rnd32 x - x = (of_int (rnd_even (x / ulp32 x)) - x / ulp32 x) * ulp32 x"
    using False less_imp_neq [OF ulp32_pos [of x]] by (simp add: rnd32_def algebra_simps)
  then have "\<bar>rnd32 x - x\<bar> = \<bar>of_int (rnd_even (x / ulp32 x)) - x / ulp32 x\<bar> * ulp32 x"
    by (simp add: abs_mult less_imp_le)
  moreover have "\<bar>of_int (rnd_even (x / ulp32 x)) - x / ulp32 x\<bar> * ulp32 x \<le> 1 / 2 * ulp32 x"
    by (intro mult_right_mono rnd_even_error) (simp add: less_imp_le)
  ultimately show ?thesis by linarith
qed simp

section \<open>Representable values\<close>

definition f_rep :: "f32 \<Rightarrow> bool" where
  "f_rep v = (case v of Fin a \<Rightarrow> rnd32 a = a | _ \<Rightarrow> True)"

definition f_unit :: "rat \<Rightarrow> f32 \<Rightarrow> bool" where
  "f_unit lo v \<longleftrightarrow> f_in lo 1 v \<and> f_rep v"

lemma f_unitE:
  assumes "f_unit lo v"
  obtains a where "v = Fin a" "lo \<le> a" "a \<le> 1" "rnd32 a = a"
  using assms by (cases v) (auto simp: f_unit_def f_rep_def)

lemma f_unitI: "lo \<le> a \<Longrightarrow> a \<le> 1 \<Longrightarrow> rnd32 a = a \<Longrightarrow> f_unit lo (Fin a)"
  by (simp add: f_unit_def f_rep_def)

lemma f_rep_round [simp]: "f_rep (f_round x)"
  by (simp add: f_rep_def f_round_def Let_def)

lemma f_rep_Fin [simp]: "f_rep (Fin 0)" "f_rep (Inf t)" "f_rep NaN"
  by (simp_all add: f_rep_def)

text \<open>Every operation rounds its result; negation and clamping only select.\<close>

lemma f_rep_arith [simp]: "f_rep (f_add u v)" "f_rep (f_mul u v)" "f_rep (f_div u v)"
  by (cases u; cases v; simp)+

lemma f_rep_ops [simp]: "f_rep (f_lit x)" "f_rep (f_of_int n)" "f_rep (f_sub u v)"
  by (simp_all add: f_lit_def f_of_int_def f_sub_def)

lemma f_rep_neg [simp]: "f_rep (f_neg v) = f_rep v"
  by (cases v) (simp_all add: f_rep_def rnd32_minus)

lemma f_rep_clamp [simp]: "f_rep v \<Longrightarrow> f_rep lo \<Longrightarrow> f_rep hi \<Longrightarrow> f_rep (f_clamp v lo hi)"
  by (simp add: f_clamp_def)

lemma f_round_small: "\<bar>x\<bar> \<le> 2 ^ 40 \<Longrightarrow> f_round x = Fin (rnd32 x)"
  by (rule f_round_Fin [where B = "2 ^ 40"]) simp_all

lemma rnd32_between_zero:
  assumes "0 \<le> t" and "t \<le> 1" and "rnd32 d = d"
  shows "0 \<le> d \<Longrightarrow> 0 \<le> rnd32 (d * t) \<and> rnd32 (d * t) \<le> d" and "d \<le> 0 \<Longrightarrow> d \<le> rnd32 (d * t) \<and> rnd32 (d * t) \<le> 0"
proof -
  assume "0 \<le> d"
  then have "0 \<le> d * t" "d * t \<le> d" using assms(1,2) by (simp_all add: mult_left_le)
  then show "0 \<le> rnd32 (d * t) \<and> rnd32 (d * t) \<le> d" using rnd32_bounded [of 0 "d * t" d] assms(3) by simp
next
  assume "d \<le> 0"
  then have "d * t \<le> 0" "d \<le> d * t"
    using assms(1,2) mult_left_mono_neg [of t 1 d] by (simp_all add: mult_nonpos_nonneg)
  then show "d \<le> rnd32 (d * t) \<and> rnd32 (d * t) \<le> 0" using rnd32_bounded [of d "d * t" 0] assms(3) by simp
qed

lemma rnd32_diff_unit:
  assumes "- 1 \<le> a" "a \<le> 1" "- 1 \<le> c" "c \<le> 1"
  shows "\<bar>rnd32 (a - c) - (a - c)\<bar> \<le> 1 / 2 ^ 24" and "\<bar>rnd32 (a - c)\<bar> \<le> 2"
proof -
  have two: "rnd32 2 = 2" using rnd32_of_int [of 2] by simp
  show "\<bar>rnd32 (a - c)\<bar> \<le> 2" using rnd32_bounded [of "- 2" "a - c" 2] two assms by (simp add: rnd32_minus abs_le_iff)
  show "\<bar>rnd32 (a - c) - (a - c)\<bar> \<le> 1 / 2 ^ 24"
  proof (cases "\<bar>a - c\<bar> < 2")
    case True
    moreover have "(2 :: rat) powi (1 - 25) = 1 / 2 ^ 24" by code_simp
    moreover have "(- 126 :: int) < 1" by simp
    ultimately show ?thesis using rnd32_error_below [of "a - c" 1] by (simp only: power_int_1_right simp_thms)
  next
    case False
    then have "a - c = 2 \<or> a - c = - 2" using assms by linarith
    then show ?thesis using two by (auto simp: rnd32_minus)
  qed
qed

lemma rnd32_unit_ties: "rnd32 (1 + 1 / 2 ^ 24) = 1" "rnd32 (- 1 - 1 / 2 ^ 24) = - 1"
proof -
  show one: "rnd32 (1 + 1 / 2 ^ 24) = 1" by code_simp
  show "rnd32 (- 1 - 1 / 2 ^ 24) = - 1" using rnd32_minus [of "1 + 1 / 2 ^ 24"] one by simp
qed

lemma filter_step_exact:
  assumes "lo = - 1 \<or> lo = 0" and "lo \<le> c" "c \<le> 1" "rnd32 c = c" and "lo \<le> a" "a \<le> 1" and "0 \<le> t" "t \<le> 1"
  defines "d \<equiv> rnd32 (a - c)"
  shows "lo \<le> rnd32 (c + rnd32 (d * t))" and "rnd32 (c + rnd32 (d * t)) \<le> 1"
proof -
  have r: "- 1 \<le> c" "- 1 \<le> a" using assms(1,2,5) by auto
  have dd: "rnd32 d = d" by (simp add: d_def)
  note err = rnd32_diff_unit [OF r(2) assms(6) r(1) assms(3), folded d_def]
  have one: "rnd32 1 = 1" using rnd32_of_int [of 1] by simp
  have lo: "rnd32 lo = lo" using assms(1) one rnd32_minus [of 1] by auto
  show "rnd32 (c + rnd32 (d * t)) \<le> 1"
  proof (cases "0 \<le> d")
    case True
    then have "c + rnd32 (d * t) \<le> c + d" using rnd32_between_zero(1) [OF assms(7,8) dd] by simp
    also have "\<dots> \<le> 1 + 1 / 2 ^ 24" using err(1) assms(6) by linarith
    finally show ?thesis using rnd32_mono rnd32_unit_ties(1) by metis
  next
    case False
    then have "c + rnd32 (d * t) \<le> 1" using rnd32_between_zero(2) [OF assms(7,8) dd] assms(3) by simp
    then show ?thesis using rnd32_mono one by metis
  qed
  show "lo \<le> rnd32 (c + rnd32 (d * t))"
  proof (cases "0 \<le> d")
    case True
    then have "lo \<le> c + rnd32 (d * t)" using rnd32_between_zero(1) [OF assms(7,8) dd] assms(2) by simp
    then show ?thesis using rnd32_mono lo by metis
  next
    case False
    then have ge: "c + d \<le> c + rnd32 (d * t)" using rnd32_between_zero(2) [OF assms(7,8) dd] by simp
    show ?thesis
    proof (cases "lo = 0")
      case True
      then have "- c \<le> a - c" using assms(5) by simp
      then have "rnd32 (- c) \<le> d" unfolding d_def by (rule rnd32_mono)
      then have "0 \<le> c + rnd32 (d * t)" using ge assms(4) by (simp add: rnd32_minus)
      then show ?thesis using True rnd32_nonneg by simp
    next
      case False
      then have "- 1 - 1 / 2 ^ 24 \<le> c + rnd32 (d * t)" using ge err(1) r by linarith
      then show ?thesis using False assms(1) rnd32_mono rnd32_unit_ties(2) by metis
    qed
  qed
qed

lemma filter_step:
  assumes "lo = - 1 \<or> lo = 0" and "f_unit lo out" and "f_unit lo v" and "f_in 0 1 alpha"
  shows "f_unit lo (f_add out (f_mul (f_sub v out) alpha))"
proof -
  obtain c where c: "out = Fin c" "lo \<le> c" "c \<le> 1" "rnd32 c = c" using assms(2) by (rule f_unitE)
  obtain a where a: "v = Fin a" "lo \<le> a" "a \<le> 1" using assms(3) by (rule f_unitE)
  obtain t where t: "alpha = Fin t" "0 \<le> t" "t \<le> 1" using assms(4) by (rule f_inE)
  define d where "d = rnd32 (a - c)"
  have r: "- 1 \<le> c" "- 1 \<le> a" using assms(1) a(2) c(2) by auto
  have "\<bar>d\<bar> \<le> 2" using rnd32_diff_unit(2) [OF r(2) a(3) r(1) c(3)] by (simp add: d_def)
  have "\<bar>a - c\<bar> \<le> 2" using r a(3) c(3) by linarith
  then have "f_sub v out = Fin d" by (simp add: a(1) c(1) f_sub_def d_def f_round_small)
  moreover have "\<bar>d * t\<bar> \<le> 2" using \<open>\<bar>d\<bar> \<le> 2\<close> t by (simp add: abs_mult mult_le_one order_trans [OF mult_left_le])
  then have "f_mul (Fin d) alpha = Fin (rnd32 (d * t))" by (simp add: t f_round_small)
  moreover have "\<bar>rnd32 (d * t)\<bar> \<le> 2"
    using rnd32_between_zero [OF t(2,3), of d] \<open>\<bar>d\<bar> \<le> 2\<close> by (cases "0 \<le> d") (auto simp: d_def)
  then have "\<bar>c + rnd32 (d * t)\<bar> \<le> 3" using r c(3) by linarith
  then have "f_add out (Fin (rnd32 (d * t))) = Fin (rnd32 (c + rnd32 (d * t)))" by (simp add: c(1) f_round_small)
  ultimately show ?thesis
    using filter_step_exact [OF assms(1) c(2-4) a(2,3) t(2,3)] by (simp add: d_def f_unitI)
qed

section \<open>Crude bounds\<close>

lemma f_round_bound:
  assumes "\<bar>x\<bar> \<le> B" and "1 \<le> B" and "B \<le> 2 ^ 100"
  shows "f_in (- (2 * B)) (2 * B) (f_round x)"
proof -
  have "\<bar>rnd32 x - x\<bar> \<le> B / 2 ^ 23" using assms by (intro rnd32_error) simp_all
  moreover have "B / 2 ^ 23 \<le> B" using assms(2) by simp
  moreover have "\<bar>rnd32 x\<bar> \<le> \<bar>rnd32 x - x\<bar> + \<bar>x\<bar>" using abs_triangle_ineq [of "rnd32 x - x" x] by simp
  ultimately have "\<bar>rnd32 x\<bar> \<le> 2 * B" using assms(1) by linarith
  moreover have "f_round x = Fin (rnd32 x)" using assms by (intro f_round_Fin [where B = B]) simp_all
  ultimately show ?thesis by (simp add: abs_le_iff)
qed

lemma f_add_bound:
  assumes "f_in (- A) A u" and "f_in (- B) B v" and "1 \<le> A + B" and "A + B \<le> 2 ^ 100"
  shows "f_in (- (2 * (A + B))) (2 * (A + B)) (f_add u v)" and "f_in (- (2 * (A + B))) (2 * (A + B)) (f_sub u v)"
proof -
  obtain a where a: "u = Fin a" "- A \<le> a" "a \<le> A" using assms(1) by (rule f_inE)
  obtain b where b: "v = Fin b" "- B \<le> b" "b \<le> B" using assms(2) by (rule f_inE)
  have "\<bar>a + b\<bar> \<le> A + B" "\<bar>a - b\<bar> \<le> A + B" using a b by linarith+
  then show "f_in (- (2 * (A + B))) (2 * (A + B)) (f_add u v)" "f_in (- (2 * (A + B))) (2 * (A + B)) (f_sub u v)"
    using f_round_bound [OF _ assms(3,4)] by (simp_all add: a(1) b(1) f_sub_def)
qed

lemma f_mul_bound:
  assumes "f_in (- A) A u" and "f_in (- B) B v" and "1 \<le> A * B" and "A * B \<le> 2 ^ 100"
  shows "f_in (- (2 * (A * B))) (2 * (A * B)) (f_mul u v)"
proof -
  obtain a where a: "u = Fin a" "- A \<le> a" "a \<le> A" using assms(1) by (rule f_inE)
  obtain b where b: "v = Fin b" "- B \<le> b" "b \<le> B" using assms(2) by (rule f_inE)
  have "\<bar>a\<bar> * \<bar>b\<bar> \<le> A * B" using a b by (intro mult_mono) auto
  then have "\<bar>a * b\<bar> \<le> A * B" by (simp add: abs_mult)
  then show ?thesis using f_round_bound [OF _ assms(3,4)] by (simp add: a(1) b(1))
qed

lemma f_in_not_NaN: "f_in lo hi v \<Longrightarrow> v \<noteq> NaN"
  by (cases v) auto

lemma f_lit_unit [simp]: "f_lit 1 = Fin 1" "f_lit 0 = Fin 0" "f_lit (- 1) = Fin (- 1)"
  using f_round_dyadic [of 1 0] f_round_dyadic [of 0 0] f_round_dyadic [of "- 1" 0] by (simp_all add: f_lit_def)

lemma rnd32_units [simp]: "rnd32 1 = 1" "rnd32 (- 1) = - 1"
  using rnd32_of_int [of 1] rnd32_of_int [of "- 1"] by simp_all

lemma f_rep_units [simp]: "f_rep (Fin 1)" "f_rep (Fin (- 1))"
  by (simp_all add: f_rep_def)

lemma f_clamp_unit:
  assumes "v \<noteq> NaN" and "f_rep v" and "lo = - 1 \<or> lo = 0"
  shows "f_unit lo (f_clamp v (Fin lo) (Fin 1))"
  using assms by (cases v) (auto simp: f_clamp_def f_unit_def f_rep_def)

section \<open>Ranges other than the unit interval\<close>

definition f_rng :: "rat \<Rightarrow> rat \<Rightarrow> f32 \<Rightarrow> bool" where
  "f_rng lo hi v \<longleftrightarrow> f_in lo hi v \<and> f_rep v"

lemma f_rngE:
  assumes "f_rng lo hi v"
  obtains a where "v = Fin a" "lo \<le> a" "a \<le> hi" "rnd32 a = a"
  using assms by (cases v) (auto simp: f_rng_def f_rep_def)

lemma f_rngI: "lo \<le> a \<Longrightarrow> a \<le> hi \<Longrightarrow> rnd32 a = a \<Longrightarrow> f_rng lo hi (Fin a)"
  by (simp add: f_rng_def f_rep_def)

lemma f_rng_in: "f_rng lo hi v \<Longrightarrow> f_in lo hi v"
  by (simp add: f_rng_def)

lemma f_rng_unit: "f_rng lo 1 v = f_unit lo v"
  by (simp add: f_rng_def f_unit_def)

lemma f_rng_mono: "f_rng lo hi v \<Longrightarrow> lo' \<le> lo \<Longrightarrow> hi \<le> hi' \<Longrightarrow> f_rng lo' hi' v"
  by (auto simp: f_rng_def intro: f_in_mono)

lemma f_rng_clamp:
  assumes "v \<noteq> NaN" "f_rep v" and "lo \<le> hi" "rnd32 lo = lo" "rnd32 hi = hi"
  shows "f_rng lo hi (f_clamp v (Fin lo) (Fin hi))"
  using assms by (cases v) (auto simp: f_clamp_def f_rng_def f_rep_def)

lemma f_rng_round:
  assumes "lo \<le> x" "x \<le> hi" and "rnd32 lo = lo" "rnd32 hi = hi" and "- (2 ^ 40) \<le> lo" "hi \<le> 2 ^ 40"
  shows "f_rng lo hi (f_round x)"
proof -
  have "\<bar>x\<bar> \<le> 2 ^ 40" using assms by (simp add: abs_le_iff)
  then show ?thesis using rnd32_bounded [OF assms(1-4)] by (simp add: f_round_small f_rngI)
qed

text \<open>
  A rate limiter as the body command shaper has it: the step towards the target never leaves the
  interval between the two, although every operation rounds.
\<close>

lemma toward_rounded:
  assumes "rnd32 c = c" "rnd32 t = t" "rnd32 md = md" and "0 \<le> md" and "md < rnd32 (t - c)"
  shows "c \<le> rnd32 (c + md)" and "rnd32 (c + md) \<le> t"
proof -
  have "md < t - c"
  proof (rule ccontr)
    assume "\<not> md < t - c"
    then have "rnd32 (t - c) \<le> rnd32 md" by (intro rnd32_mono) simp
    then show False using assms(3,5) by simp
  qed
  then have "rnd32 (c + md) \<le> rnd32 t" by (intro rnd32_mono) simp
  then show "rnd32 (c + md) \<le> t" using assms(2) by simp
  have "rnd32 c \<le> rnd32 (c + md)" using assms(4) by (intro rnd32_mono) simp
  then show "c \<le> rnd32 (c + md)" using assms(1) by simp
qed

lemma away_rounded:
  assumes "rnd32 c = c" "rnd32 t = t" "rnd32 md = md" and "0 \<le> md" and "rnd32 (t - c) < - md"
  shows "rnd32 (c - md) \<le> c" and "t \<le> rnd32 (c - md)"
proof -
  have "rnd32 (- t - - c) = - rnd32 (t - c)" by (simp flip: rnd32_minus)
  then have "md < rnd32 (- t - - c)" using assms(5) by simp
  note r = toward_rounded [of "- c" "- t" md, OF _ _ assms(3,4) this]
  have "rnd32 (- c + md) = - rnd32 (c - md)" by (simp flip: rnd32_minus)
  then show "rnd32 (c - md) \<le> c" "t \<le> rnd32 (c - md)" using r assms(1,2) by (simp_all add: rnd32_minus)
qed

text \<open>
  A first-order filter on \<open>[0, hi]\<close>: with a bound whose rounding absorbs the error of the difference
  the filtered value never overshoots it.
\<close>

lemma filter_step_pos_exact:
  assumes "0 \<le> c" "c \<le> hi" "rnd32 c = c" and "0 \<le> a" "a \<le> hi" and "0 \<le> t" "t \<le> 1"
    and "hi < 2 powi k" "- 126 < k" "rnd32 (hi + 2 powi (k - 25)) = hi"
  defines "d \<equiv> rnd32 (a - c)"
  shows "0 \<le> rnd32 (c + rnd32 (d * t))" and "rnd32 (c + rnd32 (d * t)) \<le> hi"
proof -
  have dd: "rnd32 d = d" by (simp add: d_def)
  have hi: "rnd32 hi = hi" using rnd32_idem assms(10) by metis
  have "\<bar>a - c\<bar> < 2 powi k" using assms(1,2,4,5,8) by (simp add: abs_less_iff)
  then have err: "\<bar>d - (a - c)\<bar> \<le> 2 powi (k - 25)" unfolding d_def using assms(9) by (rule rnd32_error_below)
  show "rnd32 (c + rnd32 (d * t)) \<le> hi"
  proof (cases "0 \<le> d")
    case True
    then have "c + rnd32 (d * t) \<le> c + d" using rnd32_between_zero(1) [OF assms(6,7) dd] by simp
    also have "\<dots> \<le> hi + 2 powi (k - 25)" using err assms(5) by linarith
    finally show ?thesis using rnd32_mono assms(10) by metis
  next
    case False
    then have "c + rnd32 (d * t) \<le> hi" using rnd32_between_zero(2) [OF assms(6,7) dd] assms(2) by simp
    then show ?thesis using rnd32_mono hi by metis
  qed
  show "0 \<le> rnd32 (c + rnd32 (d * t))"
  proof (cases "0 \<le> d")
    case True
    then show ?thesis using rnd32_between_zero(1) [OF assms(6,7) dd] assms(1) by (intro rnd32_nonneg) simp
  next
    case False
    have "rnd32 (- c) \<le> d" unfolding d_def using assms(4) by (intro rnd32_mono) simp
    then have "0 \<le> c + rnd32 (d * t)"
      using False rnd32_between_zero(2) [OF assms(6,7) dd] assms(3) by (simp add: rnd32_minus)
    then show ?thesis by (rule rnd32_nonneg)
  qed
qed

lemma filter_step_pos:
  assumes "f_rng 0 hi out" and "f_rng 0 hi v" and "f_in 0 1 alpha"
    and "hi < 2 powi k" "- 126 < k" "rnd32 (hi + 2 powi (k - 25)) = hi" "hi \<le> 2 ^ 30"
  shows "f_rng 0 hi (f_add out (f_mul (f_sub v out) alpha))"
proof -
  obtain c where c: "out = Fin c" "0 \<le> c" "c \<le> hi" "rnd32 c = c" using assms(1) by (rule f_rngE)
  obtain a where a: "v = Fin a" "0 \<le> a" "a \<le> hi" using assms(2) by (rule f_rngE)
  obtain t where t: "alpha = Fin t" "0 \<le> t" "t \<le> 1" using assms(3) by (rule f_inE)
  define d where "d = rnd32 (a - c)"
  have hi: "rnd32 hi = hi" using rnd32_idem assms(6) by metis
  have "\<bar>a - c\<bar> \<le> hi" using a c by (simp add: abs_le_iff)
  then have d: "\<bar>d\<bar> \<le> hi" using rnd32_bounded [of "- hi" "a - c" hi] hi by (simp add: d_def rnd32_minus abs_le_iff)
  have "f_sub v out = Fin d" using \<open>\<bar>a - c\<bar> \<le> hi\<close> assms(7) by (simp add: a(1) c(1) f_sub_def d_def f_round_small)
  moreover have "\<bar>d * t\<bar> \<le> hi" using d t by (simp add: abs_mult order_trans [OF mult_left_le])
  then have "f_mul (Fin d) alpha = Fin (rnd32 (d * t))" using assms(7) by (simp add: t f_round_small)
  moreover have "\<bar>rnd32 (d * t)\<bar> \<le> hi"
    using rnd32_between_zero [OF t(2,3), of d] d by (cases "0 \<le> d") (auto simp: d_def)
  then have "\<bar>c + rnd32 (d * t)\<bar> \<le> 2 ^ 40" using c(2,3) assms(7) by (simp add: abs_le_iff)
  then have "f_add out (Fin (rnd32 (d * t))) = Fin (rnd32 (c + rnd32 (d * t)))" by (simp add: c(1) f_round_small)
  ultimately show ?thesis
    using filter_step_pos_exact [OF c(2-4) a(2,3) t(2,3) assms(4-6)] by (simp add: d_def f_rngI)
qed

end
