(* ===== verification/MotionApi.thy ===== *)
theory MotionApi
  imports ApiResponse FloatRange
begin

text \<open>
  High-level motion commands (\<open>protocol/motion_api.h\<close>, \<open>protocol/motion_api.cpp\<close>): the validated
  and clamped motion intent that the control task consumes.
\<close>

definition isMotionMsg :: "u8 \<Rightarrow> bool" where
  "isMotionMsg mid \<longleftrightarrow> 0x34 \<le> mid \<and> mid \<le> 0x38"

datatype MotionResult = MotionOk | MotionRejected | MotionBadRequest

fun motionResultCode :: "MotionResult \<Rightarrow> u8" where
  "motionResultCode MotionOk = 0" | "motionResultCode MotionRejected = 1" | "motionResultCode MotionBadRequest = 2"

definition motion_kMaxStrideMm :: u16 where "motion_kMaxStrideMm = 80"
definition motion_kMaxStepMm :: u16 where "motion_kMaxStepMm = 50"
definition motion_kMaxBodyHeightMm :: u16 where "motion_kMaxBodyHeightMm = 120"
definition kMaxTwist :: f32 where "kMaxTwist = f_lit 1"
definition kMaxPoseTransMm :: f32 where "kMaxPoseTransMm = f_lit 50"
definition kMaxPoseRotRad :: f32 where "kMaxPoseRotRad = f_lit (4363 / 10000)"
definition motiongait_kStand :: u8 where "motiongait_kStand = 0"
definition motiongait_kCount :: u8 where "motiongait_kCount = 6"
definition motion_kPassivePoseStream :: u8 where "motion_kPassivePoseStream = 9"

record MotionIntent =
  mi_seq :: u32
  mi_gait :: u8
  mi_body_height_mm :: u16
  mi_stride_len_mm :: u16
  mi_step_height_mm :: u16
  mi_duty_x255 :: u8
  mi_speed_x255 :: u8
  mi_twist_vx :: f32
  mi_twist_vy :: f32
  mi_twist_wz :: f32
  mi_pose_x_mm :: f32
  mi_pose_y_mm :: f32
  mi_pose_z_mm :: f32
  mi_pose_roll :: f32
  mi_pose_pitch :: f32
  mi_pose_yaw :: f32

definition MotionIntent_default :: MotionIntent where
  "MotionIntent_default = \<lparr> mi_seq = 0, mi_gait = motiongait_kStand, mi_body_height_mm = 0, mi_stride_len_mm = 0,
     mi_step_height_mm = 0, mi_duty_x255 = 128, mi_speed_x255 = 128, mi_twist_vx = Fin 0, mi_twist_vy = Fin 0,
     mi_twist_wz = Fin 0, mi_pose_x_mm = Fin 0, mi_pose_y_mm = Fin 0, mi_pose_z_mm = Fin 0, mi_pose_roll = Fin 0,
     mi_pose_pitch = Fin 0, mi_pose_yaw = Fin 0 \<rparr>"

record MotionApi =
  mo_intent :: MotionIntent
  mo_live_state :: u8
  mo_motion_allowed :: bool

definition readI16 :: "bytes \<Rightarrow> nat \<Rightarrow> int" where
  "readI16 bs i = sint (u16_at bs i)"

definition clampU16 :: "u16 \<Rightarrow> u16 \<Rightarrow> u16" where
  "clampU16 v hi = (if v > hi then hi else v)"

definition twistFromMilli :: "int \<Rightarrow> f32" where
  "twistFromMilli milli = f_clamp (f_div (f_of_int milli) (f_lit 1000)) (f_neg kMaxTwist) kMaxTwist"

definition motion_reset :: "MotionApi \<Rightarrow> MotionApi" where
  "motion_reset s = \<lparr> mo_intent = MotionIntent_default, mo_live_state = 0, mo_motion_allowed = False \<rparr>"

definition motion_setDefaults :: "u8 \<Rightarrow> u16 \<Rightarrow> u16 \<Rightarrow> u16 \<Rightarrow> u8 \<Rightarrow> u8 \<Rightarrow> MotionApi \<Rightarrow> MotionApi" where
  "motion_setDefaults gait body_height stride step duty speed s =
     s \<lparr> mo_intent := (mo_intent s) \<lparr> mi_gait := (if gait < motiongait_kCount then gait else motiongait_kStand),
           mi_body_height_mm := clampU16 body_height motion_kMaxBodyHeightMm,
           mi_stride_len_mm := clampU16 stride motion_kMaxStrideMm,
           mi_step_height_mm := clampU16 step motion_kMaxStepMm, mi_duty_x255 := duty, mi_speed_x255 := speed \<rparr> \<rparr>"

definition motion_setLiveState :: "u8 \<Rightarrow> bool \<Rightarrow> MotionApi \<Rightarrow> MotionApi" where
  "motion_setLiveState st allowed s = s \<lparr> mo_live_state := st, mo_motion_allowed := allowed \<rparr>"

definition motion_writeResult :: "MotionResult \<Rightarrow> nat \<Rightarrow> MotionApi \<Rightarrow> Response" where
  "motion_writeResult r cap s =
     (if cap < 3 then err_response (motionResultCode MotionBadRequest)
      else \<lparr> resp_bytes = [motionResultCode r, mo_live_state s, (if mo_motion_allowed s then 1 else 0)],
             resp_flags = (if r = MotionBadRequest then 0x02 else 0) \<rparr>)"

text \<open>\<open>3.14159265358979f / 180000.0f\<close>\<close>

definition kMdegToRad :: f32 where
  "kMdegToRad = f_div (f_lit (314159265358979 / 100000000000000)) (f_lit 180000)"

definition pose_trans :: "int \<Rightarrow> f32" where
  "pose_trans v = f_clamp (f_of_int v) (f_neg kMaxPoseTransMm) kMaxPoseTransMm"

definition pose_rot :: "int \<Rightarrow> f32" where
  "pose_rot mdeg = f_clamp (f_mul (f_of_int mdeg) kMdegToRad) (f_neg kMaxPoseRotRad) kMaxPoseRotRad"

text \<open>What an accepted command does to the intent, sequence number aside: \<open>Inl\<close> the refusal.\<close>

definition motion_command :: "u8 \<Rightarrow> bytes \<Rightarrow> MotionIntent \<Rightarrow> MotionResult + MotionIntent" where
  "motion_command mid req i =
     (if mid = 0x34 then
        if length req < 1 then Inl MotionBadRequest
        else if req ! 0 \<ge> motiongait_kCount then Inl MotionRejected
        else Inr (i \<lparr> mi_gait := req ! 0 \<rparr>)
      else if mid = 0x35 then
        if length req < 8 then Inl MotionBadRequest
        else Inr (i \<lparr> mi_body_height_mm := clampU16 (u16_at req 0) motion_kMaxBodyHeightMm,
                      mi_stride_len_mm := clampU16 (u16_at req 2) motion_kMaxStrideMm,
                      mi_step_height_mm := clampU16 (u16_at req 4) motion_kMaxStepMm,
                      mi_duty_x255 := req ! 6, mi_speed_x255 := req ! 7 \<rparr>)
      else if mid = 0x36 then
        if length req < 6 then Inl MotionBadRequest
        else Inr (i \<lparr> mi_twist_vx := twistFromMilli (readI16 req 0), mi_twist_vy := twistFromMilli (readI16 req 2),
                      mi_twist_wz := twistFromMilli (readI16 req 4) \<rparr>)
      else if mid = 0x37 then
        if length req < 12 then Inl MotionBadRequest
        else Inr (i \<lparr> mi_pose_x_mm := pose_trans (readI16 req 0), mi_pose_y_mm := pose_trans (readI16 req 2),
                      mi_pose_z_mm := pose_trans (readI16 req 4), mi_pose_roll := pose_rot (readI16 req 6),
                      mi_pose_pitch := pose_rot (readI16 req 8), mi_pose_yaw := pose_rot (readI16 req 10) \<rparr>)
      else Inr (i \<lparr> mi_twist_vx := Fin 0, mi_twist_vy := Fin 0, mi_twist_wz := Fin 0, mi_gait := motiongait_kStand \<rparr>))"

definition motion_handle :: "MotionApi handler" where
  "motion_handle mid req cap s =
     (if \<not> isMotionMsg mid then None
      else if mo_live_state s = motion_kPassivePoseStream \<and> mid \<noteq> 0x38
      then Some (motion_writeResult MotionRejected cap s, s)
      else case motion_command mid req (mo_intent s) of
             Inl r \<Rightarrow> Some (motion_writeResult r cap s, s)
           | Inr i \<Rightarrow> let s = s \<lparr> mo_intent := i \<lparr> mi_seq := mi_seq i + 1 \<rparr> \<rparr> in
                      Some (motion_writeResult MotionOk cap s, s))"

interpretation motion_group: command_group motion_handle isMotionMsg
  by unfold_locales
     (auto simp: motion_handle_def motion_writeResult_def err_response_def Let_def split: if_splits sum.splits)

section \<open>The intent stays inside the envelope\<close>

definition rot_limit :: rat where "rot_limit = 437 / 1000"

definition intent_safe :: "MotionIntent \<Rightarrow> bool" where
  "intent_safe i \<longleftrightarrow> mi_gait i < 6 \<and> mi_body_height_mm i \<le> 120 \<and> mi_stride_len_mm i \<le> 80 \<and>
     mi_step_height_mm i \<le> 50 \<and>
     f_in (- 1) 1 (mi_twist_vx i) \<and> f_in (- 1) 1 (mi_twist_vy i) \<and> f_in (- 1) 1 (mi_twist_wz i) \<and>
     f_in (- 50) 50 (mi_pose_x_mm i) \<and> f_in (- 50) 50 (mi_pose_y_mm i) \<and> f_in (- 50) 50 (mi_pose_z_mm i) \<and>
     f_in (- rot_limit) rot_limit (mi_pose_roll i) \<and>
     f_in (- rot_limit) rot_limit (mi_pose_pitch i) \<and>
     f_in (- rot_limit) rot_limit (mi_pose_yaw i) \<and>
     list_all f_rep [mi_twist_vx i, mi_twist_vy i, mi_twist_wz i, mi_pose_x_mm i, mi_pose_y_mm i, mi_pose_z_mm i,
       mi_pose_roll i, mi_pose_pitch i, mi_pose_yaw i]"

lemma motion_limits:
  "kMaxTwist = Fin 1" "kMaxPoseTransMm = Fin 50" "f_in 0 rot_limit kMaxPoseRotRad"
  by code_simp+

lemma f_mul_of_int_not_NaN: "f_in lo hi c \<Longrightarrow> lo \<noteq> 0 \<Longrightarrow> 0 < lo \<Longrightarrow> f_mul (f_of_int i) c \<noteq> NaN"
  by (cases c) (auto simp: f_of_int_def f_round_def Let_def)

lemma kMdegToRad_pos: "f_in (1 / 100000) (2 / 100000) kMdegToRad"
  by code_simp

lemma clamped_commands:
  "f_in (- 1) 1 (twistFromMilli m)" "f_in (- 50) 50 (pose_trans m)"
  "f_in (- rot_limit) rot_limit (pose_rot m)"
proof -
  have thousand: "f_lit 1000 = Fin 1000" by code_simp
  have "f_div (f_of_int m) (f_lit 1000) \<noteq> NaN"
    unfolding thousand by (cases "f_of_int m") (auto simp: f_of_int_def f_round_def Let_def split: if_splits)
  then show "f_in (- 1) 1 (twistFromMilli m)" by (simp add: twistFromMilli_def motion_limits f_clamp_in)
  show "f_in (- 50) 50 (pose_trans m)" by (simp add: pose_trans_def motion_limits f_clamp_in)
  obtain r where r: "kMaxPoseRotRad = Fin r" "0 \<le> r" "r \<le> rot_limit"
    using motion_limits(3) by (rule f_inE)
  have "f_mul (f_of_int m) kMdegToRad \<noteq> NaN" using f_mul_of_int_not_NaN [OF kMdegToRad_pos] by simp
  then have "f_in (- r) r (pose_rot m)" unfolding pose_rot_def r(1) f_neg.simps using r(2) by (intro f_clamp_in) simp_all
  then show "f_in (- rot_limit) rot_limit (pose_rot m)" using r by (elim f_in_mono) simp_all
qed

lemma clamped_rep: "f_rep (twistFromMilli m)" "f_rep (pose_trans m)" "f_rep (pose_rot m)"
  by (simp_all add: twistFromMilli_def pose_trans_def pose_rot_def kMaxTwist_def kMaxPoseTransMm_def kMaxPoseRotRad_def)

lemma clampU16_le [simp]: "clampU16 v hi \<le> hi"
  by (simp add: clampU16_def not_less)

lemma motion_command_safe: "motion_command mid req i = Inr i' \<Longrightarrow> intent_safe i \<Longrightarrow> intent_safe i'"
  using clampU16_le [of _ motion_kMaxBodyHeightMm] clampU16_le [of _ motion_kMaxStrideMm]
    clampU16_le [of _ motion_kMaxStepMm]
  by (auto simp: motion_command_def intent_safe_def clamped_commands clamped_rep motiongait_kCount_def motiongait_kStand_def
      motion_kMaxBodyHeightMm_def motion_kMaxStrideMm_def motion_kMaxStepMm_def not_le split: if_splits)

datatype motion_op =
    MotionReset | MotionDefaults u8 u16 u16 u16 u8 u8 | MotionLive u8 bool | MotionFrame u8 bytes nat

fun motion_step :: "motion_op \<Rightarrow> MotionApi \<Rightarrow> MotionApi" where
  "motion_step MotionReset s = motion_reset s"
| "motion_step (MotionDefaults g bh st sh d sp) s = motion_setDefaults g bh st sh d sp s"
| "motion_step (MotionLive st a) s = motion_setLiveState st a s"
| "motion_step (MotionFrame mid req cap) s = (case motion_handle mid req cap s of Some (r, s') \<Rightarrow> s' | None \<Rightarrow> s)"

lemma motion_safe_reset: "intent_safe (mo_intent (motion_reset s))"
  by (simp add: intent_safe_def motion_reset_def MotionIntent_default_def motiongait_kStand_def rot_limit_def)

lemma motion_safe_step: "intent_safe (mo_intent s) \<Longrightarrow> intent_safe (mo_intent (motion_step op s))"
proof (cases op)
  case (MotionFrame mid req cap)
  assume safe: "intent_safe (mo_intent s)"
  have seq: "intent_safe (i \<lparr> mi_seq := n \<rparr>) = intent_safe i" for i n by (simp add: intent_safe_def)
  show ?thesis
    using safe motion_command_safe [OF _ safe, of mid req] MotionFrame seq
    by (auto simp: motion_handle_def Let_def split: option.splits sum.splits)
next
  case (MotionDefaults g bh st sh d sp)
  assume "intent_safe (mo_intent s)"
  then show ?thesis
    using clampU16_le [of bh motion_kMaxBodyHeightMm] clampU16_le [of st motion_kMaxStrideMm]
      clampU16_le [of sh motion_kMaxStepMm] MotionDefaults
    by (auto simp: motion_setDefaults_def intent_safe_def motiongait_kCount_def motiongait_kStand_def
        motion_kMaxBodyHeightMm_def motion_kMaxStrideMm_def motion_kMaxStepMm_def)
qed (simp_all add: motion_safe_reset motion_setLiveState_def)

lemma motion_safe_run: "intent_safe (mo_intent s) \<Longrightarrow> intent_safe (mo_intent (fold motion_step ops s))"
  by (induction ops arbitrary: s) (simp_all add: motion_safe_step)

text \<open>
  Whatever the host sends, the stored motion intent is inside the safe envelope, in the exact
  values of the single-precision numbers: a known gait, body height, stride and step height within
  their limits, every twist component in [-1, 1], translations within 50 mm and rotations within
  25 degrees. In the torque-off passive state only STOP_MOTION changes it, and after STOP_MOTION
  the twist is zero and the gait is Stand in every state.
\<close>

theorem motion_intent_bounded:
  assumes "s = fold motion_step ops (motion_reset s0)"
  shows "intent_safe (mo_intent s) \<and>
         (mo_live_state s = 9 \<and> mid \<noteq> 0x38 \<longrightarrow> motion_step (MotionFrame mid req cap) s = s) \<and>
         (let i = mo_intent (motion_step (MotionFrame 0x38 req cap) s) in
          mi_gait i = 0 \<and> mi_twist_vx i = Fin 0 \<and> mi_twist_vy i = Fin 0 \<and> mi_twist_wz i = Fin 0)"
  using motion_safe_run [OF motion_safe_reset] assms
  by (auto simp: motion_handle_def motion_command_def isMotionMsg_def motion_kPassivePoseStream_def
      motiongait_kStand_def Let_def split: option.splits)

theorem motion_intent_bounded_witness:
  "let s = fold motion_step [MotionFrame 0x36 [0xD0, 0x07, 0, 0, 0, 0x80] 64, MotionLive 9 False]
             (motion_reset \<lparr> mo_intent = MotionIntent_default, mo_live_state = 3, mo_motion_allowed = True \<rparr>) in
   intent_safe (mo_intent s) \<and> mi_twist_vx (mo_intent s) = Fin 1 \<and> mi_twist_wz (mo_intent s) = Fin (- 1) \<and>
   motion_step (MotionFrame 0x34 [2] 64) s = s"
proof -
  let ?s = "fold motion_step [MotionFrame 0x36 [0xD0, 0x07, 0, 0, 0, 0x80] 64, MotionLive 9 False]
             (motion_reset \<lparr> mo_intent = MotionIntent_default, mo_live_state = 3, mo_motion_allowed = True \<rparr>)"
  have "mo_live_state ?s = 9 \<and> mi_twist_vx (mo_intent ?s) = Fin 1 \<and> mi_twist_wz (mo_intent ?s) = Fin (- 1)"
    by code_simp
  then have st: "mo_live_state ?s = 9" and tw: "mi_twist_vx (mo_intent ?s) = Fin 1" "mi_twist_wz (mo_intent ?s) = Fin (- 1)"
    by blast+
  note r = motion_intent_bounded [where ops = "[MotionFrame 0x36 [0xD0, 0x07, 0, 0, 0, 0x80] 64, MotionLive 9 False]"
      and ?s0.0 = "\<lparr> mo_intent = MotionIntent_default, mo_live_state = 3, mo_motion_allowed = True \<rparr>"
      and mid = "0x34" and req = "[2]" and cap = "64", OF refl]
  have "(0x34 :: u8) \<noteq> 0x38" by simp
  with r st have "intent_safe (mo_intent ?s)" "motion_step (MotionFrame 0x34 [2] 64) ?s = ?s" by blast+
  then show ?thesis using tw unfolding Let_def by blast
qed

end
