(* ===== verification/MaintTargetApi.thy ===== *)
theory MaintTargetApi
  imports Kinematics MotionApi
begin

text \<open>
  Maintenance leg and joint targets (\<open>protocol/maintenance_target_api.h\<close>,
  \<open>protocol/maintenance_target_api.cpp\<close>): a foot position or joint angles become goal ticks through
  the inverse kinematics and the servo map, and are stored for the control task. The handler reads
  the active configuration through a pointer; what it points to is the first part of its state.
\<close>

definition isMaintTargetMsg :: "u8 \<Rightarrow> bool" where
  "isMaintTargetMsg mid \<longleftrightarrow> 0x53 \<le> mid \<and> mid \<le> 0x56"

datatype MaintTargetResult = TargetOk | TargetRejected | TargetBadRequest | TargetUnreachable

fun maintTargetResultCode :: "MaintTargetResult \<Rightarrow> u8" where
  "maintTargetResultCode TargetOk = 0" | "maintTargetResultCode TargetRejected = 1"
| "maintTargetResultCode TargetBadRequest = 2" | "maintTargetResultCode TargetUnreachable = 3"

datatype MaintControlMode = JointTargets | GaitPipeline

fun maintControlModeCode :: "MaintControlMode \<Rightarrow> u8" where
  "maintControlModeCode JointTargets = 0" | "maintControlModeCode GaitPipeline = 1"

definition mt_kMacMaintenance :: u8 where "mt_kMacMaintenance = 8"

definition maint_kCentiDegToRad :: f32 where
  "maint_kCentiDegToRad =
     f_div (f_div (f_lit (314159265358979323846 / 100000000000000000000)) (f_lit 180)) (f_lit 100)"

record MaintTargetSet =
  mt_seq :: u32
  mt_tick :: "u16 list list"
  mt_set :: "bool list list"
  mt_clamped :: "bool list list"
  mt_foot_x_mm :: "int list"
  mt_foot_y_mm :: "int list"
  mt_foot_z_mm :: "int list"
  mt_leg_target_set :: "bool list"
  mt_leg_reachable :: "bool list"
  mt_leg_clamped :: "bool list"

record MaintTargetApi =
  mt_live_state :: u8
  mt_lock_held :: bool
  mt_control_mode :: MaintControlMode
  mt_target :: MaintTargetSet

definition grid :: "'a \<Rightarrow> 'a list list" where
  "grid v = replicate kNumLegs (replicate kJointsPerLeg v)"

definition grid_set :: "'a list list \<Rightarrow> nat \<Rightarrow> nat \<Rightarrow> 'a \<Rightarrow> 'a list list" where
  "grid_set g leg j v = g[leg := (g ! leg)[j := v]]"

definition cleared_targets :: MaintTargetSet where
  "cleared_targets =
     \<lparr> mt_seq = 0, mt_tick = grid kServoCenterTick, mt_set = grid False, mt_clamped = grid False,
       mt_foot_x_mm = replicate kNumLegs 0, mt_foot_y_mm = replicate kNumLegs 0, mt_foot_z_mm = replicate kNumLegs 0,
       mt_leg_target_set = replicate kNumLegs False, mt_leg_reachable = replicate kNumLegs False,
       mt_leg_clamped = replicate kNumLegs False \<rparr>"

definition mt_clearTargets :: "MaintTargetApi \<Rightarrow> MaintTargetApi" where
  "mt_clearTargets s = s \<lparr> mt_target := cleared_targets \<rparr>"

definition mt_resetControlMode :: "MaintTargetApi \<Rightarrow> MaintTargetApi" where
  "mt_resetControlMode s = s \<lparr> mt_control_mode := JointTargets \<rparr>"

definition mt_reset :: "MaintTargetApi \<Rightarrow> RobotConfig option \<times> MaintTargetApi" where
  "mt_reset s = (None, mt_clearTargets (mt_resetControlMode (s \<lparr> mt_live_state := 0, mt_lock_held := False \<rparr>)))"

definition mt_setLiveState :: "u8 \<Rightarrow> bool \<Rightarrow> MaintTargetApi \<Rightarrow> MaintTargetApi" where
  "mt_setLiveState st held s = s \<lparr> mt_live_state := st, mt_lock_held := held \<rparr>"

definition mt_gateOpen :: "RobotConfig option \<Rightarrow> MaintTargetApi \<Rightarrow> bool" where
  "mt_gateOpen cfg s \<longleftrightarrow> cfg \<noteq> None \<and> mt_lock_held s \<and> mt_live_state s = mt_kMacMaintenance"

definition mt_writeStatus :: "MaintTargetResult \<Rightarrow> nat \<Rightarrow> MaintTargetApi \<Rightarrow> Response" where
  "mt_writeStatus r cap s =
     (if cap < 2 then err_response (maintTargetResultCode TargetBadRequest)
      else \<lparr> resp_bytes = [maintTargetResultCode r, mt_live_state s],
             resp_flags = (if r = TargetBadRequest then kErrorFlag else 0) \<rparr>)"

text \<open>A command answers with its long form, or with a bad request when the buffer is too small.\<close>

definition mt_answer :: "bytes \<Rightarrow> nat \<Rightarrow> MaintTargetApi \<Rightarrow> Response" where
  "mt_answer bs cap s = (if cap < length bs then mt_writeStatus TargetBadRequest cap s
                         else \<lparr> resp_bytes = bs, resp_flags = 0 \<rparr>)"

definition store_joint :: "nat \<Rightarrow> nat \<Rightarrow> JointCommand \<Rightarrow> MaintTargetSet \<Rightarrow> MaintTargetSet" where
  "store_joint leg j jc t =
     t \<lparr> mt_tick := grid_set (mt_tick t) leg j (jc_tick jc), mt_set := grid_set (mt_set t) leg j True,
         mt_clamped := grid_set (mt_clamped t) leg j (jc_clamped_low jc \<or> jc_clamped_high jc) \<rparr>"

definition clamp_bits :: "bool list \<Rightarrow> u8" where
  "clamp_bits fs = fold (\<lambda>j m. if fs ! j then m OR push_bit j 1 else m) [0..<length fs] 0"

definition leg_commands :: "libm \<Rightarrow> RobotConfig \<Rightarrow> u8 \<Rightarrow> IkResult \<Rightarrow> JointCommand list" where
  "leg_commands m cfg leg ik =
     map (\<lambda>(j, a). angleToTick m cfg leg (of_nat j) a) [(0, ik_coxa ik), (1, ik_femur ik), (2, ik_tibia ik)]"

definition store_leg :: "nat \<Rightarrow> JointCommand list \<Rightarrow> MaintTargetSet \<Rightarrow> MaintTargetSet" where
  "store_leg leg jc t =
     (fold (\<lambda>j. store_joint leg j (jc ! j)) [0..<kJointsPerLeg] t) \<lparr> mt_seq := mt_seq t + 1 \<rparr>"

definition setLegTarget :: "libm \<Rightarrow> RobotConfig \<Rightarrow> bytes \<Rightarrow> nat \<Rightarrow> MaintTargetApi \<Rightarrow> Response \<times> MaintTargetApi" where
  "setLegTarget m cfg req cap s =
     (if length req < 7 then (mt_writeStatus TargetBadRequest cap s, s)
      else let leg = unat (req ! 0) in
        if leg \<ge> kNumLegs then (mt_writeStatus TargetBadRequest cap s, s)
        else let s = s \<lparr> mt_control_mode := JointTargets \<rparr>;
                 ik = solveBody m (BodyKinematics_new m cfg) leg
                        (f_of_int (readI16 req 1), f_of_int (readI16 req 3), f_of_int (readI16 req 5));
                 jc = leg_commands m cfg (req ! 0) ik;
                 clamp_low = clamp_bits (map jc_clamped_low jc);
                 clamp_high = clamp_bits (map jc_clamped_high jc);
                 t = mt_target s;
                 t = t \<lparr> mt_foot_x_mm := (mt_foot_x_mm t)[leg := readI16 req 1],
                         mt_foot_y_mm := (mt_foot_y_mm t)[leg := readI16 req 3],
                         mt_foot_z_mm := (mt_foot_z_mm t)[leg := readI16 req 5],
                         mt_leg_target_set := (mt_leg_target_set t)[leg := True],
                         mt_leg_reachable := (mt_leg_reachable t)[leg := ik_reachable ik],
                         mt_leg_clamped := (mt_leg_clamped t)[leg := (clamp_low OR clamp_high \<noteq> 0)] \<rparr>;
                 t = (if ik_reachable ik then store_leg leg jc t else t);
                 s = s \<lparr> mt_target := t \<rparr>
             in (mt_answer ([maintTargetResultCode (if ik_reachable ik then TargetOk else TargetUnreachable),
                   mt_live_state s, if ik_reachable ik then 1 else 0, clamp_low, clamp_high] @
                   put_u16 (jc_tick (jc ! 0)) @ put_u16 (jc_tick (jc ! 1)) @ put_u16 (jc_tick (jc ! 2))) cap s, s))"

definition setJointTarget :: "libm \<Rightarrow> RobotConfig \<Rightarrow> bytes \<Rightarrow> nat \<Rightarrow> MaintTargetApi \<Rightarrow> Response \<times> MaintTargetApi" where
  "setJointTarget m cfg req cap s =
     (if length req < 4 then (mt_writeStatus TargetBadRequest cap s, s)
      else let leg = unat (req ! 0); joint = unat (req ! 1) in
        if leg \<ge> kNumLegs \<or> joint \<ge> kJointsPerLeg then (mt_writeStatus TargetBadRequest cap s, s)
        else let s = s \<lparr> mt_control_mode := JointTargets \<rparr>;
                 angle_rad = f_mul (f_of_int (readI16 req 2)) maint_kCentiDegToRad;
                 jc = angleToTick m cfg (req ! 0) (req ! 1) angle_rad in
          if jc_unmapped jc then (mt_writeStatus TargetBadRequest cap s, s)
          else let t = store_joint leg joint jc (mt_target s);
                   s = s \<lparr> mt_target := t \<lparr> mt_seq := mt_seq t + 1 \<rparr> \<rparr>
               in (mt_answer ([maintTargetResultCode TargetOk, mt_live_state s, if jc_clamped_low jc then 1 else 0,
                     if jc_clamped_high jc then 1 else 0] @ put_u16 (jc_tick jc)) cap s, s))"

definition setControlMode :: "bytes \<Rightarrow> nat \<Rightarrow> MaintTargetApi \<Rightarrow> Response \<times> MaintTargetApi" where
  "setControlMode req cap s =
     (if length req < 1 \<or> req ! 0 > maintControlModeCode GaitPipeline
      then (mt_writeStatus TargetBadRequest cap s, s)
      else let s = s \<lparr> mt_control_mode := (if req ! 0 = 0 then JointTargets else GaitPipeline) \<rparr>
           in (mt_answer [maintTargetResultCode TargetOk, mt_live_state s,
                          maintControlModeCode (mt_control_mode s)] cap s, s))"

text \<open>One round of the nested loop of SET_ALL_JOINTS: the targets, the count and the clamp mask.\<close>

definition all_joints_step ::
  "libm \<Rightarrow> RobotConfig \<Rightarrow> bytes \<Rightarrow> nat \<Rightarrow> MaintTargetSet \<times> u8 \<times> bytes \<Rightarrow> MaintTargetSet \<times> u8 \<times> bytes" where
  "all_joints_step m cfg req idx acc =
     (let (t, stored, mask) = acc; leg = idx div kJointsPerLeg; joint = idx mod kJointsPerLeg;
          angle_rad = f_mul (f_of_int (readI16 req (idx * 2))) maint_kCentiDegToRad;
          jc = angleToTick m cfg (of_nat leg) (of_nat joint) angle_rad in
      if jc_unmapped jc then acc
      else (store_joint leg joint jc t, stored + 1,
            (if jc_clamped_low jc \<or> jc_clamped_high jc
             then mask[idx div 8 := mask ! (idx div 8) OR push_bit (idx mod 8) 1] else mask)))"

definition setAllJoints :: "libm \<Rightarrow> RobotConfig \<Rightarrow> bytes \<Rightarrow> nat \<Rightarrow> MaintTargetApi \<Rightarrow> Response \<times> MaintTargetApi" where
  "setAllJoints m cfg req cap s =
     (if length req < kNumLegs * kJointsPerLeg * 2 then (mt_writeStatus TargetBadRequest cap s, s)
      else let s = s \<lparr> mt_control_mode := JointTargets \<rparr>;
               (t, stored, mask) = fold (all_joints_step m cfg req) [0..<kNumLegs * kJointsPerLeg]
                                     (mt_target s, 0, [0, 0, 0]);
               s = s \<lparr> mt_target := t \<lparr> mt_seq := mt_seq t + 1 \<rparr> \<rparr>
           in (mt_answer ([maintTargetResultCode TargetOk, mt_live_state s, stored] @ mask) cap s, s))"

definition maint_target_handle :: "libm \<Rightarrow> (RobotConfig option \<times> MaintTargetApi) handler" where
  "maint_target_handle m mid req cap p =
     (let (cfg, s) = p; with_cfg = (\<lambda>(r, s'). Some (r, (cfg, s'))) in
      if \<not> isMaintTargetMsg mid then None
      else if \<not> mt_gateOpen cfg s then with_cfg (mt_writeStatus TargetRejected cap s, s)
      else if mid = 0x53 then with_cfg (setLegTarget m (the cfg) req cap s)
      else if mid = 0x54 then with_cfg (setJointTarget m (the cfg) req cap s)
      else if mid = 0x56 then with_cfg (setControlMode req cap s)
      else with_cfg (setAllJoints m (the cfg) req cap s))"

definition reply_ok :: "nat \<Rightarrow> Response \<Rightarrow> bool" where
  "reply_ok cap r \<longleftrightarrow> resp_bytes r \<noteq> [] \<and> (64 \<le> cap \<longrightarrow> length (resp_bytes r) \<le> cap)"

lemma mt_writeStatus_ok [simp]: "reply_ok cap (mt_writeStatus r cap s)"
  by (auto simp: reply_ok_def mt_writeStatus_def err_response_def)

lemma mt_answer_ok [simp]: "bs \<noteq> [] \<Longrightarrow> reply_ok cap (mt_answer bs cap s)"
  using mt_writeStatus_ok [of cap TargetBadRequest s] by (auto simp: reply_ok_def mt_answer_def)

lemma mt_commands_ok [simp]:
  "reply_ok cap (fst (setLegTarget m cfg req cap s))" "reply_ok cap (fst (setJointTarget m cfg req cap s))"
  "reply_ok cap (fst (setControlMode req cap s))" "reply_ok cap (fst (setAllJoints m cfg req cap s))"
  by (simp_all add: setLegTarget_def setJointTarget_def setControlMode_def setAllJoints_def Let_def split: prod.split)

lemma maint_target_handle_SomeE:
  assumes "maint_target_handle m mid req cap (cfg, s) = Some (r, p)"
  obtains s' where "p = (cfg, s')" "isMaintTargetMsg mid" "reply_ok cap r"
    "(r, s') = (mt_writeStatus TargetRejected cap s, s) \<or> mt_gateOpen cfg s \<and>
     (r, s') \<in> {setLegTarget m (the cfg) req cap s, setJointTarget m (the cfg) req cap s, setControlMode req cap s,
       setAllJoints m (the cfg) req cap s}"
proof -
  from assms consider "isMaintTargetMsg mid" "\<not> mt_gateOpen cfg s" "r = mt_writeStatus TargetRejected cap s" "p = (cfg, s)"
    | x where "isMaintTargetMsg mid" "mt_gateOpen cfg s" "r = fst x" "p = (cfg, snd x)"
      "x \<in> {setLegTarget m (the cfg) req cap s, setJointTarget m (the cfg) req cap s, setControlMode req cap s,
        setAllJoints m (the cfg) req cap s}"
    unfolding maint_target_handle_def Let_def by (auto split: if_splits prod.splits)
  then show thesis using that by cases (force, auto)
qed

interpretation maint_target_group: command_group "maint_target_handle m" isMaintTargetMsg
proof (unfold_locales, goal_cases)
  case (1 mid req cap s r s')
  then show ?case by (cases s) (auto elim: maint_target_handle_SomeE)
next
  case (2 mid req cap s r s')
  then show ?case by (cases s) (auto simp: reply_ok_def elim: maint_target_handle_SomeE)
next
  case (3 mid req cap s r s')
  then show ?case by (cases s) (auto simp: reply_ok_def elim: maint_target_handle_SomeE)
qed

section \<open>Stored goals stay within the travel of the servos\<close>

definition in_travel :: "RobotConfig \<Rightarrow> nat \<Rightarrow> nat \<Rightarrow> u16 \<Rightarrow> bool" where
  "in_travel cfg leg j tick \<longleftrightarrow> (\<exists>s. servoFor cfg (of_nat leg) (of_nat j) = Some s \<and> min_tick s \<le> tick \<and> tick \<le> max_tick s)"

definition grid_dims :: "'a list list \<Rightarrow> bool" where
  "grid_dims g \<longleftrightarrow> length g = kNumLegs \<and> (\<forall>leg < kNumLegs. length (g ! leg) = kJointsPerLeg)"

definition targets_ok :: "RobotConfig \<Rightarrow> MaintTargetSet \<Rightarrow> bool" where
  "targets_ok cfg t \<longleftrightarrow> grid_dims (mt_tick t) \<and> grid_dims (mt_set t) \<and>
     (\<forall>leg < kNumLegs. \<forall>j < kJointsPerLeg. mt_set t ! leg ! j \<longrightarrow> in_travel cfg leg j (mt_tick t ! leg ! j))"

lemma grid_set_dims [simp]: "grid_dims g \<Longrightarrow> grid_dims (grid_set g leg j v)"
  by (cases "leg < length g") (auto simp: grid_dims_def grid_set_def nth_list_update)

lemma grid_set_nth:
  "grid_dims g \<Longrightarrow> leg < kNumLegs \<Longrightarrow> j < kJointsPerLeg \<Longrightarrow> l < kNumLegs \<Longrightarrow> i < kJointsPerLeg \<Longrightarrow>
   grid_set g leg j v ! l ! i = (if l = leg \<and> i = j then v else g ! l ! i)"
  by (auto simp: grid_dims_def grid_set_def nth_list_update)

lemma store_joint_ok:
  assumes "targets_ok cfg t" and "leg < kNumLegs" and "j < kJointsPerLeg" and "in_travel cfg leg j (jc_tick jc)"
  shows "targets_ok cfg (store_joint leg j jc t)"
  using assms by (auto simp: targets_ok_def store_joint_def grid_set_nth)

lemma angleToTick_in_travel:
  assumes "validateRobotConfig cfg" and "config_dims cfg" and "leg < kNumLegs" and "j < kJointsPerLeg"
  shows "in_travel cfg leg j (jc_tick (angleToTick m cfg (of_nat leg) (of_nat j) a))"
    and "\<not> jc_unmapped (angleToTick m cfg (of_nat leg) (of_nat j) a)"
proof -
  have "unat (of_nat leg :: u8) < 6" "unat (of_nat j :: u8) < 3"
    using assms(3,4) by (simp_all add: kNumLegs_def kJointsPerLeg_def unat_of_nat)
  then obtain s where "servoFor cfg (of_nat leg) (of_nat j) = Some s" "servo_ok s"
    using servoFor_valid [OF assms(1,2)] by blast
  then show "in_travel cfg leg j (jc_tick (angleToTick m cfg (of_nat leg) (of_nat j) a))"
    and "\<not> jc_unmapped (angleToTick m cfg (of_nat leg) (of_nat j) a)"
    using clamp_raw_within [of s] by (auto simp: in_travel_def angleToTick_def Let_def clamp_raw_def)
qed

lemma fold_targets_ok:
  assumes "\<And>x t. x \<in> set xs \<Longrightarrow> targets_ok cfg t \<Longrightarrow> targets_ok cfg (f x t)" and "targets_ok cfg t"
  shows "targets_ok cfg (fold f xs t)"
  using assms by (induction xs arbitrary: t) auto

lemma targets_ok_cleared: "targets_ok cfg cleared_targets"
  by (auto simp: targets_ok_def cleared_targets_def grid_def grid_dims_def)

lemma setLegTarget_ok:
  assumes "validateRobotConfig cfg" and "config_dims cfg" and "targets_ok cfg (mt_target s)"
  shows "targets_ok cfg (mt_target (snd (setLegTarget m cfg req cap s)))"
proof (cases "length req < 7 \<or> kNumLegs \<le> unat (req ! 0)")
  case False
  have "in_travel cfg (unat (req ! 0)) j (jc_tick (leg_commands m cfg (req ! 0) ik ! j))" if "j < kJointsPerLeg" for j ik
  proof -
    have "leg_commands m cfg (req ! 0) ik ! j =
        angleToTick m cfg (of_nat (unat (req ! 0))) (of_nat j) ([ik_coxa ik, ik_femur ik, ik_tibia ik] ! j)"
      using that by (auto simp: leg_commands_def kJointsPerLeg_def less_Suc_eq numeral_eq_Suc)
    then show ?thesis using angleToTick_in_travel(1) [OF assms(1,2) _ that] False by (metis not_le)
  qed
  then have "targets_ok cfg t \<Longrightarrow>
      targets_ok cfg (fold (\<lambda>j. store_joint (unat (req ! 0)) j (leg_commands m cfg (req ! 0) ik ! j)) [0..<kJointsPerLeg] t)" for ik t
    using False by (intro fold_targets_ok store_joint_ok) auto
  moreover have "targets_ok cfg (t \<lparr> mt_seq := n \<rparr>) = targets_ok cfg t" for t n by (simp add: targets_ok_def)
  ultimately have "targets_ok cfg t \<Longrightarrow> targets_ok cfg (store_leg (unat (req ! 0)) (leg_commands m cfg (req ! 0) ik) t)" for ik t
    by (simp only: store_leg_def)
  moreover have "targets_ok cfg (mt_target s \<lparr> mt_foot_x_mm := a, mt_foot_y_mm := b, mt_foot_z_mm := c,
      mt_leg_target_set := d, mt_leg_reachable := e, mt_leg_clamped := f \<rparr>)" for a b c d e f
    using assms(3) by (simp add: targets_ok_def)
  ultimately show ?thesis using False unfolding setLegTarget_def Let_def by simp
qed (use assms(3) in \<open>auto simp: setLegTarget_def Let_def\<close>)

lemma setJointTarget_ok:
  assumes "validateRobotConfig cfg" and "config_dims cfg" and "targets_ok cfg (mt_target s)"
  shows "targets_ok cfg (mt_target (snd (setJointTarget m cfg req cap s)))"
proof (cases "length req < 4 \<or> kNumLegs \<le> unat (req ! 0) \<or> kJointsPerLeg \<le> unat (req ! 1)")
  case False
  then have "targets_ok cfg (store_joint (unat (req ! 0)) (unat (req ! 1)) (angleToTick m cfg (req ! 0) (req ! 1) a)
      (mt_target s))" for a
    using angleToTick_in_travel(1) [OF assms(1,2), of "unat (req ! 0)" "unat (req ! 1)"]
    by (intro store_joint_ok assms(3)) auto
  then show ?thesis using False assms(3) by (auto simp: setJointTarget_def Let_def targets_ok_def)
qed (use assms(3) in \<open>auto simp: setJointTarget_def Let_def\<close>)

lemma all_joints_fold_ok:
  assumes "validateRobotConfig cfg" and "config_dims cfg" and "targets_ok cfg t"
    and "\<forall>i \<in> set xs. i < kNumLegs * kJointsPerLeg"
  shows "targets_ok cfg (fst (fold (all_joints_step m cfg req) xs (t, n, k)))"
  using assms(3,4)
proof (induction xs arbitrary: t n k)
  case (Cons i xs)
  then have "i div kJointsPerLeg < kNumLegs" "i mod kJointsPerLeg < kJointsPerLeg"
    by (auto simp: kJointsPerLeg_def kNumLegs_def div_less_iff_less_mult)
  then have "targets_ok cfg (fst (all_joints_step m cfg req i (t, n, k)))"
    using Cons.prems(1) by (auto simp: all_joints_step_def Let_def intro!: store_joint_ok angleToTick_in_travel assms(1,2))
  then show ?case using Cons.IH [of "fst (all_joints_step m cfg req i (t, n, k))"] Cons.prems(2)
    by (metis fold_simps(2) list.set_intros(2) prod.collapse)
qed simp

lemma setAllJoints_ok:
  assumes "validateRobotConfig cfg" and "config_dims cfg" and "targets_ok cfg (mt_target s)"
  shows "targets_ok cfg (mt_target (snd (setAllJoints m cfg req cap s)))"
proof -
  obtain t n k where f: "fold (all_joints_step m cfg req) [0..<kNumLegs * kJointsPerLeg] (mt_target s, 0, [0, 0, 0]) = (t, n, k)"
    by (metis prod.collapse)
  then have "targets_ok cfg t"
    using all_joints_fold_ok [OF assms, of "[0..<kNumLegs * kJointsPerLeg]" m req 0 "[0, 0, 0]"] by simp
  then show ?thesis using f assms(3) by (simp add: setAllJoints_def Let_def targets_ok_def)
qed

lemma setControlMode_target: "mt_target (snd (setControlMode req cap s)) = mt_target s"
  by (simp add: setControlMode_def Let_def)

text \<open>A consumer that watches the sequence number misses no change of a goal.\<close>

definition goals :: "MaintTargetSet \<Rightarrow> u16 list list \<times> bool list list \<times> bool list list" where
  "goals t = (mt_tick t, mt_set t, mt_clamped t)"

lemma store_joint_seq [simp]: "mt_seq (store_joint leg j jc t) = mt_seq t"
  by (simp add: store_joint_def)

lemma all_joints_fold_seq: "mt_seq (fst (fold (all_joints_step m cfg req) xs acc)) = mt_seq (fst acc)"
proof (induction xs arbitrary: acc)
  case (Cons i xs)
  have "mt_seq (fst (all_joints_step m cfg req i acc)) = mt_seq (fst acc)"
    by (cases acc) (simp add: all_joints_step_def Let_def)
  then show ?case using Cons.IH [of "all_joints_step m cfg req i acc"] by simp
qed simp

lemma commands_seq:
  "x \<in> {setLegTarget m cfg req cap s, setJointTarget m cfg req cap s, setControlMode req cap s, setAllJoints m cfg req cap s}
   \<Longrightarrow> goals (mt_target (snd x)) = goals (mt_target s) \<and> mt_seq (mt_target (snd x)) = mt_seq (mt_target s) \<or>
       mt_seq (mt_target (snd x)) = mt_seq (mt_target s) + 1"
proof -
  have "goals (mt_target (snd (setLegTarget m cfg req cap s))) = goals (mt_target s) \<and>
      mt_seq (mt_target (snd (setLegTarget m cfg req cap s))) = mt_seq (mt_target s) \<or>
      mt_seq (mt_target (snd (setLegTarget m cfg req cap s))) = mt_seq (mt_target s) + 1"
    by (simp add: setLegTarget_def Let_def store_leg_def goals_def)
  moreover have "goals (mt_target (snd (setJointTarget m cfg req cap s))) = goals (mt_target s) \<and>
      mt_seq (mt_target (snd (setJointTarget m cfg req cap s))) = mt_seq (mt_target s) \<or>
      mt_seq (mt_target (snd (setJointTarget m cfg req cap s))) = mt_seq (mt_target s) + 1"
    by (simp add: setJointTarget_def Let_def goals_def)
  moreover have "goals (mt_target (snd (setAllJoints m cfg req cap s))) = goals (mt_target s) \<and>
      mt_seq (mt_target (snd (setAllJoints m cfg req cap s))) = mt_seq (mt_target s) \<or>
      mt_seq (mt_target (snd (setAllJoints m cfg req cap s))) = mt_seq (mt_target s) + 1"
    using all_joints_fold_seq [of m cfg req "[0..<kNumLegs * kJointsPerLeg]" "(mt_target s, 0, [0, 0, 0])"]
    by (auto simp: setAllJoints_def Let_def goals_def split: prod.split)
  ultimately show "x \<in> {setLegTarget m cfg req cap s, setJointTarget m cfg req cap s, setControlMode req cap s,
      setAllJoints m cfg req cap s} \<Longrightarrow> ?thesis"
    using setControlMode_target [of req cap s] by (metis empty_iff insertE)
qed

datatype maint_target_op = TargetLive u8 bool | TargetClear | TargetModeReset | TargetFrame u8 bytes nat

fun maint_target_step :: "libm \<Rightarrow> RobotConfig \<Rightarrow> maint_target_op \<Rightarrow> MaintTargetApi \<Rightarrow> MaintTargetApi" where
  "maint_target_step m cfg (TargetLive st held) s = mt_setLiveState st held s"
| "maint_target_step m cfg TargetClear s = mt_clearTargets s"
| "maint_target_step m cfg TargetModeReset s = mt_resetControlMode s"
| "maint_target_step m cfg (TargetFrame mid req cap) s =
     (case maint_target_handle m mid req cap (Some cfg, s) of Some (r, (c, s')) \<Rightarrow> s' | None \<Rightarrow> s)"

lemma maint_target_frame_cases:
  obtains "maint_target_step m cfg (TargetFrame mid req cap) s = s"
  | x where "maint_target_step m cfg (TargetFrame mid req cap) s = snd x" "isMaintTargetMsg mid" "mt_gateOpen (Some cfg) s"
      "x \<in> {setLegTarget m cfg req cap s, setJointTarget m cfg req cap s, setControlMode req cap s, setAllJoints m cfg req cap s}"
proof (cases "maint_target_handle m mid req cap (Some cfg, s)")
  case (Some y)
  obtain r p where y: "y = (r, p)" by (rule prod.exhaust)
  from Some show thesis unfolding y
  proof (rule maint_target_handle_SomeE, goal_cases)
    case (1 s')
    then have "maint_target_step m cfg (TargetFrame mid req cap) s = s'" by (simp add: Some y)
    then show thesis using 1(2,4) that(1) that(2) [of "(r, s')"] by auto
  qed
qed (use that in simp)

lemma targets_ok_step:
  assumes "validateRobotConfig cfg" and "config_dims cfg" and "targets_ok cfg (mt_target s)"
  shows "targets_ok cfg (mt_target (maint_target_step m cfg op s))"
proof (cases op)
  case (TargetFrame mid req cap)
  show ?thesis
  proof (rule maint_target_frame_cases [of m cfg mid req cap s], goal_cases)
    case (2 x)
    then show ?case using setLegTarget_ok [OF assms] setJointTarget_ok [OF assms] setAllJoints_ok [OF assms]
        setControlMode_target assms(3) TargetFrame by auto
  qed (use assms(3) TargetFrame in simp)
qed (use assms(3) in \<open>simp_all add: mt_setLiveState_def mt_clearTargets_def mt_resetControlMode_def targets_ok_cleared\<close>)

lemma targets_ok_run:
  assumes "validateRobotConfig cfg" and "config_dims cfg" and "targets_ok cfg (mt_target s)"
  shows "targets_ok cfg (mt_target (fold (maint_target_step m cfg) ops s))"
  using assms(3) by (induction ops arbitrary: s) (simp_all add: targets_ok_step [OF assms(1,2)])

text \<open>
  C19: maintenance goals are safe. Under a validated configuration, from reset on and whatever
  frames arrive, every goal tick that is marked as commanded is within the travel of the servo of
  its joint; a frame changes anything only in MacMaintenance with the lock held; and a frame that
  changes a goal tick or mark bumps the sequence number by one, so that the control task sees it.
\<close>

theorem maint_goals_safe:
  assumes "validateRobotConfig cfg" and "config_dims cfg"
    and "s = fold (maint_target_step m cfg) ops (snd (mt_reset s0))"
    and "s' = maint_target_step m cfg (TargetFrame mid req cap) s"
  shows "(\<forall>leg < kNumLegs. \<forall>j < kJointsPerLeg. mt_set (mt_target s') ! leg ! j \<longrightarrow>
            in_travel cfg leg j (mt_tick (mt_target s') ! leg ! j)) \<and>
         (s' \<noteq> s \<longrightarrow> mt_live_state s = 8 \<and> mt_lock_held s) \<and>
         (goals (mt_target s') \<noteq> goals (mt_target s) \<longrightarrow> mt_seq (mt_target s') = mt_seq (mt_target s) + 1)"
proof -
  have "targets_ok cfg (mt_target s)" unfolding assms(3)
    by (rule targets_ok_run [OF assms(1,2)]) (simp add: mt_reset_def mt_clearTargets_def targets_ok_cleared)
  then have "targets_ok cfg (mt_target s')" unfolding assms(4) by (rule targets_ok_step [OF assms(1,2)])
  moreover have "s' \<noteq> s \<longrightarrow> mt_live_state s = 8 \<and> mt_lock_held s"
    unfolding assms(4) by (rule maint_target_frame_cases [of m cfg mid req cap s]; simp add: mt_gateOpen_def mt_kMacMaintenance_def)
  moreover have "goals (mt_target s') \<noteq> goals (mt_target s) \<longrightarrow> mt_seq (mt_target s') = mt_seq (mt_target s) + 1"
    unfolding assms(4)
    by (rule maint_target_frame_cases [of m cfg mid req cap s]) (simp, metis commands_seq)
  ultimately show ?thesis by (simp add: targets_ok_def)
qed

definition mt_sample :: MaintTargetApi where
  "mt_sample = \<lparr> mt_live_state = 3, mt_lock_held = False, mt_control_mode = GaitPipeline, mt_target = cleared_targets \<rparr>"

definition mt_sample_libm :: libm where
  "mt_sample_libm = \<lparr> lm_sqrtf = id, lm_sinf = id, lm_cosf = id, lm_acosf = id, lm_asinf = id, lm_atan2f = (\<lambda>y x. y),
     lm_expf = id, lm_lround_other = (\<lambda>v. 0) \<rparr>"

theorem maint_goals_safe_witness:
  "let s = fold (maint_target_step mt_sample_libm defaultRobotConfig) [TargetLive 8 True] (snd (mt_reset mt_sample));
       s' = maint_target_step mt_sample_libm defaultRobotConfig (TargetFrame 0x54 [2, 1, 0xE8, 3] 64) s
   in mt_set (mt_target s') ! 2 ! 1 \<and> in_travel defaultRobotConfig 2 1 (mt_tick (mt_target s') ! 2 ! 1) \<and>
      mt_seq (mt_target s') = 1"
proof -
  define s where "s = fold (maint_target_step mt_sample_libm defaultRobotConfig) [TargetLive 8 True] (snd (mt_reset mt_sample))"
  define s' where "s' = maint_target_step mt_sample_libm defaultRobotConfig (TargetFrame 0x54 [2, 1, 0xE8, 3] 64) s"
  note safe = maint_goals_safe [OF default_valid default_dims s_def s'_def]
  have "mt_set (mt_target s') ! 2 ! 1 \<and> mt_seq (mt_target s') = 1" unfolding s'_def s_def by code_simp
  then show ?thesis using safe unfolding Let_def s'_def [symmetric] s_def [symmetric]
    by (simp add: kNumLegs_def kJointsPerLeg_def)
qed

end
