(* ===== verification/ChannelPack.thy ===== *)
theory ChannelPack
  imports Prelude "HOL-Library.Signed_Division"
begin

text \<open>
  The channel layout shared with the hand controller (\<open>lib/ChannelPack/ChannelPack.h\<close>): sticks,
  potentiometers, encoders, switches, buttons and navigation clusters packed into sixteen 11-bit
  channels, with the discrete fields spread over the valid range so that a small disturbance of a
  channel does not change them. C's division and remainder round towards zero (\<open>sdiv\<close>,
  \<open>smod\<close>). The field values of the packers stay below 2048, so they are natural numbers here.
\<close>

record ChannelPackInputs =
  cp_gimbal :: "int list"
  cp_pot :: "int list"
  cp_encoder :: "int list"
  cp_switches :: "bool list"
  cp_buttons :: "bool list"
  cp_toggles :: "nat list"
  cp_nav :: "bool list list"

definition ChannelPackInputs_zero :: ChannelPackInputs where
  "ChannelPackInputs_zero = \<lparr> cp_gimbal = replicate 4 0, cp_pot = replicate 2 0, cp_encoder = replicate 2 0,
     cp_switches = replicate 8 False, cp_buttons = replicate 4 False, cp_toggles = replicate 2 0,
     cp_nav = replicate 2 (replicate 5 False) \<rparr>"

definition CPACK_CRSF_MIN :: nat where "CPACK_CRSF_MIN = 191"
definition CPACK_CRSF_MID :: nat where "CPACK_CRSF_MID = 992"
definition CPACK_CRSF_MAX :: nat where "CPACK_CRSF_MAX = 1792"
definition CPACK_SWITCH_FIELD_MAX :: nat where "CPACK_SWITCH_FIELD_MAX = 31"
definition CPACK_BTN_TOGGLE_FIELD_MAX :: nat where "CPACK_BTN_TOGGLE_FIELD_MAX = 143"
definition CPACK_NAV_FIELD_MAX :: nat where "CPACK_NAV_FIELD_MAX = 35"
definition CPACK_ARM_POT_STEPS :: nat where "CPACK_ARM_POT_STEPS = 511"
definition CPACK_ARM_POT_ON_BASE :: nat where "CPACK_ARM_POT_ON_BASE = 1536"
definition CPACK_ARM_POT_CODE_MAX :: nat where "CPACK_ARM_POT_CODE_MAX = 2047"

lemmas cpack_consts = CPACK_CRSF_MIN_def CPACK_CRSF_MID_def CPACK_CRSF_MAX_def CPACK_SWITCH_FIELD_MAX_def
  CPACK_BTN_TOGGLE_FIELD_MAX_def CPACK_NAV_FIELD_MAX_def CPACK_ARM_POT_STEPS_def CPACK_ARM_POT_ON_BASE_def
  CPACK_ARM_POT_CODE_MAX_def

abbreviation cpack_span :: nat where
  "cpack_span \<equiv> CPACK_CRSF_MAX - CPACK_CRSF_MIN"

abbreviation to_i16 :: "int \<Rightarrow> int" where
  "to_i16 x \<equiv> signed_take_bit 15 x"

section \<open>Packing, on the controller\<close>

definition clampI16 :: "int \<Rightarrow> int \<Rightarrow> int \<Rightarrow> int" where
  "clampI16 val lo hi = (if val < lo then lo else if val > hi then hi else val)"

definition gimbalToCrsf :: "int \<Rightarrow> u16" where
  "gimbalToCrsf val = word_of_int (((clampI16 val (- 1000) 1000 + 1000) * int cpack_span) sdiv 2000 + int CPACK_CRSF_MIN)"

definition potToCrsf :: "int \<Rightarrow> u16" where
  "potToCrsf val = word_of_int ((clampI16 val 0 1000 * int cpack_span) sdiv 1000 + int CPACK_CRSF_MIN)"

definition armPotToCrsf :: "int \<Rightarrow> bool \<Rightarrow> u16" where
  "armPotToCrsf pot arm =
     (let pot_code = (nat (clampI16 pot 0 1000) * CPACK_ARM_POT_STEPS + 500) div 1000;
          code = (if arm then CPACK_ARM_POT_ON_BASE + pot_code else pot_code)
      in of_nat (CPACK_CRSF_MIN + (code * cpack_span + CPACK_ARM_POT_CODE_MAX div 2) div CPACK_ARM_POT_CODE_MAX))"

definition encoderToCrsf :: "int \<Rightarrow> u16" where
  "encoderToCrsf pos = word_of_int ((pos smod 2048 + 2048) smod 2048)"

definition discreteToCrsf :: "nat \<Rightarrow> nat \<Rightarrow> u16" where
  "discreteToCrsf val field_max =
     of_nat (CPACK_CRSF_MIN + (min val field_max * cpack_span + field_max div 2) div field_max)"

definition crsfToDiscrete :: "u16 \<Rightarrow> nat \<Rightarrow> nat" where
  "crsfToDiscrete val field_max =
     ((min (max (unat val) CPACK_CRSF_MIN) CPACK_CRSF_MAX - CPACK_CRSF_MIN) * field_max + cpack_span div 2) div cpack_span"

text \<open>The bits of a list of levels, the first one least significant.\<close>

fun bits_value :: "bool list \<Rightarrow> nat" where
  "bits_value [] = 0"
| "bits_value (b # bs) = (if b then 1 else 0) + 2 * bits_value bs"

definition packAuxSwitches :: "bool list \<Rightarrow> nat" where
  "packAuxSwitches sw = bits_value (map (\<lambda>i. sw ! i) [1..<6])"

definition packButtonToggleState :: "bool list \<Rightarrow> nat list \<Rightarrow> nat" where
  "packButtonToggleState btn tog =
     (let button_mask = bits_value (map (\<lambda>i. btn ! i) [0..<4]);
          toggle0 = (if tog ! 0 \<le> 2 then tog ! 0 else 2); toggle1 = (if tog ! 1 \<le> 2 then tog ! 1 else 2)
      in (toggle0 * 3 + toggle1) * 16 + button_mask)"

definition packNavState :: "bool list \<Rightarrow> nat" where
  "packNavState nav = (case find (\<lambda>i. nav ! i) [0..<5] of Some i \<Rightarrow> i + 1 | None \<Rightarrow> 0)"

definition packNavStates :: "bool list list \<Rightarrow> nat" where
  "packNavStates nav = packNavState (nav ! 0) * 6 + packNavState (nav ! 1)"

definition packInputs :: "ChannelPackInputs \<Rightarrow> u16 list" where
  "packInputs inp =
     map (\<lambda>i. gimbalToCrsf (cp_gimbal inp ! i)) [0..<4] @
     [armPotToCrsf (cp_pot inp ! 0) (cp_switches inp ! 0), potToCrsf (cp_pot inp ! 1),
      encoderToCrsf (cp_encoder inp ! 0), encoderToCrsf (cp_encoder inp ! 1),
      discreteToCrsf (take_bit 5 (packAuxSwitches (cp_switches inp))) CPACK_SWITCH_FIELD_MAX,
      discreteToCrsf (packButtonToggleState (cp_buttons inp) (cp_toggles inp)) CPACK_BTN_TOGGLE_FIELD_MAX,
      discreteToCrsf (packNavStates (cp_nav inp)) CPACK_NAV_FIELD_MAX] @
     replicate 5 (of_nat CPACK_CRSF_MID)"

section \<open>Unpacking, on the robot\<close>

definition crsfToGimbal :: "u16 \<Rightarrow> int" where
  "crsfToGimbal v = to_i16 (((uint v - int CPACK_CRSF_MIN) * 2000) sdiv int cpack_span - 1000)"

definition crsfToPot :: "u16 \<Rightarrow> int" where
  "crsfToPot v = to_i16 (((uint v - int CPACK_CRSF_MIN) * 1000) sdiv int cpack_span)"

definition crsfToArmPot :: "u16 \<Rightarrow> int \<times> bool" where
  "crsfToArmPot v =
     (let code = ((min (max (unat v) CPACK_CRSF_MIN) CPACK_CRSF_MAX - CPACK_CRSF_MIN) * CPACK_ARM_POT_CODE_MAX +
                  cpack_span div 2) div cpack_span;
          arm = (code \<ge> (CPACK_ARM_POT_CODE_MAX + 1) div 2);
          pot_code = (if arm then (if code > CPACK_ARM_POT_ON_BASE then code - CPACK_ARM_POT_ON_BASE else 0) else code);
          pot_code = min pot_code CPACK_ARM_POT_STEPS
      in (int ((pot_code * 1000 + CPACK_ARM_POT_STEPS div 2) div CPACK_ARM_POT_STEPS), arm))"

definition crsfToEncoder :: "u16 \<Rightarrow> int" where
  "crsfToEncoder v = uint (v AND 0x7FF)"

definition unpackAuxSwitches :: "nat \<Rightarrow> bool list" where
  "unpackAuxSwitches val = False # map (\<lambda>i. bit val (i - 1)) [1..<6] @ [False, False]"

definition unpackButtonToggleState :: "nat \<Rightarrow> bool list \<times> nat list" where
  "unpackButtonToggleState val =
     (let v = min val CPACK_BTN_TOGGLE_FIELD_MAX; button_mask = v mod 16; toggle_state = v div 16
      in (map (\<lambda>i. bit button_mask i) [0..<4], [toggle_state div 3, toggle_state mod 3]))"

definition unpackNavStates :: "nat \<Rightarrow> bool list list" where
  "unpackNavStates val =
     (let v = min val CPACK_NAV_FIELD_MAX in
      map (\<lambda>st. map (\<lambda>i. st = i + 1) [0..<5]) [v div 6, v mod 6])"

definition unpackChannels :: "u16 list \<Rightarrow> ChannelPackInputs" where
  "unpackChannels ch =
     (let (pot0, arm) = crsfToArmPot (ch ! 4);
          (buttons, toggles) = unpackButtonToggleState (crsfToDiscrete (ch ! 9) CPACK_BTN_TOGGLE_FIELD_MAX)
      in \<lparr> cp_gimbal = map (\<lambda>i. crsfToGimbal (ch ! i)) [0..<4],
           cp_pot = [pot0, crsfToPot (ch ! 5)],
           cp_encoder = [crsfToEncoder (ch ! 6), crsfToEncoder (ch ! 7)],
           cp_switches = (unpackAuxSwitches (crsfToDiscrete (ch ! 8) CPACK_SWITCH_FIELD_MAX))[0 := arm],
           cp_buttons = buttons, cp_toggles = toggles,
           cp_nav = unpackNavStates (crsfToDiscrete (ch ! 10) CPACK_NAV_FIELD_MAX) \<rparr>)"

section \<open>A disturbed channel still carries its field\<close>

definition chan_near :: "int \<Rightarrow> u16 \<Rightarrow> u16 \<Rightarrow> bool" where
  "chan_near d a b \<longleftrightarrow> \<bar>uint a - uint b\<bar> \<le> d"

lemma min_max_near:
  fixes c x lo hi :: nat
  assumes "\<bar>int c - int x\<bar> \<le> e" and "lo \<le> x" and "x \<le> hi"
  shows "\<bar>int (min (max c lo) hi) - int x\<bar> \<le> e"
  using assms by (auto simp: min_def max_def)

lemma field_decode:
  fixes q v fm n :: nat
  assumes "fm * q \<le> v * 1601 + fm div 2" and "v * 1601 + fm div 2 < fm * q + fm"
    and "\<bar>int n - int q\<bar> \<le> 5" and "fm \<le> 143"
  shows "(n * fm + 800) div 1601 = v"
proof -
  have n: "n \<le> q + 5" "q \<le> n + 5" using assms(3) by linarith+
  have "n * fm \<le> (q + 5) * fm" "q * fm \<le> (n + 5) * fm" using n by (simp_all only: mult_le_mono1)
  then have "n * fm \<le> fm * q + 5 * fm" "fm * q \<le> n * fm + 5 * fm" by (simp_all add: algebra_simps)
  then have "1601 * v \<le> n * fm + 800" "n * fm + 800 < 1601 * v + 1601" using assms(1,2,4) by linarith+
  then show ?thesis by (intro div_nat_eqI) simp_all
qed

lemma uint_channel: "x \<le> 1601 \<Longrightarrow> uint (of_nat (191 + x) :: u16) = int (191 + x)"
  by (simp only: uint_nat unat_of_nat) simp

lemma discrete_robust:
  assumes "0 < fm" and "fm \<le> 143" and "v \<le> fm" and "chan_near 5 c (discreteToCrsf v fm)"
  shows "crsfToDiscrete c fm = v"
proof -
  define q where "q = (v * 1601 + fm div 2) div fm"
  have q: "fm * q \<le> v * 1601 + fm div 2" "v * 1601 + fm div 2 < fm * q + fm"
    unfolding q_def using dividend_less_times_div [OF assms(1), of "v * 1601 + fm div 2"] by (simp_all add: add.commute)
  have "v * 1601 \<le> fm * 1601" using assms(3) by simp
  moreover have "fm div 2 < fm" using assms(1) by simp
  ultimately have "v * 1601 + fm div 2 < (1601 + 1) * fm" by simp
  then have "q \<le> 1601" using assms(1) unfolding q_def by (metis Suc_eq_plus1 less_Suc_eq_le less_mult_imp_div_less)
  moreover have "discreteToCrsf v fm = of_nat (191 + q)"
    using assms(3) by (simp add: discreteToCrsf_def cpack_consts q_def min_def)
  ultimately have "uint (discreteToCrsf v fm) = int (191 + q)" by (simp only: uint_channel)
  then have "\<bar>int (unat c) - int (191 + q)\<bar> \<le> 5" using assms(4) by (simp add: chan_near_def)
  from min_max_near [OF this, of 191 1792] \<open>q \<le> 1601\<close>
  have "\<bar>int (min (max (unat c) 191) 1792) - int (191 + q)\<bar> \<le> 5" by simp
  then have "\<bar>int (min (max (unat c) 191) 1792 - 191) - int q\<bar> \<le> 5" by (simp add: of_nat_diff)
  then show ?thesis using field_decode [OF q _ assms(2)] by (simp add: crsfToDiscrete_def cpack_consts)
qed

lemma arm_robust:
  assumes "chan_near 400 c (armPotToCrsf pot arm)"
  shows "snd (crsfToArmPot c) = arm"
proof -
  define k where "k = (nat (clampI16 pot 0 1000) * 511 + 500) div 1000"
  define x where "x = ((if arm then 1536 + k else k) * 1601 + 1023) div 2047"
  have k: "k \<le> 511" unfolding k_def by (auto simp: clampI16_def)
  have x: "x \<le> 1601" "arm \<Longrightarrow> 1201 \<le> x" "\<not> arm \<Longrightarrow> x \<le> 400" using k by (auto simp: x_def)
  have "armPotToCrsf pot arm = of_nat (191 + x)"
    by (simp add: armPotToCrsf_def cpack_consts x_def k_def Let_def)
  then have "uint (armPotToCrsf pot arm) = int (191 + x)" using x(1) by (simp only: uint_channel)
  then have near: "\<bar>int (unat c) - int (191 + x)\<bar> \<le> 400" using assms by (simp add: chan_near_def)
  define u where "u = unat c"
  define n where "n = min (max u 191) 1792 - 191"
  have "arm \<Longrightarrow> 801 \<le> n" "\<not> arm \<Longrightarrow> n \<le> 800"
    using near [folded u_def] x by (auto simp: n_def min_def max_def)
  then have "(1024 * 1601 \<le> n * 2047 + 800) = arm" by (cases arm) auto
  then have "(1024 \<le> (n * 2047 + 800) div 1601) = arm" by (simp only: less_eq_div_iff_mult_less_eq zero_less_numeral)
  moreover have "snd (crsfToArmPot c) = (1024 \<le> (n * 2047 + 800) div 1601)"
    unfolding crsfToArmPot_def cpack_consts Let_def n_def u_def by (simp only: snd_conv) simp
  ultimately show ?thesis by simp
qed

lemma bit_bits_value: "bit (bits_value bs) i \<longleftrightarrow> i < length bs \<and> bs ! i"
proof (induction bs arbitrary: i)
  case (Cons b bs)
  then show ?case by (cases i) (auto simp: bit_Suc bit_0)
qed simp

lemma bits_value_less: "bits_value bs < 2 ^ length bs"
  by (induction bs) auto

lemma aux_switches_roundtrip:
  assumes "length sw = 8" and "\<not> sw ! 6" and "\<not> sw ! 7"
  shows "unpackAuxSwitches (packAuxSwitches sw) = sw[0 := False]"
proof -
  have b: "bit (packAuxSwitches sw) i \<longleftrightarrow> i < 5 \<and> sw ! (i + 1)" for i
    unfolding packAuxSwitches_def bit_bits_value
    by (cases "i < 5") (simp_all only: length_map length_upt nth_map nth_upt, simp_all add: add.commute)
  have "map (\<lambda>i. bit (packAuxSwitches sw) (i - 1)) [1..<6] = map ((!) sw) [1..<6]"
  proof (rule map_cong [OF refl])
    fix i :: nat
    assume "i \<in> set [1..<6]"
    then have "1 \<le> i" "i < 6" unfolding set_upt atLeastLessThan_iff by blast+
    then have "i - 1 < 5" "i - 1 + 1 = i" by linarith+
    then show "bit (packAuxSwitches sw) (i - 1) = sw ! i" by (simp only: b simp_thms)
  qed
  moreover have "[0..<8] = 0 # [1..<6] @ [6, 7]" by code_simp
  then have "map ((!) sw) [0..<8] = sw ! 0 # map ((!) sw) [1..<6] @ [sw ! 6, sw ! 7]" by (simp only: list.map map_append)
  then have "sw = sw ! 0 # map ((!) sw) [1..<6] @ [False, False]" using map_nth [of sw] assms by simp
  ultimately show ?thesis unfolding unpackAuxSwitches_def by (metis list_update_code(2))
qed

lemma button_toggle_bound:
  "tog ! 0 \<le> 2 \<Longrightarrow> tog ! 1 \<le> 2 \<Longrightarrow> packButtonToggleState btn tog \<le> 143"
  using bits_value_less [of "map (\<lambda>i. btn ! i) [0..<4]"] by (simp add: packButtonToggleState_def)

lemma button_toggle_roundtrip:
  assumes "length btn = 4" and "length tog = 2" and "tog ! 0 \<le> 2" and "tog ! 1 \<le> 2"
  shows "unpackButtonToggleState (packButtonToggleState btn tog) = (btn, tog)"
proof -
  define k where "k = bits_value (map (\<lambda>i. btn ! i) [0..<4])"
  have k: "k < 16" using bits_value_less [of "map (\<lambda>i. btn ! i) [0..<4]"] by (simp add: k_def)
  have p: "packButtonToggleState btn tog = (tog ! 0 * 3 + tog ! 1) * 16 + k"
    using assms(3,4) by (simp add: packButtonToggleState_def k_def)
  have "min (packButtonToggleState btn tog) 143 = (tog ! 0 * 3 + tog ! 1) * 16 + k"
    using button_toggle_bound [OF assms(3,4), of btn] p by simp
  moreover have "map (bit k) [0..<4] = btn"
    using assms(1) by (auto simp: k_def bit_bits_value list_eq_iff_nth_eq)
  moreover have "[tog ! 0, tog ! 1] = tog"
    using assms(2) by (auto simp: list_eq_iff_nth_eq less_Suc_eq numeral_eq_Suc)
  moreover have "(y * 16 + k) mod 16 = k" "(y * 16 + k) div 16 = y" for y using k by simp_all
  moreover have "(tog ! 0 * 3 + tog ! 1) div 3 = tog ! 0" "(tog ! 0 * 3 + tog ! 1) mod 3 = tog ! 1"
    using assms(4) by simp_all
  ultimately show ?thesis by (simp only: unpackButtonToggleState_def cpack_consts Let_def)
qed

definition nav_single :: "bool list \<Rightarrow> bool" where
  "nav_single nav \<longleftrightarrow> length nav = 5 \<and> list_all (\<lambda>i. list_all (\<lambda>j. nav ! i \<longrightarrow> nav ! j \<longrightarrow> i = j) [0..<5]) [0..<5]"

lemma nav_singleD: "nav_single nav \<Longrightarrow> nav ! i \<Longrightarrow> nav ! j \<Longrightarrow> i < 5 \<Longrightarrow> j < 5 \<Longrightarrow> i = j"
  by (auto simp: nav_single_def list_all_iff)

lemma nav_state_roundtrip:
  assumes "nav_single nav"
  shows "map (\<lambda>i. packNavState nav = i + 1) [0..<5] = nav" and "packNavState nav \<le> 5"
proof -
  have f: "find (\<lambda>i. nav ! i) [0..<5] = Some i \<Longrightarrow> i < 5 \<and> nav ! i" for i
    by (auto simp: find_Some_iff)
  show "packNavState nav \<le> 5" using f by (auto simp: packNavState_def split: option.split)
  show "map (\<lambda>i. packNavState nav = i + 1) [0..<5] = nav"
  proof (cases "find (\<lambda>i. nav ! i) [0..<5]")
    case None
    then have "\<forall>i < 5. \<not> nav ! i" by (auto simp: find_None_iff)
    then show ?thesis using assms None by (auto simp: packNavState_def nav_single_def list_eq_iff_nth_eq)
  next
    case (Some i)
    then have "map (\<lambda>j. packNavState nav = j + 1) [0..<5] ! j = nav ! j" if "j < 5" for j
      using that f [OF Some] nav_singleD [OF assms, of i j] by (auto simp: packNavState_def simp del: upt_Suc)
    moreover have "length nav = 5" using assms by (simp add: nav_single_def)
    ultimately show ?thesis by (intro nth_equalityI) (simp_all del: upt_Suc)
  qed
qed

lemma nav_states_roundtrip:
  assumes "length nav = 2" and "nav_single (nav ! 0)" and "nav_single (nav ! 1)"
  shows "unpackNavStates (packNavStates nav) = nav" and "packNavStates nav \<le> 35"
proof -
  note n0 = nav_state_roundtrip [OF assms(2)] and n1 = nav_state_roundtrip [OF assms(3)]
  show le: "packNavStates nav \<le> 35" using n0(2) n1(2) by (simp add: packNavStates_def)
  have "packNavStates nav div 6 = packNavState (nav ! 0)" "packNavStates nav mod 6 = packNavState (nav ! 1)"
    using n1(2) by (simp_all add: packNavStates_def)
  moreover have "[nav ! 0, nav ! 1] = nav"
    using assms(1) by (auto simp: list_eq_iff_nth_eq less_Suc_eq numeral_eq_Suc)
  ultimately show "unpackNavStates (packNavStates nav) = nav"
    using le n0(1) n1(1) by (simp add: unpackNavStates_def cpack_consts Let_def del: upt_Suc)
qed

lemma sdiv_nonneg: "0 \<le> a \<Longrightarrow> 0 < b \<Longrightarrow> a sdiv b = a div b" for a b :: int
  by (auto simp: signed_divide_int_def sgn_if)

lemma smod_nonneg: "0 \<le> a \<Longrightarrow> 0 < b \<Longrightarrow> a smod b = a mod b" for a b :: int
  using smod_int_alt_def [of a b] by (cases "a = 0") (simp_all add: sgn_if)

lemma gimbal_near:
  assumes "- 1000 \<le> g" and "g \<le> 1000"
  shows "crsfToGimbal (gimbalToCrsf g) \<le> g" and "g - 2 \<le> crsfToGimbal (gimbalToCrsf g)"
proof -
  define q where "q = ((g + 1000) * 1601) div 2000"
  have q: "0 \<le> q" "q \<le> 1601" using assms by (auto simp: q_def)
  have "gimbalToCrsf g = word_of_int (q + 191)"
    using assms by (simp add: gimbalToCrsf_def cpack_consts clampI16_def sdiv_nonneg q_def)
  then have "uint (gimbalToCrsf g) = q + 191" using q by (simp only: uint_word_of_int_eq, intro take_bit_int_eq_self) simp_all
  then have d: "crsfToGimbal (gimbalToCrsf g) = to_i16 ((q * 2000) div 1601 - 1000)"
    using q by (simp add: crsfToGimbal_def cpack_consts sdiv_nonneg)
  define r where "r = (q * 2000) div 1601"
  have "2000 * q \<le> (g + 1000) * 1601" "(g + 1000) * 1601 < 2000 * q + 2000" unfolding q_def by linarith+
  moreover have "1601 * r \<le> q * 2000" "q * 2000 < 1601 * r + 1601" unfolding r_def by linarith+
  ultimately have "1601 * r \<le> 1601 * (g + 1000)" "1601 * (g + 998) < 1601 * (r + 1)" by (simp_all add: algebra_simps)
  then have "r \<le> g + 1000" "g + 998 \<le> r" by simp_all
  then show "crsfToGimbal (gimbalToCrsf g) \<le> g" "g - 2 \<le> crsfToGimbal (gimbalToCrsf g)"
    unfolding d r_def [symmetric] using assms by (subst signed_take_bit_int_eq_self; simp)+
qed

lemma encoder_wraps: "crsfToEncoder (encoderToCrsf pos) = pos mod 2048"
proof -
  have "(pos smod 2048 + 2048) smod 2048 = pos mod 2048"
  proof -
    have "\<bar>pos smod 2048\<bar> < 2048"
      by (simp add: signed_modulo_int_def signed_divide_int_def sgn_if minus_div_mult_eq_mod [symmetric]) linarith
    then have "(pos smod 2048 + 2048) smod 2048 = (pos smod 2048 + 2048) mod 2048" by (intro smod_nonneg) auto
    also have "\<dots> = (pos smod 2048) mod 2048" by simp
    also have "\<dots> = pos mod 2048"
      using smod_int_alt_def [of pos 2048] by (cases "0 \<le> pos") (auto simp: sgn_if mod_minus_eq)
    finally show ?thesis .
  qed
  then have "crsfToEncoder (encoderToCrsf pos) = pos mod 2048 AND 2047"
    by (simp add: crsfToEncoder_def encoderToCrsf_def uint_and uint_word_of_int_eq take_bit_eq_mod)
  also have "(2047 :: int) = mask 11" by (simp add: mask_eq_exp_minus_1)
  also have "pos mod 2048 AND mask 11 = pos mod 2048" by (simp flip: take_bit_eq_mask) (simp add: take_bit_eq_mod)
  finally show ?thesis .
qed

definition inputs_ok :: "ChannelPackInputs \<Rightarrow> bool" where
  "inputs_ok inp \<longleftrightarrow>
     length (cp_switches inp) = 8 \<and> \<not> cp_switches inp ! 6 \<and> \<not> cp_switches inp ! 7 \<and>
     length (cp_buttons inp) = 4 \<and> length (cp_toggles inp) = 2 \<and> cp_toggles inp ! 0 \<le> 2 \<and> cp_toggles inp ! 1 \<le> 2 \<and>
     length (cp_nav inp) = 2 \<and> nav_single (cp_nav inp ! 0) \<and> nav_single (cp_nav inp ! 1)"

lemma packInputs_channels:
  "i < 4 \<Longrightarrow> packInputs inp ! i = gimbalToCrsf (cp_gimbal inp ! i)"
  "packInputs inp ! 4 = armPotToCrsf (cp_pot inp ! 0) (cp_switches inp ! 0)"
  "packInputs inp ! 6 = encoderToCrsf (cp_encoder inp ! 0)"
  "packInputs inp ! 7 = encoderToCrsf (cp_encoder inp ! 1)"
  "packInputs inp ! 8 = discreteToCrsf (take_bit 5 (packAuxSwitches (cp_switches inp))) 31"
  "packInputs inp ! 9 = discreteToCrsf (packButtonToggleState (cp_buttons inp) (cp_toggles inp)) 143"
  "packInputs inp ! 10 = discreteToCrsf (packNavStates (cp_nav inp)) 35"
  by (simp_all add: packInputs_def nth_append cpack_consts)

text \<open>
  The packed radio link. For inputs a controller can produce, the switches, buttons, toggles and
  navigation clusters decode to exactly what was pressed even when each discrete channel arrives up
  to 5 counts off and the channel that carries the arm switch up to 400 counts off; the sticks that
  arrive undisturbed decode to within 2 of the sent value, never above it, and the encoders to their
  position modulo 2048.
\<close>

theorem channel_pack_robust:
  assumes "inputs_ok inp"
    and "\<forall>i \<in> {8, 9, 10}. chan_near 5 (ch ! i) (packInputs inp ! i)"
    and "chan_near 400 (ch ! 4) (packInputs inp ! 4)"
  shows "cp_switches (unpackChannels ch) = cp_switches inp \<and> cp_buttons (unpackChannels ch) = cp_buttons inp \<and>
    cp_toggles (unpackChannels ch) = cp_toggles inp \<and> cp_nav (unpackChannels ch) = cp_nav inp \<and>
    (\<forall>i < 4. ch ! i = packInputs inp ! i \<and> \<bar>cp_gimbal inp ! i\<bar> \<le> 1000 \<longrightarrow>
       cp_gimbal inp ! i - 2 \<le> cp_gimbal (unpackChannels ch) ! i \<and>
       cp_gimbal (unpackChannels ch) ! i \<le> cp_gimbal inp ! i) \<and>
    (\<forall>i < 2. ch ! (6 + i) = packInputs inp ! (6 + i) \<longrightarrow>
       cp_encoder (unpackChannels ch) ! i = cp_encoder inp ! i mod 2048)"
proof -
  have sw: "crsfToDiscrete (ch ! 8) 31 = packAuxSwitches (cp_switches inp)"
  proof (rule discrete_robust)
    have "packAuxSwitches (cp_switches inp) < 2 ^ 5"
      using bits_value_less [of "map (\<lambda>i. cp_switches inp ! i) [1..<6]"] by (simp add: packAuxSwitches_def)
    then show "packAuxSwitches (cp_switches inp) \<le> 31"
      and "chan_near 5 (ch ! 8) (discreteToCrsf (packAuxSwitches (cp_switches inp)) 31)"
      using assms(2) by (simp_all add: packInputs_channels take_bit_nat_eq_self)
  qed simp_all
  have bt: "crsfToDiscrete (ch ! 9) 143 = packButtonToggleState (cp_buttons inp) (cp_toggles inp)"
    using assms(1,2) by (intro discrete_robust button_toggle_bound)
      (simp_all add: inputs_ok_def packInputs_channels)
  have nav: "crsfToDiscrete (ch ! 10) 35 = packNavStates (cp_nav inp)"
    using assms(1,2) by (intro discrete_robust nav_states_roundtrip(2))
      (simp_all add: inputs_ok_def packInputs_channels)
  have arm: "snd (crsfToArmPot (ch ! 4)) = cp_switches inp ! 0"
    using assms(3) by (intro arm_robust) (simp add: packInputs_channels)
  have "cp_switches (unpackChannels ch) = cp_switches inp"
    using sw arm [symmetric] assms(1) list_update_id [of "cp_switches inp" 0]
    by (simp add: unpackChannels_def Let_def CPACK_SWITCH_FIELD_MAX_def inputs_ok_def aux_switches_roundtrip case_prod_beta)
  moreover have "cp_buttons (unpackChannels ch) = cp_buttons inp \<and> cp_toggles (unpackChannels ch) = cp_toggles inp"
    using bt assms(1)
    by (simp add: unpackChannels_def Let_def CPACK_BTN_TOGGLE_FIELD_MAX_def inputs_ok_def button_toggle_roundtrip split: prod.split)
  moreover have "cp_nav (unpackChannels ch) = cp_nav inp"
    using nav assms(1)
    by (simp add: unpackChannels_def Let_def CPACK_NAV_FIELD_MAX_def inputs_ok_def nav_states_roundtrip split: prod.split)
  moreover have "cp_gimbal (unpackChannels ch) = map (\<lambda>i. crsfToGimbal (ch ! i)) [0..<4]"
    "cp_encoder (unpackChannels ch) = [crsfToEncoder (ch ! 6), crsfToEncoder (ch ! 7)]"
    by (simp_all add: unpackChannels_def Let_def split: prod.split)
  ultimately show ?thesis using gimbal_near encoder_wraps
    by (auto simp: abs_le_iff less_Suc_eq numeral_2_eq_2 packInputs_channels [simplified numeral_2_eq_2])
qed

definition cpack_sample :: ChannelPackInputs where
  "cpack_sample = \<lparr> cp_gimbal = [-1000, 17, 0, 999], cp_pot = [500, 1000], cp_encoder = [-3, 5000],
     cp_switches = [True, False, True, False, False, True, False, False], cp_buttons = [True, False, True, True],
     cp_toggles = [2, 1], cp_nav = [[False, False, False, True, False], [False, False, False, False, False]] \<rparr>"

theorem channel_pack_robust_witness:
  "cp_switches (unpackChannels ((packInputs cpack_sample)[4 := 1200, 9 := packInputs cpack_sample ! 9 + 5])) =
     cp_switches cpack_sample \<and>
   cp_buttons (unpackChannels ((packInputs cpack_sample)[4 := 1200, 9 := packInputs cpack_sample ! 9 + 5])) =
     cp_buttons cpack_sample"
proof -
  have ok: "inputs_ok cpack_sample" by code_simp
  have near: "\<forall>i \<in> {8, 9, 10}. chan_near 5
      ((packInputs cpack_sample)[4 := 1200, 9 := packInputs cpack_sample ! 9 + 5] ! i) (packInputs cpack_sample ! i)"
    by (simp add: packInputs_channels) (simp add: packInputs_def chan_near_def discreteToCrsf_def cpack_consts
      packButtonToggleState_def cpack_sample_def upt_rec)
  have arm: "chan_near 400 ((packInputs cpack_sample)[4 := 1200, 9 := packInputs cpack_sample ! 9 + 5] ! 4)
      (packInputs cpack_sample ! 4)"
    by (simp add: packInputs_channels(2)) (simp add: packInputs_def armPotToCrsf_def cpack_consts clampI16_def
      cpack_sample_def Let_def chan_near_def)
  from channel_pack_robust [OF ok near arm] show ?thesis by blast
qed

end
