(* ===== verification/RcConditioner.thy ===== *)
theory RcConditioner
  imports ConfigSchema FloatRange
begin

text \<open>
  Conditioning of the logical remote-control inputs (\<open>input/rc_input_conditioner.h\<close>,
  \<open>input/rc_input_conditioner.cpp\<close>): one exponential filter per analog source with an optional
  median of three in front of it, dead band and expo curves, and the debouncer of the
  three-position switches. \<open>expf\<close> is part of the parameter \<open>libm\<close>.
\<close>

datatype InputFilterMode = FilterEma | FilterMedian3Ema | FilterNoneDiagnostic

record ChannelState =
  cs_output :: f32
  cs_median :: "f32 list"
  cs_median_count :: nat
  cs_median_next :: nat
  cs_initialized :: bool

definition ChannelState_default :: ChannelState where
  "ChannelState_default = \<lparr> cs_output = Fin 0, cs_median = [Fin 0, Fin 0, Fin 0], cs_median_count = 0,
     cs_median_next = 0, cs_initialized = False \<rparr>"

record RcInputConditioner =
  rcc_calibration :: "RcChannelCalibration list"
  rcc_channels :: "ChannelState list"
  rcc_mode :: InputFilterMode

definition kX255Scale :: f32 where "kX255Scale = f_div (f_lit 1) (f_lit 255)"

definition rcc_reset :: "RcInputConditioner \<Rightarrow> RcInputConditioner" where
  "rcc_reset s = s \<lparr> rcc_channels := replicate kNumRcAnalogInputs ChannelState_default \<rparr>"

definition rcc_configure :: "RcChannelCalibration list \<Rightarrow> RcInputConditioner \<Rightarrow> RcInputConditioner" where
  "rcc_configure cal s =
     (if \<not> validateRcInputCalibration cal then s else rcc_reset (s \<lparr> rcc_calibration := cal \<rparr>))"

definition rcc_seed_median :: "ChannelState \<Rightarrow> ChannelState" where
  "rcc_seed_median st = st \<lparr> cs_median := replicate 3 (cs_output st),
     cs_median_count := (if cs_initialized st then 3 else 0), cs_median_next := 0 \<rparr>"

definition rcc_setMode :: "InputFilterMode \<Rightarrow> bool \<Rightarrow> RcInputConditioner \<Rightarrow> bool \<times> RcInputConditioner" where
  "rcc_setMode m diagnostic_allowed s =
     (if m = FilterNoneDiagnostic \<and> \<not> diagnostic_allowed then (False, s)
      else if m = rcc_mode s then (True, s)
      else (True, s \<lparr> rcc_mode := m, rcc_channels := map rcc_seed_median (rcc_channels s) \<rparr>))"

definition rcc_find :: "RcInputConditioner \<Rightarrow> u8 \<Rightarrow> RcChannelCalibration option" where
  "rcc_find s source = find (\<lambda>c. rc_source c = source) (rcc_calibration s)"

definition median3 :: "f32 \<Rightarrow> f32 \<Rightarrow> f32 \<Rightarrow> f32" where
  "median3 a b c =
     (let (a, b) = (if f_lt b a then (b, a) else (a, b));
          (b, c) = (if f_lt c b then (c, b) else (b, c))
      in if f_lt b a then a else b)"

definition medianInput :: "f32 \<Rightarrow> ChannelState \<Rightarrow> f32 \<times> ChannelState" where
  "medianInput inp st =
     (let med = (cs_median st)[cs_median_next st := inp];
          st = st \<lparr> cs_median := med, cs_median_next := (cs_median_next st + 1) mod 3,
                    cs_median_count := (if cs_median_count st < 3 then cs_median_count st + 1 else cs_median_count st) \<rparr>
      in (median3 (med ! 0) (med ! 1) (med ! 2), st))"

text \<open>The filter of one channel: the value returned and the new state of the channel.\<close>

definition channel_update ::
  "libm \<Rightarrow> InputFilterMode \<Rightarrow> RcChannelCalibration \<Rightarrow> f32 \<Rightarrow> u32 \<Rightarrow> ChannelState \<Rightarrow> f32 \<times> ChannelState" where
  "channel_update m mode channel inp dt_ms st =
     (let centered = (rc_type channel = 0); low = (if centered then f_lit (- 1) else f_lit 0);
          inp = f_clamp inp low (f_lit 1) in
      if \<not> cs_initialized st then
        (inp, st \<lparr> cs_output := inp, cs_median := replicate 3 inp, cs_median_count := 3, cs_initialized := True \<rparr>)
      else if rc_type channel = 2 then (inp, st \<lparr> cs_output := inp \<rparr>)
      else if mode = FilterNoneDiagnostic then (inp, st \<lparr> cs_output := inp \<rparr>)
      else
        let (filtered, st) = (if mode = FilterMedian3Ema then medianInput inp st else (inp, st)) in
        if filter_tau_ms channel = 0 then (filtered, st \<lparr> cs_output := filtered \<rparr>)
        else if dt_ms = 0 then (cs_output st, st)
        else
          let tau_ms = f_of_int (uint (filter_tau_ms channel));
              alpha = f_sub (f_lit 1) (lm_expf m (f_div (f_neg (f_of_int (uint dt_ms))) tau_ms));
              out = f_add (cs_output st) (f_mul (f_sub filtered (cs_output st)) (f_clamp alpha (f_lit 0) (f_lit 1)))
          in (f_clamp out low (f_lit 1), st \<lparr> cs_output := out \<rparr>))"

definition rcc_update :: "libm \<Rightarrow> u8 \<Rightarrow> f32 \<Rightarrow> u32 \<Rightarrow> RcInputConditioner \<Rightarrow> f32 \<times> RcInputConditioner" where
  "rcc_update m source inp dt_ms s =
     (if source = 0 \<or> unat source > kNumRcAnalogInputs then (Fin 0, s)
      else case rcc_find s source of
        None \<Rightarrow> (Fin 0, s)
      | Some channel \<Rightarrow>
          let index = unat (source - 1); (v, st) = channel_update m (rcc_mode s) channel inp dt_ms (rcc_channels s ! index)
          in (v, s \<lparr> rcc_channels := (rcc_channels s)[index := st] \<rparr>))"

definition rcc_isCentered :: "RcInputConditioner \<Rightarrow> u8 \<Rightarrow> bool" where
  "rcc_isCentered s source = (case rcc_find s source of None \<Rightarrow> False | Some c \<Rightarrow> rc_type c = 0)"

definition rcc_deadband :: "RcInputConditioner \<Rightarrow> u8 \<Rightarrow> f32" where
  "rcc_deadband s source = (case rcc_find s source of None \<Rightarrow> Fin 0
     | Some c \<Rightarrow> f_mul (f_of_int (uint (deadband_x255 c))) kX255Scale)"

definition rcc_expo :: "RcInputConditioner \<Rightarrow> u8 \<Rightarrow> f32" where
  "rcc_expo s source = (case rcc_find s source of None \<Rightarrow> Fin 0
     | Some c \<Rightarrow> f_mul (f_of_int (uint (expo_x255 c))) kX255Scale)"

definition applyDeadband :: "f32 \<Rightarrow> f32 \<Rightarrow> f32" where
  "applyDeadband v db =
     (let db = f_clamp db (f_lit 0) (f_lit (999 / 1000));
          magnitude = (if f_lt v (Fin 0) then f_neg v else v) in
      if f_le magnitude db then Fin 0
      else let scaled = f_div (f_sub magnitude db) (f_sub (f_lit 1) db)
           in if f_lt v (Fin 0) then f_neg scaled else scaled)"

definition applyExpo :: "f32 \<Rightarrow> f32 \<Rightarrow> f32" where
  "applyExpo v ex =
     (let ex = f_clamp ex (f_lit 0) (f_lit 1)
      in f_add (f_mul (f_sub (f_lit 1) ex) v) (f_mul (f_mul (f_mul ex v) v) v))"

record RcTriSwitchDebouncer =
  td_stable :: nat
  td_candidate :: nat
  td_candidate_since_ms :: u32
  td_initialized :: bool

definition td_reset :: "RcTriSwitchDebouncer \<Rightarrow> RcTriSwitchDebouncer" where
  "td_reset d = d \<lparr> td_initialized := False \<rparr>"

definition td_update :: "nat \<Rightarrow> u32 \<Rightarrow> u16 \<Rightarrow> RcTriSwitchDebouncer \<Rightarrow> nat \<times> RcTriSwitchDebouncer" where
  "td_update raw now_ms debounce_ms d =
     (let raw = (if raw > 2 then 1 else raw) in
      if \<not> td_initialized d then
        (raw, d \<lparr> td_stable := raw, td_candidate := raw, td_candidate_since_ms := now_ms, td_initialized := True \<rparr>)
      else
        let d = (if raw \<noteq> td_candidate d then d \<lparr> td_candidate := raw, td_candidate_since_ms := now_ms \<rparr> else d);
            d = (if td_candidate d \<noteq> td_stable d \<and> now_ms - td_candidate_since_ms d \<ge> ucast debounce_ms
                 then d \<lparr> td_stable := td_candidate d \<rparr> else d)
        in (td_stable d, d))"

section \<open>Conditioned values stay in range\<close>

definition range_low :: "RcChannelCalibration option \<Rightarrow> rat" where
  "range_low c = (case c of Some c \<Rightarrow> if rc_type c = 0 then - 1 else 0 | None \<Rightarrow> 0)"

lemma range_low_cases: "range_low c = - 1 \<or> range_low c = 0"
  by (simp add: range_low_def split: option.split)

definition chan_ok :: "rat \<Rightarrow> ChannelState \<Rightarrow> bool" where
  "chan_ok lo st \<longleftrightarrow> f_unit lo (cs_output st) \<and> length (cs_median st) = 3 \<and> list_all (f_unit lo) (cs_median st)"

lemma median3_cases: "median3 a b c = a \<or> median3 a b c = b \<or> median3 a b c = c"
  by (simp add: median3_def Let_def)

lemma medianInput_ok:
  assumes "chan_ok lo st" and "f_unit lo inp" and "medianInput inp st = (v, st')"
  shows "f_unit lo v" and "chan_ok lo st'" and "cs_output st' = cs_output st"
proof -
  define med where "med = (cs_median st)[cs_median_next st := inp]"
  have m: "length med = 3" "list_all (f_unit lo) med"
    using assms(1,2) by (auto simp: med_def chan_ok_def list_all_iff dest: set_update_subset_insert [THEN subsetD])
  then have "f_unit lo (med ! 0)" "f_unit lo (med ! 1)" "f_unit lo (med ! 2)" by (simp_all add: list_all_length)
  then have "f_unit lo (median3 (med ! 0) (med ! 1) (med ! 2))" using median3_cases by metis
  then show "f_unit lo v" "chan_ok lo st'" "cs_output st' = cs_output st"
    using assms m by (auto simp: medianInput_def Let_def med_def chan_ok_def)
qed

definition libm_exp_ok :: "libm \<Rightarrow> bool" where
  "libm_exp_ok m \<longleftrightarrow> (\<forall>x. x \<noteq> NaN \<longrightarrow> lm_expf m x \<noteq> NaN)"

lemma alpha_in:
  assumes "libm_exp_ok m" and "x \<noteq> NaN"
  shows "f_in 0 1 (f_clamp (f_sub (f_lit 1) (lm_expf m x)) (f_lit 0) (f_lit 1))"
proof -
  have "lm_expf m x \<noteq> NaN" using assms by (simp add: libm_exp_ok_def)
  then have "f_sub (f_lit 1) (lm_expf m x) \<noteq> NaN" by (cases "lm_expf m x") (simp_all add: f_sub_def)
  then show ?thesis by (simp add: f_clamp_in)
qed

lemma quotient_not_NaN: "0 < n \<Longrightarrow> n < 2 ^ 16 \<Longrightarrow> f_div (f_neg (f_of_int k)) (f_of_int n) \<noteq> NaN"
  using f_of_int_not_NaN(1) [of k] by (cases "f_of_int k") (simp_all add: f_of_int_exact)

lemma exponent_not_NaN:
  assumes "t \<noteq> (0 :: u16)"
  shows "f_div (f_neg (f_of_int k)) (f_of_int (uint t)) \<noteq> NaN"
  using uint_lt2p [of t] assms by (intro quotient_not_NaN) (simp_all add: word_gt_0_no uint_0_iff order_less_le)

lemma channel_update_ok:
  assumes "libm_exp_ok m" and "chan_ok lo st" and "inp \<noteq> NaN" "f_rep inp" and "lo = range_low (Some channel)"
    and "channel_update m mode channel inp dt st = (v, st')"
  shows "f_unit lo v \<and> chan_ok lo st'"
proof -
  define low where "low = (if rc_type channel = 0 then f_lit (- 1) else f_lit 0)"
  have low: "low = Fin lo" by (simp add: low_def assms(5) range_low_def)
  have lo: "lo = - 1 \<or> lo = 0" unfolding assms(5) by (rule range_low_cases)
  define x where "x = f_clamp inp low (f_lit 1)"
  have x: "f_unit lo x" unfolding x_def low f_lit_unit by (rule f_clamp_unit [OF assms(3,4) lo])
  define step where "step = (\<lambda>(y, st :: ChannelState).
    if filter_tau_ms channel = 0 then (y, st \<lparr> cs_output := y \<rparr>)
    else if dt = 0 then (cs_output st, st)
    else let out = f_add (cs_output st) (f_mul (f_sub y (cs_output st)) (f_clamp (f_sub (f_lit 1)
           (lm_expf m (f_div (f_neg (f_of_int (uint dt))) (f_of_int (uint (filter_tau_ms channel)))))) (f_lit 0) (f_lit 1)))
         in (f_clamp out low (f_lit 1), st \<lparr> cs_output := out \<rparr>))"
  have step: "f_unit lo (fst (step (y, s))) \<and> chan_ok lo (snd (step (y, s)))" if "f_unit lo y" "chan_ok lo s" for y s
  proof -
    have "f_unit lo (f_clamp z low (f_lit 1))" if "f_unit lo z" for z
      using that f_clamp_id [of lo 1 z] unfolding low f_lit_unit f_unit_def by simp
    moreover have "filter_tau_ms channel \<noteq> 0 \<Longrightarrow> f_unit lo (f_add (cs_output s) (f_mul (f_sub y (cs_output s))
        (f_clamp (f_sub (f_lit 1) (lm_expf m (f_div (f_neg (f_of_int (uint dt)))
          (f_of_int (uint (filter_tau_ms channel)))))) (f_lit 0) (f_lit 1))))"
      using that by (intro filter_step lo alpha_in assms(1) exponent_not_NaN) (simp_all add: chan_ok_def)
    ultimately show ?thesis using that unfolding step_def Let_def by (auto simp: chan_ok_def)
  qed
  define P where "P = (\<lambda>z. f_unit lo (fst z) \<and> chan_ok lo (snd z))"
  have eq: "channel_update m mode channel inp dt st =
      (if \<not> cs_initialized st then (x, st \<lparr> cs_output := x, cs_median := replicate 3 x, cs_median_count := 3, cs_initialized := True \<rparr>)
       else if rc_type channel = 2 \<or> mode = FilterNoneDiagnostic then (x, st \<lparr> cs_output := x \<rparr>)
       else step (if mode = FilterMedian3Ema then medianInput x st else (x, st)))"
    unfolding channel_update_def Let_def step_def x_def low_def by (simp add: case_prod_beta)
  have init: "P (x, st \<lparr> cs_output := x, cs_median := replicate 3 x, cs_median_count := 3, cs_initialized := True \<rparr>)"
    "P (x, st \<lparr> cs_output := x \<rparr>)"
    using x assms(2) by (simp_all add: P_def chan_ok_def list_all_iff)
  obtain y s where ys: "medianInput x st = (y, s)" by (rule prod.exhaust)
  have "P (step (if mode = FilterMedian3Ema then medianInput x st else (x, st)))"
    using step [OF medianInput_ok(1,2) [OF assms(2) x ys]] step [OF x assms(2)] by (simp add: P_def ys)
  with init have "P (channel_update m mode channel inp dt st)" unfolding eq by (simp only: if_split simp_thms)
  then show ?thesis using assms(6) by (simp add: P_def)
qed

definition cond_ok :: "RcInputConditioner \<Rightarrow> bool" where
  "cond_ok s \<longleftrightarrow> length (rcc_channels s) = kNumRcAnalogInputs \<and>
     (\<forall>i < kNumRcAnalogInputs. chan_ok (range_low (rcc_find s (of_nat (i + 1)))) (rcc_channels s ! i))"

lemma chan_ok_default: "lo = - 1 \<or> lo = 0 \<Longrightarrow> chan_ok lo ChannelState_default"
  by (auto simp: chan_ok_def ChannelState_default_def f_unit_def f_rep_def)

lemma rcc_reset_ok [simp]: "cond_ok (rcc_reset s)"
  by (auto simp: cond_ok_def rcc_reset_def intro!: chan_ok_default range_low_cases)

lemma rcc_configure_ok: "cond_ok s \<Longrightarrow> cond_ok (rcc_configure cal s)"
  by (simp add: rcc_configure_def)

lemma rcc_find_channels [simp]:
  "rcc_find (s \<lparr> rcc_channels := x \<rparr>) src = rcc_find s src" "rcc_find (s \<lparr> rcc_mode := m \<rparr>) src = rcc_find s src"
  by (simp_all add: rcc_find_def)

lemma rcc_setMode_ok: "cond_ok s \<Longrightarrow> cond_ok (snd (rcc_setMode m allowed s))"
  by (auto simp: cond_ok_def rcc_setMode_def rcc_seed_median_def chan_ok_def list_all_iff)

lemma source_index:
  assumes "source \<noteq> 0" and "unat source \<le> kNumRcAnalogInputs"
  shows "unat (source - 1 :: u8) < kNumRcAnalogInputs" and "of_nat (unat (source - 1) + 1) = source"
proof -
  have u: "unat (source - 1) + 1 = unat source" using assms(1) by (simp add: unat_minus_one unat_gt_0)
  show "unat (source - 1) < kNumRcAnalogInputs" using u assms(2) by simp
  show "of_nat (unat (source - 1) + 1) = source" unfolding u by simp
qed

lemma rcc_update_ok:
  assumes "libm_exp_ok m" and "cond_ok s" and "inp \<noteq> NaN" "f_rep inp" and "rcc_update m source inp dt s = (v, s')"
  shows "cond_ok s' \<and> f_unit (range_low (rcc_find s source)) v \<and> rcc_calibration s' = rcc_calibration s \<and> rcc_mode s' = rcc_mode s"
proof (cases "source = 0 \<or> unat source > kNumRcAnalogInputs \<or> rcc_find s source = None")
  case True
  then have "v = Fin 0" "s' = s" using assms(5) by (auto simp: rcc_update_def split: if_splits)
  then show ?thesis using assms(2) range_low_cases [of "rcc_find s source"] by (auto simp: f_unit_def f_rep_def)
next
  case False
  then obtain channel where c: "rcc_find s source = Some channel" by auto
  define i where "i = unat (source - 1)"
  have i: "i < kNumRcAnalogInputs" "of_nat (i + 1) = source" unfolding i_def using source_index [of source] False by auto
  obtain w st where u: "channel_update m (rcc_mode s) channel inp dt (rcc_channels s ! i) = (w, st)" by (rule prod.exhaust)
  have e: "v = w" "s' = s \<lparr> rcc_channels := (rcc_channels s)[i := st] \<rparr>"
    using assms(5) False c u by (auto simp: rcc_update_def Let_def i_def)
  have "chan_ok (range_low (Some channel)) (rcc_channels s ! i)"
    using assms(2) i c unfolding cond_ok_def by (metis)
  from channel_update_ok [OF assms(1) this assms(3,4) refl u]
  have "f_unit (range_low (Some channel)) w" "chan_ok (range_low (Some channel)) st" by simp_all
  then show ?thesis using assms(2) c i unfolding e by (auto simp: cond_ok_def nth_list_update)
qed

text \<open>The uses of the conditioner, in any order, and the values it returns.\<close>

datatype rcc_op = RccConfigure "RcChannelCalibration list" | RccReset | RccMode InputFilterMode bool | RccUpdate u8 f32 u32

fun rcc_step :: "libm \<Rightarrow> rcc_op \<Rightarrow> RcInputConditioner \<Rightarrow> RcInputConditioner" where
  "rcc_step m (RccConfigure cal) s = rcc_configure cal s"
| "rcc_step m RccReset s = rcc_reset s"
| "rcc_step m (RccMode md allowed) s = snd (rcc_setMode md allowed s)"
| "rcc_step m (RccUpdate source inp dt) s = snd (rcc_update m source inp dt s)"

fun rcc_op_ok :: "rcc_op \<Rightarrow> bool" where
  "rcc_op_ok (RccUpdate source inp dt) = (inp \<noteq> NaN \<and> f_rep inp)"
| "rcc_op_ok _ = True"

lemma rcc_run_ok:
  assumes "libm_exp_ok m" and "cond_ok s" and "list_all rcc_op_ok ops"
  shows "cond_ok (fold (rcc_step m) ops s)"
  using assms(2,3)
proof (induction ops arbitrary: s)
  case (Cons op ops)
  then have "cond_ok (rcc_step m op s)"
    using rcc_update_ok [OF assms(1) Cons.prems(1)]
    by (cases op) (auto simp: rcc_configure_ok rcc_setMode_ok prod_eq_iff)
  then show ?case using Cons by simp
qed simp

text \<open>
  The input filters are stable. Whatever calibration profiles are adopted, filter modes chosen
  and samples fed in (any value but a NaN, at any time step, infinities included), every value the
  conditioner returns lies in [-1, 1] for a centred control and in [0, 1] for the others, in spite
  of the rounding of every filter step; in particular it is never a NaN. The one assumption on the
  C library is that \<open>expf\<close> of a number is a number.
\<close>

theorem conditioner_output_bounded:
  assumes "libm_exp_ok m" and "list_all rcc_op_ok ops" and "inp \<noteq> NaN" "f_rep inp"
    and "s = fold (rcc_step m) ops (rcc_reset s0)"
  shows "f_in (range_low (rcc_find s source)) 1 (fst (rcc_update m source inp dt s))"
proof -
  have "cond_ok s" unfolding assms(5) by (rule rcc_run_ok [OF assms(1) _ assms(2)]) simp
  moreover obtain v s' where u: "rcc_update m source inp dt s = (v, s')" by (rule prod.exhaust)
  ultimately show ?thesis using rcc_update_ok [OF assms(1) _ assms(3,4) u] by (simp add: f_unit_def)
qed

definition rcc_sample :: RcInputConditioner where
  "rcc_sample = \<lparr> rcc_calibration = defaultRcInputCalibration, rcc_channels = [], rcc_mode = FilterEma \<rparr>"

definition rcc_sample_libm :: libm where
  "rcc_sample_libm = \<lparr> lm_sqrtf = id, lm_sinf = id, lm_cosf = id, lm_acosf = id, lm_asinf = id, lm_atan2f = (\<lambda>y x. y),
     lm_expf = (\<lambda>x. if x = NaN then NaN else Fin (1 / 2)), lm_lround_other = (\<lambda>v. 0) \<rparr>"

theorem conditioner_output_bounded_witness:
  "fst (rcc_update rcc_sample_libm 1 (Inf False) 20
     (fold (rcc_step rcc_sample_libm) [RccUpdate 1 (Fin (- 1)) 0] (rcc_reset rcc_sample))) = Fin 0 \<and>
   f_in (- 1) 1 (fst (rcc_update rcc_sample_libm 1 (Inf False) 20
     (fold (rcc_step rcc_sample_libm) [RccUpdate 1 (Fin (- 1)) 0] (rcc_reset rcc_sample))))"
proof -
  have e: "libm_exp_ok rcc_sample_libm" by (simp add: libm_exp_ok_def rcc_sample_libm_def)
  have ops: "list_all rcc_op_ok [RccUpdate 1 (Fin (- 1)) 0]" by (simp add: f_rep_def)
  have inp: "Inf False \<noteq> NaN" "f_rep (Inf False)" by (simp_all add: f_rep_def)
  have "fst (rcc_update rcc_sample_libm 1 (Inf False) 20
      (fold (rcc_step rcc_sample_libm) [RccUpdate 1 (Fin (- 1)) 0] (rcc_reset rcc_sample))) = Fin 0" by code_simp
  moreover have "range_low (rcc_find (fold (rcc_step rcc_sample_libm) [RccUpdate 1 (Fin (- 1)) 0] (rcc_reset rcc_sample)) 1) = - 1"
    by code_simp
  ultimately show ?thesis using conditioner_output_bounded [OF e ops inp refl, of rcc_sample 1 20] by simp
qed

section \<open>Response curves and switches\<close>

lemma applyDeadband_bound:
  assumes "f_in (- 8) 8 v" and "db \<noteq> NaN"
  shows "f_in (- 32768) 32768 (applyDeadband v db)"
proof -
  obtain a where a: "v = Fin a" "- 8 \<le> a" "a \<le> 8" using assms(1) by (rule f_inE)
  define T where "T = rnd32 (999 / 1000)"
  have "f_lit (999 / 1000) = Fin T" by (simp add: f_lit_def T_def f_round_small)
  moreover have T: "0 \<le> T" "T \<le> 1 - 1 / 2048" unfolding T_def by code_simp+
  ultimately obtain b where b: "f_clamp db (f_lit 0) (f_lit (999 / 1000)) = Fin b" "0 \<le> b" "b \<le> T"
    using f_clamp_in [OF assms(2) T(1)] by (auto elim: f_inE)
  have p: "rnd32 (1 / 2048) = 1 / 2048" using rnd32_dyadic [of 1 11] by simp
  have "1 / 2048 \<le> 1 - b" "1 - b \<le> 1" using T b by linarith+
  then have d: "1 / 2048 \<le> rnd32 (1 - b)" using rnd32_bounded(1) [of "1 / 2048" "1 - b" 1] p by simp
  have den: "f_sub (f_lit 1) (Fin b) = Fin (rnd32 (1 - b))" using b T by (simp add: f_sub_def f_round_small)
  define g where "g = \<bar>a\<bar>"
  have g: "0 \<le> g" "g \<le> 8" using a by (auto simp: g_def)
  have mag: "(if f_lt v (Fin 0) then f_neg v else v) = Fin g" by (auto simp: a(1) g_def)
  have "\<bar>g - b\<bar> \<le> 8" using g b T by linarith
  then have num: "f_sub (Fin g) (Fin b) = Fin (rnd32 (g - b))" "\<bar>rnd32 (g - b)\<bar> \<le> 8"
    using rnd32_bounded [of "- 8" "g - b" 8] rnd32_of_int [of 8] by (simp_all add: f_sub_def f_round_small abs_le_iff rnd32_minus)
  have "\<bar>rnd32 (g - b) / rnd32 (1 - b)\<bar> = \<bar>rnd32 (g - b)\<bar> / rnd32 (1 - b)" using d by simp
  also have "\<dots> \<le> 8 / (1 / 2048)" using d num(2) by (intro frac_le) simp_all
  finally have "f_in (- 32768) 32768 (f_round (rnd32 (g - b) / rnd32 (1 - b)))" using f_round_bound [of _ 16384] by simp
  then have q: "f_in (- 32768) 32768 (f_div (Fin (rnd32 (g - b))) (Fin (rnd32 (1 - b))))" using d by simp
  have neg: "f_in (- 32768) 32768 z \<Longrightarrow> f_in (- 32768) 32768 (f_neg z)" for z by (cases z) auto
  show ?thesis unfolding applyDeadband_def Let_def b(1) mag den num(1) using q neg [OF q] by simp
qed

lemma applyExpo_bound:
  assumes "f_in (- 32768) 32768 v" and "ex \<noteq> NaN"
  shows "f_in (- (2 ^ 60)) (2 ^ 60) (applyExpo v ex)"
proof -
  define e where "e = f_clamp ex (f_lit 0) (f_lit 1)"
  have e: "f_in (- 1) 1 e" unfolding e_def using f_in_mono [OF f_clamp_in [OF assms(2), of 0 1]] by simp
  have one: "f_in (- 1) 1 (f_lit 1)" by simp
  have "f_in (- 4) 4 (f_sub (f_lit 1) e)" using f_add_bound(2) [OF one e] by simp
  then have l: "f_in (- 262144) 262144 (f_mul (f_sub (f_lit 1) e) v)" using f_mul_bound [OF _ assms(1)] by fastforce
  have "f_in (- 65536) 65536 (f_mul e v)" using f_mul_bound [OF e assms(1)] by simp
  then have "f_in (- 4294967296) 4294967296 (f_mul (f_mul e v) v)" using f_mul_bound [OF _ assms(1)] by fastforce
  then have r: "f_in (- 281474976710656) 281474976710656 (f_mul (f_mul (f_mul e v) v) v)" using f_mul_bound [OF _ assms(1)] by fastforce
  show ?thesis unfolding applyExpo_def Let_def e_def [symmetric] using f_in_mono [OF f_add_bound(1) [OF l r]] by simp
qed

lemma td_update_range: "td_initialized d \<longrightarrow> td_stable d \<le> 2 \<and> td_candidate d \<le> 2 \<Longrightarrow> td_update raw now deb d = (v, d') \<Longrightarrow>
  v \<le> 2 \<and> td_initialized d' \<and> td_stable d' \<le> 2 \<and> td_candidate d' \<le> 2"
  by (auto simp: td_update_def Let_def split: if_splits)

end
