(* ===== verification/ControllerBridge.thy ===== *)
theory ControllerBridge
  imports ChannelPack RcConditioner
begin

text \<open>
  The controller bridge (\<open>input/controller_bridge.h\<close>, \<open>input/controller_bridge.cpp\<close>): from the raw
  radio channels to one command snapshot. The bridge detects the channel layout, normalises and
  conditions the analog inputs, reads the remappable bindings, debounces edges, and holds a
  fail-safe command when the link is down, stale or of unknown layout. The build option that
  forces the custom layout is the argument \<open>force_custom\<close> of \<open>bridge_reset\<close>.
\<close>

datatype AxisSource = AxisNone | GimbalLX | GimbalLY | GimbalRX | GimbalRY | Pot1 | Pot2 | Enc1 | Enc2

fun axisCode :: "AxisSource \<Rightarrow> nat" where
  "axisCode AxisNone = 0" | "axisCode GimbalLX = 1" | "axisCode GimbalLY = 2" | "axisCode GimbalRX = 3"
| "axisCode GimbalRY = 4" | "axisCode Pot1 = 5" | "axisCode Pot2 = 6" | "axisCode Enc1 = 7" | "axisCode Enc2 = 8"

datatype BoolSource = BoolNone | SwA | SwB | SwC | SwD | SwG | SwH | Btn1 | Btn2 | Btn3 | Btn4
  | Nav1Up | Nav1Down | Nav1Left | Nav1Right | Nav1Center | Nav2Up | Nav2Down | Nav2Left | Nav2Right | Nav2Center

datatype TriSource = TriNone | SwE | SwF

datatype InputProfile = ProfileUnknown | CustomControllerChannelPack | Tx16sMk3Direct

datatype ControlMode = ModeYaw | ModeTranslateBody | ModeRotateBody

datatype GaitTuneParam = TuneStepHeight | TuneStride | TuneDuty

datatype TrickId = TrickNone | StandUp | SitDown | WaveTrick | CrouchToggle | Twirl | Stretch | LeanLook | DanceLoop
  | SpiderAttack | JumpKick

record AxisBinding =
  ab_source :: AxisSource
  ab_invert :: bool
  ab_deadband :: f32

record TrickBinding =
  tb_source :: BoolSource
  tb_trick :: TrickId

definition kMaxTrickBindings :: nat where "kMaxTrickBindings = 9"

record BindingConfig =
  bc_walk_forward :: AxisBinding
  bc_walk_strafe :: AxisBinding
  bc_walk_yaw :: AxisBinding
  bc_body_x :: AxisBinding
  bc_body_y :: AxisBinding
  bc_body_z :: AxisBinding
  bc_body_roll :: AxisBinding
  bc_body_pitch :: AxisBinding
  bc_body_yaw :: AxisBinding
  bc_speed :: AxisBinding
  bc_body_height :: AxisBinding
  bc_stride :: AxisBinding
  bc_step_height :: AxisBinding
  bc_duty :: AxisBinding
  bc_gait_select :: TriSource
  bc_mode_select :: TriSource
  bc_arm :: BoolSource
  bc_estop :: BoolSource
  bc_feat_foot_contact :: BoolSource
  bc_feat_terrain_leveling :: BoolSource
  bc_feat_passive_pose :: BoolSource
  bc_host_authority :: BoolSource
  bc_trim_pitch_up :: BoolSource
  bc_trim_pitch_down :: BoolSource
  bc_trim_roll_left :: BoolSource
  bc_trim_roll_right :: BoolSource
  bc_trim_reset :: BoolSource
  bc_gait_tune_toggle :: BoolSource
  bc_gait_tune_next :: BoolSource
  bc_gait_tune_prev :: BoolSource
  bc_gait_tune_increase :: BoolSource
  bc_gait_tune_decrease :: BoolSource
  bc_gait_tune_save :: BoolSource
  bc_tricks :: "TrickBinding list"

definition axis :: "AxisSource \<Rightarrow> bool \<Rightarrow> AxisBinding" where
  "axis s invert = \<lparr> ab_source = s, ab_invert = invert, ab_deadband = Fin 0 \<rparr>"

definition trick :: "BoolSource \<Rightarrow> TrickId \<Rightarrow> TrickBinding" where
  "trick s t = \<lparr> tb_source = s, tb_trick = t \<rparr>"

definition defaultBindings :: BindingConfig where
  "defaultBindings =
     \<lparr> bc_walk_forward = axis GimbalLY False, bc_walk_strafe = axis GimbalLX True, bc_walk_yaw = axis GimbalRX True,
       bc_body_x = axis GimbalRY False, bc_body_y = axis GimbalRX False, bc_body_z = axis AxisNone False,
       bc_body_roll = axis GimbalRX False, bc_body_pitch = axis GimbalRY False, bc_body_yaw = axis AxisNone False,
       bc_speed = axis Pot1 False, bc_body_height = axis Pot2 False, bc_stride = axis AxisNone False,
       bc_step_height = axis AxisNone False, bc_duty = axis AxisNone False,
       bc_gait_select = SwE, bc_mode_select = SwF,
       bc_arm = SwA, bc_estop = SwB, bc_feat_foot_contact = SwC, bc_feat_terrain_leveling = SwD,
       bc_feat_passive_pose = BoolNone, bc_host_authority = SwH,
       bc_trim_pitch_up = Nav1Up, bc_trim_pitch_down = Nav1Down, bc_trim_roll_left = Nav1Left,
       bc_trim_roll_right = Nav1Right, bc_trim_reset = Nav1Center,
       bc_gait_tune_toggle = SwG, bc_gait_tune_next = Nav1Up, bc_gait_tune_prev = Nav1Down,
       bc_gait_tune_increase = Nav1Right, bc_gait_tune_decrease = Nav1Left, bc_gait_tune_save = Nav1Center,
       bc_tricks = [trick Btn1 StandUp, trick Btn2 SitDown, trick Btn3 WaveTrick, trick BoolNone TrickNone,
         trick Nav2Up Twirl, trick Nav2Down Stretch, trick Nav2Left JumpKick, trick Nav2Right SpiderAttack,
         trick Nav2Center DanceLoop] \<rparr>"

definition poselim_kMaxTransMm :: f32 where "poselim_kMaxTransMm = f_lit 50"
definition poselim_kMaxRotRad :: f32 where "poselim_kMaxRotRad = f_lit (4363 / 10000)"
definition kEncoderCountsFullScale :: int where "kEncoderCountsFullScale = 128"
definition kGaitTuneStepFrac :: f32 where "kGaitTuneStepFrac = f_lit (5 / 100)"
definition kTrimStepRad :: f32 where "kTrimStepRad = f_lit (174533 / 10000000)"
definition kTrimMaxRad :: f32 where "kTrimMaxRad = poselim_kMaxRotRad"
definition kEdgeRefractoryMs :: u32 where "kEdgeRefractoryMs = 150"
definition kTrickRepeatMs :: u32 where "kTrickRepeatMs = 2000"
definition kCaptureStartHoldMs :: u32 where "kCaptureStartHoldMs = 3000"
definition kDefaultFailsafeMs :: u32 where "kDefaultFailsafeMs = 250"
definition kArmReleaseDebounceMs :: u32 where "kArmReleaseDebounceMs = 150"
definition kProfileDetectFrames :: nat where "kProfileDetectFrames = 3"
definition kCalibrationOutOfRangeTolerance :: int where "kCalibrationOutOfRangeTolerance = 64"
definition kModeSwitchDebounceMs :: u16 where "kModeSwitchDebounceMs = 40"

definition kTrimEdgeBase :: nat where "kTrimEdgeBase = kMaxTrickBindings"
definition kGaitTuneEdgeBase :: nat where "kGaitTuneEdgeBase = kTrimEdgeBase + 5"
definition kCaptureEdge :: nat where "kCaptureEdge = kGaitTuneEdgeBase + 6"
definition kNumEdgeSlots :: nat where "kNumEdgeSlots = kCaptureEdge + 1"

record ControllerCommand =
  cc_valid :: bool
  cc_failsafe :: bool
  cc_ever_seen :: bool
  cc_frame_ms :: u32
  cc_arm_request :: bool
  cc_estop :: bool
  cc_host_authority :: bool
  cc_mode :: ControlMode
  cc_gait_index :: nat
  cc_twist_vx :: f32
  cc_twist_vy :: f32
  cc_twist_wz :: f32
  cc_pose_x_mm :: f32
  cc_pose_y_mm :: f32
  cc_pose_z_mm :: f32
  cc_pose_roll :: f32
  cc_pose_pitch :: f32
  cc_pose_yaw :: f32
  cc_trim_roll :: f32
  cc_trim_pitch :: f32
  cc_speed :: f32
  cc_body_height :: f32
  cc_stride :: f32
  cc_step_height :: f32
  cc_duty :: f32
  cc_gait_tune_active :: bool
  cc_gait_tune_param :: GaitTuneParam
  cc_gait_tune_edit_seq :: u32
  cc_gait_tune_last_edit_ms :: u32
  cc_gait_tune_save_seq :: u32
  cc_capture_toggle_seq :: u32
  cc_capture_start_seq :: u32
  cc_feat_foot_contact :: bool
  cc_feat_terrain_leveling :: bool
  cc_feat_passive_pose :: bool
  cc_trick :: TrickId

definition ControllerCommand_default :: ControllerCommand where
  "ControllerCommand_default =
     \<lparr> cc_valid = False, cc_failsafe = True, cc_ever_seen = False, cc_frame_ms = 0, cc_arm_request = False,
       cc_estop = True, cc_host_authority = False, cc_mode = ModeYaw, cc_gait_index = 0,
       cc_twist_vx = Fin 0, cc_twist_vy = Fin 0, cc_twist_wz = Fin 0,
       cc_pose_x_mm = Fin 0, cc_pose_y_mm = Fin 0, cc_pose_z_mm = Fin 0,
       cc_pose_roll = Fin 0, cc_pose_pitch = Fin 0, cc_pose_yaw = Fin 0, cc_trim_roll = Fin 0, cc_trim_pitch = Fin 0,
       cc_speed = Fin 0, cc_body_height = Fin 0, cc_stride = Fin 0, cc_step_height = Fin 0, cc_duty = Fin 0,
       cc_gait_tune_active = False, cc_gait_tune_param = TuneStepHeight, cc_gait_tune_edit_seq = 0,
       cc_gait_tune_last_edit_ms = 0, cc_gait_tune_save_seq = 0, cc_capture_toggle_seq = 0, cc_capture_start_seq = 0,
       cc_feat_foot_contact = False, cc_feat_terrain_leveling = False, cc_feat_passive_pose = False,
       cc_trick = TrickNone \<rparr>"

record ControllerBridge =
  cb_cfg :: BindingConfig
  cb_calibration :: "RcChannelCalibration list"
  cb_conditioner :: RcInputConditioner
  cb_cmd :: ControllerCommand
  cb_raw :: ChannelPackInputs
  cb_conditioned_gimbal :: "f32 list"
  cb_conditioned_pot :: "f32 list"
  cb_conditioned_encoder :: "f32 list"
  cb_conditioned_toggles :: "nat list"
  cb_sw_e_debounce :: RcTriSwitchDebouncer
  cb_sw_f_debounce :: RcTriSwitchDebouncer
  cb_last_condition_ms :: u32
  cb_condition_time_seen :: bool
  cb_detected_profile :: InputProfile
  cb_profile_locked :: bool
  cb_custom_layout_streak :: nat
  cb_tx_direct_layout_streak :: nat
  cb_enc_last :: "int list"
  cb_enc_seen :: "bool list"
  cb_enc_accum :: "f32 list"
  cb_arm_release_pending :: bool
  cb_arm_release_since_ms :: u32
  cb_capture_start_hold_active :: bool
  cb_capture_start_hold_fired :: bool
  cb_capture_start_hold_since_ms :: u32
  cb_gait_tune_frac :: "f32 list"
  cb_edge_prev :: "bool list"
  cb_edge_last_ms :: "u32 list"

section \<open>Conventional channel values\<close>

text \<open>C's conversion of a \<open>float\<close> to an integer type; every argument below is a small finite number.\<close>

definition f_to_int :: "f32 \<Rightarrow> int" where
  "f_to_int v = (case f_trunc v of Some n \<Rightarrow> n | None \<Rightarrow> 0)"

definition clampCrsf :: "u16 \<Rightarrow> nat" where
  "clampCrsf v = (if unat v < CPACK_CRSF_MIN then CPACK_CRSF_MIN
                  else if unat v > CPACK_CRSF_MAX then CPACK_CRSF_MAX else unat v)"

definition crsfUnit01 :: "u16 \<Rightarrow> f32" where
  "crsfUnit01 v = f_div (f_of_int (int (clampCrsf v) - int CPACK_CRSF_MIN)) (f_of_int (int cpack_span))"

definition crsfToGimbalSafe :: "u16 \<Rightarrow> int" where
  "crsfToGimbalSafe v = f_to_int (f_sub (f_mul (crsfUnit01 v) (f_lit 2000)) (f_lit 1000))"

definition crsfToPotSafe :: "u16 \<Rightarrow> int" where
  "crsfToPotSafe v = f_to_int (f_mul (crsfUnit01 v) (f_lit 1000))"

definition crsfToTri :: "u16 \<Rightarrow> nat" where
  "crsfToTri v = (let u = crsfUnit01 v in
     if f_lt u (f_lit (3333 / 10000)) then 0 else if f_lt u (f_lit (6666 / 10000)) then 1 else 2)"

definition crsfToBoolHigh :: "u16 \<Rightarrow> bool" where
  "crsfToBoolHigh v = f_lt (f_lit (1 / 2)) (crsfUnit01 v)"

definition crsfToBins :: "u16 \<Rightarrow> nat \<Rightarrow> nat" where
  "crsfToBins v bins =
     (if bins = 0 then 0
      else let idx = f_to_int (f_mul (crsfUnit01 v) (f_of_int (int bins)));
               idx = (if idx < 0 then 0 else idx);
               idx = (if idx \<ge> int bins then int bins - 1 else idx)
           in nat idx)"

definition rawWithinCalibrationWindow :: "int \<Rightarrow> RcChannelCalibration \<Rightarrow> bool" where
  "rawWithinCalibrationWindow raw c \<longleftrightarrow>
     sint (min_raw c) - kCalibrationOutOfRangeTolerance \<le> raw \<and> raw \<le> sint (max_raw c) + kCalibrationOutOfRangeTolerance"

definition clearRawInputs :: ChannelPackInputs where
  "clearRawInputs = ChannelPackInputs_zero \<lparr> cp_toggles := [1, 1] \<rparr>"

section \<open>Layout detection\<close>

definition nearCrsfMid :: "u16 \<Rightarrow> bool" where
  "nearCrsfMid v \<longleftrightarrow> \<bar>uint v - int CPACK_CRSF_MID\<bar> \<le> 16"

definition looksLikeCustomChannelPack :: "u16 list \<Rightarrow> bool" where
  "looksLikeCustomChannelPack ch =
     (let switches = crsfToDiscrete (ch ! 8) CPACK_SWITCH_FIELD_MAX;
          bt = crsfToDiscrete (ch ! 9) CPACK_BTN_TOGGLE_FIELD_MAX;
          nav = crsfToDiscrete (ch ! 10) CPACK_NAV_FIELD_MAX
      in switches < 32 \<and> bt div 16 < 9 \<and> nav < 1024 \<and> list_all (\<lambda>i. nearCrsfMid (ch ! i)) [11..<16])"

definition classifyFirstFrame :: "u16 list \<Rightarrow> InputProfile" where
  "classifyFirstFrame ch = (if looksLikeCustomChannelPack ch then CustomControllerChannelPack else Tx16sMk3Direct)"

definition attemptProfileDetection :: "u16 list \<Rightarrow> ControllerBridge \<Rightarrow> ControllerBridge" where
  "attemptProfileDetection ch s =
     (if cb_profile_locked s then s
      else if looksLikeCustomChannelPack ch then
        let n = (if cb_custom_layout_streak s < kProfileDetectFrames then cb_custom_layout_streak s + 1
                 else cb_custom_layout_streak s);
            s = s \<lparr> cb_custom_layout_streak := n, cb_tx_direct_layout_streak := 0 \<rparr>
        in if n \<ge> kProfileDetectFrames
           then s \<lparr> cb_detected_profile := CustomControllerChannelPack, cb_profile_locked := True \<rparr> else s
      else
        let n = (if cb_tx_direct_layout_streak s < kProfileDetectFrames then cb_tx_direct_layout_streak s + 1
                 else cb_tx_direct_layout_streak s);
            s = s \<lparr> cb_tx_direct_layout_streak := n, cb_custom_layout_streak := 0 \<rparr>
        in if n \<ge> kProfileDetectFrames
           then s \<lparr> cb_detected_profile := Tx16sMk3Direct, cb_profile_locked := True \<rparr> else s)"

text \<open>The action selected on the direct profile arms one button or navigation input.\<close>

definition fire_action :: "nat \<Rightarrow> ChannelPackInputs \<Rightarrow> ChannelPackInputs" where
  "fire_action action r =
     (let nav = (\<lambda>n d. r \<lparr> cp_nav := (cp_nav r)[n := (cp_nav r ! n)[d := True]] \<rparr>);
          btn = (\<lambda>i. r \<lparr> cp_buttons := (cp_buttons r)[i := True] \<rparr>) in
      if action < 5 then nav 0 action
      else if action < 9 then btn (action - 5)
      else if action = 9 then nav 1 0 else if action = 10 then nav 1 1 else if action = 11 then nav 1 2
      else if action = 12 then nav 1 4 else r)"

definition unpackTx16sMk3DirectChannels :: "u16 list \<Rightarrow> ChannelPackInputs" where
  "unpackTx16sMk3DirectChannels ch =
     (let safety_mask = crsfToBins (ch ! 10) 4; feature_mask = crsfToBins (ch ! 11) 16;
          r = clearRawInputs \<lparr>
            cp_gimbal := map (\<lambda>i. crsfToGimbalSafe (ch ! i)) [0..<4],
            cp_pot := [crsfToPotSafe (ch ! 4), crsfToPotSafe (ch ! 5)],
            cp_toggles := [crsfToTri (ch ! 8), crsfToTri (ch ! 9)],
            cp_switches := map (\<lambda>i. bit safety_mask i) [0..<2] @ map (\<lambda>i. bit feature_mask i) [0..<4] @ [False, False] \<rparr>;
          action = crsfToBins (ch ! 12) 13; fire = crsfToBoolHigh (ch ! 13)
      in if fire then fire_action action r else r)"

definition updateTx16sDirectVirtualEncoders :: "u16 list \<Rightarrow> ControllerBridge \<Rightarrow> ControllerBridge" where
  "updateTx16sDirectVirtualEncoders ch s =
     (let enc = [crsfUnit01 (ch ! 6), crsfUnit01 (ch ! 7)];
          raw_enc = map (\<lambda>e. f_to_int (f_mul e (f_lit 2047))) enc;
          accum = map (\<lambda>e. f_clamp e (f_lit 0) (f_lit 1)) enc;
          s = s \<lparr> cb_raw := (cb_raw s) \<lparr> cp_encoder := raw_enc \<rparr>, cb_enc_accum := accum,
                  cb_enc_seen := [True, True], cb_enc_last := raw_enc \<rparr>
      in if \<not> cc_gait_tune_active (cb_cmd s)
         then s \<lparr> cb_gait_tune_frac := (cb_gait_tune_frac s)[1 := accum ! 0, 0 := accum ! 1] \<rparr> else s)"

text \<open>The shortest way around the 11-bit encoder circle, accumulated and clamped.\<close>

definition integrate_encoder :: "nat \<Rightarrow> ControllerBridge \<Rightarrow> ControllerBridge" where
  "integrate_encoder i s =
     (let enc = cp_encoder (cb_raw s) ! i in
      if \<not> cb_enc_seen s ! i then s \<lparr> cb_enc_last := (cb_enc_last s)[i := enc], cb_enc_seen := (cb_enc_seen s)[i := True] \<rparr>
      else let d = enc - cb_enc_last s ! i;
               d = (if d > 1024 then d - 2048 else d);
               d = (if d < - 1024 then d + 2048 else d)
           in s \<lparr> cb_enc_last := (cb_enc_last s)[i := enc],
                  cb_enc_accum := (cb_enc_accum s)[i := f_clamp (f_add (cb_enc_accum s ! i)
                    (f_div (f_of_int d) (f_of_int kEncoderCountsFullScale))) (f_lit 0) (f_lit 1)] \<rparr>)"

definition integrateEncoders :: "ControllerBridge \<Rightarrow> ControllerBridge" where
  "integrateEncoders s = fold integrate_encoder [0..<2] s"

section \<open>Reading the inputs\<close>

definition calibrationFor :: "ControllerBridge \<Rightarrow> AxisSource \<Rightarrow> RcChannelCalibration option" where
  "calibrationFor s src =
     (if axisCode src = 0 \<or> axisCode src > kNumRcAnalogInputs then None
      else find (\<lambda>c. unat (rc_source c) = axisCode src) (cb_calibration s))"

definition clamped_raw :: "int \<Rightarrow> RcChannelCalibration \<Rightarrow> int" where
  "clamped_raw raw c = (if raw < sint (min_raw c) then sint (min_raw c)
                        else if raw > sint (max_raw c) then sint (max_raw c) else raw)"

definition readCalibratedBipolar :: "ControllerBridge \<Rightarrow> AxisSource \<Rightarrow> int \<Rightarrow> f32 option" where
  "readCalibratedBipolar s src raw =
     (case calibrationFor s src of
        None \<Rightarrow> None
      | Some c \<Rightarrow>
          if rc_type c \<noteq> 0 \<or> \<not> rawWithinCalibrationWindow raw c then None
          else let r = clamped_raw raw c; centre = sint (center_raw c);
                   v = (if r \<ge> centre then f_div (f_of_int (r - centre)) (f_of_int (sint (max_raw c) - centre))
                        else f_div (f_of_int (r - centre)) (f_of_int (centre - sint (min_raw c))));
                   v = (if rc_reversed c \<noteq> 0 then f_neg v else v)
               in Some (f_clamp v (f_lit (- 1)) (f_lit 1)))"

definition readCalibratedUnipolar :: "ControllerBridge \<Rightarrow> AxisSource \<Rightarrow> int \<Rightarrow> f32 option" where
  "readCalibratedUnipolar s src raw =
     (case calibrationFor s src of
        None \<Rightarrow> None
      | Some c \<Rightarrow>
          if rc_type c \<noteq> 1 \<or> \<not> rawWithinCalibrationWindow raw c then None
          else let r = clamped_raw raw c;
                   v = f_div (f_of_int (r - sint (min_raw c))) (f_of_int (sint (max_raw c) - sint (min_raw c)));
                   v = (if rc_reversed c \<noteq> 0 then f_sub (f_lit 1) v else v)
               in Some (f_clamp v (f_lit 0) (f_lit 1)))"

definition valid_or_zero :: "f32 option \<Rightarrow> f32" where
  "valid_or_zero v = (case v of Some x \<Rightarrow> x | None \<Rightarrow> Fin 0)"

definition gimbal_sources :: "AxisSource list" where "gimbal_sources = [GimbalLX, GimbalLY, GimbalRX, GimbalRY]"
definition pot_sources :: "AxisSource list" where "pot_sources = [Pot1, Pot2]"

text \<open>The three loops of \<open>updateConditionedInputs\<close>: one filter update per analog source.\<close>

definition condition_source :: "libm \<Rightarrow> u32 \<Rightarrow> nat \<Rightarrow> f32 \<Rightarrow> ControllerBridge \<Rightarrow> f32 \<times> ControllerBridge" where
  "condition_source m dt src v s =
     (let (y, c) = rcc_update m (of_nat src) v dt (cb_conditioner s) in (y, s \<lparr> cb_conditioner := c \<rparr>))"

definition condition_gimbal :: "libm \<Rightarrow> u32 \<Rightarrow> nat \<Rightarrow> ControllerBridge \<Rightarrow> ControllerBridge" where
  "condition_gimbal m dt i s =
     (let (y, s) = condition_source m dt (i + 1)
                     (valid_or_zero (readCalibratedBipolar s (gimbal_sources ! i) (cp_gimbal (cb_raw s) ! i))) s
      in s \<lparr> cb_conditioned_gimbal := (cb_conditioned_gimbal s)[i := y] \<rparr>)"

definition condition_pot :: "libm \<Rightarrow> u32 \<Rightarrow> nat \<Rightarrow> ControllerBridge \<Rightarrow> ControllerBridge" where
  "condition_pot m dt i s =
     (let (y, s) = condition_source m dt (i + 5)
                     (valid_or_zero (readCalibratedUnipolar s (pot_sources ! i) (cp_pot (cb_raw s) ! i))) s
      in s \<lparr> cb_conditioned_pot := (cb_conditioned_pot s)[i := y] \<rparr>)"

definition condition_encoder :: "libm \<Rightarrow> u32 \<Rightarrow> nat \<Rightarrow> ControllerBridge \<Rightarrow> ControllerBridge" where
  "condition_encoder m dt i s =
     (let (y, s) = condition_source m dt (i + 7) (cb_enc_accum s ! i) s
      in s \<lparr> cb_conditioned_encoder := (cb_conditioned_encoder s)[i := y] \<rparr>)"

definition updateConditionedInputs :: "libm \<Rightarrow> u32 \<Rightarrow> ControllerBridge \<Rightarrow> ControllerBridge" where
  "updateConditionedInputs m now_ms s =
     (let dt = (if cb_condition_time_seen s then now_ms - cb_last_condition_ms s else 0);
          s = s \<lparr> cb_condition_time_seen := True, cb_last_condition_ms := now_ms \<rparr>
      in fold (condition_encoder m dt) [0..<2] (fold (condition_pot m dt) [0..<2] (fold (condition_gimbal m dt) [0..<4] s)))"

definition updateConditionedToggles :: "u32 \<Rightarrow> ControllerBridge \<Rightarrow> ControllerBridge" where
  "updateConditionedToggles now_ms s =
     (let (e, de) = td_update (cp_toggles (cb_raw s) ! 0) now_ms kModeSwitchDebounceMs (cb_sw_e_debounce s);
          (f, df) = td_update (cp_toggles (cb_raw s) ! 1) now_ms kModeSwitchDebounceMs (cb_sw_f_debounce s)
      in s \<lparr> cb_conditioned_toggles := [e, f], cb_sw_e_debounce := de, cb_sw_f_debounce := df \<rparr>)"

definition conditionedBipolar :: "ControllerBridge \<Rightarrow> AxisSource \<Rightarrow> f32" where
  "conditionedBipolar s src =
     (if axisCode src < 1 \<or> axisCode src > 4 then Fin 0 else cb_conditioned_gimbal s ! (axisCode src - 1))"

definition conditionedUnipolar :: "ControllerBridge \<Rightarrow> AxisSource \<Rightarrow> f32" where
  "conditionedUnipolar s src =
     (if axisCode src \<ge> 5 \<and> axisCode src \<le> 6 then cb_conditioned_pot s ! (axisCode src - 5)
      else if axisCode src \<ge> 7 \<and> axisCode src \<le> 8 then cb_conditioned_encoder s ! (axisCode src - 7)
      else Fin 0)"

definition applyBindingResponse :: "ControllerBridge \<Rightarrow> AxisBinding \<Rightarrow> f32 \<Rightarrow> f32" where
  "applyBindingResponse s b v =
     (let src = of_nat (axisCode (ab_source b)) in
      if \<not> rcc_isCentered (cb_conditioner s) src then v
      else let deadband = (if f_lt (Fin 0) (ab_deadband b) then ab_deadband b else rcc_deadband (cb_conditioner s) src)
           in applyExpo (applyDeadband v deadband) (rcc_expo (cb_conditioner s) src))"

definition readAxisBipolar :: "ControllerBridge \<Rightarrow> AxisBinding \<Rightarrow> f32" where
  "readAxisBipolar s b =
     (if ab_source b = AxisNone then Fin 0
      else let v = (if axisCode (ab_source b) \<le> 4 then conditionedBipolar s (ab_source b)
                    else f_sub (f_mul (conditionedUnipolar s (ab_source b)) (f_lit 2)) (f_lit 1));
               v = applyBindingResponse s b v;
               v = (if ab_invert b then f_neg v else v)
           in f_clamp v (f_lit (- 1)) (f_lit 1))"

definition readAxisUnipolar :: "ControllerBridge \<Rightarrow> AxisBinding \<Rightarrow> f32" where
  "readAxisUnipolar s b =
     (if ab_source b = AxisNone then Fin 0
      else let v = (if axisCode (ab_source b) \<le> 4
                    then f_mul (f_add (applyBindingResponse s b (conditionedBipolar s (ab_source b))) (f_lit 1)) (f_lit (1 / 2))
                    else conditionedUnipolar s (ab_source b));
               v = (if ab_invert b then f_sub (f_lit 1) v else v)
           in f_clamp v (f_lit 0) (f_lit 1))"

fun readBool :: "ChannelPackInputs \<Rightarrow> BoolSource \<Rightarrow> bool" where
  "readBool r BoolNone = False"
| "readBool r SwA = cp_switches r ! 0" | "readBool r SwB = cp_switches r ! 1" | "readBool r SwC = cp_switches r ! 2"
| "readBool r SwD = cp_switches r ! 3" | "readBool r SwG = cp_switches r ! 4" | "readBool r SwH = cp_switches r ! 5"
| "readBool r Btn1 = cp_buttons r ! 0" | "readBool r Btn2 = cp_buttons r ! 1"
| "readBool r Btn3 = cp_buttons r ! 2" | "readBool r Btn4 = cp_buttons r ! 3"
| "readBool r Nav1Up = cp_nav r ! 0 ! 0" | "readBool r Nav1Down = cp_nav r ! 0 ! 1"
| "readBool r Nav1Left = cp_nav r ! 0 ! 2" | "readBool r Nav1Right = cp_nav r ! 0 ! 3"
| "readBool r Nav1Center = cp_nav r ! 0 ! 4"
| "readBool r Nav2Up = cp_nav r ! 1 ! 0" | "readBool r Nav2Down = cp_nav r ! 1 ! 1"
| "readBool r Nav2Left = cp_nav r ! 1 ! 2" | "readBool r Nav2Right = cp_nav r ! 1 ! 3"
| "readBool r Nav2Center = cp_nav r ! 1 ! 4"

fun readTri :: "ControllerBridge \<Rightarrow> TriSource \<Rightarrow> nat" where
  "readTri s TriNone = 1" | "readTri s SwE = cb_conditioned_toggles s ! 0" | "readTri s SwF = cb_conditioned_toggles s ! 1"

abbreviation bool_of :: "ControllerBridge \<Rightarrow> (BindingConfig \<Rightarrow> BoolSource) \<Rightarrow> bool" where
  "bool_of s f \<equiv> readBool (cb_raw s) (f (cb_cfg s))"

section \<open>Edges\<close>

definition risingEdge :: "nat \<Rightarrow> bool \<Rightarrow> u32 \<Rightarrow> ControllerBridge \<Rightarrow> bool \<times> ControllerBridge" where
  "risingEdge slot level now_ms s =
     (let fired = (level \<and> \<not> cb_edge_prev s ! slot \<and> now_ms - cb_edge_last_ms s ! slot \<ge> kEdgeRefractoryMs)
      in (fired, s \<lparr> cb_edge_last_ms := (if fired then (cb_edge_last_ms s)[slot := now_ms] else cb_edge_last_ms s),
                     cb_edge_prev := (cb_edge_prev s)[slot := level] \<rparr>))"

definition repeatingTrickTrigger :: "nat \<Rightarrow> bool \<Rightarrow> u32 \<Rightarrow> ControllerBridge \<Rightarrow> bool \<times> ControllerBridge" where
  "repeatingTrickTrigger slot level now_ms s =
     (if \<not> level then (False, s \<lparr> cb_edge_prev := (cb_edge_prev s)[slot := False] \<rparr>)
      else let interval = (if cb_edge_prev s ! slot then kTrickRepeatMs else kEdgeRefractoryMs);
               fired = (now_ms - cb_edge_last_ms s ! slot \<ge> interval)
           in (fired, s \<lparr> cb_edge_last_ms := (if fired then (cb_edge_last_ms s)[slot := now_ms] else cb_edge_last_ms s),
                          cb_edge_prev := (cb_edge_prev s)[slot := True] \<rparr>))"

definition on_edge :: "nat \<Rightarrow> bool \<Rightarrow> u32 \<Rightarrow> (ControllerBridge \<Rightarrow> ControllerBridge) \<Rightarrow> ControllerBridge \<Rightarrow> ControllerBridge" where
  "on_edge slot level now_ms f s = (let (fired, s) = risingEdge slot level now_ms s in if fired then f s else s)"

definition upd_cmd :: "(ControllerCommand \<Rightarrow> ControllerCommand) \<Rightarrow> ControllerBridge \<Rightarrow> ControllerBridge" where
  "upd_cmd f s = s \<lparr> cb_cmd := f (cb_cmd s) \<rparr>"

definition clamp_trim :: "f32 \<Rightarrow> f32" where
  "clamp_trim v = f_clamp v (f_neg kTrimMaxRad) kTrimMaxRad"

definition updatePoseTrim :: "u32 \<Rightarrow> ControllerBridge \<Rightarrow> ControllerBridge" where
  "updatePoseTrim now_ms s =
     (let s = on_edge (kTrimEdgeBase + 4) (bool_of s bc_trim_reset) now_ms
                (upd_cmd (\<lambda>c. c \<lparr> cc_trim_roll := Fin 0, cc_trim_pitch := Fin 0 \<rparr>)) s;
          s = on_edge (kTrimEdgeBase + 0) (bool_of s bc_trim_pitch_up) now_ms
                (upd_cmd (\<lambda>c. c \<lparr> cc_trim_pitch := clamp_trim (f_add (cc_trim_pitch c) kTrimStepRad) \<rparr>)) s;
          s = on_edge (kTrimEdgeBase + 1) (bool_of s bc_trim_pitch_down) now_ms
                (upd_cmd (\<lambda>c. c \<lparr> cc_trim_pitch := clamp_trim (f_sub (cc_trim_pitch c) kTrimStepRad) \<rparr>)) s;
          s = on_edge (kTrimEdgeBase + 2) (bool_of s bc_trim_roll_left) now_ms
                (upd_cmd (\<lambda>c. c \<lparr> cc_trim_roll := clamp_trim (f_sub (cc_trim_roll c) kTrimStepRad) \<rparr>)) s;
          s = on_edge (kTrimEdgeBase + 3) (bool_of s bc_trim_roll_right) now_ms
                (upd_cmd (\<lambda>c. c \<lparr> cc_trim_roll := clamp_trim (f_add (cc_trim_roll c) kTrimStepRad) \<rparr>)) s
      in s)"

fun tuneIndex :: "GaitTuneParam \<Rightarrow> nat" where
  "tuneIndex TuneStepHeight = 0" | "tuneIndex TuneStride = 1" | "tuneIndex TuneDuty = 2"

fun tuneNext :: "GaitTuneParam \<Rightarrow> GaitTuneParam" where
  "tuneNext TuneStepHeight = TuneStride" | "tuneNext TuneStride = TuneDuty" | "tuneNext TuneDuty = TuneStepHeight"

fun tunePrev :: "GaitTuneParam \<Rightarrow> GaitTuneParam" where
  "tunePrev TuneStepHeight = TuneDuty" | "tunePrev TuneStride = TuneStepHeight" | "tunePrev TuneDuty = TuneStride"

definition note_edit :: "u32 \<Rightarrow> ControllerBridge \<Rightarrow> ControllerBridge" where
  "note_edit now_ms = upd_cmd (\<lambda>c. c \<lparr> cc_gait_tune_edit_seq := cc_gait_tune_edit_seq c + 1, cc_gait_tune_last_edit_ms := now_ms \<rparr>)"

definition set_prev :: "nat \<Rightarrow> bool \<Rightarrow> ControllerBridge \<Rightarrow> ControllerBridge" where
  "set_prev slot level s = s \<lparr> cb_edge_prev := (cb_edge_prev s)[slot := level] \<rparr>"

definition bump_frac :: "(f32 \<Rightarrow> f32 \<Rightarrow> f32) \<Rightarrow> ControllerBridge \<Rightarrow> ControllerBridge" where
  "bump_frac op s =
     (let i = tuneIndex (cc_gait_tune_param (cb_cmd s)) in
      s \<lparr> cb_gait_tune_frac := (cb_gait_tune_frac s)[i := f_clamp (op (cb_gait_tune_frac s ! i) kGaitTuneStepFrac) (f_lit 0) (f_lit 1)] \<rparr>)"

text \<open>One editor button: its edge, its effect, and whether anything was edited so far.\<close>

definition edit_on_edge ::
  "nat \<Rightarrow> (BindingConfig \<Rightarrow> BoolSource) \<Rightarrow> u32 \<Rightarrow> (ControllerBridge \<Rightarrow> ControllerBridge) \<Rightarrow>
   bool \<times> ControllerBridge \<Rightarrow> bool \<times> ControllerBridge" where
  "edit_on_edge slot src now_ms f p =
     (let (edited, s) = p; (fired, s) = risingEdge (kGaitTuneEdgeBase + slot) (bool_of s src) now_ms s
      in if fired then (True, f s) else (edited, s))"

definition sync_trim_edges :: "ControllerBridge \<Rightarrow> ControllerBridge" where
  "sync_trim_edges s =
     set_prev (kTrimEdgeBase + 4) (bool_of s bc_trim_reset)
     (set_prev (kTrimEdgeBase + 3) (bool_of s bc_trim_roll_right)
     (set_prev (kTrimEdgeBase + 2) (bool_of s bc_trim_roll_left)
     (set_prev (kTrimEdgeBase + 1) (bool_of s bc_trim_pitch_down)
     (set_prev (kTrimEdgeBase + 0) (bool_of s bc_trim_pitch_up) s))))"

definition gait_tune_presses :: "u32 \<Rightarrow> ControllerBridge \<Rightarrow> bool \<times> ControllerBridge" where
  "gait_tune_presses now_ms s =
     edit_on_edge 5 bc_gait_tune_save now_ms
       (upd_cmd (\<lambda>c. c \<lparr> cc_gait_tune_save_seq := cc_gait_tune_save_seq c + 1 \<rparr>))
     (edit_on_edge 4 bc_gait_tune_decrease now_ms (bump_frac f_sub)
     (edit_on_edge 3 bc_gait_tune_increase now_ms (bump_frac f_add)
     (edit_on_edge 2 bc_gait_tune_prev now_ms
       (upd_cmd (\<lambda>c. c \<lparr> cc_gait_tune_param := tunePrev (cc_gait_tune_param c) \<rparr>))
     (edit_on_edge 1 bc_gait_tune_next now_ms
       (upd_cmd (\<lambda>c. c \<lparr> cc_gait_tune_param := tuneNext (cc_gait_tune_param c) \<rparr>)) (False, s)))))"

definition gait_tune_edit :: "u32 \<Rightarrow> ControllerBridge \<Rightarrow> ControllerBridge" where
  "gait_tune_edit now_ms s =
     (let (edited, s) = gait_tune_presses now_ms (sync_trim_edges s) in if edited then note_edit now_ms s else s)"

text \<open>The editor follows the maintained switch SW_G; any other binding toggles it at each press.\<close>

definition gait_tune_changed :: "u32 \<Rightarrow> ControllerBridge \<Rightarrow> bool \<times> ControllerBridge" where
  "gait_tune_changed now_ms s =
     (if bc_gait_tune_toggle (cb_cfg s) = SwG
      then (bool_of s bc_gait_tune_toggle \<noteq> cc_gait_tune_active (cb_cmd s), s)
      else risingEdge (kGaitTuneEdgeBase + 0) (bool_of s bc_gait_tune_toggle) now_ms s)"

definition gait_tune_toggle :: "u32 \<Rightarrow> ControllerBridge \<Rightarrow> ControllerBridge" where
  "gait_tune_toggle now_ms s =
     (let (changed, s) = gait_tune_changed now_ms s;
          active = (if bc_gait_tune_toggle (cb_cfg s) = SwG then bool_of s bc_gait_tune_toggle
                    else \<not> cc_gait_tune_active (cb_cmd s))
      in if changed
         then note_edit now_ms (upd_cmd (\<lambda>c. c \<lparr> cc_gait_tune_active := active, cc_gait_tune_param := TuneStepHeight \<rparr>) s)
         else s)"

definition sync_tune_edges :: "ControllerBridge \<Rightarrow> ControllerBridge" where
  "sync_tune_edges s =
     set_prev (kGaitTuneEdgeBase + 5) (bool_of s bc_gait_tune_save)
     (set_prev (kGaitTuneEdgeBase + 4) (bool_of s bc_gait_tune_decrease)
     (set_prev (kGaitTuneEdgeBase + 3) (bool_of s bc_gait_tune_increase)
     (set_prev (kGaitTuneEdgeBase + 2) (bool_of s bc_gait_tune_prev)
     (set_prev (kGaitTuneEdgeBase + 1) (bool_of s bc_gait_tune_next) s))))"

definition updateGaitTune :: "u32 \<Rightarrow> ControllerBridge \<Rightarrow> ControllerBridge" where
  "updateGaitTune now_ms s =
     (let s = gait_tune_toggle now_ms s
      in if \<not> cc_gait_tune_active (cb_cmd s) then sync_tune_edges s else gait_tune_edit now_ms s)"

section \<open>The bridge\<close>

definition bridge_reset :: "bool \<Rightarrow> ControllerBridge \<Rightarrow> ControllerBridge" where
  "bridge_reset force_custom s = s \<lparr>
     cb_cmd := ControllerCommand_default, cb_raw := ChannelPackInputs_zero,
     cb_detected_profile := (if force_custom then CustomControllerChannelPack else ProfileUnknown),
     cb_profile_locked := force_custom, cb_custom_layout_streak := 0, cb_tx_direct_layout_streak := 0,
     cb_arm_release_pending := False, cb_arm_release_since_ms := 0,
     cb_capture_start_hold_active := False, cb_capture_start_hold_fired := False, cb_capture_start_hold_since_ms := 0,
     cb_conditioner := rcc_reset (cb_conditioner s),
     cb_conditioned_gimbal := replicate 4 (Fin 0), cb_conditioned_pot := replicate 2 (Fin 0),
     cb_conditioned_encoder := replicate 2 (f_lit (1 / 2)), cb_conditioned_toggles := [1, 1],
     cb_sw_e_debounce := td_reset (cb_sw_e_debounce s), cb_sw_f_debounce := td_reset (cb_sw_f_debounce s),
     cb_last_condition_ms := 0, cb_condition_time_seen := False,
     cb_enc_last := [0, 0], cb_enc_seen := [False, False], cb_enc_accum := [f_lit 1, f_lit (1 / 2)],
     cb_gait_tune_frac := [f_lit (6 / 10), f_lit (75 / 100), f_lit (625 / 1000)],
     cb_edge_prev := replicate kNumEdgeSlots False,
     cb_edge_last_ms := replicate kNumEdgeSlots (0 - kEdgeRefractoryMs) \<rparr>"

text \<open>The constructor: default bindings and calibration, then a reset of every other member.\<close>

definition ControllerBridge_new :: "bool \<Rightarrow> ControllerBridge" where
  "ControllerBridge_new force_custom = bridge_reset force_custom
     \<lparr> cb_cfg = defaultBindings, cb_calibration = defaultRcInputCalibration,
       cb_conditioner = rcc_configure defaultRcInputCalibration
         \<lparr> rcc_calibration = replicate kNumRcAnalogInputs zero_rc_channel,
           rcc_channels = replicate kNumRcAnalogInputs ChannelState_default, rcc_mode = FilterEma \<rparr>,
       cb_cmd = ControllerCommand_default, cb_raw = ChannelPackInputs_zero,
       cb_conditioned_gimbal = replicate 4 (Fin 0), cb_conditioned_pot = replicate 2 (Fin 0),
       cb_conditioned_encoder = replicate 2 (Fin 0), cb_conditioned_toggles = [1, 1],
       cb_sw_e_debounce = \<lparr> td_stable = 1, td_candidate = 1, td_candidate_since_ms = 0, td_initialized = False \<rparr>,
       cb_sw_f_debounce = \<lparr> td_stable = 1, td_candidate = 1, td_candidate_since_ms = 0, td_initialized = False \<rparr>,
       cb_last_condition_ms = 0, cb_condition_time_seen = False, cb_detected_profile = ProfileUnknown,
       cb_profile_locked = False, cb_custom_layout_streak = 0, cb_tx_direct_layout_streak = 0,
       cb_enc_last = [0, 0], cb_enc_seen = [False, False], cb_enc_accum = [Fin 0, Fin 0],
       cb_arm_release_pending = False, cb_arm_release_since_ms = 0, cb_capture_start_hold_active = False,
       cb_capture_start_hold_fired = False, cb_capture_start_hold_since_ms = 0,
       cb_gait_tune_frac = replicate 3 (Fin 0), cb_edge_prev = replicate kNumEdgeSlots False,
       cb_edge_last_ms = replicate kNumEdgeSlots 0 \<rparr>"

definition bridge_setBindings :: "BindingConfig \<Rightarrow> ControllerBridge \<Rightarrow> ControllerBridge" where
  "bridge_setBindings cfg s = s \<lparr> cb_cfg := cfg \<rparr>"

definition bridge_setCalibration :: "RcChannelCalibration list \<Rightarrow> ControllerBridge \<Rightarrow> ControllerBridge" where
  "bridge_setCalibration cal s =
     (if validateRcInputCalibration cal
      then s \<lparr> cb_calibration := cal, cb_conditioner := rcc_configure cal (cb_conditioner s) \<rparr> else s)"

definition setInputFilterMode :: "InputFilterMode \<Rightarrow> bool \<Rightarrow> ControllerBridge \<Rightarrow> bool \<times> ControllerBridge" where
  "setInputFilterMode md allowed s =
     (let (ok, c) = rcc_setMode md allowed (cb_conditioner s) in (ok, s \<lparr> cb_conditioner := c \<rparr>))"

definition setGaitTuneFractions :: "f32 \<Rightarrow> f32 \<Rightarrow> f32 \<Rightarrow> ControllerBridge \<Rightarrow> ControllerBridge" where
  "setGaitTuneFractions step_height stride duty s =
     (if cc_gait_tune_active (cb_cmd s) then s
      else s \<lparr> cb_gait_tune_frac := map (\<lambda>v. f_clamp v (f_lit 0) (f_lit 1)) [step_height, stride, duty] \<rparr>)"

definition failsafe_command :: "ControllerCommand \<Rightarrow> ControllerCommand" where
  "failsafe_command c = c \<lparr> cc_valid := False, cc_failsafe := True, cc_arm_request := False, cc_estop := True,
     cc_twist_vx := Fin 0, cc_twist_vy := Fin 0, cc_twist_wz := Fin 0,
     cc_pose_x_mm := Fin 0, cc_pose_y_mm := Fin 0, cc_pose_z_mm := Fin 0,
     cc_pose_roll := Fin 0, cc_pose_pitch := Fin 0, cc_pose_yaw := Fin 0, cc_trick := TrickNone \<rparr>"

definition enterFailsafe :: "ControllerBridge \<Rightarrow> ControllerBridge" where
  "enterFailsafe s = s \<lparr> cb_cmd := failsafe_command (cb_cmd s), cb_arm_release_pending := False \<rparr>"

text \<open>The parts of \<open>update\<close> after a layout is known, in its order.\<close>

definition upd_selectors :: "u32 \<Rightarrow> ControllerBridge \<Rightarrow> ControllerBridge" where
  "upd_selectors now_ms s =
     (let gait_v = readTri s (bc_gait_select (cb_cfg s)); mode_v = readTri s (bc_mode_select (cb_cfg s))
      in upd_cmd (\<lambda>c. c \<lparr> cc_valid := True, cc_failsafe := False, cc_ever_seen := True, cc_frame_ms := now_ms,
           cc_gait_index := (if gait_v < 3 then gait_v else 0),
           cc_mode := (if mode_v = 1 then ModeTranslateBody else if mode_v = 2 then ModeRotateBody else ModeYaw) \<rparr>) s)"

definition set_arm :: "bool \<Rightarrow> ControllerBridge \<Rightarrow> ControllerBridge" where
  "set_arm a s = (upd_cmd (\<lambda>c. c \<lparr> cc_arm_request := a \<rparr>) s) \<lparr> cb_arm_release_pending := False \<rparr>"

definition arm_filter :: "bool \<Rightarrow> bool \<Rightarrow> u32 \<Rightarrow> ControllerBridge \<Rightarrow> ControllerBridge" where
  "arm_filter kill arm_level now_ms s =
     (if kill then set_arm False s
      else if arm_level then set_arm True s
      else if cc_arm_request (cb_cmd s) then
        if \<not> cb_arm_release_pending s
        then s \<lparr> cb_arm_release_pending := True, cb_arm_release_since_ms := now_ms \<rparr>
        else if now_ms - cb_arm_release_since_ms s \<ge> kArmReleaseDebounceMs then set_arm False s
        else s
      else s \<lparr> cb_arm_release_pending := False \<rparr>)"

definition upd_levels :: "ControllerBridge \<Rightarrow> ControllerBridge" where
  "upd_levels s = upd_cmd (\<lambda>c. c \<lparr> cc_host_authority := bool_of s bc_host_authority,
     cc_feat_foot_contact := bool_of s bc_feat_foot_contact,
     cc_feat_terrain_leveling := bool_of s bc_feat_terrain_leveling,
     cc_feat_passive_pose := bool_of s bc_feat_passive_pose \<rparr>) s"

definition upd_safety :: "u32 \<Rightarrow> ControllerBridge \<Rightarrow> ControllerBridge" where
  "upd_safety now_ms s =
     (let kill = bool_of s bc_estop; arm_level = bool_of s bc_arm
      in upd_levels (arm_filter kill arm_level now_ms (upd_cmd (\<lambda>c. c \<lparr> cc_estop := kill \<rparr>) s)))"

definition upd_shape :: "u32 \<Rightarrow> ControllerBridge \<Rightarrow> ControllerBridge" where
  "upd_shape now_ms s =
     (let s = upd_cmd (\<lambda>c. c \<lparr> cc_speed := readAxisUnipolar s (bc_speed (cb_cfg s)),
                                cc_body_height := readAxisUnipolar s (bc_body_height (cb_cfg s)) \<rparr>) s;
          s = updateGaitTune now_ms s;
          pick = (\<lambda>b i. if ab_source b \<noteq> AxisNone then readAxisUnipolar s b else cb_gait_tune_frac s ! i)
      in upd_cmd (\<lambda>c. c \<lparr> cc_step_height := pick (bc_step_height (cb_cfg s)) 0,
                             cc_stride := pick (bc_stride (cb_cfg s)) 1, cc_duty := pick (bc_duty (cb_cfg s)) 2 \<rparr>) s)"

definition upd_motion :: "ControllerBridge \<Rightarrow> ControllerBridge" where
  "upd_motion s =
     (let ax = (\<lambda>f. readAxisBipolar s (f (cb_cfg s)));
          s' = upd_cmd (\<lambda>c. c \<lparr> cc_twist_vx := ax bc_walk_forward, cc_twist_vy := ax bc_walk_strafe, cc_twist_wz := Fin 0,
                 cc_pose_x_mm := Fin 0, cc_pose_y_mm := Fin 0, cc_pose_z_mm := Fin 0,
                 cc_pose_roll := Fin 0, cc_pose_pitch := Fin 0, cc_pose_yaw := Fin 0 \<rparr>) s
      in case cc_mode (cb_cmd s) of
           ModeYaw \<Rightarrow> upd_cmd (\<lambda>c. c \<lparr> cc_twist_wz := ax bc_walk_yaw \<rparr>) s'
         | ModeTranslateBody \<Rightarrow> upd_cmd (\<lambda>c. c \<lparr> cc_pose_x_mm := f_mul (ax bc_body_x) poselim_kMaxTransMm,
             cc_pose_y_mm := f_mul (ax bc_body_y) poselim_kMaxTransMm,
             cc_pose_z_mm := f_mul (ax bc_body_z) poselim_kMaxTransMm \<rparr>) s'
         | ModeRotateBody \<Rightarrow> upd_cmd (\<lambda>c. c \<lparr> cc_pose_roll := f_mul (ax bc_body_roll) poselim_kMaxRotRad,
             cc_pose_pitch := f_mul (ax bc_body_pitch) poselim_kMaxRotRad,
             cc_pose_yaw := f_mul (ax bc_body_yaw) poselim_kMaxRotRad \<rparr>) s')"

definition capture_start_hold :: "ControllerBridge \<Rightarrow> bool" where
  "capture_start_hold s \<longleftrightarrow> readBool (cb_raw s) Btn1 \<and> readBool (cb_raw s) Btn2"

definition capture_toggle :: "u32 \<Rightarrow> ControllerBridge \<Rightarrow> ControllerBridge" where
  "capture_toggle now_ms s = on_edge kCaptureEdge (readBool (cb_raw s) Btn4) now_ms
     (upd_cmd (\<lambda>c. c \<lparr> cc_capture_toggle_seq := cc_capture_toggle_seq c + 1 \<rparr>)) s"

definition capture_hold :: "u32 \<Rightarrow> ControllerBridge \<Rightarrow> ControllerBridge" where
  "capture_hold now_ms s =
     (if \<not> capture_start_hold s
      then s \<lparr> cb_capture_start_hold_active := False, cb_capture_start_hold_fired := False \<rparr>
      else if \<not> cb_capture_start_hold_active s
      then s \<lparr> cb_capture_start_hold_active := True, cb_capture_start_hold_since_ms := now_ms \<rparr>
      else if \<not> cb_capture_start_hold_fired s \<and> now_ms - cb_capture_start_hold_since_ms s \<ge> kCaptureStartHoldMs
      then (upd_cmd (\<lambda>c. c \<lparr> cc_capture_start_seq := cc_capture_start_seq c + 1 \<rparr>) s) \<lparr> cb_capture_start_hold_fired := True \<rparr>
      else s)"

definition upd_capture :: "u32 \<Rightarrow> ControllerBridge \<Rightarrow> ControllerBridge" where
  "upd_capture now_ms s = capture_hold now_ms (capture_toggle now_ms s)"

definition trick_slot :: "u32 \<Rightarrow> nat \<Rightarrow> ControllerBridge \<Rightarrow> ControllerBridge" where
  "trick_slot now_ms i s =
     (let tb = bc_tricks (cb_cfg s) ! i in
      if tb_source tb = BoolNone \<or> tb_trick tb = TrickNone then set_prev i False s
      else if capture_start_hold s \<and> (tb_source tb = Btn1 \<or> tb_source tb = Btn2) then set_prev i True s
      else let (fired, s) = repeatingTrickTrigger i (readBool (cb_raw s) (tb_source tb)) now_ms s
           in if fired \<and> cc_trick (cb_cmd s) = TrickNone then upd_cmd (\<lambda>c. c \<lparr> cc_trick := tb_trick tb \<rparr>) s else s)"

definition upd_tricks :: "u32 \<Rightarrow> ControllerBridge \<Rightarrow> ControllerBridge" where
  "upd_tricks now_ms s =
     fold (trick_slot now_ms) [0..<kMaxTrickBindings] (upd_cmd (\<lambda>c. c \<lparr> cc_trick := TrickNone \<rparr>) s)"

definition decode_frame :: "libm \<Rightarrow> u32 \<Rightarrow> ControllerBridge \<Rightarrow> ControllerBridge" where
  "decode_frame m now_ms s =
     (let s = updateConditionedToggles now_ms (updateConditionedInputs m now_ms s);
          s = upd_motion (upd_shape now_ms (upd_safety now_ms (upd_selectors now_ms s)));
          s = (if \<not> cc_gait_tune_active (cb_cmd s) then updatePoseTrim now_ms s else s)
      in upd_tricks now_ms (upd_capture now_ms s))"

definition bridge_update :: "libm \<Rightarrow> u16 list \<Rightarrow> bool \<Rightarrow> u32 \<Rightarrow> ControllerBridge \<Rightarrow> ControllerBridge" where
  "bridge_update m ch link_up now_ms s =
     (if \<not> link_up then
        enterFailsafe (if \<not> cb_profile_locked s
          then s \<lparr> cb_detected_profile := ProfileUnknown, cb_custom_layout_streak := 0, cb_tx_direct_layout_streak := 0 \<rparr>
          else s)
      else
        let s = (if \<not> cb_profile_locked s then attemptProfileDetection ch s else s) in
        if \<not> cb_profile_locked s then enterFailsafe s
        else case cb_detected_profile s of
          CustomControllerChannelPack \<Rightarrow>
            decode_frame m now_ms (integrateEncoders (s \<lparr> cb_raw := unpackChannels ch \<rparr>))
        | Tx16sMk3Direct \<Rightarrow>
            decode_frame m now_ms (updateTx16sDirectVirtualEncoders ch (s \<lparr> cb_raw := unpackTx16sMk3DirectChannels ch \<rparr>))
        | ProfileUnknown \<Rightarrow> enterFailsafe s)"

definition evaluateFailsafe :: "u32 \<Rightarrow> u32 \<Rightarrow> ControllerBridge \<Rightarrow> ControllerBridge" where
  "evaluateFailsafe now_ms timeout_ms s =
     (if \<not> cc_ever_seen (cb_cmd s) then enterFailsafe s
      else if now_ms - cc_frame_ms (cb_cmd s) > timeout_ms then enterFailsafe s
      else s)"

end
