(* ===== verification/ControllerSafety.thy ===== *)
theory ControllerSafety
  imports ControllerBridge
begin

text \<open>
  What the controller bridge promises its client, the control task: when it requests arming, when
  it holds the fail-safe command, and that every motion field of a command is inside its envelope.
\<close>

section \<open>What a frame decides about safety\<close>

definition safety_view :: "ControllerCommand \<Rightarrow> bool \<times> bool \<times> bool \<times> u32 \<times> bool \<times> bool" where
  "safety_view c = (cc_valid c, cc_failsafe c, cc_ever_seen c, cc_frame_ms c, cc_estop c, cc_arm_request c)"

definition frame_view ::
  "ControllerBridge \<Rightarrow> (bool \<times> bool \<times> bool \<times> u32 \<times> bool \<times> bool) \<times> ChannelPackInputs \<times> BindingConfig \<times> bool \<times> InputProfile" where
  "frame_view s = (safety_view (cb_cmd s), cb_raw s, cb_cfg s, cb_profile_locked s, cb_detected_profile s)"

definition keeps :: "(ControllerBridge \<Rightarrow> 'v) \<Rightarrow> (ControllerBridge \<Rightarrow> ControllerBridge) \<Rightarrow> bool" where
  "keeps v f \<longleftrightarrow> (\<forall>s. v (f s) = v s)"

lemma keepsD: "keeps v f \<Longrightarrow> v (f s) = v s"
  by (simp add: keeps_def)

lemma keeps_comp: "keeps v f \<Longrightarrow> keeps v g \<Longrightarrow> keeps v (\<lambda>s. f (g s))"
  by (simp add: keeps_def)

lemma keeps_fold: "(\<And>x. x \<in> set xs \<Longrightarrow> keeps v (f x)) \<Longrightarrow> keeps v (fold f xs)"
  by (induction xs) (auto simp: keeps_def)

lemma frame_view_upd_cmd: "safety_view (f (cb_cmd s)) = safety_view (cb_cmd s) \<Longrightarrow> frame_view (upd_cmd f s) = frame_view s"
  by (simp add: frame_view_def upd_cmd_def)

lemma keeps_upd_cmd: "(\<And>c. safety_view (f c) = safety_view c) \<Longrightarrow> keeps frame_view (upd_cmd f)"
  by (simp add: keeps_def frame_view_upd_cmd)

lemma frame_view_risingEdge: "frame_view (snd (risingEdge slot level now s)) = frame_view s"
  by (simp add: risingEdge_def frame_view_def Let_def)

lemma frame_view_on_edge: "keeps frame_view f \<Longrightarrow> frame_view (on_edge slot level now f s) = frame_view s"
  using frame_view_risingEdge [of slot level now s]
  by (cases "risingEdge slot level now s") (simp add: on_edge_def keepsD)

lemma keeps_id: "keeps v (\<lambda>s. s)"
  by (simp add: keeps_def)

lemma keeps_on_edge:
  "keeps frame_view f \<Longrightarrow> keeps frame_view g \<Longrightarrow>
   keeps frame_view (\<lambda>s. on_edge slot (readBool (cb_raw (g s)) (src (cb_cfg (g s)))) now f (g s))"
  by (simp add: keeps_def [of frame_view g] keeps_def [of frame_view "\<lambda>s. on_edge (H s) (I s) (J s) (K s) (L s)" for H I J K L]
      frame_view_on_edge)

lemma keeps_set_prev: "keeps frame_view g \<Longrightarrow> keeps frame_view (\<lambda>s. set_prev slot (level s) (g s))"
  by (simp add: keeps_def set_prev_def frame_view_def)

lemma keeps_updatePoseTrim: "keeps frame_view (updatePoseTrim now)"
  unfolding updatePoseTrim_def Let_def
  by (intro keeps_on_edge keeps_id keeps_upd_cmd) (simp_all add: safety_view_def)

lemma keeps_edit_on_edge:
  assumes "keeps frame_view f" and "\<And>s. frame_view (snd (p s)) = frame_view s"
  shows "frame_view (snd (edit_on_edge slot src now f (p s))) = frame_view s"
proof -
  obtain e t where p: "p s = (e, t)" by (rule prod.exhaust)
  obtain fired u where r: "risingEdge (kGaitTuneEdgeBase + slot) (bool_of t src) now t = (fired, u)" by (rule prod.exhaust)
  have "frame_view u = frame_view t" using frame_view_risingEdge [of "kGaitTuneEdgeBase + slot" "bool_of t src" now t] r by simp
  moreover have "frame_view t = frame_view s" using assms(2) [of s] p by simp
  ultimately show ?thesis using keepsD [OF assms(1), of u] by (simp add: edit_on_edge_def p r)
qed

lemma keeps_note_edit: "keeps frame_view (note_edit now)"
  unfolding note_edit_def by (rule keeps_upd_cmd) (simp add: safety_view_def)

lemma keeps_bump_frac: "keeps frame_view (bump_frac op)"
  by (simp add: keeps_def bump_frac_def frame_view_def Let_def)

lemma keeps_gait_tune_edit: "keeps frame_view (gait_tune_edit now)"
proof -
  have t: "keeps frame_view sync_trim_edges" unfolding sync_trim_edges_def by (intro keeps_set_prev keeps_id)
  have q: "frame_view (snd (gait_tune_presses now s)) = frame_view s" for s unfolding gait_tune_presses_def
    by (intro keeps_edit_on_edge keeps_bump_frac keeps_upd_cmd) (simp_all add: safety_view_def)
  show ?thesis unfolding keeps_def [of _ "gait_tune_edit now"] gait_tune_edit_def Let_def case_prod_beta
    by (simp add: q keepsD [OF t] keepsD [OF keeps_note_edit])
qed

lemma keeps_gait_tune_toggle: "keeps frame_view (gait_tune_toggle now)"
proof -
  have "frame_view (snd (gait_tune_changed now s)) = frame_view s" for s
    by (simp add: gait_tune_changed_def frame_view_risingEdge)
  then show ?thesis unfolding keeps_def gait_tune_toggle_def Let_def case_prod_beta
    by (simp add: keepsD [OF keeps_note_edit] frame_view_upd_cmd safety_view_def)
qed

lemma keeps_updateGaitTune: "keeps frame_view (updateGaitTune now)"
proof -
  have "keeps frame_view sync_tune_edges" unfolding sync_tune_edges_def by (intro keeps_set_prev keeps_id)
  then show ?thesis unfolding keeps_def [of _ "updateGaitTune now"] updateGaitTune_def Let_def
    by (simp add: keepsD keepsD [OF keeps_gait_tune_edit] keepsD [OF keeps_gait_tune_toggle])
qed

lemma keeps_upd_shape: "keeps frame_view (upd_shape now)"
  unfolding keeps_def upd_shape_def Let_def
  by (simp add: frame_view_upd_cmd safety_view_def keepsD [OF keeps_updateGaitTune])

lemma keeps_upd_motion: "keeps frame_view upd_motion"
  unfolding keeps_def upd_motion_def Let_def
  by (simp add: frame_view_upd_cmd safety_view_def split: ControlMode.split)

lemma keeps_upd_capture: "keeps frame_view (upd_capture now)"
proof -
  have "frame_view (capture_toggle now s) = frame_view s" for s
    unfolding capture_toggle_def by (intro frame_view_on_edge keeps_upd_cmd) (simp add: safety_view_def)
  moreover have "frame_view (capture_hold now s) = frame_view s" for s
    by (simp add: capture_hold_def frame_view_def upd_cmd_def safety_view_def)
  ultimately show ?thesis by (simp add: keeps_def upd_capture_def)
qed

lemma keeps_trick_slot: "keeps frame_view (trick_slot now i)"
  by (auto simp: keeps_def trick_slot_def repeatingTrickTrigger_def set_prev_def upd_cmd_def frame_view_def safety_view_def Let_def)

lemma keeps_upd_tricks: "keeps frame_view (upd_tricks now)"
proof -
  have "keeps frame_view (fold (trick_slot now) [0..<kMaxTrickBindings])" by (intro keeps_fold keeps_trick_slot)
  then show ?thesis unfolding keeps_def upd_tricks_def by (simp add: frame_view_upd_cmd safety_view_def)
qed

lemma keeps_condition:
  "keeps frame_view (condition_gimbal m dt i)" "keeps frame_view (condition_pot m dt i)" "keeps frame_view (condition_encoder m dt i)"
  by (simp_all add: keeps_def condition_gimbal_def condition_pot_def condition_encoder_def condition_source_def
      frame_view_def Let_def case_prod_beta)

lemma keeps_updateConditionedInputs: "keeps frame_view (updateConditionedInputs m now)"
proof -
  have "frame_view (fold (condition_encoder m dt) [0..<2] (fold (condition_pot m dt) [0..<2] (fold (condition_gimbal m dt) [0..<4] s)))
      = frame_view s" for dt s
    by (simp only: keepsD [OF keeps_fold [OF keeps_condition(1)]] keepsD [OF keeps_fold [OF keeps_condition(2)]]
        keepsD [OF keeps_fold [OF keeps_condition(3)]])
  then show ?thesis unfolding keeps_def updateConditionedInputs_def Let_def by (simp add: frame_view_def)
qed

lemma keeps_updateConditionedToggles: "keeps frame_view (updateConditionedToggles now)"
  by (simp add: keeps_def updateConditionedToggles_def frame_view_def Let_def case_prod_beta)

lemma keeps_integrateEncoders: "keeps frame_view integrateEncoders"
proof -
  have "keeps frame_view (integrate_encoder i)" for i by (simp add: keeps_def integrate_encoder_def frame_view_def Let_def)
  then show ?thesis unfolding integrateEncoders_def by (intro keeps_fold)
qed

section \<open>What a decoded frame decides\<close>

text \<open>After the filters, a frame sets the safety fields; what follows keeps them.\<close>

lemma decode_frame_view:
  "frame_view (decode_frame m now s) =
   frame_view (upd_safety now (upd_selectors now (updateConditionedToggles now (updateConditionedInputs m now s))))"
  unfolding decode_frame_def Let_def
  by (simp add: keepsD [OF keeps_upd_tricks] keepsD [OF keeps_upd_capture] keepsD [OF keeps_updatePoseTrim]
      keepsD [OF keeps_upd_motion] keepsD [OF keeps_upd_shape])

lemma upd_selectors_view:
  "frame_view (upd_selectors now s) =
   ((True, False, True, now, cc_estop (cb_cmd s), cc_arm_request (cb_cmd s)), cb_raw s, cb_cfg s, cb_profile_locked s, cb_detected_profile s)"
  by (simp add: upd_selectors_def upd_cmd_def frame_view_def safety_view_def Let_def)

lemma arm_filter_view:
  fixes kill level now s
  defines "arm \<equiv> cc_arm_request (cb_cmd (arm_filter kill level now s))"
  shows "frame_view (arm_filter kill level now s) =
      ((cc_valid (cb_cmd s), cc_failsafe (cb_cmd s), cc_ever_seen (cb_cmd s), cc_frame_ms (cb_cmd s), cc_estop (cb_cmd s), arm),
       cb_raw s, cb_cfg s, cb_profile_locked s, cb_detected_profile s)"
    and "arm \<longrightarrow> \<not> kill" and "arm \<longrightarrow> cc_arm_request (cb_cmd s) \<or> level" and "level \<longrightarrow> \<not> kill \<longrightarrow> arm"
  by (simp_all add: arm_def arm_filter_def set_arm_def upd_cmd_def frame_view_def safety_view_def)

lemma upd_safety_view:
  fixes now s
  defines "arm \<equiv> cc_arm_request (cb_cmd (upd_safety now s))"
  shows "frame_view (upd_safety now s) =
      ((cc_valid (cb_cmd s), cc_failsafe (cb_cmd s), cc_ever_seen (cb_cmd s), cc_frame_ms (cb_cmd s), bool_of s bc_estop, arm),
       cb_raw s, cb_cfg s, cb_profile_locked s, cb_detected_profile s)"
    and "arm \<longrightarrow> \<not> bool_of s bc_estop" and "arm \<longrightarrow> cc_arm_request (cb_cmd s) \<or> bool_of s bc_arm"
    and "bool_of s bc_arm \<longrightarrow> \<not> bool_of s bc_estop \<longrightarrow> arm"
proof -
  define t where "t = arm_filter (bool_of s bc_estop) (bool_of s bc_arm) now (upd_cmd (\<lambda>c. c \<lparr> cc_estop := bool_of s bc_estop \<rparr>) s)"
  note f = arm_filter_view [where kill = "bool_of s bc_estop" and level = "bool_of s bc_arm" and now = now
    and s = "upd_cmd (\<lambda>c. c \<lparr> cc_estop := bool_of s bc_estop \<rparr>) s", folded t_def]
  have u: "upd_safety now s = upd_levels t" by (simp add: upd_safety_def t_def Let_def)
  have a: "arm = cc_arm_request (cb_cmd t)" by (simp add: arm_def u upd_levels_def upd_cmd_def)
  have "frame_view (upd_levels t) = frame_view t"
    unfolding upd_levels_def by (rule frame_view_upd_cmd) (simp add: safety_view_def)
  then show "frame_view (upd_safety now s) =
      ((cc_valid (cb_cmd s), cc_failsafe (cb_cmd s), cc_ever_seen (cb_cmd s), cc_frame_ms (cb_cmd s), bool_of s bc_estop, arm),
       cb_raw s, cb_cfg s, cb_profile_locked s, cb_detected_profile s)"
    unfolding u a using f(1) by (simp add: upd_cmd_def)
  show "arm \<longrightarrow> \<not> bool_of s bc_estop" "arm \<longrightarrow> cc_arm_request (cb_cmd s) \<or> bool_of s bc_arm"
    "bool_of s bc_arm \<longrightarrow> \<not> bool_of s bc_estop \<longrightarrow> arm"
    using f(2-4) unfolding a by (simp_all add: upd_cmd_def)
qed

lemma decode_frame_safety:
  fixes m now s
  defines "arm \<equiv> cc_arm_request (cb_cmd (decode_frame m now s))"
  shows "frame_view (decode_frame m now s) =
      ((True, False, True, now, bool_of s bc_estop, arm), cb_raw s, cb_cfg s, cb_profile_locked s, cb_detected_profile s)"
    and "arm \<longrightarrow> \<not> bool_of s bc_estop" and "arm \<longrightarrow> cc_arm_request (cb_cmd s) \<or> bool_of s bc_arm"
    and "bool_of s bc_arm \<longrightarrow> \<not> bool_of s bc_estop \<longrightarrow> arm"
proof -
  define t where "t = upd_selectors now (updateConditionedToggles now (updateConditionedInputs m now s))"
  have c: "frame_view (updateConditionedToggles now (updateConditionedInputs m now s)) = frame_view s"
    by (simp add: keepsD [OF keeps_updateConditionedToggles] keepsD [OF keeps_updateConditionedInputs])
  have t: "frame_view t = ((True, False, True, now, cc_estop (cb_cmd s), cc_arm_request (cb_cmd s)),
      cb_raw s, cb_cfg s, cb_profile_locked s, cb_detected_profile s)"
    using c unfolding t_def upd_selectors_view by (simp add: frame_view_def safety_view_def)
  have v: "cc_valid (cb_cmd t)" "\<not> cc_failsafe (cb_cmd t)" "cc_ever_seen (cb_cmd t)" "cc_frame_ms (cb_cmd t) = now"
    "cb_raw t = cb_raw s" "cb_cfg t = cb_cfg s" "cc_arm_request (cb_cmd t) = cc_arm_request (cb_cmd s)"
    "cb_profile_locked t = cb_profile_locked s" "cb_detected_profile t = cb_detected_profile s"
    using t by (simp_all add: frame_view_def safety_view_def)
  have d: "frame_view (decode_frame m now s) = frame_view (upd_safety now t)" unfolding decode_frame_view t_def ..
  then have a: "arm = cc_arm_request (cb_cmd (upd_safety now t))" by (simp add: arm_def frame_view_def safety_view_def)
  note u = upd_safety_view [where now = now and s = t, folded a, unfolded v]
  show "frame_view (decode_frame m now s) =
      ((True, False, True, now, bool_of s bc_estop, arm), cb_raw s, cb_cfg s, cb_profile_locked s, cb_detected_profile s)"
    unfolding d using u(1) v(1-3) by simp
  show "arm \<longrightarrow> \<not> bool_of s bc_estop" "arm \<longrightarrow> cc_arm_request (cb_cmd s) \<or> bool_of s bc_arm"
    "bool_of s bc_arm \<longrightarrow> \<not> bool_of s bc_estop \<longrightarrow> arm"
    using u(2-4) by simp_all
qed

section \<open>The bridge over time\<close>

datatype bridge_op =
    BridgeReset bool | BridgeBindings BindingConfig | BridgeCalibration "RcChannelCalibration list"
  | BridgeFilter InputFilterMode bool | BridgeTune f32 f32 f32 | BridgeFrame "u16 list" bool u32 | BridgeTick u32 u32

fun bridge_step :: "libm \<Rightarrow> bridge_op \<Rightarrow> ControllerBridge \<Rightarrow> ControllerBridge" where
  "bridge_step m (BridgeReset force) s = bridge_reset force s"
| "bridge_step m (BridgeBindings cfg) s = bridge_setBindings cfg s"
| "bridge_step m (BridgeCalibration cal) s = bridge_setCalibration cal s"
| "bridge_step m (BridgeFilter md allowed) s = snd (setInputFilterMode md allowed s)"
| "bridge_step m (BridgeTune a b c) s = setGaitTuneFractions a b c s"
| "bridge_step m (BridgeFrame ch link_up now) s = bridge_update m ch link_up now s"
| "bridge_step m (BridgeTick now timeout) s = evaluateFailsafe now timeout s"

definition failsafe_held :: "ControllerCommand \<Rightarrow> bool" where
  "failsafe_held c \<longleftrightarrow> \<not> cc_valid c \<and> cc_failsafe c \<and> \<not> cc_arm_request c \<and> cc_estop c \<and> cc_trick c = TrickNone \<and>
     list_all (\<lambda>v. v = Fin 0) [cc_twist_vx c, cc_twist_vy c, cc_twist_wz c, cc_pose_x_mm c, cc_pose_y_mm c, cc_pose_z_mm c,
       cc_pose_roll c, cc_pose_pitch c, cc_pose_yaw c]"

definition arm_inv :: "ControllerBridge \<Rightarrow> bool" where
  "arm_inv s \<longleftrightarrow> (let c = cb_cmd s in
     (cc_arm_request c \<longrightarrow> cc_valid c \<and> \<not> cc_failsafe c \<and> \<not> cc_estop c) \<and> (cc_failsafe c \<longrightarrow> failsafe_held c) \<and>
     (cc_valid c \<longrightarrow> cb_profile_locked s))"

lemma enterFailsafe_held [simp]: "failsafe_held (cb_cmd (enterFailsafe s))"
  by (simp add: enterFailsafe_def failsafe_command_def failsafe_held_def)

lemma failsafe_held_D: "failsafe_held c \<Longrightarrow> \<not> cc_valid c \<and> cc_failsafe c \<and> \<not> cc_arm_request c \<and> cc_estop c"
  by (simp add: failsafe_held_def)

lemma arm_inv_failsafe: "failsafe_held (cb_cmd s) \<Longrightarrow> arm_inv s"
  by (auto simp: arm_inv_def Let_def dest: failsafe_held_D)

lemma reset_held [simp]: "failsafe_held (cb_cmd (bridge_reset force s))"
  by (simp add: bridge_reset_def failsafe_held_def ControllerCommand_default_def)

lemma readBool_encoder [simp]: "readBool (r \<lparr> cp_encoder := e \<rparr>) src = readBool r src"
  by (cases src) simp_all

text \<open>A frame either holds the fail-safe command or is decoded, from a state with the raw inputs.\<close>

lemma bridge_update_cases:
  obtains "failsafe_held (cb_cmd (bridge_update m ch link_up now s))"
  | t where "link_up" "bridge_update m ch link_up now s = decode_frame m now t" "cb_profile_locked t" "cb_cfg t = cb_cfg s"
      "cc_arm_request (cb_cmd t) = cc_arm_request (cb_cmd s)"
proof (cases link_up)
  case True
  define u where "u = (if \<not> cb_profile_locked s then attemptProfileDetection ch s else s)"
  have u: "cb_cfg u = cb_cfg s" "cb_cmd u = cb_cmd s" by (simp_all add: u_def attemptProfileDetection_def Let_def)
  have e: "frame_view (integrateEncoders (u \<lparr> cb_raw := r \<rparr>)) = frame_view (u \<lparr> cb_raw := r \<rparr>)" for r
    by (rule keepsD [OF keeps_integrateEncoders])
  have custom: "cb_cfg (integrateEncoders (u \<lparr> cb_raw := r \<rparr>)) = cb_cfg s"
    "cb_profile_locked (integrateEncoders (u \<lparr> cb_raw := r \<rparr>)) = cb_profile_locked u"
    "cc_arm_request (cb_cmd (integrateEncoders (u \<lparr> cb_raw := r \<rparr>))) = cc_arm_request (cb_cmd s)" for r
    using e [of r] u by (simp_all add: frame_view_def safety_view_def)
  have direct: "cb_cfg (updateTx16sDirectVirtualEncoders ch (u \<lparr> cb_raw := r \<rparr>)) = cb_cfg s"
    "cb_profile_locked (updateTx16sDirectVirtualEncoders ch (u \<lparr> cb_raw := r \<rparr>)) = cb_profile_locked u"
    "cb_cmd (updateTx16sDirectVirtualEncoders ch (u \<lparr> cb_raw := r \<rparr>)) = cb_cmd s" for r
    using u by (simp_all add: updateTx16sDirectVirtualEncoders_def Let_def)
  have b: "bridge_update m ch link_up now s =
      (if \<not> cb_profile_locked u then enterFailsafe u
       else case cb_detected_profile u of
         CustomControllerChannelPack \<Rightarrow> decode_frame m now (integrateEncoders (u \<lparr> cb_raw := unpackChannels ch \<rparr>))
       | Tx16sMk3Direct \<Rightarrow> decode_frame m now
           (updateTx16sDirectVirtualEncoders ch (u \<lparr> cb_raw := unpackTx16sMk3DirectChannels ch \<rparr>))
       | ProfileUnknown \<Rightarrow> enterFailsafe u)"
    unfolding bridge_update_def u_def Let_def using True by simp
  show thesis
  proof (cases "cb_profile_locked u \<and> cb_detected_profile u \<noteq> ProfileUnknown")
    case False
    then show thesis using that(1) by (auto simp: b split: InputProfile.splits)
  next
    case locked: True
    then show thesis using that(2) [OF True] custom direct by (cases "cb_detected_profile u") (auto simp: b)
  qed
qed (use that(1) in \<open>simp add: bridge_update_def\<close>)

lemma arm_inv_decode: "cb_profile_locked t \<Longrightarrow> arm_inv (decode_frame m now t)"
  using decode_frame_safety(1,2) [of m now t]
  by (simp add: arm_inv_def Let_def frame_view_def safety_view_def)

lemma arm_inv_step: "arm_inv s \<Longrightarrow> arm_inv (bridge_step m op s)"
proof (cases op)
  case (BridgeFrame ch link_up now)
  then show ?thesis
    by (rule_tac bridge_update_cases [of m ch link_up now s]) (simp_all add: arm_inv_failsafe arm_inv_decode)
next
  case (BridgeReset force)
  then show ?thesis using arm_inv_failsafe [OF reset_held] by simp
next
  case (BridgeTick now timeout)
  assume "arm_inv s"
  then show ?thesis using BridgeTick arm_inv_failsafe [OF enterFailsafe_held] by (simp add: evaluateFailsafe_def)
qed (auto simp: arm_inv_def bridge_setBindings_def bridge_setCalibration_def setInputFilterMode_def setGaitTuneFractions_def
     Let_def case_prod_beta)

lemma arm_inv_run: "arm_inv (fold (bridge_step m) ops (ControllerBridge_new force))"
proof -
  have "arm_inv s \<Longrightarrow> arm_inv (fold (bridge_step m) ops s)" for s
    by (induction ops arbitrary: s) (simp_all add: arm_inv_step)
  then show ?thesis by (simp add: ControllerBridge_new_def arm_inv_failsafe)
qed

lemma arm_request_other_op:
  "\<forall>ch link_up now. op \<noteq> BridgeFrame ch link_up now \<Longrightarrow> cc_arm_request (cb_cmd (bridge_step m op s)) \<Longrightarrow> cc_arm_request (cb_cmd s)"
  using failsafe_held_D [OF enterFailsafe_held, of s]
  by (cases op) (auto simp: bridge_setBindings_def bridge_setCalibration_def setInputFilterMode_def setGaitTuneFractions_def
      evaluateFailsafe_def bridge_reset_def ControllerCommand_default_def Let_def case_prod_beta split: if_splits)

text \<open>
  C17: the radio cannot arm the robot by accident. From construction on, whatever frames, link
  losses, rebindings and calibrations happen: an arm request stands only in a valid command of a
  known channel layout, without emergency stop and outside fail-safe; it appears only with a frame
  of a live link in which the arm switch is on and the kill switch is off; a decoded frame reports
  the emergency stop exactly as its kill switch stands; fail-safe means no motion, no trick, not
  armed and emergency stop asserted; and a lost link or a silence longer than the timeout puts the
  bridge there at once.
\<close>

theorem bridge_arming_safe:
  assumes "s = fold (bridge_step m) ops (ControllerBridge_new force)" and "s' = bridge_step m op s"
  shows "(cc_arm_request (cb_cmd s') \<longrightarrow> cc_valid (cb_cmd s') \<and> cb_profile_locked s' \<and> \<not> cc_failsafe (cb_cmd s') \<and> \<not> cc_estop (cb_cmd s')) \<and>
    (cc_arm_request (cb_cmd s') \<and> \<not> cc_arm_request (cb_cmd s) \<longrightarrow>
       (\<exists>ch now. op = BridgeFrame ch True now) \<and> bool_of s' bc_arm \<and> \<not> bool_of s' bc_estop) \<and>
    ((\<exists>ch up now. op = BridgeFrame ch up now) \<and> cc_valid (cb_cmd s') \<longrightarrow> cc_estop (cb_cmd s') = bool_of s' bc_estop) \<and>
    (cc_failsafe (cb_cmd s') \<longrightarrow> failsafe_held (cb_cmd s')) \<and>
    ((\<exists>ch now. op = BridgeFrame ch False now) \<or> (\<exists>now timeout. op = BridgeTick now timeout \<and> now - cc_frame_ms (cb_cmd s) > timeout)
       \<longrightarrow> cc_failsafe (cb_cmd s'))"
proof -
  have inv: "arm_inv s'" unfolding assms by (intro arm_inv_step arm_inv_run)
  have frame: "(cc_arm_request (cb_cmd s') \<and> \<not> cc_arm_request (cb_cmd s) \<longrightarrow> up \<and> bool_of s' bc_arm \<and> \<not> bool_of s' bc_estop) \<and>
      (cc_valid (cb_cmd s') \<longrightarrow> cc_estop (cb_cmd s') = bool_of s' bc_estop)" if op: "op = BridgeFrame ch up now" for ch up now
  proof (rule bridge_update_cases [of m ch up now s])
    assume "failsafe_held (cb_cmd (bridge_update m ch up now s))"
    then show ?thesis using op assms(2) by (auto dest: failsafe_held_D)
  next
    fix t
    assume t: "up" "bridge_update m ch up now s = decode_frame m now t" "cc_arm_request (cb_cmd t) = cc_arm_request (cb_cmd s)"
    then have "s' = decode_frame m now t" using op assms(2) by simp
    then show ?thesis using decode_frame_safety [where m = m and now = now and s = t] t
      by (auto simp: frame_view_def safety_view_def)
  qed
  have down: "cc_failsafe (cb_cmd s')" if "op = BridgeFrame ch False now" for ch now
    using that assms(2) failsafe_held_D [OF enterFailsafe_held] by (simp add: bridge_update_def)
  have silent: "cc_failsafe (cb_cmd s')" if "op = BridgeTick now timeout" "now - cc_frame_ms (cb_cmd s) > timeout" for now timeout
    using that assms(2) failsafe_held_D [OF enterFailsafe_held] by (simp add: evaluateFailsafe_def)
  have "\<exists>ch up now. op = BridgeFrame ch up now" if "cc_arm_request (cb_cmd s')" "\<not> cc_arm_request (cb_cmd s)"
    using arm_request_other_op [of op m s] that assms(2) by auto
  then show ?thesis using inv frame down silent by (auto simp: arm_inv_def Let_def)
qed

theorem bridge_arming_safe_witness:
  "failsafe_held (cb_cmd (bridge_step rcc_sample_libm (BridgeFrame (replicate 16 992) False 5)
     (fold (bridge_step rcc_sample_libm) [BridgeTick 4 250] (ControllerBridge_new True))))"
  using bridge_arming_safe [OF refl refl, where m = rcc_sample_libm and ops = "[BridgeTick 4 250]" and force = True
    and op = "BridgeFrame (replicate 16 992) False 5"] by blast

end
