(* ===== verification/ControllerEnvelope.thy ===== *)
theory ControllerEnvelope
  imports ControllerSafety
begin

text \<open>
  The motion envelope of the controller bridge: whatever the radio sends, every field of the command
  is a number inside the limits the control task relies on.
\<close>

definition calibration_ok :: "RcChannelCalibration list \<Rightarrow> bool" where
  "calibration_ok cs \<longleftrightarrow> (\<forall>c \<in> set cs. \<not> rc_channel_bad c \<and> (rc_type c = 0 \<longrightarrow> center_raw c \<noteq> min_raw c \<and> center_raw c \<noteq> max_raw c))"

lemma validate_rc_calibration_ok: "validateRcInputCalibration cs \<Longrightarrow> calibration_ok cs"
proof -
  have step: "validate_rc_loop (c # cs) seen \<Longrightarrow> \<not> rc_channel_bad c \<and>
      (rc_type c = 0 \<longrightarrow> center_raw c \<noteq> min_raw c \<and> center_raw c \<noteq> max_raw c) \<and> (\<exists>seen. validate_rc_loop cs seen)" for c cs seen
    unfolding validate_rc_loop.simps Let_def by (simp only: split: if_split_asm) blast
  have "validate_rc_loop cs seen \<Longrightarrow> calibration_ok cs" for seen
  proof (induction cs arbitrary: seen)
    case (Cons c cs)
    then show ?case using step [OF Cons.prems] by (auto simp: calibration_ok_def)
  qed (simp add: calibration_ok_def)
  then show "validateRcInputCalibration cs \<Longrightarrow> calibration_ok cs" by (simp add: validateRcInputCalibration_def)
qed

definition axis_ok :: "AxisBinding \<Rightarrow> bool" where
  "axis_ok b \<longleftrightarrow> ab_deadband b \<noteq> NaN"

definition bindings_ok :: "BindingConfig \<Rightarrow> bool" where
  "bindings_ok c \<longleftrightarrow> list_all axis_ok [bc_walk_forward c, bc_walk_strafe c, bc_walk_yaw c, bc_body_x c, bc_body_y c, bc_body_z c,
     bc_body_roll c, bc_body_pitch c, bc_body_yaw c, bc_speed c, bc_body_height c, bc_stride c, bc_step_height c, bc_duty c]"

definition inputs_inv :: "ControllerBridge \<Rightarrow> bool" where
  "inputs_inv s \<longleftrightarrow> cond_ok (cb_conditioner s) \<and> calibration_ok (cb_calibration s) \<and> bindings_ok (cb_cfg s) \<and>
     length (cb_conditioned_gimbal s) = 4 \<and> list_all (f_in (- 1) 1) (cb_conditioned_gimbal s) \<and>
     length (cb_conditioned_pot s) = 2 \<and> list_all (f_in (- 1) 1) (cb_conditioned_pot s) \<and>
     length (cb_conditioned_encoder s) = 2 \<and> list_all (f_in (- 1) 1) (cb_conditioned_encoder s) \<and>
     length (cb_enc_accum s) = 2 \<and> list_all (f_unit 0) (cb_enc_accum s) \<and>
     length (cb_gait_tune_frac s) = 3 \<and> list_all (f_in 0 1) (cb_gait_tune_frac s) \<and>
     list_all f_rep (cb_conditioned_gimbal s) \<and> list_all f_rep (cb_conditioned_pot s) \<and> list_all f_rep (cb_conditioned_encoder s) \<and>
     list_all f_rep (cb_gait_tune_frac s)"

definition rot_max :: rat where "rot_max = rnd32 (4363 / 10000)"

definition command_ok :: "ControllerCommand \<Rightarrow> bool" where
  "command_ok c \<longleftrightarrow> list_all (f_in (- 1) 1) [cc_twist_vx c, cc_twist_vy c, cc_twist_wz c] \<and>
     list_all (f_in (- 50) 50) [cc_pose_x_mm c, cc_pose_y_mm c, cc_pose_z_mm c] \<and>
     list_all (f_in (- rot_max) rot_max) [cc_pose_roll c, cc_pose_pitch c, cc_pose_yaw c, cc_trim_roll c, cc_trim_pitch c] \<and>
     list_all (f_in 0 1) [cc_speed c, cc_body_height c, cc_stride c, cc_step_height c, cc_duty c] \<and> cc_gait_index c < 3 \<and>
     list_all f_rep [cc_twist_vx c, cc_twist_vy c, cc_twist_wz c, cc_pose_x_mm c, cc_pose_y_mm c, cc_pose_z_mm c,
       cc_pose_roll c, cc_pose_pitch c, cc_pose_yaw c, cc_trim_roll c, cc_trim_pitch c,
       cc_speed c, cc_body_height c, cc_stride c, cc_step_height c, cc_duty c]"

section \<open>Readings\<close>

lemma rot_max: "poselim_kMaxRotRad = Fin rot_max" "kTrimMaxRad = Fin rot_max" "0 \<le> rot_max" "rnd32 rot_max = rot_max"
  by (simp_all add: poselim_kMaxRotRad_def kTrimMaxRad_def f_lit_def rot_max_def f_round_small rnd32_nonneg)

lemma f_div_ints:
  assumes "0 < b" and "b \<le> 65535" and "- 65535 \<le> a" and "a \<le> 65535"
  shows "f_div (f_of_int a) (f_of_int b) = f_round (of_int a / of_int b)"
proof -
  have "f_of_int a = Fin (of_int a)" "f_of_int b = Fin (of_int b)" using assms by (auto intro!: f_of_int_exact)
  then show ?thesis using assms(1) by simp
qed

lemma f_neg_rep: "f_rep v \<Longrightarrow> f_rep (f_neg v)" "v \<noteq> NaN \<Longrightarrow> f_neg v \<noteq> NaN"
  by (cases v; simp add: f_rep_def rnd32_minus)+

lemma f_sub_not_NaN: "v \<noteq> NaN \<Longrightarrow> f_sub (Fin a) v \<noteq> NaN" "f_rep (f_sub (Fin a) v)"
  by (cases v; simp add: f_sub_def f_rep_def f_round_def Let_def)+

lemma calibrationFor_ok:
  assumes "calibration_ok (cb_calibration s)" and "calibrationFor s src = Some c"
  shows "\<not> rc_channel_bad c" and "rc_type c = 0 \<Longrightarrow> center_raw c \<noteq> min_raw c \<and> center_raw c \<noteq> max_raw c"
proof -
  have "c \<in> set (cb_calibration s)" using assms(2) by (auto simp: calibrationFor_def find_Some_iff split: if_splits)
  then show "\<not> rc_channel_bad c" "rc_type c = 0 \<Longrightarrow> center_raw c \<noteq> min_raw c \<and> center_raw c \<noteq> max_raw c"
    using assms(1) by (auto simp: calibration_ok_def)
qed

lemma sint16_bounds: "- 32768 \<le> sint (w :: i16)" "sint w \<le> 32767"
  using sint_ge [of w] sint_lt [of w] by simp_all

lemma rc_channel_okD:
  assumes "\<not> rc_channel_bad c"
  shows "sint (min_raw c) < sint (max_raw c)" "sint (min_raw c) \<le> sint (center_raw c)" "sint (center_raw c) \<le> sint (max_raw c)"
  using assms unfolding rc_channel_bad_def not_le de_Morgan_disj not_less by blast+

lemma clamped_raw_bounds: "\<not> rc_channel_bad c \<Longrightarrow> sint (min_raw c) \<le> clamped_raw raw c \<and> clamped_raw raw c \<le> sint (max_raw c)"
  using rc_channel_okD [of c] by (simp add: clamped_raw_def)

lemma readCalibratedBipolar_unit:
  assumes "calibration_ok (cb_calibration s)"
  shows "f_unit (- 1) (valid_or_zero (readCalibratedBipolar s src raw))"
proof (cases "readCalibratedBipolar s src raw")
  case (Some v)
  then obtain c where c: "calibrationFor s src = Some c" "rc_type c = 0" by (auto simp: readCalibratedBipolar_def split: option.splits if_splits)
  note ok = calibrationFor_ok [OF assms c(1)]
  define r where "r = clamped_raw raw c"
  have b: "sint (min_raw c) < sint (center_raw c)" "sint (center_raw c) < sint (max_raw c)"
    using ok(2) [OF c(2)] rc_channel_okD(2,3) [OF ok(1)] by (metis order_less_le signed_word_eqI)+
  have r: "sint (min_raw c) \<le> r" "r \<le> sint (max_raw c)" using clamped_raw_bounds [OF ok(1)] by (simp_all add: r_def)
  note w = sint16_bounds [of "min_raw c"] sint16_bounds [of "max_raw c"]
  have q: "f_div (f_of_int (r - sint (center_raw c))) (f_of_int (sint (max_raw c) - sint (center_raw c))) =
      f_round (of_int (r - sint (center_raw c)) / of_int (sint (max_raw c) - sint (center_raw c)))"
    "f_div (f_of_int (r - sint (center_raw c))) (f_of_int (sint (center_raw c) - sint (min_raw c))) =
      f_round (of_int (r - sint (center_raw c)) / of_int (sint (center_raw c) - sint (min_raw c)))"
    using b r w by (intro f_div_ints; linarith)+
  define d where "d = (if sint (center_raw c) \<le> r then sint (max_raw c) - sint (center_raw c) else sint (center_raw c) - sint (min_raw c))"
  define x where "x = f_round (of_int (r - sint (center_raw c)) / of_int d)"
  have "v = f_clamp (if rc_reversed c \<noteq> 0 then f_neg x else x) (Fin (- 1)) (Fin 1)"
    using Some c q by (auto simp: readCalibratedBipolar_def Let_def x_def d_def simp flip: r_def split: if_split_asm)
  then obtain u where "v = f_clamp u (Fin (- 1)) (Fin 1)" "u \<noteq> NaN" "f_rep u"
    using f_neg_rep [of x] by (auto simp: x_def split: if_splits)
  then show ?thesis using f_clamp_unit [of u "- 1"] by (simp add: Some valid_or_zero_def)
qed (simp add: valid_or_zero_def f_unit_def f_rep_def)

lemma readCalibratedUnipolar_unit:
  assumes "calibration_ok (cb_calibration s)"
  shows "f_unit 0 (valid_or_zero (readCalibratedUnipolar s src raw))"
proof (cases "readCalibratedUnipolar s src raw")
  case (Some v)
  then obtain c where c: "calibrationFor s src = Some c" by (auto simp: readCalibratedUnipolar_def split: option.splits)
  note ok = calibrationFor_ok(1) [OF assms c]
  define r where "r = clamped_raw raw c"
  note b = rc_channel_okD(1) [OF ok]
  have r: "sint (min_raw c) \<le> r" "r \<le> sint (max_raw c)" using clamped_raw_bounds [OF ok] by (simp_all add: r_def)
  note w = sint16_bounds [of "min_raw c"] sint16_bounds [of "max_raw c"]
  have q: "f_div (f_of_int (r - sint (min_raw c))) (f_of_int (sint (max_raw c) - sint (min_raw c))) =
      f_round (of_int (r - sint (min_raw c)) / of_int (sint (max_raw c) - sint (min_raw c)))"
    using b r w by (intro f_div_ints; linarith)
  define x where "x = f_round (of_int (r - sint (min_raw c)) / of_int (sint (max_raw c) - sint (min_raw c)))"
  have "v = f_clamp (if rc_reversed c \<noteq> 0 then f_sub (f_lit 1) x else x) (Fin 0) (Fin 1)"
    using Some c q by (auto simp: readCalibratedUnipolar_def Let_def x_def simp flip: r_def split: if_split_asm)
  then obtain u where "v = f_clamp u (Fin 0) (Fin 1)" "u \<noteq> NaN" "f_rep u"
    using f_sub_not_NaN [where v = x and a = 1] by (auto simp: x_def split: if_splits)
  then show ?thesis using f_clamp_unit [of u 0] by (simp add: Some valid_or_zero_def)
qed (simp add: valid_or_zero_def f_unit_def f_rep_def)

lemma nth_gimbal: "inputs_inv s \<Longrightarrow> i < 4 \<Longrightarrow> f_in (- 1) 1 (cb_conditioned_gimbal s ! i)"
  "inputs_inv s \<Longrightarrow> j < 2 \<Longrightarrow> f_in (- 1) 1 (cb_conditioned_pot s ! j)"
  "inputs_inv s \<Longrightarrow> j < 2 \<Longrightarrow> f_in (- 1) 1 (cb_conditioned_encoder s ! j)"
  by (simp_all add: inputs_inv_def list_all_length)

lemma conditioned_in: "inputs_inv s \<Longrightarrow> f_in (- 1) 1 (conditionedBipolar s src)"
  "inputs_inv s \<Longrightarrow> f_in (- 1) 1 (conditionedUnipolar s src)"
  by (cases src; simp add: conditionedBipolar_def conditionedUnipolar_def nth_gimbal)+

lemma nth_rep: "inputs_inv s \<Longrightarrow> i < 4 \<Longrightarrow> f_rep (cb_conditioned_gimbal s ! i)"
  "inputs_inv s \<Longrightarrow> j < 2 \<Longrightarrow> f_rep (cb_conditioned_pot s ! j)"
  "inputs_inv s \<Longrightarrow> j < 2 \<Longrightarrow> f_rep (cb_conditioned_encoder s ! j)"
  by (simp_all add: inputs_inv_def list_all_length)

lemma conditioned_rep: "inputs_inv s \<Longrightarrow> f_rep (conditionedBipolar s src)" "inputs_inv s \<Longrightarrow> f_rep (conditionedUnipolar s src)"
  by (cases src; simp add: conditionedBipolar_def conditionedUnipolar_def nth_rep)+

lemma response_rep: "f_rep v \<Longrightarrow> f_rep (applyBindingResponse s b v)"
  by (simp add: applyBindingResponse_def applyExpo_def Let_def)

lemma readAxis_rep: "inputs_inv s \<Longrightarrow> f_rep (readAxisBipolar s b)" "inputs_inv s \<Longrightarrow> f_rep (readAxisUnipolar s b)"
  by (simp_all add: readAxisBipolar_def readAxisUnipolar_def Let_def response_rep conditioned_rep)

lemma rcc_scales_not_NaN: "rcc_deadband c src \<noteq> NaN" "rcc_expo c src \<noteq> NaN"
proof -
  obtain k where k: "kX255Scale = Fin k" unfolding kX255Scale_def
    using f_div_ints [of 255 1] f_of_int_exact [of 1] f_of_int_exact [of 255] by (simp add: f_lit_def f_of_int_def f_round_small)
  have "f_mul (f_of_int (uint (w :: u8))) (Fin k) \<noteq> NaN" for w
    using f_of_int_exact [of "uint w"] uint_lt2p [of w] by simp
  then show "rcc_deadband c src \<noteq> NaN" "rcc_expo c src \<noteq> NaN"
    by (simp_all add: rcc_deadband_def rcc_expo_def k split: option.split)
qed

lemma applyBindingResponse_bound:
  assumes "axis_ok b" and "f_in (- 8) 8 v"
  shows "f_in (- (2 ^ 60)) (2 ^ 60) (applyBindingResponse s b v)"
proof -
  define db where "db = (if f_lt (Fin 0) (ab_deadband b) then ab_deadband b
    else rcc_deadband (cb_conditioner s) (of_nat (axisCode (ab_source b))))"
  have "db \<noteq> NaN" using assms(1) rcc_scales_not_NaN(1) by (simp add: db_def axis_ok_def)
  from applyExpo_bound [OF applyDeadband_bound [OF assms(2) this] rcc_scales_not_NaN(2)]
  have "f_in (- (2 ^ 60)) (2 ^ 60) (applyExpo (applyDeadband v db) (rcc_expo (cb_conditioner s) (of_nat (axisCode (ab_source b)))))" .
  moreover have "f_in (- (2 ^ 60)) (2 ^ 60) v" using f_in_mono [OF assms(2)] by simp
  ultimately show ?thesis unfolding applyBindingResponse_def Let_def db_def [symmetric] by simp
qed

lemma readAxisBipolar_in:
  assumes "inputs_inv s" and "axis_ok b"
  shows "f_in (- 1) 1 (readAxisBipolar s b)"
proof -
  define v where "v = (if axisCode (ab_source b) \<le> 4 then conditionedBipolar s (ab_source b)
    else f_sub (f_mul (conditionedUnipolar s (ab_source b)) (f_lit 2)) (f_lit 1))"
  have two: "f_lit 2 = Fin 2" using f_of_int_exact [of 2] by (simp add: f_lit_def f_of_int_def)
  obtain a where a: "conditionedUnipolar s (ab_source b) = Fin a" "- 1 \<le> a" "a \<le> 1"
    using conditioned_in(2) [OF assms(1)] by (rule f_inE)
  have mm: "f_in (- 2) 2 (f_mul (Fin a) (Fin 2))"
    using f_round_in [of "- 2" "a * 2" 2] a rnd32_of_int [of 2] rnd32_of_int [of "- 2"] by (simp add: power_int_def)
  have "f_in (- 6) 6 (f_sub (f_mul (Fin a) (Fin 2)) (f_lit 1))" using f_add_bound(2) [OF mm, of 1 "f_lit 1"] by simp
  then have "f_in (- 8) 8 v" unfolding v_def a(1) two using f_in_mono [OF conditioned_in(1) [OF assms(1)], of "- 8" 8]
    by (auto intro: f_in_mono)
  from applyBindingResponse_bound [OF assms(2) this, of s] have n: "applyBindingResponse s b v \<noteq> NaN" by (rule f_in_not_NaN)
  define w where "w = (if ab_invert b then f_neg (applyBindingResponse s b v) else applyBindingResponse s b v)"
  have "w \<noteq> NaN" using n f_neg_rep(2) [OF n] by (simp add: w_def)
  from f_clamp_in [OF this, of "- 1" 1] show ?thesis unfolding readAxisBipolar_def Let_def v_def [symmetric] w_def [symmetric] by simp
qed

lemma readAxisUnipolar_in:
  assumes "inputs_inv s" and "axis_ok b"
  shows "f_in 0 1 (readAxisUnipolar s b)"
proof -
  define v where "v = (if axisCode (ab_source b) \<le> 4
    then f_mul (f_add (applyBindingResponse s b (conditionedBipolar s (ab_source b))) (f_lit 1)) (f_lit (1 / 2))
    else conditionedUnipolar s (ab_source b))"
  have half: "f_lit (1 / 2) = Fin (1 / 2)" using f_round_dyadic [of 1 1] by (simp add: f_lit_def)
  have "f_in (- 8) 8 (conditionedBipolar s (ab_source b))" using f_in_mono [OF conditioned_in(1) [OF assms(1)]] by simp
  from applyBindingResponse_bound [OF assms(2) this, of s]
  have r: "f_in (- (2 ^ 60)) (2 ^ 60) (applyBindingResponse s b (conditionedBipolar s (ab_source b)))" .
  have "f_in (- (2 * (2 ^ 60 + 1))) (2 * (2 ^ 60 + 1))
      (f_add (applyBindingResponse s b (conditionedBipolar s (ab_source b))) (f_lit 1))"
    by (rule f_add_bound(1) [OF r]) simp_all
  then have "f_mul (f_add (applyBindingResponse s b (conditionedBipolar s (ab_source b))) (f_lit 1)) (Fin (1 / 2)) \<noteq> NaN"
    by (elim f_inE) simp
  moreover have "conditionedUnipolar s (ab_source b) \<noteq> NaN" using conditioned_in(2) [OF assms(1)] by (rule f_in_not_NaN)
  ultimately have n: "v \<noteq> NaN" by (simp add: v_def half)
  define w where "w = (if ab_invert b then f_sub (f_lit 1) v else v)"
  have "w \<noteq> NaN" using n f_sub_not_NaN(1) [OF n] by (simp add: w_def)
  from f_clamp_in [OF this, of 0 1] show ?thesis unfolding readAxisUnipolar_def Let_def v_def [symmetric] w_def [symmetric] by simp
qed

section \<open>Every step keeps the envelope\<close>

definition env :: "ControllerBridge \<Rightarrow> bool" where
  "env s \<longleftrightarrow> inputs_inv s \<and> command_ok (cb_cmd s)"

lemma list_all_update: "list_all P xs \<Longrightarrow> P x \<Longrightarrow> list_all P (xs[i := x])"
  by (auto simp: list_all_iff dest: set_update_subset_insert [THEN subsetD])

lemma f_unit_in: "f_unit lo v \<Longrightarrow> - 1 \<le> lo \<Longrightarrow> f_in (- 1) 1 v" "f_unit lo v \<Longrightarrow> v \<noteq> NaN" "f_unit lo v \<Longrightarrow> f_rep v"
  by (cases v; auto simp: f_unit_def)+

lemma condition_source_ok:
  assumes "libm_exp_ok m" and "inputs_inv s" and "v \<noteq> NaN" and "f_rep v" and "condition_source m dt src v s = (y, s')"
  shows "f_in (- 1) 1 y" and "f_rep y" and "inputs_inv s'" and "cb_cmd s' = cb_cmd s" and "cb_calibration s' = cb_calibration s" and "cb_raw s' = cb_raw s"
proof -
  obtain z c where u: "rcc_update m (of_nat src) v dt (cb_conditioner s) = (z, c)" by (rule prod.exhaust)
  have "cond_ok (cb_conditioner s)" using assms(2) by (simp add: inputs_inv_def)
  note ok = rcc_update_ok [OF assms(1) this assms(3,4) u]
  have e: "y = z" "s' = s \<lparr> cb_conditioner := c \<rparr>" using assms(5) u by (simp_all add: condition_source_def)
  show "f_in (- 1) 1 y" using ok f_unit_in(1) range_low_cases [of "rcc_find (cb_conditioner s) (of_nat src)"] unfolding e by fastforce
  show "f_rep y" using ok f_unit_in(3) unfolding e by blast
  show "inputs_inv s'" "cb_cmd s' = cb_cmd s" "cb_calibration s' = cb_calibration s" "cb_raw s' = cb_raw s"
    using assms(2) ok by (simp_all add: e inputs_inv_def)
qed

lemma condition_steps:
  assumes "libm_exp_ok m" and "env s"
  shows "env (condition_gimbal m dt i s)" and "env (condition_pot m dt i s)" and "i < 2 \<Longrightarrow> env (condition_encoder m dt i s)"
proof -
  have inv: "inputs_inv s" and cal: "calibration_ok (cb_calibration s)" using assms(2) by (simp_all add: env_def inputs_inv_def)
  note g = condition_source_ok [OF assms(1) inv f_unit_in(2,3) [OF readCalibratedBipolar_unit [OF cal]]]
  note p = condition_source_ok [OF assms(1) inv f_unit_in(2,3) [OF readCalibratedUnipolar_unit [OF cal]]]
  show "env (condition_gimbal m dt i s)" unfolding condition_gimbal_def Let_def
    using g(1-4) assms(2) by (auto simp: env_def inputs_inv_def list_all_update split: prod.split)
  show "env (condition_pot m dt i s)" unfolding condition_pot_def Let_def
    using p(1-4) assms(2) by (auto simp: env_def inputs_inv_def list_all_update split: prod.split)
  assume "i < 2"
  then have e: "f_unit 0 (cb_enc_accum s ! i)" using inv by (simp add: inputs_inv_def list_all_length)
  note q = condition_source_ok [OF assms(1) inv f_unit_in(2,3) [OF e]]
  show "env (condition_encoder m dt i s)" unfolding condition_encoder_def Let_def
    using q(1-4) assms(2) by (auto simp: env_def inputs_inv_def list_all_update split: prod.split)
qed

lemma env_fold:
  assumes "\<And>x s. x \<in> set xs \<Longrightarrow> env s \<Longrightarrow> env (f x s)" and "env s"
  shows "env (fold f xs s)"
  using assms by (induction xs arbitrary: s) auto

lemma env_updateConditionedInputs: "libm_exp_ok m \<Longrightarrow> env s \<Longrightarrow> env (updateConditionedInputs m now s)"
proof -
  assume "libm_exp_ok m" "env s"
  then have "env (s \<lparr> cb_condition_time_seen := True, cb_last_condition_ms := now \<rparr>)" by (simp add: env_def inputs_inv_def)
  then show ?thesis unfolding updateConditionedInputs_def Let_def
    by (intro env_fold condition_steps \<open>libm_exp_ok m\<close>) simp_all
qed

lemma env_updateConditionedToggles: "env s \<Longrightarrow> env (updateConditionedToggles now s)"
  by (simp add: updateConditionedToggles_def env_def inputs_inv_def Let_def case_prod_beta)

text \<open>Steps that only change the command, edges or the editor's fractions.\<close>

lemma env_upd_cmd: "env s \<Longrightarrow> command_ok (f (cb_cmd s)) \<Longrightarrow> env (upd_cmd f s)"
  by (simp add: env_def inputs_inv_def upd_cmd_def)

lemma env_risingEdge: "env s \<Longrightarrow> env (snd (risingEdge slot level now s))"
  by (simp add: risingEdge_def env_def inputs_inv_def Let_def)

lemma env_set_prev: "env s \<Longrightarrow> env (set_prev slot level s)"
  by (simp add: set_prev_def env_def inputs_inv_def)

lemma env_on_edge: "env s \<Longrightarrow> (\<And>t. env t \<Longrightarrow> env (f t)) \<Longrightarrow> env (on_edge slot level now f s)"
  using env_risingEdge [of s slot level now] by (cases "risingEdge slot level now s") (simp add: on_edge_def)

lemma env_edit_on_edge:
  "env (snd p) \<Longrightarrow> (\<And>t. env t \<Longrightarrow> env (f t)) \<Longrightarrow> env (snd (edit_on_edge slot src now f p))"
proof -
  assume p: "env (snd p)" and f: "\<And>t. env t \<Longrightarrow> env (f t)"
  obtain e s where ps: "p = (e, s)" by (rule prod.exhaust)
  obtain r t where rt: "risingEdge (kGaitTuneEdgeBase + slot) (bool_of s src) now s = (r, t)" by (rule prod.exhaust)
  then have "env t" using env_risingEdge [of s "kGaitTuneEdgeBase + slot" "bool_of s src" now] p ps by simp
  then show "env (snd (edit_on_edge slot src now f p))" using f by (simp add: edit_on_edge_def ps rt)
qed

lemma clamp_trim_rep: "f_rep v \<Longrightarrow> f_rep (clamp_trim v)"
  by (simp add: clamp_trim_def kTrimMaxRad_def poselim_kMaxRotRad_def)

lemma clamp_trim_in: "v \<noteq> NaN \<Longrightarrow> f_in (- rot_max) rot_max (clamp_trim v)"
  using f_clamp_in [of v "- rot_max" rot_max] rot_max(3) by (simp add: clamp_trim_def rot_max(2))

lemma f_add_Fin_not_NaN: "f_add (Fin a) (Fin b) \<noteq> NaN" "f_sub (Fin a) (Fin b) \<noteq> NaN"
  by (simp_all add: f_sub_def)

lemma trim_step_not_NaN:
  assumes "f_in (- rot_max) rot_max v"
  shows "f_add v kTrimStepRad \<noteq> NaN" and "f_sub v kTrimStepRad \<noteq> NaN"
proof -
  have "kTrimStepRad = Fin (rnd32 (174533 / 10000000))" by (simp add: kTrimStepRad_def f_lit_def f_round_small)
  then show "f_add v kTrimStepRad \<noteq> NaN" "f_sub v kTrimStepRad \<noteq> NaN" using assms f_add_Fin_not_NaN by (metis f_inE)+
qed

lemma env_updatePoseTrim: "env s \<Longrightarrow> env (updatePoseTrim now s)"
  unfolding updatePoseTrim_def Let_def
  by (intro env_on_edge env_upd_cmd)
     (simp_all add: env_def command_ok_def rot_max(3) clamp_trim_in clamp_trim_rep trim_step_not_NaN)

lemma bump_frac_ok:
  assumes "env s" and "op = f_add \<or> op = f_sub"
  shows "env (bump_frac op s)"
proof -
  define i where "i = tuneIndex (cc_gait_tune_param (cb_cmd s))"
  have "i < 3" by (cases "cc_gait_tune_param (cb_cmd s)") (simp_all add: i_def)
  then have "f_in 0 1 (cb_gait_tune_frac s ! i)" using assms(1) by (simp add: env_def inputs_inv_def list_all_length)
  then obtain a where a: "cb_gait_tune_frac s ! i = Fin a" by (rule f_inE)
  have "kGaitTuneStepFrac = Fin (rnd32 (5 / 100))" unfolding kGaitTuneStepFrac_def f_lit_def by (rule f_round_small) simp
  then have "op (cb_gait_tune_frac s ! i) kGaitTuneStepFrac \<noteq> NaN" using assms(2) a f_add_Fin_not_NaN by metis
  from f_clamp_in [OF this, of 0 1]
  have "f_in 0 1 (f_clamp (op (cb_gait_tune_frac s ! i) kGaitTuneStepFrac) (f_lit 0) (f_lit 1))" by simp
  moreover have "f_rep (op u v)" for u v using assms(2) by auto
  ultimately show ?thesis using assms(1) unfolding bump_frac_def Let_def i_def [symmetric]
    by (simp add: env_def inputs_inv_def list_all_update)
qed

lemma env_note_edit: "env s \<Longrightarrow> env (note_edit now s)"
  unfolding note_edit_def by (rule env_upd_cmd) (simp_all add: env_def command_ok_def)

lemma env_gait_tune_edit: "env s \<Longrightarrow> env (gait_tune_edit now s)"
proof -
  assume "env s"
  then have "env (sync_trim_edges s)" unfolding sync_trim_edges_def by (intro env_set_prev)
  then have "env (snd (gait_tune_presses now (sync_trim_edges s)))" unfolding gait_tune_presses_def
    by (intro env_edit_on_edge env_upd_cmd) (simp_all add: bump_frac_ok, simp_all add: env_def command_ok_def)
  then show ?thesis unfolding gait_tune_edit_def Let_def case_prod_beta by (simp add: env_note_edit)
qed

lemma env_gait_tune_toggle: "env s \<Longrightarrow> env (gait_tune_toggle now s)"
proof -
  assume "env s"
  then have "env (snd (gait_tune_changed now s))" by (simp add: gait_tune_changed_def env_risingEdge)
  then show ?thesis unfolding gait_tune_toggle_def Let_def case_prod_beta
    by (auto intro!: env_note_edit env_upd_cmd simp: env_def [of "snd x" for x] command_ok_def)
qed

lemma env_updateGaitTune: "env s \<Longrightarrow> env (updateGaitTune now s)"
  unfolding updateGaitTune_def Let_def sync_tune_edges_def
  by (simp add: env_gait_tune_toggle env_gait_tune_edit env_set_prev)

lemma env_upd_selectors: "env s \<Longrightarrow> env (upd_selectors now s)"
  unfolding upd_selectors_def Let_def by (rule env_upd_cmd) (simp_all add: env_def command_ok_def)

lemma env_upd_safety: "env s \<Longrightarrow> env (upd_safety now s)"
proof -
  assume s: "env s"
  have a: "env t \<Longrightarrow> env (set_arm b t)" for b t by (simp add: set_arm_def upd_cmd_def env_def inputs_inv_def command_ok_def)
  have "env t \<Longrightarrow> env (arm_filter k l now t)" for k l t
    by (simp add: arm_filter_def a) (simp add: env_def inputs_inv_def)
  moreover have "env (upd_cmd (\<lambda>c. c \<lparr> cc_estop := k \<rparr>) s)" for k
    by (rule env_upd_cmd [OF s]) (use s in \<open>simp add: env_def command_ok_def\<close>)
  moreover have "env t \<Longrightarrow> env (upd_levels t)" for t
    unfolding upd_levels_def by (rule env_upd_cmd) (simp_all add: env_def command_ok_def)
  ultimately show ?thesis by (simp add: upd_safety_def Let_def)
qed

lemma env_bindings: "env s \<Longrightarrow> bindings_ok (cb_cfg s)" "env s \<Longrightarrow> inputs_inv s"
  by (simp_all add: env_def inputs_inv_def)

lemma env_axes:
  assumes "env s"
  shows "axis_ok (bc_walk_forward (cb_cfg s))" "axis_ok (bc_walk_strafe (cb_cfg s))" "axis_ok (bc_walk_yaw (cb_cfg s))"
    "axis_ok (bc_body_x (cb_cfg s))" "axis_ok (bc_body_y (cb_cfg s))" "axis_ok (bc_body_z (cb_cfg s))"
    "axis_ok (bc_body_roll (cb_cfg s))" "axis_ok (bc_body_pitch (cb_cfg s))" "axis_ok (bc_body_yaw (cb_cfg s))"
    "axis_ok (bc_speed (cb_cfg s))" "axis_ok (bc_body_height (cb_cfg s))" "axis_ok (bc_stride (cb_cfg s))"
    "axis_ok (bc_step_height (cb_cfg s))" "axis_ok (bc_duty (cb_cfg s))"
  using env_bindings(1) [OF assms] by (simp_all add: bindings_ok_def)

lemma env_frac: "env s \<Longrightarrow> i < 3 \<Longrightarrow> f_in 0 1 (cb_gait_tune_frac s ! i)"
  by (simp add: env_def inputs_inv_def list_all_length)

lemma env_frac_rep: "env s \<Longrightarrow> i < 3 \<Longrightarrow> f_rep (cb_gait_tune_frac s ! i)"
  by (simp add: env_def inputs_inv_def list_all_length)

lemma env_upd_shape: "env s \<Longrightarrow> env (upd_shape now s)"
proof -
  assume s: "env s"
  define t where "t = upd_cmd (\<lambda>c. c \<lparr> cc_speed := readAxisUnipolar s (bc_speed (cb_cfg s)),
    cc_body_height := readAxisUnipolar s (bc_body_height (cb_cfg s)) \<rparr>) s"
  have "env t" unfolding t_def using s readAxisUnipolar_in [OF env_bindings(2) [OF s] env_axes(10) [OF s]]
      readAxisUnipolar_in [OF env_bindings(2) [OF s] env_axes(11) [OF s]] readAxis_rep(2) [OF env_bindings(2) [OF s]]
    by (intro env_upd_cmd) (simp_all add: env_def command_ok_def)
  then have u: "env (updateGaitTune now t)" by (rule env_updateGaitTune)
  note r = readAxisUnipolar_in [OF env_bindings(2) [OF u]]
  show ?thesis unfolding upd_shape_def Let_def t_def [symmetric]
    using u r [OF env_axes(12) [OF u]] r [OF env_axes(13) [OF u]] r [OF env_axes(14) [OF u]]
      env_frac [OF u, of 0] env_frac [OF u, of 1] env_frac [OF u, of 2] readAxis_rep(2) [OF env_bindings(2) [OF u]]
      env_frac_rep [OF u, of 0] env_frac_rep [OF u, of 1] env_frac_rep [OF u, of 2]
    by (intro env_upd_cmd) (auto simp: env_def command_ok_def)
qed

lemma scaled_axis:
  assumes "f_in (- 1) 1 v"
  shows "f_in (- 50) 50 (f_mul v poselim_kMaxTransMm)" and "f_in (- rot_max) rot_max (f_mul v poselim_kMaxRotRad)"
proof -
  obtain a where a: "v = Fin a" "- 1 \<le> a" "a \<le> 1" using assms by (rule f_inE)
  have k: "poselim_kMaxTransMm = Fin 50" using f_of_int_exact [of 50] by (simp add: poselim_kMaxTransMm_def f_lit_def f_of_int_def)
  have s: "- b \<le> a * b \<and> a * b \<le> b" if "0 \<le> b" for b :: rat
    using mult_right_mono [OF a(2) that] mult_right_mono [OF a(3) that] by simp
  have big: "- (2 powi 128) < - b \<and> b < (2 powi 128 :: rat)" if "b \<le> 50" for b using that by (simp add: power_int_def)
  show "f_in (- 50) 50 (f_mul v poselim_kMaxTransMm)"
    using f_round_in [of "- 50" "a * 50" 50] s [of 50] big [of 50] rnd32_of_int [of 50] rnd32_of_int [of "- 50"] by (simp add: a(1) k)
  have "rot_max \<le> 50" unfolding rot_max_def by code_simp
  then show "f_in (- rot_max) rot_max (f_mul v poselim_kMaxRotRad)"
    using f_round_in [of "- rot_max" "a * rot_max" rot_max] s [OF rot_max(3)] big [of rot_max] rot_max(4)
    by (simp add: a(1) rnd32_minus rot_max(1))
qed

lemma env_upd_motion: "env s \<Longrightarrow> env (upd_motion s)"
proof -
  assume s: "env s"
  note r = readAxisBipolar_in [OF env_bindings(2) [OF s]]
  define t where "t = upd_cmd (\<lambda>c. c \<lparr> cc_twist_vx := readAxisBipolar s (bc_walk_forward (cb_cfg s)),
    cc_twist_vy := readAxisBipolar s (bc_walk_strafe (cb_cfg s)), cc_twist_wz := Fin 0,
    cc_pose_x_mm := Fin 0, cc_pose_y_mm := Fin 0, cc_pose_z_mm := Fin 0,
    cc_pose_roll := Fin 0, cc_pose_pitch := Fin 0, cc_pose_yaw := Fin 0 \<rparr>) s"
  have t: "env t" unfolding t_def using s r [OF env_axes(1) [OF s]] r [OF env_axes(2) [OF s]] rot_max(3) readAxis_rep(1) [OF env_bindings(2) [OF s]]
    by (intro env_upd_cmd) (simp_all add: env_def command_ok_def)
  have c: "command_ok (cb_cmd t)" using t by (simp add: env_def)
  show ?thesis unfolding upd_motion_def Let_def t_def [symmetric]
    using c r [OF env_axes(3) [OF s]] scaled_axis [OF r [OF env_axes(4) [OF s]]] scaled_axis [OF r [OF env_axes(5) [OF s]]]
      scaled_axis [OF r [OF env_axes(6) [OF s]]] scaled_axis [OF r [OF env_axes(7) [OF s]]]
      scaled_axis [OF r [OF env_axes(8) [OF s]]] scaled_axis [OF r [OF env_axes(9) [OF s]]] readAxis_rep(1) [OF env_bindings(2) [OF s]]
    by (auto simp: command_ok_def split: ControlMode.split intro!: env_upd_cmd [OF t])
qed

lemma env_upd_capture: "env s \<Longrightarrow> env (upd_capture now s)"
proof -
  assume "env s"
  then have "env (capture_toggle now s)" unfolding capture_toggle_def
    by (intro env_on_edge env_upd_cmd) (simp_all add: env_def command_ok_def)
  then show ?thesis by (simp add: upd_capture_def capture_hold_def env_def inputs_inv_def upd_cmd_def command_ok_def)
qed

lemma env_upd_tricks: "env s \<Longrightarrow> env (upd_tricks now s)"
proof -
  have "env t \<Longrightarrow> env (trick_slot now i t)" for i t
    by (auto simp: trick_slot_def repeatingTrickTrigger_def set_prev_def upd_cmd_def env_def inputs_inv_def command_ok_def Let_def)
  then show "env s \<Longrightarrow> env (upd_tricks now s)" unfolding upd_tricks_def
    by (intro env_fold env_upd_cmd) (simp_all add: env_def command_ok_def)
qed

lemma env_decode_frame: "libm_exp_ok m \<Longrightarrow> env s \<Longrightarrow> env (decode_frame m now s)"
  unfolding decode_frame_def Let_def
  by (simp add: env_upd_tricks env_upd_capture env_updatePoseTrim env_upd_motion env_upd_shape env_upd_safety
      env_upd_selectors env_updateConditionedToggles env_updateConditionedInputs)

section \<open>The envelope over time\<close>

lemma crsfUnit01_unit: "f_unit 0 (f_clamp (crsfUnit01 v) (f_lit 0) (f_lit 1))"
proof -
  have "191 \<le> clampCrsf v" "clampCrsf v \<le> 1792" by (simp_all add: clampCrsf_def cpack_consts)
  then have "crsfUnit01 v = f_round (of_int (int (clampCrsf v) - 191) / of_int 1601)"
    using f_div_ints [of 1601 "int (clampCrsf v) - 191"] by (simp add: crsfUnit01_def cpack_consts)
  then show ?thesis using f_clamp_unit [of "crsfUnit01 v" 0] by simp
qed

lemma env_integrateEncoders: "env s \<Longrightarrow> env (integrateEncoders s)"
proof -
  have "env (integrate_encoder i t)" if t: "env t" and i: "i < 2" for i t
  proof -
    obtain a where a: "cb_enc_accum t ! i = Fin a" using t i by (auto simp: env_def inputs_inv_def list_all_length elim!: f_unitE)
    have "f_of_int kEncoderCountsFullScale = Fin 128" using f_of_int_exact [of 128] by (simp add: kEncoderCountsFullScale_def)
    then have q: "f_div (f_of_int d) (f_of_int kEncoderCountsFullScale) \<noteq> NaN" for d
      using f_of_int_not_NaN(1) [of d] by (cases "f_of_int d") simp_all
    have "f_add (Fin a) y \<noteq> NaN \<and> f_rep (f_add (Fin a) y)" if "y \<noteq> NaN" for y using that by (cases y) (simp_all add: f_rep_def [of "Inf b" for b])
    from this [OF q] f_clamp_unit [of _ 0]
    have "f_unit 0 (f_clamp (f_add (Fin a) (f_div (f_of_int d) (f_of_int kEncoderCountsFullScale))) (f_lit 0) (f_lit 1))" for d by simp
    then show ?thesis using t by (simp add: integrate_encoder_def Let_def env_def inputs_inv_def list_all_update a)
  qed
  then show "env s \<Longrightarrow> env (integrateEncoders s)" unfolding integrateEncoders_def by (intro env_fold) auto
qed

lemma env_virtual_encoders: "env s \<Longrightarrow> env (updateTx16sDirectVirtualEncoders ch s)"
  using crsfUnit01_unit [of "ch ! 6"] crsfUnit01_unit [of "ch ! 7"]
  by (auto simp: updateTx16sDirectVirtualEncoders_def Let_def env_def inputs_inv_def list_all_update f_unit_def)

lemma env_enterFailsafe: "env s \<Longrightarrow> env (enterFailsafe s)"
  by (simp add: enterFailsafe_def failsafe_command_def env_def inputs_inv_def command_ok_def rot_max(3))

lemma env_raw: "env s \<Longrightarrow> env (s \<lparr> cb_raw := r \<rparr>)"
  by (simp add: env_def inputs_inv_def)

lemma env_profile: "env s \<Longrightarrow> env (attemptProfileDetection ch s)"
  "env s \<Longrightarrow> env (s \<lparr> cb_detected_profile := ProfileUnknown, cb_custom_layout_streak := 0, cb_tx_direct_layout_streak := 0 \<rparr>)"
  by (simp_all add: attemptProfileDetection_def Let_def env_def inputs_inv_def)

lemma env_bridge_update: "libm_exp_ok m \<Longrightarrow> env s \<Longrightarrow> env (bridge_update m ch link_up now s)"
  unfolding bridge_update_def Let_def
  by (simp add: env_enterFailsafe env_profile env_decode_frame env_integrateEncoders env_virtual_encoders env_raw
      split: InputProfile.split)

lemma reset_literals: "f_unit 0 (f_lit (1 / 2))" "f_in 0 1 (f_lit (6 / 10))" "f_in 0 1 (f_lit (75 / 100))" "f_in 0 1 (f_lit (625 / 1000))"
proof -
  have "f_in 0 1 (f_lit x)" if "0 \<le> x" "x \<le> 1" for x unfolding f_lit_def using that
    by (intro f_round_in) (simp_all add: power_int_def)
  then show "f_unit 0 (f_lit (1 / 2))" "f_in 0 1 (f_lit (6 / 10))" "f_in 0 1 (f_lit (75 / 100))" "f_in 0 1 (f_lit (625 / 1000))"
    by (simp_all add: f_unit_def)
qed

lemma env_reset: "calibration_ok (cb_calibration s) \<Longrightarrow> bindings_ok (cb_cfg s) \<Longrightarrow> env (bridge_reset force s)"
  using reset_literals f_in_mono [of 0 1 "f_lit (1 / 2)" "- 1" 1]
  by (simp add: bridge_reset_def env_def inputs_inv_def command_ok_def ControllerCommand_default_def rot_max(3)
      f_unit_def list_all_iff)

lemma default_rc_valid: "validateRcInputCalibration defaultRcInputCalibration"
  by code_simp

lemma bindings_default: "bindings_ok defaultBindings"
  by (simp add: bindings_ok_def defaultBindings_def axis_def axis_ok_def)

lemma env_new: "env (ControllerBridge_new force)"
  unfolding ControllerBridge_new_def
  by (rule env_reset) (simp_all add: validate_rc_calibration_ok default_rc_valid bindings_default)

fun bridge_op_ok :: "bridge_op \<Rightarrow> bool" where
  "bridge_op_ok (BridgeBindings cfg) = bindings_ok cfg"
| "bridge_op_ok (BridgeTune a b c) = list_all (\<lambda>v. v \<noteq> NaN \<and> f_rep v) [a, b, c]"
| "bridge_op_ok _ = True"

lemma env_step: "libm_exp_ok m \<Longrightarrow> bridge_op_ok op \<Longrightarrow> env s \<Longrightarrow> env (bridge_step m op s)"
proof (cases op)
  case (BridgeCalibration cal)
  assume "env s"
  then show ?thesis using BridgeCalibration validate_rc_calibration_ok rcc_configure_ok
    by (auto simp: bridge_setCalibration_def env_def inputs_inv_def)
next
  case (BridgeFilter md allowed)
  assume "env s"
  then show ?thesis using BridgeFilter rcc_setMode_ok by (auto simp: setInputFilterMode_def env_def inputs_inv_def case_prod_beta Let_def)
next
  case (BridgeTune a b c)
  assume "env s" "bridge_op_ok op"
  then show ?thesis using BridgeTune f_clamp_in [of a 0 1] f_clamp_in [of b 0 1] f_clamp_in [of c 0 1]
    by (simp add: setGaitTuneFractions_def env_def inputs_inv_def)
qed (simp_all add: env_bridge_update env_reset env_def [of s] inputs_inv_def [of s] bridge_setBindings_def evaluateFailsafe_def
     env_enterFailsafe, simp add: env_def inputs_inv_def)

lemma env_run: "libm_exp_ok m \<Longrightarrow> list_all bridge_op_ok ops \<Longrightarrow> env (fold (bridge_step m) ops (ControllerBridge_new force))"
  by (rule fold_invariant [where Q = bridge_op_ok]) (simp_all add: list_all_iff env_new env_step)

text \<open>
  C18: the motion envelope. Whatever channel values arrive and whatever bindings, calibrations and
  filter modes are adopted, every motion field of the command is a number within its limits: twists
  in [-1, 1], body shifts within 50 mm, body and trim angles within the rotation limit, the shape
  parameters in [0, 1], and the gait index below 3.
\<close>

theorem bridge_command_envelope:
  assumes "libm_exp_ok m" and "list_all bridge_op_ok ops"
  shows "command_ok (cb_cmd (fold (bridge_step m) ops (ControllerBridge_new force)))"
  using env_run [OF assms] by (simp add: env_def)

theorem bridge_command_envelope_witness:
  "command_ok (cb_cmd (fold (bridge_step rcc_sample_libm)
     [BridgeTune (Inf False) (Fin (- 1)) (Fin 1), BridgeFrame (replicate 16 2047) True 10] (ControllerBridge_new True)))"
proof -
  have "libm_exp_ok rcc_sample_libm" by (simp add: libm_exp_ok_def rcc_sample_libm_def)
  from bridge_command_envelope [OF this, of "[BridgeTune (Inf False) (Fin (- 1)) (Fin 1), BridgeFrame (replicate 16 2047) True 10]" True]
  show ?thesis by simp
qed

end
