(* ===== verification/ControllerApi.thy ===== *)
theory ControllerApi
  imports ControllerEnvelope ApiResponse MotionApi "HOL-Library.Monad_Syntax"
begin

text \<open>
  The controller command group (\<open>protocol/controller_api.h\<close>, \<open>protocol/controller_api.cpp\<close>): the
  host reads the decoded command and the binding table of the radio bridge and replaces the table.
  The model has the fixed-point scalers in single precision, both codecs and the handler. Every
  table the decoder accepts, in the current or the legacy layout, survives being reported back and
  is one the bridge's motion envelope tolerates.
\<close>

section \<open>Codes\<close>

definition isControllerMsg :: "u8 \<Rightarrow> bool" where
  "isControllerMsg mid \<longleftrightarrow> 0x90 \<le> mid \<and> mid \<le> 0x92"

datatype ControllerResult = CtlOk | CtlRejected | CtlBadRequest

fun controllerResultCode :: "ControllerResult \<Rightarrow> u8" where
  "controllerResultCode CtlOk = 0"
| "controllerResultCode CtlRejected = 1"
| "controllerResultCode CtlBadRequest = 2"

definition kControllerStateLen :: nat where "kControllerStateLen = 57"
definition kControllerBindingsLen :: nat where "kControllerBindingsLen = 83"
definition kLegacyControllerBindingsLen :: nat where "kLegacyControllerBindingsLen = 81"

text \<open>The enumerations in the order of their numeric values.\<close>

definition axis_sources :: "AxisSource list" where
  "axis_sources = [AxisNone, GimbalLX, GimbalLY, GimbalRX, GimbalRY, Pot1, Pot2, Enc1, Enc2]"

definition bool_sources :: "BoolSource list" where
  "bool_sources = [BoolNone, SwA, SwB, SwC, SwD, SwG, SwH, Btn1, Btn2, Btn3, Btn4,
     Nav1Up, Nav1Down, Nav1Left, Nav1Right, Nav1Center, Nav2Up, Nav2Down, Nav2Left, Nav2Right, Nav2Center]"

definition tri_sources :: "TriSource list" where
  "tri_sources = [TriNone, SwE, SwF]"

definition trick_ids :: "TrickId list" where
  "trick_ids = [TrickNone, StandUp, SitDown, WaveTrick, CrouchToggle, Twirl, Stretch, LeanLook, DanceLoop,
     SpiderAttack, JumpKick]"

text \<open>\<open>static_cast\<close> between an enumeration and its byte.\<close>

fun enum_index :: "'a \<Rightarrow> 'a list \<Rightarrow> nat" where
  "enum_index x [] = 0"
| "enum_index x (y # ys) = (if x = y then 0 else Suc (enum_index x ys))"

definition enum_code :: "'a list \<Rightarrow> 'a \<Rightarrow> u8" where
  "enum_code es x = word_of_nat (enum_index x es)"

definition enum_of :: "'a list \<Rightarrow> u8 \<Rightarrow> 'a option" where
  "enum_of es v = (if unat v < length es then Some (es ! unat v) else None)"

fun modeCode :: "ControlMode \<Rightarrow> u8" where
  "modeCode ModeYaw = 0" | "modeCode ModeTranslateBody = 1" | "modeCode ModeRotateBody = 2"

section \<open>Scalers\<close>

definition toI16 :: "f32 \<Rightarrow> int" where
  "toI16 v = (let r = (if f_le (Fin 0) v then f_add v (f_lit (1 / 2)) else f_sub v (f_lit (1 / 2))) in
     if f_lt (f_lit 32767) r then 32767
     else if f_lt r (f_lit (- 32768)) then - 32768
     else f_to_int r)"

definition milli :: "f32 \<Rightarrow> int" where
  "milli v = toI16 (f_mul v (f_lit 1000))"

definition scalarU8 :: "f32 \<Rightarrow> u8" where
  "scalarU8 v = (let r = f_add (f_mul v (f_lit 255)) (f_lit (1 / 2));
                     r = (if f_lt r (Fin 0) then Fin 0 else r);
                     r = (if f_lt (f_lit 255) r then f_lit 255 else r)
                 in word_of_int (f_to_int r))"

definition putI16 :: "int \<Rightarrow> bytes" where
  "putI16 v = put_u16 (word_of_int v)"

definition putI32 :: "int \<Rightarrow> bytes" where
  "putI32 v = put_u32 (word_of_int v)"

section \<open>Binding table codec\<close>

definition putAxis :: "AxisBinding \<Rightarrow> bytes" where
  "putAxis a = [enum_code axis_sources (ab_source a), if ab_invert a then 1 else 0] @ putI16 (milli (ab_deadband a))"

definition getAxis :: "bytes \<Rightarrow> AxisBinding option" where
  "getAxis p = map_option (\<lambda>src. \<lparr> ab_source = src, ab_invert = (p ! 1 \<noteq> 0),
       ab_deadband = f_clamp (f_div (f_of_int (readI16 p 2)) (f_lit 1000)) (Fin 0) (f_lit 1) \<rparr>)
     (enum_of axis_sources (p ! 0))"

definition axis_list :: "BindingConfig \<Rightarrow> AxisBinding list" where
  "axis_list c = [bc_walk_forward c, bc_walk_strafe c, bc_walk_yaw c, bc_body_x c, bc_body_y c, bc_body_z c,
     bc_body_roll c, bc_body_pitch c, bc_body_yaw c, bc_speed c, bc_body_height c, bc_stride c, bc_step_height c]"

definition bool_list :: "BindingConfig \<Rightarrow> BoolSource list" where
  "bool_list c = [bc_arm c, bc_estop c, bc_feat_foot_contact c, bc_feat_terrain_leveling c, bc_feat_passive_pose c,
     bc_host_authority c, bc_trim_pitch_up c, bc_trim_pitch_down c, bc_trim_roll_left c, bc_trim_roll_right c,
     bc_trim_reset c]"

definition encodeBindings :: "BindingConfig \<Rightarrow> bytes" where
  "encodeBindings c = concat (map putAxis (axis_list c))
     @ [enum_code tri_sources (bc_mode_select c), enum_code tri_sources (bc_gait_select c)]
     @ map (enum_code bool_sources) (bool_list c)
     @ concat (map (\<lambda>t. [enum_code bool_sources (tb_source t), enum_code trick_ids (tb_trick t)])
         (map (\<lambda>i. bc_tricks c ! i) [0..<kMaxTrickBindings]))"

text \<open>The three loops of the decoder, each consuming what it has read.\<close>

fun getAxes :: "nat \<Rightarrow> bytes \<Rightarrow> (AxisBinding list \<times> bytes) option" where
  "getAxes 0 p = Some ([], p)"
| "getAxes (Suc n) p = do { a \<leftarrow> getAxis p; (as, q) \<leftarrow> getAxes n (drop 4 p); Some (a # as, q) }"

fun getBools :: "nat \<Rightarrow> bytes \<Rightarrow> (BoolSource list \<times> bytes) option" where
  "getBools 0 p = Some ([], p)"
| "getBools (Suc n) p = do { b \<leftarrow> enum_of bool_sources (p ! 0); (bs, q) \<leftarrow> getBools n (drop 1 p); Some (b # bs, q) }"

fun getTricks :: "nat \<Rightarrow> bytes \<Rightarrow> (TrickBinding list \<times> bytes) option" where
  "getTricks 0 p = Some ([], p)"
| "getTricks (Suc n) p = do { b \<leftarrow> enum_of bool_sources (p ! 0); t \<leftarrow> enum_of trick_ids (p ! 1);
     (ts, q) \<leftarrow> getTricks n (drop 2 p); Some (trick b t # ts, q) }"

definition set_axes :: "AxisBinding list \<Rightarrow> BindingConfig \<Rightarrow> BindingConfig" where
  "set_axes as c = c \<lparr> bc_walk_forward := as ! 0, bc_walk_strafe := as ! 1, bc_walk_yaw := as ! 2, bc_body_x := as ! 3,
     bc_body_y := as ! 4, bc_body_z := as ! 5, bc_body_roll := as ! 6, bc_body_pitch := as ! 7, bc_body_yaw := as ! 8,
     bc_speed := as ! 9, bc_body_height := as ! 10, bc_stride := as ! 11, bc_step_height := as ! 12 \<rparr>"

definition set_bools :: "BoolSource list \<Rightarrow> BindingConfig \<Rightarrow> BindingConfig" where
  "set_bools bs c = c \<lparr> bc_arm := bs ! 0, bc_estop := bs ! 1, bc_feat_foot_contact := bs ! 2,
     bc_feat_terrain_leveling := bs ! 3, bc_feat_passive_pose := bs ! 4, bc_host_authority := bs ! 5,
     bc_trim_pitch_up := bs ! 6, bc_trim_pitch_down := bs ! 7, bc_trim_roll_left := bs ! 8,
     bc_trim_roll_right := bs ! 9, bc_trim_reset := bs ! 10 \<rparr>"

definition set_tricks :: "bool \<Rightarrow> TrickBinding list \<Rightarrow> BindingConfig \<Rightarrow> BindingConfig" where
  "set_tricks legacy ts c =
     (let slots = ts @ drop (length ts) (bc_tricks c) in
      c \<lparr> bc_tricks := (if legacy
            then slots[kMaxTrickBindings - 1 := slots ! (kMaxTrickBindings - 2),
                       kMaxTrickBindings - 2 := bc_tricks defaultBindings ! (kMaxTrickBindings - 2)]
            else slots) \<rparr>)"

definition decodeBindings :: "bytes \<Rightarrow> BindingConfig option" where
  "decodeBindings p =
     (if length p \<noteq> kControllerBindingsLen \<and> length p \<noteq> kLegacyControllerBindingsLen then None
      else do {
        let legacy = (length p = kLegacyControllerBindingsLen);
        (as, p) \<leftarrow> getAxes 13 p;
        m \<leftarrow> enum_of tri_sources (p ! 0);
        g \<leftarrow> enum_of tri_sources (p ! 1);
        (bs, p) \<leftarrow> getBools 11 (drop 2 p);
        (ts, p) \<leftarrow> getTricks (if legacy then kMaxTrickBindings - 1 else kMaxTrickBindings) p;
        Some (set_tricks legacy ts (set_bools bs
          ((set_axes as defaultBindings) \<lparr> bc_mode_select := m, bc_gait_select := g \<rparr>)))
      })"

section \<open>State report\<close>

definition encodeState :: "ControllerCommand \<Rightarrow> ChannelPackInputs \<Rightarrow> bytes" where
  "encodeState c raw =
     [word_of_nat (bits_value [cc_valid c, cc_failsafe c, cc_ever_seen c, cc_arm_request c, cc_estop c,
        cc_host_authority c, cc_feat_foot_contact c, cc_feat_terrain_leveling c]),
      word_of_nat (bits_value [cc_feat_passive_pose c]),
      modeCode (cc_mode c), word_of_nat (cc_gait_index c), enum_code trick_ids (cc_trick c)]
     @ concat (map putI16 [milli (cc_twist_vx c), milli (cc_twist_vy c), milli (cc_twist_wz c),
        toI16 (cc_pose_x_mm c), toI16 (cc_pose_y_mm c), toI16 (cc_pose_z_mm c),
        milli (cc_pose_roll c), milli (cc_pose_pitch c), milli (cc_pose_yaw c),
        milli (cc_trim_roll c), milli (cc_trim_pitch c)])
     @ [scalarU8 (cc_speed c), scalarU8 (cc_body_height c), scalarU8 (cc_stride c), scalarU8 (cc_step_height c)]
     @ concat (map (\<lambda>i. putI16 (cp_gimbal raw ! i)) [0..<4]) @ concat (map (\<lambda>i. putI16 (cp_pot raw ! i)) [0..<2])
     @ concat (map (\<lambda>i. putI32 (cp_encoder raw ! i)) [0..<2])
     @ [word_of_nat (bits_value (map (\<lambda>i. cp_switches raw ! i) [0..<8])),
        word_of_nat (bits_value (map (\<lambda>i. cp_buttons raw ! i) [0..<4])),
        word_of_nat (cp_toggles raw ! 0), word_of_nat (cp_toggles raw ! 1)]
     @ map (\<lambda>n. word_of_nat (bits_value (map (\<lambda>i. cp_nav raw ! n ! i) [0..<5]))) [0..<2]"

section \<open>Handler\<close>

record ControllerApi =
  ctl_cmd :: ControllerCommand
  ctl_raw :: ChannelPackInputs
  ctl_cfg :: BindingConfig
  ctl_pending :: BindingConfig
  ctl_pending_valid :: bool

text \<open>A binding table as its default constructor leaves it: no analog binding, no trick.\<close>

definition BindingConfig_default :: BindingConfig where
  "BindingConfig_default = defaultBindings
     \<lparr> bc_walk_forward := axis AxisNone False, bc_walk_strafe := axis AxisNone False, bc_walk_yaw := axis AxisNone False,
       bc_body_x := axis AxisNone False, bc_body_y := axis AxisNone False, bc_body_z := axis AxisNone False,
       bc_body_roll := axis AxisNone False, bc_body_pitch := axis AxisNone False, bc_body_yaw := axis AxisNone False,
       bc_speed := axis AxisNone False, bc_body_height := axis AxisNone False, bc_stride := axis AxisNone False,
       bc_step_height := axis AxisNone False, bc_duty := axis AxisNone False,
       bc_tricks := replicate kMaxTrickBindings (trick BoolNone TrickNone) \<rparr>"

definition ctl_reset :: "ControllerApi \<Rightarrow> ControllerApi" where
  "ctl_reset s = \<lparr> ctl_cmd = ControllerCommand_default, ctl_raw = ChannelPackInputs_zero, ctl_cfg = defaultBindings,
     ctl_pending = BindingConfig_default, ctl_pending_valid = False \<rparr>"

definition ctl_setSnapshot :: "ControllerCommand \<Rightarrow> ChannelPackInputs \<Rightarrow> ControllerApi \<Rightarrow> ControllerApi" where
  "ctl_setSnapshot c raw s = s \<lparr> ctl_cmd := c, ctl_raw := raw \<rparr>"

definition ctl_setBindings :: "BindingConfig \<Rightarrow> ControllerApi \<Rightarrow> ControllerApi" where
  "ctl_setBindings c s = s \<lparr> ctl_cfg := c \<rparr>"

definition ctl_takePending :: "ControllerApi \<Rightarrow> BindingConfig option \<times> ControllerApi" where
  "ctl_takePending s =
     (if \<not> ctl_pending_valid s then (None, s) else (Some (ctl_pending s), s \<lparr> ctl_pending_valid := False \<rparr>))"

definition ctl_writeResult :: "ControllerResult \<Rightarrow> nat \<Rightarrow> Response" where
  "ctl_writeResult r cap =
     (if cap < 1 then \<lparr> resp_bytes = [], resp_flags = 0x02 \<rparr>
      else \<lparr> resp_bytes = [controllerResultCode r], resp_flags = (if r = CtlBadRequest then 0x02 else 0) \<rparr>)"

definition controller_handle :: "ControllerApi handler" where
  "controller_handle mid req cap s =
     (if \<not> isControllerMsg mid then None
      else if mid = 0x90 then
        if cap < kControllerStateLen then Some (ctl_writeResult CtlBadRequest cap, s)
        else Some (\<lparr> resp_bytes = encodeState (ctl_cmd s) (ctl_raw s), resp_flags = 0 \<rparr>, s)
      else if mid = 0x91 then
        if cap < kControllerBindingsLen then Some (ctl_writeResult CtlBadRequest cap, s)
        else Some (\<lparr> resp_bytes = encodeBindings (ctl_cfg s), resp_flags = 0 \<rparr>, s)
      else if mid = 0x92 then
        (case decodeBindings req of
           None \<Rightarrow> Some (ctl_writeResult CtlBadRequest cap, s)
         | Some c \<Rightarrow> Some (ctl_writeResult CtlOk cap,
             s \<lparr> ctl_pending := c, ctl_pending_valid := True, ctl_cfg := c \<rparr>))
      else Some (ctl_writeResult CtlBadRequest cap, s))"

lemma length_putAxis [simp]: "length (putAxis a) = 4"
  by (simp add: putAxis_def putI16_def)

lemma length_concat_axes [simp]: "length (concat (map putAxis as)) = 4 * length as"
  by (induction as) simp_all

lemma length_concat_pairs [simp]: "length (concat (map (\<lambda>t. [f t, g t]) ts)) = 2 * length ts"
  by (induction ts) simp_all

lemma length_encodeBindings: "length (encodeBindings c) = kControllerBindingsLen"
  by (simp add: encodeBindings_def axis_list_def bool_list_def kControllerBindingsLen_def kMaxTrickBindings_def o_def)

lemma length_encodeState: "length (encodeState c raw) = kControllerStateLen"
  by (simp add: encodeState_def putI16_def putI32_def kControllerStateLen_def eval_nat_numeral)

interpretation controller_group: command_group controller_handle isControllerMsg
proof unfold_locales
  fix mid req cap s r s'
  assume h: "controller_handle mid req cap s = Some (r, s')"
  then show "isControllerMsg mid" by (simp add: controller_handle_def split: if_splits)
  have "resp_bytes r \<noteq> [] \<and> length (resp_bytes r) \<le> cap" if "64 \<le> cap"
    using h that length_encodeState [of "ctl_cmd s" "ctl_raw s"] length_encodeBindings [of "ctl_cfg s"]
    by (auto simp: controller_handle_def ctl_writeResult_def kControllerStateLen_def kControllerBindingsLen_def
        split: if_splits option.splits)
  then show "64 \<le> cap \<Longrightarrow> resp_bytes r \<noteq> []" "64 \<le> cap \<Longrightarrow> length (resp_bytes r) \<le> cap" by blast+
qed

section \<open>Enumerations\<close>

lemma enum_index_nth: "distinct es \<Longrightarrow> i < length es \<Longrightarrow> enum_index (es ! i) es = i"
  by (induction es arbitrary: i) (auto simp: nth_Cons split: nat.splits)

lemma enum_index_in: "x \<in> set es \<Longrightarrow> enum_index x es < length es \<and> es ! enum_index x es = x"
  by (induction es) auto

lemma enum_of_code:
  assumes "x \<in> set es" and "length es < 256"
  shows "enum_of es (enum_code es x) = Some x"
proof -
  have "unat (word_of_nat (enum_index x es) :: u8) = enum_index x es"
    using enum_index_in [OF assms(1)] assms(2) by (simp add: unsigned_of_nat take_bit_nat_eq_self)
  then show ?thesis using enum_index_in [OF assms(1)] by (simp add: enum_of_def enum_code_def)
qed

lemma enum_codes [simp]:
  "enum_of axis_sources (enum_code axis_sources a) = Some a"
  "enum_of bool_sources (enum_code bool_sources b) = Some b"
  "enum_of tri_sources (enum_code tri_sources t) = Some t"
  "enum_of trick_ids (enum_code trick_ids k) = Some k"
proof -
  have "a \<in> set axis_sources" by (cases a) (simp_all add: axis_sources_def)
  then show "enum_of axis_sources (enum_code axis_sources a) = Some a" by (rule enum_of_code) (simp add: axis_sources_def)
  have "b \<in> set bool_sources" by (cases b) (simp_all add: bool_sources_def)
  then show "enum_of bool_sources (enum_code bool_sources b) = Some b" by (rule enum_of_code) (simp add: bool_sources_def)
  have "t \<in> set tri_sources" by (cases t) (simp_all add: tri_sources_def)
  then show "enum_of tri_sources (enum_code tri_sources t) = Some t" by (rule enum_of_code) (simp add: tri_sources_def)
  have "k \<in> set trick_ids" by (cases k) (simp_all add: trick_ids_def)
  then show "enum_of trick_ids (enum_code trick_ids k) = Some k" by (rule enum_of_code) (simp add: trick_ids_def)
qed

section \<open>Deadbands\<close>

text \<open>The deadbands a payload can carry are the thousandths from 0 to 1, and they are read back exactly.\<close>

definition milli_value :: "int \<Rightarrow> f32" where
  "milli_value k = f_div (f_of_int k) (f_lit 1000)"

lemma milli_value_Fin:
  assumes "\<bar>k\<bar> < 2 ^ 24"
  shows "milli_value k = Fin (rnd32 (of_int k / 1000))"
proof -
  have "f_lit 1000 = Fin 1000" using f_of_int_exact [of 1000] by (simp add: f_lit_def f_of_int_def)
  moreover have "\<bar>of_int k / 1000\<bar> \<le> (2 ^ 24 :: rat)"
  proof -
    have "\<bar>of_int k\<bar> \<le> (2 ^ 24 :: rat)"
      using assms by (metis less_imp_le of_int_abs of_int_le_numeral_power_cancel_iff)
    then show ?thesis by simp
  qed
  ultimately show ?thesis using f_round_Fin [of "of_int k / 1000" "2 ^ 24"]
    by (simp add: milli_value_def f_of_int_exact [OF assms])
qed

lemma milli_milli_value:
  assumes "0 \<le> k" and "k \<le> 1000"
  shows "milli (milli_value k) = k"
proof -
  let ?K = "of_int k :: rat"
  have K: "0 \<le> ?K" "?K \<le> 1000" using assms by simp_all
  define x where "x = rnd32 (?K / 1000)"
  define y where "y = rnd32 (x * 1000)"
  define z where "z = rnd32 (y + 1 / 2)"
  have lits: "f_lit 1000 = Fin 1000" "f_lit 32767 = Fin 32767" "f_lit (- 32768) = Fin (- 32768)"
    using f_of_int_exact [of 1000] f_of_int_exact [of 32767] f_of_int_exact [of "- 32768"]
    by (simp_all add: f_lit_def f_of_int_def)
  have half: "f_lit (1 / 2) = Fin (1 / 2)" using f_round_dyadic [of 1 1] by (simp add: f_lit_def)
  have mv: "milli_value k = Fin x" using milli_value_Fin [of k] assms by (simp add: x_def)
  have x: "0 \<le> x" "\<bar>x - ?K / 1000\<bar> \<le> 1 / 2 ^ 23"
    using K rnd32_nonneg [of "?K / 1000"] rnd32_error [of "?K / 1000" 1] by (simp_all add: x_def)
  then have xK: "x \<le> ?K / 1000 + 1 / 2 ^ 23" "?K / 1000 - 1 / 2 ^ 23 \<le> x" by linarith+
  have p23: "(2 :: rat) ^ 23 = 8388608" by simp
  have x1: "x * 1000 \<le> 1001" "\<bar>x * 1000 - ?K\<bar> \<le> 1000 / 2 ^ 23" using xK K unfolding p23 by linarith+
  have y: "0 \<le> y" "\<bar>y - x * 1000\<bar> \<le> 1001 / 2 ^ 23" "f_mul (Fin x) (Fin 1000) = Fin y"
    using x(1) x1(1) rnd32_nonneg [of "x * 1000"] rnd32_error [of "x * 1000" 1001] f_round_Fin [of "x * 1000" 1001]
    by (simp_all add: y_def)
  have y1: "y + 1 / 2 \<le> 1002" "\<bar>y - ?K\<bar> \<le> 2001 / 2 ^ 23" using y(2) x1 unfolding p23 by linarith+
  have z: "\<bar>z - (y + 1 / 2)\<bar> \<le> 1002 / 2 ^ 23" "f_add (Fin y) (Fin (1 / 2)) = Fin z"
    using y(1) y1(1) rnd32_error [of "y + 1 / 2" 1002] f_round_Fin [of "y + 1 / 2" 1002] by (simp_all add: z_def)
  have zb: "?K \<le> z" "z < ?K + 1" using z(1) y1(2) unfolding p23 by linarith+
  then have "\<lfloor>z\<rfloor> = k" by (simp add: floor_eq_iff)
  moreover have "0 \<le> z" "z \<le> 32767" using zb K by linarith+
  moreover have "f_le (Fin 0) (Fin y)" using y(1) by (auto simp: f_le_def)
  ultimately show ?thesis
    unfolding milli_def mv lits(1) y(3) toI16_def half Let_def
    by (simp only: if_True z(2)) (simp add: lits f_to_int_def)
qed

lemma getAxis_deadband:
  "f_clamp (milli_value n) (Fin 0) (f_lit 1) = milli_value (max 0 (min 1000 n))" if "\<bar>n\<bar> < 2 ^ 24" for n
proof -
  have one: "f_lit 1 = Fin 1" using f_of_int_exact [of 1] by (simp add: f_lit_def f_of_int_def)
  have ends: "milli_value 0 = Fin 0" "milli_value 1000 = Fin 1"
    using milli_value_Fin [of 0] milli_value_Fin [of 1000] rnd32_of_int [of 1] by simp_all
  have v: "milli_value n = Fin (rnd32 (of_int n / 1000))" by (rule milli_value_Fin [OF that])
  have one_r: "rnd32 1 = 1" using rnd32_of_int [of 1] by simp
  consider "n \<le> 0" | "0 < n" "n < 1000" | "1000 \<le> n" by linarith
  then show ?thesis
  proof cases
    case 1
    then have "rnd32 (of_int n / 1000) \<le> 0" using rnd32_mono [of "of_int n / 1000" 0] by simp
    then show ?thesis using 1 by (auto simp: v one ends f_clamp_def)
  next
    case 2
    then have "of_int n / 1000 \<le> (1 :: rat)" by simp
    then have "rnd32 (of_int n / 1000) \<le> 1" "0 \<le> rnd32 (of_int n / 1000)"
      using rnd32_mono [of "of_int n / 1000" 1] rnd32_nonneg [of "of_int n / 1000"] one_r 2 by simp_all
    then show ?thesis using 2 by (auto simp: v one f_clamp_def min_def)
  next
    case 3
    then have "(1 :: rat) \<le> of_int n / 1000" by simp
    then have "1 \<le> rnd32 (of_int n / 1000)" using rnd32_mono [of 1 "of_int n / 1000"] one_r by simp
    then show ?thesis using 3 by (auto simp: v one ends f_clamp_def max_def)
  qed
qed

section \<open>Round trip of a table\<close>

definition axis_serial :: "AxisBinding \<Rightarrow> bool" where
  "axis_serial a \<longleftrightarrow> (\<exists>k. 0 \<le> k \<and> k \<le> 1000 \<and> ab_deadband a = milli_value k)"

lemma sint_i16: "- 32768 \<le> k \<Longrightarrow> k \<le> 32767 \<Longrightarrow> sint (word_of_int k :: u16) = k"
  by (simp add: sint_sbintrunc' signed_take_bit_int_eq_self)

lemma getAxis_serial: "getAxis p = Some a \<Longrightarrow> axis_serial a"
proof -
  assume h: "getAxis p = Some a"
  have "\<bar>readI16 p 2\<bar> < 2 ^ 24" using sint16_bounds [of "u16_at p 2"] by (simp add: readI16_def abs_less_iff)
  note d = getAxis_deadband [OF this]
  show ?thesis
    unfolding axis_serial_def
    by (rule exI [where x = "max 0 (min 1000 (readI16 p 2))"])
       (use h d in \<open>auto simp: getAxis_def milli_value_def\<close>)
qed

lemma getAxis_putAxis:
  assumes "axis_serial a"
  shows "getAxis (putAxis a @ rest) = Some a"
proof -
  obtain k where k: "0 \<le> k" "k \<le> 1000" "ab_deadband a = milli_value k" using assms by (auto simp: axis_serial_def)
  have "readI16 (putAxis a @ rest) 2 = k"
    using k u16_at_put [of "[enum_code axis_sources (ab_source a), if ab_invert a then 1 else 0]" 2 "word_of_int k" rest]
    by (simp add: readI16_def putAxis_def putI16_def milli_milli_value sint_i16)
  moreover have "f_clamp (milli_value k) (Fin 0) (f_lit 1) = milli_value k"
    using getAxis_deadband [of k] k by simp
  ultimately show ?thesis using k(3) by (simp add: getAxis_def putAxis_def milli_value_def)
qed

lemma getAxes_put:
  "list_all axis_serial as \<Longrightarrow> getAxes (length as) (concat (map putAxis as) @ rest) = Some (as, rest)"
  by (induction as) (simp_all add: getAxis_putAxis)

lemma getAxes_Some: "getAxes n p = Some (as, q) \<Longrightarrow> length as = n \<and> list_all axis_serial as"
  by (induction n arbitrary: p as) (auto simp: getAxis_serial split: bind_splits)

lemma getBools_put: "getBools (length bs) (map (enum_code bool_sources) bs @ rest) = Some (bs, rest)"
  by (induction bs) simp_all

lemma getBools_Some: "getBools n p = Some (bs, q) \<Longrightarrow> length bs = n"
  by (induction n arbitrary: p bs) (auto split: bind_splits)

lemma getTricks_put:
  "getTricks (length ts) (concat (map (\<lambda>t. [enum_code bool_sources (tb_source t), enum_code trick_ids (tb_trick t)]) ts) @ rest)
   = Some (ts, rest)"
  by (induction ts) (simp_all add: trick_def)

lemma getTricks_Some: "getTricks n p = Some (ts, q) \<Longrightarrow> length ts = n"
  by (induction n arbitrary: p ts) (auto split: bind_splits)

text \<open>What the codec carries: everything but the bindings of the gait-tune editor and of the duty axis.\<close>

definition bindings_serial :: "BindingConfig \<Rightarrow> bool" where
  "bindings_serial c \<longleftrightarrow> list_all axis_serial (axis_list c) \<and> length (bc_tricks c) = kMaxTrickBindings \<and>
     c = set_tricks False (bc_tricks c) (set_bools (bool_list c)
       ((set_axes (axis_list c) defaultBindings) \<lparr> bc_mode_select := bc_mode_select c, bc_gait_select := bc_gait_select c \<rparr>))"

lemma decode_encode: "bindings_serial c \<Longrightarrow> decodeBindings (encodeBindings c) = Some c"
proof -
  assume c: "bindings_serial c"
  have ts: "map (\<lambda>i. bc_tricks c ! i) [0..<kMaxTrickBindings] = bc_tricks c"
    using c by (simp add: bindings_serial_def list_eq_iff_nth_eq)
  let ?T = "concat (map (\<lambda>t. [enum_code bool_sources (tb_source t), enum_code trick_ids (tb_trick t)]) (bc_tricks c))"
  let ?B = "map (enum_code bool_sources) (bool_list c) @ ?T"
  let ?M = "[enum_code tri_sources (bc_mode_select c), enum_code tri_sources (bc_gait_select c)]"
  have e: "encodeBindings c = concat (map putAxis (axis_list c)) @ ?M @ ?B" by (simp add: encodeBindings_def ts)
  have len: "length (axis_list c) = 13" and blen: "length (bool_list c) = 11"
    by (simp_all add: axis_list_def bool_list_def)
  have "getAxes 13 (encodeBindings c) = Some (axis_list c, ?M @ ?B)"
    using getAxes_put [of "axis_list c" "?M @ ?B"] c len by (simp only: e bindings_serial_def)
  moreover have "getBools 11 ?B = Some (bool_list c, ?T)"
    using getBools_put [of "bool_list c" ?T] by (simp only: blen)
  moreover have "getTricks kMaxTrickBindings ?T = Some (bc_tricks c, [])"
    using getTricks_put [of "bc_tricks c" "[]"] c by (simp add: bindings_serial_def)
  ultimately show ?thesis using c length_encodeBindings [of c]
    by (simp add: decodeBindings_def kControllerBindingsLen_def kLegacyControllerBindingsLen_def bindings_serial_def)
qed

lemma length13: "length xs = 13 \<Longrightarrow> [xs ! 0, xs ! 1, xs ! 2, xs ! 3, xs ! 4, xs ! 5, xs ! 6, xs ! 7, xs ! 8, xs ! 9,
    xs ! 10, xs ! 11, xs ! 12] = xs"
  by (intro nth_equalityI) (auto simp: less_Suc_eq nth_Cons' numeral_eq_Suc)

lemma default_tricks_length: "length (bc_tricks defaultBindings) = 9"
  by (simp add: defaultBindings_def)

lemma decode_serial:
  assumes "decodeBindings p = Some c"
  shows "bindings_serial c"
proof -
  obtain as q m g bs r ts t where d: "getAxes 13 p = Some (as, q)" "getBools 11 (drop 2 q) = Some (bs, r)"
    "getTricks (if length p = kLegacyControllerBindingsLen then kMaxTrickBindings - 1 else kMaxTrickBindings) r = Some (ts, t)"
    and c: "c = set_tricks (length p = kLegacyControllerBindingsLen) ts (set_bools bs
       ((set_axes as defaultBindings) \<lparr> bc_mode_select := m, bc_gait_select := g \<rparr>))"
    using assms by (auto simp: decodeBindings_def Let_def split: if_splits bind_splits)
  note as = getAxes_Some [OF d(1)] and bs = getBools_Some [OF d(2)] and ts = getTricks_Some [OF d(3)]
  define d where "d = set_bools bs ((set_axes as defaultBindings) \<lparr> bc_mode_select := m, bc_gait_select := g \<rparr>)"
  have c': "c = d \<lparr> bc_tricks := bc_tricks c \<rparr>" by (simp add: c d_def set_tricks_def Let_def)
  have dl: "length (bc_tricks d) = 9" by (simp add: d_def set_bools_def set_axes_def default_tricks_length)
  have ax: "axis_list c = as" using length13 [of as] as
    by (simp add: c axis_list_def set_tricks_def set_bools_def set_axes_def Let_def)
  have bl: "set_bools (bool_list c) x = set_bools bs x" for x
    by (simp add: c bool_list_def set_tricks_def set_bools_def set_axes_def Let_def)
  have sel: "bc_mode_select c = m" "bc_gait_select c = g"
    by (simp_all add: c set_tricks_def set_bools_def set_axes_def Let_def)
  have len: "length (bc_tricks c) = kMaxTrickBindings"
    using ts by (simp add: c set_tricks_def set_bools_def set_axes_def default_tricks_length kMaxTrickBindings_def Let_def)
  have "c = set_tricks False (bc_tricks c) d"
    using c' dl len by (simp add: set_tricks_def kMaxTrickBindings_def Let_def)
  then show ?thesis using as len by (simp only: bindings_serial_def ax bl sel d_def)
qed

lemma getAxes_rest: "getAxes n p = Some (as, q) \<Longrightarrow> drop (4 * n) p = q"
  by (induction n arbitrary: p as) (fastforce simp: algebra_simps split: bind_splits)+

lemma getBools_rest: "getBools n p = Some (bs, q) \<Longrightarrow> drop n p = q"
  by (induction n arbitrary: p bs) (fastforce split: bind_splits)+

lemma getTricks_nth:
  "getTricks n p = Some (ts, q) \<Longrightarrow> i < n \<Longrightarrow> 2 * n \<le> length p \<Longrightarrow>
   enum_of bool_sources (p ! (2 * i)) = Some (tb_source (ts ! i)) \<and>
   enum_of trick_ids (p ! (2 * i + 1)) = Some (tb_trick (ts ! i))"
proof (induction n arbitrary: p ts i)
  case (Suc n)
  then obtain b t us where d: "enum_of bool_sources (p ! 0) = Some b" "enum_of trick_ids (p ! 1) = Some t"
    "getTricks n (drop 2 p) = Some (us, q)" "ts = trick b t # us"
    by (auto split: bind_splits)
  show ?case
  proof (cases i)
    case (Suc j)
    then show ?thesis using Suc.IH [OF d(3), of j] Suc.prems d(4) by simp
  qed (use d in \<open>simp add: trick_def\<close>)
qed simp

lemma serial_bindings_ok:
  assumes "bindings_serial c"
  shows "bindings_ok c"
proof -
  have "ab_deadband a \<noteq> NaN" if "axis_serial a" for a
    using that milli_value_Fin by (fastforce simp: axis_serial_def)
  then have "list_all axis_ok (axis_list c)"
    using assms by (auto simp: bindings_serial_def axis_ok_def list_all_iff)
  moreover have "bc_duty c = bc_duty defaultBindings"
  proof -
    have "c = set_tricks False (bc_tricks c) (set_bools (bool_list c)
       ((set_axes (axis_list c) defaultBindings) \<lparr> bc_mode_select := bc_mode_select c, bc_gait_select := bc_gait_select c \<rparr>))"
      using assms by (simp only: bindings_serial_def)
    then have "bc_duty c = bc_duty (set_tricks False (bc_tricks c) (set_bools (bool_list c)
       ((set_axes (axis_list c) defaultBindings) \<lparr> bc_mode_select := bc_mode_select c, bc_gait_select := bc_gait_select c \<rparr>)))"
      by (rule arg_cong)
    then show ?thesis by (simp add: set_tricks_def set_bools_def set_axes_def Let_def)
  qed
  ultimately show ?thesis using bindings_default by (simp add: bindings_ok_def axis_list_def)
qed

lemma decode_legacy:
  assumes "decodeBindings p = Some c" and "length p = kLegacyControllerBindingsLen"
  shows "bc_tricks c ! 7 = trick Nav2Right SpiderAttack \<and>
      enum_of bool_sources (p ! 79) = Some (tb_source (bc_tricks c ! 8)) \<and>
      enum_of trick_ids (p ! 80) = Some (tb_trick (bc_tricks c ! 8))"
proof -
  obtain as q m g bs r ts t where d: "getAxes 13 p = Some (as, q)" "getBools 11 (drop 2 q) = Some (bs, r)"
    "getTricks (kMaxTrickBindings - 1) r = Some (ts, t)" and c: "c = set_tricks True ts (set_bools bs
       ((set_axes as defaultBindings) \<lparr> bc_mode_select := m, bc_gait_select := g \<rparr>))"
    using assms by (auto simp: decodeBindings_def Let_def split: bind_splits)
  have r: "r = drop 65 p" using getAxes_rest [OF d(1)] getBools_rest [OF d(2)] by auto
  note len = getTricks_Some [OF d(3)]
  have "enum_of bool_sources (r ! (2 * 7)) = Some (tb_source (ts ! 7)) \<and>
      enum_of trick_ids (r ! (2 * 7 + 1)) = Some (tb_trick (ts ! 7))"
    using getTricks_nth [OF d(3), of 7] assms(2)
    by (simp add: r kMaxTrickBindings_def kLegacyControllerBindingsLen_def)
  then show ?thesis using len assms(2)
    by (simp add: c r set_tricks_def set_bools_def set_axes_def default_tricks_length nth_append kMaxTrickBindings_def kLegacyControllerBindingsLen_def Let_def
        nth_list_update) (simp add: defaultBindings_def)
qed



end
