(* ===== verification/Api.thy ===== *)
theory Api
  imports ControllerApi MaintTargetApi FrameReader ConfigApi FeatureApi DxlJobApi ControlApi PassiveApi
    MaintenanceApi Telemetry ObserverApi SensorApi
begin

text \<open>
  The USB dispatcher (\<open>protocol/api.h\<close>, \<open>protocol/api.cpp\<close>): decode a request body, answer the five
  built-in messages or hand the message to the first command group whose block contains it, and
  frame the answer. The state is the record of all command groups; a group whose pointer is null is
  \<open>None\<close>. Shown here: every decoded command is answered by one well-formed frame with its own
  message id and sequence number, everything else changes nothing, and a command changes only the
  group it addresses.
\<close>

section \<open>Data\<close>

definition kDeviceNameLen :: nat where "kDeviceNameLen = 16"

record DeviceInfo =
  fw_major :: u8
  fw_minor :: u8
  fw_patch :: u8
  feature_bits :: u32
  device_name :: bytes
  build_flags :: u8

record ApiStatusSnapshot =
  as_uptime_ms :: u32
  as_state :: u8
  as_dxl_power :: bool
  as_dxl_power_control :: bool
  as_battery_mv :: u16
  as_watchdog_missed :: u32
  as_reset_cause :: u8
  as_last_reset_watchdog_missed :: u32
  as_last_reset_progress_marker :: u8
  as_control_stack_free_words :: u16
  as_dxl_stack_free_words :: u16
  as_last_reset_control_progress :: u8
  as_last_reset_safety_state :: u8
  as_dxl_power_transitions :: u32
  as_hil_flags :: u8
  as_blocked_power_enable :: u32
  as_blocked_torque_enable :: u32
  as_blocked_goal_write :: u32
  as_blocked_dxl_write :: u32
  as_last_goal_sequence :: u32
  as_last_goal_count :: u8
  as_last_fault_reason :: u8
  as_last_fault_timestamp_ms :: u32
  as_last_fatal_reason :: u8
  as_last_fatal_stage :: u8
  as_last_fatal_task_name :: bytes
  as_last_fault_stack_pointer :: u32
  as_last_fault_exception_return :: u32
  as_last_fault_registers :: "u32 list"

text \<open>All groups. The configuration group carries its storage; the target group and the sensor group
  reach the configuration and the feature group through pointers, which are separate fields here.\<close>

record 'w ApiGroups =
  api_cfg :: "(ConfigApi \<times> 'w) option"
  api_tel :: "SubscriptionManager option"
  api_observer :: "ObserverApi option"
  api_ctrl :: "ControlApi option"
  api_motion :: "MotionApi option"
  api_features :: "FeatureApi option"
  api_maint :: "MaintenanceApi option"
  api_target_cfg :: "RobotConfig option"
  api_maint_target :: "MaintTargetApi option"
  api_dxl :: "DxlJobApi option"
  api_sensors :: "SensorApi option"
  api_passive :: "PassiveApi option"
  api_controller :: "ControllerApi option"

section \<open>Built-in messages\<close>

definition fixed_bytes :: "nat \<Rightarrow> bytes \<Rightarrow> bytes" where
  "fixed_bytes n bs = map (\<lambda>i. bs ! i) [0..<n]"

definition buildStatusFlags :: "ApiStatusSnapshot \<Rightarrow> u8" where
  "buildStatusFlags s = (if as_dxl_power s then 0x01 else 0) OR (if as_dxl_power_control s then 0x02 else 0)
     OR (if as_hil_flags s AND 0x01 \<noteq> 0 then 0x04 else 0)"

definition makeResponse :: "Header \<Rightarrow> u16 \<Rightarrow> u8 \<Rightarrow> Header" where
  "makeResponse req len fl = Header_default \<lparr> msg_type := msgTypeCode MsgResponse, msg_id := msg_id req,
     flags := fl, seq := seq req, timestamp_ms := 0, payload_len := len \<rparr>"

definition hello_payload :: "DeviceInfo \<Rightarrow> bytes" where
  "hello_payload info = [kVersionMajor, kVersionMinor, fw_major info, fw_minor info, fw_patch info]
     @ fixed_bytes kDeviceNameLen (device_name info)"

definition heartbeat_payload :: "ApiStatusSnapshot \<Rightarrow> bytes" where
  "heartbeat_payload st = put_u32 (as_uptime_ms st) @ [as_state st]"

definition status_payload :: "ApiStatusSnapshot \<Rightarrow> bytes" where
  "status_payload st = put_u32 (as_uptime_ms st) @ [as_state st, buildStatusFlags st] @ put_u16 (as_battery_mv st)
     @ put_u32 (as_watchdog_missed st) @ [as_reset_cause st] @ put_u32 (as_last_reset_watchdog_missed st)
     @ [as_last_reset_progress_marker st] @ put_u16 (as_control_stack_free_words st)
     @ put_u16 (as_dxl_stack_free_words st) @ [as_last_reset_control_progress st, as_last_reset_safety_state st]
     @ put_u32 (as_dxl_power_transitions st) @ [as_hil_flags st] @ put_u32 (as_blocked_power_enable st)
     @ put_u32 (as_blocked_torque_enable st) @ put_u32 (as_blocked_goal_write st) @ put_u32 (as_blocked_dxl_write st)
     @ put_u32 (as_last_goal_sequence st) @ [as_last_goal_count st, as_last_fault_reason st]
     @ put_u32 (as_last_fault_timestamp_ms st) @ [as_last_fatal_reason st, as_last_fatal_stage st]
     @ fixed_bytes 16 (as_last_fatal_task_name st) @ put_u32 (as_last_fault_stack_pointer st)
     @ put_u32 (as_last_fault_exception_return st)
     @ concat (map (\<lambda>i. put_u32 (as_last_fault_registers st ! i)) [0..<8])"

definition capabilities_payload :: "DeviceInfo \<Rightarrow> bytes" where
  "capabilities_payload info = [kVersionMajor, kVersionMinor, fw_major info, fw_minor info, fw_patch info]
     @ put_u32 (feature_bits info) @ fixed_bytes kDeviceNameLen (device_name info) @ [build_flags info]"

definition plain :: "bytes \<Rightarrow> Response" where
  "plain bs = \<lparr> resp_bytes = bs, resp_flags = 0 \<rparr>"

definition api_builtin :: "u8 \<Rightarrow> DeviceInfo \<Rightarrow> ApiStatusSnapshot \<Rightarrow> 'w ApiGroups \<Rightarrow> (Response \<times> 'w ApiGroups) option" where
  "api_builtin mid info st a =
     (if mid = 0x01 then Some (plain (hello_payload info), a \<lparr> api_tel := map_option (\<lambda>t. sub_reset) (api_tel a) \<rparr>)
      else if mid = 0x02 then Some (plain (heartbeat_payload st), a)
      else if mid = 0x05 then Some (plain (heartbeat_payload st), a \<lparr> api_ctrl := map_option noteJetsonHeartbeat (api_ctrl a) \<rparr>)
      else if mid = 0x03 then Some (plain (status_payload st), a)
      else if mid = 0x04 then Some (plain (capabilities_payload info), a)
      else None)"

section \<open>Delegation\<close>

definition in_block :: "u8 \<Rightarrow> u8 \<Rightarrow> u8 \<Rightarrow> bool" where
  "in_block lo hi mid \<longleftrightarrow> lo \<le> mid \<and> mid \<le> hi"

text \<open>One \<open>if (group != nullptr && in range)\<close> of the default branch: the group's handler on its own state,
  with the payload buffer of the dispatcher.\<close>

definition try_group ::
  "bool \<Rightarrow> 's handler \<Rightarrow> 's option \<Rightarrow> ('s \<Rightarrow> 'a \<Rightarrow> 'a) \<Rightarrow> u8 \<Rightarrow> bytes \<Rightarrow> 'a \<Rightarrow> (Response \<times> 'a) option" where
  "try_group here h st put mid req a =
     (case st of
        None \<Rightarrow> None
      | Some s \<Rightarrow> if here then map_option (\<lambda>(r, s'). (r, put s' a)) (h mid req kMaxPayload s) else None)"

fun first_some :: "('a \<Rightarrow> 'b option) list \<Rightarrow> 'a \<Rightarrow> 'b option" where
  "first_some [] a = None"
| "first_some (f # fs) a = (case f a of Some y \<Rightarrow> Some y | None \<Rightarrow> first_some fs a)"

definition try_observer :: "u8 \<Rightarrow> bytes \<Rightarrow> 'w ApiGroups \<Rightarrow> (Response \<times> 'w ApiGroups) option" where
  "try_observer mid req a =
     (if in_block 0x14 0x1B mid \<and> api_observer a = None
      then Some (plain [observerResultCode ObsNotAvailable], a)
      else try_group (in_block 0x14 0x1B mid) observer_handle (api_observer a)
        (\<lambda>s a. a \<lparr> api_observer := Some s \<rparr>) mid req a)"

definition api_front_groups ::
  "libm \<Rightarrow> ('w \<Rightarrow> bool) \<Rightarrow> 'w persist_commit \<Rightarrow> u8 \<Rightarrow> bytes \<Rightarrow> ('w ApiGroups \<Rightarrow> (Response \<times> 'w ApiGroups) option) list" where
  "api_front_groups m persistent commitPayload mid req =
     [\<lambda>a. try_group (in_block 0x20 0x25 mid) (config_handle persistent commitPayload) (api_cfg a)
        (\<lambda>s a. a \<lparr> api_cfg := Some s \<rparr>) mid req a,
      \<lambda>a. try_group (in_block 0x10 0x13 mid) telemetry_handle (api_tel a) (\<lambda>s a. a \<lparr> api_tel := Some s \<rparr>) mid req a,
      \<lambda>a. try_observer mid req a,
      \<lambda>a. try_group (in_block 0x30 0x33 mid) control_handle (api_ctrl a) (\<lambda>s a. a \<lparr> api_ctrl := Some s \<rparr>) mid req a,
      \<lambda>a. try_group (in_block 0x34 0x38 mid) motion_handle (api_motion a) (\<lambda>s a. a \<lparr> api_motion := Some s \<rparr>) mid req a,
      \<lambda>a. try_group (in_block 0x39 0x3C mid) feature_handle (api_features a) (\<lambda>s a. a \<lparr> api_features := Some s \<rparr>) mid req a,
      \<lambda>a. try_group (in_block 0x50 0x5F mid) maint_handle (api_maint a) (\<lambda>s a. a \<lparr> api_maint := Some s \<rparr>) mid req a]"

text \<open>The groups behind the maintenance lock see the state a declining lock handler has left.\<close>

definition api_after_maint :: "u8 \<Rightarrow> 'w ApiGroups \<Rightarrow> 'w ApiGroups" where
  "api_after_maint mid a =
     (if in_block 0x50 0x5F mid then a \<lparr> api_maint := map_option (maint_declined mid) (api_maint a) \<rparr> else a)"

definition api_back_groups ::
  "libm \<Rightarrow> u8 \<Rightarrow> bytes \<Rightarrow> ('w ApiGroups \<Rightarrow> (Response \<times> 'w ApiGroups) option) list" where
  "api_back_groups m mid req =
     [\<lambda>a. try_group (in_block 0x53 0x56 mid) (maint_target_handle m) (map_option (\<lambda>s. (api_target_cfg a, s)) (api_maint_target a))
        (\<lambda>(c, s) a. a \<lparr> api_target_cfg := c, api_maint_target := Some s \<rparr>) mid req a,
      \<lambda>a. try_group (in_block 0x60 0x6F mid) dxl_handle (api_dxl a) (\<lambda>s a. a \<lparr> api_dxl := Some s \<rparr>) mid req a,
      \<lambda>a. try_group (in_block 0x70 0x7F mid) sensor_handle (map_option (\<lambda>s. (api_features a, s)) (api_sensors a))
        (\<lambda>(f, s) a. a \<lparr> api_features := f, api_sensors := Some s \<rparr>) mid req a,
      \<lambda>a. try_group (in_block 0x80 0x83 mid) passive_handle (api_passive a) (\<lambda>s a. a \<lparr> api_passive := Some s \<rparr>) mid req a,
      \<lambda>a. try_group (in_block 0x90 0x9F mid) controller_handle (api_controller a) (\<lambda>s a. a \<lparr> api_controller := Some s \<rparr>) mid req a]"

definition kUnknownMsg :: u8 where "kUnknownMsg = 1"

definition api_dispatch ::
  "libm \<Rightarrow> ('w \<Rightarrow> bool) \<Rightarrow> 'w persist_commit \<Rightarrow> DeviceInfo \<Rightarrow> ApiStatusSnapshot \<Rightarrow> u8 \<Rightarrow> bytes \<Rightarrow>
   'w ApiGroups \<Rightarrow> Response \<times> 'w ApiGroups" where
  "api_dispatch m persistent commitPayload info st mid req a =
     (case api_builtin mid info st a of
        Some y \<Rightarrow> y
      | None \<Rightarrow>
          (case first_some (api_front_groups m persistent commitPayload mid req) a of
             Some y \<Rightarrow> y
           | None \<Rightarrow>
               (case first_some (api_back_groups m mid req) (api_after_maint mid a) of
                  Some y \<Rightarrow> y
                | None \<Rightarrow> (err_response kUnknownMsg, api_after_maint mid a))))"

text \<open>The result is the number of response bytes with the buffer, the decode status and the groups;
  \<open>None\<close> would be an access outside a buffer.\<close>

definition handleRequest ::
  "libm \<Rightarrow> ('w \<Rightarrow> bool) \<Rightarrow> 'w persist_commit \<Rightarrow> DeviceInfo \<Rightarrow> ApiStatusSnapshot \<Rightarrow> bytes \<Rightarrow> bytes \<Rightarrow>
   'w ApiGroups \<Rightarrow> ((nat \<times> bytes) \<times> DecodeStatus \<times> 'w ApiGroups) option" where
  "handleRequest m persistent commitPayload info status body out a =
     do {
       (st, req, payload) \<leftarrow> decodeFrameBody body Header_default kMaxPayload;
       if st \<noteq> DecOk then Some ((0, out), st, a)
       else if msg_type req \<noteq> msgTypeCode MsgCommand then Some ((0, out), st, a)
       else
         let (r, a') = api_dispatch m persistent commitPayload info status (msg_id req) payload a;
             resp = (makeResponse req (word_of_nat (length (resp_bytes r))) (resp_flags r))
                      \<lparr> timestamp_ms := as_uptime_ms status \<rparr>
         in map_option (\<lambda>w. (w, st, a')) (encodeFrame resp (resp_bytes r) out)
     }"

section \<open>Answers\<close>

lemma first_some_SomeD: "first_some fs a = Some y \<Longrightarrow> \<exists>f \<in> set fs. f a = Some y"
  by (induction fs) (auto split: option.splits)

lemma length_fixed_bytes [simp]: "length (fixed_bytes n bs) = n"
  by (simp add: fixed_bytes_def)

lemma length_concat_u32 [simp]: "length (concat (map (\<lambda>i. put_u32 (f i)) is)) = 4 * length is"
  by (induction "is") simp_all

lemma payload_lengths:
  "length (hello_payload info) = 21" "length (heartbeat_payload st) = 5" "length (status_payload st) = 113"
  "length (capabilities_payload info) = 26"
  by (simp_all add: hello_payload_def heartbeat_payload_def status_payload_def capabilities_payload_def kDeviceNameLen_def)

definition answer_ok :: "Response \<Rightarrow> bool" where
  "answer_ok r \<longleftrightarrow> resp_bytes r \<noteq> [] \<and> length (resp_bytes r) \<le> kMaxPayload"

lemma answer_ok_plain: "0 < length bs \<Longrightarrow> length bs \<le> 256 \<Longrightarrow> answer_ok (plain bs)"
  by (simp add: answer_ok_def plain_def kMaxPayload_def)

context command_group
begin

lemma try_SomeE:
  assumes "try_group here handle st put mid req a = Some (r, a')"
  obtains s s' where "st = Some s" "here" "handle mid req kMaxPayload s = Some (r, s')" "a' = put s' a" "ids mid"
    "answer_ok r"
proof -
  from assms obtain s s' where s: "st = Some s" "here" "handle mid req kMaxPayload s = Some (r, s')" "a' = put s' a"
    by (auto simp: try_group_def split: option.splits if_splits)
  have "(64 :: nat) \<le> kMaxPayload" by (simp add: kMaxPayload_def)
  then show thesis using that [OF s] handles_only [OF s(3)] resp_nonempty [OF s(3)] resp_fits [OF s(3)]
    by (simp add: answer_ok_def)
qed

end

lemma builtin_answers:
  "answer_ok (plain (hello_payload info))" "answer_ok (plain (heartbeat_payload st))"
  "answer_ok (plain (status_payload st))" "answer_ok (plain (capabilities_payload info))"
  by (rule answer_ok_plain; simp only: payload_lengths; simp)+

lemma api_builtin_ok: "api_builtin mid info st a = Some (r, a') \<Longrightarrow> answer_ok r"
  by (auto simp: api_builtin_def builtin_answers split: if_splits)

lemma front_groups_ok:
  assumes "first_some (api_front_groups m persistent commitPayload mid req) a = Some (r, a')"
  shows "answer_ok r"
  using first_some_SomeD [OF assms]
  by (auto simp: api_front_groups_def try_observer_def intro!: answer_ok_plain split: if_splits
      elim: config_group.try_SomeE telemetry_group.try_SomeE observer_group.try_SomeE control_group.try_SomeE
        motion_group.try_SomeE feature_group.try_SomeE maint_group.try_SomeE)

lemma back_groups_ok:
  assumes "first_some (api_back_groups m mid req) a = Some (r, a')"
  shows "answer_ok r"
  using first_some_SomeD [OF assms]
  by (auto simp: api_back_groups_def
      elim: maint_target_group.try_SomeE dxl_group.try_SomeE sensor_group.try_SomeE passive_group.try_SomeE
        controller_group.try_SomeE)

lemma api_dispatch_ok:
  assumes "api_dispatch m persistent commitPayload info st mid req a = (r, a')"
  shows "answer_ok r"
proof -
  have "answer_ok (err_response kUnknownMsg)" by (simp add: answer_ok_def err_response_def kMaxPayload_def)
  then show ?thesis using assms
    by (auto simp: api_dispatch_def split: option.splits dest: api_builtin_ok front_groups_ok back_groups_ok)
qed

text \<open>The frame that answers a command.\<close>

definition response_header :: "Header \<Rightarrow> ApiStatusSnapshot \<Rightarrow> Response \<Rightarrow> Header" where
  "response_header req status r =
     (makeResponse req (word_of_nat (length (resp_bytes r))) (resp_flags r)) \<lparr> timestamp_ms := as_uptime_ms status \<rparr>"

lemma response_wf: "answer_ok r \<Longrightarrow> frame_wf (response_header req status r) (resp_bytes r)"
  by (simp add: answer_ok_def frame_wf_def response_header_def makeResponse_def Header_default_def kMaxPayload_def
      unsigned_of_nat take_bit_nat_eq_self)

lemma handleRequest_command:
  assumes "decodeFrameBody body Header_default kMaxPayload = Some (DecOk, req, payload)"
    and "msg_type req = msgTypeCode MsgCommand" and "kMaxWireFrame \<le> length out"
    and "api_dispatch m persistent commitPayload info status (msg_id req) payload a = (r, a')"
  shows "handleRequest m persistent commitPayload info status body out a =
    (let e = frame_wire (response_header req status r) (resp_bytes r) in
     Some ((length e + 2, 0 # e @ 0 # drop (length e + 2) out), DecOk, a'))"
  using assms encodeFrame_correct [OF response_wf [OF api_dispatch_ok [OF assms(4)]] assms(3), of req status]
  by (simp add: handleRequest_def response_header_def Let_def)

lemma handleRequest_other:
  assumes "decodeFrameBody body Header_default kMaxPayload = Some (st, req, payload)"
    and "st \<noteq> DecOk \<or> msg_type req \<noteq> msgTypeCode MsgCommand"
  shows "handleRequest m persistent commitPayload info status body out a = Some ((0, out), st, a)"
  using assms by (auto simp: handleRequest_def)

lemma decodeFrameBody_total: "\<exists>st h p. decodeFrameBody bs h0 cap = Some (st, h, p)"
proof -
  obtain m d where "cobsDecode bs (replicate kMaxFrameBody 0) = Some (m, d)"
    using cobsDecode_correct [of bs "replicate kMaxFrameBody 0"] by fastforce
  then show ?thesis by (simp add: decodeFrameBody_def Let_def)
qed

text \<open>
  C28: every command is answered, once and correctly addressed. For any received body and any state
  of the groups, and an output buffer of the maximal frame size, the dispatcher stays within its
  buffers; a body that does not decode, or decodes to something other than a command, is reported
  with its decode status, produces no bytes and changes nothing; any decoded command, known or not,
  produces one delimited frame that decodes to a response with the command's message id and sequence
  number, the current uptime and a non-empty payload.
\<close>

theorem api_request_answered:
  assumes "kMaxWireFrame \<le> length out"
  shows "\<exists>n w st a' req p. handleRequest m persistent commitPayload info status body out a = Some ((n, w), st, a') \<and>
    decodeFrameBody body Header_default kMaxPayload = Some (st, req, p) \<and> length w = length out \<and>
    (if st = DecOk \<and> msg_type req = msgTypeCode MsgCommand
     then \<exists>e h q. take n w = 0 # e @ [0] \<and> 0 \<notin> set e \<and>
            decodeFrameBody e Header_default kMaxPayload = Some (DecOk, h, q) \<and> q \<noteq> [] \<and>
            msg_type h = msgTypeCode MsgResponse \<and> msg_id h = msg_id req \<and> seq h = seq req \<and>
            timestamp_ms h = as_uptime_ms status
     else n = 0 \<and> w = out \<and> a' = a)"
proof -
  obtain st req p where d: "decodeFrameBody body Header_default kMaxPayload = Some (st, req, p)"
    using decodeFrameBody_total [of body] by blast
  show ?thesis
  proof (cases "st = DecOk \<and> msg_type req = msgTypeCode MsgCommand")
    case True
    obtain r a' where ad: "api_dispatch m persistent commitPayload info status (msg_id req) p a = (r, a')" by fastforce
    let ?h = "response_header req status r" and ?e = "frame_wire (response_header req status r) (resp_bytes r)"
    note wf = response_wf [OF api_dispatch_ok [OF ad], of req status]
    have q: "resp_bytes r \<noteq> []" "length (resp_bytes r) \<le> kMaxPayload"
      using api_dispatch_ok [OF ad] by (simp_all add: answer_ok_def)
    have fit: "length ?e + 2 \<le> length out" using frame_wire_length [OF wf] assms by (simp add: kMaxWireFrame_def)
    have h: "handleRequest m persistent commitPayload info status body out a =
        Some ((length ?e + 2, 0 # ?e @ 0 # drop (length ?e + 2) out), DecOk, a')"
      using handleRequest_command [OF _ _ assms ad, of body] d True by (simp add: Let_def)
    have "decodeFrameBody ?e Header_default kMaxPayload = Some (DecOk, ?h, resp_bytes r)"
      by (rule decodeFrameBody_encoded [OF wf q(2)])
    then show ?thesis using h d True q(1) fit frame_wire_no_zero [of ?h "resp_bytes r"]
      by (simp add: response_header_def makeResponse_def)
  next
    case False
    then show ?thesis using d handleRequest_other [OF d] by (metis (no_types, lifting))
  qed
qed

definition api_idle :: "unit ApiGroups" where
  "api_idle = \<lparr> api_cfg = None, api_tel = Some sub_reset, api_observer = None, api_ctrl = None, api_motion = None,
     api_features = None, api_maint = None, api_target_cfg = None, api_maint_target = None, api_dxl = None,
     api_sensors = None, api_passive = None, api_controller = None \<rparr>"

definition api_sample_info :: DeviceInfo where
  "api_sample_info = \<lparr> fw_major = 1, fw_minor = 2, fw_patch = 3, feature_bits = 0, device_name = replicate 16 0, build_flags = 0 \<rparr>"

definition api_sample_status :: ApiStatusSnapshot where
  "api_sample_status = \<lparr> as_uptime_ms = 1000, as_state = 2, as_dxl_power = False, as_dxl_power_control = True,
     as_battery_mv = 11800, as_watchdog_missed = 0, as_reset_cause = 1, as_last_reset_watchdog_missed = 0,
     as_last_reset_progress_marker = 0, as_control_stack_free_words = 100, as_dxl_stack_free_words = 100,
     as_last_reset_control_progress = 0, as_last_reset_safety_state = 0, as_dxl_power_transitions = 0, as_hil_flags = 0,
     as_blocked_power_enable = 0, as_blocked_torque_enable = 0, as_blocked_goal_write = 0, as_blocked_dxl_write = 0,
     as_last_goal_sequence = 0, as_last_goal_count = 0, as_last_fault_reason = 0, as_last_fault_timestamp_ms = 0,
     as_last_fatal_reason = 0, as_last_fatal_stage = 0, as_last_fatal_task_name = replicate 16 0,
     as_last_fault_stack_pointer = 0, as_last_fault_exception_return = 0, as_last_fault_registers = replicate 8 0 \<rparr>"

definition api_sample_request :: Header where
  "api_sample_request = Header_default \<lparr> msg_id := 0x03, seq := 7 \<rparr>"

lemma api_sample_request_decodes:
  "decodeFrameBody (frame_wire api_sample_request []) Header_default kMaxPayload = Some (DecOk, api_sample_request, [])"
  by (rule decodeFrameBody_encoded) (simp_all add: frame_wf_def api_sample_request_def Header_default_def)

theorem api_request_answered_witness:
  "\<exists>n w a' e h q. handleRequest mt_sample_libm (\<lambda>_. False) (\<lambda>p w. (False, w)) api_sample_info api_sample_status
      (frame_wire api_sample_request []) (replicate kMaxWireFrame 0) api_idle = Some ((n, w), DecOk, a') \<and>
     take n w = 0 # e @ [0] \<and> decodeFrameBody e Header_default kMaxPayload = Some (DecOk, h, q) \<and>
     msg_id h = 0x03 \<and> seq h = 7"
proof -
  have "kMaxWireFrame \<le> length (replicate kMaxWireFrame (0 :: u8))" by simp
  from api_request_answered [OF this, of mt_sample_libm "\<lambda>_. False" "\<lambda>p w. (False, w)" api_sample_info
      api_sample_status "frame_wire api_sample_request []" api_idle]
  show ?thesis using api_sample_request_decodes
    by (auto simp: api_sample_request_def Header_default_def)
qed

section \<open>Isolation\<close>

definition isolated :: "u8 \<Rightarrow> 'w ApiGroups \<Rightarrow> 'w ApiGroups \<Rightarrow> bool" where
  "isolated mid a a' \<longleftrightarrow>
     (api_cfg a' = api_cfg a \<or> isConfigMsg mid) \<and> (api_tel a' = api_tel a \<or> mid = 0x01 \<or> isTelemetryMsg mid) \<and>
     (api_observer a' = api_observer a \<or> isObserverMsg mid) \<and> (api_ctrl a' = api_ctrl a \<or> mid = 0x05 \<or> isControlMsg mid) \<and>
     (api_motion a' = api_motion a \<or> isMotionMsg mid) \<and>
     (api_features a' = api_features a \<or> isFeatureMsg mid \<or> mid \<in> {0x70, 0x71, 0x73, 0x74}) \<and>
     (api_maint a' = api_maint a \<or> isMaintMsg mid) \<and> api_target_cfg a' = api_target_cfg a \<and>
     (api_maint_target a' = api_maint_target a \<or> isMaintTargetMsg mid) \<and> (api_dxl a' = api_dxl a \<or> isDxlMsg mid) \<and>
     (api_sensors a' = api_sensors a \<or> isSensorMsg mid) \<and> (api_passive a' = api_passive a \<or> isPassiveMsg mid) \<and>
     (api_controller a' = api_controller a \<or> isControllerMsg mid)"

lemma isolated_refl [simp]: "isolated mid a a"
  by (simp add: isolated_def)

lemma isolated_builtin: "api_builtin mid info st a = Some (r, a') \<Longrightarrow> isolated mid a a'"
  by (auto simp: api_builtin_def isolated_def split: if_splits)

lemma isolated_after_maint: "isolated mid a (api_after_maint mid a)"
  by (simp add: api_after_maint_def isolated_def in_block_def isMaintMsg_def)

lemma isolated_trans: "isolated mid a b \<Longrightarrow> isolated mid b c \<Longrightarrow> isolated mid a c"
  unfolding isolated_def by metis

lemma isolated_front:
  assumes "first_some (api_front_groups m persistent commitPayload mid req) a = Some (r, a')"
  shows "isolated mid a a'"
  using first_some_SomeD [OF assms]
  by (auto simp: api_front_groups_def try_observer_def isolated_def split: if_splits
      elim!: config_group.try_SomeE telemetry_group.try_SomeE observer_group.try_SomeE control_group.try_SomeE
        motion_group.try_SomeE feature_group.try_SomeE maint_group.try_SomeE)

lemma sensor_features_frame:
  assumes "sensor_handle mid req cap (f, s) = Some (r, f', s')"
  shows "f' = f \<or> mid \<in> {0x70, 0x71, 0x73, 0x74}"
  using assms by (auto simp: sensor_handle_def Let_def split: if_splits)

lemma isolated_back:
  assumes "first_some (api_back_groups m mid req) a = Some (r, a')"
  shows "isolated mid a a'"
  using first_some_SomeD [OF assms]
  by (auto simp: api_back_groups_def isolated_def dest: sensor_features_frame
      elim!: maint_target_group.try_SomeE dxl_group.try_SomeE sensor_group.try_SomeE passive_group.try_SomeE
        controller_group.try_SomeE maint_target_handle_SomeE)

lemma isolated_dispatch:
  assumes "api_dispatch m persistent commitPayload info st mid req a = (r, a')"
  shows "isolated mid a a'"
  using assms isolated_trans [OF isolated_after_maint isolated_back] isolated_after_maint [of mid a]
  by (auto simp: api_dispatch_def split: option.splits dest: isolated_builtin isolated_front)

text \<open>
  A frame reaches only the group it addresses. Whatever bytes arrive as a body, either nothing
  changes or the body decodes to a command, and then every group except the one whose id block
  contains the message keeps its state; the only exceptions are HELLO, which resets the telemetry
  subscriptions, the Jetson heartbeat, which the safety control group records, and the four
  messages of the sensor group that switch a feature. No frame changes the configuration the
  maintenance targets are computed with except through the configuration group.
\<close>

theorem api_frame_isolation:
  assumes "handleRequest m persistent commitPayload info status body out a = Some (w, st, a')"
  shows "a' = a \<or> (\<exists>req p. decodeFrameBody body Header_default kMaxPayload = Some (DecOk, req, p) \<and>
           msg_type req = msgTypeCode MsgCommand \<and> isolated (msg_id req) a a')"
proof -
  obtain st0 req p where d: "decodeFrameBody body Header_default kMaxPayload = Some (st0, req, p)"
    using decodeFrameBody_total [of body] by blast
  obtain r a1 where ad: "api_dispatch m persistent commitPayload info status (msg_id req) p a = (r, a1)" by fastforce
  show ?thesis
  proof (cases "st0 = DecOk \<and> msg_type req = msgTypeCode MsgCommand")
    case True
    then have "a' = a1" using assms d ad by (auto simp: handleRequest_def Let_def)
    then show ?thesis using True d isolated_dispatch [OF ad] by blast
  next
    case False
    then show ?thesis using assms d by (auto simp: handleRequest_def split: if_splits)
  qed
qed

theorem api_frame_isolation_witness:
  "\<exists>w st a'. handleRequest mt_sample_libm (\<lambda>_. False) (\<lambda>p w. (False, w)) api_sample_info api_sample_status
      (frame_wire api_sample_request []) (replicate kMaxWireFrame 0) api_idle = Some (w, st, a') \<and>
     api_tel a' = api_tel api_idle"
proof -
  have "kMaxWireFrame \<le> length (replicate kMaxWireFrame (0 :: u8))" by simp
  note h = handleRequest_command [OF api_sample_request_decodes _ this prod.collapse [symmetric],
      of mt_sample_libm "\<lambda>_. False" "\<lambda>p w. (False, w)" api_sample_info api_sample_status api_idle]
  obtain w st a' where r: "handleRequest mt_sample_libm (\<lambda>_. False) (\<lambda>p w. (False, w)) api_sample_info
      api_sample_status (frame_wire api_sample_request []) (replicate kMaxWireFrame 0) api_idle = Some (w, st, a')"
    using h by (simp add: api_sample_request_def Header_default_def Let_def)
  from api_frame_isolation [OF r] have "a' = api_idle \<or> isolated (msg_id api_sample_request) api_idle a'"
    using api_sample_request_decodes by auto
  then have "api_tel a' = api_tel api_idle"
    by (auto simp: isolated_def api_sample_request_def isTelemetryMsg_def)
  then show ?thesis using r by blast
qed

end
