(* ===== verification/Runs.thy ===== *)
theory Runs
  imports Main
begin

text \<open>
  Runs of partial machines. Several components are driven by sequences of operations that may fail
  (a loop that does not end, a conversion out of range): \<open>fold_opt\<close> runs a sequence and fails with its
  first failing step. The locale is the contract such a component offers: every admissible operation
  succeeds in every state of the invariant and keeps it.
\<close>

fun fold_opt :: "('a \<Rightarrow> 's \<Rightarrow> 's option) \<Rightarrow> 'a list \<Rightarrow> 's \<Rightarrow> 's option" where
  "fold_opt step [] s = Some s"
| "fold_opt step (x # xs) s = (case step x s of None \<Rightarrow> None | Some s' \<Rightarrow> fold_opt step xs s')"

lemma fold_opt_append: "fold_opt step (xs @ ys) s = Option.bind (fold_opt step xs s) (fold_opt step ys)"
  by (induction xs arbitrary: s) (auto split: option.split)

locale guarded_machine =
  fixes step :: "'op \<Rightarrow> 's \<Rightarrow> 's option"
    and admissible :: "'op \<Rightarrow> bool"
    and inv :: "'s \<Rightarrow> bool"
    and start :: "'s \<Rightarrow> bool"
  assumes progress: "admissible op \<Longrightarrow> inv s \<Longrightarrow> \<exists>s'. step op s = Some s' \<and> inv s'"
    and initially: "start s \<Longrightarrow> inv s"
begin

lemma run_from: "list_all admissible ops \<Longrightarrow> inv s \<Longrightarrow> \<exists>s'. fold_opt step ops s = Some s' \<and> inv s'"
proof (induction ops arbitrary: s)
  case (Cons op ops)
  then obtain s' where "step op s = Some s'" "inv s'" using progress [of op s] by auto
  then show ?case using Cons by simp
qed simp

lemma run: "list_all admissible ops \<Longrightarrow> start s \<Longrightarrow> \<exists>s'. fold_opt step ops s = Some s' \<and> inv s'"
  by (rule run_from [OF _ initially])

lemma run_inv: "list_all admissible ops \<Longrightarrow> start s \<Longrightarrow> fold_opt step ops s = Some s' \<Longrightarrow> inv s'"
  using run by fastforce

end

end
