(* ===== verification/TrickEngine.thy ===== *)
theory TrickEngine
  imports ControllerBridge Kinematics Runs
begin

text \<open>
  The choreography engine (\<open>gait/trick_engine.h\<close>, \<open>gait/trick_engine.cpp\<close>): keyframe programs played
  by linear interpolation. A read through a null program or behind a keyframe table is \<open>None\<close>. Shown
  here: whatever is triggered and however time advances, an update returns and its output stays in
  the body envelope; a one-shot program ends once its time has passed.
\<close>

record TrickKeyframe =
  kf_duration_ms :: u16
  kf_gait :: GaitId
  kf_vx :: f32
  kf_vy :: f32
  kf_wz :: f32
  kf_x_mm :: f32
  kf_y_mm :: f32
  kf_z_mm :: f32
  kf_roll :: f32
  kf_pitch :: f32
  kf_yaw :: f32
  kf_height_frac :: f32
  kf_height_rate_mm_per_s :: f32
  kf_stride_mm :: u16
  kf_step_height_mm :: u16
  kf_speed_x255 :: u8

record TrickProgram =
  tp_frames :: "TrickKeyframe list"
  tp_count :: nat
  tp_loop :: bool
  tp_hold_last :: bool

definition BodyPose_default :: BodyPose where
  "BodyPose_default = \<lparr> bp_x_mm = Fin 0, bp_y_mm = Fin 0, bp_z_mm = Fin 0, bp_roll = Fin 0, bp_pitch = Fin 0, bp_yaw = Fin 0 \<rparr>"

record TrickOutput =
  to_active :: bool
  to_gait :: GaitId
  to_twist_vx :: f32
  to_twist_vy :: f32
  to_twist_wz :: f32
  to_pose :: BodyPose
  to_override_height :: bool
  to_body_height_frac :: f32
  to_height_rate_mm_per_s :: f32
  to_override_gait_shape :: bool
  to_stride_mm :: u16
  to_step_height_mm :: u16
  to_speed_x255 :: u8

definition TrickOutput_default :: TrickOutput where
  "TrickOutput_default = \<lparr> to_active = False, to_gait = Stand, to_twist_vx = Fin 0, to_twist_vy = Fin 0,
     to_twist_wz = Fin 0, to_pose = BodyPose_default, to_override_height = False, to_body_height_frac = Fin 0,
     to_height_rate_mm_per_s = Fin 0, to_override_gait_shape = False, to_stride_mm = 0, to_step_height_mm = 0,
     to_speed_x255 = 0 \<rparr>"

section \<open>Programs\<close>

text \<open>A keyframe with the fields the source lists before the trailing zeros: duration, gait, yaw twist,
  forward body shift, roll, pitch, yaw and height; and one with the jump-kick's extra fields.\<close>

definition frame :: "u16 \<Rightarrow> GaitId \<Rightarrow> rat \<Rightarrow> rat \<Rightarrow> rat \<Rightarrow> rat \<Rightarrow> rat \<Rightarrow> rat \<Rightarrow> TrickKeyframe" where
  "frame dur g wz x roll pitch yaw height =
     \<lparr> kf_duration_ms = dur, kf_gait = g, kf_vx = f_lit 0, kf_vy = f_lit 0, kf_wz = f_lit wz, kf_x_mm = f_lit x,
       kf_y_mm = f_lit 0, kf_z_mm = f_lit 0, kf_roll = f_lit roll, kf_pitch = f_lit pitch, kf_yaw = f_lit yaw,
       kf_height_frac = f_lit height, kf_height_rate_mm_per_s = f_lit 0, kf_stride_mm = 0, kf_step_height_mm = 0,
       kf_speed_x255 = 0 \<rparr>"

definition kick_frame :: "u16 \<Rightarrow> GaitId \<Rightarrow> rat \<Rightarrow> rat \<Rightarrow> rat \<Rightarrow> u16 \<Rightarrow> u16 \<Rightarrow> u8 \<Rightarrow> TrickKeyframe" where
  "kick_frame dur g vy height rate stride step speed = (frame dur g 0 0 0 0 0 height)
     \<lparr> kf_vy := f_lit vy, kf_height_rate_mm_per_s := f_lit rate, kf_stride_mm := stride, kf_step_height_mm := step,
       kf_speed_x255 := speed \<rparr>"

definition kStandUpProg :: TrickProgram where
  "kStandUpProg = \<lparr> tp_frames = [frame 700 Stand 0 0 0 0 0 (80 / 100)], tp_count = 1, tp_loop = False, tp_hold_last = False \<rparr>"

definition kSitDownProg :: TrickProgram where
  "kSitDownProg = \<lparr> tp_frames = [frame 700 Sit 0 0 0 0 0 (5 / 100)], tp_count = 1, tp_loop = False, tp_hold_last = False \<rparr>"

definition kWaveProg :: TrickProgram where
  "kWaveProg = \<lparr> tp_frames =
     [frame 300 Stand 0 0 (25 / 100) (- 15 / 100) 0 (- 1), frame 300 Stand 0 0 (- 10 / 100) (- 15 / 100) 0 (- 1),
      frame 300 Stand 0 0 (25 / 100) (- 15 / 100) 0 (- 1), frame 300 Stand 0 0 0 0 0 (- 1)],
     tp_count = 4, tp_loop = False, tp_hold_last = False \<rparr>"

definition kCrouchDownProg :: TrickProgram where
  "kCrouchDownProg = \<lparr> tp_frames = [frame 500 Stand 0 0 0 0 0 (15 / 100)], tp_count = 1, tp_loop = False, tp_hold_last = True \<rparr>"

definition kCrouchUpProg :: TrickProgram where
  "kCrouchUpProg = \<lparr> tp_frames = [frame 500 Stand 0 0 0 0 0 (85 / 100)], tp_count = 1, tp_loop = False, tp_hold_last = True \<rparr>"

definition kTwirlProg :: TrickProgram where
  "kTwirlProg = \<lparr> tp_frames =
     [frame 300 Tripod (80 / 100) 0 0 0 0 (- 1), frame 1500 Tripod (80 / 100) 0 0 0 0 (- 1),
      frame 300 Tripod 0 0 0 0 0 (- 1)], tp_count = 3, tp_loop = False, tp_hold_last = False \<rparr>"

definition kStretchProg :: TrickProgram where
  "kStretchProg = \<lparr> tp_frames =
     [frame 500 Stand 0 0 0 0 0 (20 / 100), frame 500 Stand 0 0 0 0 0 (90 / 100),
      frame 500 Stand 0 0 0 0 0 (20 / 100), frame 500 Stand 0 0 0 0 0 (60 / 100)],
     tp_count = 4, tp_loop = False, tp_hold_last = False \<rparr>"

definition kLeanLookProg :: TrickProgram where
  "kLeanLookProg = \<lparr> tp_frames = [frame 500 Stand 0 0 (20 / 100) (15 / 100) (20 / 100) (- 1)],
     tp_count = 1, tp_loop = False, tp_hold_last = True \<rparr>"

definition kDanceProg :: TrickProgram where
  "kDanceProg = \<lparr> tp_frames =
     [frame 350 Stand 0 0 (25 / 100) 0 0 (40 / 100), frame 350 Stand 0 0 (- 25 / 100) 0 (20 / 100) (70 / 100),
      frame 350 Stand 0 0 (25 / 100) 0 (- 20 / 100) (40 / 100), frame 350 Stand 0 0 0 0 0 (60 / 100)],
     tp_count = 4, tp_loop = True, tp_hold_last = False \<rparr>"

definition kSpiderAttackProg :: TrickProgram where
  "kSpiderAttackProg = \<lparr> tp_frames = [frame 650 Stand 0 18 0 (18 / 100) 0 (18 / 100)],
     tp_count = 1, tp_loop = False, tp_hold_last = True \<rparr>"

definition kJumpKickProg :: TrickProgram where
  "kJumpKickProg = \<lparr> tp_frames =
     [kick_frame 900 Stand 0 (10 / 100) 80 35 40 255, kick_frame 700 Tripod (65 / 100) (90 / 100) 120 35 40 255,
      kick_frame 500 Stand 0 (60 / 100) 80 0 0 0], tp_count = 3, tp_loop = False, tp_hold_last = False \<rparr>"

section \<open>The player\<close>

text \<open>The ramp origin: the nine interpolated quantities and the height.\<close>

record TrickOrigin =
  from_vx :: f32
  from_vy :: f32
  from_wz :: f32
  from_x :: f32
  from_y :: f32
  from_z :: f32
  from_roll :: f32
  from_pitch :: f32
  from_yaw :: f32
  from_height :: f32

definition TrickOrigin_zero :: TrickOrigin where
  "TrickOrigin_zero = \<lparr> from_vx = Fin 0, from_vy = Fin 0, from_wz = Fin 0, from_x = Fin 0, from_y = Fin 0, from_z = Fin 0,
     from_roll = Fin 0, from_pitch = Fin 0, from_yaw = Fin 0, from_height = Fin 0 \<rparr>"

record TrickEngine =
  te_active :: bool
  te_held :: bool
  te_trick :: TrickId
  te_prog :: "TrickProgram option"
  te_seg :: nat
  te_seg_elapsed_ms :: u32
  te_from :: TrickOrigin
  te_crouched :: bool
  te_out :: TrickOutput

definition lerp :: "f32 \<Rightarrow> f32 \<Rightarrow> f32 \<Rightarrow> f32" where
  "lerp a b t = f_add a (f_mul (f_sub b a) t)"

definition clamp01 :: "f32 \<Rightarrow> f32" where
  "clamp01 v = f_clamp v (f_lit 0) (f_lit 1)"

definition trick_reset :: "TrickEngine \<Rightarrow> TrickEngine" where
  "trick_reset e = e \<lparr> te_active := False, te_held := False, te_trick := TrickNone, te_prog := None, te_seg := 0,
     te_seg_elapsed_ms := 0, te_from := TrickOrigin_zero, te_crouched := False, te_out := TrickOutput_default \<rparr>"

definition trick_cancel :: "TrickEngine \<Rightarrow> TrickEngine" where
  "trick_cancel e = e \<lparr> te_active := False, te_held := False, te_trick := TrickNone, te_prog := None,
     te_out := TrickOutput_default \<rparr>"

fun selectProgram :: "TrickId \<Rightarrow> TrickEngine \<Rightarrow> TrickProgram option \<times> TrickEngine" where
  "selectProgram StandUp e = (Some kStandUpProg, e)"
| "selectProgram SitDown e = (Some kSitDownProg, e)"
| "selectProgram WaveTrick e = (Some kWaveProg, e)"
| "selectProgram CrouchToggle e =
     (let e = e \<lparr> te_crouched := \<not> te_crouched e \<rparr>
      in (Some (if te_crouched e then kCrouchDownProg else kCrouchUpProg), e))"
| "selectProgram Twirl e = (Some kTwirlProg, e)"
| "selectProgram Stretch e = (Some kStretchProg, e)"
| "selectProgram LeanLook e = (Some kLeanLookProg, e)"
| "selectProgram DanceLoop e = (Some kDanceProg, e)"
| "selectProgram SpiderAttack e = (Some kSpiderAttackProg, e)"
| "selectProgram JumpKick e = (Some kJumpKickProg, e)"
| "selectProgram TrickNone e = (None, e)"

definition captureTargets :: "TrickKeyframe \<Rightarrow> TrickEngine \<Rightarrow> TrickEngine" where
  "captureTargets kf e = e \<lparr> te_from := \<lparr> from_vx = kf_vx kf, from_vy = kf_vy kf, from_wz = kf_wz kf, from_x = kf_x_mm kf,
     from_y = kf_y_mm kf, from_z = kf_z_mm kf, from_roll = kf_roll kf, from_pitch = kf_pitch kf, from_yaw = kf_yaw kf,
     from_height = (if f_le (Fin 0) (kf_height_frac kf) then kf_height_frac kf else from_height (te_from e)) \<rparr> \<rparr>"

definition writeOutputs :: "TrickKeyframe \<Rightarrow> f32 \<Rightarrow> TrickEngine \<Rightarrow> TrickEngine" where
  "writeOutputs kf t e =
     (let o0 = te_out e; fr = te_from e;
          o1 = o0 \<lparr> to_active := True, to_gait := kf_gait kf, to_twist_vx := lerp (from_vx fr) (kf_vx kf) t,
                 to_twist_vy := lerp (from_vy fr) (kf_vy kf) t, to_twist_wz := lerp (from_wz fr) (kf_wz kf) t,
                 to_pose := \<lparr> bp_x_mm = lerp (from_x fr) (kf_x_mm kf) t, bp_y_mm = lerp (from_y fr) (kf_y_mm kf) t,
                   bp_z_mm = lerp (from_z fr) (kf_z_mm kf) t, bp_roll = lerp (from_roll fr) (kf_roll kf) t,
                   bp_pitch = lerp (from_pitch fr) (kf_pitch kf) t, bp_yaw = lerp (from_yaw fr) (kf_yaw kf) t \<rparr> \<rparr>;
          o2 = (if f_le (Fin 0) (kf_height_frac kf)
                then o1 \<lparr> to_override_height := True,
                       to_body_height_frac := clamp01 (lerp (from_height fr) (kf_height_frac kf) t) \<rparr>
                else o1 \<lparr> to_override_height := False \<rparr>);
          o3 = o2 \<lparr> to_height_rate_mm_per_s :=
                   (if f_lt (Fin 0) (kf_height_rate_mm_per_s kf) then kf_height_rate_mm_per_s kf else Fin 0),
                 to_override_gait_shape := (kf_stride_mm kf > 0 \<or> kf_step_height_mm kf > 0 \<or> kf_speed_x255 kf > 0),
                 to_stride_mm := kf_stride_mm kf, to_step_height_mm := kf_step_height_mm kf,
                 to_speed_x255 := kf_speed_x255 kf \<rparr>
      in e \<lparr> te_out := o3 \<rparr>)"

definition trick_trigger :: "TrickId \<Rightarrow> f32 \<Rightarrow> TrickEngine \<Rightarrow> TrickEngine" where
  "trick_trigger tid entry_height_frac e =
     (if tid = TrickNone then trick_cancel e
      else case selectProgram tid e of
        (None, e) \<Rightarrow> e
      | (Some p, e) \<Rightarrow>
          if tp_count p = 0 then e
          else writeOutputs (tp_frames p ! 0) (f_lit 0) (e \<lparr> te_prog := Some p, te_trick := tid, te_active := True,
                 te_held := False, te_seg := 0, te_seg_elapsed_ms := 0,
                 te_from := TrickOrigin_zero \<lparr> from_height := clamp01 entry_height_frac \<rparr> \<rparr>))"

definition set_active :: "bool \<Rightarrow> TrickEngine \<Rightarrow> TrickEngine" where
  "set_active b e = e \<lparr> te_out := (te_out e) \<lparr> to_active := b \<rparr> \<rparr>"

text \<open>The loop over finished segments. Every repetition consumes at least a millisecond.\<close>

definition kf_dur :: "TrickKeyframe \<Rightarrow> u32" where
  "kf_dur kf = (if kf_duration_ms kf \<noteq> 0 then ucast (kf_duration_ms kf) else 1)"

lemma unat_kf_dur: "unat (kf_dur kf) = (if kf_duration_ms kf \<noteq> 0 then unat (kf_duration_ms kf) else 1)"
  by (simp add: kf_dur_def)

lemma kf_dur_bounds: "0 < unat (kf_dur kf)" "unat (kf_dur kf) < 65536"
proof -
  have "unat (kf_duration_ms kf) < 2 ^ 16" using unsigned_less [of "kf_duration_ms kf"] by simp
  then show "0 < unat (kf_dur kf)" "unat (kf_dur kf) < 65536" by (simp_all add: unat_kf_dur unat_gt_0)
qed

lemma elapsed_consumed: "\<not> e < kf_dur kf \<Longrightarrow> unat (e - kf_dur kf) < unat e"
  using kf_dur_bounds(1) [of kf] by (simp add: unat_sub not_less word_less_nat_alt word_le_nat_alt)

function trick_loop :: "TrickEngine \<Rightarrow> TrickEngine option" where
  "trick_loop e =
     (case te_prog e of
        None \<Rightarrow> None
      | Some p \<Rightarrow>
          if te_seg e \<ge> length (tp_frames p) then None
          else
            let kf = tp_frames p ! te_seg e in
            if te_seg_elapsed_ms e < kf_dur kf
            then Some (set_active True (writeOutputs kf
                   (f_div (f_of_int (uint (te_seg_elapsed_ms e))) (f_of_int (uint (kf_dur kf)))) e))
            else
              let e' = captureTargets kf (e \<lparr> te_seg_elapsed_ms := te_seg_elapsed_ms e - kf_dur kf \<rparr>) in
              if te_seg e + 1 < tp_count p then trick_loop (e' \<lparr> te_seg := te_seg e + 1 \<rparr>)
              else if tp_loop p then trick_loop (e' \<lparr> te_seg := 0 \<rparr>)
              else if tp_hold_last p then Some (set_active True ((writeOutputs kf (f_lit 1) e') \<lparr> te_held := True \<rparr>))
              else Some (set_active False (e' \<lparr> te_active := False \<rparr>)))"
  by pat_completeness auto
termination
  by (relation "measure (\<lambda>e. unat (te_seg_elapsed_ms e))") (simp_all add: captureTargets_def elapsed_consumed)

declare trick_loop.simps [simp del]

definition kMaxAdvanceMs :: u32 where "kMaxAdvanceMs = 1000"

definition trick_update :: "u32 \<Rightarrow> bool \<Rightarrow> TrickEngine \<Rightarrow> TrickEngine option" where
  "trick_update dt_ms sticks_active e =
     (if \<not> te_active e then Some (set_active False e)
      else if sticks_active then Some (trick_cancel e)
      else if te_held e then Some e
      else trick_loop (e \<lparr> te_seg_elapsed_ms := te_seg_elapsed_ms e + (if dt_ms > kMaxAdvanceMs then kMaxAdvanceMs else dt_ms) \<rparr>))"

section \<open>Interpolation\<close>

lemma lerp_unit: "lo = - 1 \<or> lo = 0 \<Longrightarrow> f_unit lo a \<Longrightarrow> f_unit lo b \<Longrightarrow> f_in 0 1 t \<Longrightarrow> f_unit lo (lerp a b t)"
  unfolding lerp_def by (rule filter_step)

lemma convex_abs:
  assumes "\<bar>a\<bar> \<le> B" "\<bar>b\<bar> \<le> B" "0 \<le> t" "t \<le> (1 :: rat)"
  shows "\<bar>a + (b - a) * t\<bar> \<le> B"
proof -
  have "a + (b - a) * t = a * (1 - t) + b * t" by (simp add: algebra_simps)
  then have "\<bar>a + (b - a) * t\<bar> \<le> \<bar>a\<bar> * (1 - t) + \<bar>b\<bar> * t"
    using assms(3,4) abs_triangle_ineq [of "a * (1 - t)" "b * t"] by (simp add: abs_mult)
  also have "\<dots> \<le> B * (1 - t) + B * t" using assms by (intro add_mono mult_right_mono) auto
  finally show ?thesis by (simp add: algebra_simps)
qed

lemma lerp_near:
  assumes "f_rng (- B) B a" "f_rng (- B) B b" and "f_in 0 1 t" and "1 / 2 ^ 10 \<le> B" "B \<le> 2 ^ 20"
  shows "f_in (- (B + B / 2 ^ 18)) (B + B / 2 ^ 18) (lerp a b t)"
proof -
  obtain x where x: "a = Fin x" "- B \<le> x" "x \<le> B" using assms(1) by (rule f_rngE)
  obtain y where y: "b = Fin y" "- B \<le> y" "y \<le> B" using assms(2) by (rule f_rngE)
  obtain s where s: "t = Fin s" "0 \<le> s" "s \<le> 1" using assms(3) by (rule f_inE)
  define d p where "d = rnd32 (y - x)" and "p = rnd32 (d * s)"
  have d0: "\<bar>y - x\<bar> \<le> 2 * B" using x y by linarith
  have d1: "\<bar>d - (y - x)\<bar> \<le> 2 * B / 2 ^ 23" unfolding d_def using d0 assms(4) by (intro rnd32_error) simp_all
  moreover have "2 * B / 2 ^ 23 \<le> B" using assms(4) by simp
  ultimately have "\<bar>d\<bar> \<le> 3 * B" using d0 by linarith
  then have d2: "\<bar>d * s\<bar> \<le> 3 * B" using s by (simp add: abs_mult order_trans [OF mult_left_le])
  have p1: "\<bar>p - d * s\<bar> \<le> 3 * B / 2 ^ 23" unfolding p_def using d2 assms(4) by (intro rnd32_error) simp_all
  have "\<bar>(d - (y - x)) * s\<bar> \<le> \<bar>d - (y - x)\<bar>" using s by (simp add: abs_mult mult_left_le)
  then have "\<bar>(d - (y - x)) * s\<bar> \<le> 2 * B / 2 ^ 23" using d1 by linarith
  then have "\<bar>d * s - (y - x) * s\<bar> \<le> 2 * B / 2 ^ 23" by (simp add: algebra_simps)
  moreover have "\<bar>x + (y - x) * s\<bar> \<le> B" using x y s by (intro convex_abs) simp_all
  ultimately have q: "\<bar>x + p\<bar> \<le> B + 5 * B / 2 ^ 23" using p1 by linarith
  moreover have "5 * B / 2 ^ 23 \<le> B" using assms(4) by simp
  ultimately have q2: "\<bar>x + p\<bar> \<le> 2 * B" by linarith
  then have "\<bar>rnd32 (x + p) - (x + p)\<bar> \<le> 2 * B / 2 ^ 23" using assms(4) by (intro rnd32_error) simp_all
  moreover have "7 * B / 2 ^ 23 \<le> B / 2 ^ 18" using assms(4) by simp
  ultimately have "- (B + B / 2 ^ 18) \<le> rnd32 (x + p)" "rnd32 (x + p) \<le> B + B / 2 ^ 18" using q by linarith+
  moreover have big: "B \<le> 1048576" using assms(5) by simp
  then have "\<bar>y - x\<bar> \<le> 2 ^ 40" "\<bar>d * s\<bar> \<le> 2 ^ 40" "\<bar>x + p\<bar> \<le> 2 ^ 40" using d0 d2 q2 by simp_all
  then have "lerp a b t = Fin (rnd32 (x + p))"
    by (simp add: lerp_def x(1) y(1) s(1) f_sub_def f_round_small d_def p_def)
  ultimately show ?thesis by (simp only: f_in.simps simp_thms)
qed

lemma ratio_unit:
  assumes "i < d" and "d < (2 :: nat) ^ 24"
  shows "f_in 0 1 (f_div (f_of_int (int i)) (f_of_int (int d)))"
proof -
  have "f_of_int (int i) = Fin (of_int (int i))" "f_of_int (int d) = Fin (of_int (int d))"
    using assms by (intro f_of_int_exact; simp)+
  then have "f_div (f_of_int (int i)) (f_of_int (int d)) = f_round (of_nat i / of_nat d)" using assms by simp
  moreover have "f_rng 0 1 (f_round (of_nat i / of_nat d))" using assms by (intro f_rng_round) simp_all
  ultimately show ?thesis by (simp add: f_rng_in)
qed

section \<open>Every output is in the body envelope\<close>

definition kf_ok :: "TrickKeyframe \<Rightarrow> bool" where
  "kf_ok kf \<longleftrightarrow> list_all (f_rng (- 1) 1) [kf_vx kf, kf_vy kf, kf_wz kf] \<and>
     list_all (f_rng (- 20) 20) [kf_x_mm kf, kf_y_mm kf, kf_z_mm kf] \<and>
     list_all (f_rng (- (1 / 4)) (1 / 4)) [kf_roll kf, kf_pitch kf, kf_yaw kf] \<and>
     f_rng (- 1) 1 (kf_height_frac kf) \<and> f_rng 0 120 (kf_height_rate_mm_per_s kf)"

definition prog_ok :: "TrickProgram \<Rightarrow> bool" where
  "prog_ok p \<longleftrightarrow> 0 < tp_count p \<and> tp_count p = length (tp_frames p) \<and> list_all kf_ok (tp_frames p)"

lemma programs_ok:
  "prog_ok kStandUpProg" "prog_ok kSitDownProg" "prog_ok kWaveProg" "prog_ok kCrouchDownProg" "prog_ok kCrouchUpProg"
  "prog_ok kTwirlProg" "prog_ok kStretchProg" "prog_ok kLeanLookProg" "prog_ok kDanceProg" "prog_ok kSpiderAttackProg"
  "prog_ok kJumpKickProg"
  by code_simp+

lemma selectProgram_ok:
  assumes "tid \<noteq> TrickNone"
  obtains p where "fst (selectProgram tid e) = Some p" "prog_ok p"
  using assms programs_ok by (cases tid) (simp_all add: Let_def split: if_splits)

lemma selectProgram_frame:
  "te_from (snd (selectProgram tid e)) = te_from e" "te_out (snd (selectProgram tid e)) = te_out e"
  by (cases tid; simp add: Let_def)+

definition origin_ok :: "TrickOrigin \<Rightarrow> bool" where
  "origin_ok fr \<longleftrightarrow> list_all (f_rng (- 1) 1) [from_vx fr, from_vy fr, from_wz fr] \<and>
     list_all (f_rng (- 20) 20) [from_x fr, from_y fr, from_z fr] \<and>
     list_all (f_rng (- (1 / 4)) (1 / 4)) [from_roll fr, from_pitch fr, from_yaw fr] \<and> f_rng 0 1 (from_height fr)"

definition trick_output_ok :: "TrickOutput \<Rightarrow> bool" where
  "trick_output_ok out \<longleftrightarrow> list_all (f_unit (- 1)) [to_twist_vx out, to_twist_vy out, to_twist_wz out] \<and>
     list_all (f_in (- 21) 21) [bp_x_mm (to_pose out), bp_y_mm (to_pose out), bp_z_mm (to_pose out)] \<and>
     list_all (f_in (- (13 / 50)) (13 / 50)) [bp_roll (to_pose out), bp_pitch (to_pose out), bp_yaw (to_pose out)] \<and>
     list_all f_rep [bp_x_mm (to_pose out), bp_y_mm (to_pose out), bp_z_mm (to_pose out), bp_roll (to_pose out),
       bp_pitch (to_pose out), bp_yaw (to_pose out)] \<and>
     f_unit 0 (to_body_height_frac out) \<and> f_rng 0 120 (to_height_rate_mm_per_s out)"

lemma f_rng_zero [simp]: "lo \<le> 0 \<Longrightarrow> 0 \<le> hi \<Longrightarrow> f_rng lo hi (Fin 0)"
  by (simp add: f_rngI)

lemma origin_ok_zero: "f_rng 0 1 h \<Longrightarrow> origin_ok (TrickOrigin_zero \<lparr> from_height := h \<rparr>)" "origin_ok TrickOrigin_zero"
  by (simp_all add: origin_ok_def TrickOrigin_zero_def)

lemma output_ok_default: "trick_output_ok TrickOutput_default" "\<not> to_active TrickOutput_default"
  by (simp_all add: trick_output_ok_def TrickOutput_default_def BodyPose_default_def f_unitI f_rep_def)

lemma rep_lerp: "a = Fin x \<Longrightarrow> b = Fin y \<Longrightarrow> t = Fin s \<Longrightarrow> f_rep (lerp a b t)"
  by (cases "f_mul (f_sub b a) t") (simp_all add: lerp_def f_rep_def f_round_def Let_def)

lemma lerp_pose:
  assumes "f_in 0 1 t"
  shows "f_rng (- 20) 20 a \<Longrightarrow> f_rng (- 20) 20 b \<Longrightarrow> f_in (- 21) 21 (lerp a b t)"
    and "f_rng (- (1 / 4)) (1 / 4) a \<Longrightarrow> f_rng (- (1 / 4)) (1 / 4) b \<Longrightarrow> f_in (- (13 / 50)) (13 / 50) (lerp a b t)"
    and "f_rng lo hi a \<Longrightarrow> f_rng lo' hi' b \<Longrightarrow> f_rep (lerp a b t)"
proof -
  show "f_rng (- 20) 20 a \<Longrightarrow> f_rng (- 20) 20 b \<Longrightarrow> f_in (- 21) 21 (lerp a b t)"
    by (rule f_in_mono [OF lerp_near [OF _ _ assms, where B = 20]]) simp_all
  show "f_rng (- (1 / 4)) (1 / 4) a \<Longrightarrow> f_rng (- (1 / 4)) (1 / 4) b \<Longrightarrow> f_in (- (13 / 50)) (13 / 50) (lerp a b t)"
    by (rule f_in_mono [OF lerp_near [OF _ _ assms, where B = "1 / 4"]]) simp_all
  show "f_rng lo hi a \<Longrightarrow> f_rng lo' hi' b \<Longrightarrow> f_rep (lerp a b t)"
    using assms by (elim f_rngE f_inE) (rule rep_lerp)
qed

lemma clamp01_unit: "v \<noteq> NaN \<Longrightarrow> f_rep v \<Longrightarrow> f_unit 0 (clamp01 v)"
  by (simp add: clamp01_def f_clamp_unit)

lemma f_unit_not_NaN: "f_unit lo v \<Longrightarrow> v \<noteq> NaN" "f_unit lo v \<Longrightarrow> f_rep v"
  by (auto simp: f_unit_def f_in_not_NaN)

lemma f_le_zero_unit: "f_rng (- 1) 1 v \<Longrightarrow> f_le (Fin 0) v \<Longrightarrow> f_unit 0 v"
  by (cases v) (auto simp: f_rng_def f_unit_def f_le_def)

lemma writeOutputs_frame [simp]:
  "te_active (writeOutputs kf t e) = te_active e" "te_held (writeOutputs kf t e) = te_held e"
  "te_prog (writeOutputs kf t e) = te_prog e" "te_seg (writeOutputs kf t e) = te_seg e"
  "te_seg_elapsed_ms (writeOutputs kf t e) = te_seg_elapsed_ms e" "te_from (writeOutputs kf t e) = te_from e"
  by (simp_all add: writeOutputs_def Let_def)

lemma writeOutputs_ok:
  assumes "kf_ok kf" "origin_ok (te_from e)" "trick_output_ok (te_out e)" "f_in 0 1 t"
  shows "trick_output_ok (te_out (writeOutputs kf t e))"
proof -
  note k = assms(1) [unfolded kf_ok_def] and fr = assms(2) [unfolded origin_ok_def]
  have tw: "f_rng (- 1) 1 a \<Longrightarrow> f_rng (- 1) 1 b \<Longrightarrow> f_unit (- 1) (lerp a b t)" for a b
    unfolding f_rng_unit by (rule lerp_unit [OF _ _ _ assms(4)]) simp_all
  have h: "f_unit 0 (clamp01 (lerp (from_height (te_from e)) (kf_height_frac kf) t))"
    if "f_le (Fin 0) (kf_height_frac kf)"
  proof -
    have "f_unit 0 (from_height (te_from e))" "f_unit 0 (kf_height_frac kf)"
      using fr k that f_le_zero_unit by (simp_all add: f_rng_unit)
    then have "f_unit 0 (lerp (from_height (te_from e)) (kf_height_frac kf) t)"
      by (intro lerp_unit [OF _ _ _ assms(4)]) simp_all
    then show ?thesis using clamp01_unit f_unit_not_NaN by blast
  qed
  show ?thesis
    using k fr assms(3) h
    by (auto simp: trick_output_ok_def writeOutputs_def Let_def intro: tw lerp_pose [OF assms(4)])
qed

lemma capture_ok: "kf_ok kf \<Longrightarrow> origin_ok (te_from e) \<Longrightarrow> origin_ok (te_from (captureTargets kf e))"
  by (auto simp: captureTargets_def origin_ok_def kf_ok_def f_rng_unit f_le_zero_unit)

definition trick_inv :: "TrickEngine \<Rightarrow> bool" where
  "trick_inv e \<longleftrightarrow> origin_ok (te_from e) \<and> trick_output_ok (te_out e) \<and> to_active (te_out e) = te_active e \<and>
     (te_active e \<longrightarrow> (\<exists>p. te_prog e = Some p \<and> prog_ok p \<and> te_seg e < length (tp_frames p) \<and>
        (\<not> te_held e \<longrightarrow> te_seg_elapsed_ms e < kf_dur (tp_frames p ! te_seg e))))"

lemma set_active_frame [simp]:
  "te_active (set_active b e) = te_active e" "te_held (set_active b e) = te_held e" "te_prog (set_active b e) = te_prog e"
  "te_seg (set_active b e) = te_seg e" "te_seg_elapsed_ms (set_active b e) = te_seg_elapsed_ms e"
  "te_from (set_active b e) = te_from e" "to_active (te_out (set_active b e)) = b"
  "trick_output_ok (te_out (set_active b e)) = trick_output_ok (te_out e)"
  by (simp_all add: set_active_def trick_output_ok_def)

lemma capture_frame [simp]:
  "te_active (captureTargets kf e) = te_active e" "te_held (captureTargets kf e) = te_held e"
  "te_prog (captureTargets kf e) = te_prog e" "te_seg (captureTargets kf e) = te_seg e"
  "te_seg_elapsed_ms (captureTargets kf e) = te_seg_elapsed_ms e" "te_out (captureTargets kf e) = te_out e"
  by (simp_all add: captureTargets_def)

lemma elapsed_ratio: "s < kf_dur kf \<Longrightarrow> f_in 0 1 (f_div (f_of_int (uint s)) (f_of_int (uint (kf_dur kf))))"
  using ratio_unit [of "unat s" "unat (kf_dur kf)"] kf_dur_bounds [of kf] by (simp add: word_less_nat_alt)

lemma trick_loop_ok:
  assumes "te_prog e = Some p" "prog_ok p" "te_seg e < length (tp_frames p)" "origin_ok (te_from e)"
    "trick_output_ok (te_out e)" "te_active e" "\<not> te_held e"
  shows "\<exists>e'. trick_loop e = Some e' \<and> trick_inv e'"
  using assms
proof (induction e rule: trick_loop.induct)
  case (1 e)
  define kf where "kf = tp_frames p ! te_seg e"
  have kf: "kf_ok kf" using "1.prems"(2,3) by (simp add: prog_ok_def kf_def list_all_length)
  define e' where "e' = captureTargets kf (e \<lparr> te_seg_elapsed_ms := te_seg_elapsed_ms e - kf_dur kf \<rparr>)"
  have e': "te_prog e' = Some p" "te_out e' = te_out e" "te_active e'" "\<not> te_held e'" "te_seg e' = te_seg e"
    "origin_ok (te_from e')"
    using "1.prems" capture_ok [OF kf] by (simp_all add: e'_def)
  have unf: "trick_loop e =
      (if te_seg_elapsed_ms e < kf_dur kf
       then Some (set_active True (writeOutputs kf (f_div (f_of_int (uint (te_seg_elapsed_ms e))) (f_of_int (uint (kf_dur kf)))) e))
       else if te_seg e + 1 < tp_count p then trick_loop (e' \<lparr> te_seg := te_seg e + 1 \<rparr>)
       else if tp_loop p then trick_loop (e' \<lparr> te_seg := 0 \<rparr>)
       else if tp_hold_last p then Some (set_active True ((writeOutputs kf (f_lit 1) e') \<lparr> te_held := True \<rparr>))
       else Some (set_active False (e' \<lparr> te_active := False \<rparr>)))"
    using "1.prems"(1,3) by (subst trick_loop.simps) (simp add: kf_def e'_def Let_def)
  consider "te_seg_elapsed_ms e < kf_dur kf" | "\<not> te_seg_elapsed_ms e < kf_dur kf" "te_seg e + 1 < tp_count p"
    | "\<not> te_seg_elapsed_ms e < kf_dur kf" "\<not> te_seg e + 1 < tp_count p" "tp_loop p"
    | "\<not> te_seg_elapsed_ms e < kf_dur kf" "\<not> te_seg e + 1 < tp_count p" "\<not> tp_loop p" by blast
  then show ?case
  proof cases
    case 1
    then show ?thesis
      using "1.prems" writeOutputs_ok [OF kf _ _ elapsed_ratio] by (simp add: unf trick_inv_def kf_def)
  next
    case 2
    then show ?thesis using "1.IH"(1) [of p kf e'] "1.prems" e' unfolding unf
      by (simp add: kf_def [symmetric] e'_def [symmetric] prog_ok_def)
  next
    case 3
    moreover have "tp_frames p \<noteq> []" using "1.prems"(3) by auto
    ultimately show ?thesis using "1.IH"(2) [of p kf e'] "1.prems" e' unfolding unf
      by (simp add: kf_def [symmetric] e'_def [symmetric] prog_ok_def)
  next
    case 4
    then show ?thesis using "1.prems" e' writeOutputs_ok [OF kf, of e' "Fin 1"]
      by (auto simp: unf trick_inv_def)
  qed
qed

text \<open>The operations of the control task on the engine.\<close>

datatype trick_op = TrickTrigger TrickId f32 | TrickUpdate u32 bool | TrickCancel | TrickReset

fun trick_step :: "trick_op \<Rightarrow> TrickEngine \<Rightarrow> TrickEngine option" where
  "trick_step (TrickTrigger tid h) e = Some (trick_trigger tid h e)"
| "trick_step (TrickUpdate dt sticks) e = trick_update dt sticks e"
| "trick_step TrickCancel e = Some (trick_cancel e)"
| "trick_step TrickReset e = Some (trick_reset e)"

abbreviation trick_run :: "trick_op list \<Rightarrow> TrickEngine \<Rightarrow> TrickEngine option" where
  "trick_run \<equiv> fold_opt trick_step"

fun trick_op_ok :: "trick_op \<Rightarrow> bool" where
  "trick_op_ok (TrickTrigger tid h) \<longleftrightarrow> h \<noteq> NaN \<and> f_rep h" | "trick_op_ok _ \<longleftrightarrow> True"

lemma trick_inv_cancel: "trick_inv e \<Longrightarrow> trick_inv (trick_cancel e)" "trick_inv (trick_reset e)"
  by (simp_all add: trick_inv_def trick_cancel_def trick_reset_def output_ok_default origin_ok_zero)

lemma trick_inv_trigger:
  assumes "trick_inv e" "h \<noteq> NaN" "f_rep h"
  shows "trick_inv (trick_trigger tid h e)"
proof (cases "tid = TrickNone")
  case False
  obtain p where p: "fst (selectProgram tid e) = Some p" "prog_ok p" using selectProgram_ok [OF False] .
  define e1 where "e1 = snd (selectProgram tid e)"
  define e2 where "e2 = e1 \<lparr> te_prog := Some p, te_trick := tid, te_active := True, te_held := False, te_seg := 0,
    te_seg_elapsed_ms := 0, te_from := TrickOrigin_zero \<lparr> from_height := clamp01 h \<rparr> \<rparr>"
  have kf: "kf_ok (tp_frames p ! 0)" "tp_count p \<noteq> 0" "0 < length (tp_frames p)"
    using p(2) by (auto simp: prog_ok_def list_all_length)
  have e2: "trick_trigger tid h e = writeOutputs (tp_frames p ! 0) (f_lit 0) e2"
    using False p(1) kf(2) by (simp add: trick_trigger_def e2_def e1_def split_beta)
  have "origin_ok (te_from e2)" "trick_output_ok (te_out e2)"
    using assms origin_ok_zero(1) clamp01_unit by (simp_all add: e2_def e1_def trick_inv_def selectProgram_frame f_rng_unit)
  moreover have "0 < kf_dur (tp_frames p ! 0)" using kf_dur_bounds(1) by (simp add: word_less_nat_alt)
  ultimately show ?thesis
    using writeOutputs_ok [OF kf(1), of e2 "Fin 0"] p kf(3) unfolding e2
    by (simp add: trick_inv_def) (simp add: e2_def writeOutputs_def Let_def)
qed (simp add: trick_trigger_def trick_inv_cancel assms)

lemma trick_inv_update:
  assumes "trick_inv e"
  shows "\<exists>e'. trick_update dt sticks e = Some e' \<and> trick_inv e'"
proof -
  have "\<exists>e'. trick_loop (e \<lparr> te_seg_elapsed_ms := s \<rparr>) = Some e' \<and> trick_inv e'" if act: "te_active e" "\<not> te_held e" for s
  proof -
    obtain p where "te_prog e = Some p" "prog_ok p" "te_seg e < length (tp_frames p)" "origin_ok (te_from e)"
      "trick_output_ok (te_out e)" using assms act by (auto simp: trick_inv_def)
    then show ?thesis using act by (intro trick_loop_ok [of _ p]) simp_all
  qed
  moreover have "trick_inv (set_active False e)" if "\<not> te_active e" using assms that by (simp add: trick_inv_def)
  ultimately show ?thesis using assms trick_inv_cancel(1) by (simp add: trick_update_def)
qed

lemma trick_inv_step: "trick_op_ok op \<Longrightarrow> trick_inv e \<Longrightarrow> \<exists>e'. trick_step op e = Some e' \<and> trick_inv e'"
  using trick_inv_trigger trick_inv_update trick_inv_cancel by (cases op) simp_all

interpretation trick_runs: guarded_machine trick_step trick_op_ok trick_inv "\<lambda>e. \<exists>e0. e = trick_reset e0"
  by unfold_locales (auto simp: trick_inv_step trick_inv_cancel)

lemma trick_inv_new: "trick_inv (trick_reset e)"
  by (rule trick_inv_cancel(2))

text \<open>
  The choreography engine always returns and stays inside the body envelope. After any sequence
  of triggers, updates (any elapsed time, sticks or not), cancellations and resets an update
  terminates without reading outside a keyframe table; every published twist is in [-1, 1], the body
  shift within 21 mm, the attitude within 0.26 rad, the height fraction in [0, 1] and the requested
  height rate at most 120 mm/s; and stick motion ends the choreography in the same update.
\<close>

theorem trick_engine_bounded:
  assumes "list_all trick_op_ok ops"
  shows "\<exists>e e'. trick_run ops (trick_reset e0) = Some e \<and> trick_update dt sticks e = Some e' \<and>
           trick_output_ok (te_out e') \<and> to_active (te_out e') = te_active e' \<and>
           (sticks \<longrightarrow> \<not> te_active e' \<and> \<not> to_active (te_out e'))"
proof -
  obtain e where e: "trick_run ops (trick_reset e0) = Some e" "trick_inv e"
    using trick_runs.run [OF assms] by blast
  obtain e' where e': "trick_update dt sticks e = Some e'" "trick_inv e'" using trick_inv_update [OF e(2)] by blast
  have "\<not> te_active e'" if sticks using e'(1) that by (auto simp: trick_update_def trick_cancel_def split: if_splits)
  then show ?thesis using e e' by (auto simp: trick_inv_def)
qed

definition trick_idle :: TrickEngine where
  "trick_idle = \<lparr> te_active = False, te_held = False, te_trick = TrickNone, te_prog = None, te_seg = 0,
     te_seg_elapsed_ms = 0, te_from = TrickOrigin_zero, te_crouched = False, te_out = TrickOutput_default \<rparr>"

theorem trick_engine_bounded_witness:
  "\<exists>e e'. trick_run [TrickTrigger DanceLoop (Fin (1 / 2)), TrickUpdate 4000000000 False] (trick_reset trick_idle) = Some e \<and>
     trick_update 10 True e = Some e' \<and> \<not> te_active e'"
proof -
  have "list_all trick_op_ok [TrickTrigger DanceLoop (Fin (1 / 2)), TrickUpdate 4000000000 False]" by code_simp
  from trick_engine_bounded [OF this, of trick_idle 10 True] show ?thesis by blast
qed

section \<open>A one-shot program plays exactly its duration\<close>

definition dur_from :: "TrickProgram \<Rightarrow> nat \<Rightarrow> nat" where
  "dur_from p i = sum_list (map (unat \<circ> kf_dur) (drop i (tp_frames p)))"

definition trick_left :: "TrickProgram \<Rightarrow> TrickEngine \<Rightarrow> nat" where
  "trick_left p e = dur_from p (te_seg e) - unat (te_seg_elapsed_ms e)"

definition trick_playing :: "TrickProgram \<Rightarrow> TrickEngine \<Rightarrow> bool" where
  "trick_playing p e \<longleftrightarrow> te_active e \<and> \<not> te_held e \<and> te_prog e = Some p \<and> te_seg e < length (tp_frames p) \<and>
     te_seg_elapsed_ms e < kf_dur (tp_frames p ! te_seg e)"

definition trick_ended :: "TrickProgram \<Rightarrow> TrickEngine \<Rightarrow> bool" where
  "trick_ended p e \<longleftrightarrow> te_active e = tp_hold_last p \<and> te_held e = tp_hold_last p \<and> to_active (te_out e) = tp_hold_last p"

lemma dur_from_step: "i < length (tp_frames p) \<Longrightarrow> dur_from p i = unat (kf_dur (tp_frames p ! i)) + dur_from p (Suc i)"
  by (simp add: dur_from_def flip: Cons_nth_drop_Suc)

lemma dur_from_end: "length (tp_frames p) \<le> i \<Longrightarrow> dur_from p i = 0"
  by (simp add: dur_from_def)

lemma unat_diff_dur: "\<not> s < kf_dur kf \<Longrightarrow> unat (s - kf_dur kf) = unat s - unat (kf_dur kf)"
  by (simp add: unat_sub not_less)

lemma trick_loop_time:
  assumes "te_prog e = Some p" "tp_count p = length (tp_frames p)" "\<not> tp_loop p" "te_seg e < length (tp_frames p)"
    "te_active e" "\<not> te_held e" "trick_loop e = Some e'"
  shows "if unat (te_seg_elapsed_ms e) < dur_from p (te_seg e)
         then trick_playing p e' \<and> trick_left p e' = trick_left p e else trick_ended p e'"
  using assms
proof (induction e rule: trick_loop.induct)
  case (1 e)
  define kf where "kf = tp_frames p ! te_seg e"
  define f where "f = captureTargets kf (e \<lparr> te_seg_elapsed_ms := te_seg_elapsed_ms e - kf_dur kf \<rparr>)"
  have f: "te_prog f = Some p" "te_active f" "\<not> te_held f" "te_seg f = te_seg e"
    "te_seg_elapsed_ms f = te_seg_elapsed_ms e - kf_dur kf" using "1.prems" by (simp_all add: f_def)
  note unf = "1.prems"(7) [unfolded trick_loop.simps [of e], simplified "1.prems"(1) Let_def option.case, folded kf_def f_def]
  note sum = dur_from_step [OF "1.prems"(4), folded kf_def]
  consider "te_seg_elapsed_ms e < kf_dur kf" | "\<not> te_seg_elapsed_ms e < kf_dur kf" "Suc (te_seg e) < length (tp_frames p)"
    | "\<not> te_seg_elapsed_ms e < kf_dur kf" "\<not> Suc (te_seg e) < length (tp_frames p)" by blast
  then show ?case
  proof cases
    case 1
    then show ?thesis using unf "1.prems"(1-6) sum
      by (auto simp: trick_playing_def trick_left_def kf_def word_less_nat_alt)
  next
    case 2
    have "trick_left p (f \<lparr> te_seg := Suc (te_seg e) \<rparr>) = dur_from p (Suc (te_seg e)) - unat (te_seg_elapsed_ms f)"
      by (simp add: trick_left_def)
    then have "if unat (te_seg_elapsed_ms f) < dur_from p (Suc (te_seg e))
      then trick_playing p e' \<and> trick_left p e' = dur_from p (Suc (te_seg e)) - unat (te_seg_elapsed_ms f)
      else trick_ended p e'"
      using "1.IH"(1) [of p kf f] "1.prems" f 2 unf
      by (simp add: kf_def [symmetric] f_def [symmetric])
    moreover have "unat (kf_dur kf) \<le> unat (te_seg_elapsed_ms e)" using 2(1) by (simp add: not_less word_le_nat_alt)
    ultimately show ?thesis using unat_diff_dur [OF 2(1)] sum f(5)
      by (auto simp: trick_left_def split: if_splits)
  next
    case 3
    then show ?thesis using unf "1.prems"(1-6) f sum dur_from_end [of p "Suc (te_seg e)"]
      by (auto simp: trick_ended_def word_less_nat_alt split: if_splits)
  qed
qed

definition advance_ms :: "u32 \<Rightarrow> nat" where
  "advance_ms dt = min (unat dt) 1000"

lemma trick_update_playing:
  assumes "trick_playing p e" "tp_count p = length (tp_frames p)" "\<not> tp_loop p" "trick_update dt False e = Some e'"
  shows "if advance_ms dt < trick_left p e then trick_playing p e' \<and> trick_left p e' = trick_left p e - advance_ms dt
         else trick_ended p e'"
proof -
  define a where "a = (if dt > kMaxAdvanceMs then kMaxAdvanceMs else dt)"
  define f where "f = e \<lparr> te_seg_elapsed_ms := te_seg_elapsed_ms e + a \<rparr>"
  have a: "unat a = advance_ms dt" "unat a \<le> 1000" by (auto simp: a_def advance_ms_def kMaxAdvanceMs_def word_less_nat_alt)
  have e: "unat (te_seg_elapsed_ms e) < 65536" "te_prog e = Some p" "te_seg e < length (tp_frames p)" "te_active e" "\<not> te_held e"
    using assms(1) kf_dur_bounds(2) [of "tp_frames p ! te_seg e"] by (auto simp: trick_playing_def word_less_nat_alt)
  then have s: "unat (te_seg_elapsed_ms e + a) = unat (te_seg_elapsed_ms e) + unat a"
    using a(2) by (simp add: unat_word_ariths)
  have "trick_loop f = Some e'" using assms(4) e by (simp add: trick_update_def f_def a_def)
  note t = trick_loop_time [OF _ assms(2,3) _ _ _ this]
  have "if unat (te_seg_elapsed_ms e) + advance_ms dt < dur_from p (te_seg e)
        then trick_playing p e' \<and> trick_left p e' = trick_left p f else trick_ended p e'"
    using t e s a(1) by (simp add: f_def)
  moreover have "trick_left p f = trick_left p e - advance_ms dt" using s a(1) by (simp add: trick_left_def f_def)
  moreover have "unat (te_seg_elapsed_ms e) + advance_ms dt < dur_from p (te_seg e) \<longleftrightarrow> advance_ms dt < trick_left p e"
    by (auto simp: trick_left_def)
  ultimately show ?thesis by simp
qed

lemma trick_ended_stays:
  assumes "trick_ended p e" "trick_update dt False e = Some e'"
  shows "trick_ended p e'"
  using assms by (auto simp: trick_ended_def trick_update_def split: if_splits)

lemma trick_updates_time:
  assumes "trick_playing p e \<and> trick_left p e = left \<and> 0 < left \<or> trick_ended p e \<and> left = 0" "tp_count p = length (tp_frames p)"
    "\<not> tp_loop p" "trick_run (map (\<lambda>dt. TrickUpdate dt False) dts) e = Some e'"
  shows "if sum_list (map advance_ms dts) < left then trick_playing p e' else trick_ended p e'"
  using assms
proof (induction dts arbitrary: e left)
  case (Cons dt dts)
  obtain f where f: "trick_update dt False e = Some f" "trick_run (map (\<lambda>dt. TrickUpdate dt False) dts) f = Some e'"
    using Cons.prems(4) by (auto split: option.splits)
  have "trick_playing p f \<and> trick_left p f = left - advance_ms dt \<and> 0 < left - advance_ms dt \<or>
      trick_ended p f \<and> left - advance_ms dt = 0"
    using Cons.prems(1) trick_update_playing [OF _ Cons.prems(2,3) f(1)] trick_ended_stays [OF _ f(1)]
    by (auto split: if_splits)
  from Cons.IH [OF this Cons.prems(2,3) f(2)] show ?case by (auto simp: less_diff_conv add.commute split: if_splits)
qed auto

lemma trick_trigger_playing:
  assumes "tid \<noteq> TrickNone" "fst (selectProgram tid e) = Some p"
  shows "trick_playing p (trick_trigger tid h e)" "trick_left p (trick_trigger tid h e) = dur_from p 0" "0 < dur_from p 0"
proof -
  have "prog_ok p" using selectProgram_ok [OF assms(1), of e] assms(2) by auto
  then have p: "tp_count p \<noteq> 0" "0 < length (tp_frames p)" by (auto simp: prog_ok_def)
  then show "0 < dur_from p 0" using dur_from_step [OF p(2)] kf_dur_bounds(1) [of "tp_frames p ! 0"] by linarith
  have "0 < kf_dur (tp_frames p ! 0)" using kf_dur_bounds(1) by (simp add: word_less_nat_alt)
  then show "trick_playing p (trick_trigger tid h e)" "trick_left p (trick_trigger tid h e) = dur_from p 0"
    using assms p by (simp_all add: trick_trigger_def trick_playing_def trick_left_def split_beta)
qed

text \<open>
  C22: a triggered choreography other than the dance loop plays for exactly the sum of its keyframe
  durations: under any sequence of updates without stick motion (each counting for at most a second)
  it drives the body while the time passed is below that sum, and has ended at or above it, released
  if it is one-shot and frozen on its last frame if it is a holding program.
\<close>

theorem trick_plays_its_duration:
  assumes "list_all trick_op_ok ops" and "trick_run ops (trick_reset e0) = Some e" and "tid \<noteq> TrickNone" "tid \<noteq> DanceLoop"
    and "h \<noteq> NaN" "f_rep h"
  shows "\<exists>p e'. fst (selectProgram tid e) = Some p \<and>
    trick_run (map (\<lambda>dt. TrickUpdate dt False) dts) (trick_trigger tid h e) = Some e' \<and>
    (if sum_list (map (\<lambda>dt. min (unat dt) 1000) dts) < sum_list (map (\<lambda>kf. unat (kf_duration_ms kf)) (tp_frames p))
     then te_active e' \<and> \<not> te_held e' else te_active e' = tp_hold_last p \<and> te_held e' = tp_hold_last p)"
proof -
  obtain p where p: "fst (selectProgram tid e) = Some p" "prog_ok p" using selectProgram_ok [OF assms(3)] .
  have nl: "\<not> tp_loop p" and d: "list_all (\<lambda>kf. kf_duration_ms kf \<noteq> 0) (tp_frames p)"
    using p(1) assms(3,4)
    by (cases tid; auto simp: Let_def kStandUpProg_def kSitDownProg_def kWaveProg_def kCrouchDownProg_def kCrouchUpProg_def
        kTwirlProg_def kStretchProg_def kLeanLookProg_def kSpiderAttackProg_def kJumpKickProg_def frame_def kick_frame_def
        split: if_splits)+
  have "trick_inv e" using trick_runs.run_inv [OF assms(1) _ assms(2)] by blast
  then have "trick_inv (trick_trigger tid h e)" using assms(5,6) by (rule trick_inv_trigger)
  moreover have "list_all trick_op_ok (map (\<lambda>dt. TrickUpdate dt False) dts)" by (simp add: list_all_iff)
  ultimately obtain e' where e': "trick_run (map (\<lambda>dt. TrickUpdate dt False) dts) (trick_trigger tid h e) = Some e'"
    using trick_runs.run_from by blast
  have "dur_from p 0 = sum_list (map (\<lambda>kf. unat (kf_duration_ms kf)) (tp_frames p))"
    using d unfolding dur_from_def by (auto simp: list_all_iff unat_kf_dur intro!: arg_cong [where f = sum_list])
  moreover have "if sum_list (map advance_ms dts) < dur_from p 0 then trick_playing p e' else trick_ended p e'"
    using trick_trigger_playing [OF assms(3) p(1)] p(2) by (intro trick_updates_time [OF _ _ nl e']) (simp_all add: prog_ok_def)
  ultimately show ?thesis using p(1) e' unfolding advance_ms_def
    by (auto simp: trick_playing_def trick_ended_def split: if_splits)
qed

theorem trick_plays_its_duration_witness:
  "\<exists>e'. trick_run (map (\<lambda>dt. TrickUpdate dt False) [700, 900, 600]) (trick_trigger JumpKick (Fin 0) (trick_reset trick_idle)) = Some e' \<and>
     \<not> te_active e'"
proof -
  have ok: "list_all trick_op_ok []" "trick_run [] (trick_reset trick_idle) = Some (trick_reset trick_idle)" by simp_all
  have "f_rep (Fin 0)" by (simp add: f_rep_def)
  from trick_plays_its_duration [OF ok _ _ _ this, of JumpKick "[700, 900, 600]"] show ?thesis
    by (auto simp: kJumpKickProg_def kick_frame_def frame_def)
qed

end
