(* ===== verification/BodyCommandShaper.thy ===== *)
theory BodyCommandShaper
  imports TrickEngine
begin

text \<open>
  The body command shaper (\<open>controller/body_command_shaper.h\<close>, \<open>controller/body_command_shaper.cpp\<close>):
  twist limits and acceleration, height and pose rate limits. Shown here: in binary32 arithmetic the
  shaped command never leaves the configured envelope and never moves faster than the configured
  rates, whatever is asked for.
\<close>

datatype CommandShaperMode = AccelLimited | DirectDiagnostic

definition kMaxBodyCommandIntegrationMs :: u32 where "kMaxBodyCommandIntegrationMs = 50"

record BodyCommand =
  bc_vx :: f32
  bc_vy :: f32
  bc_wz :: f32
  bc_body_height_mm :: f32
  bc_height_rate_override_mm_per_s :: f32
  bc_pose :: BodyPose

definition BodyCommand_default :: BodyCommand where
  "BodyCommand_default = \<lparr> bc_vx = Fin 0, bc_vy = Fin 0, bc_wz = Fin 0, bc_body_height_mm = f_lit 132,
     bc_height_rate_override_mm_per_s = Fin 0, bc_pose = BodyPose_default \<rparr>"

record BodyCommandShaper =
  sh_limits :: BodyCommandLimits
  sh_current :: BodyCommand
  sh_mode :: CommandShaperMode

definition kMilliScale :: f32 where "kMilliScale = f_div (f_lit 1) (f_lit 1000)"

definition BodyCommandShaper_new :: BodyCommandShaper where
  "BodyCommandShaper_new = \<lparr> sh_limits = defaultBodyCommandLimits, sh_current = BodyCommand_default, sh_mode = AccelLimited \<rparr>"

definition shaper_configure :: "BodyCommandLimits \<Rightarrow> BodyCommandShaper \<Rightarrow> BodyCommandShaper" where
  "shaper_configure limits s = (if validateBodyCommandLimits limits then s \<lparr> sh_limits := limits \<rparr> else s)"

definition shaper_reset :: "f32 \<Rightarrow> BodyCommandShaper \<Rightarrow> BodyCommandShaper" where
  "shaper_reset height s =
     s \<lparr> sh_current := BodyCommand_default \<lparr> bc_body_height_mm := height \<rparr>, sh_mode := AccelLimited \<rparr>"

definition shaper_setMode :: "CommandShaperMode \<Rightarrow> bool \<Rightarrow> BodyCommandShaper \<Rightarrow> bool \<times> BodyCommandShaper" where
  "shaper_setMode mode diagnostic_mode_allowed s =
     (if mode = DirectDiagnostic \<and> \<not> diagnostic_mode_allowed then (False, s) else (True, s \<lparr> sh_mode := mode \<rparr>))"

definition magnitude :: "f32 \<Rightarrow> f32" where
  "magnitude v = (if f_lt v (Fin 0) then f_neg v else v)"

definition moveToward :: "f32 \<Rightarrow> f32 \<Rightarrow> f32 \<Rightarrow> f32" where
  "moveToward current target max_delta =
     (if f_le max_delta (Fin 0) then current
      else let delta = f_sub target current in
        if f_lt max_delta delta then f_add current max_delta
        else if f_lt delta (f_neg max_delta) then f_sub current max_delta
        else target)"

definition shapeTwist :: "f32 \<Rightarrow> f32 \<Rightarrow> f32 \<Rightarrow> f32 \<Rightarrow> f32 \<Rightarrow> f32 \<Rightarrow> f32 \<Rightarrow> f32" where
  "shapeTwist current target positive_max negative_max accel decel dt_s =
     (let target = f_clamp target (f_neg negative_max) positive_max;
          accelerating = (f_eq current (Fin 0) \<or>
            f_lt (Fin 0) (f_mul current target) \<and> f_lt (magnitude current) (magnitude target));
          max_delta = f_mul (if accelerating then accel else decel) dt_s
      in moveToward current target max_delta)"

definition f_milli :: "u16 \<Rightarrow> f32" where
  "f_milli v = f_mul (f_of_int (uint v)) kMilliScale"

definition f_neg_milli :: "u16 \<Rightarrow> f32" where
  "f_neg_milli v = f_mul (f_neg (f_of_int (uint v))) kMilliScale"

definition clampDesired :: "BodyCommandLimits \<Rightarrow> BodyCommand \<Rightarrow> BodyCommand" where
  "clampDesired l d = d \<lparr>
     bc_vx := f_clamp (bc_vx d) (f_neg_milli (max_reverse_milli l)) (f_milli (max_forward_milli l)),
     bc_vy := f_clamp (bc_vy d) (f_neg_milli (max_lateral_milli l)) (f_milli (max_lateral_milli l)),
     bc_wz := f_clamp (bc_wz d) (f_neg_milli (max_yaw_milli l)) (f_milli (max_yaw_milli l)) \<rparr>"

definition height_rate :: "BodyCommandLimits \<Rightarrow> BodyCommand \<Rightarrow> BodyCommand \<Rightarrow> f32" where
  "height_rate l current target =
     (let rate = (if f_le (bc_body_height_mm current) (bc_body_height_mm target)
                  then f_of_int (uint (height_rise_mm_per_s l)) else f_of_int (uint (height_lower_mm_per_s l)));
          over = bc_height_rate_override_mm_per_s target; cap = f_of_int (uint kBodyHeightRateMaxMmPerS)
      in if f_lt (Fin 0) over then if f_lt cap over then cap else over else rate)"

definition shape_step :: "BodyCommandLimits \<Rightarrow> BodyCommand \<Rightarrow> f32 \<Rightarrow> BodyCommand \<Rightarrow> BodyCommand" where
  "shape_step l target dt_s c =
     (let height = moveToward (bc_body_height_mm c) (bc_body_height_mm target) (f_mul (height_rate l c target) dt_s);
          td = f_mul (f_of_int (uint (pose_translation_rate_mm_per_s l))) dt_s;
          rd = f_mul (f_mul (f_of_int (uint (pose_rotation_rate_millirad_per_s l))) kMilliScale) dt_s;
          p = bc_pose c; t = bc_pose target
      in c \<lparr> bc_vx := shapeTwist (bc_vx c) (bc_vx target) (f_milli (max_forward_milli l)) (f_milli (max_reverse_milli l))
               (f_milli (forward_accel_milli_per_s l)) (f_milli (forward_decel_milli_per_s l)) dt_s,
             bc_vy := shapeTwist (bc_vy c) (bc_vy target) (f_milli (max_lateral_milli l)) (f_milli (max_lateral_milli l))
               (f_milli (lateral_accel_milli_per_s l)) (f_milli (lateral_decel_milli_per_s l)) dt_s,
             bc_wz := shapeTwist (bc_wz c) (bc_wz target) (f_milli (max_yaw_milli l)) (f_milli (max_yaw_milli l))
               (f_milli (yaw_accel_milli_per_s l)) (f_milli (yaw_decel_milli_per_s l)) dt_s,
             bc_body_height_mm := height,
             bc_pose := \<lparr> bp_x_mm = moveToward (bp_x_mm p) (bp_x_mm t) td, bp_y_mm = moveToward (bp_y_mm p) (bp_y_mm t) td,
               bp_z_mm = moveToward (bp_z_mm p) (bp_z_mm t) td, bp_roll = moveToward (bp_roll p) (bp_roll t) rd,
               bp_pitch = moveToward (bp_pitch p) (bp_pitch t) rd, bp_yaw = moveToward (bp_yaw p) (bp_yaw t) rd \<rparr> \<rparr>)"

definition integration_dt :: "u32 \<Rightarrow> f32" where
  "integration_dt dt_ms =
     f_div (f_of_int (uint (if dt_ms > kMaxBodyCommandIntegrationMs then kMaxBodyCommandIntegrationMs else dt_ms))) (f_lit 1000)"

definition shaper_update :: "BodyCommand \<Rightarrow> u32 \<Rightarrow> BodyCommandShaper \<Rightarrow> BodyCommandShaper" where
  "shaper_update desired dt_ms s =
     (let target = clampDesired (sh_limits s) desired in
      if sh_mode s = DirectDiagnostic then s \<lparr> sh_current := target \<rparr>
      else
        let dt_s = integration_dt dt_ms in
        if f_le dt_s (Fin 0) then s
        else s \<lparr> sh_current := shape_step (sh_limits s) target dt_s (sh_current s) \<rparr>)"

section \<open>One rate-limited step\<close>

text \<open>The result lies between the current value and the target, and is no further from the current
  value than the allowed step, up to rounding.\<close>

lemma moveToward_between:
  assumes "f_rng lo hi c" "f_rng lo hi t" "f_rep md" "md \<noteq> NaN" and "- (2 ^ 30) \<le> lo" "hi \<le> 2 ^ 30"
  shows "f_rng lo hi (moveToward c t md)"
proof -
  obtain x where x: "c = Fin x" "lo \<le> x" "x \<le> hi" "rnd32 x = x" using assms(1) by (rule f_rngE)
  obtain y where y: "t = Fin y" "lo \<le> y" "y \<le> hi" "rnd32 y = y" using assms(2) by (rule f_rngE)
  have d: "\<bar>y - x\<bar> \<le> 2 ^ 40" using x y assms(5,6) by simp
  then have sub: "f_sub t c = Fin (rnd32 (y - x))" by (simp add: x(1) y(1) f_sub_def f_round_small)
  show ?thesis
  proof (cases md)
    case (Fin m)
    have m: "rnd32 m = m" using assms(3) Fin by (simp add: f_rep_def)
    consider "m \<le> 0" | "0 < m" "m < rnd32 (y - x)" | "0 < m" "rnd32 (y - x) < - m"
      | "0 < m" "\<not> m < rnd32 (y - x)" "\<not> rnd32 (y - x) < - m" by linarith
    then show ?thesis
    proof cases
      case 2
      have r: "x \<le> rnd32 (x + m)" "rnd32 (x + m) \<le> y" using toward_rounded [OF x(4) y(4) m] 2 by simp_all
      have "rnd32 (y - x) \<le> rnd32 (2 ^ 31)" using x y assms(5,6) by (intro rnd32_mono) simp
      moreover have "rnd32 (2 ^ 31) = 2 ^ 31" by code_simp
      ultimately have "\<bar>x + m\<bar> \<le> 2 ^ 40" using 2 x assms(5,6) by simp
      then show ?thesis using 2 r x y Fin sub by (simp add: moveToward_def f_le_def f_round_small f_rngI)
    next
      case 3
      have r: "rnd32 (x - m) \<le> x" "y \<le> rnd32 (x - m)" using away_rounded [OF x(4) y(4) m] 3 by simp_all
      have "rnd32 (- (2 ^ 31)) \<le> rnd32 (y - x)" using x y assms(5,6) by (intro rnd32_mono) simp
      moreover have "rnd32 (- (2 ^ 31)) = - (2 ^ 31)" by code_simp
      ultimately have "\<bar>x - m\<bar> \<le> 2 ^ 40" using 3 x assms(5,6) by simp
      then show ?thesis using 3 r x y Fin sub by (simp add: moveToward_def f_le_def f_sub_def f_round_small f_rngI)
    qed (use assms(1,2) Fin sub in \<open>simp_all add: moveToward_def f_le_def\<close>)
  next
    case (Inf s)
    then show ?thesis using assms(1,2) sub by (cases s) (simp_all add: moveToward_def f_le_def)
  qed (use assms(4) in simp)
qed

lemma moveToward_step:
  assumes "f_in (- M) M c" "f_in (- M) M t" "f_rng 0 D md" and "1 \<le> M" "D \<le> M" "M \<le> 2 ^ 30"
  shows "\<exists>x x'. c = Fin x \<and> moveToward c t md = Fin x' \<and> \<bar>x' - x\<bar> \<le> D + M / 2 ^ 21"
proof -
  obtain x where x: "c = Fin x" "- M \<le> x" "x \<le> M" using assms(1) by (rule f_inE)
  obtain y where y: "t = Fin y" "- M \<le> y" "y \<le> M" using assms(2) by (rule f_inE)
  obtain m where m: "md = Fin m" "0 \<le> m" "m \<le> D" using assms(3) by (rule f_rngE)
  have M: "M / 2 ^ 21 \<ge> 0" "2 * M / 2 ^ 23 \<le> M / 2 ^ 21" using assms(4) by simp_all
  have d: "\<bar>y - x\<bar> \<le> 2 * M" "\<bar>x + m\<bar> \<le> 2 * M" "\<bar>x - m\<bar> \<le> 2 * M" using x y m assms(5) by linarith+
  have err: "\<bar>rnd32 v - v\<bar> \<le> 2 * M / 2 ^ 23" if "\<bar>v\<bar> \<le> 2 * M" for v using that assms(4) by (intro rnd32_error) simp_all
  have fin: "f_round v = Fin (rnd32 v)" if "\<bar>v\<bar> \<le> 2 * M" for v using that assms(6) by (intro f_round_small) simp
  have sub: "f_sub t c = Fin (rnd32 (y - x))" using fin [OF d(1)] by (simp add: x(1) y(1) f_sub_def)
  have near: "\<bar>y - x\<bar> \<le> D + M / 2 ^ 21" if "\<not> m < rnd32 (y - x)" "\<not> rnd32 (y - x) < - m"
    using err [OF d(1)] that m(3) M by linarith
  have up: "\<bar>rnd32 (x + m) - x\<bar> \<le> D + M / 2 ^ 21" "\<bar>rnd32 (x - m) - x\<bar> \<le> D + M / 2 ^ 21"
    using err [OF d(2)] err [OF d(3)] m M by linarith+
  have "0 \<le> D + M / 2 ^ 21" using m M by linarith
  then show ?thesis using near up sub x(1) y(1) m fin [OF d(2)] fin [OF d(3)]
    by (auto simp: moveToward_def f_le_def f_sub_def Let_def)
qed

section \<open>Envelope\<close>

definition milli_of :: "u16 \<Rightarrow> rat" where
  "milli_of v = rnd32 (of_int (uint v) * rnd32 (1 / 1000))"

lemma u16_int: "0 \<le> uint (v :: u16)" "uint v < 65536"
  using uint_bounded [of v] by simp_all

lemma u16_rat: "0 \<le> (of_int (uint v) :: rat)" "of_int (uint v) \<le> (65535 :: rat)" for v :: u16
proof -
  show "0 \<le> (of_int (uint v) :: rat)" unfolding of_int_0_le_iff by (rule u16_int)
  have "(of_int (uint v) :: rat) \<le> of_int 65535" unfolding of_int_le_iff using u16_int(2) [of v] by simp
  then show "of_int (uint v) \<le> (65535 :: rat)" by (simp only: of_int_numeral)
qed

declare of_int_uint [simp del]

lemma milli_scale: "rnd32 (1 / 1000) \<le> 1 / 1000 + 1 / 2 ^ 32" "0 \<le> rnd32 (1 / 1000)" "kMilliScale = Fin (rnd32 (1 / 1000))"
  by code_simp+

lemma milli_product: "0 \<le> of_int (uint v) * rnd32 (1 / 1000)" "of_int (uint v) * rnd32 (1 / 1000) \<le> 66" for v :: u16
proof -
  show "0 \<le> of_int (uint v) * rnd32 (1 / 1000)" using milli_scale(2) u16_int(1) [of v] by (intro mult_nonneg_nonneg) (simp_all only: of_int_0_le_iff)
  have "rnd32 (1 / 1000) \<le> 1 / 999" by code_simp
  then have "of_int (uint v) * rnd32 (1 / 1000) \<le> 65535 * (1 / 999)"
    using u16_rat [of v] milli_scale(2) by (intro mult_mono) simp_all
  then show "of_int (uint v) * rnd32 (1 / 1000) \<le> 66" by simp
qed

lemma f_of_u16: "f_of_int (uint (v :: u16)) = Fin (of_int (uint v))"
  using u16_int [of v] by (intro f_of_int_exact) simp

lemma f_milli_eq: "f_milli v = Fin (milli_of v)" "f_neg_milli v = Fin (- milli_of v)"
  using milli_product [of v]
  by (simp_all add: f_milli_def f_neg_milli_def milli_scale(3) f_of_u16 milli_of_def f_round_small rnd32_minus)

lemma milli_of_bounds: "0 \<le> milli_of v" "rnd32 (milli_of v) = milli_of v" "v \<le> 1000 \<Longrightarrow> milli_of v \<le> 1"
proof -
  show "0 \<le> milli_of v" "rnd32 (milli_of v) = milli_of v" using milli_product [of v] by (simp_all add: milli_of_def rnd32_nonneg)
  assume "v \<le> 1000"
  then have "of_int (uint v) \<le> (of_int 1000 :: rat)" unfolding of_int_le_iff by (simp add: word_le_def)
  then have "of_int (uint v) * rnd32 (1 / 1000) \<le> 1000 * rnd32 (1 / 1000)"
    using milli_scale(2) by (intro mult_right_mono) (simp_all only: of_int_numeral)
  then have "milli_of v \<le> rnd32 (1000 * rnd32 (1 / 1000))" unfolding milli_of_def by (rule rnd32_mono)
  also have "\<dots> = 1" by code_simp
  finally show "milli_of v \<le> 1" .
qed

definition twist_within :: "BodyCommandLimits \<Rightarrow> BodyCommand \<Rightarrow> bool" where
  "twist_within l c \<longleftrightarrow> f_rng (- milli_of (max_reverse_milli l)) (milli_of (max_forward_milli l)) (bc_vx c) \<and>
     f_rng (- milli_of (max_lateral_milli l)) (milli_of (max_lateral_milli l)) (bc_vy c) \<and>
     f_rng (- milli_of (max_yaw_milli l)) (milli_of (max_yaw_milli l)) (bc_wz c)"

definition pose_within :: "rat \<Rightarrow> rat \<Rightarrow> BodyPose \<Rightarrow> bool" where
  "pose_within P R p \<longleftrightarrow> list_all (f_rng (- P) P) [bp_x_mm p, bp_y_mm p, bp_z_mm p] \<and>
     list_all (f_rng (- R) R) [bp_roll p, bp_pitch p, bp_yaw p]"

definition shape_within :: "BodyCommand \<Rightarrow> bool" where
  "shape_within c \<longleftrightarrow> f_rng 0 65535 (bc_body_height_mm c) \<and> pose_within 1024 4 (bc_pose c)"

definition desired_ok :: "BodyCommand \<Rightarrow> bool" where
  "desired_ok d \<longleftrightarrow> list_all (\<lambda>v. v \<noteq> NaN \<and> f_rep v) [bc_vx d, bc_vy d, bc_wz d, bc_height_rate_override_mm_per_s d] \<and>
     shape_within d"

definition shaper_inv :: "BodyCommandShaper \<Rightarrow> bool" where
  "shaper_inv s \<longleftrightarrow> validateBodyCommandLimits (sh_limits s) \<and> twist_within (sh_limits s) (sh_current s) \<and>
     shape_within (sh_current s)"

lemma clamp_milli:
  "v \<noteq> NaN \<Longrightarrow> f_rep v \<Longrightarrow> f_rng (- milli_of a) (milli_of b) (f_clamp v (Fin (- milli_of a)) (Fin (milli_of b)))"
  using milli_of_bounds(1) [of a] milli_of_bounds(1) [of b] milli_of_bounds(2)
  by (intro f_rng_clamp) (simp_all add: rnd32_minus)

lemma clampDesired_ok:
  assumes "desired_ok d"
  shows "twist_within l (clampDesired l d)" "shape_within (clampDesired l d)"
    "bc_height_rate_override_mm_per_s (clampDesired l d) = bc_height_rate_override_mm_per_s d"
  using assms clamp_milli by (simp_all add: twist_within_def desired_ok_def clampDesired_def f_milli_eq shape_within_def)

lemma integration_dt_eq:
  "\<exists>t \<le> 50. integration_dt dt_ms = Fin (rnd32 (of_nat t / 1000)) \<and> t = min (unat dt_ms) 50"
proof -
  define w where "w = (if dt_ms > kMaxBodyCommandIntegrationMs then kMaxBodyCommandIntegrationMs else dt_ms)"
  have w: "unat w = min (unat dt_ms) 50" by (auto simp: w_def kMaxBodyCommandIntegrationMs_def word_less_nat_alt)
  define n where "n = unat w"
  have u: "uint w = int n" by (simp add: n_def)
  have n: "n \<le> 50" "n = min (unat dt_ms) 50" using w by (simp_all add: n_def)
  have "f_of_int (int n) = Fin (of_nat n)" using n f_of_int_exact [of "int n"] by simp
  moreover have "f_lit 1000 = Fin 1000" by code_simp
  moreover have "\<bar>of_nat n / 1000 :: rat\<bar> \<le> 2 ^ 40" using n(1) by simp
  ultimately have "integration_dt dt_ms = Fin (rnd32 (of_nat n / 1000))"
    by (simp add: integration_dt_def w_def [symmetric] u f_round_small)
  then show ?thesis using n by (intro exI [where x = n]) simp
qed

lemma dt_bounds:
  assumes "t \<le> (50 :: nat)"
  shows "0 \<le> rnd32 (of_nat t / 1000)" "rnd32 (of_nat t / 1000) \<le> of_nat t / 1000 + 1 / 2 ^ 27" "rnd32 (of_nat t / 1000) \<le> 1"
proof -
  have "\<bar>of_nat t / 1000 :: rat\<bar> \<le> 1 / 16" using assms by simp
  then have "\<bar>rnd32 (of_nat t / 1000) - of_nat t / 1000\<bar> \<le> 1 / 16 / 2 ^ 23" by (rule rnd32_error) simp
  moreover have "(1 / 16 / 2 ^ 23 :: rat) = 1 / 2 ^ 27" by simp
  ultimately show "rnd32 (of_nat t / 1000) \<le> of_nat t / 1000 + 1 / 2 ^ 27" by linarith
  show "0 \<le> rnd32 (of_nat t / 1000)" by (simp add: rnd32_nonneg)
  have "rnd32 (of_nat t / 1000) \<le> rnd32 1" using assms by (intro rnd32_mono) simp
  then show "rnd32 (of_nat t / 1000) \<le> 1" by simp
qed

lemma twist_between:
  assumes "f_rng (- milli_of a) (milli_of b) c" "f_rng (- milli_of a) (milli_of b) t" "a \<le> 1000" "b \<le> 1000"
    and "acc = Fin x" "dec = Fin y" "dt_s = Fin d"
  shows "f_rng (- milli_of a) (milli_of b) (shapeTwist c t (f_milli b) (f_milli a) acc dec dt_s)"
proof -
  have t: "f_clamp t (f_neg (f_milli a)) (f_milli b) = t"
    using assms(2) by (simp add: f_milli_eq f_rng_def f_clamp_id)
  have "f_rep (f_mul (if A then acc else dec) dt_s) \<and> f_mul (if A then acc else dec) dt_s \<noteq> NaN" for A
    by (simp add: assms(5-7))
  moreover have "- (2 ^ 30) \<le> - milli_of a" "milli_of b \<le> 2 ^ 30"
    using milli_of_bounds(3) [OF assms(3)] milli_of_bounds(3) [OF assms(4)] by simp_all
  ultimately show ?thesis using moveToward_between [OF assms(1,2)] by (simp add: shapeTwist_def t Let_def)
qed

lemma height_rate_fin:
  assumes "bc_height_rate_override_mm_per_s t \<noteq> NaN" "f_rep (bc_height_rate_override_mm_per_s t)" and "validateBodyCommandLimits l"
  shows "f_rng 0 200 (height_rate l c t)"
proof -
  have i: "f_rng 0 200 (f_of_int (uint v))" if "v \<le> (200 :: u16)" for v
  proof -
    have "of_int (uint v) \<le> (of_int 200 :: rat)" unfolding of_int_le_iff using that by (simp add: word_le_def)
    moreover have "rnd32 (of_int (uint v)) = of_int (uint v)" using u16_int [of v] by (intro rnd32_of_int) simp
    ultimately show ?thesis using u16_rat(1) [of v] by (simp add: f_of_u16 f_rngI)
  qed
  have "height_rise_mm_per_s l \<le> 200" "height_lower_mm_per_s l \<le> 200"
    using assms(3) by (simp_all add: validateBodyCommandLimits_def kBodyHeightRateMaxMmPerS_def)
  moreover have "f_of_int (uint kBodyHeightRateMaxMmPerS) = Fin 200" by code_simp
  moreover have "rnd32 200 = 200" using rnd32_of_int [of 200] by simp
  ultimately show ?thesis using i assms(1,2)
    by (cases "bc_height_rate_override_mm_per_s t") (auto simp: height_rate_def Let_def f_rng_def f_rep_def)
qed

lemma shape_step_ok:
  assumes "validateBodyCommandLimits l" "twist_within l c" "shape_within c" "twist_within l t" "shape_within t"
    "bc_height_rate_override_mm_per_s t \<noteq> NaN" "f_rep (bc_height_rate_override_mm_per_s t)" "dt_s = Fin d"
  shows "twist_within l (shape_step l t dt_s c)" "shape_within (shape_step l t dt_s c)"
proof -
  have lim: "max_forward_milli l \<le> 1000" "max_reverse_milli l \<le> 1000" "max_lateral_milli l \<le> 1000" "max_yaw_milli l \<le> 1000"
    using assms(1) by (simp_all add: validateBodyCommandLimits_def kBodyCommandMaxScaleMilli_def not_less)
  show "twist_within l (shape_step l t dt_s c)"
    using assms(2,4) twist_between [OF _ _ _ _ _ _ assms(8)] lim
    by (simp add: twist_within_def shape_step_def Let_def f_milli_eq [of "forward_accel_milli_per_s l"]
        f_milli_eq [of "forward_decel_milli_per_s l"] f_milli_eq [of "lateral_accel_milli_per_s l"]
        f_milli_eq [of "lateral_decel_milli_per_s l"] f_milli_eq [of "yaw_accel_milli_per_s l"] f_milli_eq [of "yaw_decel_milli_per_s l"])
  obtain h where h: "height_rate l c t = Fin h" using height_rate_fin [OF assms(6,7,1)] by (metis f_rngE)
  have rep: "f_rep (f_mul (Fin a) dt_s) \<and> f_mul (Fin a) dt_s \<noteq> NaN" for a by (simp add: assms(8))
  have "\<exists>r. f_mul (f_of_int (uint (pose_rotation_rate_millirad_per_s l))) kMilliScale = Fin r"
    using f_milli_eq(1) [of "pose_rotation_rate_millirad_per_s l"] by (simp add: f_milli_def)
  then obtain r where r: "f_mul (f_of_int (uint (pose_rotation_rate_millirad_per_s l))) kMilliScale = Fin r" ..
  note r = r [unfolded f_of_u16]
  show "shape_within (shape_step l t dt_s c)"
    using assms(3,5) rep
    by (simp add: shape_within_def pose_within_def shape_step_def Let_def h r f_of_u16 moveToward_between)
qed

lemma shaper_inv_update: "shaper_inv s \<Longrightarrow> desired_ok d \<Longrightarrow> shaper_inv (shaper_update d dt s)"
proof -
  assume s: "shaper_inv s" and d: "desired_ok d"
  obtain t where "integration_dt dt = Fin t" using integration_dt_eq by blast
  then show ?thesis
    using s clampDesired_ok [OF d] shape_step_ok [where l = "sh_limits s" and t = "clampDesired (sh_limits s) d"] d
    by (simp add: shaper_inv_def shaper_update_def Let_def desired_ok_def)
qed

lemma shaper_inv_reset: "validateBodyCommandLimits (sh_limits s) \<Longrightarrow> f_rng 0 65535 h \<Longrightarrow> shaper_inv (shaper_reset h s)"
  using milli_of_bounds(1)
  by (simp add: shaper_inv_def shaper_reset_def twist_within_def shape_within_def pose_within_def BodyCommand_default_def
      BodyPose_default_def)

section \<open>Rates\<close>

text \<open>A value moved from \<open>u\<close> towards \<open>t\<close>: by at most \<open>D\<close> and never past the target.\<close>

definition moved :: "rat \<Rightarrow> f32 \<Rightarrow> f32 \<Rightarrow> f32 \<Rightarrow> bool" where
  "moved D u t v \<longleftrightarrow> (\<exists>x z y. u = Fin x \<and> t = Fin z \<and> v = Fin y \<and> \<bar>y - x\<bar> \<le> D \<and> min x z \<le> y \<and> y \<le> max x z)"

lemma unmoved: "f_rng a b v \<Longrightarrow> f_rng a' b' t \<Longrightarrow> 0 \<le> E \<Longrightarrow> moved E v t v"
  by (auto simp: moved_def elim!: f_rngE)

lemma toward_moved:
  assumes "f_rng (- M) M c" "f_rng (- M) M t" "f_rng 0 D md" and "1 \<le> M" "D \<le> M" "M \<le> 2 ^ 30" "D + M / 2 ^ 21 \<le> E"
  shows "moved E c t (moveToward c t md)"
proof -
  obtain x where x: "c = Fin x" "- M \<le> x" "x \<le> M" "rnd32 x = x" using assms(1) by (rule f_rngE)
  obtain z where z: "t = Fin z" "- M \<le> z" "z \<le> M" "rnd32 z = z" using assms(2) by (rule f_rngE)
  obtain y where y: "moveToward c t md = Fin y" "\<bar>y - x\<bar> \<le> D + M / 2 ^ 21"
    using moveToward_step [OF f_rng_in [OF assms(1)] f_rng_in [OF assms(2)] assms(3-6)] x(1) by auto
  have "f_rep md" "md \<noteq> NaN" using assms(3) by (auto simp: f_rng_def)
  then have "f_rng (min x z) (max x z) (moveToward c t md)"
    using x z assms(6) by (intro moveToward_between) (simp_all add: f_rngI)
  then have "min x z \<le> y \<and> y \<le> max x z" by (simp only: y(1)) (erule f_rngE, simp)
  then show ?thesis using x(1) z(1) y assms(7) by (auto simp: moved_def)
qed

text \<open>The height rate in force: a positive override of the request up to the hard ceiling, else the
  configured rate for the direction.\<close>

definition height_limit :: "BodyCommandLimits \<Rightarrow> BodyCommand \<Rightarrow> BodyCommand \<Rightarrow> rat" where
  "height_limit l c t =
     (let configured = of_nat (unat (if f_le (bc_body_height_mm c) (bc_body_height_mm t)
        then height_rise_mm_per_s l else height_lower_mm_per_s l))
      in case bc_height_rate_override_mm_per_s t of
           Fin r \<Rightarrow> if 0 < r then min r 200 else configured
         | Inf negative \<Rightarrow> if negative then configured else 200
         | NaN \<Rightarrow> configured)"

lemma step_product:
  assumes "0 \<le> a" "a \<le> A + e" "A \<le> K" "0 \<le> e" "e \<le> 1" "t \<le> (50 :: nat)" "1 \<le> K" "K \<le> 2 ^ 10"
  shows "f_rng 0 (A * of_nat t / 1000 + e + K / 2 ^ 21) (f_mul (Fin a) (Fin (rnd32 (of_nat t / 1000))))"
proof -
  define d :: rat where "d = rnd32 (of_nat t / 1000)"
  note d = dt_bounds [OF assms(6), folded d_def]
  have "a * d \<le> a * (of_nat t / 1000 + 1 / 2 ^ 27)" using assms(1) d by (intro mult_left_mono) simp_all
  also have "\<dots> \<le> (A + e) * (of_nat t / 1000 + 1 / 2 ^ 27)" using assms(2) by (intro mult_right_mono) simp_all
  also have "\<dots> = A * of_nat t / 1000 + A / 2 ^ 27 + e * (of_nat t / 1000 + 1 / 2 ^ 27)"
    by (simp add: algebra_simps add_divide_distrib)
  also have "\<dots> \<le> A * of_nat t / 1000 + K / 2 ^ 27 + e"
    using assms(3,4,6) by (intro add_mono mult_left_le) simp_all
  finally have p: "a * d \<le> A * of_nat t / 1000 + K / 2 ^ 27 + e" .
  have K: "0 \<le> a * d" "a * d \<le> 2 * K"
  proof -
    show "0 \<le> a * d" using assms(1) d by simp
    have "a * d \<le> a" using assms(1) d by (simp add: mult_left_le)
    then show "a * d \<le> 2 * K" using assms(2,3,5,7) by linarith
  qed
  have "\<bar>rnd32 (a * d) - a * d\<bar> \<le> 2 * K / 2 ^ 23" using K assms(7) by (intro rnd32_error) simp_all
  moreover have "K / 2 ^ 27 + 2 * K / 2 ^ 23 \<le> K / 2 ^ 21" using assms(7) by simp
  ultimately have "rnd32 (a * d) \<le> A * of_nat t / 1000 + e + K / 2 ^ 21" using p by linarith
  moreover have "0 \<le> rnd32 (a * d)" using K(1) by (rule rnd32_nonneg)
  moreover have "\<bar>a * d\<bar> \<le> 2 ^ 40" using K assms(8) by simp
  then have "f_mul (Fin a) (Fin d) = Fin (rnd32 (a * d))" by (simp add: f_round_small)
  ultimately show ?thesis by (simp only: d_def [symmetric] f_rngI rnd32_idem)
qed

lemma u16_nat: "unat v = k \<Longrightarrow> of_int (uint v) = (of_nat k :: rat)" for v :: u16
  using arg_cong [of "unat v" k int] by (metis of_int_of_nat_eq uint_nat)

lemma height_rate_limit: "height_rate l c t = Fin (height_limit l c t)"
proof -
  have "f_of_int (uint kBodyHeightRateMaxMmPerS) = Fin 200" by code_simp
  then show ?thesis
    by (cases "bc_height_rate_override_mm_per_s t")
      (auto simp: height_rate_def height_limit_def Let_def f_of_u16 u16_nat [OF refl] min_def)
qed

lemma milli_of_upper:
  assumes "unat v = k" "k \<le> 5000"
  shows "milli_of v \<le> of_nat k / 1000 + 1 / 2 ^ 18"
proof -
  define n :: rat where "n = of_nat k"
  have u: "of_int (uint v) = n" using u16_nat [OF assms(1)] by (simp add: n_def)
  have n: "0 \<le> n" "n \<le> 5000" using assms(2) by (simp_all add: n_def)
  have "n * rnd32 (1 / 1000) \<le> n * (1 / 1000 + 1 / 2 ^ 32)" using n(1) milli_scale(1) by (intro mult_left_mono)
  also have "\<dots> = n / 1000 + n / 2 ^ 32" by (simp add: algebra_simps)
  also have "\<dots> \<le> n / 1000 + 5000 / 2 ^ 32" using n(2) by simp
  finally have p: "n * rnd32 (1 / 1000) \<le> n / 1000 + 5000 / 2 ^ 32" .
  have "0 \<le> n * rnd32 (1 / 1000)" using n(1) milli_scale(2) by simp
  moreover have "n / 1000 + 5000 / 2 ^ 32 \<le> 8" using n(2) by simp
  ultimately have "\<bar>n * rnd32 (1 / 1000)\<bar> \<le> 8" using p by linarith
  then have "\<bar>rnd32 (n * rnd32 (1 / 1000)) - n * rnd32 (1 / 1000)\<bar> \<le> 8 / 2 ^ 23" by (rule rnd32_error) simp
  moreover have "(5000 / 2 ^ 32 + 8 / 2 ^ 23 :: rat) \<le> 1 / 2 ^ 18" by simp
  ultimately show ?thesis using p unfolding milli_of_def u n_def [symmetric] by linarith
qed

lemma milli_step:
  assumes "unat v = k" "k \<le> 5000" "t \<le> 50"
  shows "f_rng 0 (of_nat (k * t) / 10 ^ 6 + 1 / 2 ^ 17 - 1 / 2 ^ 21) (f_mul (f_milli v) (Fin (rnd32 (of_nat t / 1000))))"
proof -
  have "f_rng 0 (of_nat k / 1000 * of_nat t / 1000 + 1 / 2 ^ 18 + 5 / 2 ^ 21) (f_mul (Fin (milli_of v)) (Fin (rnd32 (of_nat t / 1000))))"
    using milli_of_bounds(1) [of v] milli_of_upper [OF assms(1,2)] assms(2,3) by (intro step_product) simp_all
  then show ?thesis unfolding f_milli_eq by (rule f_rng_mono) simp_all
qed

lemma rate_step:
  assumes "a = of_nat k" "k \<le> 200" "t \<le> 50"
  shows "f_rng 0 (of_nat (k * t) / 1000 + 1 / 2 ^ 13) (f_mul (Fin a) (Fin (rnd32 (of_nat t / 1000))))"
proof -
  have "f_rng 0 (of_nat k * of_nat t / 1000 + 0 + 200 / 2 ^ 21) (f_mul (Fin a) (Fin (rnd32 (of_nat t / 1000))))"
    using assms by (intro step_product) simp_all
  then show ?thesis by (rule f_rng_mono) simp_all
qed

text \<open>A twist component speeds up from rest, or when it grows in the direction of its target.\<close>

definition speeding_up :: "f32 \<Rightarrow> f32 \<Rightarrow> bool" where
  "speeding_up c t \<longleftrightarrow> f_eq c (Fin 0) \<or> f_lt (Fin 0) (f_mul c t) \<and> f_lt (fabsf c) (fabsf t)"

lemma magnitude_abs: "magnitude (Fin x) = fabsf (Fin x)"
  by (simp add: magnitude_def)

lemma twist_moved:
  assumes "f_rng (- milli_of a) (milli_of b) c" "f_rng (- milli_of a) (milli_of b) t" "a \<le> 1000" "b \<le> 1000"
    and "unat acc \<le> 5000" "unat dec \<le> 5000" "s \<le> 50"
  shows "moved (of_nat (unat (if speeding_up c t then acc else dec) * s) / 10 ^ 6 + 1 / 2 ^ 17) c t
           (shapeTwist c t (f_milli b) (f_milli a) (f_milli acc) (f_milli dec) (Fin (rnd32 (of_nat s / 1000))))"
proof -
  have t: "f_clamp t (f_neg (f_milli a)) (f_milli b) = t" using assms(2) by (simp add: f_milli_eq f_rng_def f_clamp_id)
  have one: "f_rng (- 1) 1 c" "f_rng (- 1) 1 t"
    using f_rng_mono [OF assms(1)] f_rng_mono [OF assms(2)] milli_of_bounds(3) [OF assms(3)] milli_of_bounds(3) [OF assms(4)] by simp_all
  define rate where "rate = (if speeding_up c t then acc else dec)"
  obtain k where k: "unat rate = k" "k \<le> 5000" using assms(5,6) by (simp add: rate_def)
  have "k * s \<le> 5000 * 50" using k(2) assms(7) by (rule mult_le_mono)
  then have ks: "(of_nat (k * s) :: rat) \<le> 250000" using of_nat_le_iff [of "k * s" 250000, where ?'a = rat] by simp
  define D :: rat where "D = of_nat (k * s) / 10 ^ 6 + 1 / 2 ^ 17 - 1 / 2 ^ 21"
  have D: "f_rng 0 D (f_mul (f_milli rate) (Fin (rnd32 (of_nat s / 1000))))"
    using milli_step [OF k assms(7)] by (simp add: D_def)
  have "D \<le> 1" "D + 1 / 2 ^ 21 = of_nat (k * s) / 10 ^ 6 + 1 / 2 ^ 17" using ks by (simp_all add: D_def)
  then have "moved (of_nat (k * s) / 10 ^ 6 + 1 / 2 ^ 17) c t (moveToward c t (f_mul (f_milli rate) (Fin (rnd32 (of_nat s / 1000)))))"
    by (intro toward_moved [OF one D]) simp_all
  moreover have "magnitude c = fabsf c" "magnitude t = fabsf t" using one by (auto simp: magnitude_abs elim!: f_rngE)
  then have "shapeTwist c t (f_milli b) (f_milli a) (f_milli acc) (f_milli dec) d = moveToward c t (f_mul (f_milli rate) d)" for d
    unfolding shapeTwist_def t Let_def by (simp add: rate_def speeding_up_def)
  ultimately show ?thesis by (simp only: k(1) [symmetric] rate_def)
qed

text \<open>
  What one update of \<open>s\<close> milliseconds does to each component, with the rounding allowance: a twist
  component follows the configured acceleration while it speeds up and the configured deceleration
  otherwise, the height follows the rate in force and the pose the configured pose rates.
\<close>

definition rates_kept :: "BodyCommandLimits \<Rightarrow> nat \<Rightarrow> BodyCommand \<Rightarrow> BodyCommand \<Rightarrow> BodyCommand \<Rightarrow> bool" where
  "rates_kept l s t c c' \<longleftrightarrow>
     (let twist = (\<lambda>a d u v. of_nat (unat (if speeding_up u v then a else d) * s) / 10 ^ 6 + 1 / 2 ^ 17);
          shift = of_nat (unat (pose_translation_rate_mm_per_s l) * s) / 1000 + 1 / 2 ^ 10;
          turn = of_nat (unat (pose_rotation_rate_millirad_per_s l) * s) / 10 ^ 6 + 1 / 2 ^ 16;
          p = bc_pose c; q = bc_pose t; p' = bc_pose c'
      in moved (twist (forward_accel_milli_per_s l) (forward_decel_milli_per_s l) (bc_vx c) (bc_vx t)) (bc_vx c) (bc_vx t) (bc_vx c') \<and>
         moved (twist (lateral_accel_milli_per_s l) (lateral_decel_milli_per_s l) (bc_vy c) (bc_vy t)) (bc_vy c) (bc_vy t) (bc_vy c') \<and>
         moved (twist (yaw_accel_milli_per_s l) (yaw_decel_milli_per_s l) (bc_wz c) (bc_wz t)) (bc_wz c) (bc_wz t) (bc_wz c') \<and>
         moved (height_limit l c t * of_nat s / 1000 + 1 / 16) (bc_body_height_mm c) (bc_body_height_mm t) (bc_body_height_mm c') \<and>
         moved shift (bp_x_mm p) (bp_x_mm q) (bp_x_mm p') \<and> moved shift (bp_y_mm p) (bp_y_mm q) (bp_y_mm p') \<and>
         moved shift (bp_z_mm p) (bp_z_mm q) (bp_z_mm p') \<and> moved turn (bp_roll p) (bp_roll q) (bp_roll p') \<and>
         moved turn (bp_pitch p) (bp_pitch q) (bp_pitch p') \<and> moved turn (bp_yaw p) (bp_yaw q) (bp_yaw p'))"

lemma small_product: "k \<le> a \<Longrightarrow> s \<le> b \<Longrightarrow> (of_nat (k * s) :: rat) \<le> of_nat (a * b)"
  unfolding of_nat_le_iff by (rule mult_le_mono)

lemma shape_step_fields:
  "bc_vx (shape_step l t dt_s c) = shapeTwist (bc_vx c) (bc_vx t) (f_milli (max_forward_milli l)) (f_milli (max_reverse_milli l))
     (f_milli (forward_accel_milli_per_s l)) (f_milli (forward_decel_milli_per_s l)) dt_s"
  "bc_vy (shape_step l t dt_s c) = shapeTwist (bc_vy c) (bc_vy t) (f_milli (max_lateral_milli l)) (f_milli (max_lateral_milli l))
     (f_milli (lateral_accel_milli_per_s l)) (f_milli (lateral_decel_milli_per_s l)) dt_s"
  "bc_wz (shape_step l t dt_s c) = shapeTwist (bc_wz c) (bc_wz t) (f_milli (max_yaw_milli l)) (f_milli (max_yaw_milli l))
     (f_milli (yaw_accel_milli_per_s l)) (f_milli (yaw_decel_milli_per_s l)) dt_s"
  "bc_body_height_mm (shape_step l t dt_s c) =
     moveToward (bc_body_height_mm c) (bc_body_height_mm t) (f_mul (height_rate l c t) dt_s)"
  "bp_x_mm (bc_pose (shape_step l t dt_s c)) = moveToward (bp_x_mm (bc_pose c)) (bp_x_mm (bc_pose t))
     (f_mul (f_of_int (uint (pose_translation_rate_mm_per_s l))) dt_s)"
  "bp_y_mm (bc_pose (shape_step l t dt_s c)) = moveToward (bp_y_mm (bc_pose c)) (bp_y_mm (bc_pose t))
     (f_mul (f_of_int (uint (pose_translation_rate_mm_per_s l))) dt_s)"
  "bp_z_mm (bc_pose (shape_step l t dt_s c)) = moveToward (bp_z_mm (bc_pose c)) (bp_z_mm (bc_pose t))
     (f_mul (f_of_int (uint (pose_translation_rate_mm_per_s l))) dt_s)"
  "bp_roll (bc_pose (shape_step l t dt_s c)) = moveToward (bp_roll (bc_pose c)) (bp_roll (bc_pose t))
     (f_mul (f_mul (f_of_int (uint (pose_rotation_rate_millirad_per_s l))) kMilliScale) dt_s)"
  "bp_pitch (bc_pose (shape_step l t dt_s c)) = moveToward (bp_pitch (bc_pose c)) (bp_pitch (bc_pose t))
     (f_mul (f_mul (f_of_int (uint (pose_rotation_rate_millirad_per_s l))) kMilliScale) dt_s)"
  "bp_yaw (bc_pose (shape_step l t dt_s c)) = moveToward (bp_yaw (bc_pose c)) (bp_yaw (bc_pose t))
     (f_mul (f_mul (f_of_int (uint (pose_rotation_rate_millirad_per_s l))) kMilliScale) dt_s)"
  by (simp_all add: shape_step_def Let_def)

lemma shape_step_rates:
  assumes "validateBodyCommandLimits l" "twist_within l c" "shape_within c" "twist_within l t" "shape_within t"
    "bc_height_rate_override_mm_per_s t \<noteq> NaN" "f_rep (bc_height_rate_override_mm_per_s t)" "s \<le> 50"
  shows "rates_kept l s t c (shape_step l t (Fin (rnd32 (of_nat s / 1000))) c)"
proof -
  let ?dt = "Fin (rnd32 (of_nat s / 1000))"
  have lim: "max_forward_milli l \<le> 1000" "max_reverse_milli l \<le> 1000" "max_lateral_milli l \<le> 1000" "max_yaw_milli l \<le> 1000"
    and acc: "unat (forward_accel_milli_per_s l) \<le> 5000" "unat (forward_decel_milli_per_s l) \<le> 5000"
      "unat (lateral_accel_milli_per_s l) \<le> 5000" "unat (lateral_decel_milli_per_s l) \<le> 5000"
      "unat (yaw_accel_milli_per_s l) \<le> 5000" "unat (yaw_decel_milli_per_s l) \<le> 5000"
    and rate: "unat (pose_translation_rate_mm_per_s l) \<le> 200" "unat (pose_rotation_rate_millirad_per_s l) \<le> 2000"
    using assms(1)
    by (simp_all add: validateBodyCommandLimits_def kBodyCommandMaxScaleMilli_def kBodyCommandMaxAccelMilliPerS_def
        kBodyPoseTranslationRateMaxMmPerS_def kBodyPoseRotationRateMaxMilliRadPerS_def not_less word_le_nat_alt)
  note tw = twist_moved [OF _ _ _ _ _ _ assms(8)]
  define h where "h = height_limit l c t"
  have h: "0 \<le> h" "h \<le> 200" using height_rate_fin [OF assms(6,7,1), of c] by (simp_all add: height_rate_limit h_def f_rng_def)
  have hs: "f_rng 0 (h * of_nat s / 1000 + 0 + 200 / 2 ^ 21) (f_mul (Fin h) ?dt)"
    using h assms(8) by (intro step_product) simp_all
  have "h * of_nat s \<le> 200 * 50" using h assms(8) by (intro mult_mono) simp_all
  then have hb: "h * of_nat s / 1000 + 0 + 200 / 2 ^ 21 \<le> 65536" "h * of_nat s / 1000 + 0 + 200 / 2 ^ 21 + 65536 / 2 ^ 21 \<le> h * of_nat s / 1000 + 1 / 16"
    by simp_all
  have "unat (pose_translation_rate_mm_per_s l) = k \<Longrightarrow> f_of_int (uint (pose_translation_rate_mm_per_s l)) = Fin (of_nat k)" for k
    by (simp only: f_of_u16 u16_nat)
  then have shift: "f_rng 0 (of_nat (unat (pose_translation_rate_mm_per_s l) * s) / 1000 + 1 / 2 ^ 13)
      (f_mul (f_of_int (uint (pose_translation_rate_mm_per_s l))) ?dt)"
    using rate_step [OF refl rate(1) assms(8)] by metis
  have turn: "f_rng 0 (of_nat (unat (pose_rotation_rate_millirad_per_s l) * s) / 10 ^ 6 + 1 / 2 ^ 17 - 1 / 2 ^ 21)
      (f_mul (f_mul (f_of_int (uint (pose_rotation_rate_millirad_per_s l))) kMilliScale) ?dt)"
    using milli_step [OF refl _ assms(8), of "pose_rotation_rate_millirad_per_s l"] rate(2) by (simp add: f_milli_def)
  note sp = small_product [OF rate(1) assms(8)] small_product [OF rate(2) assms(8)]
  have ph: "f_rng (- 65536) 65536 (bc_body_height_mm c)" "f_rng (- 65536) 65536 (bc_body_height_mm t)"
    using assms(3,5) by (auto simp: shape_within_def intro: f_rng_mono)
  have height: "moved (h * of_nat s / 1000 + 1 / 16) (bc_body_height_mm c) (bc_body_height_mm t)
      (moveToward (bc_body_height_mm c) (bc_body_height_mm t) (f_mul (Fin h) ?dt))"
    using hb by (intro toward_moved [OF ph hs]) simp_all
  have pm: "moved (of_nat (unat (pose_translation_rate_mm_per_s l) * s) / 1000 + 1 / 2 ^ 10) u v
      (moveToward u v (f_mul (f_of_int (uint (pose_translation_rate_mm_per_s l))) ?dt))"
    if "f_rng (- 1024) 1024 u" "f_rng (- 1024) 1024 v" for u v
    using sp(1) by (intro toward_moved [OF that shift]) simp_all
  have rm: "moved (of_nat (unat (pose_rotation_rate_millirad_per_s l) * s) / 10 ^ 6 + 1 / 2 ^ 16) u v
      (moveToward u v (f_mul (f_mul (f_of_int (uint (pose_rotation_rate_millirad_per_s l))) kMilliScale) ?dt))"
    if "f_rng (- 4) 4 u" "f_rng (- 4) 4 v" for u v
    using sp(2) by (intro toward_moved [OF that turn]) simp_all
  have pr: "pose_within 1024 4 (bc_pose c)" "pose_within 1024 4 (bc_pose t)" using assms(3,5) by (simp_all add: shape_within_def)
  show ?thesis
    unfolding rates_kept_def Let_def shape_step_fields height_rate_limit h_def [symmetric]
    using assms(2,4) lim acc pr
    by (intro conjI tw height pm rm) (simp_all add: twist_within_def pose_within_def)
qed

section \<open>The shaper under any use\<close>

datatype shaper_op = ShaperConfigure BodyCommandLimits f32 | ShaperReset f32 | ShaperMode CommandShaperMode bool
  | ShaperUpdate BodyCommand u32

text \<open>The controller core always resets the shaper after configuring it.\<close>

fun shaper_op_step :: "shaper_op \<Rightarrow> BodyCommandShaper \<Rightarrow> BodyCommandShaper" where
  "shaper_op_step (ShaperConfigure l h) s = shaper_reset h (shaper_configure l s)"
| "shaper_op_step (ShaperReset h) s = shaper_reset h s"
| "shaper_op_step (ShaperMode m ok) s = snd (shaper_setMode m ok s)"
| "shaper_op_step (ShaperUpdate d dt) s = shaper_update d dt s"

fun shaper_op_ok :: "shaper_op \<Rightarrow> bool" where
  "shaper_op_ok (ShaperConfigure l h) \<longleftrightarrow> f_rng 0 65535 h"
| "shaper_op_ok (ShaperReset h) \<longleftrightarrow> f_rng 0 65535 h"
| "shaper_op_ok (ShaperMode m ok) \<longleftrightarrow> True"
| "shaper_op_ok (ShaperUpdate d dt) \<longleftrightarrow> desired_ok d"

lemma shaper_inv_new: "shaper_inv BodyCommandShaper_new"
proof -
  have "validateBodyCommandLimits defaultBodyCommandLimits" "f_rng 0 65535 (f_lit 132)" by code_simp+
  then show ?thesis
    using shaper_inv_reset [of BodyCommandShaper_new "f_lit 132"]
    by (simp add: BodyCommandShaper_new_def shaper_reset_def BodyCommand_default_def)
qed

lemma shaper_inv_limits: "shaper_inv s \<Longrightarrow> validateBodyCommandLimits (sh_limits (shaper_configure l s))"
  "shaper_inv s \<Longrightarrow> validateBodyCommandLimits (sh_limits s)"
  by (simp_all add: shaper_inv_def shaper_configure_def)

lemma shaper_inv_step: "shaper_op_ok op \<Longrightarrow> shaper_inv s \<Longrightarrow> shaper_inv (shaper_op_step op s)"
proof (cases op)
  case (ShaperMode m ok)
  then show "shaper_inv s \<Longrightarrow> ?thesis" by (simp add: shaper_setMode_def shaper_inv_def)
qed (simp_all add: shaper_inv_update shaper_inv_reset shaper_inv_limits)

lemma shaper_inv_run: "list_all shaper_op_ok ops \<Longrightarrow> shaper_inv s \<Longrightarrow> shaper_inv (fold shaper_op_step ops s)"
  by (induction ops arbitrary: s) (simp_all add: shaper_inv_step)

text \<open>
  C21: the shaped body command never leaves its envelope and never jumps. After any sequence of
  configurations, resets, mode changes and updates with requests that are numbers (height within 0
  and 65535 mm, translations within 1024 mm and angles within 4 rad), an update leaves each twist
  component within the configured limits and the height and the pose in the range of the requests.
  Unless the diagnostic mode is selected, every component moves from its old value towards the
  clamped request without passing it, by no more than its rate times the elapsed time (counted at
  most 50 ms) and a rounding allowance: a twist component at the configured acceleration while it
  speeds up and at the configured deceleration otherwise, the pose at the configured pose rates, and
  the height at the configured rise or lowering rate, or at the positive rate that a choreography
  asks for instead, which is cut to the hard ceiling of 200 mm/s.
\<close>

theorem shaper_bounded:
  assumes "list_all shaper_op_ok ops" and "desired_ok d" and s_def: "s = fold shaper_op_step ops BodyCommandShaper_new"
    and s'_def: "s' = shaper_update d dt s"
  shows "twist_within (sh_limits s) (sh_current s') \<and> shape_within (sh_current s') \<and> validateBodyCommandLimits (sh_limits s) \<and>
    (sh_mode s = AccelLimited \<longrightarrow>
       rates_kept (sh_limits s) (min (unat dt) 50) (clampDesired (sh_limits s) d) (sh_current s) (sh_current s'))"
proof -
  have s: "shaper_inv s" unfolding s_def by (rule shaper_inv_run [OF assms(1) shaper_inv_new])
  have s': "shaper_inv s'" "sh_limits s' = sh_limits s"
    using shaper_inv_update [OF s assms(2)] by (simp_all add: s'_def shaper_update_def Let_def)
  obtain t where t: "t \<le> 50" "integration_dt dt = Fin (rnd32 (of_nat t / 1000))" "t = min (unat dt) 50"
    using integration_dt_eq by blast
  define g where "g = clampDesired (sh_limits s) d"
  note c = clampDesired_ok [OF assms(2), of "sh_limits s", folded g_def]
  have r: "rates_kept (sh_limits s) t g (sh_current s) (shape_step (sh_limits s) g (integration_dt dt) (sh_current s))"
    unfolding t(2) using s c t(1) assms(2) by (intro shape_step_rates) (simp_all add: shaper_inv_def desired_ok_def)
  have "0 \<le> height_limit (sh_limits s) (sh_current s) g"
    using height_rate_fin [of g "sh_limits s" "sh_current s"] s c(3) assms(2)
    by (simp add: height_rate_limit f_rng_def shaper_inv_def desired_ok_def)
  then have z: "rates_kept (sh_limits s) t g (sh_current s) (sh_current s)"
    using s c(1,2)
    by (auto simp: rates_kept_def Let_def shaper_inv_def twist_within_def shape_within_def pose_within_def
        intro!: unmoved add_nonneg_nonneg simp del: of_nat_unat)
  then have "sh_mode s = AccelLimited \<longrightarrow> rates_kept (sh_limits s) t g (sh_current s) (sh_current s')"
    using r by (simp add: s'_def shaper_update_def Let_def g_def)
  then show ?thesis using s' s t(3) by (simp add: shaper_inv_def g_def)
qed

definition shaper_sample :: BodyCommand where
  "shaper_sample = BodyCommand_default \<lparr> bc_vx := Inf False, bc_body_height_mm := Fin 150, bc_height_rate_override_mm_per_s := Inf False \<rparr>"

theorem shaper_bounded_witness:
  "let s = fold shaper_op_step [ShaperReset (Fin 100)] BodyCommandShaper_new; s' = shaper_update shaper_sample 4000 s
   in twist_within (sh_limits s) (sh_current s') \<and> sh_mode s = AccelLimited \<and>
      rates_kept (sh_limits s) 50 (clampDesired (sh_limits s) shaper_sample) (sh_current s) (sh_current s')"
proof -
  have ok: "list_all shaper_op_ok [ShaperReset (Fin 100)]" "desired_ok shaper_sample" by code_simp+
  have "sh_mode (fold shaper_op_step [ShaperReset (Fin 100)] BodyCommandShaper_new) = AccelLimited" by code_simp
  then show ?thesis using shaper_bounded [OF ok refl refl, of 4000] by (simp add: Let_def)
qed

end
