(* ===== verification/GaitEngine.thy ===== *)
theory GaitEngine
  imports BodyCommandShaper Runs
begin

text \<open>
  The gait engine (\<open>gait/gait_engine.h\<close>, \<open>gait/gait_engine.cpp\<close>): keyframe gaits with filtered shape
  parameters. The phase wrap is a loop on floating-point values, so it is a partial function;
  \<open>None\<close> is a loop that does not end or a conversion that is undefined. Shown here: in every state
  the controller can reach an update returns, its feet stand at their home positions or stay in their
  footprints, and every gait keeps its number of feet on the ground.
\<close>

section \<open>Data\<close>

definition kMaxStrideMm :: f32 where "kMaxStrideMm = f_lit 80"
definition kMaxStepMm :: f32 where "kMaxStepMm = f_lit 50"
definition kMinFootZMm :: f32 where "kMinFootZMm = f_lit (- 158)"
definition kMaxFootZMm :: f32 where "kMaxFootZMm = f_lit (- 15)"
definition kSitFootZMm :: f32 where "kSitFootZMm = f_lit (- 60)"
definition kStrokeEnvelopeFrac :: f32 where "kStrokeEnvelopeFrac = f_lit (1 / 2)"
definition kMaxLegRadiusMm :: f32 where "kMaxLegRadiusMm = f_lit (2573 / 10)"
definition kMinStepPeriodMs :: f32 where "kMinStepPeriodMs = f_lit 60"
definition kNeutralStepPeriodMs :: f32 where "kNeutralStepPeriodMs = f_lit 80"
definition kMaxStepPeriodMs :: f32 where "kMaxStepPeriodMs = f_lit 120"
definition kTwistParkPos :: f32 where "kTwistParkPos = f_lit (3 / 100)"
definition kParamFilterTau :: f32 where "kParamFilterTau = f_lit (1 / 4)"
definition kMotionDeadband :: f32 where "kMotionDeadband = f_lit (3 / 100)"
definition kRcBodyHeightMinMm :: f32 where "kRcBodyHeightMinMm = f_lit 65"
definition kRcBodyHeightNeutralMm :: f32 where "kRcBodyHeightNeutralMm = f_lit 132"
definition kRcBodyHeightMaxMm :: f32 where "kRcBodyHeightMaxMm = f_lit 150"

definition rcBodyHeightMm :: "f32 \<Rightarrow> f32" where
  "rcBodyHeightMm f =
     (let f = (if f_lt f (Fin 0) then Fin 0 else f);
          f = (if f_lt (f_lit 1) f then f_lit 1 else f)
      in if f_lt f (f_lit (1 / 2))
         then f_sub kRcBodyHeightNeutralMm
                (f_mul (f_mul (f_sub (f_lit (1 / 2)) f) (f_lit 2)) (f_sub kRcBodyHeightNeutralMm kRcBodyHeightMinMm))
         else f_add kRcBodyHeightNeutralMm
                (f_mul (f_mul (f_sub f (f_lit (1 / 2))) (f_lit 2)) (f_sub kRcBodyHeightMaxMm kRcBodyHeightNeutralMm)))"

record BodyTwist =
  tw_vx :: f32
  tw_vy :: f32
  tw_wz :: f32

record FootTarget =
  ft_x_mm :: f32
  ft_y_mm :: f32
  ft_z_mm :: f32
  ft_swing :: bool

definition foot_of :: "point \<Rightarrow> bool \<Rightarrow> FootTarget" where
  "foot_of p swing = (let (x, y, z) = p in \<lparr> ft_x_mm = x, ft_y_mm = y, ft_z_mm = z, ft_swing = swing \<rparr>)"

definition kHomeFootXy :: "(f32 \<times> f32) list" where
  "kHomeFootXy =
     [(f_lit (- 1552 / 10), f_lit (- 2052 / 10)), (f_lit (1552 / 10), f_lit (- 2052 / 10)), (f_lit (1965 / 10), f_lit 0),
      (f_lit (1552 / 10), f_lit (2052 / 10)), (f_lit (- 1552 / 10), f_lit (2052 / 10)), (f_lit (- 1965 / 10), f_lit 0)]"

record MarkIiiGait =
  mg_steps :: nat
  mg_travel_divisor :: nat
  mg_origin :: "nat list"

definition kTripod :: MarkIiiGait where
  "kTripod = \<lparr> mg_steps = 8, mg_travel_divisor = 4, mg_origin = [5, 1, 5, 1, 5, 1] \<rparr>"
definition kRipple :: MarkIiiGait where
  "kRipple = \<lparr> mg_steps = 12, mg_travel_divisor = 8, mg_origin = [1, 7, 11, 3, 9, 5] \<rparr>"
definition kWave :: MarkIiiGait where
  "kWave = \<lparr> mg_steps = 24, mg_travel_divisor = 20, mg_origin = [1, 13, 17, 21, 9, 5] \<rparr>"

text \<open>A gait is kept as its code: a cast from an arbitrary byte is a legal value of the enum type.\<close>

definition gaitDefinition :: "u8 \<Rightarrow> MarkIiiGait" where
  "gaitDefinition g = (if g = gaitCode Tripod then kTripod else if g = gaitCode Ripple then kRipple else kWave)"

definition keyframe :: "MarkIiiGait \<Rightarrow> nat \<Rightarrow> nat \<Rightarrow> f32 \<times> f32" where
  "keyframe g leg gait_step =
     (let relative = (gait_step + mg_steps g - mg_origin g ! leg) mod mg_steps g in
      if relative = 0 then (Fin 0, f_lit 1)
      else if relative = 1 then (f_lit (1 / 2), f_lit (1 / 2))
      else if relative = 2 then (f_lit (1 / 2), Fin 0)
      else if relative = mg_steps g - 1 then (f_lit (- 1 / 2), f_lit (1 / 2))
      else (f_sub (f_lit (1 / 2)) (f_div (f_of_int (int relative - 2)) (f_of_int (int (mg_travel_divisor g)))), Fin 0))"

definition minimumGaitDuty :: "u8 \<Rightarrow> f32" where
  "minimumGaitDuty g =
     (if g = gaitCode Tripod then f_div (f_lit 5) (f_lit 8)
      else if g = gaitCode Ripple then f_div (f_lit 9) (f_lit 12)
      else if g = gaitCode Wave \<or> g = gaitCode Crawl then f_div (f_lit 21) (f_lit 24) else f_lit 1)"

record GaitEngine =
  ge_gait :: u8
  ge_phase :: f32
  ge_gait_step_phase :: f32
  ge_stride_mm :: f32
  ge_step_mm :: f32
  ge_body_height_mm :: f32
  ge_speed :: f32
  ge_stride_target :: f32
  ge_step_target :: f32
  ge_height_target :: f32
  ge_speed_target :: f32
  ge_params_seeded :: bool
  ge_twist :: BodyTwist

definition GaitEngine_new :: GaitEngine where
  "GaitEngine_new = \<lparr> ge_gait = gaitCode Stand, ge_phase = Fin 0, ge_gait_step_phase = Fin 0, ge_stride_mm = f_lit 60,
     ge_step_mm = f_lit 30, ge_body_height_mm = f_lit 132, ge_speed = f_lit (1 / 2), ge_stride_target = f_lit 60,
     ge_step_target = f_lit 30, ge_height_target = f_lit 132, ge_speed_target = f_lit (1 / 2), ge_params_seeded = False,
     ge_twist = \<lparr> tw_vx = Fin 0, tw_vy = Fin 0, tw_wz = Fin 0 \<rparr> \<rparr>"

section \<open>Operations\<close>

definition gait_configure :: "GaitDefaults \<Rightarrow> GaitEngine \<Rightarrow> GaitEngine" where
  "gait_configure d e =
     (let e = e \<lparr> ge_gait := gait_id d,
                ge_stride_target := f_clamp (f_of_int (uint (stride_len_mm d))) (Fin 0) kMaxStrideMm,
                ge_step_target := f_clamp (f_of_int (uint (step_height_mm d))) (Fin 0) kMaxStepMm,
                ge_height_target := f_of_int (uint (body_height_mm d)),
                ge_speed_target := f_clamp (f_div (f_of_int (uint (speed_x255 d))) (f_lit 255)) (Fin 0) (f_lit 1) \<rparr>
      in if ge_params_seeded e then e
         else e \<lparr> ge_stride_mm := ge_stride_target e, ge_step_mm := ge_step_target e, ge_body_height_mm := ge_height_target e,
                ge_speed := ge_speed_target e, ge_params_seeded := True \<rparr>)"

definition gait_setGait :: "GaitId \<Rightarrow> GaitEngine \<Rightarrow> GaitEngine" where
  "gait_setGait g e = e \<lparr> ge_gait := gaitCode g \<rparr>"

definition twist_component :: "f32 \<Rightarrow> f32" where
  "twist_component v = (let v = f_clamp v (f_lit (- 1)) (f_lit 1) in if f_le (fabsf v) kMotionDeadband then Fin 0 else v)"

definition gait_setTwist :: "BodyTwist \<Rightarrow> GaitEngine \<Rightarrow> GaitEngine" where
  "gait_setTwist t e = e \<lparr> ge_twist := \<lparr> tw_vx = twist_component (tw_vx t), tw_vy = twist_component (tw_vy t),
     tw_wz = twist_component (tw_wz t) \<rparr> \<rparr>"

definition gait_reset :: "GaitEngine \<Rightarrow> GaitEngine" where
  "gait_reset e = e \<lparr> ge_phase := Fin 0, ge_gait_step_phase := Fin 0 \<rparr>"

definition dutyFactor :: "GaitEngine \<Rightarrow> f32" where
  "dutyFactor e = minimumGaitDuty (ge_gait e)"

definition homeFoot :: "GaitEngine \<Rightarrow> nat \<Rightarrow> point" where
  "homeFoot e leg = (fst (kHomeFootXy ! leg), snd (kHomeFootXy ! leg), f_neg (ge_body_height_mm e))"

definition footAt :: "libm \<Rightarrow> GaitEngine \<Rightarrow> nat \<Rightarrow> f32 \<Rightarrow> f32 \<Rightarrow> point" where
  "footAt m e leg longitudinal lift_fraction =
     (let (home_x, home_y, home_z) = homeFoot e leg; t = ge_twist e;
          yaw_ratio = f_clamp (f_div (ge_stride_mm e) (f_mul (f_lit 2) kMaxLegRadiusMm)) (Fin 0) (f_lit 1);
          yaw_travel = f_mul (f_lit 2) (lm_asinf m yaw_ratio);
          yaw = f_mul (f_mul (tw_wz t) yaw_travel) longitudinal;
          cosine = lm_cosf m yaw; sine = lm_sinf m yaw
      in (f_add (f_sub (f_mul home_x cosine) (f_mul home_y sine)) (f_mul (f_mul (tw_vx t) (ge_stride_mm e)) longitudinal),
          f_add (f_add (f_mul home_x sine) (f_mul home_y cosine)) (f_mul (f_mul (tw_vy t) (ge_stride_mm e)) longitudinal),
          f_clamp (f_add home_z (f_mul (ge_step_mm e) (f_clamp lift_fraction (Fin 0) (f_lit 1)))) kMinFootZMm kMaxFootZMm))"

definition motionEnvelopeFoot :: "libm \<Rightarrow> GaitEngine \<Rightarrow> nat \<Rightarrow> f32 \<Rightarrow> f32 \<Rightarrow> point" where
  "motionEnvelopeFoot m e leg longitudinal lift_fraction = footAt m e leg longitudinal lift_fraction"

definition kPreviewPi :: f32 where "kPreviewPi = f_lit (314159265 / 100000000)"

definition previewFoot :: "libm \<Rightarrow> GaitEngine \<Rightarrow> nat \<Rightarrow> f32 \<Rightarrow> point" where
  "previewFoot m e leg phase =
     (let (home_x, home_y, home_z) = homeFoot e leg; phase = f_sub phase (floorf phase);
          (longitudinal, lift) =
            (if f_lt phase (f_lit (1 / 2))
             then let u = f_mul phase (f_lit 2) in (f_add (f_lit (- 1 / 2)) u, lm_sinf m (f_mul kPreviewPi u))
             else let u = f_mul (f_sub phase (f_lit (1 / 2))) (f_lit 2) in (f_sub (f_lit (1 / 2)) u, Fin 0))
      in (home_x, f_add home_y (f_mul (ge_stride_mm e) longitudinal),
          f_clamp (f_add home_z (f_mul (ge_step_mm e) lift)) kMinFootZMm kMaxFootZMm))"

definition kNeutralSpeed :: f32 where "kNeutralSpeed = f_div (f_lit 128) (f_lit 255)"

definition stepPeriodMs :: "f32 \<Rightarrow> f32" where
  "stepPeriodMs speed =
     (if f_le speed kNeutralSpeed
      then f_sub kMaxStepPeriodMs (f_mul (f_sub kMaxStepPeriodMs kNeutralStepPeriodMs) (f_div speed kNeutralSpeed))
      else f_sub kNeutralStepPeriodMs (f_mul (f_sub kNeutralStepPeriodMs kMinStepPeriodMs)
             (f_div (f_sub speed kNeutralSpeed) (f_sub (f_lit 1) kNeutralSpeed))))"

text \<open>The phase wrap, \<open>while (phase >= steps) phase -= steps\<close>.\<close>

partial_function (option) phase_wrap :: "f32 \<Rightarrow> f32 \<Rightarrow> f32 option" where
  "phase_wrap steps phase = (if f_le steps phase then phase_wrap steps (f_sub phase steps) else Some phase)"

declare phase_wrap.simps [code]

definition filter_gain :: "u32 \<Rightarrow> f32 \<Rightarrow> f32" where
  "filter_gain dt_ms tau =
     (let dt_s = f_div (f_of_int (uint dt_ms)) (f_lit 1000) in if f_le tau dt_s then f_lit 1 else f_div dt_s tau)"

definition filter_toward :: "f32 \<Rightarrow> f32 \<Rightarrow> f32 \<Rightarrow> f32" where
  "filter_toward target k v = f_add v (f_mul (f_sub target v) k)"

definition advance_params :: "u32 \<Rightarrow> GaitEngine \<Rightarrow> GaitEngine" where
  "advance_params dt_ms e =
     (let pk = filter_gain dt_ms kParamFilterTau
      in e \<lparr> ge_stride_mm := filter_toward (ge_stride_target e) pk (ge_stride_mm e),
             ge_step_mm := filter_toward (ge_step_target e) pk (ge_step_mm e),
             ge_body_height_mm := filter_toward (ge_height_target e) pk (ge_body_height_mm e),
             ge_speed := filter_toward (ge_speed_target e) pk (ge_speed e) \<rparr>)"

definition park_twist :: "GaitEngine \<Rightarrow> GaitEngine" where
  "park_twist e =
     (let t = ge_twist e in
      if f_lt (fabsf (tw_vx t)) kTwistParkPos \<and> f_lt (fabsf (tw_vy t)) kTwistParkPos \<and> f_lt (fabsf (tw_wz t)) kTwistParkPos
      then e \<lparr> ge_twist := \<lparr> tw_vx = Fin 0, tw_vy = Fin 0, tw_wz = Fin 0 \<rparr> \<rparr> else e)"

definition gait_foot :: "libm \<Rightarrow> GaitEngine \<Rightarrow> MarkIiiGait \<Rightarrow> nat \<Rightarrow> nat \<Rightarrow> f32 \<Rightarrow> nat \<Rightarrow> FootTarget" where
  "gait_foot m e g current_step next_step interpolation leg =
     (let (current_longitudinal, current_lift) = keyframe g leg current_step;
          (next_longitudinal, next_lift) = keyframe g leg next_step;
          longitudinal = f_add current_longitudinal (f_mul (f_sub next_longitudinal current_longitudinal) interpolation);
          lift = f_add current_lift (f_mul (f_sub next_lift current_lift) interpolation)
      in foot_of (footAt m e leg longitudinal lift) (f_lt (f_lit (1 / 10000)) lift))"

definition gait_update :: "libm \<Rightarrow> u32 \<Rightarrow> GaitEngine \<Rightarrow> (FootTarget list \<times> GaitEngine) option" where
  "gait_update m dt_ms e0 =
     (let e = advance_params dt_ms e0 in
      if ge_gait e = gaitCode Stand \<or> ge_gait e = gaitCode Sit then
        Some (map (\<lambda>leg. let (hx, hy, hz) = homeFoot e leg
                in foot_of (hx, hy, if ge_gait e = gaitCode Sit then kSitFootZMm else hz) False) [0..<kNumLegs], e)
      else
        let e = park_twist e; t = ge_twist e;
            command_scale = fmaxf (fabsf (tw_vx t)) (fmaxf (fabsf (tw_vy t)) (fabsf (tw_wz t))) in
        if f_le command_scale (Fin 0) then Some (map (\<lambda>leg. foot_of (homeFoot e leg) False) [0..<kNumLegs], e)
        else
          let g = gaitDefinition (ge_gait e); steps = f_of_int (int (mg_steps g)) in
          case phase_wrap steps (f_add (ge_gait_step_phase e) (f_div (f_of_int (uint dt_ms)) (stepPeriodMs (ge_speed e)))) of
            None \<Rightarrow> None
          | Some sp \<Rightarrow>
              (case f_cast 0 255 (floorf sp) of
                 None \<Rightarrow> None
               | Some n \<Rightarrow>
                   let e = e \<lparr> ge_gait_step_phase := sp, ge_phase := f_div sp steps \<rparr>;
                       current_step = (nat n + 1) mod 256;
                       next_step = (if current_step = mg_steps g then 1 else (current_step + 1) mod 256);
                       interpolation = f_sub sp (floorf sp)
                   in Some (map (gait_foot m e g current_step next_step interpolation) [0..<kNumLegs], e)))"

section \<open>Filtered parameters stay in their ranges\<close>

lemma gain_unit:
  assumes "0 < tau"
  shows "f_in 0 1 (filter_gain dt (Fin tau))"
proof -
  have u: "uint dt < 4294967296" "0 \<le> uint dt" using uint_bounded [of dt] by simp_all
  define n where "n = uint dt"
  have n: "0 \<le> (of_int n :: rat)" "(of_int n :: rat) \<le> of_int 4294967296" using u unfolding n_def of_int_le_iff by simp_all
  define d :: rat where "d = rnd32 (rnd32 (of_int n) / 1000)"
  have r: "0 \<le> rnd32 (of_int n :: rat)" using n(1) by (rule rnd32_nonneg)
  have "rnd32 (of_int n :: rat) \<le> rnd32 (of_int 4294967296)" by (rule rnd32_mono [OF n(2)])
  moreover have "rnd32 (of_int 4294967296) = 4294967296" by code_simp
  ultimately have r2: "rnd32 (of_int n :: rat) \<le> 4294967296" by simp
  have "f_of_int n = Fin (rnd32 (of_int n))" using n unfolding f_of_int_def by (intro f_round_small) simp
  moreover have "f_lit 1000 = Fin 1000" by code_simp
  ultimately have dt: "f_div (f_of_int n) (f_lit 1000) = Fin d" using r r2 by (simp add: f_round_small d_def)
  have d: "0 \<le> d" using r by (simp add: d_def rnd32_nonneg)
  show ?thesis
  proof (cases "tau \<le> d")
    case True
    then show ?thesis using dt by (auto simp: filter_gain_def n_def f_le_def)
  next
    case False
    then have "f_rng 0 1 (f_round (d / tau))" using d assms by (intro f_rng_round) simp_all
    then show ?thesis using dt False assms by (simp add: filter_gain_def n_def f_le_def f_rng_in)
  qed
qed

lemma filter_ranges:
  assumes "f_in 0 1 k"
  shows "f_rng 0 80 t \<Longrightarrow> f_rng 0 80 v \<Longrightarrow> f_rng 0 80 (filter_toward t k v)"
    and "f_rng 0 50 t \<Longrightarrow> f_rng 0 50 v \<Longrightarrow> f_rng 0 50 (filter_toward t k v)"
    and "f_rng 0 65535 t \<Longrightarrow> f_rng 0 65535 v \<Longrightarrow> f_rng 0 65535 (filter_toward t k v)"
    and "f_unit 0 t \<Longrightarrow> f_unit 0 v \<Longrightarrow> f_unit 0 (filter_toward t k v)"
proof -
  have a: "(80 :: rat) < 2 powi 7" "rnd32 (80 + 2 powi (7 - 25)) = 80" by code_simp+
  have b: "(50 :: rat) < 2 powi 6" "rnd32 (50 + 2 powi (6 - 25)) = 50" by code_simp+
  have c: "(65535 :: rat) < 2 powi 16" "rnd32 (65535 + 2 powi (16 - 25)) = 65535" by code_simp+
  show "f_rng 0 80 t \<Longrightarrow> f_rng 0 80 v \<Longrightarrow> f_rng 0 80 (filter_toward t k v)"
    unfolding filter_toward_def by (rule filter_step_pos [OF _ _ assms a(1) _ a(2)]) simp_all
  show "f_rng 0 50 t \<Longrightarrow> f_rng 0 50 v \<Longrightarrow> f_rng 0 50 (filter_toward t k v)"
    unfolding filter_toward_def by (rule filter_step_pos [OF _ _ assms b(1) _ b(2)]) simp_all
  show "f_rng 0 65535 t \<Longrightarrow> f_rng 0 65535 v \<Longrightarrow> f_rng 0 65535 (filter_toward t k v)"
    unfolding filter_toward_def by (rule filter_step_pos [OF _ _ assms c(1) _ c(2)]) simp_all
  show "f_unit 0 t \<Longrightarrow> f_unit 0 v \<Longrightarrow> f_unit 0 (filter_toward t k v)"
    unfolding filter_toward_def by (rule filter_step [OF _ _ _ assms]) simp_all
qed

definition params_ok :: "GaitEngine \<Rightarrow> bool" where
  "params_ok e \<longleftrightarrow> f_rng 0 80 (ge_stride_mm e) \<and> f_rng 0 80 (ge_stride_target e) \<and> f_rng 0 50 (ge_step_mm e) \<and>
     f_rng 0 50 (ge_step_target e) \<and> f_rng 0 65535 (ge_body_height_mm e) \<and> f_rng 0 65535 (ge_height_target e) \<and>
     f_unit 0 (ge_speed e) \<and> f_unit 0 (ge_speed_target e)"

definition gait_inv :: "GaitEngine \<Rightarrow> bool" where
  "gait_inv e \<longleftrightarrow> params_ok e \<and> f_rng 0 24 (ge_gait_step_phase e)"

lemma params_ok_advance: "params_ok e \<Longrightarrow> params_ok (advance_params dt e)"
proof -
  have "kParamFilterTau = Fin (1 / 4)" by code_simp
  then have "f_in 0 1 (filter_gain dt kParamFilterTau)" using gain_unit [of "1 / 4" dt] by simp
  then show "params_ok e \<Longrightarrow> params_ok (advance_params dt e)"
    by (simp add: params_ok_def advance_params_def Let_def filter_ranges)
qed

lemma u16_range: "f_rng 0 65535 (f_of_int (uint (v :: u16)))"
proof -
  have "rnd32 (of_int (uint v)) = of_int (uint v)" using u16_int [of v] by (intro rnd32_of_int) simp
  then show ?thesis using u16_rat [of v] by (simp add: f_of_u16 f_rngI)
qed

lemma f_rng_rep: "f_rng lo hi v \<Longrightarrow> v \<noteq> NaN \<and> f_rep v"
  by (auto simp: f_rng_def f_in_not_NaN)

lemma u8_ratio: "f_unit 0 (f_clamp (f_div (f_of_int (uint (v :: u8))) (f_lit 255)) (Fin 0) (Fin 1))"
proof -
  have u: "uint v < 256" "0 \<le> uint v" using uint_bounded [of v] by simp_all
  then have "f_of_int (uint v) = Fin (of_int (uint v))" by (intro f_of_int_exact) simp
  moreover have "f_lit 255 = Fin 255" by code_simp
  ultimately have "f_div (f_of_int (uint v)) (f_lit 255) = f_round (of_int (uint v) / 255)" by simp
  then show ?thesis by (simp add: f_clamp_unit)
qed

lemma params_ok_configure: "params_ok e \<Longrightarrow> params_ok (gait_configure d e)"
proof -
  have k: "kMaxStrideMm = Fin 80" "kMaxStepMm = Fin 50" by code_simp+
  have r: "rnd32 80 = 80" "rnd32 50 = 50" using rnd32_of_int [of 80] rnd32_of_int [of 50] by simp_all
  have "f_rng 0 80 (f_clamp (f_of_int (uint w)) (Fin 0) kMaxStrideMm)" "f_rng 0 50 (f_clamp (f_of_int (uint w)) (Fin 0) kMaxStepMm)"
    for w :: u16 using f_rng_rep [OF u16_range [of w]] by (simp_all add: k f_rng_clamp r)
  then show "params_ok e \<Longrightarrow> params_ok (gait_configure d e)"
    by (simp add: params_ok_def gait_configure_def Let_def u16_range u8_ratio)
qed

section \<open>The phase wrap ends\<close>

lemma phase_wrap_ends:
  assumes "8 \<le> s" "s \<le> 24" "rnd32 s = s"
  shows "0 \<le> x \<Longrightarrow> x < of_nat n \<Longrightarrow> x \<le> 64 \<Longrightarrow> rnd32 x = x \<Longrightarrow>
         \<exists>r. phase_wrap (Fin s) (Fin x) = Some (Fin r) \<and> 0 \<le> r \<and> r < s \<and> rnd32 r = r"
proof (induction n arbitrary: x)
  case (Suc n)
  show ?case
  proof (cases "s \<le> x")
    case True
    define y where "y = rnd32 (x - s)"
    have "\<bar>y - (x - s)\<bar> \<le> 64 / 2 ^ 23" unfolding y_def using Suc.prems(3) True assms(1) by (intro rnd32_error) simp_all
    moreover have "(64 / 2 ^ 23 :: rat) \<le> 1" by simp
    ultimately have "y \<le> x - s + 1" by linarith
    then have "y < of_nat n" using Suc.prems(2) assms(1) by simp
    moreover have "0 \<le> y" using True by (simp add: y_def rnd32_nonneg)
    moreover have "y \<le> rnd32 x" unfolding y_def using assms(1) by (intro rnd32_mono) simp
    ultimately obtain r where "phase_wrap (Fin s) (Fin y) = Some (Fin r)" "0 \<le> r" "r < s" "rnd32 r = r"
      using Suc.IH [of y] Suc.prems(3,4) by (auto simp: y_def)
    moreover have "f_sub (Fin x) (Fin s) = Fin y" using Suc.prems(1,3) assms(1,2) by (simp add: f_sub_def y_def f_round_small)
    ultimately show ?thesis using True by (subst phase_wrap.simps) (simp add: f_le_def less_le_not_le)
  next
    case False
    then show ?thesis using Suc.prems by (subst phase_wrap.simps) (simp add: f_le_def)
  qed
qed simp

lemma f_sub_range:
  assumes "f_rng lo hi u" "f_rng lo' hi' v" and "rnd32 (lo - hi') = lo - hi'" "rnd32 (hi - lo') = hi - lo'"
    and "- (2 ^ 40) \<le> lo - hi'" "hi - lo' \<le> 2 ^ 40"
  shows "f_rng (lo - hi') (hi - lo') (f_sub u v)"
proof -
  obtain a where a: "u = Fin a" "lo \<le> a" "a \<le> hi" using assms(1) by (rule f_rngE)
  obtain b where b: "v = Fin b" "lo' \<le> b" "b \<le> hi'" using assms(2) by (rule f_rngE)
  have "f_rng (lo - hi') (hi - lo') (f_round (a - b))" using a b assms(3-6) by (intro f_rng_round) simp_all
  then show ?thesis by (simp add: a(1) b(1) f_sub_def)
qed

lemma f_scale_range:
  assumes "f_rng 0 1 v" "0 \<le> c" "rnd32 c = c" "c \<le> 2 ^ 40"
  shows "f_rng 0 c (f_mul (Fin c) v)"
proof -
  obtain a where a: "v = Fin a" "0 \<le> a" "a \<le> 1" using assms(1) by (rule f_rngE)
  have "f_rng 0 c (f_round (c * a))" using a assms by (intro f_rng_round) (simp_all add: mult_left_le)
  then show ?thesis by (simp add: a(1))
qed

lemma f_ratio_range:
  assumes "0 \<le> a" "a \<le> b" "0 < b"
  shows "f_rng 0 1 (f_div (Fin a) (Fin b))"
  using f_rng_round [of 0 "a / b" 1] assms by simp

lemma stepPeriod_range:
  assumes "f_unit 0 v"
  shows "f_rng 60 120 (stepPeriodMs v)"
proof -
  obtain a where a: "v = Fin a" "0 \<le> a" "a \<le> 1" using assms by (rule f_unitE)
  obtain n where n: "kNeutralSpeed = Fin n" "0 < n" "n < 1"
  proof -
    have "kNeutralSpeed = Fin (rnd32 (128 / 255))" "0 < rnd32 (128 / 255)" "rnd32 (128 / 255) < 1" by code_simp+
    then show thesis using that by blast
  qed
  have c: "kMaxStepPeriodMs = Fin 120" "kNeutralStepPeriodMs = Fin 80" "f_sub kMaxStepPeriodMs kNeutralStepPeriodMs = Fin 40"
    "f_sub kNeutralStepPeriodMs kMinStepPeriodMs = Fin 20" by code_simp+
  have r: "rnd32 120 = 120" "rnd32 80 = 80" "rnd32 40 = 40" "rnd32 20 = 20" "rnd32 60 = 60" by code_simp+
  have f: "f_rng 120 120 (Fin 120)" "f_rng 80 80 (Fin 80)" using r by (simp_all add: f_rngI)
  show ?thesis
  proof (cases "a \<le> n")
    case True
    have "f_rng 0 40 (f_mul (Fin 40) (f_div v kNeutralSpeed))"
      using f_scale_range [OF f_ratio_range [OF a(2) True n(2)], of 40] r a(1) n(1) by simp
    from f_sub_range [OF f(1) this] have "f_rng 80 120 (f_sub (Fin 120) (f_mul (Fin 40) (f_div v kNeutralSpeed)))"
      using r by simp
    moreover have "f_le v kNeutralSpeed" using True by (auto simp: a(1) n(1) f_le_def)
    ultimately show ?thesis unfolding stepPeriodMs_def c(3,4) unfolding c(1,2) by (simp add: f_rng_mono)
  next
    case False
    define d w where "d = rnd32 (a - n)" and "w = rnd32 (1 - n)"
    have d: "0 \<le> d" "d \<le> w" using False a(3) by (simp_all add: d_def w_def rnd32_nonneg rnd32_mono)
    have "\<bar>a - n\<bar> \<le> 1" "\<bar>1 - n\<bar> \<le> 1" using False a n by simp_all
    then have s: "f_sub v kNeutralSpeed = Fin d" "f_sub (f_lit 1) kNeutralSpeed = Fin w"
      by (simp_all add: a(1) n(1) f_sub_def d_def w_def f_round_small)
    have "0 < w"
    proof -
      have "Fin w = f_sub (f_lit 1) kNeutralSpeed" using s by simp
      also have "\<dots> = Fin (rnd32 (1 - rnd32 (128 / 255)))" by code_simp
      finally have "w = rnd32 (1 - rnd32 (128 / 255))" by simp
      moreover have "0 < rnd32 (1 - rnd32 (128 / 255))" by code_simp
      ultimately show ?thesis by simp
    qed
    then have "f_rng 0 20 (f_mul (Fin 20) (f_div (f_sub v kNeutralSpeed) (f_sub (f_lit 1) kNeutralSpeed)))"
      using f_scale_range [OF f_ratio_range [OF d], of 20] r s by simp
    from f_sub_range [OF f(2) this] have "f_rng 60 80 (f_sub (Fin 80) (f_mul (Fin 20)
      (f_div (f_sub v kNeutralSpeed) (f_sub (f_lit 1) kNeutralSpeed))))" using r by simp
    moreover have "\<not> f_le v kNeutralSpeed" using False by (auto simp: a(1) n(1) f_le_def)
    ultimately show ?thesis unfolding stepPeriodMs_def c(3,4) unfolding c(1,2) by (simp add: f_rng_mono)
  qed
qed

lemma phase_advance_range:
  assumes "f_rng 0 24 p" "f_rng 60 120 period" "dt \<le> (1000 :: u32)"
  shows "f_rng 0 41 (f_add p (f_div (f_of_int (uint dt)) period))"
proof -
  obtain x where x: "p = Fin x" "0 \<le> x" "x \<le> 24" using assms(1) by (rule f_rngE)
  obtain y where y: "period = Fin y" "60 \<le> y" "y \<le> 120" using assms(2) by (rule f_rngE)
  define n where "n = uint dt"
  have "n \<le> 1000" "0 \<le> n" using assms(3) uint_bounded [of dt] by (simp_all add: n_def word_le_def)
  then have n: "f_of_int n = Fin (of_int n)" "0 \<le> (of_int n :: rat)" "(of_int n :: rat) \<le> 1000"
    by (simp_all add: f_of_int_exact)
  have r: "rnd32 17 = 17" "rnd32 41 = 41" by code_simp+
  have "of_int n / y \<le> 1000 / 60" using n y by (intro frac_le) simp_all
  then have "of_int n / y \<le> 17" by (rule order_trans) simp
  then have "f_rng 0 17 (f_round (of_int n / y))" using n y r by (intro f_rng_round) simp_all
  then obtain z where z: "f_div (f_of_int n) period = Fin z" "0 \<le> z" "z \<le> 17" using n y by (auto elim!: f_rngE)
  have "f_rng 0 41 (f_round (x + z))" using x z r by (intro f_rng_round) simp_all
  then show ?thesis using x(1) z(1) by (simp add: n_def)
qed

lemma gait_steps: "mg_steps (gaitDefinition g) \<in> {8, 12, 24}"
  by (simp add: gaitDefinition_def kTripod_def kRipple_def kWave_def)

lemma phase_step:
  assumes "gait_inv e" "dt \<le> (1000 :: u32)"
  obtains r n where "phase_wrap (f_of_int (int (mg_steps (gaitDefinition g))))
      (f_add (ge_gait_step_phase e) (f_div (f_of_int (uint dt)) (stepPeriodMs (ge_speed e)))) = Some (Fin r)"
    "0 \<le> r" "rnd32 r = r" "n < mg_steps (gaitDefinition g)" "f_cast 0 255 (floorf (Fin r)) = Some (int n)" "r < of_nat (mg_steps (gaitDefinition g))"
proof -
  define s where "s = mg_steps (gaitDefinition g)"
  have s: "8 \<le> s" "s \<le> 24" using gait_steps [of g] by (auto simp: s_def)
  have fs: "f_of_int (int s) = Fin (of_nat s)" using s f_of_int_exact [of "int s"] by simp
  have "rnd32 (of_nat s) = of_nat s" using s rnd32_of_int [of "int s"] by simp
  note wrap = phase_wrap_ends [of "of_nat s", OF _ _ this, simplified, OF s]
  obtain x where x: "f_add (ge_gait_step_phase e) (f_div (f_of_int (uint dt)) (stepPeriodMs (ge_speed e))) = Fin x"
    "0 \<le> x" "x \<le> 41" "rnd32 x = x"
    using phase_advance_range [OF _ stepPeriod_range assms(2), of "ge_gait_step_phase e" "ge_speed e"] assms(1)
    by (auto simp: gait_inv_def params_ok_def elim: f_rngE)
  obtain r where r: "phase_wrap (Fin (of_nat s)) (Fin x) = Some (Fin r)" "0 \<le> r" "r < of_nat s" "rnd32 r = r"
    using wrap [of x 42] x by auto
  have "0 \<le> \<lfloor>r\<rfloor>" "\<lfloor>r\<rfloor> < int s" using r(2,3) by (simp_all add: floor_less_iff)
  moreover have "\<lfloor>r\<rfloor> \<le> 255" using calculation(2) s(2) by linarith
  ultimately have "f_cast 0 255 (floorf (Fin r)) = Some (int (nat \<lfloor>r\<rfloor>))" "nat \<lfloor>r\<rfloor> < s"
    by (auto simp: f_cast_def nat_less_iff)
  then show thesis using that r x(1) fs by (simp add: s_def)
qed

section \<open>Support\<close>

definition lifted :: "MarkIiiGait \<Rightarrow> nat \<Rightarrow> nat \<Rightarrow> bool" where
  "lifted g k leg \<longleftrightarrow> (k + mg_steps g - mg_origin g ! leg) mod mg_steps g \<in> {0, 1, mg_steps g - 1}"

definition next_key :: "MarkIiiGait \<Rightarrow> nat \<Rightarrow> nat" where
  "next_key g k = (if k = mg_steps g then 1 else k + 1)"

definition lifted_count :: "MarkIiiGait \<Rightarrow> nat \<Rightarrow> nat" where
  "lifted_count g k = length (filter (\<lambda>leg. lifted g k leg \<or> lifted g (next_key g k) leg) [0..<kNumLegs])"

definition max_lifted :: "u8 \<Rightarrow> nat" where
  "max_lifted g = (if g = gaitCode Stand \<or> g = gaitCode Sit then 0 else if g = gaitCode Tripod then 3
     else if g = gaitCode Ripple then 2 else 1)"

lemma lifted_tables:
  "list_all (\<lambda>k. lifted_count kTripod k \<le> 3) [1..<9]" "list_all (\<lambda>k. lifted_count kRipple k \<le> 2) [1..<13]"
  "list_all (\<lambda>k. lifted_count kWave k \<le> 1) [1..<25]"
  by code_simp+

lemma lifted_count_le:
  assumes "g \<noteq> gaitCode Stand" "g \<noteq> gaitCode Sit" "1 \<le> k" "k \<le> mg_steps (gaitDefinition g)"
  shows "lifted_count (gaitDefinition g) k \<le> max_lifted g"
proof -
  consider "g = gaitCode Tripod" | "g = gaitCode Ripple" | "g \<noteq> gaitCode Tripod" "g \<noteq> gaitCode Ripple" by blast
  then show ?thesis
  proof cases
    case 1
    then have "k \<in> set [1..<9]" using assms(3,4) by (simp add: gaitDefinition_def kTripod_def)
    then have "lifted_count kTripod k \<le> 3" using lifted_tables(1) unfolding list_all_iff by blast
    then show ?thesis using 1 by (simp add: gaitDefinition_def max_lifted_def)
  next
    case 2
    then have "k \<in> set [1..<13]" using assms(3,4) by (simp add: gaitDefinition_def kRipple_def)
    then have "lifted_count kRipple k \<le> 2" using lifted_tables(2) unfolding list_all_iff by blast
    then show ?thesis using 2 by (simp add: gaitDefinition_def max_lifted_def)
  next
    case 3
    then have "k \<in> set [1..<25]" using assms(3,4) by (simp add: gaitDefinition_def kWave_def)
    then have "lifted_count kWave k \<le> 1" using lifted_tables(3) unfolding list_all_iff by blast
    then show ?thesis using 3 assms(1,2) by (simp add: gaitDefinition_def max_lifted_def)
  qed
qed

lemma keyframe_unlifted: "\<not> lifted g k leg \<Longrightarrow> snd (keyframe g leg k) = Fin 0"
  by (simp add: lifted_def keyframe_def Let_def)

lemma unlifted_stays: "f_add (Fin 0) (f_mul (f_sub (Fin 0) (Fin 0)) (f_sub (Fin r) (floorf (Fin r)))) = Fin 0"
proof -
  have "f_sub (Fin 0) (Fin 0) = Fin 0" by (simp add: f_sub_def f_round_small)
  moreover have "f_mul (Fin 0) v = Fin 0" if "v = Fin a" for v a using that by (simp add: f_round_small)
  moreover have "\<exists>a. f_sub (Fin r) (floorf (Fin r)) = Fin a"
  proof -
    have "\<bar>r - of_int \<lfloor>r\<rfloor>\<bar> \<le> 2 ^ 40" by (simp add: abs_if) linarith
    then show ?thesis by (simp add: f_sub_def f_round_small)
  qed
  ultimately show ?thesis by (auto simp: f_round_small)
qed

lemma swing_lifted:
  assumes "ft_swing (gait_foot m e g k k' (f_sub (Fin r) (floorf (Fin r))) leg)"
  shows "lifted g k leg \<or> lifted g k' leg"
proof (rule ccontr)
  assume "\<not> ?thesis"
  then have "ft_swing (gait_foot m e g k k' (f_sub (Fin r) (floorf (Fin r))) leg) = f_lt (f_lit (1 / 10000)) (Fin 0)"
    by (simp add: gait_foot_def split_beta foot_of_def unlifted_stays keyframe_unlifted Let_def del: floorf.simps)
  moreover have "\<not> f_lt (f_lit (1 / 10000)) (Fin 0)" by code_simp
  ultimately show False using assms by simp
qed

lemma keyframe_lift: "\<exists>a \<in> {0, 1 / 2, 1}. snd (keyframe g leg k) = Fin a"
proof -
  have "f_lit (1 / 2) = Fin (1 / 2)" by code_simp
  then show ?thesis by (simp add: keyframe_def Let_def)
qed

lemma swing_height:
  assumes "f_rng 0 50 (ge_step_mm e)" "f_rng 0 65535 (ge_body_height_mm e)"
  shows "f_in (- 158) (- 15) (ft_z_mm (gait_foot m e g k k' (f_sub (Fin r) (floorf (Fin r))) leg))"
proof -
  obtain s where s: "ge_step_mm e = Fin s" "0 \<le> s" "s \<le> 50" using assms(1) by (rule f_rngE)
  obtain h where h: "ge_body_height_mm e = Fin h" "0 \<le> h" "h \<le> 65535" using assms(2) by (rule f_rngE)
  have k: "kMinFootZMm = Fin (- 158)" "kMaxFootZMm = Fin (- 15)" by code_simp+
  have c: "f_clamp l (Fin 0) (f_lit 1) \<noteq> NaN \<and> f_clamp l (Fin 0) (f_lit 1) \<noteq> Inf b" if "l \<noteq> NaN" for l b
    using that by (cases l) (auto simp: f_clamp_def)
  have i: "f_add (Fin a) (f_mul (f_sub (Fin b) (Fin a)) (f_sub (Fin r) (floorf (Fin r)))) \<noteq> NaN"
    if "a \<in> {0, 1 / 2, 1}" "b \<in> {0, 1 / 2, 1}" for a b
  proof -
    have "\<bar>r - of_int \<lfloor>r\<rfloor>\<bar> \<le> 2 ^ 40" by (simp add: abs_if) linarith
    then have "\<exists>t. f_sub (Fin r) (floorf (Fin r)) = Fin t" by (simp add: f_sub_def f_round_small)
    moreover have "\<bar>b - a\<bar> \<le> 2 ^ 40" using that by auto
    then have "\<exists>d. f_sub (Fin b) (Fin a) = Fin d" by (simp add: f_sub_def f_round_small)
    ultimately obtain t d where "f_sub (Fin r) (floorf (Fin r)) = Fin t" "f_sub (Fin b) (Fin a) = Fin d" by blast
    then show ?thesis using f_round_not_NaN by (cases "f_round (d * t)") (auto simp del: floorf.simps)
  qed
  obtain a b where ab: "snd (keyframe g leg k) = Fin a" "a \<in> {0, 1 / 2, 1}" "snd (keyframe g leg k') = Fin b" "b \<in> {0, 1 / 2, 1}"
    using keyframe_lift [of g leg k] keyframe_lift [of g leg k'] by blast
  define l where "l = f_add (Fin a) (f_mul (f_sub (Fin b) (Fin a)) (f_sub (Fin r) (floorf (Fin r))))"
  obtain l' where l': "f_clamp l (Fin 0) (f_lit 1) = Fin l'" using c [OF i [OF ab(2,4), folded l_def]] by (metis f32.exhaust)
  have "ft_z_mm (gait_foot m e g k k' (f_sub (Fin r) (floorf (Fin r))) leg) =
      f_clamp (f_add (Fin (- h)) (f_mul (Fin s) (Fin l'))) kMinFootZMm kMaxFootZMm"
    using ab l' by (simp add: gait_foot_def split_beta foot_of_def footAt_def homeFoot_def s h Let_def l_def del: floorf.simps)
  moreover have "f_add (Fin (- h)) (f_mul (Fin s) (Fin l')) \<noteq> NaN"
    using f_round_not_NaN by (cases "f_round (s * l')") auto
  then have "f_in (- 158) (- 15) (f_clamp (f_add (Fin (- h)) (f_mul (Fin s) (Fin l'))) kMinFootZMm kMaxFootZMm)"
    unfolding k by (rule f_clamp_in) simp
  ultimately show ?thesis by (simp only:)
qed

section \<open>Where the feet are\<close>

text \<open>Keyframes by the step relative to the leg's own start, and the way from one to the next.\<close>

definition rel_frame :: "MarkIiiGait \<Rightarrow> nat \<Rightarrow> f32" where
  "rel_frame g r =
     (if r = 0 then Fin 0 else if r = 1 \<or> r = 2 then f_lit (1 / 2) else if r = mg_steps g - 1 then f_lit (- 1 / 2)
      else f_sub (f_lit (1 / 2)) (f_div (f_of_int (int r - 2)) (f_of_int (int (mg_travel_divisor g)))))"

definition move_ok :: "MarkIiiGait \<Rightarrow> nat \<Rightarrow> bool" where
  "move_ok g r = (case (rel_frame g r, rel_frame g ((r + 1) mod mg_steps g)) of
     (Fin c, Fin a) \<Rightarrow> - 1 / 2 \<le> c \<and> c \<le> 1 / 2 \<and> rnd32 c = c \<and> \<bar>a - c\<bar> \<le> 2 \<and>
        - 1 / 2 \<le> rnd32 (c + rnd32 (a - c)) \<and> rnd32 (c + rnd32 (a - c)) \<le> 1 / 2
   | _ \<Rightarrow> False)"

lemma moves_ok: "list_all (move_ok kTripod) [0..<8]" "list_all (move_ok kRipple) [0..<12]" "list_all (move_ok kWave) [0..<24]"
  by code_simp+

lemma keyframe_rel: "fst (keyframe g leg k) = rel_frame g ((k + mg_steps g - mg_origin g ! leg) mod mg_steps g)"
  by (simp add: keyframe_def rel_frame_def Let_def)

lemma move_at:
  assumes "r < mg_steps (gaitDefinition g)"
  shows "move_ok (gaitDefinition g) r"
proof -
  have "r \<in> set [0..<mg_steps (gaitDefinition g)]" using assms by simp
  then show ?thesis using moves_ok unfolding gaitDefinition_def list_all_iff
    by (auto simp: kTripod_def kRipple_def kWave_def split: if_splits)
qed
lemma next_rel:
  assumes "1 \<le> k" "k \<le> mg_steps g" "start \<le> mg_steps g"
  shows "(next_key g k + mg_steps g - start) mod mg_steps g = ((k + mg_steps g - start) mod mg_steps g + 1) mod mg_steps g"
proof (cases "k = mg_steps g")
  case True
  define m where "m = mg_steps g - start"
  have "1 + mg_steps g - start = 1 + m" "k + mg_steps g - start = mg_steps g + m" using True assms(3) by (simp_all add: m_def)
  then have "(next_key g k + mg_steps g - start) mod mg_steps g = (1 + m) mod mg_steps g"
    "(k + mg_steps g - start) mod mg_steps g = m mod mg_steps g" using True by (simp_all add: next_key_def)
  then show ?thesis by (simp add: mod_Suc_eq)
next
  case False
  have "k + 1 + mg_steps g - start = (k + mg_steps g - start) + 1" using assms(3) by simp
  then show ?thesis using False by (simp add: next_key_def mod_Suc_eq)
qed

lemma step_fraction: "\<exists>t. f_sub (Fin r) (floorf (Fin r)) = Fin t \<and> 0 \<le> t \<and> t \<le> 1"
proof -
  have b: "0 \<le> r - of_int \<lfloor>r\<rfloor>" "r - of_int \<lfloor>r\<rfloor> \<le> 1" by linarith+
  then have "\<bar>r - of_int \<lfloor>r\<rfloor>\<bar> \<le> 2 ^ 40" by simp
  moreover have "0 \<le> rnd32 (r - of_int \<lfloor>r\<rfloor>)" "rnd32 (r - of_int \<lfloor>r\<rfloor>) \<le> 1"
    using rnd32_nonneg [OF b(1)] rnd32_bounded [OF b, of] by simp_all
  ultimately show ?thesis by (simp add: f_sub_def f_round_small)
qed

lemma between_frames:
  assumes "\<bar>a - c\<bar> \<le> 2" "- 1 / 2 \<le> c" "c \<le> 1 / 2" "rnd32 c = c" "0 \<le> t" "t \<le> 1"
    and "- 1 / 2 \<le> rnd32 (c + rnd32 (a - c))" "rnd32 (c + rnd32 (a - c)) \<le> 1 / 2"
  shows "f_in (- 1 / 2) (1 / 2) (f_add (Fin c) (f_mul (f_sub (Fin a) (Fin c)) (Fin t)))"
proof -
  define d where "d = rnd32 (a - c)"
  have d: "f_sub (Fin a) (Fin c) = Fin d" using assms(1) by (simp add: f_sub_def d_def f_round_small)
  have dd: "rnd32 d = d" by (simp add: d_def)
  have two: "rnd32 2 = 2" "rnd32 (- 2) = - 2" using rnd32_of_int [of 2] rnd32_of_int [of "- 2"] by simp_all
  have db: "\<bar>d\<bar> \<le> 2" using rnd32_bounded [of "- 2" "a - c" 2] assms(1) two by (simp add: d_def abs_le_iff)
  have "\<bar>d * t\<bar> \<le> 2" using db assms(5,6) by (simp add: abs_mult order_trans [OF mult_left_le])
  then have m: "f_round (d * t) = Fin (rnd32 (d * t))" by (simp add: f_round_small)
  note z = rnd32_between_zero [OF assms(5,6) dd]
  have b: "- 1 / 2 \<le> rnd32 (c + rnd32 (d * t)) \<and> rnd32 (c + rnd32 (d * t)) \<le> 1 / 2 \<and> \<bar>rnd32 (d * t)\<bar> \<le> 2"
  proof (cases "0 \<le> d")
    case True
    then have "c \<le> c + rnd32 (d * t)" "c + rnd32 (d * t) \<le> c + d" "\<bar>rnd32 (d * t)\<bar> \<le> 2" using z(1) db by auto
    then show ?thesis using rnd32_mono [of c "c + rnd32 (d * t)"] rnd32_mono [of "c + rnd32 (d * t)" "c + d"] assms(2-4,7,8)
      by (auto simp: d_def)
  next
    case False
    then have "c + rnd32 (d * t) \<le> c" "c + d \<le> c + rnd32 (d * t)" "\<bar>rnd32 (d * t)\<bar> \<le> 2" using z(2) db by auto
    then show ?thesis using rnd32_mono [of "c + rnd32 (d * t)" c] rnd32_mono [of "c + d" "c + rnd32 (d * t)"] assms(2-4,7,8)
      by (auto simp: d_def)
  qed
  then have "\<bar>c + rnd32 (d * t)\<bar> \<le> 3" using assms(2,3) by linarith
  then show ?thesis using b by (simp add: d m f_round_small)
qed

text \<open>The fore-and-aft coordinate of a stepping leg.\<close>

definition longitudinal_at :: "MarkIiiGait \<Rightarrow> nat \<Rightarrow> nat \<Rightarrow> f32 \<Rightarrow> f32" where
  "longitudinal_at g leg k t =
     (let c = fst (keyframe g leg k); a = fst (keyframe g leg (next_key g k)) in f_add c (f_mul (f_sub a c) t))"

lemma origins: "leg < kNumLegs \<Longrightarrow> mg_origin (gaitDefinition g) ! leg \<le> mg_steps (gaitDefinition g)"
proof -
  have "list_all (\<lambda>leg. mg_origin kTripod ! leg \<le> 8 \<and> mg_origin kRipple ! leg \<le> 12 \<and> mg_origin kWave ! leg \<le> 24) [0..<kNumLegs]"
    by code_simp
  then show "leg < kNumLegs \<Longrightarrow> mg_origin (gaitDefinition g) ! leg \<le> mg_steps (gaitDefinition g)"
    by (auto simp: list_all_iff gaitDefinition_def kTripod_def kRipple_def kWave_def)
qed

lemma longitudinal_half:
  assumes "1 \<le> k" "k \<le> mg_steps (gaitDefinition g)" "leg < kNumLegs"
  shows "f_in (- 1 / 2) (1 / 2) (longitudinal_at (gaitDefinition g) leg k (f_sub (Fin x) (floorf (Fin x))))"
proof -
  let ?g = "gaitDefinition g"
  define rl where "rl = (k + mg_steps ?g - mg_origin ?g ! leg) mod mg_steps ?g"
  have pos: "0 < mg_steps ?g" using gait_steps [of g] by auto
  then have "move_ok ?g rl" by (intro move_at) (simp add: rl_def)
  then obtain c a where ca: "rel_frame ?g rl = Fin c" "rel_frame ?g ((rl + 1) mod mg_steps ?g) = Fin a"
    "- 1 / 2 \<le> c" "c \<le> 1 / 2" "rnd32 c = c" "\<bar>a - c\<bar> \<le> 2" "- 1 / 2 \<le> rnd32 (c + rnd32 (a - c))" "rnd32 (c + rnd32 (a - c)) \<le> 1 / 2"
    by (auto simp: move_ok_def split: f32.splits)
  have f: "fst (keyframe ?g leg k) = Fin c" "fst (keyframe ?g leg (next_key ?g k)) = Fin a"
    unfolding keyframe_rel next_rel [OF assms(1,2) origins [OF assms(3)]] rl_def [symmetric] by (rule ca)+
  obtain t where "f_sub (Fin x) (floorf (Fin x)) = Fin t" "0 \<le> t" "t \<le> 1" using step_fraction by blast
  then show ?thesis using between_frames [OF ca(6,3,4,5) _ _ ca(7,8), of t] by (simp add: longitudinal_at_def f Let_def)
qed

text \<open>
  Where a stepping leg may be: the home position turned about the body by the yaw of the twist (a
  part of the angle that the stride spans at the reach of the leg), moved by at most half a stride
  along each axis, between the lowest and the highest permitted foot.
\<close>

definition footprint :: "libm \<Rightarrow> nat \<Rightarrow> FootTarget \<Rightarrow> bool" where
  "footprint m leg f \<longleftrightarrow> (\<exists>w r l dx dy. f_in (- 1) 1 w \<and> f_in 0 (4 / 25) r \<and> f_in (- 1 / 2) (1 / 2) l \<and>
     f_in (- 40) 40 dx \<and> f_in (- 40) 40 dy \<and>
     (let (hx, hy) = kHomeFootXy ! leg; yaw = f_mul (f_mul w (f_mul (f_lit 2) (lm_asinf m r))) l
      in ft_x_mm f = f_add (f_sub (f_mul hx (lm_cosf m yaw)) (f_mul hy (lm_sinf m yaw))) dx \<and>
         ft_y_mm f = f_add (f_add (f_mul hx (lm_sinf m yaw)) (f_mul hy (lm_cosf m yaw))) dy))"

definition twist_ok :: "GaitEngine \<Rightarrow> bool" where
  "twist_ok e \<longleftrightarrow> (\<forall>v \<in> {tw_vx (ge_twist e), tw_vy (ge_twist e), tw_wz (ge_twist e)}. v = NaN \<or> f_in (- 1) 1 v)"

definition twist_number :: "GaitEngine \<Rightarrow> bool" where
  "twist_number e \<longleftrightarrow> NaN \<notin> {tw_vx (ge_twist e), tw_vy (ge_twist e), tw_wz (ge_twist e)}"

lemma half_travel:
  assumes "f_in (- 1) 1 v" "f_rng 0 80 s" "f_in (- 1 / 2) (1 / 2) l"
  shows "f_in (- 40) 40 (f_mul (f_mul v s) l)"
proof -
  obtain a where a: "v = Fin a" "- 1 \<le> a" "a \<le> 1" using assms(1) by (rule f_inE)
  obtain b where b: "s = Fin b" "0 \<le> b" "b \<le> 80" using assms(2) by (rule f_rngE)
  obtain c where c: "l = Fin c" "- 1 / 2 \<le> c" "c \<le> 1 / 2" using assms(3) by (rule f_inE)
  have n: "rnd32 80 = 80" "rnd32 (- 80) = - 80" "rnd32 40 = 40" "rnd32 (- 40) = - 40" by code_simp+
  have "\<bar>a\<bar> * \<bar>b\<bar> \<le> 1 * 80" using a b by (intro mult_mono) auto
  then have "\<bar>a * b\<bar> \<le> 80" by (simp add: abs_mult)
  then have "f_rng (- 80) 80 (f_round (a * b))" using n by (intro f_rng_round) (simp_all add: abs_le_iff)
  then obtain d where d: "f_round (a * b) = Fin d" "- 80 \<le> d" "d \<le> 80" by (rule f_rngE)
  have "\<bar>d\<bar> * \<bar>c\<bar> \<le> 80 * (1 / 2)" using d c by (intro mult_mono) auto
  then have "\<bar>d * c\<bar> \<le> 40" by (simp add: abs_mult)
  then have "f_rng (- 40) 40 (f_round (d * c))" using n by (intro f_rng_round) (simp_all add: abs_le_iff)
  then show ?thesis by (simp add: a(1) b(1) c(1) d(1) f_rng_in)
qed

lemma yaw_ratio_range:
  assumes "f_rng 0 80 s"
  shows "f_in 0 (4 / 25) (f_clamp (f_div s (f_mul (f_lit 2) kMaxLegRadiusMm)) (Fin 0) (f_lit 1))"
proof -
  obtain b where b: "s = Fin b" "0 \<le> b" "b \<le> 80" using assms by (rule f_rngE)
  obtain d where d: "f_mul (f_lit 2) kMaxLegRadiusMm = Fin d" "514 \<le> d"
  proof -
    have "case f_mul (f_lit 2) kMaxLegRadiusMm of Fin d \<Rightarrow> 514 \<le> d | _ \<Rightarrow> False" by code_simp
    then show thesis using that by (auto split: f32.splits)
  qed
  have r: "rnd32 (80 / 514) \<le> 4 / 25" by code_simp
  have "b / d \<le> 80 / 514" using b d(2) by (intro frac_le) simp_all
  then have u: "rnd32 (b / d) \<le> 4 / 25" using rnd32_mono r order_trans by blast
  have l: "0 \<le> rnd32 (b / d)" using b d(2) by (intro rnd32_nonneg) simp
  have "80 / 514 \<le> (2 ^ 40 :: rat)" "0 \<le> b / d" using b d(2) by simp_all
  then have "\<bar>b / d\<bar> \<le> 2 ^ 40" using order_trans [OF \<open>b / d \<le> 80 / 514\<close>] by (simp only: abs_of_nonneg)
  then have "f_div s (f_mul (f_lit 2) kMaxLegRadiusMm) = Fin (rnd32 (b / d))" using d by (simp add: b(1) f_round_small)
  then show ?thesis using u l by (simp add: f_clamp_def)
qed

lemma footprint_at:
  assumes "params_ok e" "twist_ok e" "twist_number e" "f_in (- 1 / 2) (1 / 2) l"
  shows "footprint m leg (foot_of (footAt m e leg l h) b)"
proof -
  have t: "f_in (- 1) 1 (tw_vx (ge_twist e))" "f_in (- 1) 1 (tw_vy (ge_twist e))" "f_in (- 1) 1 (tw_wz (ge_twist e))"
    using assms(2,3) by (auto simp: twist_ok_def twist_number_def)
  have s: "f_rng 0 80 (ge_stride_mm e)" using assms(1) by (simp add: params_ok_def)
  show ?thesis unfolding footprint_def
    by (rule exI [of _ "tw_wz (ge_twist e)"],
        rule exI [of _ "f_clamp (f_div (ge_stride_mm e) (f_mul (f_lit 2) kMaxLegRadiusMm)) (Fin 0) (f_lit 1)"], rule exI [of _ l],
        rule exI [of _ "f_mul (f_mul (tw_vx (ge_twist e)) (ge_stride_mm e)) l"],
        rule exI [of _ "f_mul (f_mul (tw_vy (ge_twist e)) (ge_stride_mm e)) l"])
      (simp add: t yaw_ratio_range [OF s, simplified] half_travel [OF t(1) s assms(4)] half_travel [OF t(2) s assms(4)] assms(4) [simplified]
        footAt_def homeFoot_def foot_of_def Let_def split_beta)
qed

lemma stepping_footprint:
  assumes "params_ok e" "twist_ok e" "twist_number e" "n < mg_steps (gaitDefinition g)" "leg < kNumLegs"
  shows "footprint m leg (gait_foot m e (gaitDefinition g) (n + 1) (next_key (gaitDefinition g) (n + 1)) (f_sub (Fin r) (floorf (Fin r))) leg)"
  using footprint_at [OF assms(1-3) longitudinal_half [of "n + 1" g leg r]] assms(4,5)
  by (simp add: gait_foot_def longitudinal_at_def split_beta Let_def del: floorf.simps)

lemma twist_component_range: "twist_component v = NaN \<or> f_in (- 1) 1 (twist_component v)"
  by (cases v) (simp_all add: twist_component_def f_clamp_def Let_def)

section \<open>An update in every reachable state\<close>

definition feet_ok :: "GaitEngine \<Rightarrow> FootTarget list \<Rightarrow> bool" where
  "feet_ok e feet \<longleftrightarrow> length feet = kNumLegs \<and> length (filter ft_swing feet) \<le> max_lifted (ge_gait e) \<and>
     list_all (\<lambda>f. ft_swing f \<longrightarrow> f_in (- 158) (- 15) (ft_z_mm f)) feet"

text \<open>The engine stands when its gait has no steps or no component of its twist asks for one.\<close>

definition standing :: "GaitEngine \<Rightarrow> bool" where
  "standing e \<longleftrightarrow> ge_gait e = gaitCode Stand \<or> ge_gait e = gaitCode Sit \<or>
     (let t = ge_twist e in f_le (fmaxf (fabsf (tw_vx t)) (fmaxf (fabsf (tw_vy t)) (fabsf (tw_wz t)))) (Fin 0))"

definition foot_placed :: "libm \<Rightarrow> GaitEngine \<Rightarrow> nat \<Rightarrow> FootTarget \<Rightarrow> bool" where
  "foot_placed m e leg f \<longleftrightarrow>
     (if standing e
      then \<not> ft_swing f \<and> (ft_x_mm f, ft_y_mm f) = kHomeFootXy ! leg \<and>
        ft_z_mm f = (if ge_gait e = gaitCode Sit then kSitFootZMm else f_neg (ge_body_height_mm e))
      else f_in (- 158) (- 15) (ft_z_mm f) \<and> (twist_number e \<longrightarrow> footprint m leg f))"

definition feet_placed :: "libm \<Rightarrow> GaitEngine \<Rightarrow> FootTarget list \<Rightarrow> bool" where
  "feet_placed m e feet \<longleftrightarrow> (\<forall>leg \<in> {..<kNumLegs}. foot_placed m e leg (feet ! leg))"

lemma advance_frame [simp]:
  "ge_gait (advance_params dt e) = ge_gait e" "ge_gait_step_phase (advance_params dt e) = ge_gait_step_phase e"
  by (simp_all add: advance_params_def Let_def)

lemma park_frame [simp]:
  "ge_gait (park_twist e) = ge_gait e" "ge_gait_step_phase (park_twist e) = ge_gait_step_phase e"
  "params_ok (park_twist e) = params_ok e"
  by (simp_all add: park_twist_def Let_def params_ok_def)

lemma static_feet_ok:
  "(\<And>leg. \<not> ft_swing (f leg)) \<Longrightarrow> feet_ok e (map f [0..<kNumLegs])"
  by (simp add: feet_ok_def list_all_iff filter_map comp_def)

lemma stepping_feet_ok:
  assumes "params_ok e" "ge_gait e \<noteq> gaitCode Stand" "ge_gait e \<noteq> gaitCode Sit" "n < mg_steps (gaitDefinition (ge_gait e))"
  shows "feet_ok e (map (gait_foot m e (gaitDefinition (ge_gait e)) (n + 1) (next_key (gaitDefinition (ge_gait e)) (n + 1))
           (f_sub (Fin r) (floorf (Fin r)))) [0..<kNumLegs])"
proof -
  define g where "g = gaitDefinition (ge_gait e)"
  define foot where "foot = gait_foot m e g (n + 1) (next_key g (n + 1)) (f_sub (Fin r) (floorf (Fin r)))"
  have "length (filter ft_swing (map foot [0..<kNumLegs])) = length (filter (\<lambda>leg. ft_swing (foot leg)) [0..<kNumLegs])"
    by (simp add: filter_map comp_def)
  also have "\<dots> \<le> lifted_count g (n + 1)"
    unfolding lifted_count_def length_filter_conv_card
    by (intro card_mono) (auto simp: foot_def simp del: floorf.simps dest: swing_lifted)
  also have "\<dots> \<le> max_lifted (ge_gait e)" unfolding g_def using assms(2-4) by (intro lifted_count_le) simp_all
  finally have "length (filter ft_swing (map foot [0..<kNumLegs])) \<le> max_lifted (ge_gait e)" .
  moreover have "f_in (- 158) (- 15) (ft_z_mm (foot leg))" for leg
    unfolding foot_def using assms(1) by (intro swing_height) (simp_all add: params_ok_def)
  ultimately show ?thesis by (simp add: feet_ok_def foot_def g_def list_all_iff)
qed

lemma twist_ok_frame [simp]: "twist_ok (advance_params dt e) = twist_ok e"
  by (simp add: advance_params_def Let_def twist_ok_def)

lemma twist_ok_park: "twist_ok e \<Longrightarrow> twist_ok (park_twist e)"
  by (auto simp: park_twist_def twist_ok_def Let_def)

lemma static_feet_placed:
  "standing e \<Longrightarrow> feet_placed m e (map (\<lambda>leg. let (hx, hy, hz) = homeFoot e leg
     in foot_of (hx, hy, if ge_gait e = gaitCode Sit then kSitFootZMm else hz) False) [0..<kNumLegs])"
  by (simp add: feet_placed_def foot_placed_def homeFoot_def foot_of_def split_beta)

lemma stepping_feet_placed:
  assumes "params_ok e" "twist_ok e" "\<not> standing e" "n < mg_steps (gaitDefinition g)"
  shows "feet_placed m e (map (gait_foot m e (gaitDefinition g) (n + 1) (next_key (gaitDefinition g) (n + 1))
           (f_sub (Fin r) (floorf (Fin r)))) [0..<kNumLegs])"
  using swing_height [of e m "gaitDefinition g"] stepping_footprint [OF assms(1,2) _ assms(4)] assms(1,3)
  by (simp add: feet_placed_def foot_placed_def params_ok_def del: floorf.simps)

lemma gait_update_ok:
  assumes "gait_inv e" "dt \<le> 1000"
  shows "\<exists>feet e'. gait_update m dt e = Some (feet, e') \<and> gait_inv e' \<and> ge_gait e' = ge_gait e \<and> feet_ok e' feet \<and>
    (twist_ok e \<longrightarrow> twist_ok e' \<and> feet_placed m e' feet)"
proof -
  define a where "a = advance_params dt e"
  have a: "gait_inv a" "ge_gait a = ge_gait e" using assms(1) params_ok_advance by (simp_all add: a_def gait_inv_def)
  have ta: "twist_ok e \<Longrightarrow> twist_ok a" by (simp add: a_def)
  define p where "p = park_twist a"
  have p: "gait_inv p" "params_ok p" "ge_gait p = ge_gait e" using a by (simp_all add: p_def gait_inv_def)
  have tp: "twist_ok e \<Longrightarrow> twist_ok p" by (simp add: p_def ta twist_ok_park)
  show ?thesis
  proof (cases "ge_gait e = gaitCode Stand \<or> ge_gait e = gaitCode Sit")
    case True
    then have "standing a" using a by (auto simp: standing_def)
    then show ?thesis using a ta static_feet_placed [of a m] static_feet_ok [of _ a] True
      by (auto simp: gait_update_def a_def [symmetric] foot_of_def split_beta)
  next
    case False
    define g where "g = gaitDefinition (ge_gait e)"
    obtain r n where r: "phase_wrap (f_of_int (int (mg_steps g)))
        (f_add (ge_gait_step_phase p) (f_div (f_of_int (uint dt)) (stepPeriodMs (ge_speed p)))) = Some (Fin r)"
      "0 \<le> r" "rnd32 r = r" "n < mg_steps g" "f_cast 0 255 (floorf (Fin r)) = Some (int n)" "r < of_nat (mg_steps g)"
      using phase_step [OF p(1) assms(2), of "ge_gait e"] unfolding g_def by metis
    have "mg_steps g \<le> 24" using gait_steps [of "ge_gait e"] by (auto simp: g_def)
    then have s: "r \<le> 24" "(n + 1) mod 256 = n + 1" "(n + 1 + 1) mod 256 = n + 1 + 1"
      using r(4,6) order_less_le_trans [OF r(6), of 24] by auto
    define e' where "e' = p \<lparr> ge_gait_step_phase := Fin r, ge_phase := f_div (Fin r) (f_of_int (int (mg_steps g))) \<rparr>"
    have e': "gait_inv e'" "params_ok e'" "ge_gait e' = ge_gait e"
      using p r(2,3) s(1) by (simp_all add: e'_def gait_inv_def params_ok_def f_rngI)
    have idle: "feet_ok p (map (\<lambda>leg. foot_of (homeFoot p leg) False) [0..<kNumLegs])"
      by (rule static_feet_ok) (simp add: foot_of_def split_beta)
    have "gait_update m dt e = (if f_le (fmaxf (fabsf (tw_vx (ge_twist p))) (fmaxf (fabsf (tw_vy (ge_twist p))) (fabsf (tw_wz (ge_twist p))))) (Fin 0)
        then Some (map (\<lambda>leg. foot_of (homeFoot p leg) False) [0..<kNumLegs], p)
        else Some (map (gait_foot m e' g (n + 1) (next_key g (n + 1)) (f_sub (Fin r) (floorf (Fin r)))) [0..<kNumLegs], e'))"
      using False s(2,3) r(1,5) unfolding gait_update_def Let_def a_def [symmetric] p_def [symmetric] a(2) p(3) g_def [symmetric] next_key_def
      by (simp add: e'_def del: floorf.simps)
    moreover have "standing p \<longleftrightarrow> f_le (fmaxf (fabsf (tw_vx (ge_twist p))) (fmaxf (fabsf (tw_vy (ge_twist p))) (fabsf (tw_wz (ge_twist p))))) (Fin 0)"
      "standing e' = standing p" "twist_ok e' = twist_ok p"
      using False p(3) by (simp_all add: standing_def e'_def twist_ok_def Let_def)
    moreover have "standing p \<Longrightarrow> feet_placed m p (map (\<lambda>leg. foot_of (homeFoot p leg) False) [0..<kNumLegs])"
      using static_feet_placed [of p m] False p(3) by (simp add: homeFoot_def)
    ultimately show ?thesis
      using idle p tp e' stepping_feet_ok [OF e'(2), of n m r] stepping_feet_placed [OF e'(2), of n "ge_gait e" m r] False r(4)
      by (auto simp: g_def [symmetric] simp del: floorf.simps)
  qed
qed

text \<open>The operations of the pipeline on the engine; the clock keeps the elapsed time to at most a second.\<close>

datatype gait_op = GaitConfigure GaitDefaults | GaitSelect GaitId | GaitTwist BodyTwist | GaitReset | GaitAdvance u32

fun gait_step :: "libm \<Rightarrow> gait_op \<Rightarrow> GaitEngine \<Rightarrow> GaitEngine option" where
  "gait_step m (GaitConfigure d) e = Some (gait_configure d e)"
| "gait_step m (GaitSelect g) e = Some (gait_setGait g e)"
| "gait_step m (GaitTwist t) e = Some (gait_setTwist t e)"
| "gait_step m GaitReset e = Some (gait_reset e)"
| "gait_step m (GaitAdvance dt) e = map_option snd (gait_update m dt e)"

abbreviation gait_run :: "libm \<Rightarrow> gait_op list \<Rightarrow> GaitEngine \<Rightarrow> GaitEngine option" where
  "gait_run m \<equiv> fold_opt (gait_step m)"

fun gait_op_ok :: "gait_op \<Rightarrow> bool" where
  "gait_op_ok (GaitAdvance dt) \<longleftrightarrow> dt \<le> 1000" | "gait_op_ok _ \<longleftrightarrow> True"

lemma gait_inv_new: "gait_inv GaitEngine_new"
  unfolding gait_inv_def params_ok_def by (intro conjI) code_simp+

lemma gait_inv_ops:
  assumes "gait_inv e"
  shows "gait_inv (gait_configure d e)" "gait_inv (gait_setGait g e)" "gait_inv (gait_setTwist t e)" "gait_inv (gait_reset e)"
proof -
  have "ge_gait_step_phase (gait_configure d e) = ge_gait_step_phase e" by (simp add: gait_configure_def Let_def)
  then show "gait_inv (gait_configure d e)" using assms params_ok_configure by (simp add: gait_inv_def)
  show "gait_inv (gait_setGait g e)" "gait_inv (gait_setTwist t e)" "gait_inv (gait_reset e)"
    using assms by (simp_all add: gait_inv_def params_ok_def gait_setGait_def gait_setTwist_def gait_reset_def)
qed

lemma twist_ok_ops:
  assumes "twist_ok e"
  shows "twist_ok (gait_configure d e)" "twist_ok (gait_setGait g e)" "twist_ok (gait_setTwist t e)" "twist_ok (gait_reset e)"
  using assms twist_component_range
  by (auto simp: twist_ok_def gait_configure_def gait_setGait_def gait_setTwist_def gait_reset_def Let_def)

lemma twist_ok_new: "twist_ok GaitEngine_new"
  by (simp add: twist_ok_def GaitEngine_new_def)

lemma gait_inv_step:
  assumes "gait_op_ok op" "gait_inv e \<and> twist_ok e"
  shows "\<exists>e'. gait_step m op e = Some e' \<and> gait_inv e' \<and> twist_ok e'"
proof (cases op)
  case (GaitAdvance dt)
  then show ?thesis using gait_update_ok [of e dt m] assms by auto
qed (use assms in \<open>simp_all add: gait_inv_ops twist_ok_ops\<close>)

interpretation gait_runs: guarded_machine "gait_step m" gait_op_ok "\<lambda>e. gait_inv e \<and> twist_ok e" "\<lambda>e. e = GaitEngine_new" for m
  by unfold_locales (simp_all add: gait_inv_step gait_inv_new twist_ok_new)

text \<open>
  C20: a gait step always returns and keeps the robot supported. Whatever gaits, shapes and twists
  (NaN and infinities included) are set and however often the engine is stepped with at most a
  second at a time, an update ends with six foot targets, of which at most three (tripod), two
  (ripple), one (wave, crawl) or none (stand, sit) are off the ground. While the engine stands,
  every foot is on the ground at its home position, at the filtered body height or at the sitting
  height. While it steps, every foot, lifted or not, is between the lowest and the highest permitted
  height and, unless a component of the twist is a NaN, in its footprint: the home position turned by
  at most half of the yaw that the stride spans at the reach of a leg, and moved by at most half of
  the longest stride along each axis. The filtered stride, lift and cadence stay in their limits
  although every filter step rounds.
\<close>

theorem gait_keeps_support:
  assumes "list_all gait_op_ok ops" and "dt \<le> 1000"
  shows "\<exists>e feet e'. gait_run m ops GaitEngine_new = Some e \<and> gait_update m dt e = Some (feet, e') \<and>
    length feet = 6 \<and> length (filter ft_swing feet) \<le> max_lifted (ge_gait e) \<and>
    (\<forall>leg \<in> {..<6}.
       if standing e'
       then \<not> ft_swing (feet ! leg) \<and> (ft_x_mm (feet ! leg), ft_y_mm (feet ! leg)) = kHomeFootXy ! leg \<and>
         ft_z_mm (feet ! leg) = (if ge_gait e' = gaitCode Sit then kSitFootZMm else f_neg (ge_body_height_mm e'))
       else f_in (- 158) (- 15) (ft_z_mm (feet ! leg)) \<and> (twist_number e' \<longrightarrow> footprint m leg (feet ! leg))) \<and>
    f_in 0 80 (ge_stride_mm e') \<and> f_in 0 50 (ge_step_mm e') \<and> f_in 0 1 (ge_speed e')"
proof -
  obtain e where e: "gait_run m ops GaitEngine_new = Some e" "gait_inv e" "twist_ok e"
    using gait_runs.run [OF assms(1) refl] by blast
  obtain feet e' where u: "gait_update m dt e = Some (feet, e')" "gait_inv e'" "ge_gait e' = ge_gait e" "feet_ok e' feet"
    "feet_placed m e' feet"
    using gait_update_ok [OF e(2) assms(2), of m] e(3) by blast
  then have "params_ok e'" by (simp add: gait_inv_def)
  then have "f_in 0 80 (ge_stride_mm e')" "f_in 0 50 (ge_step_mm e')" "f_in 0 1 (ge_speed e')"
    by (simp_all add: params_ok_def f_rng_def f_unit_def)
  moreover note e(1) u(1)
  moreover have "length feet = 6" "length (filter ft_swing feet) \<le> max_lifted (ge_gait e)"
    using u(3,4) by (simp_all add: feet_ok_def kNumLegs_def)
  moreover note u(5) [unfolded feet_placed_def foot_placed_def kNumLegs_def]
  ultimately show ?thesis by (intro exI conjI)
qed

definition gait_sample_libm :: libm where
  "gait_sample_libm = \<lparr> lm_sqrtf = id, lm_sinf = id, lm_cosf = id, lm_acosf = id, lm_asinf = id, lm_atan2f = (\<lambda>y x. y),
     lm_expf = id, lm_lround_other = (\<lambda>v. 0) \<rparr>"

theorem gait_keeps_support_witness:
  "\<exists>e feet e'. gait_run gait_sample_libm [GaitSelect Tripod, GaitTwist \<lparr> tw_vx = Inf False, tw_vy = NaN, tw_wz = Fin 0 \<rparr>,
       GaitAdvance 1000, GaitSelect Ripple] GaitEngine_new = Some e \<and>
     gait_update gait_sample_libm 10 e = Some (feet, e') \<and> length feet = 6"
proof -
  have "list_all gait_op_ok [GaitSelect Tripod, GaitTwist \<lparr> tw_vx = Inf False, tw_vy = NaN, tw_wz = Fin 0 \<rparr>,
       GaitAdvance 1000, GaitSelect Ripple]" "(10 :: u32) \<le> 1000" by simp_all
  from gait_keeps_support [OF this, of gait_sample_libm] show ?thesis by blast
qed

end
