(* ===== verification/GaitPipeline.thy ===== *)
theory GaitPipeline
  imports GaitEngine
begin

text \<open>
  The pipeline from gait to servo goals (\<open>gait/gait_pipeline.h\<close>, \<open>gait/gait_pipeline.cpp\<close>). The
  configuration the source holds by reference is an argument of the operations that read it. Shown
  here: an update returns one goal per mapped joint, inside the travel of its servo except while a
  joint is being ramped from a position outside it, and then only towards the travel.
\<close>

section \<open>Data\<close>

definition kMinGoalSlewTicksPerSec :: f32 where "kMinGoalSlewTicksPerSec = f_lit 600"
definition kMaxGoalSlewTicksPerSec :: f32 where "kMaxGoalSlewTicksPerSec = f_lit 4500"
definition kPoseFilterTau :: f32 where "kPoseFilterTau = f_lit (12 / 100)"
definition kPoseSnapMm :: f32 where "kPoseSnapMm = f_lit (1 / 2)"
definition kPoseSnapRad :: f32 where "kPoseSnapRad = f_lit (5 / 1000)"
definition kPreviewCycleSeconds :: f32 where "kPreviewCycleSeconds = f_lit 2"
definition kPipelineLegFlagSwing :: u8 where "kPipelineLegFlagSwing = 1"
definition kPipelineLegFlagReachable :: u8 where "kPipelineLegFlagReachable = 2"
definition kPipelineLegFlagClamped :: u8 where "kPipelineLegFlagClamped = 4"

record PipelineJoint =
  pj_id :: u8
  pj_tick :: u16
  pj_leg :: u8
  pj_joint :: u8
  pj_clamped :: bool

record PipelineLegTarget =
  pl_foot_x_mm :: i16
  pl_foot_y_mm :: i16
  pl_foot_z_mm :: i16
  pl_flags :: u8

text \<open>The joints written so far; their number is the \<open>count\<close> of the source.\<close>

record PipelineOutput =
  po_joints :: "PipelineJoint list"
  po_legs :: "PipelineLegTarget list"
  po_any_unreachable :: bool
  po_any_reach_limited :: bool

definition PipelineOutput_default :: PipelineOutput where
  "PipelineOutput_default = \<lparr> po_joints = [],
     po_legs = replicate kNumLegs \<lparr> pl_foot_x_mm = 0, pl_foot_y_mm = 0, pl_foot_z_mm = 0, pl_flags = 0 \<rparr>,
     po_any_unreachable = False, po_any_reach_limited = False \<rparr>"

record GaitPipeline =
  gp_engine :: GaitEngine
  gp_body :: BodyKinematics
  gp_pose_target :: BodyPose
  gp_pose :: BodyPose
  gp_apply_pose :: bool
  gp_preview_leg :: int
  gp_preview_phase :: f32
  gp_goal_slew :: f32
  gp_last_tick :: "u16 list"
  gp_ramping :: "bool list"

section \<open>Configuration and commands\<close>

definition GaitPipeline_new :: "libm \<Rightarrow> RobotConfig \<Rightarrow> GaitPipeline" where
  "GaitPipeline_new m cfg = \<lparr> gp_engine = gait_configure (cfg_gait cfg) GaitEngine_new, gp_body = BodyKinematics_new m cfg,
     gp_pose_target = BodyPose_default, gp_pose = BodyPose_default, gp_apply_pose = False, gp_preview_leg = -1,
     gp_preview_phase = Fin 0, gp_goal_slew = kMinGoalSlewTicksPerSec, gp_last_tick = replicate kNumServos 0,
     gp_ramping = replicate kNumServos False \<rparr>"

definition pipe_reconfigure :: "libm \<Rightarrow> RobotConfig \<Rightarrow> GaitPipeline \<Rightarrow> GaitPipeline" where
  "pipe_reconfigure m cfg p = p \<lparr> gp_body := BodyKinematics_new m cfg, gp_engine := gait_configure (cfg_gait cfg) (gp_engine p) \<rparr>"

definition pipe_setGait :: "GaitId \<Rightarrow> GaitPipeline \<Rightarrow> GaitPipeline" where
  "pipe_setGait g p = p \<lparr> gp_engine := gait_setGait g (gp_engine p) \<rparr>"

definition pipe_setParams :: "RobotConfig \<Rightarrow> u16 \<Rightarrow> u16 \<Rightarrow> u16 \<Rightarrow> u8 \<Rightarrow> u8 \<Rightarrow> GaitPipeline \<Rightarrow> GaitPipeline" where
  "pipe_setParams cfg height stride step duty speed p =
     (let d = (cfg_gait cfg) \<lparr> body_height_mm := height, stride_len_mm := stride, step_height_mm := step, duty_x255 := duty,
                speed_x255 := speed \<rparr>;
          g = ge_gait (gp_engine p); s = f_div (f_of_int (uint speed)) (f_lit 255)
      in p \<lparr> gp_engine := (gait_configure d (gp_engine p)) \<lparr> ge_gait := g \<rparr>,
             gp_goal_slew := f_add kMinGoalSlewTicksPerSec (f_mul (f_sub kMaxGoalSlewTicksPerSec kMinGoalSlewTicksPerSec) s) \<rparr>)"

definition pipe_setTwist :: "f32 \<Rightarrow> f32 \<Rightarrow> f32 \<Rightarrow> GaitPipeline \<Rightarrow> GaitPipeline" where
  "pipe_setTwist vx vy wz p = p \<lparr> gp_engine := gait_setTwist \<lparr> tw_vx = vx, tw_vy = vy, tw_wz = wz \<rparr> (gp_engine p) \<rparr>"

definition pipe_setBodyPose :: "BodyPose \<Rightarrow> GaitPipeline \<Rightarrow> GaitPipeline" where
  "pipe_setBodyPose pose p = p \<lparr> gp_pose_target := pose \<rparr>"

definition pipe_resetPhase :: "GaitPipeline \<Rightarrow> GaitPipeline" where
  "pipe_resetPhase p = p \<lparr> gp_engine := gait_reset (gp_engine p) \<rparr>"

definition pipe_setPreviewLeg :: "int \<Rightarrow> GaitPipeline \<Rightarrow> GaitPipeline" where
  "pipe_setPreviewLeg leg p =
     (if leg < 0 \<or> leg \<ge> int kNumLegs then p \<lparr> gp_preview_leg := -1, gp_preview_phase := Fin 0 \<rparr>
      else (if gp_preview_leg p \<noteq> leg then p \<lparr> gp_preview_phase := Fin 0 \<rparr> else p) \<lparr> gp_preview_leg := leg \<rparr>)"

definition pipe_seedGoal :: "RobotConfig \<Rightarrow> u8 \<Rightarrow> u16 \<Rightarrow> GaitPipeline \<Rightarrow> GaitPipeline" where
  "pipe_seedGoal cfg i present_tick p =
     (case servoForId cfg i of
        None \<Rightarrow> p
      | Some sc \<Rightarrow>
          let slot = (unat (servo_leg sc) * kJointsPerLeg + unat (servo_joint sc)) mod 256 in
          if slot \<ge> kNumServos then p
          else p \<lparr> gp_last_tick := (gp_last_tick p)[slot := present_tick], gp_ramping := (gp_ramping p)[slot := True] \<rparr>)"

section \<open>Update\<close>

definition pose_components :: "BodyPose \<Rightarrow> f32 list" where
  "pose_components p = [bp_x_mm p, bp_y_mm p, bp_z_mm p, bp_roll p, bp_pitch p, bp_yaw p]"

definition pose_is_zero :: "BodyPose \<Rightarrow> bool" where
  "pose_is_zero p = list_all (\<lambda>v. f_eq v (Fin 0)) (pose_components p)"

definition advance_pose :: "u32 \<Rightarrow> GaitPipeline \<Rightarrow> GaitPipeline" where
  "advance_pose dt_ms p =
     (let k = filter_gain dt_ms kPoseFilterTau; t = gp_pose_target p; c = gp_pose p;
          c = \<lparr> bp_x_mm = filter_toward (bp_x_mm t) k (bp_x_mm c), bp_y_mm = filter_toward (bp_y_mm t) k (bp_y_mm c),
               bp_z_mm = filter_toward (bp_z_mm t) k (bp_z_mm c), bp_roll = filter_toward (bp_roll t) k (bp_roll c),
               bp_pitch = filter_toward (bp_pitch t) k (bp_pitch c), bp_yaw = filter_toward (bp_yaw t) k (bp_yaw c) \<rparr>;
          c = (if pose_is_zero t \<and> f_lt (fabsf (bp_x_mm c)) kPoseSnapMm \<and> f_lt (fabsf (bp_y_mm c)) kPoseSnapMm \<and>
                 f_lt (fabsf (bp_z_mm c)) kPoseSnapMm \<and> f_lt (fabsf (bp_roll c)) kPoseSnapRad \<and>
                 f_lt (fabsf (bp_pitch c)) kPoseSnapRad \<and> f_lt (fabsf (bp_yaw c)) kPoseSnapRad
               then BodyPose_default else c)
      in p \<lparr> gp_pose := c, gp_apply_pose := \<not> pose_is_zero c \<rparr>)"

definition kEnvelope :: "(f32 \<times> f32) list" where
  "kEnvelope = [(f_neg kStrokeEnvelopeFrac, Fin 0), (kStrokeEnvelopeFrac, Fin 0), (f_neg kStrokeEnvelopeFrac, f_lit (1 / 2)),
     (kStrokeEnvelopeFrac, f_lit (1 / 2)), (Fin 0, f_lit 1)]"

definition envelope_scale :: "libm \<Rightarrow> GaitEngine \<Rightarrow> BodyKinematics \<Rightarrow> f32" where
  "envelope_scale m e bk =
     fold (\<lambda>(leg, longitudinal, lift) path_scale.
        let (anchor_x, anchor_y, anchor_z) = homeFoot e leg;
            (target_x, target_y, target_z) = motionEnvelopeFoot m e leg longitudinal lift;
            leg_scale = bodyTargetPathScale m bk leg (anchor_x, anchor_y, target_z) (target_x, target_y, target_z)
        in if f_lt leg_scale path_scale then leg_scale else path_scale)
       (concat (map (\<lambda>leg. map (\<lambda>(a, b). (leg, a, b)) kEnvelope) [0..<kNumLegs])) (f_lit 1)"

definition scale_foot :: "point \<Rightarrow> f32 \<Rightarrow> FootTarget \<Rightarrow> FootTarget" where
  "scale_foot anchor scale f =
     (let (ax, ay, az) = anchor
      in f \<lparr> ft_x_mm := f_add ax (f_mul (f_sub (ft_x_mm f) ax) scale), ft_y_mm := f_add ay (f_mul (f_sub (ft_y_mm f) ay) scale) \<rparr>)"

definition limit_stride :: "libm \<Rightarrow> GaitEngine \<Rightarrow> BodyKinematics \<Rightarrow> FootTarget list \<Rightarrow> bool \<times> FootTarget list" where
  "limit_stride m e bk feet =
     (let path_scale = envelope_scale m e bk in
      if f_lt path_scale (f_lit 1)
      then (True, map (\<lambda>leg. scale_foot (homeFoot e leg) path_scale (feet ! leg)) [0..<kNumLegs])
      else (False, feet))"

definition preview_foot :: "libm \<Rightarrow> u32 \<Rightarrow> GaitPipeline \<Rightarrow> nat \<Rightarrow> FootTarget list \<Rightarrow> bool \<times> FootTarget list \<times> GaitPipeline" where
  "preview_foot m dt_ms p leg feet =
     (let e = gp_engine p;
          phase = f_add (gp_preview_phase p) (f_div (f_div (f_of_int (uint dt_ms)) (f_lit 1000)) kPreviewCycleSeconds);
          phase = f_sub phase (floorf phase);
          (px, py, pz) = previewFoot m e leg phase; (ax, ay, az) = homeFoot e leg;
          scale = bodyTargetPathScale m (gp_body p) leg (ax, ay, pz) (px, py, pz);
          scale = (if f_lt (f_lit 1) scale then f_lit 1 else scale)
      in (f_lt scale (f_lit 1),
          feet[leg := \<lparr> ft_x_mm = f_add ax (f_mul (f_sub px ax) scale), ft_y_mm = f_add ay (f_mul (f_sub py ay) scale),
                        ft_z_mm = pz, ft_swing = f_lt (f_add az (f_lit (1 / 2))) pz \<rparr>],
          p \<lparr> gp_preview_phase := phase \<rparr>))"

text \<open>
  The arm-transition ramp of one joint: the tick to send and whether the joint is still ramping. The
  step is a conversion to \<open>long\<close>, which with the addition must stay in 32 bits.
\<close>

definition ramp_limit :: "f32 \<Rightarrow> u32 \<Rightarrow> int option" where
  "ramp_limit slew dt_ms =
     (let max_step = f_div (f_mul slew (f_of_int (uint dt_ms))) (f_lit 1000)
      in if f_lt max_step (f_lit 1) then Some 1 else f_cast 0 (2 ^ 31 - 1 - 65535) max_step)"

definition ramp_tick :: "int \<Rightarrow> u16 \<Rightarrow> u16 \<Rightarrow> u16 \<times> bool" where
  "ramp_tick limit last_tick tick =
     (let prev = uint last_tick; want = uint tick in
      if want > prev + limit then (word_of_int (prev + limit), True)
      else if want < prev - limit then (word_of_int (prev - limit), True)
      else (tick, False))"

record pipe_acc =
  pa_joints :: "PipelineJoint list"
  pa_flags :: u8
  pa_last :: "u16 list"
  pa_ramping :: "bool list"

definition pipe_joint :: "libm \<Rightarrow> RobotConfig \<Rightarrow> f32 \<Rightarrow> u32 \<Rightarrow> nat \<Rightarrow> f32 list \<Rightarrow> nat \<Rightarrow> pipe_acc \<Rightarrow> pipe_acc option" where
  "pipe_joint m cfg slew dt_ms leg angles j a =
     (case servoFor cfg (word_of_nat leg) (word_of_nat j) of
        None \<Rightarrow> Some a
      | Some sc \<Rightarrow>
          let jc = angleToTick m cfg (word_of_nat leg) (word_of_nat j) (angles ! j); slot = leg * kJointsPerLeg + j;
              clamped = (jc_clamped_low jc \<or> jc_clamped_high jc)
          in map_option (\<lambda>(tick, ramping).
               \<lparr> pa_joints = pa_joints a @ [\<lparr> pj_id = servo_id sc, pj_tick = tick, pj_leg = word_of_nat leg,
                   pj_joint = word_of_nat j, pj_clamped = clamped \<rparr>],
                 pa_flags = (if clamped then pa_flags a OR kPipelineLegFlagClamped else pa_flags a),
                 pa_last = (pa_last a)[slot := tick], pa_ramping = (pa_ramping a)[slot := ramping] \<rparr>)
               (if pa_ramping a ! slot
                then map_option (\<lambda>limit. ramp_tick limit (pa_last a ! slot) (jc_tick jc)) (ramp_limit slew dt_ms)
                else Some (jc_tick jc, False)))"

definition solve_leg :: "libm \<Rightarrow> GaitPipeline \<Rightarrow> nat \<Rightarrow> FootTarget \<Rightarrow> bool \<times> IkResult" where
  "solve_leg m p leg f =
     (let pt = (ft_x_mm f, ft_y_mm f, ft_z_mm f)
      in if gp_apply_pose p then solveBodyPoseLimited m (gp_body p) leg (gp_pose p) pt
         else (False, solveBody m (gp_body p) leg pt))"

definition pipe_leg :: "libm \<Rightarrow> RobotConfig \<Rightarrow> u32 \<Rightarrow> FootTarget list \<Rightarrow> nat \<Rightarrow> PipelineOutput \<times> GaitPipeline \<Rightarrow>
    (PipelineOutput \<times> GaitPipeline) option" where
  "pipe_leg m cfg dt_ms feet leg acc =
     (let (out, p) = acc; f = feet ! leg; (limited, ik) = solve_leg m p leg f;
          flags = (if ft_swing f then kPipelineLegFlagSwing else 0);
          flags = (if ik_reachable ik then flags OR kPipelineLegFlagReachable else flags)
      in map_option (\<lambda>a.
           (out \<lparr> po_joints := pa_joints a,
              po_legs := (po_legs out)[leg := \<lparr> pl_foot_x_mm = ucast (lroundf m (ft_x_mm f)),
                pl_foot_y_mm = ucast (lroundf m (ft_y_mm f)), pl_foot_z_mm = ucast (lroundf m (ft_z_mm f)),
                pl_flags = pa_flags a \<rparr>],
              po_any_unreachable := (po_any_unreachable out \<or> \<not> ik_reachable ik),
              po_any_reach_limited := (po_any_reach_limited out \<or> limited) \<rparr>,
            p \<lparr> gp_last_tick := pa_last a, gp_ramping := pa_ramping a \<rparr>))
         (fold_opt (pipe_joint m cfg (gp_goal_slew p) dt_ms leg [ik_coxa ik, ik_femur ik, ik_tibia ik]) [0..<kJointsPerLeg]
            \<lparr> pa_joints = po_joints out, pa_flags = flags, pa_last = gp_last_tick p, pa_ramping = gp_ramping p \<rparr>))"

definition pipe_update :: "libm \<Rightarrow> RobotConfig \<Rightarrow> u32 \<Rightarrow> PipelineOutput \<Rightarrow> GaitPipeline \<Rightarrow> (PipelineOutput \<times> GaitPipeline) option" where
  "pipe_update m cfg dt_ms out p0 =
     (let p = advance_pose dt_ms p0 in
      case gait_update m dt_ms (gp_engine p) of
        None \<Rightarrow> None
      | Some (feet, e) \<Rightarrow>
          let p = p \<lparr> gp_engine := e \<rparr>;
              (limited, feet) = (if \<not> gp_apply_pose p then limit_stride m e (gp_body p) feet else (False, feet));
              (limited', feet, p) =
                (if gp_preview_leg p \<ge> 0 \<and> gp_preview_leg p < int kNumLegs
                 then preview_foot m dt_ms p (nat (gp_preview_leg p)) feet else (False, feet, p))
          in fold_opt (pipe_leg m cfg dt_ms feet) [0..<kNumLegs]
               (out \<lparr> po_joints := [], po_any_unreachable := False, po_any_reach_limited := (limited \<or> limited') \<rparr>, p))"

section \<open>Ramping\<close>

definition between :: "u16 \<Rightarrow> u16 \<Rightarrow> u16 \<Rightarrow> bool" where
  "between a x b \<longleftrightarrow> a \<le> x \<and> x \<le> b \<or> b \<le> x \<and> x \<le> a"

text \<open>The largest step of a ramping joint: 4500 ticks per second, at least one tick.\<close>

definition max_ramp_step :: "u32 \<Rightarrow> int" where
  "max_ramp_step dt = max 1 (9 * int (unat dt) div 2)"

lemma u16_of_int: "0 \<le> k \<Longrightarrow> k < 65536 \<Longrightarrow> uint (word_of_int k :: u16) = k"
  by (simp add: uint_word_of_int_eq take_bit_int_eq_self)

lemma ramp_tick_between:
  assumes "0 \<le> limit" "ramp_tick limit prev want = (tick, ramping)"
  shows "between prev tick want" "\<not> ramping \<Longrightarrow> tick = want" "\<bar>uint tick - uint prev\<bar> \<le> limit"
    "ramping \<Longrightarrow> \<bar>uint want - uint tick\<bar> < \<bar>uint want - uint prev\<bar> \<or> limit = 0"
proof -
  have b: "0 \<le> uint want" "uint want < 65536" "0 \<le> uint prev" "uint prev < 65536"
    using uint_bounded [of want] uint_bounded [of prev] by simp_all
  consider "uint want > uint prev + limit" "uint tick = uint prev + limit" "ramping"
    | "uint want < uint prev - limit" "uint tick = uint prev - limit" "ramping"
    | "\<bar>uint want - uint prev\<bar> \<le> limit" "tick = want" "\<not> ramping"
  proof (cases "uint want > uint prev + limit")
    case True
    then have "uint (word_of_int (uint prev + limit) :: u16) = uint prev + limit"
      using b assms(1) by (intro u16_of_int) linarith+
    moreover have "word_of_int (uint prev + limit) = tick" "ramping"
      using assms(2) unfolding ramp_tick_def Let_def if_P [OF True] by blast+
    ultimately show thesis using that(1) True by blast
  next
    case up: False
    show thesis
    proof (cases "uint want < uint prev - limit")
      case True
      then have "uint (word_of_int (uint prev - limit) :: u16) = uint prev - limit"
        using b assms(1) by (intro u16_of_int) linarith+
      moreover have "word_of_int (uint prev - limit) = tick" "ramping"
        using assms(2) unfolding ramp_tick_def Let_def if_not_P [OF up] if_P [OF True] by blast+
      ultimately show thesis using that(2) True by blast
    next
      case False
      have "tick = want" "\<not> ramping"
        using assms(2) unfolding ramp_tick_def Let_def if_not_P [OF up] if_not_P [OF False] by blast+
      moreover have "\<bar>uint want - uint prev\<bar> \<le> limit" using up False by linarith
      ultimately show thesis using that(3) by blast
    qed
  qed
  then show "between prev tick want" "\<not> ramping \<Longrightarrow> tick = want" "\<bar>uint tick - uint prev\<bar> \<le> limit"
    "ramping \<Longrightarrow> \<bar>uint want - uint tick\<bar> < \<bar>uint want - uint prev\<bar> \<or> limit = 0"
    using assms(1) by (cases; simp add: between_def word_le_def; linarith)+
qed

lemma ramp_limit_ok:
  assumes "f_rng 600 4500 slew" "dt \<le> (1000 :: u32)"
  shows "\<exists>limit. ramp_limit slew dt = Some limit \<and> 1 \<le> limit \<and> limit \<le> max_ramp_step dt"
proof -
  obtain s where s: "slew = Fin s" "600 \<le> s" "s \<le> 4500" using assms(1) by (rule f_rngE)
  define n where "n = unat dt"
  have n: "n \<le> 1000" using assms(2) by (simp add: n_def word_le_nat_alt)
  have ui: "uint dt = int n" by (simp add: n_def)
  have u: "f_of_int (uint dt) = Fin (of_nat n)" unfolding ui using n f_of_int_exact [of "int n"] by simp
  define p where "p = rnd32 (s * of_nat n)"
  have "s * of_nat n \<le> 4500 * of_nat n" using s(3) by (intro mult_right_mono) simp_all
  then have "p \<le> rnd32 (of_int (4500 * int n))" unfolding p_def by (intro rnd32_mono) simp
  also have "\<dots> = 4500 * of_nat n" using n by (subst rnd32_of_int) simp_all
  finally have p: "p \<le> 4500 * of_nat n" .
  have p0: "0 \<le> p" using s(2) by (simp add: p_def rnd32_nonneg)
  define q where "q = rnd32 (p / 1000)"
  have "p / 1000 \<le> of_int (9 * int n) / 2 ^ 1" using p by simp
  then have "q \<le> rnd32 (of_int (9 * int n) / 2 ^ 1)" unfolding q_def by (rule rnd32_mono)
  also have "\<dots> = of_int (9 * int n) / 2 ^ 1" using n by (intro rnd32_dyadic) simp_all
  finally have q: "q \<le> 9 * of_nat n / 2" by simp
  have q0: "0 \<le> q" using p0 by (simp add: q_def rnd32_nonneg)
  have nn: "(of_nat n :: rat) \<le> 1000" using n by simp
  have "\<bar>s * of_nat n\<bar> \<le> 2 ^ 40" using \<open>s * of_nat n \<le> 4500 * of_nat n\<close> s(2) nn by simp
  then have m1: "f_mul slew (f_of_int (uint dt)) = Fin p" unfolding u by (simp add: s(1) p_def f_round_small)
  have "\<bar>p / 1000\<bar> \<le> 2 ^ 40" using p p0 nn by simp
  moreover have "f_lit 1000 = Fin 1000" by code_simp
  ultimately have step: "f_div (f_mul slew (f_of_int (uint dt))) (f_lit 1000) = Fin q" by (simp add: m1 q_def f_round_small)
  show ?thesis
  proof (cases "q < 1")
    case True
    then show ?thesis by (simp add: ramp_limit_def step max_ramp_step_def)
  next
    case False
    have f: "\<lfloor>q\<rfloor> \<le> 9 * int n div 2"
    proof -
      have "of_int \<lfloor>q\<rfloor> \<le> q" by simp
      then have "(of_int \<lfloor>q\<rfloor> :: rat) * 2 \<le> 9 * of_nat n" using q by linarith
      then have "of_int (\<lfloor>q\<rfloor> * 2) \<le> (of_int (9 * int n) :: rat)" by simp
      then show ?thesis unfolding of_int_le_iff by linarith
    qed
    have "9 * int n div 2 \<le> 4500" using n by simp
    then have "\<lfloor>q\<rfloor> \<le> 4500" using f by linarith
    also have "(4500 :: int) \<le> 2 ^ 31 - 1 - 65535" by simp
    finally have "f_cast 0 (2 ^ 31 - 1 - 65535) (Fin q) = Some \<lfloor>q\<rfloor>" using q0 by (simp add: f_cast_def)
    then show ?thesis using False f by (simp add: ramp_limit_def step max_ramp_step_def n_def)
  qed
qed

section \<open>One goal per joint\<close>

text \<open>
  What a slot gets in one update: \<open>prev\<close> and \<open>was_ramping\<close> describe the slot before, \<open>now_ramping\<close>
  after it.
\<close>

definition slot_goal :: "RobotConfig \<Rightarrow> int \<Rightarrow> nat \<Rightarrow> u16 \<Rightarrow> bool \<Rightarrow> PipelineJoint \<Rightarrow> bool \<Rightarrow> bool" where
  "slot_goal cfg step i prev was_ramping jt now_ramping \<longleftrightarrow>
     (\<exists>s \<in> set (cfg_servos cfg). servo_leg s = word_of_nat (i div kJointsPerLeg) \<and> servo_joint s = word_of_nat (i mod kJointsPerLeg) \<and>
        pj_id jt = servo_id s \<and> pj_leg jt = servo_leg s \<and> pj_joint jt = servo_joint s \<and> max_tick s \<le> 4095 \<and>
        (\<not> now_ramping \<longrightarrow> min_tick s \<le> pj_tick jt \<and> pj_tick jt \<le> max_tick s) \<and>
        (now_ramping \<longrightarrow> was_ramping) \<and>
        (was_ramping \<longrightarrow> \<bar>uint (pj_tick jt) - uint prev\<bar> \<le> step \<and>
           (\<exists>want. min_tick s \<le> want \<and> want \<le> max_tick s \<and> between prev (pj_tick jt) want)))"

lemma angle_in_travel:
  assumes "servoFor cfg leg joint = Some s" "servo_ok s"
  shows "min_tick s \<le> jc_tick (angleToTick m cfg leg joint a)" "jc_tick (angleToTick m cfg leg joint a) \<le> max_tick s"
  using assms clamp_raw_within [OF assms(2)] by (simp_all add: angleToTick_def Let_def)

lemma pipe_joint_ok:
  assumes cfg: "validateRobotConfig cfg" "config_dims cfg" and "leg < kNumLegs" "j < kJointsPerLeg"
    and "f_rng 600 4500 slew" "dt \<le> 1000" and "length (pa_last a) = kNumServos" "length (pa_ramping a) = kNumServos"
  defines "i \<equiv> leg * kJointsPerLeg + j"
  shows "\<exists>a' jt r. pipe_joint m cfg slew dt leg angles j a = Some a' \<and> pa_joints a' = pa_joints a @ [jt] \<and>
     pa_last a' = (pa_last a)[i := pj_tick jt] \<and> pa_ramping a' = (pa_ramping a)[i := r] \<and>
     slot_goal cfg (max_ramp_step dt) i (pa_last a ! i) (pa_ramping a ! i) jt r"
proof -
  have "unat (word_of_nat leg :: u8) < 6" "unat (word_of_nat j :: u8) < 3"
    using assms(3,4) by (simp_all add: kNumLegs_def kJointsPerLeg_def unat_of_nat take_bit_nat_eq_self)
  from servoFor_valid [OF cfg this] obtain s where s: "servoFor cfg (word_of_nat leg) (word_of_nat j) = Some s"
    "s \<in> set (cfg_servos cfg)" "servo_ok s" "servo_leg s = word_of_nat leg" "servo_joint s = word_of_nat j" by blast
  define jc where "jc = angleToTick m cfg (word_of_nat leg) (word_of_nat j) (angles ! j)"
  have travel: "min_tick s \<le> jc_tick jc" "jc_tick jc \<le> max_tick s" unfolding jc_def by (rule angle_in_travel [OF s(1,3)])+
  have i: "i div kJointsPerLeg = leg" "i mod kJointsPerLeg = j" using assms(4) by (simp_all add: i_def)
  have top: "max_tick s \<le> 4095" using s(3) by (simp add: servo_ok_def)
  obtain limit where limit: "ramp_limit slew dt = Some limit" "1 \<le> limit" "limit \<le> max_ramp_step dt"
    using ramp_limit_ok [OF assms(5,6)] by blast
  define tr where "tr = (if pa_ramping a ! i then ramp_tick limit (pa_last a ! i) (jc_tick jc) else (jc_tick jc, False))"
  define jt where "jt = \<lparr> pj_id = servo_id s, pj_tick = fst tr, pj_leg = word_of_nat leg, pj_joint = word_of_nat j,
    pj_clamped = (jc_clamped_low jc \<or> jc_clamped_high jc) \<rparr>"
  have "slot_goal cfg (max_ramp_step dt) i (pa_last a ! i) (pa_ramping a ! i) jt (snd tr)"
  proof (cases "pa_ramping a ! i")
    case True
    then have "ramp_tick limit (pa_last a ! i) (jc_tick jc) = (fst tr, snd tr)" by (simp add: tr_def)
    note r = ramp_tick_between [OF _ this]
    have "0 \<le> limit" using limit(2) by simp
    then have "\<bar>uint (fst tr) - uint (pa_last a ! i)\<bar> \<le> max_ramp_step dt" "between (pa_last a ! i) (fst tr) (jc_tick jc)"
      "\<not> snd tr \<Longrightarrow> fst tr = jc_tick jc" using r(1-3) limit(3) by (blast intro: order_trans)+
    then show ?thesis unfolding slot_goal_def using s(2,4,5) top travel True i
      by (intro bexI [where x = s]) (auto simp: jt_def simp del: of_nat_unat)
  next
    case False
    then show ?thesis unfolding slot_goal_def using s(2,4,5) top travel i
      by (intro bexI [where x = s]) (auto simp: jt_def tr_def)
  qed
  moreover have "pipe_joint m cfg slew dt leg angles j a = Some \<lparr> pa_joints = pa_joints a @ [jt],
      pa_flags = (if pj_clamped jt then pa_flags a OR kPipelineLegFlagClamped else pa_flags a),
      pa_last = (pa_last a)[i := pj_tick jt], pa_ramping = (pa_ramping a)[i := snd tr] \<rparr>"
    using s(1) limit(1)
    by (cases "ramp_tick limit (pa_last a ! i) (jc_tick jc)") (auto simp: pipe_joint_def jc_def [symmetric] i_def [symmetric] tr_def jt_def split_beta Let_def)
  ultimately show ?thesis by auto
qed

definition slots_done :: "RobotConfig \<Rightarrow> int \<Rightarrow> u16 list \<Rightarrow> bool list \<Rightarrow> nat \<Rightarrow> PipelineJoint list \<Rightarrow> u16 list \<Rightarrow> bool list \<Rightarrow> bool" where
  "slots_done cfg step L R n joints ticks ramps \<longleftrightarrow> length joints = n \<and> length ticks = kNumServos \<and> length ramps = kNumServos \<and>
     (\<forall>i < n. slot_goal cfg step i (L ! i) (R ! i) (joints ! i) (ramps ! i) \<and> ticks ! i = pj_tick (joints ! i)) \<and>
     (\<forall>i. n \<le> i \<and> i < kNumServos \<longrightarrow> ticks ! i = L ! i \<and> ramps ! i = R ! i)"

lemma slots_done_step:
  assumes "slots_done cfg step L R n joints ticks ramps" "n < kNumServos"
    "slot_goal cfg step n (ticks ! n) (ramps ! n) jt r"
  shows "slots_done cfg step L R (Suc n) (joints @ [jt]) (ticks[n := pj_tick jt]) (ramps[n := r])"
  using assms by (auto simp: slots_done_def nth_append nth_list_update less_Suc_eq)

lemma leg_joints_ok:
  assumes cfg: "validateRobotConfig cfg" "config_dims cfg" and leg: "leg < kNumLegs" and "f_rng 600 4500 slew" "dt \<le> 1000"
    and "slots_done cfg (max_ramp_step dt) L R (leg * kJointsPerLeg) (pa_joints a) (pa_last a) (pa_ramping a)"
  shows "\<exists>a'. fold_opt (pipe_joint m cfg slew dt leg angles) [0..<kJointsPerLeg] a = Some a' \<and>
    slots_done cfg (max_ramp_step dt) L R (Suc leg * kJointsPerLeg) (pa_joints a') (pa_last a') (pa_ramping a')"
proof -
  have one: "\<exists>b'. pipe_joint m cfg slew dt leg angles j b = Some b' \<and>
      slots_done cfg (max_ramp_step dt) L R (leg * kJointsPerLeg + Suc j) (pa_joints b') (pa_last b') (pa_ramping b')"
    if "j < kJointsPerLeg" "slots_done cfg (max_ramp_step dt) L R (leg * kJointsPerLeg + j) (pa_joints b) (pa_last b) (pa_ramping b)" for j b
  proof -
    have len: "length (pa_last b) = kNumServos" "length (pa_ramping b) = kNumServos" using that(2) by (simp_all add: slots_done_def)
    have n: "leg * kJointsPerLeg + j < kNumServos" using leg that(1) by (simp add: kNumLegs_def kJointsPerLeg_def kNumServos_def)
    from pipe_joint_ok [OF cfg leg that(1) assms(4,5) len, of m angles] obtain b' jt r where
      b': "pipe_joint m cfg slew dt leg angles j b = Some b'" "pa_joints b' = pa_joints b @ [jt]"
        "pa_last b' = (pa_last b)[leg * kJointsPerLeg + j := pj_tick jt]" "pa_ramping b' = (pa_ramping b)[leg * kJointsPerLeg + j := r]"
        "slot_goal cfg (max_ramp_step dt) (leg * kJointsPerLeg + j) (pa_last b ! (leg * kJointsPerLeg + j)) (pa_ramping b ! (leg * kJointsPerLeg + j)) jt r"
      by blast
    then show ?thesis using slots_done_step [OF that(2) n b'(5)] by simp
  qed
  have "\<exists>a'. fold_opt (pipe_joint m cfg slew dt leg angles) [j..<kJointsPerLeg] b = Some a' \<and>
      slots_done cfg (max_ramp_step dt) L R (leg * kJointsPerLeg + kJointsPerLeg) (pa_joints a') (pa_last a') (pa_ramping a')"
    if "j \<le> kJointsPerLeg" "slots_done cfg (max_ramp_step dt) L R (leg * kJointsPerLeg + j) (pa_joints b) (pa_last b) (pa_ramping b)" for j b
    using that
  proof (induction "kJointsPerLeg - j" arbitrary: j b)
    case (Suc k)
    then have j: "j < kJointsPerLeg" by simp
    from one [OF j Suc.prems(2)] obtain b' where b': "pipe_joint m cfg slew dt leg angles j b = Some b'"
      "slots_done cfg (max_ramp_step dt) L R (leg * kJointsPerLeg + Suc j) (pa_joints b') (pa_last b') (pa_ramping b')" by blast
    have "k = kJointsPerLeg - Suc j" "Suc j \<le> kJointsPerLeg" using Suc.hyps(2) j by simp_all
    from Suc.hyps(1) [OF this b'(2)] show ?case using b'(1) j by (simp add: upt_conv_Cons)
  qed (simp add: le_antisym)
  from this [of 0 a] show ?thesis using assms(6) by (simp add: add.commute)
qed

definition pipe_inv :: "GaitPipeline \<Rightarrow> bool" where
  "pipe_inv p \<longleftrightarrow> gait_inv (gp_engine p) \<and> f_rng 600 4500 (gp_goal_slew p) \<and> length (gp_last_tick p) = kNumServos \<and>
     length (gp_ramping p) = kNumServos"

lemma pipe_legs_ok:
  assumes cfg: "validateRobotConfig cfg" "config_dims cfg" and "dt \<le> 1000" "leg \<le> kNumLegs"
    and "slots_done cfg (max_ramp_step dt) L R (leg * kJointsPerLeg) (po_joints out) (gp_last_tick p) (gp_ramping p)"
    and "gait_inv (gp_engine p)" "f_rng 600 4500 (gp_goal_slew p)" "length (po_legs out) = kNumLegs"
  shows "\<exists>out' p'. fold_opt (pipe_leg m cfg dt feet) [leg..<kNumLegs] (out, p) = Some (out', p') \<and> pipe_inv p' \<and>
    length (po_legs out') = kNumLegs \<and>
    slots_done cfg (max_ramp_step dt) L R kNumServos (po_joints out') (gp_last_tick p') (gp_ramping p')"
  using assms(4-8)
proof (induction "kNumLegs - leg" arbitrary: leg out p)
  case 0
  have "kNumLegs * kJointsPerLeg = kNumServos" by (simp add: kNumLegs_def kJointsPerLeg_def kNumServos_def)
  moreover have "leg = kNumLegs" using 0 by simp
  ultimately show ?case using "0.prems" by (auto simp: pipe_inv_def slots_done_def)
next
  case (Suc k)
  then have leg: "leg < kNumLegs" by simp
  obtain limited ik where ik: "solve_leg m p leg (feet ! leg) = (limited, ik)" by fastforce
  define a where "a = \<lparr> pa_joints = po_joints out, pa_flags = (let f = (if ft_swing (feet ! leg) then kPipelineLegFlagSwing else 0)
      in if ik_reachable ik then f OR kPipelineLegFlagReachable else f), pa_last = gp_last_tick p, pa_ramping = gp_ramping p \<rparr>"
  have "slots_done cfg (max_ramp_step dt) L R (leg * kJointsPerLeg) (pa_joints a) (pa_last a) (pa_ramping a)"
    using Suc.prems(2) by (simp add: a_def)
  from leg_joints_ok [OF cfg leg Suc.prems(4) assms(3) this, of m "[ik_coxa ik, ik_femur ik, ik_tibia ik]"] obtain a' where
    a': "fold_opt (pipe_joint m cfg (gp_goal_slew p) dt leg [ik_coxa ik, ik_femur ik, ik_tibia ik]) [0..<kJointsPerLeg] a = Some a'"
      "slots_done cfg (max_ramp_step dt) L R (Suc leg * kJointsPerLeg) (pa_joints a') (pa_last a') (pa_ramping a')" by blast
  obtain out' p' where op: "pipe_leg m cfg dt feet leg (out, p) = Some (out', p')" "po_joints out' = pa_joints a'"
    "gp_last_tick p' = pa_last a'" "gp_ramping p' = pa_ramping a'" "gp_engine p' = gp_engine p" "gp_goal_slew p' = gp_goal_slew p"
    "length (po_legs out') = kNumLegs"
    using a'(1) Suc.prems(5) by (simp add: pipe_leg_def ik a_def Let_def)
  have "k = kNumLegs - Suc leg" "Suc leg \<le> kNumLegs" using Suc.hyps(2) leg by simp_all
  from Suc.hyps(1) [OF this, of out' p'] show ?case using op a'(2) Suc.prems(3,4) leg by (simp add: upt_conv_Cons)
qed

lemma pipe_update_ok:
  assumes cfg: "validateRobotConfig cfg" "config_dims cfg" and "pipe_inv p" "dt \<le> 1000" "length (po_legs out) = kNumLegs"
  shows "\<exists>out' p'. pipe_update m cfg dt out p = Some (out', p') \<and> pipe_inv p' \<and> length (po_legs out') = kNumLegs \<and>
    slots_done cfg (max_ramp_step dt) (gp_last_tick p) (gp_ramping p) kNumServos (po_joints out') (gp_last_tick p') (gp_ramping p')"
proof -
  define a where "a = advance_pose dt p"
  have a: "gp_engine a = gp_engine p" "gp_goal_slew a = gp_goal_slew p" "gp_last_tick a = gp_last_tick p" "gp_ramping a = gp_ramping p"
    unfolding a_def advance_pose_def Let_def by simp_all
  obtain feet e where e: "gait_update m dt (gp_engine a) = Some (feet, e)" "gait_inv e"
    using gait_update_ok [of "gp_engine a" dt m] assms(3,4) by (auto simp: a pipe_inv_def)
  define b where "b = a \<lparr> gp_engine := e \<rparr>"
  obtain limited feet1 where l: "(if \<not> gp_apply_pose b then limit_stride m e (gp_body b) feet else (False, feet)) = (limited, feet1)"
    by fastforce
  obtain limited' feet2 c where
    c: "(if gp_preview_leg b \<ge> 0 \<and> gp_preview_leg b < int kNumLegs then preview_foot m dt b (nat (gp_preview_leg b)) feet1
         else (False, feet1, b)) = (limited', feet2, c)" by (metis prod_cases3)
  have "gp_engine c = e \<and> gp_goal_slew c = gp_goal_slew p \<and> gp_last_tick c = gp_last_tick p \<and> gp_ramping c = gp_ramping p"
    using c a by (auto simp: b_def preview_foot_def Let_def split_beta split: if_splits)
  then have keep: "gait_inv (gp_engine c)" "f_rng 600 4500 (gp_goal_slew c)" "gp_last_tick c = gp_last_tick p" "gp_ramping c = gp_ramping p"
    using e(2) assms(3) by (simp_all add: pipe_inv_def)
  define out1 where "out1 = out \<lparr> po_joints := [], po_any_unreachable := False, po_any_reach_limited := (limited \<or> limited') \<rparr>"
  have "slots_done cfg (max_ramp_step dt) (gp_last_tick p) (gp_ramping p) (0 * kJointsPerLeg) (po_joints out1) (gp_last_tick c) (gp_ramping c)"
    using assms(3) by (simp add: slots_done_def out1_def keep pipe_inv_def)
  from pipe_legs_ok [OF cfg assms(4) _ this keep(1,2), of m feet2] have
    "\<exists>out' p'. fold_opt (pipe_leg m cfg dt feet2) [0..<kNumLegs] (out1, c) = Some (out', p') \<and> pipe_inv p' \<and>
       length (po_legs out') = kNumLegs \<and>
       slots_done cfg (max_ramp_step dt) (gp_last_tick p) (gp_ramping p) kNumServos (po_joints out') (gp_last_tick p') (gp_ramping p')"
    using assms(5) by (simp add: out1_def)
  moreover have "pipe_update m cfg dt out p = fold_opt (pipe_leg m cfg dt feet2) [0..<kNumLegs] (out1, c)"
    unfolding pipe_update_def Let_def a_def [symmetric] e(1) option.case prod.case b_def [symmetric] l c out1_def ..
  ultimately show ?thesis by simp
qed

lemma pipe_slew: "f_rng 600 4500 (f_add kMinGoalSlewTicksPerSec (f_mul (f_sub kMaxGoalSlewTicksPerSec kMinGoalSlewTicksPerSec)
    (f_div (f_of_int (uint (v :: u8))) (f_lit 255))))"
proof -
  have k: "kMinGoalSlewTicksPerSec = Fin 600" "f_sub kMaxGoalSlewTicksPerSec kMinGoalSlewTicksPerSec = Fin 3900" "f_lit 255 = Fin 255"
    by code_simp+
  define n where "n = unat v"
  have "int n < 256" using uint_bounded [of v] by (simp add: n_def)
  then have n: "n \<le> 255" by simp
  have ui: "uint v = int n" by (simp add: n_def)
  have u: "f_of_int (uint v) = Fin (of_nat n)" unfolding ui using n f_of_int_exact [of "int n"] by simp
  have c: "rnd32 0 = 0" "rnd32 1 = 1" "rnd32 3900 = 3900" "rnd32 600 = 600" "rnd32 4500 = 4500" by code_simp+
  have "f_rng 0 1 (f_round (of_nat n / 255))" using n by (intro f_rng_round) (simp_all add: divide_le_eq c)
  then obtain s where s: "f_round (of_nat n / 255) = Fin s" "0 \<le> s" "s \<le> 1" by (rule f_rngE)
  have "f_rng 0 3900 (f_round (3900 * s))" using s by (intro f_rng_round) (simp_all add: c)
  then obtain t where t: "f_round (3900 * s) = Fin t" "0 \<le> t" "t \<le> 3900" by (rule f_rngE)
  have "f_rng 600 4500 (f_round (600 + t))" using t by (intro f_rng_round) (simp_all add: c)
  then show ?thesis unfolding k(2) by (simp add: k(1,3) u s(1) t(1))
qed

lemma pipe_inv_ops:
  assumes "pipe_inv p"
  shows "pipe_inv (pipe_reconfigure m cfg p)" "pipe_inv (pipe_setGait g p)" "pipe_inv (pipe_setTwist vx vy wz p)"
    "pipe_inv (pipe_setParams cfg h st sp du v p)" "pipe_inv (pipe_setBodyPose pose p)" "pipe_inv (pipe_resetPhase p)"
    "pipe_inv (pipe_setPreviewLeg leg p)" "pipe_inv (pipe_seedGoal cfg i t p)"
proof -
  have g: "gait_inv (gp_engine p)" using assms by (simp add: pipe_inv_def)
  note go = gait_inv_ops [OF g]
  show "pipe_inv (pipe_reconfigure m cfg p)" "pipe_inv (pipe_setGait g p)" "pipe_inv (pipe_setTwist vx vy wz p)"
    "pipe_inv (pipe_setBodyPose pose p)" "pipe_inv (pipe_resetPhase p)" "pipe_inv (pipe_setPreviewLeg leg p)"
    using assms go by (simp_all add: pipe_inv_def pipe_reconfigure_def pipe_setGait_def pipe_setTwist_def pipe_setBodyPose_def
      pipe_resetPhase_def pipe_setPreviewLeg_def)
  have "gait_inv (e \<lparr> ge_gait := x \<rparr>) = gait_inv e" for e x by (simp add: gait_inv_def params_ok_def)
  then show "pipe_inv (pipe_setParams cfg h st sp du v p)"
    using assms go pipe_slew by (simp add: pipe_inv_def pipe_setParams_def Let_def)
  show "pipe_inv (pipe_seedGoal cfg i t p)" using assms by (simp add: pipe_inv_def pipe_seedGoal_def Let_def split: option.split)
qed

lemma pipe_inv_new: "pipe_inv (GaitPipeline_new m cfg)"
proof -
  have "f_rng 600 4500 kMinGoalSlewTicksPerSec" unfolding f_rng_def by code_simp
  then show ?thesis using gait_inv_ops(1) [OF gait_inv_new] by (simp add: pipe_inv_def GaitPipeline_new_def)
qed

section \<open>Any sequence of commands\<close>

text \<open>The operations of the controller on the pipeline; the clock keeps the elapsed time to at most a second.\<close>

datatype pipe_op =
    PipeReconfigure RobotConfig
  | PipeGait GaitId
  | PipeParams RobotConfig u16 u16 u16 u8 u8
  | PipeTwist f32 f32 f32
  | PipePose BodyPose
  | PipeResetPhase
  | PipePreview int
  | PipeSeed RobotConfig u8 u16
  | PipeAdvance RobotConfig u32

fun pipe_step :: "libm \<Rightarrow> pipe_op \<Rightarrow> PipelineOutput \<times> GaitPipeline \<Rightarrow> (PipelineOutput \<times> GaitPipeline) option" where
  "pipe_step m (PipeReconfigure cfg) (out, p) = Some (out, pipe_reconfigure m cfg p)"
| "pipe_step m (PipeGait g) (out, p) = Some (out, pipe_setGait g p)"
| "pipe_step m (PipeParams cfg h st sp du v) (out, p) = Some (out, pipe_setParams cfg h st sp du v p)"
| "pipe_step m (PipeTwist vx vy wz) (out, p) = Some (out, pipe_setTwist vx vy wz p)"
| "pipe_step m (PipePose pose) (out, p) = Some (out, pipe_setBodyPose pose p)"
| "pipe_step m PipeResetPhase (out, p) = Some (out, pipe_resetPhase p)"
| "pipe_step m (PipePreview leg) (out, p) = Some (out, pipe_setPreviewLeg leg p)"
| "pipe_step m (PipeSeed cfg i t) (out, p) = Some (out, pipe_seedGoal cfg i t p)"
| "pipe_step m (PipeAdvance cfg dt) (out, p) = pipe_update m cfg dt out p"

fun pipe_op_ok :: "pipe_op \<Rightarrow> bool" where
  "pipe_op_ok (PipeAdvance cfg dt) \<longleftrightarrow> validateRobotConfig cfg \<and> config_dims cfg \<and> dt \<le> 1000"
| "pipe_op_ok _ \<longleftrightarrow> True"

definition pipe_run :: "libm \<Rightarrow> pipe_op list \<Rightarrow> RobotConfig \<Rightarrow> (PipelineOutput \<times> GaitPipeline) option" where
  "pipe_run m ops cfg = fold_opt (pipe_step m) ops (PipelineOutput_default, GaitPipeline_new m cfg)"

definition pipe_state_ok :: "PipelineOutput \<times> GaitPipeline \<Rightarrow> bool" where
  "pipe_state_ok st \<longleftrightarrow> pipe_inv (snd st) \<and> length (po_legs (fst st)) = kNumLegs"

lemma pipe_inv_step:
  assumes "pipe_op_ok op" "pipe_state_ok st"
  shows "\<exists>st'. pipe_step m op st = Some st' \<and> pipe_state_ok st'"
proof (cases st)
  case (Pair out p)
  then have inv: "pipe_inv p" "length (po_legs out) = kNumLegs" using assms(2) by (simp_all add: pipe_state_ok_def)
  show ?thesis
  proof (cases op)
    case (PipeAdvance cfg dt)
    then have "validateRobotConfig cfg" "config_dims cfg" "dt \<le> 1000" using assms(1) by simp_all
    from pipe_update_ok [OF this(1,2) inv(1) this(3) inv(2), of m] PipeAdvance Pair show ?thesis
      by (auto simp: pipe_state_ok_def)
  qed (simp_all add: Pair pipe_state_ok_def pipe_inv_ops inv)
qed

interpretation pipe_runs: guarded_machine "pipe_step m" pipe_op_ok pipe_state_ok
    "\<lambda>st. \<exists>cfg. st = (PipelineOutput_default, GaitPipeline_new m cfg)" for m
proof
  show "\<exists>st'. pipe_step m op st = Some st' \<and> pipe_state_ok st'" if "pipe_op_ok op" "pipe_state_ok st" for op st
    using that by (rule pipe_inv_step)
qed (auto simp: pipe_state_ok_def pipe_inv_new PipelineOutput_default_def)

lemma pipe_inv_run:
  assumes "list_all pipe_op_ok ops"
  shows "\<exists>out p. pipe_run m ops cfg = Some (out, p) \<and> pipe_inv p \<and> length (po_legs out) = kNumLegs"
proof -
  obtain st where "fold_opt (pipe_step m) ops (PipelineOutput_default, GaitPipeline_new m cfg) = Some st" "pipe_state_ok st"
    using pipe_runs.run [OF assms] by blast
  then show ?thesis by (cases st) (simp add: pipe_run_def pipe_state_ok_def)
qed

text \<open>
  C11: a pipeline update always returns a goal for each of the 18 joints, in slot order and with the
  bus id the configuration gives the joint. A joint that is not being ramped gets a tick inside its
  configured travel, whatever gait, shape, twist, pose (NaN and infinities included) or preview was
  commanded before and whatever the libm returns. A ramping joint moves at most 4.5 ticks per
  millisecond (one tick at least), towards a tick inside the travel and not past it; an update never
  starts a ramp.
\<close>

theorem pipeline_goals_safe:
  assumes "list_all pipe_op_ok ops" and "validateRobotConfig cfg" "config_dims cfg" and "dt \<le> 1000"
  shows "\<exists>out p out' p'. pipe_run m ops cfg0 = Some (out, p) \<and> pipe_update m cfg dt out p = Some (out', p') \<and>
    length (po_joints out') = 18 \<and>
    (\<forall>i < 18. slot_goal cfg (max_ramp_step dt) i (gp_last_tick p ! i) (gp_ramping p ! i) (po_joints out' ! i) (gp_ramping p' ! i))"
proof -
  obtain out p where p: "pipe_run m ops cfg0 = Some (out, p)" "pipe_inv p" "length (po_legs out) = kNumLegs"
    using pipe_inv_run [OF assms(1)] by blast
  from pipe_update_ok [OF assms(2,3) p(2) assms(4) p(3), of m] p(1) show ?thesis
    by (auto simp: slots_done_def kNumServos_def kNumLegs_def kJointsPerLeg_def)
qed

theorem pipeline_goals_safe_witness:
  "\<exists>out p out' p'. pipe_run gait_sample_libm [PipeGait Tripod, PipeTwist (Inf False) NaN (Fin 1), PipeSeed defaultRobotConfig 1 3000,
       PipeAdvance defaultRobotConfig 20, PipePreview 2] defaultRobotConfig = Some (out, p) \<and>
     pipe_update gait_sample_libm defaultRobotConfig 20 out p = Some (out', p') \<and> length (po_joints out') = 18"
proof -
  have "list_all pipe_op_ok [PipeGait Tripod, PipeTwist (Inf False) NaN (Fin 1), PipeSeed defaultRobotConfig 1 3000,
       PipeAdvance defaultRobotConfig 20, PipePreview 2]" "(20 :: u32) \<le> 1000"
    using default_valid default_dims by simp_all
  from pipeline_goals_safe [OF this(1) default_valid default_dims this(2), of gait_sample_libm defaultRobotConfig]
  show ?thesis by blast
qed

lemma find_key: "distinct (map f xs) \<Longrightarrow> x \<in> set xs \<Longrightarrow> find (\<lambda>y. f y = f x) xs = Some x"
  by (induction xs) (auto simp: rev_image_eqI)

text \<open>
  C38: the ramp leaves the configured travel. When a servo's present position, seeded as the motion
  gate opens, is further below its configured travel than one ramp step, the next update commands that
  servo a tick below the travel.
\<close>

theorem pipeline_ramp_leaves_travel:
  assumes "list_all pipe_op_ok ops" and "validateRobotConfig cfg" "config_dims cfg" and "dt \<le> 1000"
    and "s \<in> set (cfg_servos cfg)" and "uint t + max_ramp_step dt < uint (min_tick s)"
  shows "\<exists>out p out' p' jt. pipe_run m ops cfg0 = Some (out, p) \<and>
    pipe_update m cfg dt out (pipe_seedGoal cfg (servo_id s) t p) = Some (out', p') \<and>
    jt \<in> set (po_joints out') \<and> pj_id jt = servo_id s \<and> pj_tick jt < min_tick s"
proof -
  obtain out p where p: "pipe_run m ops cfg0 = Some (out, p)" "pipe_inv p" "length (po_legs out) = kNumLegs"
    using pipe_inv_run [OF assms(1)] by blast
  note sm = validate_servo_map [OF assms(2,3)]
  define i where "i = unat (servo_leg s) * kJointsPerLeg + unat (servo_joint s)"
  have ok: "unat (servo_leg s) < 6" "unat (servo_joint s) < 3"
    using sm(1) assms(5) by (auto simp: list_all_iff servo_ok_def servo_slot_def kNumLegs_def kJointsPerLeg_def)
  then have i: "i < kNumServos" "i mod 256 = i" by (simp_all add: i_def kJointsPerLeg_def kNumLegs_def kNumServos_def)
  have slot: "i div kJointsPerLeg = unat (servo_leg s)" "i mod kJointsPerLeg = unat (servo_joint s)"
    using ok by (simp_all add: i_def kJointsPerLeg_def)
  have "servoForId cfg (servo_id s) = Some s" unfolding servoForId_def by (rule find_key [OF sm(2) assms(5)])
  then have q: "pipe_seedGoal cfg (servo_id s) t p =
      p \<lparr> gp_last_tick := (gp_last_tick p)[i := t], gp_ramping := (gp_ramping p)[i := True] \<rparr>" (is "_ = ?q")
    using i by (simp add: pipe_seedGoal_def i_def [symmetric])
  have "pipe_inv ?q" using pipe_inv_ops(8) [OF p(2), of cfg "servo_id s" t] unfolding q .
  from pipe_update_ok [OF assms(2,3) this assms(4) p(3), of m] obtain out' p' where
    u: "pipe_update m cfg dt out ?q = Some (out', p')"
      "slots_done cfg (max_ramp_step dt) (gp_last_tick ?q) (gp_ramping ?q) kNumServos (po_joints out') (gp_last_tick p') (gp_ramping p')"
    by blast
  define jt where "jt = po_joints out' ! i"
  have "slot_goal cfg (max_ramp_step dt) i t True jt (gp_ramping p' ! i)" "jt \<in> set (po_joints out')"
    using u(2) i(1) p(2) by (auto simp: slots_done_def jt_def pipe_inv_def)
  then obtain s' where "s' \<in> set (cfg_servos cfg)" "servo_leg s' = servo_leg s" "servo_joint s' = servo_joint s"
    "pj_id jt = servo_id s'" "\<bar>uint (pj_tick jt) - uint t\<bar> \<le> max_ramp_step dt"
    unfolding slot_goal_def slot by force
  then obtain s' where s': "s' \<in> set (cfg_servos cfg)" "servo_slot s' = servo_slot s" "pj_id jt = servo_id s'"
    "\<bar>uint (pj_tick jt) - uint t\<bar> \<le> max_ramp_step dt"
    by (simp add: servo_slot_def)
  then have "s' = s" using sm(3) assms(5) by (auto simp: distinct_map dest: inj_onD)
  moreover have "pj_tick jt < min_tick s" using s'(4) assms(6) by (simp add: word_less_def)
  ultimately show ?thesis using p(1) u(1) s'(3) \<open>jt \<in> set (po_joints out')\<close> q by auto
qed

theorem pipeline_ramp_leaves_travel_witness:
  "\<exists>s \<in> set (cfg_servos defaultRobotConfig). \<exists>out p out' p' jt.
     pipe_run gait_sample_libm [PipeGait Tripod] defaultRobotConfig = Some (out, p) \<and>
     pipe_update gait_sample_libm defaultRobotConfig 20 out (pipe_seedGoal defaultRobotConfig (servo_id s) 0 p) = Some (out', p') \<and>
     jt \<in> set (po_joints out') \<and> pj_id jt = servo_id s \<and> pj_tick jt < min_tick s"
proof -
  have "list_ex (\<lambda>s. min_tick s > 512) (cfg_servos defaultRobotConfig)" by code_simp
  then obtain s where s: "s \<in> set (cfg_servos defaultRobotConfig)" "min_tick s > 512" by (auto simp: list_ex_iff)
  have "max_ramp_step 20 = 90" by (simp add: max_ramp_step_def)
  then have "uint (0 :: u16) + max_ramp_step 20 < uint (min_tick s)" using s(2) by (simp add: word_less_def)
  moreover have "list_all pipe_op_ok [PipeGait Tripod]" "(20 :: u32) \<le> 1000" by simp_all
  ultimately show ?thesis
    using pipeline_ramp_leaves_travel [OF _ default_valid default_dims _ s(1)] s(1) by blast
qed

end
