(* ===== verification/ControllerConfig.thy ===== *)
theory ControllerConfig
  imports ConfigSchema
begin

text \<open>
  Validated configuration snapshots for the controller core (\<open>controller/controller_config.h\<close>,
  \<open>controller/controller_config.cpp\<close>, \<open>ControllerConfigSnapshot\<close> of
  \<open>controller/controller_contract.h\<close>).
\<close>

record ControllerConfigSnapshot =
  cs_robot :: RobotConfig
  cs_revision :: u32
  cs_valid :: bool
  cs_persistent :: bool

datatype ConfigSnapshotUpdate = SnapRejected | SnapUnchanged | SnapUpdated

definition makeControllerConfigSnapshot ::
  "RobotConfig \<Rightarrow> u32 \<Rightarrow> bool \<Rightarrow> ControllerConfigSnapshot \<Rightarrow> bool \<times> ControllerConfigSnapshot" where
  "makeControllerConfigSnapshot robot revision persistent out =
     (if \<not> validateRobotConfig robot then (False, out)
      else (True, out \<lparr> cs_robot := robot, cs_revision := revision, cs_valid := True, cs_persistent := persistent \<rparr>))"

definition ConfigSnapshotCache_new :: ControllerConfigSnapshot where
  "ConfigSnapshotCache_new = \<lparr> cs_robot = defaultRobotConfig, cs_revision = 0,
     cs_valid = validateRobotConfig defaultRobotConfig, cs_persistent = False \<rparr>"

definition cache_apply ::
  "RobotConfig \<Rightarrow> u32 \<Rightarrow> bool \<Rightarrow> ControllerConfigSnapshot \<Rightarrow> ConfigSnapshotUpdate \<times> ControllerConfigSnapshot" where
  "cache_apply robot revision persistent c =
     (if \<not> validateRobotConfig robot then (SnapRejected, c)
      else if cs_valid c \<and> revision = cs_revision c then (SnapUnchanged, c)
      else (SnapUpdated, c \<lparr> cs_robot := robot, cs_revision := revision, cs_valid := True, cs_persistent := persistent \<rparr>))"

section \<open>The cached configuration is always a validated one\<close>

definition snapshot_ok :: "ControllerConfigSnapshot \<Rightarrow> bool" where
  "snapshot_ok c \<longleftrightarrow> cs_valid c \<and> validateRobotConfig (cs_robot c) \<and> config_dims (cs_robot c)"

lemma snapshot_ok_new: "snapshot_ok ConfigSnapshotCache_new"
  by (simp add: snapshot_ok_def ConfigSnapshotCache_new_def default_valid default_dims)

lemma snapshot_ok_apply:
  assumes "snapshot_ok c" and "config_dims robot"
  shows "snapshot_ok (snd (cache_apply robot revision persistent c))"
  using assms by (simp add: snapshot_ok_def cache_apply_def)

lemma cache_apply_result:
  assumes "snapshot_ok c" and "cache_apply robot revision persistent c = (u, c')"
  shows "u = SnapRejected \<longleftrightarrow> \<not> validateRobotConfig robot"
    and "u \<noteq> SnapUpdated \<Longrightarrow> c' = c"
    and "u \<noteq> SnapRejected \<Longrightarrow> cs_revision c' = revision"
  using assms by (auto simp: cache_apply_def snapshot_ok_def split: if_splits)

end
