(* ===== verification/ControllerTime.thy ===== *)
theory ControllerTime
  imports Prelude
begin

text \<open>
  Adapter-fed controller time (\<open>controller/controller_time.h\<close>, \<open>controller/controller_time.cpp\<close>,
  \<open>ControllerTime\<close> of \<open>controller/controller_contract.h\<close>): a clock that turns samples of a free-running
  32-bit millisecond counter into elapsed times. Shown here: against an unbounded true time the
  elapsed times are exact across every wrap of the counter, and no step is ever told to integrate
  more than the maximum.
\<close>

record ControllerTime =
  ct_now_ms :: u32
  ct_dt_ms :: u32
  ct_valid :: bool
  ct_overrun :: bool

definition ControllerTime_default :: ControllerTime where
  "ControllerTime_default = \<lparr> ct_now_ms = 0, ct_dt_ms = 0, ct_valid = False, ct_overrun = False \<rparr>"

definition kDefaultMaxControllerElapsedMs :: u32 where "kDefaultMaxControllerElapsedMs = 1000"

record ControllerClock =
  ck_nominal_period_ms :: u32
  ck_max_elapsed_ms :: u32
  ck_last_now_ms :: u32
  ck_initialized :: bool

definition ControllerClock_new :: "u32 \<Rightarrow> u32 \<Rightarrow> ControllerClock" where
  "ControllerClock_new nominal_period_ms max_elapsed_ms =
     \<lparr> ck_nominal_period_ms = nominal_period_ms, ck_max_elapsed_ms = max_elapsed_ms, ck_last_now_ms = 0,
       ck_initialized = False \<rparr>"

definition clock_reset :: "ControllerClock \<Rightarrow> ControllerClock" where
  "clock_reset c = c \<lparr> ck_last_now_ms := 0, ck_initialized := False \<rparr>"

definition sampleMilliseconds :: "u32 \<Rightarrow> ControllerClock \<Rightarrow> ControllerTime \<times> ControllerClock" where
  "sampleMilliseconds now_ms c =
     (let time = ControllerTime_default \<lparr> ct_now_ms := now_ms \<rparr> in
      if \<not> ck_initialized c then
        (time \<lparr> ct_valid := True \<rparr>, c \<lparr> ck_initialized := True, ck_last_now_ms := now_ms \<rparr>)
      else
        let elapsed_ms = now_ms - ck_last_now_ms c; c = c \<lparr> ck_last_now_ms := now_ms \<rparr> in
        if elapsed_ms > ck_max_elapsed_ms c then (time \<lparr> ct_overrun := True \<rparr>, c)
        else (time \<lparr> ct_dt_ms := elapsed_ms, ct_valid := True,
                ct_overrun := (ck_nominal_period_ms c \<noteq> 0 \<and> elapsed_ms > ck_nominal_period_ms c) \<rparr>, c))"

definition controllerTimeFromTickCount :: "u32 \<Rightarrow> u32 \<Rightarrow> ControllerClock \<Rightarrow> ControllerTime \<times> ControllerClock" where
  "controllerTimeFromTickCount tick_count tick_period_ms c =
     (if tick_period_ms = 0 then (ControllerTime_default, c) else sampleMilliseconds (tick_count * tick_period_ms) c)"

section \<open>Exact elapsed time\<close>

text \<open>The samples of a run, one per true time.\<close>

fun clock_samples :: "nat list \<Rightarrow> ControllerClock \<Rightarrow> ControllerTime list" where
  "clock_samples [] c = []"
| "clock_samples (t # ts) c = (let (x, c') = sampleMilliseconds (word_of_nat t) c in x # clock_samples ts c')"

lemma word_gap:
  assumes "t \<le> t'" and "t' - t < 2 ^ 32"
  shows "unat (word_of_nat t' - word_of_nat t :: u32) = t' - t"
proof -
  have "(word_of_nat t' - word_of_nat t :: u32) = word_of_nat (t' - t)" using assms(1) by (simp add: of_nat_diff)
  then show ?thesis using assms(2) by (simp add: unat_of_nat take_bit_nat_eq_self)
qed

lemma sample_dt_bounded:
  "ct_dt_ms (fst (sampleMilliseconds now c)) \<le> ck_max_elapsed_ms c"
  by (simp add: sampleMilliseconds_def ControllerTime_default_def Let_def not_less)

lemma sample_keeps_limits:
  "ck_max_elapsed_ms (snd (sampleMilliseconds now c)) = ck_max_elapsed_ms c"
  "ck_nominal_period_ms (snd (sampleMilliseconds now c)) = ck_nominal_period_ms c"
  "ck_initialized (snd (sampleMilliseconds now c))" "ck_last_now_ms (snd (sampleMilliseconds now c)) = now"
  by (simp_all add: sampleMilliseconds_def Let_def)

definition exact_sample :: "ControllerClock \<Rightarrow> nat \<Rightarrow> nat \<Rightarrow> ControllerTime \<Rightarrow> bool" where
  "exact_sample c t t' x \<longleftrightarrow>
     ct_valid x = (t' - t \<le> unat (ck_max_elapsed_ms c)) \<and> unat (ct_dt_ms x) = (if ct_valid x then t' - t else 0) \<and>
     ct_overrun x = (t' - t > unat (ck_max_elapsed_ms c) \<or>
       ck_nominal_period_ms c \<noteq> 0 \<and> t' - t > unat (ck_nominal_period_ms c))"

lemma sample_exact:
  assumes "ck_initialized c" "ck_last_now_ms c = word_of_nat t" and "t \<le> t'" "t' - t < 2 ^ 32"
    and "ck_nominal_period_ms c \<le> ck_max_elapsed_ms c"
  shows "exact_sample c t t' (fst (sampleMilliseconds (word_of_nat t') c))"
  using assms(1,2,5) word_gap [OF assms(3,4)]
  by (auto simp: exact_sample_def sampleMilliseconds_def ControllerTime_default_def Let_def word_less_nat_alt word_le_nat_alt)

lemma clock_samples_exact:
  assumes "ck_initialized c" "ck_last_now_ms c = word_of_nat t" and "ck_nominal_period_ms c \<le> ck_max_elapsed_ms c"
    and "sorted (t # ts)" and "\<forall>i < length ts. ts ! i - (t # ts) ! i < 2 ^ 32" and "i < length ts"
  shows "exact_sample c ((t # ts) ! i) (ts ! i) (clock_samples ts c ! i)"
  using assms
proof (induction ts arbitrary: c t i)
  case (Cons t' ts)
  define c' where "c' = snd (sampleMilliseconds (word_of_nat t') c)"
  have c': "ck_initialized c'" "ck_last_now_ms c' = word_of_nat t'" "ck_max_elapsed_ms c' = ck_max_elapsed_ms c"
    "ck_nominal_period_ms c' = ck_nominal_period_ms c" by (simp_all add: c'_def sample_keeps_limits)
  have run: "clock_samples (t' # ts) c = fst (sampleMilliseconds (word_of_nat t') c) # clock_samples ts c'"
    by (simp add: c'_def split_beta)
  show ?case
  proof (cases i)
    case 0
    have "t \<le> t'" "t' - t < 2 ^ 32" using Cons.prems(4) Cons.prems(5) [rule_format, of 0] by simp_all
    then show ?thesis using sample_exact [OF Cons.prems(1,2), of t'] Cons.prems(3) run 0 by simp
  next
    case (Suc j)
    have "\<forall>i < length ts. ts ! i - (t' # ts) ! i < 2 ^ 32"
      using Cons.prems(5) by (metis Suc_less_eq length_Cons nth_Cons_Suc)
    then have "exact_sample c' ((t' # ts) ! j) (ts ! j) (clock_samples ts c' ! j)"
      using Cons.prems(3,4,6) Suc by (intro Cons.IH) (simp_all add: c')
    then show ?thesis using Suc run by (simp add: exact_sample_def c')
  qed
qed simp

text \<open>
  The clock measures elapsed time exactly. For any non-decreasing sequence of true times with
  gaps below 2^32 ms, however often the 32-bit counter wraps in between, the first sample after
  construction is valid with no elapsed time, and every later sample is valid exactly when its gap
  is at most the maximum, with the gap as its elapsed time; a longer gap yields an invalid sample
  without elapsed time; and the overrun mark is set exactly when the gap exceeds the nominal period.
\<close>

theorem clock_exact:
  assumes "sorted (t # ts)" and "\<forall>i < length ts. ts ! i - (t # ts) ! i < 2 ^ 32" and "nominal \<le> limit"
  shows "\<exists>xs. clock_samples (t # ts) (ControllerClock_new nominal limit) = \<lparr> ct_now_ms = word_of_nat t,
            ct_dt_ms = 0, ct_valid = True, ct_overrun = False \<rparr> # xs \<and> length xs = length ts \<and>
          (\<forall>i < length ts. let gap = ts ! i - (t # ts) ! i; x = xs ! i in
             ct_valid x = (gap \<le> unat limit) \<and> unat (ct_dt_ms x) = (if gap \<le> unat limit then gap else 0) \<and>
             ct_overrun x = (gap > unat limit \<or> nominal \<noteq> 0 \<and> gap > unat nominal))"
proof -
  define c where "c = snd (sampleMilliseconds (word_of_nat t) (ControllerClock_new nominal limit))"
  have c: "ck_initialized c" "ck_last_now_ms c = word_of_nat t" "ck_max_elapsed_ms c = limit"
    "ck_nominal_period_ms c = nominal"
    by (simp_all add: c_def sample_keeps_limits ControllerClock_new_def)
  have len: "length (clock_samples us d) = length us" for us d
    by (induction us arbitrary: d) (simp_all add: split_beta)
  have first: "clock_samples (t # ts) (ControllerClock_new nominal limit) = \<lparr> ct_now_ms = word_of_nat t,
      ct_dt_ms = 0, ct_valid = True, ct_overrun = False \<rparr> # clock_samples ts c"
    by (simp add: c_def split_beta) (simp add: sampleMilliseconds_def ControllerClock_new_def ControllerTime_default_def)
  have "exact_sample c ((t # ts) ! i) (ts ! i) (clock_samples ts c ! i)" if "i < length ts" for i
    using clock_samples_exact [OF c(1,2) _ assms(1,2) that] assms(3) c(3,4) by simp
  then show ?thesis using first len by (auto simp: exact_sample_def c Let_def)
qed

theorem clock_exact_witness:
  "\<exists>xs. clock_samples [4294967290, 4294967300, 4294968301] (ControllerClock_new 10 1000) =
     \<lparr> ct_now_ms = 4294967290, ct_dt_ms = 0, ct_valid = True, ct_overrun = False \<rparr> # xs \<and> length xs = 2 \<and>
     ct_valid (xs ! 0) \<and> unat (ct_dt_ms (xs ! 0)) = 10 \<and> \<not> ct_valid (xs ! 1)"
proof -
  have "\<forall>i < length [4294967300, 4294968301 :: nat].
      [4294967300, 4294968301] ! i - (4294967290 # [4294967300, 4294968301]) ! i < (2 :: nat) ^ 32"
    by (simp add: less_Suc_eq nth_Cons split: nat.split)
  from clock_exact [OF _ this, of 10 1000] show ?thesis
    by (auto simp: Let_def less_Suc_eq)
qed

end
