(* ===== verification/ContactEstimator.thy ===== *)
theory ContactEstimator
  imports ConfigSchema Runs "HOL-Library.Signed_Division"
begin

text \<open>
  The foot contact estimator (\<open>sensors/contact_estimator.h\<close>, \<open>sensors/contact_estimator.cpp\<close>).
  Values of type \<open>int32_t\<close> are integers, and every addition, subtraction and product on them is
  checked to stay in 32 bits (leaving them is undefined in the source), so the operations that compute
  with pressures return an option. Shown here: for pressures of the 24-bit sensor nothing overflows,
  the published flags agree with the state, a foot reported as confident has a fresh sample and was
  debounced into contact, and a sensor that falls silent or fails is reported as such.
\<close>

section \<open>Data\<close>

datatype ContactState = Air | Near | Touch | Loaded | Release | Stale | Fault

definition kNumFeet :: nat where "kNumFeet = kNumFootSensors"

record FootSample =
  fs_proximity_raw :: u16
  fs_pressure_raw :: int
  fs_ok :: bool

record LegContactState =
  lc_timestamp_ms :: u32
  lc_proximity_raw :: u16
  lc_pressure_raw :: int
  lc_pressure_baseline :: int
  lc_pressure_delta :: int
  lc_state :: ContactState
  lc_confidence :: u8
  lc_near_surface :: bool
  lc_touch :: bool
  lc_loaded :: bool
  lc_release :: bool
  lc_stale :: bool
  lc_fault :: bool

definition LegContactState_default :: LegContactState where
  "LegContactState_default = \<lparr> lc_timestamp_ms = 0, lc_proximity_raw = 0, lc_pressure_raw = 0, lc_pressure_baseline = 0,
     lc_pressure_delta = 0, lc_state = Air, lc_confidence = 0, lc_near_surface = False, lc_touch = False, lc_loaded = False,
     lc_release = False, lc_stale = False, lc_fault = False \<rparr>"

record ContactParams =
  cp_touch_debounce :: u8
  cp_load_debounce :: u8
  cp_release_debounce :: u8
  cp_fault_limit :: u8
  cp_stale_timeout_ms :: u32
  cp_release_num :: u16
  cp_release_den :: u16
  cp_baseline_track :: int

definition ContactParams_default :: ContactParams where
  "ContactParams_default = \<lparr> cp_touch_debounce = 2, cp_load_debounce = 2, cp_release_debounce = 2, cp_fault_limit = 5,
     cp_stale_timeout_ms = 200, cp_release_num = 1, cp_release_den = 2, cp_baseline_track = 1 \<rparr>"

record FootCtx =
  fc_near_thresh :: int
  fc_touch_thresh :: int
  fc_load_thresh :: int
  fc_release_thresh :: int
  fc_enabled :: bool
  fc_touch_count :: u8
  fc_load_count :: u8
  fc_release_count :: u8
  fc_fault_count :: u8
  fc_last_ok_ms :: u32
  fc_seen :: bool

definition FootCtx_default :: FootCtx where
  "FootCtx_default = \<lparr> fc_near_thresh = 0, fc_touch_thresh = 0, fc_load_thresh = 0, fc_release_thresh = 0, fc_enabled = False,
     fc_touch_count = 0, fc_load_count = 0, fc_release_count = 0, fc_fault_count = 0, fc_last_ok_ms = 0, fc_seen = False \<rparr>"

record ContactEstimator =
  ce_feet :: "LegContactState list"
  ce_ctx :: "FootCtx list"
  ce_params :: ContactParams

definition i32_ok :: "int \<Rightarrow> bool" where
  "i32_ok k \<longleftrightarrow> - (2 ^ 31) \<le> k \<and> k < 2 ^ 31"

definition chk32 :: "int \<Rightarrow> int option" where
  "chk32 k = (if i32_ok k then Some k else None)"

section \<open>Operations\<close>

definition clampU8 :: "int \<Rightarrow> u8" where
  "clampU8 v = (if v < 0 then 0 else if v > 255 then 255 else word_of_int v)"

definition release_den :: "ContactParams \<Rightarrow> ContactParams" where
  "release_den p = (if cp_release_den p = 0 then p \<lparr> cp_release_den := 1 \<rparr> else p)"

definition release_thresh :: "ContactParams \<Rightarrow> u16 \<Rightarrow> int option" where
  "release_thresh p touch =
     map_option (\<lambda>k. k div uint (cp_release_den p)) (chk32 (uint touch * uint (cp_release_num p)))"

definition configure_foot :: "ContactParams \<Rightarrow> FootSensorCal \<Rightarrow> FootCtx option" where
  "configure_foot p cal =
     map_option (\<lambda>r. \<lparr> fc_near_thresh = uint (near_thresh cal), fc_touch_thresh = uint (touch_thresh cal),
         fc_load_thresh = uint (load_thresh cal), fc_release_thresh = r, fc_enabled = (foot_enabled cal \<noteq> 0),
         fc_touch_count = 0, fc_load_count = 0, fc_release_count = 0, fc_fault_count = 0, fc_last_ok_ms = 0, fc_seen = False \<rparr>)
       (release_thresh p (touch_thresh cal))"

definition contact_configure :: "FootSensorCal list \<Rightarrow> ContactParams \<Rightarrow> ContactEstimator \<Rightarrow> ContactEstimator option" where
  "contact_configure cal params e =
     (let p = release_den params in
      map_option (\<lambda>ctx. e \<lparr> ce_params := p, ce_ctx := ctx,
          ce_feet := map2 (\<lambda>st c. st \<lparr> lc_pressure_baseline := sint (pressure_baseline c) \<rparr>) (ce_feet e) cal \<rparr>)
        (those (map (configure_foot p) cal)))"

definition contact_setThresholds :: "u8 \<Rightarrow> u16 \<Rightarrow> u16 \<Rightarrow> u16 \<Rightarrow> ContactEstimator \<Rightarrow> ContactEstimator option" where
  "contact_setThresholds leg near touch load e =
     (if unat leg \<ge> kNumFeet then Some e
      else
        let p = release_den (ce_params e); c = ce_ctx e ! unat leg in
        map_option (\<lambda>r. e \<lparr> ce_params := p, ce_ctx := (ce_ctx e)[unat leg := c \<lparr> fc_near_thresh := uint near,
            fc_touch_thresh := uint touch, fc_load_thresh := uint load, fc_release_thresh := r \<rparr>] \<rparr>)
          (release_thresh p touch))"

definition contact_captureBaseline :: "u8 \<Rightarrow> ContactEstimator \<Rightarrow> ContactEstimator" where
  "contact_captureBaseline leg e =
     (if unat leg \<ge> kNumFeet then e
      else let st = ce_feet e ! unat leg
        in e \<lparr> ce_feet := (ce_feet e)[unat leg := st \<lparr> lc_pressure_baseline := lc_pressure_raw st, lc_pressure_delta := 0 \<rparr>] \<rparr>)"

definition contact_setEnabled :: "u8 \<Rightarrow> bool \<Rightarrow> ContactEstimator \<Rightarrow> bool \<times> ContactEstimator" where
  "contact_setEnabled leg enabled e =
     (if unat leg \<ge> kNumFeet then (False, e)
      else
        let c = ce_ctx e ! unat leg in
        if enabled \<and> (fc_touch_thresh c \<le> 0 \<or> fc_load_thresh c \<le> 0 \<or> fc_load_thresh c < fc_touch_thresh c) then (False, e)
        else (True, e \<lparr> ce_ctx := (ce_ctx e)[unat leg := c \<lparr> fc_enabled := enabled \<rparr>] \<rparr>))"

definition contact_reset :: "ContactEstimator \<Rightarrow> ContactEstimator" where
  "contact_reset e = e \<lparr>
     ce_feet := map (\<lambda>st. LegContactState_default \<lparr> lc_pressure_baseline := lc_pressure_baseline st \<rparr>) (ce_feet e),
     ce_ctx := map (\<lambda>c. c \<lparr> fc_touch_count := 0, fc_load_count := 0, fc_release_count := 0, fc_fault_count := 0,
       fc_last_ok_ms := 0, fc_seen := False \<rparr>) (ce_ctx e) \<rparr>"

definition ContactEstimator_new :: ContactEstimator where
  "ContactEstimator_new = contact_reset \<lparr> ce_feet = replicate kNumFeet LegContactState_default,
     ce_ctx = replicate kNumFeet FootCtx_default, ce_params = ContactParams_default \<rparr>"

definition confidenceFor :: "FootCtx \<Rightarrow> ContactState \<Rightarrow> int \<Rightarrow> u8 option" where
  "confidenceFor c state delta =
     (case state of
        Loaded \<Rightarrow>
          if fc_load_thresh c \<le> 0 then Some 255
          else Option.bind (chk32 (delta - fc_load_thresh c)) (\<lambda>margin.
               Option.bind (chk32 (margin * 55)) (\<lambda>scaled.
               Option.bind (chk32 (fc_load_thresh c + 1)) (\<lambda>full.
               map_option clampU8 (chk32 (200 + scaled sdiv full)))))
      | Touch \<Rightarrow> Some 160 | Near \<Rightarrow> Some 96 | Release \<Rightarrow> Some 64 | _ \<Rightarrow> Some 0)"

definition bump_sat :: "u8 \<Rightarrow> u8" where
  "bump_sat n = (if n < 255 then n + 1 else n)"

definition count_sample :: "int \<Rightarrow> bool \<Rightarrow> FootCtx \<Rightarrow> FootCtx" where
  "count_sample delta near c =
     (let c = (if delta \<ge> fc_touch_thresh c then c \<lparr> fc_touch_count := bump_sat (fc_touch_count c), fc_release_count := 0 \<rparr>
               else c \<lparr> fc_touch_count := 0 \<rparr>);
          c = (if delta \<ge> fc_load_thresh c then c \<lparr> fc_load_count := bump_sat (fc_load_count c) \<rparr> else c \<lparr> fc_load_count := 0 \<rparr>)
      in if delta \<le> fc_release_thresh c \<and> \<not> near then c \<lparr> fc_release_count := bump_sat (fc_release_count c) \<rparr>
         else c \<lparr> fc_release_count := 0 \<rparr>)"

definition next_contact :: "ContactParams \<Rightarrow> bool \<Rightarrow> FootCtx \<Rightarrow> ContactState \<Rightarrow> ContactState" where
  "next_contact p near c prev =
     (let load = (fc_load_count c \<ge> cp_load_debounce p); touch = (fc_touch_count c \<ge> cp_touch_debounce p);
          release = (fc_release_count c \<ge> cp_release_debounce p)
      in case prev of
           Near \<Rightarrow> if load then Loaded else if touch then Touch else if \<not> near then Air else prev
         | Touch \<Rightarrow> if load then Loaded else if release then Release else prev
         | Loaded \<Rightarrow> if release then Release else prev
         | Release \<Rightarrow> if load then Loaded else if touch then Touch else if \<not> near then Air else Near
         | _ \<Rightarrow> if load then Loaded else if touch then Touch else if near then Near else Air)"

definition track_baseline :: "ContactParams \<Rightarrow> ContactState \<Rightarrow> int \<Rightarrow> int \<Rightarrow> int option" where
  "track_baseline p next raw baseline =
     (if (next = Air \<or> next = Near) \<and> cp_baseline_track p \<noteq> 0
      then if raw > baseline then chk32 (baseline + cp_baseline_track p)
           else if raw < baseline then chk32 (baseline - cp_baseline_track p) else Some baseline
      else Some baseline)"

definition clear_contact :: "LegContactState \<Rightarrow> LegContactState" where
  "clear_contact st = st \<lparr> lc_near_surface := False, lc_touch := False, lc_loaded := False, lc_release := False, lc_confidence := 0 \<rparr>"

definition foot_update :: "ContactParams \<Rightarrow> FootSample \<Rightarrow> u32 \<Rightarrow> FootCtx \<times> LegContactState \<Rightarrow> (FootCtx \<times> LegContactState) option" where
  "foot_update p s now foot =
     (let (c, st) = foot in
      if \<not> fs_ok s then
        let c = c \<lparr> fc_fault_count := bump_sat (fc_fault_count c) \<rparr> in
        Some (c, if fc_fault_count c \<ge> cp_fault_limit p then clear_contact (st \<lparr> lc_state := Fault, lc_fault := True \<rparr>) else st)
      else
        let c = c \<lparr> fc_fault_count := 0, fc_last_ok_ms := now, fc_seen := True \<rparr>;
            st = st \<lparr> lc_fault := False, lc_timestamp_ms := now, lc_stale := False, lc_proximity_raw := fs_proximity_raw s,
              lc_pressure_raw := fs_pressure_raw s \<rparr>
        in if \<not> fc_enabled c then Some (c, clear_contact (st \<lparr> lc_state := Air, lc_pressure_delta := 0 \<rparr>))
           else Option.bind (chk32 (fs_pressure_raw s - lc_pressure_baseline st)) (\<lambda>delta.
             let near = (uint (fs_proximity_raw s) \<ge> fc_near_thresh c); c = count_sample delta near c;
                 next = next_contact p near c (lc_state st)
             in Option.bind (track_baseline p next (fs_pressure_raw s) (lc_pressure_baseline st)) (\<lambda>baseline.
                map_option (\<lambda>conf. (c, st \<lparr> lc_pressure_delta := delta, lc_near_surface := near, lc_state := next,
                    lc_touch := (next = Touch \<or> next = Loaded), lc_loaded := (next = Loaded), lc_release := (next = Release),
                    lc_pressure_baseline := baseline, lc_confidence := conf \<rparr>))
                  (confidenceFor c next delta))))"

definition contact_update :: "u8 \<Rightarrow> FootSample \<Rightarrow> u32 \<Rightarrow> ContactEstimator \<Rightarrow> ContactEstimator option" where
  "contact_update leg s now e =
     (if unat leg \<ge> kNumFeet then Some e
      else map_option (\<lambda>(c, st). e \<lparr> ce_ctx := (ce_ctx e)[unat leg := c], ce_feet := (ce_feet e)[unat leg := st] \<rparr>)
        (foot_update (ce_params e) s now (ce_ctx e ! unat leg, ce_feet e ! unat leg)))"

definition foot_tick :: "ContactParams \<Rightarrow> u32 \<Rightarrow> FootCtx \<Rightarrow> LegContactState \<Rightarrow> LegContactState" where
  "foot_tick p now c st =
     (if lc_state st = Fault then st
      else if \<not> fc_seen c then st
      else if elapsed now (fc_last_ok_ms c) \<ge> cp_stale_timeout_ms p
      then clear_contact (st \<lparr> lc_state := Stale, lc_stale := True \<rparr>)
      else st)"

definition contact_tickStaleness :: "u32 \<Rightarrow> ContactEstimator \<Rightarrow> ContactEstimator" where
  "contact_tickStaleness now e = e \<lparr> ce_feet := map2 (foot_tick (ce_params e) now) (ce_ctx e) (ce_feet e) \<rparr>"

definition loadedMask :: "ContactEstimator \<Rightarrow> u8" where
  "loadedMask e = fold (\<lambda>i mask. if lc_state (ce_feet e ! i) = Loaded then mask OR push_bit i 1 else mask) [0..<kNumFeet] 0"

section \<open>Invariant\<close>

text \<open>
  The readings of the pressure sensor are 24-bit two's complement numbers; calibrated baselines are
  readings too.
\<close>

definition reading_ok :: "int \<Rightarrow> bool" where
  "reading_ok k \<longleftrightarrow> \<bar>k\<bar> \<le> 2 ^ 23"

definition contact_params_ok :: "ContactParams \<Rightarrow> bool" where
  "contact_params_ok p \<longleftrightarrow> 0 \<le> cp_baseline_track p \<and> cp_baseline_track p \<le> 2 ^ 20 \<and> cp_release_num p \<le> 2 ^ 15"

definition contact_flags :: "LegContactState \<Rightarrow> bool" where
  "contact_flags st \<longleftrightarrow> lc_touch st = (lc_state st \<in> {Touch, Loaded}) \<and> lc_loaded st = (lc_state st = Loaded) \<and>
     lc_release st = (lc_state st = Release) \<and> lc_fault st = (lc_state st = Fault) \<and>
     (lc_state st = Stale \<longrightarrow> lc_stale st) \<and> (lc_stale st \<longrightarrow> lc_state st \<in> {Stale, Fault}) \<and>
     (lc_confidence st \<ge> 128 \<longrightarrow> lc_state st \<in> {Touch, Loaded})"

definition foot_inv :: "FootCtx \<Rightarrow> LegContactState \<Rightarrow> bool" where
  "foot_inv c st \<longleftrightarrow> contact_flags st \<and> \<bar>lc_pressure_baseline st\<bar> \<le> 2 ^ 23 + 2 ^ 20 \<and> reading_ok (lc_pressure_raw st) \<and>
     0 \<le> fc_load_thresh c \<and> fc_load_thresh c \<le> 65535 \<and> (fc_seen c \<longrightarrow> fc_last_ok_ms c = lc_timestamp_ms st)"

definition contact_inv :: "ContactEstimator \<Rightarrow> bool" where
  "contact_inv e \<longleftrightarrow> length (ce_ctx e) = kNumFeet \<and> length (ce_feet e) = kNumFeet \<and> contact_params_ok (ce_params e) \<and>
     (\<forall>i < kNumFeet. foot_inv (ce_ctx e ! i) (ce_feet e ! i))"

lemma chk32_some: "i32_ok k \<Longrightarrow> chk32 k = Some k"
  by (simp add: chk32_def)

lemma sdiv_abs: "0 < b \<Longrightarrow> \<bar>a sdiv b\<bar> \<le> \<bar>a\<bar>" for a b :: int
proof -
  assume b: "0 < b"
  have "\<bar>a\<bar> div b \<le> \<bar>a\<bar>" using b by (cases "a = 0"; cases "b = 1") (simp_all add: int_div_less_self order_less_imp_le)
  moreover have "0 \<le> \<bar>a\<bar> div b" using b by (simp add: pos_imp_zdiv_nonneg_iff)
  ultimately show ?thesis using b by (simp add: signed_divide_int_def abs_mult)
qed

lemma confidenceFor_some:
  assumes "\<bar>delta\<bar> \<le> 2 ^ 24 + 2 ^ 20" "0 \<le> fc_load_thresh c" "fc_load_thresh c \<le> 65535"
  shows "\<exists>conf. confidenceFor c state delta = Some conf \<and> (conf \<ge> 128 \<longrightarrow> state \<in> {Touch, Loaded})"
proof (cases "state = Loaded \<and> 0 < fc_load_thresh c")
  case True
  define scaled where "scaled = (delta - fc_load_thresh c) * 55"
  define q where "q = scaled sdiv (fc_load_thresh c + 1)"
  have "\<bar>delta - fc_load_thresh c\<bar> \<le> 18000000" using assms by simp
  then have s: "\<bar>scaled\<bar> \<le> 990000000" by (simp add: scaled_def)
  moreover have "\<bar>q\<bar> \<le> \<bar>scaled\<bar>" using True sdiv_abs unfolding q_def by simp
  ultimately have "\<bar>q\<bar> \<le> 990000000" by linarith
  then have "i32_ok (delta - fc_load_thresh c)" "i32_ok scaled" "i32_ok (fc_load_thresh c + 1)" "i32_ok (200 + q)"
    using s assms by (simp_all add: i32_ok_def abs_le_iff)
  then show ?thesis using True by (simp add: confidenceFor_def chk32_some scaled_def [symmetric] q_def [symmetric] del: left_diff_distrib_numeral)
qed (use assms(2) in \<open>auto simp: confidenceFor_def split: ContactState.split\<close>)

lemma track_baseline_some:
  assumes "contact_params_ok p" "reading_ok raw" "\<bar>b\<bar> \<le> 2 ^ 23 + 2 ^ 20"
  shows "\<exists>b'. track_baseline p state raw b = Some b' \<and> \<bar>b'\<bar> \<le> 2 ^ 23 + 2 ^ 20"
  using assms by (auto simp: track_baseline_def chk32_def i32_ok_def contact_params_ok_def reading_ok_def abs_le_iff)

lemma next_contact_live: "next_contact p near c prev \<notin> {Stale, Fault}"
  by (simp add: next_contact_def Let_def split: ContactState.split)

lemma count_sample_frame [simp]:
  "fc_load_thresh (count_sample d near c) = fc_load_thresh c" "fc_seen (count_sample d near c) = fc_seen c"
  "fc_last_ok_ms (count_sample d near c) = fc_last_ok_ms c" "fc_enabled (count_sample d near c) = fc_enabled c"
  by (simp_all add: count_sample_def Let_def)

lemma foot_update_ok:
  assumes p: "contact_params_ok p" and s: "reading_ok (fs_pressure_raw s)" and inv: "foot_inv c st"
  shows "\<exists>c' st'. foot_update p s now (c, st) = Some (c', st') \<and> foot_inv c' st' \<and>
    (fs_ok s \<and> \<not> fc_enabled c \<longrightarrow> lc_state st' = Air)"
proof (cases "fs_ok s \<and> fc_enabled c")
  case True
  define delta where "delta = fs_pressure_raw s - lc_pressure_baseline st"
  define near where "near = (uint (fs_proximity_raw s) \<ge> fc_near_thresh c)"
  define c1 where "c1 = count_sample delta near (c \<lparr> fc_fault_count := 0, fc_last_ok_ms := now, fc_seen := True \<rparr>)"
  define state where "state = next_contact p near c1 (lc_state st)"
  have b: "\<bar>lc_pressure_baseline st\<bar> \<le> 2 ^ 23 + 2 ^ 20" and lt: "0 \<le> fc_load_thresh c1" "fc_load_thresh c1 \<le> 65535"
    using inv by (simp_all add: foot_inv_def c1_def)
  have "\<bar>delta\<bar> \<le> \<bar>fs_pressure_raw s\<bar> + \<bar>lc_pressure_baseline st\<bar>" unfolding delta_def by (rule abs_triangle_ineq4)
  also have "\<dots> \<le> 2 ^ 23 + (2 ^ 23 + 2 ^ 20)" using s b unfolding reading_ok_def by (rule add_mono)
  finally have d: "\<bar>delta\<bar> \<le> 2 ^ 24 + 2 ^ 20" by simp
  then have "chk32 delta = Some delta" by (simp add: chk32_def i32_ok_def abs_le_iff)
  moreover obtain b' where b': "track_baseline p state (fs_pressure_raw s) (lc_pressure_baseline st) = Some b'" "\<bar>b'\<bar> \<le> 2 ^ 23 + 2 ^ 20"
    using track_baseline_some [OF p s b] by blast
  moreover obtain conf where conf: "confidenceFor c1 state delta = Some conf" "conf \<ge> 128 \<longrightarrow> state \<in> {Touch, Loaded}"
    using confidenceFor_some [OF d lt] by blast
  ultimately obtain c' st' where u: "foot_update p s now (c, st) = Some (c', st')" "c' = c1" "lc_state st' = state"
    "lc_touch st' = (state = Touch \<or> state = Loaded)" "lc_loaded st' = (state = Loaded)" "lc_release st' = (state = Release)"
    "lc_pressure_baseline st' = b'" "lc_confidence st' = conf" "\<not> lc_fault st'" "\<not> lc_stale st'" "lc_timestamp_ms st' = now"
    "lc_pressure_raw st' = fs_pressure_raw s"
    using True by (simp add: foot_update_def Let_def delta_def [symmetric] near_def [symmetric] c1_def [symmetric] state_def [symmetric])
  have "state \<notin> {Stale, Fault}" unfolding state_def by (rule next_contact_live)
  then show ?thesis using True u b'(2) conf(2) lt s by (auto simp: foot_inv_def contact_flags_def c1_def)
qed (use inv s in \<open>auto simp: foot_update_def Let_def clear_contact_def foot_inv_def contact_flags_def\<close>)

section \<open>Any sequence of operations\<close>

datatype contact_op =
    ContactConfigure "FootSensorCal list" ContactParams
  | ContactThresholds u8 u16 u16 u16
  | ContactBaseline u8
  | ContactEnable u8 bool
  | ContactReset
  | ContactSample u8 FootSample u32
  | ContactTick u32

fun contact_step :: "contact_op \<Rightarrow> ContactEstimator \<Rightarrow> ContactEstimator option" where
  "contact_step (ContactConfigure cal p) e = contact_configure cal p e"
| "contact_step (ContactThresholds leg n t l) e = contact_setThresholds leg n t l e"
| "contact_step (ContactBaseline leg) e = Some (contact_captureBaseline leg e)"
| "contact_step (ContactEnable leg b) e = Some (snd (contact_setEnabled leg b e))"
| "contact_step ContactReset e = Some (contact_reset e)"
| "contact_step (ContactSample leg s now) e = contact_update leg s now e"
| "contact_step (ContactTick now) e = Some (contact_tickStaleness now e)"

abbreviation contact_run :: "contact_op list \<Rightarrow> ContactEstimator \<Rightarrow> ContactEstimator option" where
  "contact_run \<equiv> fold_opt contact_step"

fun contact_op_ok :: "contact_op \<Rightarrow> bool" where
  "contact_op_ok (ContactConfigure cal p) \<longleftrightarrow> length cal = kNumFeet \<and> contact_params_ok p \<and>
     list_all (\<lambda>c. reading_ok (sint (pressure_baseline c))) cal"
| "contact_op_ok (ContactSample leg s now) \<longleftrightarrow> reading_ok (fs_pressure_raw s)"
| "contact_op_ok _ \<longleftrightarrow> True"

lemma release_thresh_some: "contact_params_ok p \<Longrightarrow> \<exists>r. release_thresh (release_den p) t = Some r"
proof -
  assume "contact_params_ok p"
  then have "uint (cp_release_num p) \<le> 2 ^ 15" by (simp add: contact_params_ok_def word_le_def)
  moreover have "uint t \<le> 65535" using uint_bounded [of t] by simp
  ultimately have "uint t * uint (cp_release_num p) \<le> 65535 * 2 ^ 15" by (intro mult_mono) simp_all
  then have "i32_ok (uint t * uint (cp_release_num p))" by (simp add: i32_ok_def order_trans [of _ 0])
  then show ?thesis by (simp add: release_thresh_def release_den_def chk32_some)
qed

lemma release_den_ok: "contact_params_ok p \<Longrightarrow> contact_params_ok (release_den p)"
  by (simp add: release_den_def contact_params_ok_def)

lemma those_all: "\<forall>x \<in> set xs. \<exists>y. f x = Some y \<Longrightarrow> \<exists>ys. those (map f xs) = Some ys \<and> length ys = length xs \<and>
    (\<forall>i < length xs. f (xs ! i) = Some (ys ! i))"
proof (induction xs)
  case (Cons x xs)
  then obtain y ys where "f x = Some y" "those (map f xs) = Some ys" "length ys = length xs" "\<forall>i < length xs. f (xs ! i) = Some (ys ! i)"
    by auto
  then show ?case by (auto simp: nth_Cons split: nat.split)
qed simp

lemma configure_foot_some:
  assumes "configure_foot p cal = Some c"
  shows "fc_load_thresh c = uint (load_thresh cal)" "\<not> fc_seen c"
  using assms by (auto simp: configure_foot_def)

lemma contact_configure_ok:
  assumes "contact_op_ok (ContactConfigure cal p)" "contact_inv e"
  shows "\<exists>e'. contact_configure cal p e = Some e' \<and> contact_inv e' \<and>
    (\<forall>i < kNumFeet. \<not> fc_seen (ce_ctx e' ! i) \<and> lc_state (ce_feet e' ! i) = lc_state (ce_feet e ! i) \<and>
       lc_confidence (ce_feet e' ! i) = lc_confidence (ce_feet e ! i))"
proof -
  let ?f = "configure_foot (release_den p)"
  have "\<exists>c. ?f cal = Some c" for cal
    using assms(1) release_thresh_some [of p "touch_thresh cal"] by (auto simp: configure_foot_def)
  then obtain ctx where ctx: "those (map ?f cal) = Some ctx" "length ctx = kNumFeet" "\<forall>i < kNumFeet. ?f (cal ! i) = Some (ctx ! i)"
    using those_all [of cal ?f] assms(1) by auto
  have c: "0 \<le> fc_load_thresh (ctx ! i) \<and> fc_load_thresh (ctx ! i) \<le> 65535 \<and> \<not> fc_seen (ctx ! i)" if "i < kNumFeet" for i
  proof -
    have "?f (cal ! i) = Some (ctx ! i)" using ctx(3) that by blast
    then have "fc_load_thresh (ctx ! i) = uint (load_thresh (cal ! i))" "\<not> fc_seen (ctx ! i)"
      by (rule configure_foot_some)+
    then show ?thesis using uint_bounded [of "load_thresh (cal ! i)"] by simp
  qed
  have b: "\<bar>sint (pressure_baseline (cal ! i))\<bar> \<le> 2 ^ 23" if "i < kNumFeet" for i
    using assms(1) that by (simp add: list_all_length reading_ok_def)
  define e' where "e' = e \<lparr> ce_params := release_den p, ce_ctx := ctx,
    ce_feet := map2 (\<lambda>st c. st \<lparr> lc_pressure_baseline := sint (pressure_baseline c) \<rparr>) (ce_feet e) cal \<rparr>"
  have len: "length (ce_feet e) = kNumFeet" "length cal = kNumFeet" using assms by (simp_all add: contact_inv_def)
  then have feet: "ce_feet e' ! i = (ce_feet e ! i) \<lparr> lc_pressure_baseline := sint (pressure_baseline (cal ! i)) \<rparr>" if "i < kNumFeet" for i
    using that by (simp add: e'_def)
  have "foot_inv (ce_ctx e' ! i) (ce_feet e' ! i)" if "i < kNumFeet" for i
    using assms(2) that c [OF that] b [OF that] unfolding feet [OF that]
    by (simp add: contact_inv_def foot_inv_def contact_flags_def e'_def)
  then have "contact_inv e'" using assms ctx(2) len release_den_ok by (simp add: contact_inv_def e'_def)
  moreover have "contact_configure cal p e = Some e'" by (simp add: contact_configure_def ctx(1) e'_def)
  ultimately show ?thesis using feet c by (simp add: e'_def)
qed

lemma contact_inv_upd:
  assumes "contact_inv e" "foot_inv c st"
  shows "contact_inv (e \<lparr> ce_ctx := (ce_ctx e)[i := c], ce_feet := (ce_feet e)[i := st] \<rparr>)"
  unfolding contact_inv_def
proof (intro conjI allI impI)
  fix j assume "j < kNumFeet"
  then show "foot_inv (ce_ctx (e \<lparr> ce_ctx := (ce_ctx e)[i := c], ce_feet := (ce_feet e)[i := st] \<rparr>) ! j)
      (ce_feet (e \<lparr> ce_ctx := (ce_ctx e)[i := c], ce_feet := (ce_feet e)[i := st] \<rparr>) ! j)"
    using assms by (cases "i = j") (simp_all add: contact_inv_def)
qed (use assms in \<open>simp_all add: contact_inv_def\<close>)

lemma contact_inv_foot: "contact_inv e \<Longrightarrow> foot_inv (ce_ctx e ! i) st \<Longrightarrow> contact_inv (e \<lparr> ce_feet := (ce_feet e)[i := st] \<rparr>)"
  using contact_inv_upd [of e "ce_ctx e ! i" st i] by simp

lemma contact_inv_step:
  assumes "contact_op_ok op" "contact_inv e"
  shows "\<exists>e'. contact_step op e = Some e' \<and> contact_inv e'"
proof (cases op)
  case (ContactConfigure cal p)
  then show ?thesis using contact_configure_ok assms by fastforce
next
  case (ContactThresholds leg n t l)
  have "0 \<le> uint l" "uint l \<le> 65535" using uint_bounded [of l] by simp_all
  then show ?thesis
    using ContactThresholds assms release_thresh_some [of "ce_params e" t]
    by (auto simp: contact_setThresholds_def Let_def contact_inv_def foot_inv_def release_den_ok nth_list_update)
next
  case (ContactBaseline leg)
  have "foot_inv (ce_ctx e ! i) (st \<lparr> lc_pressure_baseline := lc_pressure_raw st, lc_pressure_delta := 0 \<rparr>)"
    if "i < kNumFeet" "st = ce_feet e ! i" for i st
    using assms(2) that by (auto simp: contact_inv_def foot_inv_def contact_flags_def reading_ok_def)
  then show ?thesis
    using ContactBaseline assms(2) contact_inv_foot by (auto simp: contact_captureBaseline_def Let_def not_le)
next
  case (ContactEnable leg b)
  then show ?thesis using assms(2)
    by (auto simp: contact_setEnabled_def Let_def contact_inv_def foot_inv_def nth_list_update)
next
  case ContactReset
  then show ?thesis using assms(2)
    by (auto simp: contact_reset_def contact_inv_def foot_inv_def contact_flags_def LegContactState_default_def reading_ok_def)
next
  case (ContactSample leg s now)
  show ?thesis
  proof (cases "unat leg < kNumFeet")
    case True
    then have "contact_params_ok (ce_params e)" "reading_ok (fs_pressure_raw s)" "foot_inv (ce_ctx e ! unat leg) (ce_feet e ! unat leg)"
      using assms ContactSample by (simp_all add: contact_inv_def)
    from foot_update_ok [OF this, of now] show ?thesis
      using True ContactSample contact_inv_upd [OF assms(2)] by (auto simp: contact_update_def)
  qed (use ContactSample assms(2) in \<open>simp add: contact_update_def\<close>)
next
  case (ContactTick now)
  then show ?thesis using assms(2)
    by (auto simp: contact_tickStaleness_def foot_tick_def clear_contact_def contact_inv_def foot_inv_def contact_flags_def)
qed

lemma contact_inv_new: "contact_inv ContactEstimator_new"
  by (auto simp: contact_inv_def ContactEstimator_new_def contact_reset_def foot_inv_def contact_flags_def
      LegContactState_default_def FootCtx_default_def reading_ok_def contact_params_ok_def ContactParams_default_def)

interpretation contact_runs: guarded_machine contact_step contact_op_ok contact_inv "\<lambda>e. e = ContactEstimator_new"
  by unfold_locales (simp_all add: contact_inv_step contact_inv_new)

text \<open>
  The baseline of a foot is a 32-bit field of the configuration that no validation looks at. A
  configuration with a baseline outside the range of the sensor is accepted, and the first reading of
  the foot overflows the 32-bit difference, so the bound on the baselines is a hypothesis of what
  follows.
\<close>

lemma unchecked_baseline_overflows:
  defines "cfg \<equiv> defaultRobotConfig
    \<lparr> cfg_feet := (cfg_feet defaultRobotConfig)[3 := \<lparr> pressure_baseline = 0x80000000, near_thresh = 20, touch_thresh = 60,
        load_thresh = 400, foot_enabled = 1 \<rparr>] \<rparr>"
  shows "validateRobotConfig cfg" and
    "\<exists>e. contact_configure (cfg_feet cfg) ContactParams_default ContactEstimator_new = Some e \<and>
       contact_update 3 \<lparr> fs_proximity_raw = 0, fs_pressure_raw = 0, fs_ok = True \<rparr> 10 e = None"
proof -
  show "validateRobotConfig cfg" unfolding cfg_def by code_simp
  have "(case contact_configure (cfg_feet cfg) ContactParams_default ContactEstimator_new of
      Some e \<Rightarrow> contact_update 3 \<lparr> fs_proximity_raw = 0, fs_pressure_raw = 0, fs_ok = True \<rparr> 10 e = None | None \<Rightarrow> False)"
    unfolding cfg_def by code_simp
  then show "\<exists>e. contact_configure (cfg_feet cfg) ContactParams_default ContactEstimator_new = Some e \<and>
      contact_update 3 \<lparr> fs_proximity_raw = 0, fs_pressure_raw = 0, fs_ok = True \<rparr> 10 e = None"
    by (auto split: option.splits)
qed

text \<open>
  C23: within the range of the 24-bit pressure sensor the contact reports are consistent. For any
  sequence of estimator operations whose readings and configured baselines lie within 24 bits, whose
  baseline tracking step is at most 2^20 and whose release ratio has a numerator of at most 2^15, no
  32-bit integer overflows. After the staleness check of a pass every foot's flags agree with its
  state (touch for touch and loaded, loaded, release, stale, fault, at most one of them being a live
  contact), and a confidence of 128 or more, which is what the controller counts, is only reported
  for a foot in contact. A foot that has been sampled since the last configuration and is neither
  stale nor faulty has a good sample younger than the timeout, also across a wrap of the millisecond
  counter; of a foot not sampled since then nothing is said about the age of its report (a
  reconfiguration can keep an old one, as shown below).
\<close>

theorem contact_reports_trustworthy:
  assumes "list_all contact_op_ok ops"
  shows "\<exists>e. contact_run ops ContactEstimator_new = Some e \<and>
    (\<forall>i < 6. contact_flags (ce_feet (contact_tickStaleness now e) ! i) \<and>
       (fc_seen (ce_ctx e ! i) \<and> \<not> lc_stale (ce_feet (contact_tickStaleness now e) ! i) \<and>
        \<not> lc_fault (ce_feet (contact_tickStaleness now e) ! i) \<longrightarrow>
        elapsed now (lc_timestamp_ms (ce_feet (contact_tickStaleness now e) ! i)) < cp_stale_timeout_ms (ce_params e)))"
proof -
  obtain e where e: "contact_run ops ContactEstimator_new = Some e" "contact_inv e"
    using contact_runs.run [OF assms refl] by blast
  have t: "contact_inv (contact_tickStaleness now e)" using contact_inv_step [of "ContactTick now" e] e(2) by simp
  have "contact_flags (ce_feet (contact_tickStaleness now e) ! i) \<and>
       (fc_seen (ce_ctx e ! i) \<and> \<not> lc_stale (ce_feet (contact_tickStaleness now e) ! i) \<and>
        \<not> lc_fault (ce_feet (contact_tickStaleness now e) ! i) \<longrightarrow>
        elapsed now (lc_timestamp_ms (ce_feet (contact_tickStaleness now e) ! i)) < cp_stale_timeout_ms (ce_params e))"
    if "i < kNumFeet" for i
  proof -
    have f: "ce_feet (contact_tickStaleness now e) ! i = foot_tick (ce_params e) now (ce_ctx e ! i) (ce_feet e ! i)"
      using that e(2) by (simp add: contact_tickStaleness_def contact_inv_def)
    have "foot_inv (ce_ctx e ! i) (ce_feet e ! i)" "contact_flags (ce_feet (contact_tickStaleness now e) ! i)"
      using that e(2) t by (simp_all add: contact_inv_def foot_inv_def)
    then show ?thesis unfolding f
      by (auto simp: foot_inv_def contact_flags_def foot_tick_def clear_contact_def not_le)
  qed
  then show ?thesis using e(1) by (auto simp: kNumFeet_def kNumFootSensors_def)
qed

definition contact_sample_ops :: "contact_op list" where
  "contact_sample_ops =
     (let cal = \<lparr> pressure_baseline = 50, near_thresh = 5, touch_thresh = 10, load_thresh = 20, foot_enabled = 1 \<rparr>;
          s = \<lparr> fs_proximity_raw = 7, fs_pressure_raw = 100, fs_ok = True \<rparr>
      in [ContactConfigure (replicate 6 cal) ContactParams_default, ContactSample 3 s 1000, ContactSample 3 s 1020])"

lemma contact_sample_ok: "list_all contact_op_ok contact_sample_ops"
  by code_simp

theorem contact_reports_trustworthy_witness:
  "\<exists>e. contact_run contact_sample_ops ContactEstimator_new = Some e \<and> lc_state (ce_feet e ! 3) = Loaded \<and>
     contact_flags (ce_feet (contact_tickStaleness 5000 e) ! 3)"
proof -
  have "map_option (\<lambda>e. lc_state (ce_feet e ! 3)) (contact_run contact_sample_ops ContactEstimator_new) = Some Loaded"
    by code_simp
  moreover obtain e where "contact_run contact_sample_ops ContactEstimator_new = Some e"
    "\<forall>i < 6. contact_flags (ce_feet (contact_tickStaleness 5000 e) ! i)"
    using contact_reports_trustworthy [OF contact_sample_ok, of 5000] by blast
  ultimately show ?thesis by simp
qed

lemma unseen_tick:
  assumes "\<not> fc_seen (ce_ctx e ! i)" "i < length (ce_ctx e)" "i < length (ce_feet e)"
  shows "ce_feet (fold contact_tickStaleness ticks e) ! i = ce_feet e ! i"
  using assms
proof (induction ticks arbitrary: e)
  case (Cons now ticks)
  then show ?case by (simp add: contact_tickStaleness_def foot_tick_def)
qed simp

text \<open>
  C39: a reconfiguration hides a silent sensor. Configuring the estimator forgets that a foot was ever
  sampled but keeps its published contact; from then on no staleness check, however late, changes the
  foot, so a foot that was loaded is reported as loaded, with its confidence, for as long as its sensor
  stays silent.
\<close>

theorem contact_reconfigure_hides_silence:
  assumes "list_all contact_op_ok ops" and "contact_run ops ContactEstimator_new = Some e"
    and "contact_op_ok (ContactConfigure cal p)" and "i < 6"
  shows "\<exists>e'. contact_configure cal p e = Some e' \<and>
    lc_state (ce_feet (fold contact_tickStaleness ticks e') ! i) = lc_state (ce_feet e ! i) \<and>
    lc_confidence (ce_feet (fold contact_tickStaleness ticks e') ! i) = lc_confidence (ce_feet e ! i)"
proof -
  have "contact_inv e" using contact_runs.run_inv [OF assms(1) refl assms(2)] .
  from contact_configure_ok [OF assms(3) this] obtain e' where e': "contact_configure cal p e = Some e'" "contact_inv e'"
    "\<forall>i < kNumFeet. \<not> fc_seen (ce_ctx e' ! i) \<and> lc_state (ce_feet e' ! i) = lc_state (ce_feet e ! i) \<and>
       lc_confidence (ce_feet e' ! i) = lc_confidence (ce_feet e ! i)" by blast
  moreover have "i < kNumFeet" using assms(4) by (simp add: kNumFeet_def kNumFootSensors_def)
  ultimately show ?thesis using unseen_tick [of e' i ticks] by (auto simp: contact_inv_def)
qed

theorem contact_reconfigure_hides_silence_witness:
  "\<exists>e e'. contact_run contact_sample_ops ContactEstimator_new = Some e \<and>
     contact_configure (cfg_feet defaultRobotConfig) ContactParams_default e = Some e' \<and>
     lc_state (ce_feet (fold contact_tickStaleness [1200, 60000, 3600000] e') ! 3) = Loaded \<and>
     lc_confidence (ce_feet (fold contact_tickStaleness [1200, 60000, 3600000] e') ! 3) \<ge> 128"
proof -
  have "map_option (\<lambda>e. (lc_state (ce_feet e ! 3), lc_confidence (ce_feet e ! 3) \<ge> 128))
      (contact_run contact_sample_ops ContactEstimator_new) = Some (Loaded, True)" by code_simp
  then obtain e where e: "contact_run contact_sample_ops ContactEstimator_new = Some e" "lc_state (ce_feet e ! 3) = Loaded"
    "lc_confidence (ce_feet e ! 3) \<ge> 128" by auto
  have "contact_op_ok (ContactConfigure (cfg_feet defaultRobotConfig) ContactParams_default)" "(3 :: nat) < 6" by code_simp+
  from contact_reconfigure_hides_silence [OF contact_sample_ok e(1) this, of "[1200, 60000, 3600000]"] show ?thesis
    using e by auto
qed

end
