(* ===== verification/ControllerCore.thy ===== *)
theory ControllerCore
  imports GaitPipeline TrickEngine BodyCommandShaper ControllerConfig ControllerTime ContactEstimator
    StateMachine MotionApi MaintTargetApi
begin

text \<open>
  One controller step (\<open>controller/controller_core.h\<close>, \<open>controller/controller_core.cpp\<close>, the value
  types of \<open>controller/controller_contract.h\<close>, \<open>controller/command_frame.h\<close> and
  \<open>dxl/dxl_status.h\<close>): the composition of the configuration cache, command arbiter, safety state
  machine, choreography engine, body command shaper and gait pipeline. The step is partial because the
  loops and float conversions it reaches are; it is shown total for commands in the envelopes of the
  RC bridge and the motion API. The pipeline and the servo map refer to the cached configuration.
\<close>

section \<open>Snapshots and commands\<close>

datatype SnapshotValidity = ValUnknown | ValFresh | ValStale | ValFault

record BatterySnapshot =
  bs_millivolts :: u16
  bs_valid :: bool
  bs_validity :: SnapshotValidity

record ServoStatus =
  ss_id :: u8
  ss_present_position :: i32
  ss_present_velocity :: i32
  ss_present_load :: i32
  ss_present_voltage_mv :: u16
  ss_present_temperature_c :: i8
  ss_hardware_error :: u8
  ss_torque_enabled :: bool
  ss_ok :: bool

record DxlSnapshot =
  ds_servos :: "ServoStatus list"
  ds_servo_count :: nat
  ds_validity :: SnapshotValidity
  ds_configured_servo_coverage :: bool
  ds_pose_known_mask :: u32
  ds_config_revision :: u32
  ds_arming_ready :: bool
  ds_torque_off :: bool
  ds_hard_fault :: bool

record ContactSnapshot =
  cn_feet :: "LegContactState list"
  cn_present_mask :: u8
  cn_validity :: SnapshotValidity

record RcIntent =
  ri_command :: ControllerCommand
  ri_ever_seen :: bool
  ri_kill :: bool
  ri_armed :: bool
  ri_failsafe :: bool
  ri_autonomy_enabled :: bool

record FeatureSnapshot =
  fe_foot_contact_enabled :: bool
  fe_terrain_leveling_enabled :: bool
  fe_sensor_polling_enabled :: bool
  fe_jetson_control_enabled :: bool
  fe_passive_pose_enabled :: bool

record MaintenanceIntent =
  mn_lock_held :: bool
  mn_recovery_lock :: bool
  mn_lock_token :: u32
  mn_control_mode :: MaintControlMode
  mn_targets :: MaintTargetSet

record ControllerIntent =
  ci_rc :: RcIntent
  ci_motion :: MotionIntent
  ci_maintenance :: MaintenanceIntent
  ci_features :: FeatureSnapshot
  ci_host_estop :: bool
  ci_host_disarm :: bool
  ci_clear_fault_requested :: bool
  ci_passive_requested :: bool
  ci_jetson_heartbeat_received :: bool

record RobotState =
  rs_battery :: BatterySnapshot
  rs_dxl :: DxlSnapshot
  rs_contact :: ContactSnapshot
  rs_config_ready :: bool
  rs_watchdog_fault :: bool

record ControllerDiagnostics =
  cd_config_revision :: u32
  cd_intent_sequence :: u32
  cd_confident_contact_feet :: nat
  cd_applied_body_height_mm :: u16
  cd_applied_stride_mm :: u16
  cd_applied_step_height_mm :: u16
  cd_applied_duty_x255 :: u8
  cd_applied_speed_x255 :: u8
  cd_gait_tune_param :: GaitTuneParam
  cd_gait_tune_active :: bool
  cd_gait_tune_preview :: bool
  cd_gait_save_requested :: bool
  cd_gait_save_seq :: u32
  cd_motion_gate_rising :: bool
  cd_motion_gate_falling :: bool
  cd_config_reapplied :: bool
  cd_maintenance_session_started :: bool
  cd_clear_maintenance_targets :: bool
  cd_clear_maintenance_lock :: bool
  cd_clear_passive_request :: bool
  cd_any_goal_clamped :: bool
  cd_any_goal_unreachable :: bool
  cd_any_goal_reach_limited :: bool

definition ControllerDiagnostics_default :: ControllerDiagnostics where
  "ControllerDiagnostics_default = \<lparr> cd_config_revision = 0, cd_intent_sequence = 0, cd_confident_contact_feet = 0,
     cd_applied_body_height_mm = 0, cd_applied_stride_mm = 0, cd_applied_step_height_mm = 0, cd_applied_duty_x255 = 0,
     cd_applied_speed_x255 = 0, cd_gait_tune_param = TuneStepHeight, cd_gait_tune_active = False, cd_gait_tune_preview = False,
     cd_gait_save_requested = False, cd_gait_save_seq = 0, cd_motion_gate_rising = False, cd_motion_gate_falling = False,
     cd_config_reapplied = False, cd_maintenance_session_started = False, cd_clear_maintenance_targets = False,
     cd_clear_maintenance_lock = False, cd_clear_passive_request = False, cd_any_goal_clamped = False,
     cd_any_goal_unreachable = False, cd_any_goal_reach_limited = False \<rparr>"

record RobotCommand =
  cm_safety_state :: State
  cm_fault_reason :: FaultReason
  cm_command_source :: CommandSource
  cm_motion_authorized :: bool
  cm_motion_gate :: bool
  cm_allow_dxl_power :: bool
  cm_allow_torque :: bool
  cm_goal_valid :: bool
  cm_goals :: PipelineOutput
  cm_diagnostics :: ControllerDiagnostics

definition RobotCommand_default :: RobotCommand where
  "RobotCommand_default = \<lparr> cm_safety_state = Boot, cm_fault_reason = NoFault, cm_command_source = SrcNone,
     cm_motion_authorized = False, cm_motion_gate = False, cm_allow_dxl_power = False, cm_allow_torque = False,
     cm_goal_valid = False, cm_goals = PipelineOutput_default, cm_diagnostics = ControllerDiagnostics_default \<rparr>"

definition diag :: "(ControllerDiagnostics \<Rightarrow> ControllerDiagnostics) \<Rightarrow> RobotCommand \<Rightarrow> RobotCommand" where
  "diag f c = c \<lparr> cm_diagnostics := f (cm_diagnostics c) \<rparr>"

record ControllerCore =
  co_config_cache :: ControllerConfigSnapshot
  co_pipeline :: GaitPipeline
  co_arbiter :: CommandArbiter
  co_state_machine :: StateMachine
  co_trick_engine :: TrickEngine
  co_body_command_shaper :: BodyCommandShaper
  co_applied_intent_sequence :: u32
  co_applied_gait :: u8
  co_idle_seen_intent_sequence :: u32
  co_previous_rc_trick :: TrickId
  co_previous_motion_gate :: bool
  co_previous_maintenance_authority :: bool

section \<open>Helpers\<close>

definition kAllServoPosesKnown :: u32 where "kAllServoPosesKnown = push_bit kNumServos 1 - 1"
definition kContactConfidenceMinimum :: u8 where "kContactConfidenceMinimum = 128"
definition kMinimumConfidentFeet :: nat where "kMinimumConfidentFeet = 4"
definition kGaitTunePreviewLeg :: int where "kGaitTunePreviewLeg = 0"

definition gaitFromWire :: "u8 \<Rightarrow> GaitId" where
  "gaitFromWire gait = (if gait > gaitCode Crawl then Stand else [Stand, Sit, Tripod, Ripple, Wave, Crawl] ! unat gait)"

definition f_exceeds :: "f32 \<Rightarrow> rat \<Rightarrow> bool" where
  "f_exceeds v bound \<longleftrightarrow> f_lt (f_lit bound) (fabsf v)"

definition rcCommandIsActive :: "ControllerCommand \<Rightarrow> bool" where
  "rcCommandIsActive c \<longleftrightarrow> cc_valid c \<and>
     (f_exceeds (cc_twist_vx c) (5 / 100) \<or> f_exceeds (cc_twist_vy c) (5 / 100) \<or> f_exceeds (cc_twist_wz c) (5 / 100) \<or>
      f_exceeds (cc_pose_x_mm c) 2 \<or> f_exceeds (cc_pose_y_mm c) 2 \<or> f_exceeds (cc_pose_z_mm c) 2 \<or>
      f_exceeds (cc_pose_roll c) (2 / 100) \<or> f_exceeds (cc_pose_pitch c) (2 / 100) \<or> f_exceeds (cc_pose_yaw c) (2 / 100) \<or>
      cc_trick c \<noteq> TrickNone)"

definition sticksAreActive :: "ControllerCommand \<Rightarrow> bool" where
  "sticksAreActive c \<longleftrightarrow>
     f_exceeds (cc_twist_vx c) (12 / 100) \<or> f_exceeds (cc_twist_vy c) (12 / 100) \<or> f_exceeds (cc_twist_wz c) (12 / 100) \<or>
     f_exceeds (cc_pose_x_mm c) 5 \<or> f_exceeds (cc_pose_y_mm c) 5 \<or> f_exceeds (cc_pose_z_mm c) 5 \<or>
     f_exceeds (cc_pose_roll c) (5 / 100) \<or> f_exceeds (cc_pose_pitch c) (5 / 100) \<or> f_exceeds (cc_pose_yaw c) (5 / 100)"

definition poseFromMotion :: "MotionIntent \<Rightarrow> BodyPose" where
  "poseFromMotion motion = \<lparr> bp_x_mm = mi_pose_x_mm motion, bp_y_mm = mi_pose_y_mm motion, bp_z_mm = mi_pose_z_mm motion,
     bp_roll = mi_pose_roll motion, bp_pitch = mi_pose_pitch motion, bp_yaw = mi_pose_yaw motion \<rparr>"

definition commandPlanarToBody :: "f32 \<Rightarrow> f32 \<Rightarrow> f32 \<times> f32" where
  "commandPlanarToBody forward left = (f_neg left, forward)"

definition commandAttitudeToBody :: "f32 \<Rightarrow> f32 \<Rightarrow> f32 \<times> f32" where
  "commandAttitudeToBody roll_about_forward pitch_about_left = (f_neg pitch_about_left, roll_about_forward)"

definition commandPoseToBody :: "BodyPose \<Rightarrow> BodyPose" where
  "commandPoseToBody c =
     (let (x, y) = commandPlanarToBody (bp_x_mm c) (bp_y_mm c); (roll, pitch) = commandAttitudeToBody (bp_roll c) (bp_pitch c)
      in c \<lparr> bp_x_mm := x, bp_y_mm := y, bp_roll := roll, bp_pitch := pitch \<rparr>)"

definition rcGaitFromIndex :: "nat \<Rightarrow> GaitId" where
  "rcGaitFromIndex gait_index = [Wave, Ripple, Tripod] ! (if gait_index > 2 then 2 else gait_index)"

section \<open>Construction\<close>

definition reset_height :: "RobotConfig \<Rightarrow> f32" where
  "reset_height cfg = f_of_int (uint (body_height_mm (cfg_gait cfg)))"

definition core_reset :: "libm \<Rightarrow> ControllerCore \<Rightarrow> ControllerCore" where
  "core_reset m c =
     (let cfg = cs_robot (co_config_cache c) in
      c \<lparr> co_state_machine := sm_reset (co_state_machine c), co_arbiter := arb_reset (co_arbiter c),
          co_trick_engine := trick_reset (co_trick_engine c),
          co_pipeline := pipe_resetPhase (pipe_reconfigure m cfg (co_pipeline c)),
          co_body_command_shaper :=
            shaper_reset (reset_height cfg) (shaper_configure (cfg_body_command cfg) (co_body_command_shaper c)),
          co_applied_intent_sequence := 0xFFFFFFFF, co_applied_gait := 0xFF, co_idle_seen_intent_sequence := 0xFFFFFFFF,
          co_previous_rc_trick := TrickNone, co_previous_motion_gate := False, co_previous_maintenance_authority := False \<rparr>)"

text \<open>The constructor; the members whose constructors reset them are given by what they hold afterwards.\<close>

definition ControllerCore_new :: "libm \<Rightarrow> CommandArbiter \<Rightarrow> StateMachine \<Rightarrow> TrickEngine \<Rightarrow> ControllerCore" where
  "ControllerCore_new m arbiter machine tricks =
     (let cache = ConfigSnapshotCache_new; cfg = cs_robot cache in
      core_reset m \<lparr> co_config_cache = cache, co_pipeline = GaitPipeline_new m cfg, co_arbiter = arbiter,
        co_state_machine = machine, co_trick_engine = tricks,
        co_body_command_shaper = shaper_configure (cfg_body_command cfg) BodyCommandShaper_new,
        co_applied_intent_sequence = 0xFFFFFFFF, co_applied_gait = 0xFF, co_idle_seen_intent_sequence = 0xFFFFFFFF,
        co_previous_rc_trick = TrickNone, co_previous_motion_gate = False, co_previous_maintenance_authority = False \<rparr>)"

definition core_configureSafety :: "StateParams \<Rightarrow> ControllerCore \<Rightarrow> ControllerCore" where
  "core_configureSafety p c = c \<lparr> co_state_machine := sm_configure p (co_state_machine c) \<rparr>"

section \<open>Step: configuration, authority and safety\<close>

text \<open>Apply the supplied configuration: whether it is usable, whether it replaced the cached one.\<close>

definition core_config :: "libm \<Rightarrow> RobotState \<Rightarrow> ControllerConfigSnapshot \<Rightarrow> ControllerCore \<Rightarrow> bool \<times> bool \<times> ControllerCore" where
  "core_config m state config c =
     (if \<not> cs_valid config then (False, False, c)
      else
        let (update, cache) = cache_apply (cs_robot config) (cs_revision config) (cs_persistent config) (co_config_cache c);
            usable = (update \<noteq> SnapRejected \<and> rs_config_ready state); c = c \<lparr> co_config_cache := cache \<rparr>; cfg = cs_robot cache
        in if update = SnapUpdated
           then (usable, True,
                 c \<lparr> co_pipeline := pipe_reconfigure m cfg (co_pipeline c),
                     co_body_command_shaper :=
                       shaper_reset (reset_height cfg) (shaper_configure (cfg_body_command cfg) (co_body_command_shaper c)),
                     co_applied_intent_sequence := 0xFFFFFFFF, co_applied_gait := 0xFF \<rparr>)
           else (usable, False, c))"

definition maintenance_failsafe_recovery :: "RobotState \<Rightarrow> ControllerIntent \<Rightarrow> bool \<Rightarrow> bool" where
  "maintenance_failsafe_recovery state intent config_usable \<longleftrightarrow>
     (let mn = ci_maintenance intent; rc = ci_rc intent; b = rs_battery state in
      mn_lock_held mn \<and> mn_recovery_lock mn \<and> ri_ever_seen rc \<and> ri_kill rc \<and> ri_failsafe rc \<and> \<not> ri_armed rc \<and>
      \<not> ci_host_estop intent \<and> config_usable \<and> bs_valid b \<and> bs_millivolts b \<ge> 10000 \<and> \<not> rs_watchdog_fault state \<and>
      \<not> ds_hard_fault (rs_dxl state))"

definition core_arbitrate :: "RobotState \<Rightarrow> ControllerIntent \<Rightarrow> bool \<Rightarrow> u32 \<Rightarrow> CommandArbiter \<Rightarrow> ArbiterOutput \<times> CommandArbiter" where
  "core_arbitrate state intent config_usable now a0 =
     (let rc = ci_rc intent; mn = ci_maintenance intent;
          a = (if ci_jetson_heartbeat_received intent \<and> fe_jetson_control_enabled (ci_features intent) then jetsonHeartbeat now a0 else a0);
          a = setHostEstop (ci_host_estop intent) a;
          a = setExternalMacLock (mn_lock_held mn) (mn_lock_token mn) (maintenance_failsafe_recovery state intent config_usable) a
      in arb_update \<lparr> rc_in_ever_seen = ri_ever_seen rc, rc_in_kill = ri_kill rc, rc_in_failsafe = ri_failsafe rc,
           rc_in_armed = ri_armed rc, rc_in_autonomy_enabled = ri_autonomy_enabled rc \<rparr> now a)"

definition confident_feet :: "LegContactState list \<Rightarrow> nat" where
  "confident_feet feet =
     length (filter (\<lambda>f. \<not> lc_stale f \<and> \<not> lc_fault f \<and> lc_confidence f \<ge> kContactConfidenceMinimum) feet)"

definition safety_inputs ::
  "RobotState \<Rightarrow> ControllerIntent \<Rightarrow> bool \<Rightarrow> ArbiterOutput \<Rightarrow> u32 \<Rightarrow> ControllerCore \<Rightarrow> StateInputs" where
  "safety_inputs state intent config_usable arbiter now c =
     (let rc = ci_rc intent; mn = ci_maintenance intent; dxl = rs_dxl state; b = rs_battery state;
          readiness_current = (ds_config_revision dxl = cs_revision (co_config_cache c));
          servo_coverage = (readiness_current \<and> ds_configured_servo_coverage dxl);
          pose_known = (readiness_current \<and> ds_pose_known_mask dxl = kAllServoPosesKnown)
      in \<lparr> in_config_loaded = config_usable, in_battery_mv = bs_millivolts b, in_battery_valid = bs_valid b,
           in_watchdog_fault = rs_watchdog_fault state, in_dxl_hard_fault = ds_hard_fault dxl, in_host_estop = ci_host_estop intent,
           in_rc_kill = ri_kill rc, in_rc_failsafe = ri_failsafe rc, in_rc_ever_seen = ri_ever_seen rc, in_rc_armed = ri_armed rc,
           in_arming_checks_pass = (config_usable \<and> bs_valid b \<and> servo_coverage \<and> pose_known \<and> ds_arming_ready dxl \<and>
             \<not> ds_hard_fault dxl),
           in_host_disarm = ci_host_disarm intent, in_command_source = commandSourceCode (out_source arbiter),
           in_jetson_fresh = jetsonFresh now (co_arbiter c), in_rc_autonomy = ri_autonomy_enabled rc,
           in_mac_lock_held = (macLockHeld now (co_arbiter c) \<or> mn_lock_held mn), in_maintenance_request = mn_lock_held mn,
           in_maintenance_failsafe_recovery = maintenance_failsafe_recovery state intent config_usable,
           in_passive_request = ci_passive_requested intent, in_torque_off = ds_torque_off dxl,
           in_contact_enabled = fe_foot_contact_enabled (ci_features intent),
           in_contact_confident = (fe_foot_contact_enabled (ci_features intent) \<and>
             confident_feet (cn_feet (rs_contact state)) \<ge> kMinimumConfidentFeet),
           in_motion_active = (rcCommandIsActive (ri_command rc) \<or> mi_seq (ci_motion intent) \<noteq> co_idle_seen_intent_sequence c \<or>
             te_active (co_trick_engine c)) \<rparr>)"

definition core_safety :: "RobotState \<Rightarrow> ControllerIntent \<Rightarrow> bool \<Rightarrow> u32 \<Rightarrow> ControllerCore \<Rightarrow> ArbiterOutput \<times> ControllerCore" where
  "core_safety state intent config_usable now c0 =
     (let (arbiter, a) = core_arbitrate state intent config_usable now (co_arbiter c0); c = c0 \<lparr> co_arbiter := a \<rparr>;
          inputs = safety_inputs state intent config_usable arbiter now c;
          sm = (if ci_clear_fault_requested intent then requestClearFault (co_state_machine c) else co_state_machine c)
      in (arbiter, c \<lparr> co_idle_seen_intent_sequence := mi_seq (ci_motion intent), co_state_machine := sm_update inputs now sm \<rparr>))"

text \<open>The decision of the step before any goal is computed.\<close>

definition core_decision ::
  "RobotState \<Rightarrow> ControllerIntent \<Rightarrow> bool \<Rightarrow> ArbiterOutput \<Rightarrow> ControllerCore \<Rightarrow> RobotCommand \<Rightarrow> RobotCommand" where
  "core_decision state intent config_usable arbiter c command =
     (let s = sm_state (co_state_machine c); rc = ri_command (ci_rc intent); rc_authority = (out_source arbiter = SrcRc);
          gate = (config_usable \<and> stateAllowsMotion s \<and> out_motion_authorized arbiter);
          stopped = (ci_host_disarm intent \<or> stateCode s \<ge> stateCode FaultSoft)
      in diag (\<lambda>d. d \<lparr> cd_confident_contact_feet := confident_feet (cn_feet (rs_contact state)),
             cd_motion_gate_rising := gate \<and> \<not> co_previous_motion_gate c, cd_motion_gate_falling := \<not> gate \<and> co_previous_motion_gate c,
             cd_gait_tune_active := rc_authority \<and> cc_gait_tune_active rc, cd_gait_tune_param := cc_gait_tune_param rc,
             cd_gait_save_seq := cc_gait_tune_save_seq rc,
             cd_gait_save_requested := rc_authority \<and> \<not> rcCommandIsActive rc \<and> \<not> te_active (co_trick_engine c),
             cd_clear_maintenance_lock := stopped, cd_clear_passive_request := stopped \<rparr>)
           (command \<lparr> cm_safety_state := s, cm_fault_reason := sm_reason (co_state_machine c), cm_command_source := out_source arbiter,
              cm_motion_authorized := out_motion_authorized arbiter, cm_allow_dxl_power := config_usable \<and> stateAllowsDxlPower s,
              cm_allow_torque := config_usable \<and> stateAllowsTorque s, cm_motion_gate := gate \<rparr>))"

section \<open>Step: goals\<close>

definition maintenance_goals :: "RobotConfig \<Rightarrow> MaintTargetSet \<Rightarrow> PipelineJoint list" where
  "maintenance_goals cfg t = concat (map (\<lambda>leg. concat (map (\<lambda>joint.
     if \<not> mt_set t ! leg ! joint then []
     else case servoFor cfg (word_of_nat leg) (word_of_nat joint) of
            None \<Rightarrow> []
          | Some servo \<Rightarrow> [\<lparr> pj_id = servo_id servo, pj_tick = mt_tick t ! leg ! joint, pj_leg = word_of_nat leg,
              pj_joint = word_of_nat joint, pj_clamped = mt_clamped t ! leg ! joint \<rparr>]) [0..<kJointsPerLeg])) [0..<kNumLegs])"

definition forget_applied :: "ControllerCore \<Rightarrow> ControllerCore" where
  "forget_applied c = c \<lparr> co_trick_engine := trick_cancel (co_trick_engine c), co_applied_intent_sequence := 0xFFFFFFFF,
     co_applied_gait := 0xFF \<rparr>"

text \<open>The values the motion branch of the step collects before shaping.\<close>

record MotionRequest =
  mr_gait :: u8
  mr_vx :: f32
  mr_vy :: f32
  mr_wz :: f32
  mr_pose :: BodyPose
  mr_body_height :: u16
  mr_stride :: u16
  mr_step_height :: u16
  mr_speed :: u8
  mr_duty :: u8
  mr_height_rate :: f32

definition host_request :: "MotionIntent \<Rightarrow> MotionRequest" where
  "host_request i = \<lparr> mr_gait = mi_gait i, mr_vx = mi_twist_vx i, mr_vy = mi_twist_vy i, mr_wz = mi_twist_wz i,
     mr_pose = poseFromMotion i, mr_body_height = mi_body_height_mm i, mr_stride = mi_stride_len_mm i,
     mr_step_height = mi_step_height_mm i, mr_speed = mi_speed_x255 i, mr_duty = mi_duty_x255 i, mr_height_rate = Fin 0 \<rparr>"

definition u16_of_f :: "f32 \<Rightarrow> u16 option" where "u16_of_f v = map_option word_of_int (f_cast 0 65535 v)"
definition u8_of_f :: "f32 \<Rightarrow> u8 option" where "u8_of_f v = map_option word_of_int (f_cast 0 255 v)"

definition rc_height :: "f32 \<Rightarrow> u16 option" where
  "rc_height fraction = u16_of_f (f_add (rcBodyHeightMm fraction) (f_lit (1 / 2)))"

text \<open>Body height fraction, stride, step height, speed and duty as the handset has them.\<close>

definition rc_shape :: "ControllerCommand \<Rightarrow> f32 \<Rightarrow> (u16 \<times> u16 \<times> u16 \<times> u8 \<times> u8) option" where
  "rc_shape rc height_fraction =
     Option.bind (rc_height height_fraction) (\<lambda>height.
     Option.bind (u16_of_f (f_mul (cc_stride rc) (f_of_int (uint kMaxGaitStrideMm)))) (\<lambda>stride.
     Option.bind (u16_of_f (f_mul (cc_step_height rc) (f_of_int (uint kMaxGaitStepMm)))) (\<lambda>step.
     Option.bind (u8_of_f (f_mul (cc_speed rc) (f_lit 255))) (\<lambda>speed.
     map_option (\<lambda>duty. (height, stride, step, speed, duty)) (u8_of_f (f_mul (cc_duty rc) (f_lit 255)))))))"

definition rc_request :: "ControllerCommand \<Rightarrow> TrickOutput \<Rightarrow> MotionRequest \<Rightarrow> MotionRequest option" where
  "rc_request rc t r0 =
     (let height_fraction = (if to_active t \<and> to_override_height t then to_body_height_frac t else cc_body_height rc);
          r = (if to_active t
               then let r = r0 \<lparr> mr_gait := gaitCode (to_gait t), mr_vx := to_twist_vx t, mr_vy := to_twist_vy t,
                      mr_wz := to_twist_wz t, mr_pose := to_pose t, mr_height_rate := to_height_rate_mm_per_s t \<rparr>
                    in if to_override_gait_shape t
                       then r \<lparr> mr_stride := to_stride_mm t, mr_step_height := to_step_height_mm t, mr_speed := to_speed_x255 t \<rparr>
                       else r
               else r0 \<lparr> mr_gait := gaitCode (rcGaitFromIndex (cc_gait_index rc)), mr_vx := cc_twist_vx rc, mr_vy := cc_twist_vy rc,
                      mr_wz := cc_twist_wz rc, mr_pose := \<lparr> bp_x_mm = cc_pose_x_mm rc, bp_y_mm = cc_pose_y_mm rc,
                        bp_z_mm = cc_pose_z_mm rc, bp_roll = f_add (cc_pose_roll rc) (cc_trim_roll rc),
                        bp_pitch = f_add (cc_pose_pitch rc) (cc_trim_pitch rc), bp_yaw = cc_pose_yaw rc \<rparr> \<rparr>)
      in map_option (\<lambda>(height, stride, step, speed, duty). r \<lparr> mr_body_height := height, mr_stride := stride,
           mr_step_height := step, mr_speed := speed, mr_duty := duty \<rparr>) (rc_shape rc height_fraction))"

definition core_request :: "ControllerIntent \<Rightarrow> bool \<Rightarrow> u32 \<Rightarrow> ControllerCore \<Rightarrow> (MotionRequest \<times> ControllerCore) option" where
  "core_request intent rc_drives dt_ms c =
     (let motion = ci_motion intent; rc = ri_command (ci_rc intent); te = co_trick_engine c in
      if rc_drives then
        let te = (if cc_trick rc \<noteq> TrickNone \<and> co_previous_rc_trick c = TrickNone
                  then trick_trigger (cc_trick rc) (cc_body_height rc) te else te) in
        Option.bind (trick_update dt_ms (sticksAreActive rc) te) (\<lambda>te.
          map_option (\<lambda>r. (r, c \<lparr> co_trick_engine := te, co_previous_rc_trick := cc_trick rc,
              co_applied_intent_sequence := 0xFFFFFFFF \<rparr>))
            (rc_request rc (te_out te) (host_request motion)))
      else
        Some (host_request motion,
              c \<lparr> co_trick_engine := trick_cancel te, co_previous_rc_trick := TrickNone,
                  co_applied_intent_sequence := (if mi_seq motion \<noteq> co_applied_intent_sequence c then mi_seq motion
                                                 else co_applied_intent_sequence c) \<rparr>))"

definition seed_goals :: "RobotConfig \<Rightarrow> DxlSnapshot \<Rightarrow> GaitPipeline \<Rightarrow> GaitPipeline" where
  "seed_goals cfg dxl p =
     fold (\<lambda>servo p.
         if \<not> ss_ok servo \<or> sint (ss_present_position servo) < 0 \<or> sint (ss_present_position servo) > uint kServoMaxTick then p
         else pipe_seedGoal cfg (ss_id servo) (ucast (ss_present_position servo)) p)
       (take (ds_servo_count dxl) (ds_servos dxl)) p"

text \<open>The pipeline as the motion branch commands it before its update.\<close>

definition command_pipeline ::
  "RobotConfig \<Rightarrow> MotionRequest \<Rightarrow> BodyCommand \<Rightarrow> u16 \<Rightarrow> u8 \<Rightarrow> bool \<Rightarrow> GaitPipeline \<Rightarrow> GaitPipeline" where
  "command_pipeline cfg r b height applied_gait preview p =
     (let p = pipe_setParams cfg height (mr_stride r) (mr_step_height r) (mr_duty r) (mr_speed r) p;
          p = pipe_setBodyPose (commandPoseToBody (bc_pose b)) p;
          p = (if mr_gait r \<noteq> applied_gait then pipe_setGait (gaitFromWire (mr_gait r)) p else p);
          (body_vx, body_vy) = commandPlanarToBody (bc_vx b) (bc_vy b);
          p = pipe_setTwist body_vx body_vy (bc_wz b) p
      in pipe_setPreviewLeg (if preview then kGaitTunePreviewLeg else -1) p)"

definition desired_body :: "MotionRequest \<Rightarrow> BodyCommand" where
  "desired_body r = \<lparr> bc_vx = mr_vx r, bc_vy = mr_vy r, bc_wz = mr_wz r, bc_body_height_mm = f_of_int (uint (mr_body_height r)),
     bc_height_rate_override_mm_per_s = mr_height_rate r, bc_pose = mr_pose r \<rparr>"

text \<open>The motion branch from the shaped command on.\<close>

definition core_drive ::
  "libm \<Rightarrow> RobotState \<Rightarrow> ControllerIntent \<Rightarrow> bool \<Rightarrow> u32 \<Rightarrow> RobotCommand \<Rightarrow> MotionRequest \<Rightarrow> u16 \<Rightarrow> ControllerCore \<Rightarrow>
    (RobotCommand \<times> ControllerCore) option" where
  "core_drive m state intent rc_drives dt_ms command r height c =
     (let cfg = cs_robot (co_config_cache c); rc = ri_command (ci_rc intent); b = sh_current (co_body_command_shaper c);
          preview = (rc_drives \<and> cc_gait_tune_active rc \<and> \<not> te_active (co_trick_engine c) \<and> \<not> sticksAreActive rc);
          p = command_pipeline cfg r b height (co_applied_gait c) preview (co_pipeline c);
          p = (if \<not> co_previous_motion_gate c then seed_goals cfg (rs_dxl state) (pipe_resetPhase p) else p)
      in map_option (\<lambda>(goals, p).
           (diag (\<lambda>d. d \<lparr> cd_applied_body_height_mm := height, cd_applied_stride_mm := mr_stride r,
                cd_applied_step_height_mm := mr_step_height r, cd_applied_duty_x255 := mr_duty r, cd_applied_speed_x255 := mr_speed r,
                cd_gait_tune_preview := preview, cd_any_goal_clamped := list_ex pj_clamped (po_joints goals),
                cd_any_goal_unreachable := po_any_unreachable goals, cd_any_goal_reach_limited := po_any_reach_limited goals \<rparr>)
              (command \<lparr> cm_goals := goals, cm_goal_valid := True \<rparr>),
            c \<lparr> co_pipeline := p, co_applied_gait := mr_gait r \<rparr>))
         (pipe_update m cfg dt_ms (cm_goals command) p))"

definition core_motion ::
  "libm \<Rightarrow> RobotState \<Rightarrow> ControllerIntent \<Rightarrow> bool \<Rightarrow> u32 \<Rightarrow> RobotCommand \<Rightarrow> ControllerCore \<Rightarrow> (RobotCommand \<times> ControllerCore) option" where
  "core_motion m state intent rc_drives dt_ms command c0 =
     Option.bind (core_request intent rc_drives dt_ms c0) (\<lambda>(r, c).
       let sh = shaper_update (desired_body r) dt_ms (co_body_command_shaper c) in
       Option.bind (u16_of_f (f_add (bc_body_height_mm (sh_current sh)) (f_lit (1 / 2)))) (\<lambda>height.
         core_drive m state intent rc_drives dt_ms command r height (c \<lparr> co_body_command_shaper := sh \<rparr>)))"

definition core_gated ::
  "ControllerIntent \<Rightarrow> ArbiterOutput \<Rightarrow> RobotCommand \<Rightarrow> ControllerCore \<Rightarrow> (RobotCommand \<times> ControllerCore) option" where
  "core_gated intent arbiter command c =
     (let rc = ri_command (ci_rc intent); cfg = cs_robot (co_config_cache c); g = cfg_gait cfg
      in map_option (\<lambda>(height, stride, step, speed, duty).
           (diag (\<lambda>d. d \<lparr> cd_applied_body_height_mm := height, cd_applied_stride_mm := stride, cd_applied_step_height_mm := step,
                cd_applied_duty_x255 := duty, cd_applied_speed_x255 := speed \<rparr>) command,
            (forget_applied c) \<lparr> co_body_command_shaper := shaper_reset (reset_height cfg) (co_body_command_shaper c),
              co_previous_rc_trick := TrickNone, co_pipeline := pipe_setPreviewLeg (- 1) (co_pipeline c) \<rparr>))
          (if out_source arbiter = SrcRc \<and> cc_ever_seen rc then rc_shape rc (cc_body_height rc)
           else Some (body_height_mm g, stride_len_mm g, step_height_mm g, speed_x255 g, duty_x255 g)))"

definition core_goals ::
  "libm \<Rightarrow> RobotState \<Rightarrow> ControllerIntent \<Rightarrow> ArbiterOutput \<Rightarrow> u32 \<Rightarrow> bool \<Rightarrow> RobotCommand \<Rightarrow> ControllerCore \<Rightarrow>
    (RobotCommand \<times> ControllerCore) option" where
  "core_goals m state intent arbiter dt_ms maintenance_authority command c =
     (if maintenance_authority \<and> \<not> co_previous_maintenance_authority c
      then Some (diag (\<lambda>d. d \<lparr> cd_maintenance_session_started := True, cd_clear_maintenance_targets := True \<rparr>) command, forget_applied c)
      else if maintenance_authority \<and> mn_control_mode (ci_maintenance intent) = JointTargets
      then let joints = maintenance_goals (cs_robot (co_config_cache c)) (mn_targets (ci_maintenance intent))
           in Some (diag (\<lambda>d. d \<lparr> cd_any_goal_clamped := list_ex pj_clamped joints \<rparr>)
                 (command \<lparr> cm_goals := (cm_goals command) \<lparr> po_joints := joints \<rparr>, cm_goal_valid := joints \<noteq> [] \<rparr>), forget_applied c)
      else if cm_motion_gate command then core_motion m state intent (out_source arbiter = SrcRc) dt_ms command c
      else core_gated intent arbiter command c)"

section \<open>Step\<close>

definition core_step ::
  "libm \<Rightarrow> RobotState \<Rightarrow> ControllerIntent \<Rightarrow> ControllerConfigSnapshot \<Rightarrow> ControllerTime \<Rightarrow> ControllerCore \<Rightarrow>
    (RobotCommand \<times> ControllerCore) option" where
  "core_step m state intent config time c0 =
     (let command = diag (\<lambda>d. d \<lparr> cd_intent_sequence := mi_seq (ci_motion intent),
            cd_config_revision := cs_revision (co_config_cache c0) \<rparr>) RobotCommand_default
      in if \<not> ct_valid time
         then Some (command \<lparr> cm_safety_state := sm_state (co_state_machine c0), cm_fault_reason := sm_reason (co_state_machine c0) \<rparr>, c0)
         else
           let (config_usable, reapplied, c1) = core_config m state config c0;
               command = diag (\<lambda>d. d \<lparr> cd_config_reapplied := reapplied, cd_config_revision := cs_revision (co_config_cache c1) \<rparr>) command;
               (arbiter, c2) = core_safety state intent config_usable (ct_now_ms time) c1;
               command = core_decision state intent config_usable arbiter c2 command;
               maintenance_authority = (cm_motion_gate command \<and> out_source arbiter = SrcMacMaintenance)
           in map_option (\<lambda>(command, c). (command, c \<lparr> co_previous_motion_gate := cm_motion_gate command,
                  co_previous_maintenance_authority := maintenance_authority \<rparr>))
                (core_goals m state intent arbiter (ct_dt_ms time) maintenance_authority command c2))"

end
