(* ===== verification/CoreSafety.thy ===== *)
theory CoreSafety
  imports ControllerCore ControllerEnvelope
begin

text \<open>
  Properties of the controller step (\<open>controller/controller_core.cpp\<close>): it fails closed, it moves only
  under somebody's authority and on a validated configuration, it always returns for commands inside
  the envelopes its sources keep, and its goals are device positions of mapped servos, inside their
  configured travel unless a joint is still being ramped into it.
\<close>

section \<open>Authority\<close>

lemma sm_powered:
  assumes "stateAllowsDxlPower (sm_state (sm_update inp now m))"
  shows "\<not> in_dxl_hard_fault inp" "\<not> in_host_estop inp" "\<not> in_watchdog_fault inp" "\<not> in_host_disarm inp"
    "in_rc_ever_seen inp \<and> in_rc_kill inp \<Longrightarrow> stale_failsafe_maintenance_recovery inp"
    "sm_state (sm_update inp now m) \<in> {StandReady, RcManual, ContactTerrain, JetsonAssisted} \<Longrightarrow> in_rc_armed inp"
    "sm_state (sm_update inp now m) \<in> {RcManual, ContactTerrain} \<Longrightarrow> srcIs (in_command_source inp) SrcRc"
    "sm_state (sm_update inp now m) = ContactTerrain \<Longrightarrow> in_contact_enabled inp \<and> in_contact_confident inp"
    "sm_state (sm_update inp now m) = JetsonAssisted \<Longrightarrow> in_jetson_fresh inp \<and> in_rc_autonomy inp"
    "sm_state (sm_update inp now m) = MacMaintenance \<Longrightarrow> in_maintenance_request inp \<and> in_mac_lock_held inp"
proof -
  obtain m1 where m1: "\<not> in_dxl_hard_fault inp" "stop_cause inp now m = NoFault"
    "\<not> (in_host_disarm inp \<and> hostDisarmApplies (sm_state m))" "sm_state m1 = sm_state m" "sm_update inp now m = sm_progress inp now m1"
    using assms by (cases rule: sm_update_cases [where inp = inp and now = now and m = m])
      (auto simp: stateAllowsDxlPower_def stateAllowsTorque_def before_progress_def)
  show "\<not> in_dxl_hard_fault inp" by (rule m1(1))
  show "\<not> in_host_estop inp" "\<not> in_watchdog_fault inp"
    "in_rc_ever_seen inp \<and> in_rc_kill inp \<Longrightarrow> stale_failsafe_maintenance_recovery inp"
    using m1(2) by (auto simp: stop_cause_def estop_reason_def split: if_splits)
  show "\<not> in_host_disarm inp" using assms m1(3) unfolding m1(5) m1(4) [symmetric]
    by (cases "sm_state m1") (auto simp: progress_defs stateAllowsDxlPower_def stateAllowsTorque_def split: if_splits)
  show "sm_state (sm_update inp now m) \<in> {StandReady, RcManual, ContactTerrain, JetsonAssisted} \<Longrightarrow> in_rc_armed inp"
    "sm_state (sm_update inp now m) \<in> {RcManual, ContactTerrain} \<Longrightarrow> srcIs (in_command_source inp) SrcRc"
    "sm_state (sm_update inp now m) = ContactTerrain \<Longrightarrow> in_contact_enabled inp \<and> in_contact_confident inp"
    "sm_state (sm_update inp now m) = JetsonAssisted \<Longrightarrow> in_jetson_fresh inp \<and> in_rc_autonomy inp"
    "sm_state (sm_update inp now m) = MacMaintenance \<Longrightarrow> in_maintenance_request inp \<and> in_mac_lock_held inp"
    unfolding m1(5) using progress_motion progress_rc progress_contact progress_jetson progress_mac by blast+
qed

lemma diag_simps [simp]:
  "cm_safety_state (diag f c) = cm_safety_state c" "cm_command_source (diag f c) = cm_command_source c"
  "cm_motion_gate (diag f c) = cm_motion_gate c" "cm_allow_torque (diag f c) = cm_allow_torque c"
  "cm_allow_dxl_power (diag f c) = cm_allow_dxl_power c" "cm_goal_valid (diag f c) = cm_goal_valid c"
  "cm_goals (diag f c) = cm_goals c" "cm_diagnostics (diag f c) = f (cm_diagnostics c)"
  "cm_motion_authorized (diag f c) = cm_motion_authorized c"
  by (simp_all add: diag_def)

text \<open>Computing goals changes neither the decision nor the configuration.\<close>

definition same_decision :: "RobotCommand \<Rightarrow> RobotCommand \<Rightarrow> bool" where
  "same_decision a b \<longleftrightarrow> cm_safety_state a = cm_safety_state b \<and> cm_command_source a = cm_command_source b \<and>
     cm_motion_gate a = cm_motion_gate b \<and> cm_allow_torque a = cm_allow_torque b \<and> cm_allow_dxl_power a = cm_allow_dxl_power b \<and>
     cd_config_reapplied (cm_diagnostics a) = cd_config_reapplied (cm_diagnostics b)"

definition same_base :: "ControllerCore \<Rightarrow> ControllerCore \<Rightarrow> bool" where
  "same_base a b \<longleftrightarrow> co_config_cache a = co_config_cache b \<and> co_arbiter a = co_arbiter b \<and> co_state_machine a = co_state_machine b"

lemma core_request_frame:
  assumes "core_request intent rc_drives dt c = Some (r, c')"
  shows "same_base c' c" "co_pipeline c' = co_pipeline c" "co_body_command_shaper c' = co_body_command_shaper c"
    "co_previous_motion_gate c' = co_previous_motion_gate c"
  using assms by (auto simp: core_request_def same_base_def Let_def bind_eq_Some_conv split: if_splits)

lemma core_motionE:
  assumes "core_motion m state intent rc_drives dt cmd c = Some (cmd', c')"
  obtains r c1 height where "core_request intent rc_drives dt c = Some (r, c1)"
    "u16_of_f (f_add (bc_body_height_mm (sh_current (shaper_update (desired_body r) dt (co_body_command_shaper c)))) (f_lit (1 / 2))) = Some height"
    "core_drive m state intent rc_drives dt cmd r height
       (c1 \<lparr> co_body_command_shaper := shaper_update (desired_body r) dt (co_body_command_shaper c) \<rparr>) = Some (cmd', c')"
proof -
  obtain rc where "core_request intent rc_drives dt c = Some rc" using assms by (cases "core_request intent rc_drives dt c") (simp_all add: core_motion_def)
  then obtain r c1 where r: "core_request intent rc_drives dt c = Some (r, c1)" by (cases rc) simp
  note rest = assms [unfolded core_motion_def r bind.bind_lunit prod.case Let_def core_request_frame(3) [OF r] bind_eq_Some_conv]
  from rest show thesis using that [OF r] by blast
qed

lemma core_drive_frame:
  assumes "core_drive m state intent rc_drives dt cmd r height c = Some (cmd', c')"
  shows "same_decision cmd' cmd" "same_base c' c" "cm_goal_valid cmd'"
  using assms unfolding core_drive_def Let_def map_option_eq_Some by (auto simp: same_decision_def same_base_def)

lemma core_gated_frame:
  assumes "core_gated intent arbiter cmd c = Some (cmd', c')"
  shows "same_decision cmd' cmd" "same_base c' c" "cm_goals cmd' = cm_goals cmd" "cm_goal_valid cmd' = cm_goal_valid cmd"
  using assms unfolding core_gated_def Let_def map_option_eq_Some by (auto simp: same_decision_def same_base_def forget_applied_def)

lemma core_goals_frame:
  assumes "core_goals m state intent arbiter dt ma cmd c = Some (cmd', c')"
  shows "same_decision cmd' cmd" "same_base c' c"
proof -
  consider "core_motion m state intent (out_source arbiter = SrcRc) dt cmd c = Some (cmd', c')" | "core_gated intent arbiter cmd c = Some (cmd', c')"
    | "same_decision cmd' cmd" "same_base c' c"
    using assms unfolding core_goals_def Let_def by (auto simp: forget_applied_def same_decision_def same_base_def split: if_splits)
  then have "same_decision cmd' cmd \<and> same_base c' c"
  proof cases
    case 1
    then obtain r c1 height where "core_request intent (out_source arbiter = SrcRc) dt c = Some (r, c1)"
      "core_drive m state intent (out_source arbiter = SrcRc) dt cmd r height
         (c1 \<lparr> co_body_command_shaper := shaper_update (desired_body r) dt (co_body_command_shaper c) \<rparr>) = Some (cmd', c')"
      by (rule core_motionE)
    then show ?thesis using core_drive_frame(1,2) core_request_frame(1) by (fastforce simp: same_base_def)
  qed (auto dest: core_gated_frame)
  then show "same_decision cmd' cmd" "same_base c' c" by simp_all
qed

text \<open>A step with a valid time stamp, split into its stages.\<close>

lemma core_stepE:
  assumes "core_step m state intent config time c = Some (cmd, c')" "ct_valid time"
  obtains usable reapplied c1 arbiter c2 cmd0 cmd2 c3 where "core_config m state config c = (usable, reapplied, c1)"
    "core_safety state intent usable (ct_now_ms time) c1 = (arbiter, c2)"
    "cmd2 = core_decision state intent usable arbiter c2 cmd0" "cm_goals cmd0 = PipelineOutput_default" "\<not> cm_goal_valid cmd0"
    "core_goals m state intent arbiter (ct_dt_ms time) (cm_motion_gate cmd2 \<and> out_source arbiter = SrcMacMaintenance) cmd2 c2 = Some (cmd, c3)"
    "c' = c3 \<lparr> co_previous_motion_gate := cm_motion_gate cmd,
       co_previous_maintenance_authority := (cm_motion_gate cmd2 \<and> out_source arbiter = SrcMacMaintenance) \<rparr>"
proof -
  obtain usable reapplied c1 where 1: "core_config m state config c = (usable, reapplied, c1)" by (metis prod_cases3)
  obtain arbiter c2 where 2: "core_safety state intent usable (ct_now_ms time) c1 = (arbiter, c2)" by fastforce
  define cmd0 where "cmd0 = diag (\<lambda>d. d \<lparr> cd_config_reapplied := reapplied, cd_config_revision := cs_revision (co_config_cache c1) \<rparr>)
    (diag (\<lambda>d. d \<lparr> cd_intent_sequence := mi_seq (ci_motion intent), cd_config_revision := cs_revision (co_config_cache c) \<rparr>) RobotCommand_default)"
  define cmd2 where "cmd2 = core_decision state intent usable arbiter c2 cmd0"
  have 3: "cm_goals cmd0 = PipelineOutput_default" "\<not> cm_goal_valid cmd0" by (simp_all add: cmd0_def RobotCommand_default_def)
  have "map_option (\<lambda>(command, c). (command, c \<lparr> co_previous_motion_gate := cm_motion_gate command,
         co_previous_maintenance_authority := (cm_motion_gate cmd2 \<and> out_source arbiter = SrcMacMaintenance) \<rparr>))
      (core_goals m state intent arbiter (ct_dt_ms time) (cm_motion_gate cmd2 \<and> out_source arbiter = SrcMacMaintenance) cmd2 c2) = Some (cmd, c')"
    using assms unfolding core_step_def Let_def 1 2 prod.case cmd0_def [symmetric] cmd2_def [symmetric] by simp
  then obtain c3 where 4: "core_goals m state intent arbiter (ct_dt_ms time) (cm_motion_gate cmd2 \<and> out_source arbiter = SrcMacMaintenance) cmd2 c2 = Some (cmd, c3)"
    "c' = c3 \<lparr> co_previous_motion_gate := cm_motion_gate cmd,
       co_previous_maintenance_authority := (cm_motion_gate cmd2 \<and> out_source arbiter = SrcMacMaintenance) \<rparr>"
    by (auto simp: map_option_eq_Some)
  show thesis by (rule that [OF 1 2 cmd2_def 3 4])
qed

lemma core_config_usable:
  assumes "core_config m state config c = (True, reapplied, c1)"
  shows "cs_valid config" "validateRobotConfig (cs_robot config)" "rs_config_ready state"
  using assms by (auto simp: core_config_def cache_apply_def Let_def split: if_splits)

lemma core_safety_state:
  assumes "core_safety state intent usable now c1 = (arbiter, c2)"
  obtains inp sm where "sm_state (co_state_machine c2) = sm_state (sm_update inp now sm)"
    "inp = safety_inputs state intent usable arbiter now (c1 \<lparr> co_arbiter := co_arbiter c2 \<rparr>)"
  using assms by (auto simp: core_safety_def Let_def split: prod.splits)

lemma command_source_inj: "srcIs (commandSourceCode s) SrcRc \<longleftrightarrow> s = SrcRc"
  by (cases s) (simp_all add: srcIs_def)

lemma motion_powered: "stateAllowsMotion s \<Longrightarrow> stateAllowsDxlPower s" "stateAllowsTorque s \<Longrightarrow> stateAllowsDxlPower s"
  by (simp_all add: stateAllowsDxlPower_def stateAllowsTorque_def)

lemmas safety_inputs_simps = safety_inputs_def Let_def StateInputs.simps

lemma safety_inputs_sel [simp]:
  "in_dxl_hard_fault (safety_inputs state intent u arbiter now c) = ds_hard_fault (rs_dxl state)"
  "in_host_estop (safety_inputs state intent u arbiter now c) = ci_host_estop intent"
  "in_watchdog_fault (safety_inputs state intent u arbiter now c) = rs_watchdog_fault state"
  "in_host_disarm (safety_inputs state intent u arbiter now c) = ci_host_disarm intent"
  "in_rc_ever_seen (safety_inputs state intent u arbiter now c) = ri_ever_seen (ci_rc intent)"
  "in_rc_kill (safety_inputs state intent u arbiter now c) = ri_kill (ci_rc intent)"
  "in_rc_armed (safety_inputs state intent u arbiter now c) = ri_armed (ci_rc intent)"
  "in_rc_autonomy (safety_inputs state intent u arbiter now c) = ri_autonomy_enabled (ci_rc intent)"
  "in_jetson_fresh (safety_inputs state intent u arbiter now c) = jetsonFresh now (co_arbiter c)"
  "in_maintenance_request (safety_inputs state intent u arbiter now c) = mn_lock_held (ci_maintenance intent)"
  "in_maintenance_failsafe_recovery (safety_inputs state intent u arbiter now c) = maintenance_failsafe_recovery state intent u"
  "in_contact_enabled (safety_inputs state intent u arbiter now c) = fe_foot_contact_enabled (ci_features intent)"
  "in_command_source (safety_inputs state intent u arbiter now c) = commandSourceCode (out_source arbiter)"
  "in_contact_confident (safety_inputs state intent u arbiter now c) =
     (fe_foot_contact_enabled (ci_features intent) \<and> confident_feet (cn_feet (rs_contact state)) \<ge> kMinimumConfidentFeet)"
  by (simp_all add: safety_inputs_simps)

lemma decision_simps [simp]:
  "cm_safety_state (core_decision state intent u arbiter c cmd) = sm_state (co_state_machine c)"
  "cm_command_source (core_decision state intent u arbiter c cmd) = out_source arbiter"
  "cm_allow_dxl_power (core_decision state intent u arbiter c cmd) = (u \<and> stateAllowsDxlPower (sm_state (co_state_machine c)))"
  "cm_allow_torque (core_decision state intent u arbiter c cmd) = (u \<and> stateAllowsTorque (sm_state (co_state_machine c)))"
  "cm_motion_gate (core_decision state intent u arbiter c cmd) =
     (u \<and> stateAllowsMotion (sm_state (co_state_machine c)) \<and> out_motion_authorized arbiter)"
  "cm_goals (core_decision state intent u arbiter c cmd) = cm_goals cmd"
  "cm_goal_valid (core_decision state intent u arbiter c cmd) = cm_goal_valid cmd"
  by (simp_all add: core_decision_def Let_def)

lemma core_goals_gated:
  assumes "core_goals m state intent arbiter dt (cm_motion_gate cmd \<and> b) cmd c = Some (cmd', c')" "\<not> cm_motion_gate cmd"
  shows "cm_goals cmd' = cm_goals cmd" "cm_goal_valid cmd' = cm_goal_valid cmd"
  using assms core_gated_frame(3,4) by (auto simp: core_goals_def)

section \<open>The step always returns\<close>

definition device_ticks :: "GaitPipeline \<Rightarrow> bool" where
  "device_ticks p \<longleftrightarrow> list_all (\<lambda>t. t \<le> 4095) (gp_last_tick p)"

definition core_inv :: "ControllerCore \<Rightarrow> bool" where
  "core_inv c \<longleftrightarrow> snapshot_ok (co_config_cache c) \<and> pipe_inv (co_pipeline c) \<and> device_ticks (co_pipeline c) \<and>
     trick_inv (co_trick_engine c) \<and> shaper_inv (co_body_command_shaper c)"

definition request_ok :: "MotionRequest \<Rightarrow> bool" where
  "request_ok r \<longleftrightarrow> desired_ok (desired_body r)"

lemma scaled_unit: "f_in 0 1 v \<Longrightarrow> 0 \<le> k \<Longrightarrow> k \<le> 2 ^ 20 \<Longrightarrow> rnd32 k = k \<Longrightarrow> f_in 0 k (f_mul v (Fin k))"
proof -
  assume v: "f_in 0 1 v" and k: "0 \<le> k" "k \<le> 2 ^ 20" "rnd32 k = k"
  obtain a where a: "v = Fin a" "0 \<le> a" "a \<le> 1" using v by (rule f_inE)
  have "a * k \<le> 1 * k" using a k by (intro mult_right_mono) simp_all
  then have "f_rng 0 k (f_round (a * k))" using a k by (intro f_rng_round) simp_all
  then show ?thesis by (simp add: a(1) f_rng_def)
qed

lemma rcBodyHeight_in:
  assumes "f_in 0 1 f"
  shows "f_in 0 1000 (f_add (rcBodyHeightMm f) (f_lit (1 / 2)))"
proof -
  obtain a where a: "f = Fin a" "0 \<le> a" "a \<le> 1" using assms by (rule f_inE)
  have k: "kRcBodyHeightNeutralMm = Fin 132" "kRcBodyHeightMinMm = Fin 65" "kRcBodyHeightMaxMm = Fin 150"
    "f_sub (Fin 132) (Fin 65) = Fin 67" "f_sub (Fin 150) (Fin 132) = Fin 18" "f_lit (1 / 2) = Fin (1 / 2)" "f_lit 2 = Fin 2" "f_lit 1 = Fin 1" by code_simp+
  have c: "rnd32 0 = 0" "rnd32 1 = 1" "rnd32 67 = 67" "rnd32 132 = 132" "rnd32 18 = 18" "rnd32 150 = 150" "rnd32 65 = 65" "rnd32 1000 = 1000"
    "rnd32 (1 / 2) = 1 / 2" by code_simp+
  have span: "f_rng 0 K (f_mul (f_mul (f_round d) (Fin 2)) (Fin K))" if "0 \<le> d" "d \<le> 1 / 2" "0 \<le> K" "K \<le> 100" "rnd32 K = K" for d K
  proof -
    have "f_rng 0 (1 / 2) (f_round d)" using that by (intro f_rng_round) (simp_all add: c)
    then obtain x where x: "f_round d = Fin x" "0 \<le> x" "x \<le> 1 / 2" by (rule f_rngE)
    have "f_rng 0 1 (f_round (x * 2))" using x by (intro f_rng_round) (simp_all add: c)
    then obtain y where y: "f_round (x * 2) = Fin y" "0 \<le> y" "y \<le> 1" by (rule f_rngE)
    have "y * K \<le> 1 * K" using y that by (intro mult_right_mono) simp_all
    then have "f_rng 0 K (f_round (y * K))" using y that by (intro f_rng_round) (simp_all add: c)
    then show ?thesis by (simp add: x(1) y(1))
  qed
  have "f_rng 65 150 (rcBodyHeightMm f)"
  proof (cases "a < 1 / 2")
    case True
    have "f_rng 0 67 (f_mul (f_mul (f_round (1 / 2 - a)) (Fin 2)) (Fin 67))" using True a by (intro span) (simp_all add: c)
    then obtain z where z: "f_mul (f_mul (f_round (1 / 2 - a)) (Fin 2)) (Fin 67) = Fin z" "0 \<le> z" "z \<le> 67" by (rule f_rngE)
    have "rcBodyHeightMm f = f_sub (Fin 132) (f_mul (f_mul (f_round (1 / 2 - a)) (Fin 2)) (Fin 67))"
      using True a unfolding rcBodyHeightMm_def k Let_def by (simp add: f_sub_def)
    then have "rcBodyHeightMm f = f_round (132 - z)" unfolding z(1) by (simp add: f_sub_def)
    moreover have "f_rng 65 150 (f_round (132 - z))" using z by (intro f_rng_round) (simp_all add: c)
    ultimately show ?thesis by simp
  next
    case False
    have "f_rng 0 18 (f_mul (f_mul (f_round (a - 1 / 2)) (Fin 2)) (Fin 18))" using False a by (intro span) (simp_all add: c)
    then obtain z where z: "f_mul (f_mul (f_round (a - 1 / 2)) (Fin 2)) (Fin 18) = Fin z" "0 \<le> z" "z \<le> 18" by (rule f_rngE)
    have "rcBodyHeightMm f = f_add (Fin 132) (f_mul (f_mul (f_round (a - 1 / 2)) (Fin 2)) (Fin 18))"
      using False a unfolding rcBodyHeightMm_def k Let_def by (simp add: f_sub_def)
    then have "rcBodyHeightMm f = f_round (132 + z)" unfolding z(1) by simp
    moreover have "f_rng 65 150 (f_round (132 + z))" using z by (intro f_rng_round) (simp_all add: c)
    ultimately show ?thesis by simp
  qed
  then obtain h where h: "rcBodyHeightMm f = Fin h" "65 \<le> h" "h \<le> 150" by (rule f_rngE)
  have "f_rng 0 1000 (f_round (h + 1 / 2))" using h by (intro f_rng_round) (simp_all add: c)
  then show ?thesis by (simp add: h(1) k f_rng_def)
qed

lemma f_in_mono': "f_in lo hi v \<Longrightarrow> hi \<le> hi' \<Longrightarrow> f_in lo hi' v"
  by (cases v) auto

lemma u_of_f_some: "f_in 0 65535 v \<Longrightarrow> \<exists>w. u16_of_f v = Some w" "f_in 0 255 v \<Longrightarrow> \<exists>w. u8_of_f v = Some w"
  using f_cast_in [of 65535 v] f_cast_in [of 255 v] by (auto simp: u16_of_f_def u8_of_f_def)

lemma rc_shape_some:
  assumes "command_ok rc" "f_in 0 1 fraction"
  shows "\<exists>x. rc_shape rc fraction = Some x"
proof -
  have k: "f_of_int (uint kMaxGaitStrideMm) = Fin 80" "f_of_int (uint kMaxGaitStepMm) = Fin 50" "f_lit 255 = Fin 255"
    "rnd32 80 = 80" "rnd32 50 = 50" "rnd32 255 = 255" by code_simp+
  have u: "f_in 0 1 (cc_stride rc)" "f_in 0 1 (cc_step_height rc)" "f_in 0 1 (cc_speed rc)" "f_in 0 1 (cc_duty rc)"
    using assms(1) by (simp_all add: command_ok_def)
  obtain h where "rc_height fraction = Some h"
    using u_of_f_some(1) [OF f_in_mono' [OF rcBodyHeight_in [OF assms(2)]]] by (auto simp: rc_height_def)
  moreover obtain st where "u16_of_f (f_mul (cc_stride rc) (Fin 80)) = Some st"
    using u_of_f_some(1) [OF f_in_mono' [OF scaled_unit [OF u(1), of 80]]] k by auto
  moreover obtain sp where "u16_of_f (f_mul (cc_step_height rc) (Fin 50)) = Some sp"
    using u_of_f_some(1) [OF f_in_mono' [OF scaled_unit [OF u(2), of 50]]] k by auto
  moreover obtain v where "u8_of_f (f_mul (cc_speed rc) (Fin 255)) = Some v"
    using u_of_f_some(2) [OF scaled_unit [OF u(3), of 255]] k by auto
  moreover obtain d where "u8_of_f (f_mul (cc_duty rc) (Fin 255)) = Some d"
    using u_of_f_some(2) [OF scaled_unit [OF u(4), of 255]] k by auto
  ultimately show ?thesis by (simp add: rc_shape_def k)
qed

lemma float_in: "f_in lo hi v \<Longrightarrow> f_rep v \<Longrightarrow> lo' \<le> lo \<Longrightarrow> hi \<le> hi' \<Longrightarrow> f_rng lo' hi' v"
  by (auto simp: f_rng_def intro: f_in_mono)

lemma float_ok: "f_in lo hi v \<Longrightarrow> f_rep v \<Longrightarrow> v \<noteq> NaN \<and> f_rep v"
  by (auto simp: f_in_not_NaN)

lemma host_request_ok: "intent_safe i \<Longrightarrow> request_ok (host_request i)"
proof -
  assume i: "intent_safe i"
  have "f_rng (- 4) 4 (mi_pose_roll i)" "f_rng (- 4) 4 (mi_pose_pitch i)" "f_rng (- 4) 4 (mi_pose_yaw i)"
    "f_rng (- 1024) 1024 (mi_pose_x_mm i)" "f_rng (- 1024) 1024 (mi_pose_y_mm i)" "f_rng (- 1024) 1024 (mi_pose_z_mm i)"
    using i by (auto simp: intent_safe_def rot_limit_def intro: float_in)
  moreover have "list_all (\<lambda>v. v \<noteq> NaN \<and> f_rep v) [mi_twist_vx i, mi_twist_vy i, mi_twist_wz i]"
    using i by (auto simp: intent_safe_def)
  moreover have "f_rep (Fin 0)" by code_simp
  ultimately show ?thesis
    using u16_range by (simp add: request_ok_def desired_ok_def desired_body_def host_request_def shape_within_def pose_within_def poseFromMotion_def)
qed

lemma f_add_small:
  assumes "f_in (- 1) 1 a" "f_in (- 1) 1 b"
  shows "f_rng (- 4) 4 (f_add a b)"
proof -
  obtain x y where "a = Fin x" "- 1 \<le> x" "x \<le> 1" "b = Fin y" "- 1 \<le> y" "y \<le> 1" using assms by (metis f_inE)
  moreover have "rnd32 (- 4) = - 4" "rnd32 4 = 4" by code_simp+
  ultimately show ?thesis using f_rng_round [of "- 4" "x + y" 4] by simp
qed

lemma rc_request_ok:
  assumes "command_ok rc" "trick_output_ok t" "mr_height_rate r0 = Fin 0"
  shows "\<exists>r. rc_request rc t r0 = Some r \<and> request_ok r"
proof -
  define fraction where "fraction = (if to_active t \<and> to_override_height t then to_body_height_frac t else cc_body_height rc)"
  have "f_in 0 1 fraction" using assms by (auto simp: fraction_def command_ok_def trick_output_ok_def f_unit_def)
  then obtain h st sp v d where x: "rc_shape rc fraction = Some (h, st, sp, v, d)" using rc_shape_some [OF assms(1)] by (metis prod_cases5)
  have rot: "rot_max \<le> 1" by code_simp
  have "f_rng (- 4) 4 (f_add (cc_pose_roll rc) (cc_trim_roll rc))" "f_rng (- 4) 4 (f_add (cc_pose_pitch rc) (cc_trim_pitch rc))"
    using assms(1) rot by (auto simp: command_ok_def intro!: f_add_small intro: f_in_mono)
  moreover have "f_rng (- 4) 4 (cc_pose_yaw rc)" "f_rng (- 1024) 1024 (cc_pose_x_mm rc)" "f_rng (- 1024) 1024 (cc_pose_y_mm rc)"
    "f_rng (- 1024) 1024 (cc_pose_z_mm rc)" using assms(1) rot by (auto simp: command_ok_def intro: float_in)
  moreover have "list_all (\<lambda>v. v \<noteq> NaN \<and> f_rep v) [cc_twist_vx rc, cc_twist_vy rc, cc_twist_wz rc]"
    using assms(1) by (auto simp: command_ok_def)
  moreover have "pose_within 1024 4 (to_pose t)" using assms(2) by (auto simp: trick_output_ok_def pose_within_def intro: float_in)
  moreover have "list_all (\<lambda>v. v \<noteq> NaN \<and> f_rep v) [to_twist_vx t, to_twist_vy t, to_twist_wz t, to_height_rate_mm_per_s t]"
    using assms(2) f_unit_not_NaN by (auto simp: trick_output_ok_def dest: f_rng_rep)
  moreover have "f_rep (Fin 0)" by code_simp
  ultimately show ?thesis
    using x u16_range assms(3)
    by (auto simp: rc_request_def Let_def fraction_def [symmetric] request_ok_def desired_ok_def desired_body_def shape_within_def pose_within_def)
qed

lemma core_request_ok:
  assumes "core_inv c" "command_ok (ri_command (ci_rc intent))" "intent_safe (ci_motion intent)"
  shows "\<exists>r c'. core_request intent rc_drives dt c = Some (r, c') \<and> request_ok r \<and> core_inv c'"
proof (cases rc_drives)
  case True
  define rc where "rc = ri_command (ci_rc intent)"
  define te where "te = (if cc_trick rc \<noteq> TrickNone \<and> co_previous_rc_trick c = TrickNone
    then trick_trigger (cc_trick rc) (cc_body_height rc) (co_trick_engine c) else co_trick_engine c)"
  have "cc_body_height rc \<noteq> NaN" "f_rep (cc_body_height rc)" using assms(2) by (auto simp: rc_def command_ok_def)
  then have "trick_inv te" using assms(1) trick_inv_trigger by (simp add: te_def core_inv_def)
  then obtain te' where te': "trick_update dt (sticksAreActive rc) te = Some te'" "trick_inv te'" using trick_inv_update by blast
  obtain r where "rc_request rc (te_out te') (host_request (ci_motion intent)) = Some r" "request_ok r"
    using rc_request_ok [of rc "te_out te'" "host_request (ci_motion intent)"] te'(2) assms(2)
    by (auto simp: rc_def trick_inv_def host_request_def)
  then show ?thesis
    using True te' assms(1) by (simp add: core_request_def Let_def rc_def [symmetric] te_def [symmetric] core_inv_def)
next
  case False
  then show ?thesis
    using assms host_request_ok trick_inv_cancel(1) by (simp add: core_request_def Let_def core_inv_def)
qed

lemma command_pipeline_frame:
  assumes "pipe_inv p"
  shows "pipe_inv (command_pipeline cfg r b h g pv p)" "gp_last_tick (command_pipeline cfg r b h g pv p) = gp_last_tick p"
  using assms
  by (simp_all add: command_pipeline_def Let_def commandPlanarToBody_def pipe_inv_ops)
    (simp_all add: pipe_setParams_def pipe_setBodyPose_def pipe_setGait_def pipe_setTwist_def pipe_setPreviewLeg_def Let_def)

lemma seed_goal_ticks: "device_ticks p \<Longrightarrow> t \<le> 4095 \<Longrightarrow> device_ticks (pipe_seedGoal cfg i t p)"
proof -
  assume p: "device_ticks p" "t \<le> 4095"
  have "list_all (\<lambda>t. t \<le> 4095) (xs[j := t])" if "list_all (\<lambda>t. t \<le> 4095) xs" for xs j
    using that p(2) set_update_subset_insert [of xs j t] by (auto simp: list_all_iff)
  then show ?thesis using p(1) by (simp add: pipe_seedGoal_def device_ticks_def Let_def split: option.split)
qed

lemma seed_goals_frame:
  assumes "pipe_inv p" "device_ticks p"
  shows "pipe_inv (seed_goals cfg dxl p) \<and> device_ticks (seed_goals cfg dxl p)"
proof -
  have pos: "(ucast v :: u16) \<le> 4095" if "0 \<le> sint v" "sint v \<le> uint kServoMaxTick" for v :: i32
  proof -
    have b: "sint v \<le> 4095" using that(2) by (simp add: kServoMaxTick_def)
    have u: "uint v = sint v" unfolding uint_sint using that(1) b by (intro take_bit_int_eq_self) simp_all
    have "uint (word_of_int (sint v) :: u16) = sint v" using that(1) b by (intro u16_of_int) linarith+
    then have "uint (ucast v :: u16) = sint v" unfolding ucast_eq u .
    then show ?thesis using b by (simp add: word_le_def)
  qed
  have "pipe_inv (fold f xs p) \<and> device_ticks (fold f xs p)"
    if f: "f = (\<lambda>servo p.
         if \<not> ss_ok servo \<or> sint (ss_present_position servo) < 0 \<or> sint (ss_present_position servo) > uint kServoMaxTick then p
         else pipe_seedGoal cfg (ss_id servo) (ucast (ss_present_position servo)) p)" for xs f
    using assms
  proof (induction xs arbitrary: p)
    case (Cons x xs)
    have "pipe_inv (f x p) \<and> device_ticks (f x p)"
      using Cons.prems pos pipe_inv_ops(8) seed_goal_ticks by (simp add: f not_less)
    then show ?case using Cons.IH by simp
  qed simp
  then show ?thesis unfolding seed_goals_def by blast
qed

text \<open>A goal for a mapped servo: a device position, and in the travel unless its joint is still ramping.\<close>

definition goal_ok :: "RobotConfig \<Rightarrow> bool list \<Rightarrow> PipelineJoint \<Rightarrow> bool" where
  "goal_ok cfg ramping jt \<longleftrightarrow>
     (\<exists>s \<in> set (cfg_servos cfg). pj_id jt = servo_id s \<and> pj_leg jt = servo_leg s \<and> pj_joint jt = servo_joint s \<and>
        pj_tick jt \<le> 4095 \<and>
        (min_tick s \<le> pj_tick jt \<and> pj_tick jt \<le> max_tick s \<or>
         ramping ! (unat (servo_leg s) * kJointsPerLeg + unat (servo_joint s))))"

lemma slot_goal_ok:
  assumes "slot_goal cfg step i prev was jt now" "prev \<le> 4095" "i < kNumServos" "now = ramping ! i"
  shows "goal_ok cfg ramping jt"
proof -
  obtain s where s: "s \<in> set (cfg_servos cfg)" "servo_leg s = word_of_nat (i div kJointsPerLeg)" "servo_joint s = word_of_nat (i mod kJointsPerLeg)"
    "pj_id jt = servo_id s" "pj_leg jt = servo_leg s" "pj_joint jt = servo_joint s" "max_tick s \<le> 4095"
    "\<not> now \<longrightarrow> min_tick s \<le> pj_tick jt \<and> pj_tick jt \<le> max_tick s" "now \<longrightarrow> was"
    "was \<longrightarrow> (\<exists>want. min_tick s \<le> want \<and> want \<le> max_tick s \<and> between prev (pj_tick jt) want)"
    using assms(1) unfolding slot_goal_def by blast
  have "pj_tick jt \<le> 4095"
  proof (cases now)
    case True
    then obtain want where "want \<le> max_tick s" "between prev (pj_tick jt) want" using s(9,10) by blast
    then show ?thesis using assms(2) s(7) by (auto simp: between_def)
  next
    case False
    then show ?thesis using s(7,8) by (meson order_trans)
  qed
  moreover have "i div kJointsPerLeg < 6" "i mod kJointsPerLeg < 3" using assms(3) by (simp_all add: kNumServos_def kNumLegs_def kJointsPerLeg_def)
  then have "unat (servo_leg s) * kJointsPerLeg + unat (servo_joint s) = i"
    unfolding s(2,3) by (simp add: unat_of_nat take_bit_nat_eq_self)
  ultimately show ?thesis using s assms(4) unfolding goal_ok_def by (intro bexI [of _ s]) auto
qed

lemma pipe_goals_ok:
  assumes "snapshot_ok cache" "pipe_inv p" "device_ticks p" "dt \<le> 1000" "length (po_legs out) = kNumLegs"
  shows "\<exists>out' p'. pipe_update m (cs_robot cache) dt out p = Some (out', p') \<and> pipe_inv p' \<and> device_ticks p' \<and>
    length (po_joints out') = kNumServos \<and> list_all (goal_ok (cs_robot cache) (gp_ramping p')) (po_joints out')"
proof -
  have cfg: "validateRobotConfig (cs_robot cache)" "config_dims (cs_robot cache)" using assms(1) by (simp_all add: snapshot_ok_def)
  obtain out' p' where u: "pipe_update m (cs_robot cache) dt out p = Some (out', p')" "pipe_inv p'"
    "slots_done (cs_robot cache) (max_ramp_step dt) (gp_last_tick p) (gp_ramping p) kNumServos (po_joints out') (gp_last_tick p') (gp_ramping p')"
    using pipe_update_ok [OF cfg assms(2,4,5), of m] by blast
  have ok: "goal_ok (cs_robot cache) (gp_ramping p') (po_joints out' ! i)" "gp_last_tick p' ! i = pj_tick (po_joints out' ! i)" if "i < kNumServos" for i
  proof -
    have "gp_last_tick p ! i \<le> 4095" using assms(2,3) that by (simp add: device_ticks_def list_all_length pipe_inv_def)
    then show "goal_ok (cs_robot cache) (gp_ramping p') (po_joints out' ! i)" "gp_last_tick p' ! i = pj_tick (po_joints out' ! i)"
      using u(3) that by (auto simp: slots_done_def intro: slot_goal_ok)
  qed
  then have "device_ticks p'" using u(2) by (auto simp: device_ticks_def list_all_length pipe_inv_def goal_ok_def)
  then show ?thesis using u ok by (auto simp: slots_done_def list_all_length)
qed

lemma core_drive_ok:
  assumes "core_inv c" "dt \<le> 1000" "cm_goals cmd = PipelineOutput_default"
  shows "\<exists>cmd' c'. core_drive m state intent rc_drives dt cmd r height c = Some (cmd', c') \<and> core_inv c' \<and>
    length (po_joints (cm_goals cmd')) = kNumServos \<and>
    list_all (goal_ok (cs_robot (co_config_cache c)) (gp_ramping (co_pipeline c'))) (po_joints (cm_goals cmd'))"
proof -
  define preview where "preview = (rc_drives \<and> cc_gait_tune_active (ri_command (ci_rc intent)) \<and> \<not> te_active (co_trick_engine c) \<and>
    \<not> sticksAreActive (ri_command (ci_rc intent)))"
  define q where "q = command_pipeline (cs_robot (co_config_cache c)) r (sh_current (co_body_command_shaper c)) height (co_applied_gait c) preview (co_pipeline c)"
  define p where "p = (if \<not> co_previous_motion_gate c then seed_goals (cs_robot (co_config_cache c)) (rs_dxl state) (pipe_resetPhase q) else q)"
  have "pipe_inv q" "device_ticks q" using assms(1) command_pipeline_frame by (simp_all add: q_def core_inv_def device_ticks_def)
  moreover have "device_ticks (pipe_resetPhase q) = device_ticks q" by (simp add: device_ticks_def pipe_resetPhase_def)
  ultimately have p: "pipe_inv p" "device_ticks p" using seed_goals_frame pipe_inv_ops(6) by (simp_all add: p_def)
  have snap: "snapshot_ok (co_config_cache c)" using assms(1) by (simp add: core_inv_def)
  have "length (po_legs (cm_goals cmd)) = kNumLegs" by (simp add: assms(3) PipelineOutput_default_def)
  from pipe_goals_ok [OF snap p assms(2) this, of m] obtain out' p' where
    "pipe_update m (cs_robot (co_config_cache c)) dt (cm_goals cmd) p = Some (out', p')" "pipe_inv p'" "device_ticks p'"
    "length (po_joints out') = kNumServos" "list_all (goal_ok (cs_robot (co_config_cache c)) (gp_ramping p')) (po_joints out')" by blast
  then show ?thesis
    using assms(1) unfolding core_drive_def Let_def preview_def [symmetric] q_def [symmetric] p_def [symmetric]
    by (simp add: core_inv_def)
qed

lemma core_motion_ok:
  assumes "core_inv c" "command_ok (ri_command (ci_rc intent))" "intent_safe (ci_motion intent)" "dt \<le> 1000"
    "cm_goals cmd = PipelineOutput_default"
  shows "\<exists>cmd' c'. core_motion m state intent rc_drives dt cmd c = Some (cmd', c') \<and> core_inv c' \<and>
    length (po_joints (cm_goals cmd')) = kNumServos \<and>
    list_all (goal_ok (cs_robot (co_config_cache c)) (gp_ramping (co_pipeline c'))) (po_joints (cm_goals cmd'))"
proof -
  obtain r c1 where r: "core_request intent rc_drives dt c = Some (r, c1)" "request_ok r" "core_inv c1"
    using core_request_ok [OF assms(1-3)] by blast
  define sh where "sh = shaper_update (desired_body r) dt (co_body_command_shaper c1)"
  have "shaper_inv sh" using r(2,3) shaper_inv_update by (simp add: sh_def core_inv_def request_ok_def)
  then have c2: "core_inv (c1 \<lparr> co_body_command_shaper := sh \<rparr>)" and "f_rng 0 65535 (bc_body_height_mm (sh_current sh))"
    using r(3) by (simp_all add: core_inv_def shaper_inv_def shape_within_def)
  then obtain h where h: "bc_body_height_mm (sh_current sh) = Fin h" "0 \<le> h" "h \<le> 65535" by (auto elim: f_rngE)
  have k: "f_lit (1 / 2) = Fin (1 / 2)" "rnd32 (131071 / 2) = 131071 / 2" "rnd32 0 = 0" by code_simp+
  have "f_rng 0 (131071 / 2) (f_round (h + 1 / 2))" using h by (intro f_rng_round) (simp_all add: k)
  then have "f_in 0 (of_int 65535 + 1 / 2) (f_add (bc_body_height_mm (sh_current sh)) (f_lit (1 / 2)))" by (simp add: h(1) k f_rng_def)
  then obtain n where "f_cast 0 65535 (f_add (bc_body_height_mm (sh_current sh)) (f_lit (1 / 2))) = Some n" using f_cast_half by blast
  then obtain height where "u16_of_f (f_add (bc_body_height_mm (sh_current sh)) (f_lit (1 / 2))) = Some height" by (simp add: u16_of_f_def)
  then have "core_motion m state intent rc_drives dt cmd c =
      core_drive m state intent rc_drives dt cmd r height (c1 \<lparr> co_body_command_shaper := sh \<rparr>)"
    unfolding core_motion_def r(1) bind.bind_lunit prod.case Let_def sh_def [symmetric] by simp
  moreover have "co_config_cache c1 = co_config_cache c" using core_request_frame(1) [OF r(1)] by (simp add: same_base_def)
  ultimately show ?thesis using core_drive_ok [OF c2 assms(4,5), of m state intent rc_drives r height] by simp
qed

lemma reset_height_ok: "f_rng 0 65535 (reset_height cfg)"
  unfolding reset_height_def by (rule u16_range)

lemma config_limits: "validateRobotConfig cfg \<Longrightarrow> validateBodyCommandLimits (cfg_body_command cfg)"
  by (simp add: validateRobotConfig_def split: if_splits)

lemma shaper_reset_ok: "shaper_inv s \<Longrightarrow> shaper_inv (shaper_reset (reset_height cfg) s)"
  "shaper_inv s \<Longrightarrow> shaper_inv (shaper_reset (reset_height cfg) (shaper_configure l s))"
  using shaper_inv_reset shaper_inv_limits reset_height_ok by blast+

lemma forget_applied_ok: "core_inv c \<Longrightarrow> core_inv (forget_applied c)"
  by (simp add: core_inv_def forget_applied_def trick_inv_cancel)

lemma core_gated_ok:
  assumes "core_inv c" "command_ok (ri_command (ci_rc intent))"
  shows "\<exists>cmd' c'. core_gated intent arbiter cmd c = Some (cmd', c') \<and> core_inv c'"
proof -
  define c' where "c' = (forget_applied c) \<lparr> co_body_command_shaper := shaper_reset (reset_height (cs_robot (co_config_cache c))) (co_body_command_shaper c),
    co_previous_rc_trick := TrickNone, co_pipeline := pipe_setPreviewLeg (- 1) (co_pipeline c) \<rparr>"
  have "device_ticks (pipe_setPreviewLeg (- 1) (co_pipeline c)) = device_ticks (co_pipeline c)" by (simp add: device_ticks_def pipe_setPreviewLeg_def)
  then have "core_inv c'" using forget_applied_ok [OF assms(1)] assms(1) pipe_inv_ops(7) shaper_reset_ok(1) by (simp add: c'_def core_inv_def)
  moreover have "f_in 0 1 (cc_body_height (ri_command (ci_rc intent)))" using assms(2) by (simp add: command_ok_def)
  then obtain x where "rc_shape (ri_command (ci_rc intent)) (cc_body_height (ri_command (ci_rc intent))) = Some x"
    using rc_shape_some [OF assms(2)] by blast
  ultimately show ?thesis
    unfolding core_gated_def Let_def c'_def [symmetric] by (cases x) (simp split: if_split)
qed

lemma maintenance_goals_ok:
  assumes "validateRobotConfig cfg" "config_dims cfg" "targets_ok cfg t"
  shows "list_all (goal_ok cfg ramping) (maintenance_goals cfg t)"
proof -
  have "goal_ok cfg ramping \<lparr> pj_id = servo_id s, pj_tick = mt_tick t ! leg ! j, pj_leg = word_of_nat leg, pj_joint = word_of_nat j, pj_clamped = b \<rparr>"
    if "leg < kNumLegs" "j < kJointsPerLeg" "mt_set t ! leg ! j" "servoFor cfg (word_of_nat leg) (word_of_nat j) = Some s" for leg j s b
  proof -
    have "min_tick s \<le> mt_tick t ! leg ! j" "mt_tick t ! leg ! j \<le> max_tick s"
    proof -
      have "in_travel cfg leg j (mt_tick t ! leg ! j)" using assms(3) that(1-3) by (simp add: targets_ok_def)
      then show "min_tick s \<le> mt_tick t ! leg ! j" "mt_tick t ! leg ! j \<le> max_tick s" using that(4) by (simp_all add: in_travel_def)
    qed
    moreover have s: "s \<in> set (cfg_servos cfg)" "servo_leg s = word_of_nat leg" "servo_joint s = word_of_nat j"
      using that(4) by (auto simp: servoFor_def find_Some_iff)
    moreover have "max_tick s \<le> 4095" using validate_servo_map(1) [OF assms(1,2)] s(1) by (simp add: list_all_iff servo_ok_def)
    ultimately show ?thesis unfolding goal_ok_def by (intro bexI [of _ s]) auto
  qed
  then show ?thesis by (auto simp: maintenance_goals_def list_all_iff split: if_splits option.splits)
qed

text \<open>
  A goal passed on from the maintenance client: the tick stored for the joint, for the servo that the active
  configuration gives the joint.
\<close>

definition stored_goal :: "RobotConfig \<Rightarrow> MaintTargetSet \<Rightarrow> PipelineJoint \<Rightarrow> bool" where
  "stored_goal cfg t jt \<longleftrightarrow>
     (\<exists>leg < kNumLegs. \<exists>j < kJointsPerLeg. \<exists>s. mt_set t ! leg ! j \<and> servoFor cfg (word_of_nat leg) (word_of_nat j) = Some s \<and>
        pj_id jt = servo_id s \<and> pj_leg jt = word_of_nat leg \<and> pj_joint jt = word_of_nat j \<and> pj_tick jt = mt_tick t ! leg ! j)"

lemma maintenance_goals_stored:
  assumes "jt \<in> set (maintenance_goals cfg t)"
  shows "stored_goal cfg t jt"
proof -
  obtain leg j s where "leg < kNumLegs" "j < kJointsPerLeg" "mt_set t ! leg ! j" "servoFor cfg (word_of_nat leg) (word_of_nat j) = Some s"
    "jt = \<lparr> pj_id = servo_id s, pj_tick = mt_tick t ! leg ! j, pj_leg = word_of_nat leg, pj_joint = word_of_nat j, pj_clamped = mt_clamped t ! leg ! j \<rparr>"
    using assms by (auto simp: maintenance_goals_def split: if_splits option.splits dest!: sym [where s = "Some _"])
  then show ?thesis unfolding stored_goal_def by (intro exI conjI) simp_all
qed

text \<open>
  The goals of a command: safe, or stored goals of the client that owns motion; all safe if the targets were
  stored under the active configuration.
\<close>

definition goals_ok :: "RobotConfig \<Rightarrow> bool list \<Rightarrow> MaintTargetSet \<Rightarrow> RobotCommand \<Rightarrow> bool" where
  "goals_ok cfg ramping t cmd \<longleftrightarrow>
     (\<forall>jt \<in> set (po_joints (cm_goals cmd)). goal_ok cfg ramping jt \<or>
        cm_motion_gate cmd \<and> cm_command_source cmd = SrcMacMaintenance \<and> stored_goal cfg t jt) \<and>
     (targets_ok cfg t \<longrightarrow> list_all (goal_ok cfg ramping) (po_joints (cm_goals cmd)))"

lemma goals_ok_intro:
  assumes "list_all (goal_ok cfg ramping) (po_joints (cm_goals cmd)) \<or>
      cm_motion_gate cmd \<and> cm_command_source cmd = SrcMacMaintenance \<and> po_joints (cm_goals cmd) = maintenance_goals cfg t"
    and "validateRobotConfig cfg" and "config_dims cfg"
  shows "goals_ok cfg ramping t cmd"
  using assms maintenance_goals_stored maintenance_goals_ok [OF assms(2,3)] by (auto simp: goals_ok_def list_all_iff)

text \<open>
  What makes the exception real: in a running maintenance session the tick stored for a joint becomes a goal
  whatever the limits of the servo in the configuration that is active by then.
\<close>

lemma in_grid: "a \<in> set xs \<Longrightarrow> b \<in> set ys \<Longrightarrow> x \<in> set (f a b) \<Longrightarrow> x \<in> set (concat (map (\<lambda>a. concat (map (\<lambda>b. f a b) ys)) xs))"
  by auto

lemma stored_goal_unchecked:
  assumes "co_previous_maintenance_authority c" and "mn_control_mode (ci_maintenance intent) = JointTargets"
    and "leg < kNumLegs" and "j < kJointsPerLeg" and "mt_set (mn_targets (ci_maintenance intent)) ! leg ! j"
    and "servoFor (cs_robot (co_config_cache c)) (word_of_nat leg) (word_of_nat j) = Some s"
  shows "\<exists>cmd' c' jt. core_goals m state intent arbiter dt True cmd c = Some (cmd', c') \<and> jt \<in> set (po_joints (cm_goals cmd')) \<and>
     pj_id jt = servo_id s \<and> pj_tick jt = mt_tick (mn_targets (ci_maintenance intent)) ! leg ! j"
proof -
  let ?t = "mn_targets (ci_maintenance intent)"
  let ?jt = "\<lparr> pj_id = servo_id s, pj_tick = mt_tick ?t ! leg ! j, pj_leg = word_of_nat leg, pj_joint = word_of_nat j, pj_clamped = mt_clamped ?t ! leg ! j \<rparr>"
  have "?jt \<in> set (maintenance_goals (cs_robot (co_config_cache c)) ?t)"
    unfolding maintenance_goals_def by (rule in_grid [of leg _ j]) (use assms(3-6) in simp_all)
  then have "\<exists>jt \<in> set (maintenance_goals (cs_robot (co_config_cache c)) ?t). pj_id jt = servo_id s \<and> pj_tick jt = mt_tick ?t ! leg ! j"
    by (rule bexI [rotated]) simp
  then show ?thesis using assms(1,2) by (auto simp: core_goals_def Let_def diag_def)
qed

lemma core_config_ok:
  assumes "core_config m state config c = (u, re, c1)" "core_inv c" "config_dims (cs_robot config)"
  shows "core_inv c1"
proof -
  define cache where "cache = snd (cache_apply (cs_robot config) (cs_revision config) (cs_persistent config) (co_config_cache c))"
  have "snapshot_ok cache" unfolding cache_def using assms(2,3) snapshot_ok_apply by (simp add: core_inv_def)
  moreover have "device_ticks (pipe_reconfigure m cfg p) = device_ticks p" for cfg p by (simp add: device_ticks_def pipe_reconfigure_def)
  ultimately show ?thesis
    using assms(1,2) pipe_inv_ops(1) shaper_reset_ok(2)
    by (auto simp: core_config_def Let_def cache_def [symmetric] core_inv_def split_beta split: if_splits)
qed

lemma core_safety_ok:
  assumes "core_safety state intent u now c = (arbiter, c2)" "core_inv c"
  shows "core_inv c2" "co_config_cache c2 = co_config_cache c"
  using assms by (auto simp: core_safety_def Let_def core_inv_def split: prod.splits)

text \<open>The inputs of a step: commands from their sources, a configuration of the right shape, a clock that bounds the time.\<close>

definition step_input_ok :: "ControllerIntent \<Rightarrow> ControllerConfigSnapshot \<Rightarrow> ControllerTime \<Rightarrow> bool" where
  "step_input_ok intent config time \<longleftrightarrow> command_ok (ri_command (ci_rc intent)) \<and> intent_safe (ci_motion intent) \<and>
     config_dims (cs_robot config) \<and> ct_dt_ms time \<le> 1000"

lemma core_goals_ok:
  assumes "core_inv c" "command_ok (ri_command (ci_rc intent))" "intent_safe (ci_motion intent)" "dt \<le> 1000"
    "cm_goals cmd = PipelineOutput_default"
  shows "\<exists>cmd' c'. core_goals m state intent arbiter dt ma cmd c = Some (cmd', c') \<and> core_inv c' \<and>
    (list_all (goal_ok (cs_robot (co_config_cache c)) (gp_ramping (co_pipeline c'))) (po_joints (cm_goals cmd')) \<or>
     ma \<and> po_joints (cm_goals cmd') = maintenance_goals (cs_robot (co_config_cache c)) (mn_targets (ci_maintenance intent)))"
proof -
  have cfg: "validateRobotConfig (cs_robot (co_config_cache c))" "config_dims (cs_robot (co_config_cache c))"
    using assms(1) by (simp_all add: core_inv_def snapshot_ok_def)
  have none: "po_joints (cm_goals cmd) = []" by (simp add: assms(5) PipelineOutput_default_def)
  obtain cmd1 c1 where m: "core_motion m state intent (out_source arbiter = SrcRc) dt cmd c = Some (cmd1, c1)" "core_inv c1"
    "list_all (goal_ok (cs_robot (co_config_cache c)) (gp_ramping (co_pipeline c1))) (po_joints (cm_goals cmd1))"
    using core_motion_ok [OF assms] by blast
  obtain cmd2 c2 where g: "core_gated intent arbiter cmd c = Some (cmd2, c2)" "core_inv c2" using core_gated_ok [OF assms(1,2)] by blast
  then show ?thesis
    using m forget_applied_ok [OF assms(1)] maintenance_goals_ok [OF cfg] core_gated_frame(3) [OF g(1)] none
    by (auto simp: core_goals_def Let_def)
qed

lemma core_step_ok:
  assumes "core_inv c" "step_input_ok intent config time"
  shows "\<exists>cmd c'. core_step m state intent config time c = Some (cmd, c') \<and> core_inv c' \<and>
    goals_ok (cs_robot (co_config_cache c')) (gp_ramping (co_pipeline c')) (mn_targets (ci_maintenance intent)) cmd"
proof (cases "ct_valid time")
  case True
  obtain u re c1 where 1: "core_config m state config c = (u, re, c1)" by (metis prod_cases3)
  obtain arbiter c2 where 2: "core_safety state intent u (ct_now_ms time) c1 = (arbiter, c2)" by fastforce
  have c1: "core_inv c1" using core_config_ok [OF 1 assms(1)] assms(2) by (simp add: step_input_ok_def)
  have c2: "core_inv c2" by (rule core_safety_ok(1) [OF 2 c1])
  define cmd2 where "cmd2 = core_decision state intent u arbiter c2
    (diag (\<lambda>d. d \<lparr> cd_config_reapplied := re, cd_config_revision := cs_revision (co_config_cache c1) \<rparr>)
      (diag (\<lambda>d. d \<lparr> cd_intent_sequence := mi_seq (ci_motion intent), cd_config_revision := cs_revision (co_config_cache c) \<rparr>) RobotCommand_default))"
  define ma where "ma = (cm_motion_gate cmd2 \<and> out_source arbiter = SrcMacMaintenance)"
  have "cm_goals cmd2 = PipelineOutput_default" by (simp add: cmd2_def RobotCommand_default_def)
  then obtain cmd3 c3 where g: "core_goals m state intent arbiter (ct_dt_ms time) ma cmd2 c2 = Some (cmd3, c3)" "core_inv c3"
    "list_all (goal_ok (cs_robot (co_config_cache c2)) (gp_ramping (co_pipeline c3))) (po_joints (cm_goals cmd3)) \<or>
     ma \<and> po_joints (cm_goals cmd3) = maintenance_goals (cs_robot (co_config_cache c2)) (mn_targets (ci_maintenance intent))"
    using core_goals_ok [OF c2, of intent "ct_dt_ms time" cmd2 m state arbiter ma] assms(2) unfolding step_input_ok_def by blast
  define c' where "c' = c3 \<lparr> co_previous_motion_gate := cm_motion_gate cmd3, co_previous_maintenance_authority := ma \<rparr>"
  have "core_step m state intent config time c = Some (cmd3, c')"
    using True g(1) unfolding core_step_def Let_def 1 2 prod.case cmd2_def [symmetric] ma_def [symmetric] by (simp add: c'_def)
  moreover have "core_inv c'" using g(2) by (simp add: c'_def core_inv_def)
  moreover have "co_config_cache c' = co_config_cache c2" "co_pipeline c' = co_pipeline c3"
    using core_goals_frame(2) [OF g(1)] by (simp_all add: c'_def same_base_def)
  moreover have "ma \<longrightarrow> cm_motion_gate cmd3 \<and> cm_command_source cmd3 = SrcMacMaintenance"
    using core_goals_frame(1) [OF g(1)] by (simp add: same_decision_def ma_def cmd2_def core_decision_def Let_def)
  moreover have "validateRobotConfig (cs_robot (co_config_cache c2))" "config_dims (cs_robot (co_config_cache c2))"
    using c2 by (simp_all add: core_inv_def snapshot_ok_def)
  ultimately show ?thesis using g(3) goals_ok_intro by (metis (lifting))
next
  case False
  then show ?thesis using assms(1) by (simp add: core_step_def RobotCommand_default_def PipelineOutput_default_def goals_ok_def)
qed

section \<open>Runs of the controller\<close>

datatype core_op = CoreStep RobotState ControllerIntent ControllerConfigSnapshot ControllerTime | CoreReset | CoreConfigureSafety StateParams

fun core_exec :: "libm \<Rightarrow> core_op \<Rightarrow> ControllerCore \<Rightarrow> ControllerCore option" where
  "core_exec m (CoreStep state intent config time) c = map_option snd (core_step m state intent config time c)"
| "core_exec m CoreReset c = Some (core_reset m c)"
| "core_exec m (CoreConfigureSafety p) c = Some (core_configureSafety p c)"

fun core_op_ok :: "core_op \<Rightarrow> bool" where
  "core_op_ok (CoreStep state intent config time) \<longleftrightarrow> step_input_ok intent config time"
| "core_op_ok _ \<longleftrightarrow> True"

lemma core_inv_reset:
  assumes "snapshot_ok (co_config_cache c)" "pipe_inv (co_pipeline c)" "device_ticks (co_pipeline c)" "shaper_inv (co_body_command_shaper c)"
  shows "core_inv (core_reset m c)"
proof -
  have "device_ticks (pipe_resetPhase (pipe_reconfigure m cfg p)) = device_ticks p" for cfg p
    by (simp add: device_ticks_def pipe_resetPhase_def pipe_reconfigure_def)
  then show ?thesis
    using assms pipe_inv_ops(1,6) shaper_reset_ok(2) trick_inv_cancel(2) by (simp add: core_inv_def core_reset_def Let_def)
qed

lemma core_inv_new: "core_inv (ControllerCore_new m arbiter machine tricks)"
proof -
  have "device_ticks (GaitPipeline_new m cfg)" for cfg by (simp add: device_ticks_def GaitPipeline_new_def list_all_iff)
  moreover have "shaper_inv (shaper_configure (cfg_body_command defaultRobotConfig) BodyCommandShaper_new)"
    by code_simp
  ultimately show ?thesis
    unfolding ControllerCore_new_def Let_def
    using core_inv_reset snapshot_ok_new pipe_inv_new by (simp add: ConfigSnapshotCache_new_def)
qed

interpretation core_runs: guarded_machine "core_exec m" core_op_ok core_inv
    "\<lambda>c. \<exists>arbiter machine tricks. c = ControllerCore_new m arbiter machine tricks" for m
proof
  fix op c assume ok: "core_op_ok op" "core_inv c"
  show "\<exists>c'. core_exec m op c = Some c' \<and> core_inv c'"
  proof (cases op)
    case (CoreStep state intent config time)
    then obtain cmd c' where "core_step m state intent config time c = Some (cmd, c')" "core_inv c'" using core_step_ok [OF ok(2)] ok(1) by fastforce
    then show ?thesis by (simp add: CoreStep)
  next
    case CoreReset
    then show ?thesis using ok(2) core_inv_reset by (simp add: core_inv_def)
  next
    case (CoreConfigureSafety p)
    then show ?thesis using ok(2) by (simp add: core_configureSafety_def core_inv_def)
  qed
qed (auto simp: core_inv_new)

text \<open>
  C2: a controller step always returns, and its goals are accounted for. From power-up on, after any sequence
  of steps, resets and safety configurations whose commands lie in the envelopes of the RC bridge and the motion
  API and whose elapsed time is at most a second, the next step ends without an out-of-range float
  conversion or an endless loop, on a validated configuration. Every goal it emits is for a servo of that
  configuration and a device position (0 to 4095), and lies inside the travel of its servo unless the joint is still
  being ramped from outside it; the only exception are the goals of a maintenance client that owns motion, which are
  passed on as stored, one for each joint it has set. They are safe in the same sense when they were stored under the
  active configuration; a configuration change in between is not checked again.
\<close>

theorem core_always_answers:
  assumes "list_all core_op_ok ops" and "step_input_ok intent config time"
  shows "\<exists>c cmd c'. fold_opt (core_exec m) ops (ControllerCore_new m arbiter machine tricks) = Some c \<and>
    core_step m state intent config time c = Some (cmd, c') \<and> validateRobotConfig (cs_robot (co_config_cache c')) \<and>
    goals_ok (cs_robot (co_config_cache c')) (gp_ramping (co_pipeline c')) (mn_targets (ci_maintenance intent)) cmd"
proof -
  obtain c where c: "fold_opt (core_exec m) ops (ControllerCore_new m arbiter machine tricks) = Some c" "core_inv c"
    using core_runs.run [OF assms(1)] by blast
  then show ?thesis using core_step_ok [OF c(2) assms(2), of m state] by (auto simp: core_inv_def snapshot_ok_def)
qed

text \<open>
  C1: the controller fails closed. If a step opens the motion gate, allows torque or DXL power, or emits
  a goal, then the time was valid, the configuration supplied was validated and ready, no DXL hard fault,
  watchdog fault, host E-stop or host disarm was present, and an RC kill (once a receiver was seen) was
  present only as the stale failsafe of a granted recovery lock; and goals come only with an open gate.
\<close>

theorem core_fails_closed:
  assumes "core_step m state intent config time c = Some (cmd, c')"
    and "cm_motion_gate cmd \<or> cm_allow_torque cmd \<or> cm_allow_dxl_power cmd \<or> cm_goal_valid cmd \<or> po_joints (cm_goals cmd) \<noteq> []"
  shows "ct_valid time \<and> cs_valid config \<and> validateRobotConfig (cs_robot config) \<and> rs_config_ready state \<and>
    \<not> ds_hard_fault (rs_dxl state) \<and> \<not> rs_watchdog_fault state \<and> \<not> ci_host_estop intent \<and> \<not> ci_host_disarm intent \<and>
    (ri_ever_seen (ci_rc intent) \<and> ri_kill (ci_rc intent) \<longrightarrow> maintenance_failsafe_recovery state intent True) \<and>
    (cm_goal_valid cmd \<or> po_joints (cm_goals cmd) \<noteq> [] \<longrightarrow> cm_motion_gate cmd)"
proof -
  have t: "ct_valid time" using assms by (cases "ct_valid time") (auto simp: core_step_def RobotCommand_default_def PipelineOutput_default_def)
  from assms(1) t obtain u re c1 arbiter c2 cmd0 cmd2 c3 where st: "core_config m state config c = (u, re, c1)"
    "core_safety state intent u (ct_now_ms time) c1 = (arbiter, c2)"
    "cmd2 = core_decision state intent u arbiter c2 cmd0" "cm_goals cmd0 = PipelineOutput_default" "\<not> cm_goal_valid cmd0"
    "core_goals m state intent arbiter (ct_dt_ms time) (cm_motion_gate cmd2 \<and> out_source arbiter = SrcMacMaintenance) cmd2 c2 = Some (cmd, c3)"
    by (rule core_stepE)
  have same: "same_decision cmd cmd2" by (rule core_goals_frame(1) [OF st(6)])
  have gate: "cm_goal_valid cmd \<or> po_joints (cm_goals cmd) \<noteq> [] \<Longrightarrow> cm_motion_gate cmd"
    using core_goals_gated [OF st(6)] st(3-5) same by (auto simp: same_decision_def PipelineOutput_default_def)
  obtain inp sm where inp: "sm_state (co_state_machine c2) = sm_state (sm_update inp (ct_now_ms time) sm)"
    "inp = safety_inputs state intent u arbiter (ct_now_ms time) (c1 \<lparr> co_arbiter := co_arbiter c2 \<rparr>)" using st(2) by (rule core_safety_state)
  have live: "u" "stateAllowsDxlPower (sm_state (sm_update inp (ct_now_ms time) sm))"
    using assms(2) gate same motion_powered unfolding st(3) same_decision_def inp(1) [symmetric] by auto
  note p = sm_powered [OF live(2)]
  have "maintenance_failsafe_recovery state intent True" if "ri_ever_seen (ci_rc intent) \<and> ri_kill (ci_rc intent)"
    using p(5) that live(1) by (simp add: inp(2) stale_failsafe_maintenance_recovery_def)
  then show ?thesis using t gate p(1-4) core_config_usable [of m state config c re c1] st(1) live(1) by (simp add: inp(2))
qed

lemma core_step_decision:
  assumes "core_step m state intent config time c = Some (cmd, c')" "ct_valid time" "core_config m state config c = (u, re, c1)"
    "core_safety state intent u (ct_now_ms time) c1 = (arbiter, c2)"
  shows "cm_safety_state cmd = sm_state (co_state_machine c2)" "cm_command_source cmd = out_source arbiter"
    "cm_allow_dxl_power cmd = (u \<and> stateAllowsDxlPower (sm_state (co_state_machine c2)))"
    "cm_motion_gate cmd = (u \<and> stateAllowsMotion (sm_state (co_state_machine c2)) \<and> out_motion_authorized arbiter)"
    "co_arbiter c' = co_arbiter c2"
proof -
  from assms(1,2) obtain cmd0 cmd2 c3 where st: "cmd2 = core_decision state intent u arbiter c2 cmd0"
    "core_goals m state intent arbiter (ct_dt_ms time) (cm_motion_gate cmd2 \<and> out_source arbiter = SrcMacMaintenance) cmd2 c2 = Some (cmd, c3)"
    "co_arbiter c' = co_arbiter c3"
    by (rule core_stepE) (use assms(3,4) in auto)
  show "cm_safety_state cmd = sm_state (co_state_machine c2)" "cm_command_source cmd = out_source arbiter"
    "cm_allow_dxl_power cmd = (u \<and> stateAllowsDxlPower (sm_state (co_state_machine c2)))"
    "cm_motion_gate cmd = (u \<and> stateAllowsMotion (sm_state (co_state_machine c2)) \<and> out_motion_authorized arbiter)"
    "co_arbiter c' = co_arbiter c2"
    using core_goals_frame [OF st(2)] st(1,3) by (simp_all add: same_decision_def same_base_def)
qed

text \<open>Which inputs stand behind an open gate, per motion state.\<close>

lemma core_motion_cases:
  assumes "core_step m state intent config time c = Some (cmd, c')" and "cm_motion_gate cmd"
  shows "cm_command_source cmd \<noteq> SrcNone \<and>
    (case cm_safety_state cmd of
       RcManual \<Rightarrow> ri_armed (ci_rc intent) \<and> cm_command_source cmd = SrcRc
     | ContactTerrain \<Rightarrow> ri_armed (ci_rc intent) \<and> cm_command_source cmd = SrcRc \<and> fe_foot_contact_enabled (ci_features intent) \<and>
         confident_feet (cn_feet (rs_contact state)) \<ge> 4
     | JetsonAssisted \<Rightarrow> ri_armed (ci_rc intent) \<and> ri_autonomy_enabled (ci_rc intent) \<and> jetsonFresh (ct_now_ms time) (co_arbiter c')
     | MacMaintenance \<Rightarrow> mn_lock_held (ci_maintenance intent)
     | _ \<Rightarrow> False)"
proof -
  have t: "ct_valid time" using assms by (cases "ct_valid time") (auto simp: core_step_def RobotCommand_default_def)
  obtain u re c1 where 1: "core_config m state config c = (u, re, c1)" by (metis prod_cases3)
  obtain arbiter c2 where 2: "core_safety state intent u (ct_now_ms time) c1 = (arbiter, c2)" by fastforce
  note d = core_step_decision [OF assms(1) t 1 2]
  obtain inp sm where inp: "sm_state (co_state_machine c2) = sm_state (sm_update inp (ct_now_ms time) sm)"
    "inp = safety_inputs state intent u arbiter (ct_now_ms time) (c1 \<lparr> co_arbiter := co_arbiter c2 \<rparr>)" using 2 by (rule core_safety_state)
  have live: "stateAllowsMotion (sm_state (sm_update inp (ct_now_ms time) sm))" "out_motion_authorized arbiter"
    using assms(2) d(4) inp(1) by simp_all
  note p = sm_powered [OF motion_powered(1) [OF live(1)]]
  obtain a where "core_arbitrate state intent u (ct_now_ms time) (co_arbiter c1) = (arbiter, a)"
    using 2 by (auto simp: core_safety_def Let_def split: prod.splits)
  then have "out_source arbiter \<noteq> SrcNone" using live(2) unfolding core_arbitrate_def Let_def by (blast dest: arb_update_out(4))
  then show ?thesis
    using live(1) p(6-10) unfolding d(1,2,5) inp(1)
    by (cases "sm_state (sm_update inp (ct_now_ms time) sm)") (auto simp: inp(2) command_source_inj kMinimumConfidentFeet_def)
qed

text \<open>
  C3: motion needs authority. When a step opens the motion gate, the safety state is one of the four
  motion states and its source agrees with it: under RC control the arm switch is on and RC is the
  source, in terrain mode in addition contact sensing is enabled with at least four confident feet,
  under Jetson assistance the arm and autonomy switches are on and the heartbeat is fresh, and in bench
  maintenance the client holds the lock; somebody always is the source.
\<close>

theorem core_motion_authority:
  assumes "core_step m state intent config time c = Some (cmd, c')" and "cm_motion_gate cmd"
  shows "cm_command_source cmd \<noteq> SrcNone \<and>
    (case cm_safety_state cmd of
       RcManual \<Rightarrow> ri_armed (ci_rc intent) \<and> cm_command_source cmd = SrcRc
     | ContactTerrain \<Rightarrow> ri_armed (ci_rc intent) \<and> cm_command_source cmd = SrcRc \<and> fe_foot_contact_enabled (ci_features intent) \<and>
         confident_feet (cn_feet (rs_contact state)) \<ge> 4
     | JetsonAssisted \<Rightarrow> ri_armed (ci_rc intent) \<and> ri_autonomy_enabled (ci_rc intent) \<and> jetsonFresh (ct_now_ms time) (co_arbiter c')
     | MacMaintenance \<Rightarrow> mn_lock_held (ci_maintenance intent)
     | _ \<Rightarrow> False)"
  by (rule core_motion_cases [OF assms])

section \<open>A concrete controller\<close>

definition sample_state :: RobotState where
  "sample_state = \<lparr> rs_battery = \<lparr> bs_millivolts = 12000, bs_valid = True, bs_validity = ValFresh \<rparr>,
     rs_dxl = \<lparr> ds_servos = [], ds_servo_count = 0, ds_validity = ValFresh, ds_configured_servo_coverage = True,
       ds_pose_known_mask = kAllServoPosesKnown, ds_config_revision = 0, ds_arming_ready = True, ds_torque_off = False, ds_hard_fault = False \<rparr>,
     rs_contact = \<lparr> cn_feet = [], cn_present_mask = 0, cn_validity = ValUnknown \<rparr>, rs_config_ready = True, rs_watchdog_fault = False \<rparr>"

definition sample_intent :: ControllerIntent where
  "sample_intent = \<lparr> ci_rc = \<lparr> ri_command = ControllerCommand_default, ri_ever_seen = True, ri_kill = False, ri_armed = True,
       ri_failsafe = False, ri_autonomy_enabled = False \<rparr>, ci_motion = MotionIntent_default,
     ci_maintenance = \<lparr> mn_lock_held = False, mn_recovery_lock = False, mn_lock_token = 0, mn_control_mode = JointTargets, mn_targets = cleared_targets \<rparr>,
     ci_features = \<lparr> fe_foot_contact_enabled = False, fe_terrain_leveling_enabled = False, fe_sensor_polling_enabled = False,
       fe_jetson_control_enabled = False, fe_passive_pose_enabled = False \<rparr>,
     ci_host_estop = False, ci_host_disarm = False, ci_clear_fault_requested = False, ci_passive_requested = False,
     ci_jetson_heartbeat_received = False \<rparr>"

definition sample_config :: ControllerConfigSnapshot where
  "sample_config = \<lparr> cs_robot = defaultRobotConfig, cs_revision = 0, cs_valid = True, cs_persistent = False \<rparr>"

definition sample_time :: ControllerTime where
  "sample_time = \<lparr> ct_now_ms = 1000, ct_dt_ms = 20, ct_valid = True, ct_overrun = False \<rparr>"

definition sample_core :: ControllerCore where
  "sample_core = (ControllerCore_new gait_sample_libm arb_sample sm_initial trick_idle)
     \<lparr> co_state_machine := sm_initial \<lparr> sm_state := RcManual, sm_last_activity_ms := 900 \<rparr> \<rparr>"

lemma sample_input_ok: "step_input_ok sample_intent sample_config sample_time"
proof -
  have "command_ok ControllerCommand_default" "intent_safe MotionIntent_default" by code_simp+
  then show ?thesis by (simp add: step_input_ok_def sample_intent_def sample_config_def sample_time_def default_dims)
qed

lemma sample_core_inv: "core_inv sample_core"
  using core_inv_new [of gait_sample_libm arb_sample sm_initial trick_idle] by (simp add: core_inv_def sample_core_def)

lemma sample_cache: "co_config_cache sample_core = ConfigSnapshotCache_new"
  by (simp add: sample_core_def ControllerCore_new_def core_reset_def Let_def)

lemma sample_usable: "core_config gait_sample_libm sample_state sample_config sample_core = (True, False, sample_core)"
  by (simp add: core_config_def sample_config_def cache_apply_def default_valid sample_cache sample_state_def ConfigSnapshotCache_new_def Let_def)

lemma sample_arbiter: "co_arbiter sample_core = arb_reset arb_sample"
  by (simp add: sample_core_def ControllerCore_new_def core_reset_def Let_def)

lemma sample_safety:
  "\<exists>arbiter c2. core_safety sample_state sample_intent True 1000 sample_core = (arbiter, c2) \<and> sm_state (co_state_machine c2) = RcManual \<and>
     out_motion_authorized arbiter"
proof -
  have a: "map_prod (\<lambda>x. (out_source x, out_motion_authorized x)) (\<lambda>x. True)
      (core_arbitrate sample_state sample_intent True 1000 (arb_reset arb_sample)) = ((SrcRc, True), True)" by code_simp
  obtain arbiter a' where aa: "core_arbitrate sample_state sample_intent True 1000 (arb_reset arb_sample) = (arbiter, a')" by fastforce
  then have src: "out_source arbiter = SrcRc" "out_motion_authorized arbiter" using a by simp_all
  then show ?thesis
    by (simp add: core_safety_def sample_arbiter aa Let_def)
      (simp add: sample_core_def sm_eval safety_inputs_def sample_state_def sample_intent_def Let_def)
qed

lemma sample_step:
  obtains cmd c' where "core_step gait_sample_libm sample_state sample_intent sample_config sample_time sample_core = Some (cmd, c')"
    "cm_motion_gate cmd" "cm_safety_state cmd = RcManual"
proof -
  obtain cmd c' where st: "core_step gait_sample_libm sample_state sample_intent sample_config sample_time sample_core = Some (cmd, c')"
    using core_step_ok [OF sample_core_inv sample_input_ok] by blast
  obtain arbiter c2 where sf: "core_safety sample_state sample_intent True (ct_now_ms sample_time) sample_core = (arbiter, c2)"
    "sm_state (co_state_machine c2) = RcManual" "out_motion_authorized arbiter" using sample_safety by (auto simp: sample_time_def)
  have "ct_valid sample_time" by (simp add: sample_time_def)
  note d = core_step_decision [OF st this sample_usable sf(1)]
  show thesis using that [OF st] d(1,4) sf(2,3) by simp
qed

theorem core_always_answers_witness:
  "\<exists>c cmd c'. fold_opt (core_exec gait_sample_libm) [CoreStep sample_state sample_intent sample_config sample_time]
       (ControllerCore_new gait_sample_libm arb_sample sm_initial trick_idle) = Some c \<and>
     core_step gait_sample_libm sample_state sample_intent sample_config sample_time c = Some (cmd, c') \<and>
     list_all (goal_ok (cs_robot (co_config_cache c')) (gp_ramping (co_pipeline c'))) (po_joints (cm_goals cmd))"
proof -
  have "targets_ok cfg (mn_targets (ci_maintenance sample_intent))" for cfg by (simp add: sample_intent_def targets_ok_cleared)
  moreover have "list_all core_op_ok [CoreStep sample_state sample_intent sample_config sample_time]" using sample_input_ok by simp
  ultimately show ?thesis unfolding goals_ok_def
    using core_always_answers [OF _ sample_input_ok, unfolded goals_ok_def, of "[CoreStep sample_state sample_intent sample_config sample_time]" gait_sample_libm
      arb_sample sm_initial trick_idle sample_state] by blast
qed

theorem core_fails_closed_witness:
  "\<exists>cmd c'. core_step gait_sample_libm sample_state sample_intent sample_config sample_time sample_core = Some (cmd, c') \<and>
     cm_motion_gate cmd \<and> ct_valid sample_time \<and> validateRobotConfig (cs_robot sample_config) \<and> \<not> ci_host_estop sample_intent"
proof (rule sample_step)
  fix cmd c' assume st: "core_step gait_sample_libm sample_state sample_intent sample_config sample_time sample_core = Some (cmd, c')" "cm_motion_gate cmd"
  show ?thesis using core_fails_closed [OF st(1)] st by blast
qed

theorem core_motion_authority_witness:
  "\<exists>cmd c'. core_step gait_sample_libm sample_state sample_intent sample_config sample_time sample_core = Some (cmd, c') \<and>
     cm_motion_gate cmd \<and> cm_safety_state cmd = RcManual \<and> ri_armed (ci_rc sample_intent) \<and> cm_command_source cmd = SrcRc"
proof (rule sample_step)
  fix cmd c' assume st: "core_step gait_sample_libm sample_state sample_intent sample_config sample_time sample_core = Some (cmd, c')"
    "cm_motion_gate cmd" "cm_safety_state cmd = RcManual"
  show ?thesis using core_motion_authority [OF st(1,2)] st by auto
qed

section \<open>The gait shape of a choreography\<close>

text \<open>
  C40: the gait shape a choreography asks for never reaches the gait. Whatever the choreography engine
  publishes while RC drives, the stride, step height and speed of the request are those of the handset.
\<close>

theorem trick_shape_ignored:
  assumes "core_request intent True dt c = Some (r, c')"
  shows "Some (mr_stride r) = u16_of_f (f_mul (cc_stride (ri_command (ci_rc intent))) (f_of_int (uint kMaxGaitStrideMm))) \<and>
    Some (mr_step_height r) = u16_of_f (f_mul (cc_step_height (ri_command (ci_rc intent))) (f_of_int (uint kMaxGaitStepMm))) \<and>
    Some (mr_speed r) = u8_of_f (f_mul (cc_speed (ri_command (ci_rc intent))) (f_lit 255))"
proof -
  obtain t where "rc_request (ri_command (ci_rc intent)) t (host_request (ci_motion intent)) = Some r"
    using assms by (auto simp: core_request_def Let_def bind_eq_Some_conv split: if_splits)
  then obtain h x where "rc_shape (ri_command (ci_rc intent)) h = Some x" "mr_stride r = fst (snd x)" "mr_step_height r = fst (snd (snd x))"
    "mr_speed r = fst (snd (snd (snd x)))" unfolding rc_request_def Let_def map_option_eq_Some by (auto simp: split_beta)
  then show ?thesis by (auto simp: rc_shape_def bind_eq_Some_conv)
qed

lemma core_request_trick:
  assumes "core_request intent True dt c = Some (r, c')" "cc_trick (ri_command (ci_rc intent)) \<noteq> TrickNone" "co_previous_rc_trick c = TrickNone"
  shows "trick_update dt (sticksAreActive (ri_command (ci_rc intent)))
    (trick_trigger (cc_trick (ri_command (ci_rc intent))) (cc_body_height (ri_command (ci_rc intent))) (co_trick_engine c)) = Some (co_trick_engine c')"
  using assms by (auto simp: core_request_def Let_def bind_eq_Some_conv)

definition kick_intent :: ControllerIntent where
  "kick_intent = sample_intent \<lparr> ci_rc := (ci_rc sample_intent) \<lparr> ri_command := ControllerCommand_default \<lparr> cc_trick := JumpKick \<rparr> \<rparr> \<rparr>"

theorem trick_shape_ignored_witness:
  "\<exists>r c'. core_request kick_intent True 20 (sample_core \<lparr> co_trick_engine := trick_idle, co_previous_rc_trick := TrickNone \<rparr>) = Some (r, c') \<and>
     to_override_gait_shape (te_out (co_trick_engine c')) \<and> to_stride_mm (te_out (co_trick_engine c')) = 35 \<and> mr_stride r = 0"
proof -
  let ?c = "sample_core \<lparr> co_trick_engine := trick_idle, co_previous_rc_trick := TrickNone \<rparr>"
  have ok: "core_inv ?c" using sample_core_inv trick_inv_cancel(2) [of trick_idle] by (simp add: core_inv_def trick_reset_def trick_idle_def)
  have "command_ok (ri_command (ci_rc kick_intent))" "intent_safe (ci_motion kick_intent)" by code_simp+
  then obtain r c' where r: "core_request kick_intent True 20 ?c = Some (r, c')" using core_request_ok [OF ok] by blast
  have "map_option (\<lambda>e. (to_override_gait_shape (te_out e), to_stride_mm (te_out e)))
      (trick_update 20 (sticksAreActive (ri_command (ci_rc kick_intent))) (trick_trigger JumpKick (Fin 0) trick_idle)) = Some (True, 35)" by code_simp
  moreover have "trick_update 20 (sticksAreActive (ri_command (ci_rc kick_intent))) (trick_trigger JumpKick (Fin 0) trick_idle) = Some (co_trick_engine c')"
    using core_request_trick [OF r] by (simp add: kick_intent_def ControllerCommand_default_def)
  ultimately have "to_override_gait_shape (te_out (co_trick_engine c'))" "to_stride_mm (te_out (co_trick_engine c')) = 35" by simp_all
  moreover have "u16_of_f (f_mul (cc_stride (ri_command (ci_rc kick_intent))) (f_of_int (uint kMaxGaitStrideMm))) = Some 0" by code_simp
  ultimately show ?thesis using trick_shape_ignored [OF r] r by simp
qed

end
