(* ===== verification/CrsfParser.thy ===== *)
theory CrsfParser
  imports CrcRegister Float32
begin

text \<open>
  The radio link (\<open>input/crsf_parser.h\<close>, \<open>input/crsf_parser.cpp\<close>, and the frame builder of
  \<open>input/crsf_telemetry.cpp\<close>): the CRC-8 of the link, the byte-wise parser with its fixed buffer, the
  unpacking of the sixteen 11-bit channels, and the switch status derived from a frame. Shown here: the
  parser never leaves its buffer and accepts only what was framed and checked, whatever bytes arrive;
  frames built by the frame builder are delivered in order; the bit accumulator of the unpacking loop
  computes the bit slices of the payload; and an error confined to one byte is always detected.
\<close>

section \<open>Constants\<close>

definition kNumChannels :: nat where "kNumChannels = 16"
definition kSyncByte :: u8 where "kSyncByte = 0xC8"
definition kFrameTypeRcChannels :: u8 where "kFrameTypeRcChannels = 0x16"
definition kFrameTypeLinkStats :: u8 where "kFrameTypeLinkStats = 0x14"
definition kRcPayloadBytes :: u8 where "kRcPayloadBytes = 22"
definition kLinkStatsPayloadBytes :: u8 where "kLinkStatsPayloadBytes = 10"
definition kMaxFrameLen :: u8 where "kMaxFrameLen = 64"
definition kMicrosMid :: u16 where "kMicrosMid = 1500"
definition kStickDeadbandUs :: u16 where "kStickDeadbandUs = 25"
definition kStickHalfSpanUs :: u16 where "kStickHalfSpanUs = 500"
definition kChArm :: nat where "kChArm = 4"
definition kChKill :: nat where "kChKill = 5"
definition kChGait :: nat where "kChGait = 6"
definition kChAutonomy :: nat where "kChAutonomy = 7"
definition kCrsfDefaultFailsafeMs :: u32 where "kCrsfDefaultFailsafeMs = 250"
definition kSwitchHigh :: u16 where "kSwitchHigh = 1500"
definition kGaitLow :: u16 where "kGaitLow = 1300"
definition kGaitHigh :: u16 where "kGaitHigh = 1700"

lemmas crsf_consts = kNumChannels_def kSyncByte_def kFrameTypeRcChannels_def kFrameTypeLinkStats_def
  kRcPayloadBytes_def kLinkStatsPayloadBytes_def kMaxFrameLen_def

section \<open>CRC-8\<close>

definition crc8_shift :: "u8 \<Rightarrow> u8" where
  "crc8_shift crc = (if crc AND 0x80 \<noteq> 0 then push_bit 1 crc XOR 0xD5 else push_bit 1 crc)"

definition crc8_byte :: "u8 \<Rightarrow> u8 \<Rightarrow> u8" where
  "crc8_byte crc b = (crc8_shift ^^ 8) (crc XOR b)"

definition crc8 :: "bytes \<Rightarrow> u8" where
  "crc8 data = fold (\<lambda>b crc. crc8_byte crc b) data 0"

section \<open>Channel values\<close>

definition ticksToMicros :: "u16 \<Rightarrow> u16" where
  "ticksToMicros ticks = ucast (drop_bit 3 (ucast ticks * 5 :: u32) + 880)"

definition stickToUnit :: "u16 \<Rightarrow> f32" where
  "stickToUnit micros =
     (let v = uint micros - uint kMicrosMid; dead = uint kStickDeadbandUs in
      if - dead < v \<and> v < dead then f_lit 0
      else
        let v = (if v > 0 then v - dead else v + dead);
            span = f_sub (f_of_int (uint kStickHalfSpanUs)) (f_of_int dead);
            span = (if f_lt span (f_lit 1) then f_lit 1 else span);
            u = f_div (f_of_int v) span;
            u = (if f_lt (f_lit 1) u then f_lit 1 else u)
        in if f_lt u (f_lit (- 1)) then f_lit (- 1) else u)"

section \<open>Parser\<close>

record LinkStatistics =
  up_rssi_ant1 :: u8
  up_rssi_ant2 :: u8
  up_link_quality :: u8
  up_snr :: u8
  active_antenna :: u8
  rf_mode :: u8
  up_tx_power :: u8
  down_rssi :: u8
  down_link_quality :: u8
  down_snr :: u8

definition LinkStatistics_default :: LinkStatistics where
  "LinkStatistics_default = \<lparr> up_rssi_ant1 = 0, up_rssi_ant2 = 0, up_link_quality = 0, up_snr = 0, active_antenna = 0,
     rf_mode = 0, up_tx_power = 0, down_rssi = 0, down_link_quality = 0, down_snr = 0 \<rparr>"

datatype ParserState = PSync | PLength | PData

record Parser =
  crp_buf :: bytes
  crp_idx :: u8
  crp_frame_len :: u8
  crp_state :: ParserState
  crp_frames_decoded :: u32
  crp_crc_errors :: u32
  crp_link_stats_count :: u32
  crp_link_stats :: LinkStatistics

definition parser_reset :: "Parser \<Rightarrow> Parser" where
  "parser_reset p = p \<lparr> crp_idx := 0, crp_frame_len := 0, crp_state := PSync, crp_frames_decoded := 0, crp_crc_errors := 0,
     crp_link_stats_count := 0, crp_link_stats := LinkStatistics_default \<rparr>"

text \<open>The constructor leaves the array uninitialised; any content of the right size will do.\<close>

definition Parser_new :: "bytes \<Rightarrow> Parser" where
  "Parser_new junk = parser_reset \<lparr> crp_buf = junk, crp_idx = 0, crp_frame_len = 0, crp_state = PSync, crp_frames_decoded = 0,
     crp_crc_errors = 0, crp_link_stats_count = 0, crp_link_stats = LinkStatistics_default \<rparr>"

text \<open>
  The loop of \<open>unpackChannels\<close>: \<open>bits\<close> accumulates payload bytes, \<open>bits_avail\<close> counts its valid bits.
  Loads are checked; the list of channels written so far stands for \<open>out.channels[0 .. ch)\<close>.
\<close>

function unpack_loop :: "bytes \<Rightarrow> u32 \<Rightarrow> nat \<Rightarrow> nat \<Rightarrow> u16 list \<Rightarrow> u16 list option" where
  "unpack_loop d bits bits_avail byte_idx out =
     (if length out < kNumChannels then
        if bits_avail < 11 then
          (case buf_get d byte_idx of
             None \<Rightarrow> None
           | Some b \<Rightarrow> unpack_loop d (bits OR push_bit bits_avail (ucast b)) (bits_avail + 8) (byte_idx + 1) out)
        else unpack_loop d (drop_bit 11 bits) (bits_avail - 11) byte_idx (out @ [ucast (bits AND 0x7FF)])
      else Some out)"
  by pat_completeness auto
termination
  by (relation "measures [\<lambda>(d, bits, avail, i, out). kNumChannels - length out, \<lambda>(d, bits, avail, i, out). 11 - avail]") auto

declare unpack_loop.simps [simp del]

definition parser_unpackChannels :: "Parser \<Rightarrow> u16 list option" where
  "parser_unpackChannels p = unpack_loop (drop 3 (crp_buf p)) 0 0 0 []"

definition unpackLinkStats :: "Parser \<Rightarrow> Parser option" where
  "unpackLinkStats p =
     (if length (crp_buf p) < 13 then None else
      let d = drop 3 (crp_buf p) in
      Some (p \<lparr> crp_link_stats := \<lparr> up_rssi_ant1 = d ! 0, up_rssi_ant2 = d ! 1, up_link_quality = d ! 2, up_snr = d ! 3,
            active_antenna = d ! 4, rf_mode = d ! 5, up_tx_power = d ! 6, down_rssi = d ! 7, down_link_quality = d ! 8,
            down_snr = d ! 9 \<rparr>, crp_link_stats_count := crp_link_stats_count p + 1 \<rparr>))"

text \<open>The \<open>Data\<close> case once the last byte of the frame is stored.\<close>

definition parser_finish :: "Parser \<Rightarrow> u16 list \<Rightarrow> (bool \<times> u16 list \<times> Parser) option" where
  "parser_finish p out =
     (let p = p \<lparr> crp_state := PSync \<rparr>; n = unat (crp_frame_len p) in
      if length (crp_buf p) < 2 + n then None else
      let crc_calc = crc8 (take (unat (crp_frame_len p - 1)) (drop 2 (crp_buf p)));
          crc_rx = crp_buf p ! (2 + n - 1) in
      if crc_calc \<noteq> crc_rx then Some (False, out, p \<lparr> crp_crc_errors := crp_crc_errors p + 1 \<rparr>) else
      let t = crp_buf p ! 2 in
      if t \<noteq> kFrameTypeRcChannels \<or> crp_frame_len p \<noteq> kRcPayloadBytes + 2 then
        if t = kFrameTypeLinkStats \<and> crp_frame_len p = kLinkStatsPayloadBytes + 2
        then map_option (\<lambda>p. (False, out, p)) (unpackLinkStats p)
        else Some (False, out, p)
      else map_option (\<lambda>chs. (True, chs, p \<lparr> crp_frames_decoded := crp_frames_decoded p + 1 \<rparr>)) (parser_unpackChannels p))"

definition parser_push :: "u8 \<Rightarrow> u16 list \<Rightarrow> Parser \<Rightarrow> (bool \<times> u16 list \<times> Parser) option" where
  "parser_push byte out p =
     (case crp_state p of
        PSync \<Rightarrow>
          if byte = kSyncByte then map_option (\<lambda>b. (False, out, p \<lparr> crp_buf := b, crp_idx := 1, crp_state := PLength \<rparr>)) (buf_set (crp_buf p) 0 byte)
          else Some (False, out, p)
      | PLength \<Rightarrow>
          if byte < 2 \<or> byte > kMaxFrameLen - 2 then Some (False, out, p \<lparr> crp_state := PSync \<rparr>)
          else map_option (\<lambda>b. (False, out, p \<lparr> crp_frame_len := byte, crp_buf := b, crp_idx := 2, crp_state := PData \<rparr>)) (buf_set (crp_buf p) 1 byte)
      | PData \<Rightarrow>
          (case buf_set (crp_buf p) (unat (crp_idx p)) byte of
             None \<Rightarrow> None
           | Some b \<Rightarrow>
               let p = p \<lparr> crp_buf := b, crp_idx := crp_idx p + 1 \<rparr> in
               if crp_idx p < 2 + crp_frame_len p then Some (False, out, p) else parser_finish p out))"

section \<open>Frame builder\<close>

text \<open>
  \<open>telemetry::buildFrame\<close>: the bytes written to \<open>out\<close>, of which there are \<open>payload_len + 4\<close>; \<open>None\<close> is
  the result 0. The payload length is a \<open>uint8_t\<close>.
\<close>

definition buildFrame :: "u8 \<Rightarrow> bytes \<Rightarrow> nat \<Rightarrow> bytes option" where
  "buildFrame type payload cap =
     (let frame_len = length payload + 4 in
      if frame_len > unat kMaxFrameLen \<or> cap < frame_len then None
      else Some ([kSyncByte, word_of_nat (length payload + 2), type] @ payload @ [crc8 (type # payload)]))"

section \<open>Switch status\<close>

record RcStatus =
  rc_channels_us :: "u16 list"
  rc_armed :: bool
  rc_kill :: bool
  rc_gait_index :: nat
  rc_autonomy :: bool
  rc_failsafe :: bool
  rc_last_frame_ms :: u32
  rc_ever_seen :: bool

definition initRcStatus :: RcStatus where
  "initRcStatus = \<lparr> rc_channels_us = replicate kNumChannels kMicrosMid, rc_armed = False, rc_kill = True, rc_gait_index = 0,
     rc_autonomy = False, rc_failsafe = True, rc_last_frame_ms = 0, rc_ever_seen = False \<rparr>"

definition applyFrame :: "u16 list \<Rightarrow> u32 \<Rightarrow> RcStatus \<Rightarrow> RcStatus" where
  "applyFrame channels now_ms rc =
     (let us = map ticksToMicros channels; gait_us = us ! kChGait;
          kill_sw = us ! kChKill > kSwitchHigh; arm_sw = us ! kChArm > kSwitchHigh
      in rc \<lparr> rc_channels_us := us,
              rc_gait_index := if gait_us < kGaitLow then 0 else if gait_us \<ge> kGaitHigh then 2 else 1,
              rc_kill := kill_sw, rc_armed := arm_sw \<and> \<not> kill_sw, rc_autonomy := us ! kChAutonomy > kSwitchHigh,
              rc_failsafe := False, rc_last_frame_ms := now_ms, rc_ever_seen := True \<rparr>)"

definition rc_evaluateFailsafe :: "u32 \<Rightarrow> u32 \<Rightarrow> RcStatus \<Rightarrow> RcStatus" where
  "rc_evaluateFailsafe now_ms timeout_ms rc =
     (if \<not> rc_ever_seen rc \<or> elapsed now_ms (rc_last_frame_ms rc) > timeout_ms
      then rc \<lparr> rc_failsafe := True, rc_armed := False, rc_kill := True, rc_autonomy := False \<rparr> else rc)"

section \<open>Error detection\<close>

lemma crc8_shift_lfsr: "crc8_shift = lfsr_shift 0xD5"
proof
  fix w :: u8
  have "(0x80 :: u8) = push_bit 7 1" by (simp add: push_bit_eq_mult)
  then have "w AND 0x80 \<noteq> 0 \<longleftrightarrow> bit w 7" by (simp only: bit_iff_and_push_bit_not_eq_0)
  then show "crc8_shift w = lfsr_shift 0xD5 w" by (simp add: crc8_shift_def lfsr_shift_def)
qed

lemma crc8_shifts_inj: "(crc8_shift ^^ n) a = (crc8_shift ^^ n) b \<Longrightarrow> a = b"
  unfolding crc8_shift_lfsr by (rule lfsr_shifts_inj) simp_all

interpretation crc8_reg: crc_register crc8_byte
  by unfold_locales (auto simp: crc8_byte_def xor_cancel dest!: crc8_shifts_inj)

lemma crc8_detects: "b \<noteq> b' \<Longrightarrow> crc8 (xs @ b # ys) \<noteq> crc8 (xs @ b' # ys)"
  unfolding crc8_def by (rule crc8_reg.detects_byte_change)

section \<open>Unpacking is slicing\<close>

text \<open>
  The reference: the payload as one little-endian bit string, channel \<open>k\<close> being its bits \<open>11 k\<close> to
  \<open>11 k + 10\<close>; and the packing it inverts.
\<close>

definition payload_bit :: "bytes \<Rightarrow> nat \<Rightarrow> bool" where
  "payload_bit d n \<longleftrightarrow> bit (d ! (n div 8)) (n mod 8)"

definition channel_slice :: "bytes \<Rightarrow> nat \<Rightarrow> u16" where
  "channel_slice d k = horner_sum of_bool 2 (map (\<lambda>n. payload_bit d (11 * k + n)) [0..<11])"

definition channel_slices :: "bytes \<Rightarrow> u16 list" where
  "channel_slices d = map (channel_slice d) [0..<kNumChannels]"

definition pack_channels :: "u16 list \<Rightarrow> bytes" where
  "pack_channels chs = map (\<lambda>i. horner_sum of_bool 2 (map (\<lambda>n. bit (chs ! ((8 * i + n) div 11)) ((8 * i + n) mod 11)) [0..<8])) [0..<22]"

lemma bit_channel_slice: "bit (channel_slice d k) n \<longleftrightarrow> n < 11 \<and> payload_bit d (11 * k + n)"
  by (auto simp: channel_slice_def bit_horner_sum_bit_word_iff)

lemma slice_eqI: "(\<And>n. bit w n \<longleftrightarrow> n < 11 \<and> payload_bit d (11 * k + n)) \<Longrightarrow> w = channel_slice d k"
  by (rule bit_word_eqI) (simp add: bit_channel_slice)

lemma unpack_loop_slices:
  assumes "22 \<le> length d" and "bits_avail + 11 * length out = 8 * i" and "length out \<le> 16" "bits_avail \<le> 18"
    and "\<And>n. bit bits n \<longleftrightarrow> n < bits_avail \<and> payload_bit d (11 * length out + n)"
    and "out = map (channel_slice d) [0..<length out]"
  shows "unpack_loop d bits bits_avail i out = Some (channel_slices d)"
  using assms
proof (induction d bits bits_avail i out rule: unpack_loop.induct)
  case (1 d bits avail i out)
  consider (full) "length out = 16" | (read) "length out < 16" "avail < 11" | (emit) "length out < 16" "\<not> avail < 11"
    using 1(5) by linarith
  then show ?case
  proof cases
    case full
    then show ?thesis using 1(8) by (subst unpack_loop.simps) (simp add: channel_slices_def kNumChannels_def)
  next
    case read
    have i: "i < length d" using 1(3,4) read by linarith
    let ?bits = "bits OR push_bit avail (ucast (d ! i))"
    have bits: "bit ?bits n \<longleftrightarrow> n < avail + 8 \<and> payload_bit d (11 * length out + n)" for n
    proof (cases "n < avail")
      case True
      then show ?thesis by (simp add: bit_or_iff bit_push_bit_iff 1(7))
    next
      case False
      then obtain m where n: "n = avail + m" using le_Suc_ex not_less by blast
      then have m: "11 * length out + n = i * 8 + m" using 1(4) by linarith
      show ?thesis unfolding m using read bit_u8_high [of m "d ! i"]
        by (cases "m < 8") (auto simp: n bit_or_iff bit_push_bit_iff bit_ucast_iff 1(7) payload_bit_def)
    qed
    have "unpack_loop d ?bits (avail + 8) (i + 1) out = Some (channel_slices d)"
      using 1(3-8) read i bits by (intro 1(1)) (simp_all add: kNumChannels_def buf_get_def)
    then show ?thesis using read i by (subst unpack_loop.simps) (simp add: kNumChannels_def buf_get_def)
  next
    case emit
    let ?w = "ucast (bits AND 0x7FF) :: u16"
    have m: "(0x7FF :: u32) = mask 11" by (simp add: mask_eq_exp_minus_1)
    have "bit ?w n \<longleftrightarrow> n < 11 \<and> payload_bit d (11 * length out + n)" for n
      using emit unfolding m by (auto simp: bit_ucast_iff bit_and_iff bit_mask_iff 1(7))
    then have w: "?w = channel_slice d (length out)" by (rule slice_eqI)
    have "bit (drop_bit 11 bits) n \<longleftrightarrow> n < avail - 11 \<and> payload_bit d (11 * (length out + 1) + n)" for n
      by (auto simp: bit_drop_bit_eq 1(7) algebra_simps)
    then have "unpack_loop d (drop_bit 11 bits) (avail - 11) i (out @ [?w]) = Some (channel_slices d)"
      using 1(3-8) emit w by (intro 1(2)) (simp_all add: kNumChannels_def)
    then show ?thesis using emit by (subst unpack_loop.simps) (simp add: kNumChannels_def)
  qed
qed

lemma parser_unpack_slices: "25 \<le> length (crp_buf p) \<Longrightarrow> parser_unpackChannels p = Some (channel_slices (drop 3 (crp_buf p)))"
  unfolding parser_unpackChannels_def by (rule unpack_loop_slices) simp_all

lemma slices_pack:
  assumes "length chs = 16" and "\<forall>c \<in> set chs. c < 2048"
  shows "channel_slices (pack_channels chs) = chs"
proof (rule nth_equalityI)
  fix k assume "k < length (channel_slices (pack_channels chs))"
  then have k: "k < 16" by (simp add: channel_slices_def kNumChannels_def)
  have "(2048 :: u16) = 2 ^ 11" by simp
  then have small: "chs ! k < 2 ^ 11" using assms k by (metis nth_mem)
  have "chs ! k = channel_slice (pack_channels chs) k"
  proof (rule slice_eqI)
    fix n
    show "bit (chs ! k) n \<longleftrightarrow> n < 11 \<and> payload_bit (pack_channels chs) (11 * k + n)"
    proof (cases "n < 11")
      case True
      then have "(11 * k + n) div 8 < 22" "8 * ((11 * k + n) div 8) + (11 * k + n) mod 8 = 11 * k + n" using k by (linarith, simp)
      then show ?thesis using True by (simp add: payload_bit_def pack_channels_def bit_horner_sum_bit_word_iff)
    next
      case False
      have "take_bit 11 (chs ! k) = chs ! k" using small by (simp add: take_bit_eq_mod mod_word_less)
      then show ?thesis using False by (metis bit_take_bit_iff)
    qed
  qed
  then show "channel_slices (pack_channels chs) ! k = chs ! k" using k by (simp add: channel_slices_def kNumChannels_def)
qed (simp add: channel_slices_def kNumChannels_def assms)

section \<open>The parser refines a frame splitter\<close>

text \<open>The receive loop of the caller: push every byte and collect the channel sets that become available.\<close>

fun parser_run :: "bytes \<Rightarrow> u16 list \<Rightarrow> Parser \<Rightarrow> (u16 list list \<times> Parser) option" where
  "parser_run [] out p = Some ([], p)"
| "parser_run (b # bs) out p =
     (case parser_push b out p of
        None \<Rightarrow> None
      | Some (avail, out, p) \<Rightarrow> map_option (\<lambda>(fs, p). (if avail then out # fs else fs, p)) (parser_run bs out p))"

text \<open>
  The contract: the bytes of the frame under way, and the channels of a complete, checked frame of the
  right type and length.
\<close>

definition frame_channels :: "bytes \<Rightarrow> u16 list option" where
  "frame_channels f =
     (if crc8 (butlast (drop 2 f)) = last f \<and> f ! 2 = kFrameTypeRcChannels \<and> f ! 1 = 24
      then Some (channel_slices (drop 3 f)) else None)"

definition crsf_spec :: "u8 \<Rightarrow> bytes \<Rightarrow> u16 list option \<times> bytes" where
  "crsf_spec b acc =
     (let f = acc @ [b] in
      if acc = [] then (None, if b = kSyncByte then f else [])
      else if length acc = 1 then (None, if b < 2 \<or> b > 62 then [] else f)
      else if length f < 2 + unat (f ! 1) then (None, f)
      else (frame_channels f, []))"

fun crsf_spec_run :: "bytes \<Rightarrow> bytes \<Rightarrow> u16 list list \<times> bytes" where
  "crsf_spec_run [] acc = ([], acc)"
| "crsf_spec_run (b # bs) acc =
     (let (f, acc) = crsf_spec b acc; (fs, acc) = crsf_spec_run bs acc
      in ((case f of None \<Rightarrow> fs | Some x \<Rightarrow> x # fs), acc))"

definition parser_abs :: "Parser \<Rightarrow> bytes" where
  "parser_abs p = (case crp_state p of PSync \<Rightarrow> [] | PLength \<Rightarrow> [kSyncByte] | PData \<Rightarrow> take (unat (crp_idx p)) (crp_buf p))"

definition parser_inv :: "Parser \<Rightarrow> bool" where
  "parser_inv p \<longleftrightarrow> length (crp_buf p) = 64 \<and> (crp_state p = PLength \<longrightarrow> crp_buf p ! 0 = kSyncByte) \<and>
     (crp_state p = PData \<longrightarrow> crp_buf p ! 0 = kSyncByte \<and> crp_buf p ! 1 = crp_frame_len p \<and> 2 \<le> crp_frame_len p \<and> crp_frame_len p \<le> 62 \<and>
        2 \<le> crp_idx p \<and> crp_idx p < 2 + crp_frame_len p)"

text \<open>One push: no access outside the buffer, the invariant is kept, and it simulates the contract.\<close>

definition crsf_push_sim :: "u8 \<Rightarrow> u16 list \<Rightarrow> Parser \<Rightarrow> bool" where
  "crsf_push_sim b out p \<longleftrightarrow> (\<exists>avail out' p'. parser_push b out p = Some (avail, out', p') \<and> parser_inv p' \<and>
     crsf_spec b (parser_abs p) = (if avail then Some out' else None, parser_abs p'))"

lemma crsf_push_simI:
  "parser_push b out p = Some (avail, out', p') \<Longrightarrow> parser_inv p' \<Longrightarrow>
   crsf_spec b (parser_abs p) = (if avail then Some out' else None, parser_abs p') \<Longrightarrow> crsf_push_sim b out p"
  unfolding crsf_push_sim_def by blast

lemma channel_slices_take:
  assumes "22 \<le> length xs" shows "channel_slices (xs @ ys) = channel_slices xs"
proof -
  have "payload_bit (xs @ ys) (11 * k + n) = payload_bit xs (11 * k + n)" if "k < 16" "n < 11" for k n
  proof -
    have "(11 * k + n) div 8 < length xs" using that assms by linarith
    then show ?thesis by (simp add: payload_bit_def nth_append)
  qed
  then show ?thesis by (auto simp: channel_slices_def channel_slice_def kNumChannels_def intro!: arg_cong [where f = "horner_sum of_bool 2"])
qed

lemma parser_finish_frame:
  assumes len: "length (crp_buf p) = 64" and n: "2 \<le> crp_frame_len p" "crp_frame_len p \<le> 62"
    and f: "f = take (2 + unat (crp_frame_len p)) (crp_buf p)" and f1: "f ! 1 = crp_frame_len p"
  shows "\<exists>avail out' p'. parser_finish p out = Some (avail, out', p') \<and> crp_state p' = PSync \<and> length (crp_buf p') = 64 \<and>
    (if avail then Some out' else None) = frame_channels f"
proof -
  define k where "k = unat (crp_frame_len p)"
  have k: "2 \<le> k" "k \<le> 62" using n by (simp_all add: k_def word_le_nat_alt)
  have k1: "unat (crp_frame_len p - 1) = k - Suc 0"
    using n(1) by (simp add: k_def word_le_nat_alt unat_sub)
  have lf: "length f = 2 + k" using f len k by (simp add: k_def)
  have body: "take (k - Suc 0) (drop 2 (crp_buf p)) = butlast (drop 2 f)"
    using k len by (simp add: f k_def [symmetric] butlast_conv_take drop_take min_def)
  have lastf: "crp_buf p ! (Suc k) = last f" using lf k by (subst last_conv_nth) (auto simp: f k_def [symmetric])
  have t: "f ! 2 = crp_buf p ! 2" using k by (simp add: f k_def [symmetric])
  have d: "channel_slices (drop 3 (crp_buf p)) = channel_slices (drop 3 f)" if "k = 24"
  proof -
    have "drop 3 (crp_buf p) = drop 3 f @ drop 26 (crp_buf p)" using that by (simp add: f k_def [symmetric] drop_take_drop)
    then show ?thesis using lf that by (simp add: channel_slices_take)
  qed
  have k24: "crp_frame_len p = 24 \<longleftrightarrow> k = 24" by (simp add: k_def word_unat_eq_iff)
  have fin: "parser_finish p out = (let p = p \<lparr> crp_state := PSync \<rparr> in
      if crc8 (butlast (drop 2 f)) \<noteq> last f then Some (False, out, p \<lparr> crp_crc_errors := crp_crc_errors p + 1 \<rparr>)
      else if f ! 2 \<noteq> kFrameTypeRcChannels \<or> k \<noteq> 24 then
        if f ! 2 = kFrameTypeLinkStats \<and> crp_frame_len p = 12 then map_option (\<lambda>p. (False, out, p)) (unpackLinkStats p)
        else Some (False, out, p)
      else Some (True, channel_slices (drop 3 (crp_buf p)), p \<lparr> crp_frames_decoded := crp_frames_decoded p + 1 \<rparr>))"
    using len k lastf by (simp add: parser_finish_def k_def [symmetric] k1 body t k24 parser_unpack_slices kRcPayloadBytes_def
        kLinkStatsPayloadBytes_def Let_def)
  show ?thesis using d len f1
    by (cases "crc8 (butlast (drop 2 f)) = last f"; cases "f ! 2 = kFrameTypeRcChannels \<and> k = 24";
        cases "f ! 2 = kFrameTypeLinkStats \<and> crp_frame_len p = 12")
      (auto simp: fin frame_channels_def Let_def unpackLinkStats_def k24 kFrameTypeRcChannels_def kFrameTypeLinkStats_def)
qed

lemma parser_push_sim:
  assumes inv: "parser_inv p"
  shows "crsf_push_sim b out p"
proof (cases "crp_state p")
  case PSync
  then show ?thesis using inv by (cases "b = kSyncByte")
      (auto intro!: crsf_push_simI simp: parser_push_def crsf_spec_def parser_abs_def parser_inv_def buf_set_def nth_list_update)
next
  case PLength
  then have buf: "length (crp_buf p) = 64" "crp_buf p ! 0 = kSyncByte" using inv by (simp_all add: parser_inv_def)
  show ?thesis
  proof (cases "b < 2 \<or> b > 62")
    case True
    then show ?thesis using PLength buf
      by (auto intro!: crsf_push_simI simp: parser_push_def crsf_spec_def parser_abs_def parser_inv_def kMaxFrameLen_def)
  next
    case False
    have "take 2 ((crp_buf p)[1 := b]) = [kSyncByte, b]"
      using buf by (cases "crp_buf p"; cases "tl (crp_buf p)") (simp_all add: numeral_2_eq_2)
    then show ?thesis using PLength buf False
      by (auto intro!: crsf_push_simI simp: parser_push_def crsf_spec_def parser_abs_def parser_inv_def kMaxFrameLen_def buf_set_def not_less
          nth_list_update word_le_nat_alt word_less_nat_alt unat_word_ariths)
  qed
next
  case PData
  define i n where "i = unat (crp_idx p)" and "n = unat (crp_frame_len p)"
  have buf: "length (crp_buf p) = 64" "crp_buf p ! 0 = kSyncByte" "crp_buf p ! 1 = crp_frame_len p" and n: "2 \<le> crp_frame_len p" "crp_frame_len p \<le> 62"
    using inv PData by (simp_all add: parser_inv_def)
  have len2: "unat (2 + crp_frame_len p) = 2 + n" using n by (simp add: n_def word_le_nat_alt unat_word_ariths)
  have i: "2 \<le> i" "i < 2 + n" "n \<le> 62"
    using inv PData n len2 by (simp_all add: parser_inv_def i_def n_def word_le_nat_alt word_less_nat_alt)
  have i1: "unat (crp_idx p + 1) = Suc i" using i by (simp add: i_def unat_word_ariths)
  define q where "q = p \<lparr> crp_buf := (crp_buf p)[i := b], crp_idx := crp_idx p + 1 \<rparr>"
  have acc: "parser_abs p = take i (crp_buf p)" using PData by (simp add: parser_abs_def i_def)
  have f: "take (Suc i) ((crp_buf p)[i := b]) = take i (crp_buf p) @ [b]"
    using i buf(1) by (simp add: take_Suc_conv_app_nth)
  have f1: "(take i (crp_buf p) @ [b]) ! 1 = crp_frame_len p" using i buf by (simp add: nth_append)
  have push: "parser_push b out p = (if Suc i < 2 + n then Some (False, out, q) else parser_finish q out)"
    using PData i buf i1 len2 by (simp add: parser_push_def buf_set_def i_def [symmetric] q_def word_less_nat_alt Let_def)
  have spec: "crsf_spec b (parser_abs p) = (if Suc i < 2 + n then (None, take i (crp_buf p) @ [b]) else (frame_channels (take i (crp_buf p) @ [b]), []))"
    using i buf f1 by (auto simp: crsf_spec_def acc Let_def n_def)
  show ?thesis
  proof (cases "Suc i < 2 + n")
    case True
    have "parser_inv q" using True i i1 buf n len2 PData
      by (simp add: parser_inv_def q_def nth_list_update word_le_nat_alt word_less_nat_alt)
    then show ?thesis using True push spec PData f i1 by (intro crsf_push_simI [of b out p False out q]) (simp_all add: q_def parser_abs_def acc)
  next
    case False
    then have e: "Suc i = 2 + n" using i by linarith
    obtain avail out' p' where fin: "parser_finish q out = Some (avail, out', p')" "crp_state p' = PSync" "length (crp_buf p') = 64"
      "(if avail then Some out' else None) = frame_channels (take i (crp_buf p) @ [b])"
    proof -
      have "take i (crp_buf p) @ [b] = take (2 + unat (crp_frame_len q)) (crp_buf q)" using f e by (simp add: q_def n_def)
      from parser_finish_frame [OF _ _ _ this, of out] buf(1) n f1 show thesis using that by (auto simp: q_def)
    qed
    then show ?thesis using False push spec by (intro crsf_push_simI [of b out p avail out' p']) (simp_all add: parser_inv_def parser_abs_def acc)
  qed
qed

lemma parser_run_refines:
  assumes "parser_inv p"
  shows "\<exists>fs p'. parser_run bs out p = Some (fs, p') \<and> parser_inv p' \<and> crsf_spec_run bs (parser_abs p) = (fs, parser_abs p')"
  using assms
proof (induction bs arbitrary: out p)
  case (Cons b bs)
  obtain avail out' p' where st: "parser_push b out p = Some (avail, out', p')" "parser_inv p'"
    "crsf_spec b (parser_abs p) = (if avail then Some out' else None, parser_abs p')"
    using parser_push_sim [OF Cons.prems] unfolding crsf_push_sim_def by blast
  obtain fs q where "parser_run bs out' p' = Some (fs, q)" "parser_inv q" "crsf_spec_run bs (parser_abs p') = (fs, parser_abs q)"
    using Cons.IH [OF st(2)] by blast
  then show ?case using st by simp
qed simp

lemma parser_inv_new: "length junk = 64 \<Longrightarrow> parser_inv (Parser_new junk)" "parser_abs (Parser_new junk) = []"
  by (simp_all add: parser_inv_def parser_abs_def Parser_new_def parser_reset_def)

section \<open>What the parser delivers\<close>

definition rc_frame :: "bytes \<Rightarrow> bytes" where
  "rc_frame payload = [kSyncByte, 24, kFrameTypeRcChannels] @ payload @ [crc8 (kFrameTypeRcChannels # payload)]"

lemma crsf_run_append: "crsf_spec_run (xs @ ys) acc = (let (fs, acc) = crsf_spec_run xs acc; (gs, acc) = crsf_spec_run ys acc in (fs @ gs, acc))"
  by (induction xs arbitrary: acc) (auto simp: Let_def split_beta split: option.split)

definition crsf_acc_ok :: "bytes \<Rightarrow> bool" where
  "crsf_acc_ok acc \<longleftrightarrow> acc = [] \<or> acc ! 0 = kSyncByte \<and> (2 \<le> length acc \<longrightarrow> length acc < 2 + unat (acc ! 1))"

text \<open>A frame that yields channels is an RC frame, delivered from its 22 payload bytes.\<close>

lemma frame_channels_rc:
  assumes "frame_channels f = Some chs" and "f ! 0 = kSyncByte" and "length f = 26"
  shows "\<exists>payload. length payload = 22 \<and> f = rc_frame payload \<and> chs = channel_slices payload"
proof -
  define payload where "payload = butlast (drop 3 f)"
  have c: "crc8 (butlast (drop 2 f)) = last f" "f ! 2 = kFrameTypeRcChannels" "f ! 1 = 24" "chs = channel_slices (drop 3 f)"
    using assms(1) by (auto simp: frame_channels_def split: if_splits)
  have "drop 3 f \<noteq> []" "last (drop 3 f) = last f" using assms(3) by simp_all
  then have d3: "drop 3 f = payload @ [last f]" unfolding payload_def by (metis append_butlast_last_id)
  have d2: "drop 2 f = f ! 2 # drop 3 f" using assms(3) by (simp add: Cons_nth_drop_Suc numeral_3_eq_3 numeral_2_eq_2)
  have "f = f ! 0 # f ! 1 # drop 2 f" using assms(3) by (metis Cons_nth_drop_Suc One_nat_def Suc_1 drop0 less_numeral_extra(3) numeral_less_iff zero_less_numeral one_less_numeral_iff semiring_norm(76,77))
  then have "f = rc_frame payload" using c assms(2) d2 d3 by (simp add: rc_frame_def butlast_append)
  moreover have "length payload = 22" using assms(3) by (simp add: payload_def)
  moreover have "chs = channel_slices payload" using c(4) d3 calculation(2) by (simp add: channel_slices_take)
  ultimately show ?thesis by blast
qed

text \<open>The bytes received so far, cut into delivered frames with whatever was skipped before each.\<close>

definition cut :: "(bytes \<times> bytes) list \<Rightarrow> bytes \<Rightarrow> bytes" where
  "cut parts tail = concat (map (\<lambda>(noise, payload). noise @ rc_frame payload) parts) @ tail"

lemma cut_prepend: "\<exists>parts' tail'. pre @ cut parts tail = cut parts' tail' \<and> map snd parts' = map snd parts"
proof (cases parts)
  case Nil
  then show ?thesis by (intro exI [of _ "[]"] exI [of _ "pre @ tail"]) (simp add: cut_def)
next
  case (Cons q qs)
  then show ?thesis by (intro exI [of _ "(pre @ fst q, snd q) # qs"] exI [of _ tail]) (simp add: cut_def split_beta)
qed

lemma crsf_spec_cases:
  assumes "crsf_acc_ok acc" and "crsf_spec b acc = (r, acc')"
  obtains (keep) "r = None" "acc' = acc @ [b]" "crsf_acc_ok acc'" | (discard) "r = None" "acc' = []"
    | (frame) payload where "length payload = 22" "acc @ [b] = rc_frame payload" "r = Some (channel_slices payload)" "acc' = []"
proof (cases "length acc < 2 \<or> length acc + 1 < 2 + unat ((acc @ [b]) ! 1)")
  case True
  then have "r = None \<and> (acc' = acc @ [b] \<and> crsf_acc_ok acc' \<or> acc' = [])"
    using assms by (cases acc; cases "tl acc")
      (auto simp: crsf_spec_def crsf_acc_ok_def Let_def nth_append not_less word_le_nat_alt split: if_splits)
  then show thesis using keep discard by blast
next
  case False
  then have len: "2 \<le> length acc" "(acc @ [b]) ! 1 = acc ! 1" "(acc @ [b]) ! 0 = acc ! 0" by (auto simp: nth_append)
  then have acc: "acc ! 0 = kSyncByte" "length acc < 2 + unat (acc ! 1)" using assms(1) by (auto simp: crsf_acc_ok_def)
  have st: "r = frame_channels (acc @ [b])" "acc' = []" using assms(2) False len by (auto simp: crsf_spec_def Let_def split: if_splits)
  show thesis
  proof (cases r)
    case (Some chs)
    then have "(acc @ [b]) ! 1 = 24" using st by (auto simp: frame_channels_def split: if_splits)
    then have "length (acc @ [b]) = 26" using False acc len by simp
    then obtain payload where "length payload = 22" "acc @ [b] = rc_frame payload" "chs = channel_slices payload"
      using frame_channels_rc [of "acc @ [b]" chs] Some st acc len by auto
    then show thesis using frame Some st by blast
  qed (use discard st in blast)
qed

lemma crsf_run_genuine:
  assumes "crsf_acc_ok acc" and "crsf_spec_run bs acc = (fs, acc')"
  shows "\<exists>parts tail. acc @ bs = cut parts tail \<and> fs = map channel_slices (map snd parts) \<and> list_all (\<lambda>x. length x = 22) (map snd parts)"
  using assms
proof (induction bs arbitrary: acc fs acc')
  case Nil
  then show ?case by (intro exI [of _ "[]"] exI [of _ acc]) (simp add: cut_def)
next
  case (Cons b bs)
  obtain r acc1 where p: "crsf_spec b acc = (r, acc1)" by fastforce
  obtain gs acc2 where g: "crsf_spec_run bs acc1 = (gs, acc2)" by fastforce
  have fs: "fs = (case r of None \<Rightarrow> gs | Some x \<Rightarrow> x # gs)" using Cons.prems p g by simp
  have pre: ?case if e: "acc @ b # bs = pre @ acc1 @ bs" "crsf_acc_ok acc1" "r = None" for pre
  proof -
    obtain parts tail where "acc1 @ bs = cut parts tail" "gs = map channel_slices (map snd parts)" "list_all (\<lambda>x. length x = 22) (map snd parts)"
      using Cons.IH [OF e(2) g] by blast
    moreover obtain parts' tail' where c: "pre @ cut parts tail = cut parts' tail'" "map snd parts' = map snd parts" using cut_prepend by blast
    ultimately show ?thesis using e fs by (intro exI [of _ parts'] exI [of _ tail']) (simp only: c(2), simp)
  qed
  from Cons.prems(1) p show ?case
  proof (cases rule: crsf_spec_cases)
    case keep
    then show ?thesis using pre [of "[]"] by simp
  next
    case discard
    then show ?thesis using pre [of "acc @ [b]"] by (simp add: crsf_acc_ok_def)
  next
    case (frame payload)
    then obtain parts tail where "bs = cut parts tail" "gs = map channel_slices (map snd parts)" "list_all (\<lambda>x. length x = 22) (map snd parts)"
      using Cons.IH [of "[]" gs] g by (auto simp: crsf_acc_ok_def)
    moreover have "acc @ b # bs = rc_frame payload @ bs" using frame(2) by (metis append.assoc append_Cons append_Nil)
    ultimately show ?thesis using frame fs by (intro exI [of _ "([], payload) # parts"] exI [of _ tail]) (simp add: cut_def)
  qed
qed

lemma crsf_run_noise: "kSyncByte \<notin> set noise \<Longrightarrow> crsf_spec_run noise [] = ([], [])"
  by (induction noise) (auto simp: crsf_spec_def)

lemma crsf_run_body:
  assumes "2 \<le> length acc" and "length acc + length bs < 2 + unat (acc ! 1)"
  shows "crsf_spec_run bs acc = ([], acc @ bs)"
  using assms
proof (induction bs arbitrary: acc)
  case (Cons b bs)
  have "crsf_spec b acc = (None, acc @ [b])" using Cons.prems by (auto simp: crsf_spec_def Let_def nth_append)
  moreover have "crsf_spec_run bs (acc @ [b]) = ([], (acc @ [b]) @ bs)"
    using Cons.prems by (intro Cons.IH) (auto simp: nth_append)
  ultimately show ?case by simp
qed simp

text \<open>A well-framed byte string, its check value aside.\<close>

lemma crsf_run_frame:
  assumes "f = kSyncByte # word_of_nat n # body" and "length body = n" "2 \<le> n" "n \<le> 62"
  shows "crsf_spec_run f [] = (case frame_channels f of None \<Rightarrow> [] | Some x \<Rightarrow> [x], [])"
proof -
  have un: "unat (word_of_nat n :: u8) = n" using assms(4) by (simp add: unat_of_nat take_bit_nat_eq_self)
  have b: "\<not> (word_of_nat n :: u8) < 2" "\<not> (62 :: u8) < word_of_nat n"
    using assms(3,4) by (simp_all add: word_less_nat_alt un)
  obtain body' x where body: "body = body' @ [x]" using assms(2,3) by (metis append_butlast_last_id list.size(3) not_numeral_le_zero)
  have "crsf_spec_run body' [kSyncByte, word_of_nat n] = ([], kSyncByte # word_of_nat n # body')"
    using assms(2) body by (subst crsf_run_body) (simp_all add: un)
  moreover have "crsf_spec x (kSyncByte # word_of_nat n # body') = (frame_channels f, [])"
    using assms(1,2) body by (simp add: crsf_spec_def un)
  ultimately have "crsf_spec_run body [kSyncByte, word_of_nat n] = (case frame_channels f of None \<Rightarrow> [] | Some x \<Rightarrow> [x], [])"
    by (simp add: body crsf_run_append)
  then show ?thesis using b unfolding assms(1) by (simp add: crsf_spec_def)
qed

lemma buildFrame_frame:
  assumes "length payload \<le> 60"
  shows "buildFrame t payload 64 = Some (kSyncByte # word_of_nat (length payload + 2) # (t # payload) @ [crc8 (t # payload)])"
  using assms by (simp add: buildFrame_def kMaxFrameLen_def)

lemma frame_channels_built:
  assumes "length payload \<le> 60"
  shows "frame_channels (kSyncByte # word_of_nat (length payload + 2) # (t # payload) @ [crc8 (t # payload)]) =
    (if t = kFrameTypeRcChannels \<and> length payload = 22 then Some (channel_slices payload) else None)"
proof -
  have "(word_of_nat n :: u8) = 24 \<longleftrightarrow> n = 24" if "n \<le> 62" for n
    using that by (simp add: word_unat_eq_iff unat_of_nat take_bit_nat_eq_self)
  from this [of "length payload + 2"] have "(word_of_nat (length payload + 2) :: u8) = 24 \<longleftrightarrow> length payload = 22"
    using assms by linarith
  then show ?thesis by (auto simp: frame_channels_def butlast_append numeral_2_eq_2 numeral_3_eq_3 channel_slices_take)
qed

text \<open>What a transmitter sends: channel sets, and frames of other types (link statistics, telemetry).\<close>

datatype radio_item = RadioChannels "u16 list" | RadioOther u8 bytes

fun radio_frame :: "radio_item \<Rightarrow> bytes option" where
  "radio_frame (RadioChannels chs) = buildFrame kFrameTypeRcChannels (pack_channels chs) 64"
| "radio_frame (RadioOther t payload) = buildFrame t payload 64"

fun radio_item_ok :: "radio_item \<Rightarrow> bool" where
  "radio_item_ok (RadioChannels chs) \<longleftrightarrow> length chs = 16 \<and> (\<forall>c \<in> set chs. c < 2048)"
| "radio_item_ok (RadioOther t payload) \<longleftrightarrow> length payload \<le> 60 \<and> \<not> (t = kFrameTypeRcChannels \<and> length payload = 22)"

fun radio_channels :: "radio_item \<Rightarrow> u16 list list" where
  "radio_channels (RadioChannels chs) = [chs]"
| "radio_channels (RadioOther t payload) = []"

lemma crsf_run_item:
  assumes "radio_item_ok it"
  shows "\<exists>f. radio_frame it = Some f \<and> crsf_spec_run f [] = (radio_channels it, [])"
proof -
  have built: "\<exists>f. buildFrame t payload 64 = Some f \<and>
      crsf_spec_run f [] = (if t = kFrameTypeRcChannels \<and> length payload = 22 then [channel_slices payload] else [], [])"
    if "length payload \<le> 60" for t payload
    using that buildFrame_frame [OF that, of t] frame_channels_built [OF that, of t]
      crsf_run_frame [of _ "length payload + 2" "(t # payload) @ [crc8 (t # payload)]"] by auto
  show ?thesis
  proof (cases it)
    case (RadioChannels chs)
    have "length (pack_channels chs) = 22" by (simp add: pack_channels_def)
    then show ?thesis using built [of "pack_channels chs" kFrameTypeRcChannels] slices_pack [of chs] assms RadioChannels by auto
  next
    case (RadioOther t payload)
    then show ?thesis using built [of payload t] assms by auto
  qed
qed

lemma crsf_run_items:
  assumes "\<forall>(noise, it) \<in> set items. kSyncByte \<notin> set noise \<and> radio_item_ok it"
  shows "crsf_spec_run (concat (map (\<lambda>(noise, it). noise @ the (radio_frame it)) items)) [] = (concat (map (radio_channels \<circ> snd) items), [])"
  using assms
proof (induction items)
  case (Cons x items)
  obtain noise it f where x: "x = (noise, it)" "radio_frame it = Some f" "crsf_spec_run f [] = (radio_channels it, [])" "kSyncByte \<notin> set noise"
    using Cons.prems crsf_run_item by (cases x) fastforce
  then show ?case using Cons by (simp add: crsf_run_append crsf_run_noise)
qed simp

text \<open>A parser at rest between two frames, after any bytes received since power-up.\<close>

definition parser_idle :: "Parser \<Rightarrow> bool" where
  "parser_idle p \<longleftrightarrow> crp_state p = PSync \<and> (\<exists>junk bs out fs. length junk = 64 \<and> parser_run bs out (Parser_new junk) = Some (fs, p))"

lemma parser_idle_inv: assumes "parser_idle p" shows "parser_inv p" "parser_abs p = []"
proof -
  obtain junk bs out fs where r: "length junk = 64" "parser_run bs out (Parser_new junk) = Some (fs, p)"
    using assms by (auto simp: parser_idle_def)
  show "parser_inv p" using parser_run_refines [OF parser_inv_new(1) [OF r(1)], of bs out] r(2) by auto
  show "parser_abs p = []" using assms by (simp add: parser_idle_def parser_abs_def)
qed

lemma parser_abs_sync: "parser_inv p \<Longrightarrow> parser_abs p = [] \<Longrightarrow> crp_state p = PSync"
  by (auto simp: parser_abs_def parser_inv_def word_le_nat_alt split: ParserState.splits)

text \<open>
  C27: the channel decoder is the bit slicing of the payload. The loop that shifts payload bytes through a
  32-bit accumulator computes, for every buffer that holds a complete RC frame, channel \<open>k\<close> as the bits
  \<open>11 k\<close> to \<open>11 k + 10\<close> of the payload read as one little-endian bit string, without reading past the
  payload; in particular it inverts the packing of sixteen 11-bit values.
\<close>

theorem unpack_is_slicing:
  "(\<forall>p. 25 \<le> length (crp_buf p) \<longrightarrow> parser_unpackChannels p = Some (channel_slices (take 22 (drop 3 (crp_buf p))))) \<and>
   (\<forall>chs p junk. length chs = 16 \<and> (\<forall>c \<in> set chs. c < 2048) \<and> drop 3 (crp_buf p) = pack_channels chs @ junk \<longrightarrow> parser_unpackChannels p = Some chs)"
proof (intro conjI allI impI)
  fix p :: Parser assume "25 \<le> length (crp_buf p)"
  then show "parser_unpackChannels p = Some (channel_slices (take 22 (drop 3 (crp_buf p))))"
    using parser_unpack_slices [of p] channel_slices_take [of "take 22 (drop 3 (crp_buf p))" "drop 22 (drop 3 (crp_buf p))"]
    by (simp only: append_take_drop_id) simp
next
  fix chs :: "u16 list" and p :: Parser and junk
  assume a: "length chs = 16 \<and> (\<forall>c \<in> set chs. c < 2048) \<and> drop 3 (crp_buf p) = pack_channels chs @ junk"
  have l: "length (pack_channels chs) = 22" by (simp add: pack_channels_def)
  have "22 \<le> length (drop 3 (crp_buf p))" using a l by (metis length_append le_add1)
  then have "25 \<le> length (crp_buf p)" by simp
  then show "parser_unpackChannels p = Some chs" using parser_unpack_slices [of p] channel_slices_take [of "pack_channels chs" junk] slices_pack [of chs] a l
    by simp
qed

theorem unpack_is_slicing_witness:
  "parser_unpackChannels ((Parser_new (replicate 64 0)) \<lparr> crp_buf := [0xC8, 24, 0x16] @ pack_channels (replicate 15 992 @ [1811]) @ [0] \<rparr>) =
     Some (replicate 15 992 @ [1811])"
proof -
  have "\<forall>c \<in> set (replicate 15 992 @ [1811]). c < (2048 :: u16)" by simp
  then show ?thesis by (intro unpack_is_slicing [THEN conjunct2, rule_format, of _ _ "[0]"]) simp_all
qed

text \<open>
  C25: the parser accepts only genuine frames. Whatever bytes arrive after power-up, the parser never
  accesses anything outside its 64-byte buffer, and the channel sets it reports are, in order, those of
  disjoint pieces of the input each of which is an RC frame with the right sync byte, length, type and
  check value.
\<close>

theorem crsf_only_genuine_frames:
  assumes "length junk = 64"
  shows "\<exists>fs p parts tail. parser_run bs out (Parser_new junk) = Some (fs, p) \<and>
    bs = concat (map (\<lambda>(noise, payload). noise @ rc_frame payload) parts) @ tail \<and>
    fs = map (\<lambda>(noise, payload). channel_slices payload) parts \<and> (\<forall>(noise, payload) \<in> set parts. length payload = 22)"
proof -
  obtain fs p where r: "parser_run bs out (Parser_new junk) = Some (fs, p)" "crsf_spec_run bs [] = (fs, parser_abs p)"
    using parser_run_refines [OF parser_inv_new(1) [OF assms]] parser_inv_new(2) by metis
  obtain parts tail where "[] @ bs = cut parts tail" "fs = map channel_slices (map snd parts)" "list_all (\<lambda>x. length x = 22) (map snd parts)"
    using crsf_run_genuine [OF _ r(2)] by (auto simp: crsf_acc_ok_def)
  then show ?thesis using r(1) by (intro exI [of _ fs] exI [of _ p] exI [of _ parts] exI [of _ tail])
      (auto simp: cut_def list_all_iff split_beta)
qed

theorem crsf_only_genuine_frames_witness:
  "\<exists>fs p parts tail. parser_run [0xC8, 0xC8, 24, 0x16, 7] [] (Parser_new (replicate 64 0)) = Some (fs, p) \<and>
    [0xC8, 0xC8, 24, 0x16, 7] = concat (map (\<lambda>(noise, payload). noise @ rc_frame payload) parts) @ tail \<and>
    fs = map (\<lambda>(noise, payload). channel_slices payload) parts"
  using crsf_only_genuine_frames [of "replicate 64 0" "[0xC8, 0xC8, 24, 0x16, 7]" "[]"] by auto

text \<open>
  C26: channel frames are delivered. From any parser state between two frames, a stream of frames built by
  the frame builder, each after arbitrary bytes that are not the sync byte, is split correctly: the channel
  sets sent arrive completely, in order and with their exact values, frames of other types are skipped, and
  the parser is between frames again.
\<close>

theorem crsf_channels_delivered:
  assumes "parser_idle p" and "\<forall>(noise, it) \<in> set items. kSyncByte \<notin> set noise \<and> radio_item_ok it"
  shows "\<exists>p'. parser_run (concat (map (\<lambda>(noise, it). noise @ the (radio_frame it)) items)) out p =
      Some (concat (map (radio_channels \<circ> snd) items), p') \<and> crp_state p' = PSync"
proof -
  obtain fs p' where r: "parser_run (concat (map (\<lambda>(noise, it). noise @ the (radio_frame it)) items)) out p = Some (fs, p')"
    "parser_inv p'" "crsf_spec_run (concat (map (\<lambda>(noise, it). noise @ the (radio_frame it)) items)) [] = (fs, parser_abs p')"
    using parser_run_refines [OF parser_idle_inv(1) [OF assms(1)]] parser_idle_inv(2) [OF assms(1)] by metis
  then show ?thesis using crsf_run_items [OF assms(2)] parser_abs_sync by auto
qed

lemma parser_idle_new: "length junk = 64 \<Longrightarrow> parser_idle (Parser_new junk)"
proof -
  assume "length junk = 64"
  moreover have "parser_run [] [] (Parser_new junk) = Some ([], Parser_new junk)" "crp_state (Parser_new junk) = PSync"
    by (simp_all add: Parser_new_def parser_reset_def)
  ultimately show ?thesis unfolding parser_idle_def by blast
qed

theorem crsf_channels_delivered_witness:
  "\<exists>p'. parser_run ([1, 2] @ the (radio_frame (RadioOther 0x14 [1, 2, 3])) @ the (radio_frame (RadioChannels (replicate 16 992))))
      [] (Parser_new (replicate 64 0)) = Some ([replicate 16 992], p') \<and> crp_state p' = PSync"
proof -
  have "\<forall>(noise, it) \<in> set [([1, 2], RadioOther 0x14 [1, 2, 3]), ([], RadioChannels (replicate 16 992))]. kSyncByte \<notin> set noise \<and> radio_item_ok it"
    by (simp add: kSyncByte_def)
  from crsf_channels_delivered [OF parser_idle_new this, of "replicate 64 0" "[]"] show ?thesis by simp
qed

text \<open>
  A damaged frame is never taken for channels. If exactly one byte after the length of a frame built by
  the frame builder (type, payload or check value) is altered, the parser reports no channels from it and is
  between frames again afterwards, ready for the next frame.
\<close>

theorem crsf_byte_error_rejected:
  assumes "parser_idle p" and "buildFrame t payload 64 = Some (xs @ b # ys)" and "2 \<le> length xs" and "b \<noteq> b'"
  shows "\<exists>p'. parser_run (xs @ b' # ys) out p = Some ([], p') \<and> crp_state p' = PSync"
proof -
  have len: "length payload \<le> 60" using assms(2) by (auto simp: buildFrame_def kMaxFrameLen_def Let_def split: if_splits)
  define n where "n = length payload + 2"
  obtain zs where xs: "xs = kSyncByte # word_of_nat n # zs" and f: "(t # payload) @ [crc8 (t # payload)] = zs @ b # ys"
    using assms(2,3) buildFrame_frame [OF len, of t] by (cases xs; cases "tl xs") (auto simp: n_def)
  have l: "length (zs @ b' # ys) = n" using arg_cong [OF f, of length] by (simp add: n_def)
  then obtain body c where g: "zs @ b' # ys = body @ [c]" by (metis append_butlast_last_id list.distinct(1) append_is_Nil_conv)
  have "length (t # payload) = length body" using arg_cong [OF f, of length] arg_cong [OF g, of length] by simp
  from one_change_split [OF f g [symmetric] this] have "crc8 body \<noteq> c"
  proof (elim disjE exE conjE)
    fix us assume "t # payload = zs @ b # us" "body = zs @ b' # us" "[crc8 (t # payload)] = [c]"
    then show ?thesis using crc8_detects [OF assms(4), of zs us] by simp
  next
    fix us assume "t # payload = body" "[crc8 (t # payload)] = us @ b # ys" "[c] = us @ b' # ys"
    then show ?thesis using assms(4) by (cases us) auto
  qed
  then have "frame_channels (xs @ b' # ys) = None" by (simp add: frame_channels_def xs g numeral_2_eq_2 butlast_append)
  moreover have "crsf_spec_run (xs @ b' # ys) [] = (case frame_channels (xs @ b' # ys) of None \<Rightarrow> [] | Some x \<Rightarrow> [x], [])"
    using l len by (intro crsf_run_frame [of _ n "zs @ b' # ys"]) (simp_all add: xs n_def)
  moreover obtain fs p' where "parser_run (xs @ b' # ys) out p = Some (fs, p')" "parser_inv p'" "crsf_spec_run (xs @ b' # ys) [] = (fs, parser_abs p')"
    using parser_run_refines [OF parser_idle_inv(1) [OF assms(1)]] parser_idle_inv(2) [OF assms(1)] by metis
  ultimately show ?thesis using parser_abs_sync by auto
qed

theorem crsf_byte_error_rejected_witness:
  "\<exists>p'. parser_run ([0xC8, 3, 0x16, 6] @ [crc8 [0x16, 5]]) [] (Parser_new (replicate 64 0)) = Some ([], p') \<and> crp_state p' = PSync"
proof -
  have "buildFrame 0x16 [5] 64 = Some ([0xC8, 3, 0x16] @ 5 # [crc8 [0x16, 5]])" by (simp add: buildFrame_def crsf_consts)
  from crsf_byte_error_rejected [OF parser_idle_new this, of "replicate 64 0" 6 "[]"] show ?thesis by simp
qed

end
