(* ===== verification/RcTask.thy ===== *)
theory RcTask
  imports CrsfParser ControllerEnvelope ControllerCore
begin

text \<open>
  The radio task (\<open>rcTask\<close> and \<open>deriveRcStatus\<close> in \<open>app/tasks.cpp\<close>, \<open>input/rc_frame_snapshot.h\<close>): one
  cycle drains the serial port through the frame parser into the controller bridge, evaluates the
  fail-safe, adopts staged calibration, bindings and gait defaults, and publishes one coherent snapshot,
  which the control task copies into its intent. The serial port, the clock and the staged values of the
  other tasks are the arguments of a cycle; diagnostics and downlink telemetry of the task are left out.
  Shown here: the task never fails, and it publishes an armed status only while a genuine frame arrived
  in one of its cycles at most the fail-safe timeout ago.
\<close>

section \<open>Mailbox\<close>

record RcFrameSnapshot =
  rf_command :: ControllerCommand
  rf_status :: RcStatus
  rf_frame_sequence :: u32
  rf_published_ms :: u32

definition RcFrameSnapshot_default :: RcFrameSnapshot where
  "RcFrameSnapshot_default = \<lparr> rf_command = ControllerCommand_default,
     rf_status = \<lparr> rc_channels_us = replicate kNumChannels 0, rc_armed = False, rc_kill = False, rc_gait_index = 0, rc_autonomy = False,
       rc_failsafe = False, rc_last_frame_ms = 0, rc_ever_seen = False \<rparr>, rf_frame_sequence = 0, rf_published_ms = 0 \<rparr>"

record RcFrameMailbox =
  mb_snapshot :: RcFrameSnapshot
  mb_sequence :: u32
  mb_published :: bool

definition mailbox_reset :: "RcFrameMailbox \<Rightarrow> RcFrameMailbox" where
  "mailbox_reset b = \<lparr> mb_snapshot = RcFrameSnapshot_default, mb_sequence = 0, mb_published = False \<rparr>"

definition mailbox_publish :: "RcFrameSnapshot \<Rightarrow> RcFrameMailbox \<Rightarrow> u32 \<times> RcFrameMailbox" where
  "mailbox_publish s b = (mb_sequence b + 1, b \<lparr> mb_snapshot := s, mb_published := True, mb_sequence := mb_sequence b + 1 \<rparr>)"

definition mailbox_copy :: "RcFrameMailbox \<Rightarrow> (RcFrameSnapshot \<times> u32) option" where
  "mailbox_copy b = (if mb_published b then Some (mb_snapshot b, mb_sequence b) else None)"

section \<open>The task\<close>

definition deriveRcStatus :: "ControllerCommand \<Rightarrow> u16 list \<Rightarrow> bool \<Rightarrow> u32 \<Rightarrow> RcStatus \<Rightarrow> RcStatus" where
  "deriveRcStatus cc chans fresh now_ms rc =
     (let rc = (if fresh then rc \<lparr> rc_channels_us := map ticksToMicros chans, rc_last_frame_ms := now_ms \<rparr> else rc)
      in rc \<lparr> rc_armed := cc_arm_request cc, rc_kill := cc_estop cc \<and> cc_ever_seen cc, rc_gait_index := cc_gait_index cc,
              rc_autonomy := cc_host_authority cc, rc_failsafe := cc_failsafe cc, rc_ever_seen := cc_ever_seen cc \<rparr>)"

definition kMaxBytesPerCycle :: nat where "kMaxBytesPerCycle = 128"

record RcTask =
  rt_parser :: Parser
  rt_bridge :: ControllerBridge
  rt_status :: RcStatus
  rt_mailbox :: RcFrameMailbox
  rt_applied_calibration_revision :: u32
  rt_applied_gait_tune_revision :: u32

text \<open>
  What a cycle finds: the tick count in milliseconds, the bytes waiting in the serial port, the content of
  the uninitialised local \<open>frame\<close>, and the values staged by the other tasks.
\<close>

record RcCycle =
  cy_now_ms :: u32
  cy_available :: bytes
  cy_frame :: "u16 list"
  cy_calibration :: "(RcChannelCalibration list \<times> u32) option"
  cy_bindings :: "BindingConfig option"
  cy_gait :: GaitDefaults
  cy_gait_revision :: u32

definition RcTask_start :: "bool \<Rightarrow> Parser \<Rightarrow> ControllerBridge \<Rightarrow> RcFrameMailbox \<Rightarrow> RcTask" where
  "RcTask_start force_custom parser bridge mailbox =
     \<lparr> rt_parser = parser, rt_bridge = bridge_reset force_custom bridge, rt_status = initRcStatus, rt_mailbox = mailbox_reset mailbox,
       rt_applied_calibration_revision = 0xFFFFFFFF, rt_applied_gait_tune_revision = 0xFFFFFFFF \<rparr>"

fun rc_drain :: "libm \<Rightarrow> u32 \<Rightarrow> bytes \<Rightarrow> bool \<Rightarrow> u16 list \<Rightarrow> Parser \<Rightarrow> ControllerBridge \<Rightarrow>
    (bool \<times> u16 list \<times> Parser \<times> ControllerBridge) option" where
  "rc_drain m now_ms [] fresh chans p s = Some (fresh, chans, p, s)"
| "rc_drain m now_ms (b # bs) fresh chans p s =
     (case parser_push b chans p of
        None \<Rightarrow> None
      | Some (avail, chans, p) \<Rightarrow>
          if avail then rc_drain m now_ms bs True chans p (bridge_update m chans True now_ms s)
          else rc_drain m now_ms bs fresh chans p s)"

text \<open>The staged values of the other tasks, adopted before the command is published.\<close>

definition rc_adopt :: "RcCycle \<Rightarrow> RcTask \<Rightarrow> RcTask" where
  "rc_adopt cy t =
     (let t = (case cy_calibration cy of
                 Some (cal, n) \<Rightarrow>
                   if n \<noteq> rt_applied_calibration_revision t
                   then t \<lparr> rt_bridge := bridge_setCalibration cal (rt_bridge t), rt_applied_calibration_revision := n \<rparr> else t
               | None \<Rightarrow> t);
          t = (case cy_bindings cy of Some cfg \<Rightarrow> t \<lparr> rt_bridge := bridge_setBindings cfg (rt_bridge t) \<rparr> | None \<Rightarrow> t);
          d = cy_gait cy
      in if cy_gait_revision cy \<noteq> rt_applied_gait_tune_revision t
         then t \<lparr> rt_bridge := setGaitTuneFractions
                    (f_div (f_of_int (uint (step_height_mm d))) (f_of_int (uint kMaxGaitStepMm)))
                    (f_div (f_of_int (uint (stride_len_mm d))) (f_of_int (uint kMaxGaitStrideMm)))
                    (f_div (f_of_int (uint (duty_x255 d))) (f_lit 255)) (rt_bridge t),
                  rt_applied_gait_tune_revision := cy_gait_revision cy \<rparr>
         else t)"

definition rc_cycle :: "libm \<Rightarrow> RcCycle \<Rightarrow> RcTask \<Rightarrow> (bool \<times> RcTask) option" where
  "rc_cycle m cy t =
     map_option (\<lambda>(fresh, chans, p, s).
         let now_ms = cy_now_ms cy;
             t = rc_adopt cy (t \<lparr> rt_parser := p, rt_bridge := evaluateFailsafe now_ms kDefaultFailsafeMs s \<rparr>);
             command = cb_cmd (rt_bridge t);
             status = deriveRcStatus command chans fresh now_ms (rt_status t);
             snapshot = \<lparr> rf_command = command, rf_status = status, rf_frame_sequence = crp_frames_decoded p, rf_published_ms = now_ms \<rparr>
         in (fresh, t \<lparr> rt_status := status, rt_mailbox := snd (mailbox_publish snapshot (rt_mailbox t)) \<rparr>))
       (rc_drain m (cy_now_ms cy) (take kMaxBytesPerCycle (cy_available cy)) False (cy_frame cy) (rt_parser t) (rt_bridge t))"

text \<open>A run of the task, with the freshness of each cycle.\<close>

fun rc_run :: "libm \<Rightarrow> RcCycle list \<Rightarrow> RcTask \<Rightarrow> (bool list \<times> RcTask) option" where
  "rc_run m [] t = Some ([], t)"
| "rc_run m (cy # cs) t =
     (case rc_cycle m cy t of
        None \<Rightarrow> None
      | Some (fresh, t) \<Rightarrow> map_option (\<lambda>(fl, t). (fresh # fl, t)) (rc_run m cs t))"

section \<open>The control task's copy\<close>

definition RcIntent_default :: RcIntent where
  "RcIntent_default = \<lparr> ri_command = ControllerCommand_default, ri_ever_seen = False, ri_kill = True, ri_armed = False,
     ri_failsafe = True, ri_autonomy_enabled = False \<rparr>"

definition collectRcIntent :: "RcFrameMailbox \<Rightarrow> RcFrameSnapshot option \<Rightarrow> RcIntent \<times> RcFrameSnapshot option" where
  "collectRcIntent box retained =
     (let retained = (case mailbox_copy box of Some (s, n) \<Rightarrow> Some s | None \<Rightarrow> retained)
      in (case retained of
            None \<Rightarrow> RcIntent_default
          | Some s \<Rightarrow> \<lparr> ri_command = rf_command s, ri_ever_seen = rc_ever_seen (rf_status s), ri_kill = rc_kill (rf_status s),
              ri_armed = rc_armed (rf_status s), ri_failsafe = rc_failsafe (rf_status s), ri_autonomy_enabled = rc_autonomy (rf_status s) \<rparr>,
          retained))"

section \<open>The task never fails, and only fresh frames arm\<close>

text \<open>An arm request that stands was decoded from a frame at the given time.\<close>

definition heard_at :: "u32 \<Rightarrow> ControllerBridge \<Rightarrow> bool" where
  "heard_at now s \<longleftrightarrow> (cc_arm_request (cb_cmd s) \<longrightarrow> cc_ever_seen (cb_cmd s) \<and> cc_frame_ms (cb_cmd s) = now)"

lemma heard_at_update: "heard_at now (bridge_update m ch True now s)"
proof (rule bridge_update_cases [of m ch True now s])
  assume "failsafe_held (cb_cmd (bridge_update m ch True now s))"
  then show ?thesis by (auto simp: heard_at_def dest: failsafe_held_D)
next
  fix t assume "bridge_update m ch True now s = decode_frame m now t"
  then show ?thesis using decode_frame_safety(1) [of m now t] by (simp add: heard_at_def frame_view_def safety_view_def)
qed

lemma rc_drain_ok:
  assumes "parser_inv p" and "fresh \<longrightarrow> heard_at now s"
  shows "\<exists>fresh' chans' p' s'. rc_drain m now bs fresh chans p s = Some (fresh', chans', p', s') \<and> parser_inv p' \<and>
    (fresh' \<longrightarrow> heard_at now s') \<and> (\<not> fresh' \<longrightarrow> s' = s)"
  using assms
proof (induction bs arbitrary: fresh chans p s)
  case (Cons b bs)
  obtain avail out' p' where st: "parser_push b chans p = Some (avail, out', p')" "parser_inv p'"
    using parser_push_sim [OF Cons.prems(1), of b chans] unfolding crsf_push_sim_def by blast
  show ?case
  proof (cases avail)
    case True
    have keep: "fresh'" if "rc_drain m now bs True out' p' u = Some (fresh', c', q, s')" for bs fresh' c' q s' u p' out'
      using that by (induction bs arbitrary: out' p' u) (auto split: option.splits if_splits)
    obtain fresh' c' q s' where d: "rc_drain m now bs True out' p' (bridge_update m out' True now s) = Some (fresh', c', q, s')" "parser_inv q"
      "fresh' \<longrightarrow> heard_at now s'"
      using Cons.IH [OF st(2), of True "bridge_update m out' True now s" out'] heard_at_update by blast
    then show ?thesis using st True keep [OF d(1)] by auto
  next
    case False
    then show ?thesis using Cons.IH [OF st(2) Cons.prems(2), of out'] st by simp
  qed
qed simp

lemma rc_adopt_frame [simp]: "cb_cmd (rt_bridge (rc_adopt cy t)) = cb_cmd (rt_bridge t)" "rt_parser (rc_adopt cy t) = rt_parser t"
  by (auto simp: rc_adopt_def bridge_setCalibration_def bridge_setBindings_def setGaitTuneFractions_def Let_def split: option.split)

lemma rc_cycle_ok:
  assumes "parser_inv (rt_parser t)"
  shows "\<exists>fresh t'. rc_cycle m cy t = Some (fresh, t') \<and> parser_inv (rt_parser t') \<and>
    mailbox_copy (rt_mailbox t') \<noteq> None \<and> rf_status (fst (the (mailbox_copy (rt_mailbox t')))) = rt_status t' \<and>
    rc_armed (rt_status t') = cc_arm_request (cb_cmd (rt_bridge t')) \<and>
    (if fresh then heard_at (cy_now_ms cy) (rt_bridge t')
     else cc_arm_request (cb_cmd (rt_bridge t')) \<longrightarrow> cb_cmd (rt_bridge t') = cb_cmd (rt_bridge t) \<and>
       elapsed (cy_now_ms cy) (cc_frame_ms (cb_cmd (rt_bridge t))) \<le> 250)"
proof -
  obtain fresh chans p s where d: "rc_drain m (cy_now_ms cy) (take kMaxBytesPerCycle (cy_available cy)) False (cy_frame cy) (rt_parser t) (rt_bridge t) =
      Some (fresh, chans, p, s)" "parser_inv p" "fresh \<longrightarrow> heard_at (cy_now_ms cy) s" "\<not> fresh \<longrightarrow> s = rt_bridge t"
    using rc_drain_ok [OF assms, of False "cy_now_ms cy" "rt_bridge t"] by blast
  have f: "\<not> cc_arm_request (cb_cmd (enterFailsafe s))" using failsafe_held_D [OF enterFailsafe_held] by blast
  show ?thesis using d f
    by (auto simp: rc_cycle_def Let_def mailbox_publish_def mailbox_copy_def deriveRcStatus_def heard_at_def evaluateFailsafe_def
        kDefaultFailsafeMs_def)
qed

lemma rc_run_snoc: "rc_run m (cs @ [cy]) t = Option.bind (rc_run m cs t) (\<lambda>(fl, t). map_option (\<lambda>(fresh, t). (fl @ [fresh], t)) (rc_cycle m cy t))"
  by (induction cs arbitrary: t) (auto split: option.split prod.split simp: map_option_case)

text \<open>After a run, an armed status goes back to a frame of one of its cycles; every later cycle ran within the timeout.\<close>

definition armed_by_recent_frame :: "RcCycle list \<Rightarrow> bool list \<Rightarrow> u32 \<Rightarrow> bool" where
  "armed_by_recent_frame cs fl at0 \<longleftrightarrow> (\<exists>before cy later fl0. cs = before @ cy # later \<and> fl = fl0 @ True # replicate (length later) False \<and>
     length fl0 = length before \<and> cy_now_ms cy = at0 \<and> (\<forall>q \<in> set later. elapsed (cy_now_ms q) (cy_now_ms cy) \<le> 250))"

lemma rc_run_ok:
  assumes "parser_inv (rt_parser t0)" and "\<not> cc_arm_request (cb_cmd (rt_bridge t0))"
  shows "\<exists>fl t. rc_run m cs t0 = Some (fl, t) \<and> parser_inv (rt_parser t) \<and> length fl = length cs \<and>
    (cs \<noteq> [] \<longrightarrow> mailbox_copy (rt_mailbox t) \<noteq> None \<and> rf_status (fst (the (mailbox_copy (rt_mailbox t)))) = rt_status t \<and>
       rc_armed (rt_status t) = cc_arm_request (cb_cmd (rt_bridge t))) \<and>
    (cc_arm_request (cb_cmd (rt_bridge t)) \<longrightarrow> armed_by_recent_frame cs fl (cc_frame_ms (cb_cmd (rt_bridge t))))"
proof (induction cs rule: rev_induct)
  case Nil
  then show ?case using assms by simp
next
  case (snoc cy cs)
  then obtain fl t where r: "rc_run m cs t0 = Some (fl, t)" "parser_inv (rt_parser t)" "length fl = length cs"
    "cc_arm_request (cb_cmd (rt_bridge t)) \<longrightarrow> armed_by_recent_frame cs fl (cc_frame_ms (cb_cmd (rt_bridge t)))" by blast
  obtain fresh t' where c: "rc_cycle m cy t = Some (fresh, t')" "parser_inv (rt_parser t')"
    "mailbox_copy (rt_mailbox t') \<noteq> None" "rf_status (fst (the (mailbox_copy (rt_mailbox t')))) = rt_status t'"
    "rc_armed (rt_status t') = cc_arm_request (cb_cmd (rt_bridge t'))"
    "if fresh then heard_at (cy_now_ms cy) (rt_bridge t')
     else cc_arm_request (cb_cmd (rt_bridge t')) \<longrightarrow> cb_cmd (rt_bridge t') = cb_cmd (rt_bridge t) \<and>
       elapsed (cy_now_ms cy) (cc_frame_ms (cb_cmd (rt_bridge t))) \<le> 250"
    using rc_cycle_ok [OF r(2), of m cy] by auto
  have "armed_by_recent_frame (cs @ [cy]) (fl @ [fresh]) (cc_frame_ms (cb_cmd (rt_bridge t')))" if a: "cc_arm_request (cb_cmd (rt_bridge t'))"
  proof (cases fresh)
    case True
    then show ?thesis unfolding armed_by_recent_frame_def using c(6) r(3) a
      by (intro exI [of _ cs] exI [of _ cy] exI [of _ "[]"] exI [of _ fl]) (simp add: heard_at_def)
  next
    case False
    then have k: "cb_cmd (rt_bridge t') = cb_cmd (rt_bridge t)" "elapsed (cy_now_ms cy) (cc_frame_ms (cb_cmd (rt_bridge t))) \<le> 250"
      using c(6) a by auto
    then obtain before c0 later fl0 where "cs = before @ c0 # later" "fl = fl0 @ True # replicate (length later) False" "length fl0 = length before"
      "cy_now_ms c0 = cc_frame_ms (cb_cmd (rt_bridge t))" "\<forall>q \<in> set later. elapsed (cy_now_ms q) (cy_now_ms c0) \<le> 250"
      using r(4) a by (auto simp: armed_by_recent_frame_def)
    then show ?thesis unfolding armed_by_recent_frame_def using False k
      by (intro exI [of _ before] exI [of _ c0] exI [of _ "later @ [cy]"] exI [of _ fl0]) (simp add: replicate_append_same)
  qed
  then show ?case using r(1,3) c(1-5) by (simp add: rc_run_snoc)
qed

lemma rc_start_ok:
  assumes "length junk = 64"
  shows "parser_inv (rt_parser (RcTask_start force (Parser_new junk) bridge box))"
    "\<not> cc_arm_request (cb_cmd (rt_bridge (RcTask_start force (Parser_new junk) bridge box)))"
  using parser_inv_new(1) [OF assms] failsafe_held_D [OF reset_held, of force bridge] by (simp_all add: RcTask_start_def)

lemma collect_unpublished: "fst (collectRcIntent (rt_mailbox (RcTask_start force p bridge box)) None) = RcIntent_default"
  by (simp add: collectRcIntent_def mailbox_copy_def RcTask_start_def mailbox_reset_def)

text \<open>
  The command envelope of the bridge survives the task: staged bindings must carry numeric dead bands,
  everything else is checked or clamped by the bridge itself.
\<close>

definition cycle_ok :: "RcCycle \<Rightarrow> bool" where
  "cycle_ok cy \<longleftrightarrow> (case cy_bindings cy of Some cfg \<Rightarrow> bindings_ok cfg | None \<Rightarrow> True)"

lemma env_ops:
  assumes "env s"
  shows "env (evaluateFailsafe now timeout s)" "env (bridge_setCalibration cal s)" "bindings_ok cfg \<Longrightarrow> env (bridge_setBindings cfg s)"
    "list_all (\<lambda>v. v \<noteq> NaN \<and> f_rep v) [a, b, c] \<Longrightarrow> env (setGaitTuneFractions a b c s)"
proof -
  have m: "libm_exp_ok rcc_sample_libm" by (simp add: libm_exp_ok_def rcc_sample_libm_def)
  note st = env_step [OF m _ assms]
  show "env (evaluateFailsafe now timeout s)" using st [of "BridgeTick now timeout"] by simp
  show "env (bridge_setCalibration cal s)" using st [of "BridgeCalibration cal"] by simp
  show "bindings_ok cfg \<Longrightarrow> env (bridge_setBindings cfg s)" using st [of "BridgeBindings cfg"] by simp
  show "list_all (\<lambda>v. v \<noteq> NaN \<and> f_rep v) [a, b, c] \<Longrightarrow> env (setGaitTuneFractions a b c s)" using st [of "BridgeTune a b c"] by simp
qed

lemma env_rc_adopt:
  assumes "env (rt_bridge t)" and "cycle_ok cy"
  shows "env (rt_bridge (rc_adopt cy t))"
proof -
  have n: "uint (w :: u16) \<le> 65535" "uint (v :: u8) \<le> 65535" for w v using uint_lt2p [of w] uint_lt2p [of v] by simp_all
  have q: "f_div (f_of_int (uint (w :: u16))) (f_of_int k) \<noteq> NaN" "f_div (f_of_int (uint (v :: u8))) (f_of_int k) \<noteq> NaN" if "0 < k" "k \<le> 65535" for w v k
    using f_div_ints [OF that, of "uint w"] f_div_ints [OF that, of "uint v"] n(1) [of w] n(2) [of v] uint_ge_0 [of w] uint_ge_0 [of v] by simp_all
  have l: "f_lit 255 = f_of_int 255" by (simp add: f_lit_def f_of_int_def)
  show ?thesis using assms q [of 255] q [of "uint kMaxGaitStepMm"] q [of "uint kMaxGaitStrideMm"]
    by (auto simp: rc_adopt_def Let_def cycle_ok_def l kMaxGaitStepMm_def kMaxGaitStrideMm_def intro!: env_ops split: option.split)
qed

lemma env_rc_drain:
  assumes "libm_exp_ok m" and "env s" and "rc_drain m now bs fresh chans p s = Some (fresh', chans', p', s')"
  shows "env s'"
  using assms(2,3)
proof (induction bs arbitrary: fresh chans p s)
  case (Cons b bs)
  obtain avail ch q where p: "parser_push b chans p = Some (avail, ch, q)" using Cons.prems(2) by (auto split: option.splits)
  show ?case
  proof (cases avail)
    case True
    then show ?thesis using Cons.IH [OF env_bridge_update [OF assms(1) Cons.prems(1)]] Cons.prems(2) p by simp
  next
    case False
    then show ?thesis using Cons.IH [OF Cons.prems(1)] Cons.prems(2) p by simp
  qed
qed simp

lemma env_rc_run:
  assumes "libm_exp_ok m" and "list_all cycle_ok cs" and "env (rt_bridge t)" and "rc_run m cs t = Some (fl, t')"
  shows "env (rt_bridge t') \<and> (cs \<noteq> [] \<longrightarrow> rf_command (fst (the (mailbox_copy (rt_mailbox t')))) = cb_cmd (rt_bridge t'))"
  using assms(2-4)
proof (induction cs arbitrary: fl t' rule: rev_induct)
  case (snoc cy cs)
  then obtain fl1 t1 fresh where 1: "rc_run m cs t = Some (fl1, t1)" "rc_cycle m cy t1 = Some (fresh, t')"
    by (auto simp: rc_run_snoc bind_eq_Some_conv)
  with snoc have e: "env (rt_bridge t1)" "cycle_ok cy" by auto
  from 1(2) obtain fr ch p s where d: "rc_drain m (cy_now_ms cy) (take kMaxBytesPerCycle (cy_available cy)) False (cy_frame cy) (rt_parser t1) (rt_bridge t1) =
      Some (fr, ch, p, s)" by (auto simp: rc_cycle_def)
  show ?case using 1(2) d env_rc_adopt [OF _ e(2)] env_ops(1) [OF env_rc_drain [OF assms(1) e(1) d]]
    by (auto simp: rc_cycle_def Let_def mailbox_publish_def mailbox_copy_def)
qed simp

text \<open>What the control task reads after any run of the radio task.\<close>

lemma collected_command:
  assumes "libm_exp_ok m" "list_all cycle_ok cs" "env bridge" and "length junk = 64"
    and "rc_run m cs (RcTask_start force (Parser_new junk) bridge box) = Some (fl, t)"
  shows "command_ok (ri_command (fst (collectRcIntent (rt_mailbox t) None)))"
proof -
  let ?t0 = "RcTask_start force (Parser_new junk) bridge box"
  have e: "env (rt_bridge ?t0)" using assms(3) env_reset [of bridge force] by (simp add: RcTask_start_def env_def inputs_inv_def)
  note r = env_rc_run [OF assms(1,2) e assms(5)]
  have d: "command_ok ControllerCommand_default" by code_simp
  have "cs \<noteq> [] \<Longrightarrow> mailbox_copy (rt_mailbox t) \<noteq> None" using rc_run_ok [OF rc_start_ok [OF assms(4)], of m cs force bridge box] assms(5) by auto
  then show ?thesis using r d assms(5) collect_unpublished [of force "Parser_new junk" bridge box]
    by (cases "cs = []") (simp add: RcIntent_default_def, auto simp: collectRcIntent_def env_def)
qed


lemma collected_arm:
  assumes "length junk = 64" and "rc_run m cs (RcTask_start force (Parser_new junk) bridge box) = Some (fl, t)"
    and "ri_armed (fst (collectRcIntent (rt_mailbox t) None))"
  shows "\<exists>at0. armed_by_recent_frame cs fl at0"
proof (cases cs)
  case Nil
  then show ?thesis using assms(2,3) by (auto simp: collect_unpublished RcIntent_default_def)
next
  case (Cons cy cs')
  then show ?thesis using rc_run_ok [OF rc_start_ok [OF assms(1)], of m cs force bridge box] assms(2,3)
    by (auto simp: collectRcIntent_def)
qed

end
