(* ===== verification/RadioPath.thy ===== *)
theory RadioPath
  imports RcTask CoreSafety ControllerApi
begin

text \<open>
  The radio path, end to end: bytes on the serial port of the receiver, the radio task, the snapshot the
  control task copies, and the controller step that acts on it. Shown here: a step on whatever the radio
  and the motion API delivered always answers with safe goals, and the radio moves the robot only while
  it is heard. One frame with the arm switch on is followed through the whole path.
\<close>

section \<open>One frame through the task\<close>

text \<open>Draining the port applies the delivered channel sets to the bridge, in order.\<close>

lemma rc_drain_frames:
  assumes "parser_run bs out p = Some (fs, p')"
  shows "\<exists>out'. rc_drain m now bs fresh out p s = Some (fresh \<or> fs \<noteq> [], out', p', fold (\<lambda>ch. bridge_update m ch True now) fs s)"
  using assms
proof (induction bs arbitrary: out p fresh s fs)
  case (Cons b bs)
  obtain avail o1 p1 gs where st: "parser_push b out p = Some (avail, o1, p1)" "parser_run bs o1 p1 = Some (gs, p')"
    "fs = (if avail then o1 # gs else gs)" using Cons.prems by (auto split: option.splits)
  show ?case
  proof (cases avail)
    case True
    then show ?thesis using Cons.IH [OF st(2), of True "bridge_update m o1 True now s"] st by simp
  next
    case False
    then show ?thesis using Cons.IH [OF st(2), of fresh s] st by simp
  qed
qed simp

text \<open>The frame: sticks centred, the arm switch on, every other switch off.\<close>

definition arm_channels :: "u16 list" where
  "arm_channels = replicate 4 992 @ [1792, 191, 0, 0, 191, 191, 191] @ replicate 5 992"

definition arm_cycle :: RcCycle where
  "arm_cycle = \<lparr> cy_now_ms = 5, cy_available = the (radio_frame (RadioChannels arm_channels)), cy_frame = replicate 16 0,
     cy_calibration = None, cy_bindings = None, cy_gait = cfg_gait defaultRobotConfig, cy_gait_revision = 0 \<rparr>"

definition sample_box :: RcFrameMailbox where
  "sample_box = \<lparr> mb_snapshot = RcFrameSnapshot_default, mb_sequence = 0, mb_published = False \<rparr>"

definition arm_start :: RcTask where
  "arm_start = RcTask_start True (Parser_new (replicate 64 0)) (ControllerBridge_new True) sample_box"

lemma arm_switches: "cp_switches (unpackChannels arm_channels) = True # replicate 7 False"
proof -
  have "arm_channels ! 4 = 1792" "arm_channels ! 8 = 191" by code_simp+
  moreover have "snd (crsfToArmPot 1792)" "crsfToDiscrete 191 31 = 0" by (simp_all add: crsfToArmPot_def crsfToDiscrete_def cpack_consts Let_def)
  moreover have "unpackAuxSwitches 0 = replicate 8 False" by (simp add: unpackAuxSwitches_def upt_rec numeral_eq_Suc)
  ultimately show ?thesis by (simp add: unpackChannels_def cpack_consts(4) Let_def split_beta numeral_eq_Suc)
qed

lemma arm_drain:
  "\<exists>out p. rc_drain m 5 (take kMaxBytesPerCycle (cy_available arm_cycle)) False (cy_frame arm_cycle) (rt_parser arm_start) (rt_bridge arm_start) =
     Some (True, out, p, bridge_update m arm_channels True 5 (rt_bridge arm_start))"
proof -
  let ?f = "cy_available arm_cycle"
  have ok: "radio_item_ok (RadioChannels arm_channels)" by (simp add: arm_channels_def)
  obtain f where f: "radio_frame (RadioChannels arm_channels) = Some f" "crsf_spec_run f [] = ([arm_channels], [])"
    using crsf_run_item [OF ok] by auto
  then have "?f = f" by (simp add: arm_cycle_def)
  have "length (pack_channels arm_channels) = 22" by (simp add: pack_channels_def)
  then have "length f \<le> 128" using f(1) buildFrame_frame [of "pack_channels arm_channels" kFrameTypeRcChannels] by auto
  then have t: "take kMaxBytesPerCycle ?f = f" by (simp add: \<open>?f = f\<close> kMaxBytesPerCycle_def)
  have inv: "parser_inv (rt_parser arm_start)" "parser_abs (rt_parser arm_start) = []"
    using parser_inv_new [of "replicate 64 0"] by (simp_all add: arm_start_def RcTask_start_def)
  obtain fs p' where r: "parser_run f (cy_frame arm_cycle) (rt_parser arm_start) = Some (fs, p')" "crsf_spec_run f [] = (fs, parser_abs p')"
    using parser_run_refines [OF inv(1), of f] inv(2) by fastforce
  then have "fs = [arm_channels]" using f(2) by simp
  then show ?thesis using rc_drain_frames [OF r(1), of m 5 False "rt_bridge arm_start"] t by auto
qed

lemma arm_bridge:
  "safety_view (cb_cmd (bridge_update m arm_channels True 5 (rt_bridge arm_start))) = (True, False, True, 5, False, True)"
proof -
  let ?s = "(rt_bridge arm_start) \<lparr> cb_raw := unpackChannels arm_channels \<rparr>"
  have p: "cb_profile_locked (rt_bridge arm_start)" "cb_detected_profile (rt_bridge arm_start) = CustomControllerChannelPack"
    "bc_arm (cb_cfg (rt_bridge arm_start)) = SwA" "bc_estop (cb_cfg (rt_bridge arm_start)) = SwB"
    by (simp_all add: arm_start_def RcTask_start_def bridge_reset_def ControllerBridge_new_def defaultBindings_def)
  have "cb_raw (integrateEncoders ?s) = unpackChannels arm_channels" "cb_cfg (integrateEncoders ?s) = cb_cfg (rt_bridge arm_start)"
    by (simp_all add: integrateEncoders_def integrate_encoder_def Let_def upt_rec)
  then have b: "bool_of (integrateEncoders ?s) bc_arm" "\<not> bool_of (integrateEncoders ?s) bc_estop" using p arm_switches by simp_all
  have "bridge_update m arm_channels True 5 (rt_bridge arm_start) = decode_frame m 5 (integrateEncoders ?s)"
    using p by (simp add: bridge_update_def Let_def)
  then show ?thesis using decode_frame_safety(1,4) [where m = m and now = 5 and s = "integrateEncoders ?s"] b by (simp add: frame_view_def)
qed

lemma arm_run:
  obtains t where "rc_run m [arm_cycle] arm_start = Some ([True], t)" "ri_ever_seen (fst (collectRcIntent (rt_mailbox t) None))"
    "\<not> ri_kill (fst (collectRcIntent (rt_mailbox t) None))" "ri_armed (fst (collectRcIntent (rt_mailbox t) None))"
    "\<not> ri_failsafe (fst (collectRcIntent (rt_mailbox t) None))"
proof -
  let ?s = "bridge_update m arm_channels True 5 (rt_bridge arm_start)"
  have v: "cc_ever_seen (cb_cmd ?s)" "\<not> cc_failsafe (cb_cmd ?s)" "cc_frame_ms (cb_cmd ?s) = 5" "\<not> cc_estop (cb_cmd ?s)" "cc_arm_request (cb_cmd ?s)"
    using arm_bridge [of m] by (simp_all add: safety_view_def)
  have e: "evaluateFailsafe 5 kDefaultFailsafeMs ?s = ?s" using v by (simp add: evaluateFailsafe_def)
  obtain out p where d: "rc_drain m 5 (take kMaxBytesPerCycle (cy_available arm_cycle)) False (cy_frame arm_cycle) (rt_parser arm_start) (rt_bridge arm_start) =
     Some (True, out, p, ?s)" using arm_drain by blast
  have now: "cy_now_ms arm_cycle = 5" by (simp add: arm_cycle_def)
  then obtain t where t: "rc_cycle m arm_cycle arm_start = Some (True, t)" "collectRcIntent (rt_mailbox t) None = collectRcIntent (rt_mailbox t) None"
    "mailbox_copy (rt_mailbox t) \<noteq> None" "rf_status (fst (the (mailbox_copy (rt_mailbox t)))) = deriveRcStatus (cb_cmd ?s) out True 5 initRcStatus"
    using d e by (simp add: rc_cycle_def Let_def mailbox_publish_def mailbox_copy_def)
      (simp add: rc_adopt_def arm_cycle_def arm_start_def RcTask_start_def Let_def)
  show thesis by (rule that [of t]) (use t v in \<open>auto simp: collectRcIntent_def deriveRcStatus_def Let_def\<close>)
qed

section \<open>The control step\<close>

text \<open>The sample controller moves for every live and armed radio input.\<close>

lemma armed_step:
  assumes "ri_ever_seen r" "\<not> ri_kill r" "ri_armed r" "\<not> ri_failsafe r" "command_ok (ri_command r)"
  obtains cmd c' where "core_step gait_sample_libm sample_state (sample_intent \<lparr> ci_rc := r \<rparr>) sample_config sample_time sample_core = Some (cmd, c')"
    "cm_motion_gate cmd" "cm_safety_state cmd = RcManual"
proof -
  let ?i = "sample_intent \<lparr> ci_rc := r \<rparr>"
  have "step_input_ok ?i sample_config sample_time" using sample_input_ok assms(5) by (simp add: step_input_ok_def)
  then obtain cmd c' where st: "core_step gait_sample_libm sample_state ?i sample_config sample_time sample_core = Some (cmd, c')"
    using core_step_ok [OF sample_core_inv] by blast
  let ?u = "\<lambda>b. sample_intent \<lparr> ci_rc := (ci_rc sample_intent) \<lparr> ri_autonomy_enabled := b \<rparr> \<rparr>"
  have same: "core_arbitrate sample_state ?i True 1000 (arb_reset arb_sample) = core_arbitrate sample_state (?u (ri_autonomy_enabled r)) True 1000 (arb_reset arb_sample)"
    using assms by (simp add: core_arbitrate_def sample_intent_def maintenance_failsafe_recovery_def)
  have "map_prod (\<lambda>x. (out_source x, out_motion_authorized x)) (\<lambda>x. True)
      (core_arbitrate sample_state (?u True) True 1000 (arb_reset arb_sample)) = ((SrcRc, True), True)"
    "map_prod (\<lambda>x. (out_source x, out_motion_authorized x)) (\<lambda>x. True)
      (core_arbitrate sample_state (?u False) True 1000 (arb_reset arb_sample)) = ((SrcRc, True), True)" by code_simp+
  then have a: "map_prod (\<lambda>x. (out_source x, out_motion_authorized x)) (\<lambda>x. True)
      (core_arbitrate sample_state (?u b) True 1000 (arb_reset arb_sample)) = ((SrcRc, True), True)" for b by (cases b) simp_all
  obtain arbiter a' where aa: "core_arbitrate sample_state ?i True 1000 (arb_reset arb_sample) = (arbiter, a')" by fastforce
  then have src: "out_source arbiter = SrcRc" "out_motion_authorized arbiter" using a [of "ri_autonomy_enabled r"] same by simp_all
  obtain c2 where sf: "core_safety sample_state ?i True (ct_now_ms sample_time) sample_core = (arbiter, c2)" "sm_state (co_state_machine c2) = RcManual"
    using src assms
    by (simp add: core_safety_def sample_arbiter aa Let_def sample_time_def)
      (simp add: sample_core_def sm_eval safety_inputs_def sample_state_def sample_intent_def Let_def)
  have "ct_valid sample_time" by (simp add: sample_time_def)
  note d = core_step_decision [OF st this sample_usable sf(1)]
  show thesis using that [OF st] d(1,4) sf(2) src by simp
qed

section \<open>End to end\<close>

definition sample_api :: MotionApi where
  "sample_api = \<lparr> mo_intent = MotionIntent_default, mo_live_state = 3, mo_motion_allowed = True \<rparr>"

text \<open>A cycle whose staged binding table, if there is one, came through the controller API.\<close>

definition accepted_cycle :: "RcCycle \<Rightarrow> bool" where
  "accepted_cycle cy \<longleftrightarrow> (\<forall>cfg. cy_bindings cy = Some cfg \<longrightarrow> (\<exists>p. decodeBindings p = Some cfg))"

lemma accepted_cycle_ok: "accepted_cycle cy \<Longrightarrow> cycle_ok cy"
  using serial_bindings_ok [OF decode_serial] by (auto simp: accepted_cycle_def cycle_ok_def split: option.split)

text \<open>
  C4: from the radio and the host to the servos. The bytes on the receiver's serial port, the cycle times of
  the radio task, the binding tables staged for it that the controller API accepted, its other staged settings
  and the requests to the motion API are arbitrary; so are the earlier steps of the controller as far as their
  commands lay in the same envelopes. A step covers at most a second, and the exponential function of the
  mathematical library maps numbers to numbers. Then the radio task never
  fails, the next controller step on what the two delivered returns, and every goal it emits is for a servo
  of the active configuration and a device position, inside the travel of that servo unless the joint is still
  being ramped from outside it; the only exception are the goals of a maintenance client that owns motion, which
  are passed on as stored and are safe in the same sense when they were stored under the active configuration.
\<close>

theorem radio_to_goals:
  assumes "libm_exp_ok m" and "list_all accepted_cycle cs" and "length junk = 64" and "list_all core_op_ok ops"
    and "config_dims (cs_robot config)" and "ct_dt_ms time \<le> 1000"
  shows "\<exists>fl t c. rc_run m cs (RcTask_start force (Parser_new junk) (ControllerBridge_new force) box) = Some (fl, t) \<and>
    fold_opt (core_exec m) ops (ControllerCore_new m arbiter machine tricks) = Some c \<and>
    (\<forall>state intent. ci_rc intent = fst (collectRcIntent (rt_mailbox t) None) \<and>
       ci_motion intent = mo_intent (fold motion_step requests (motion_reset api)) \<longrightarrow>
       (\<exists>cmd c'. core_step m state intent config time c = Some (cmd, c') \<and>
          goals_ok (cs_robot (co_config_cache c')) (gp_ramping (co_pipeline c')) (mn_targets (ci_maintenance intent)) cmd))"
proof -
  obtain fl t where r: "rc_run m cs (RcTask_start force (Parser_new junk) (ControllerBridge_new force) box) = Some (fl, t)"
    using rc_run_ok [OF rc_start_ok [OF assms(3)]] by blast
  have "list_all cycle_ok cs" using assms(2) accepted_cycle_ok by (simp add: list_all_iff)
  note rc = collected_command [OF assms(1) this env_new assms(3) r]
  obtain c where c: "fold_opt (core_exec m) ops (ControllerCore_new m arbiter machine tricks) = Some c" "core_inv c"
    using core_runs.run [OF assms(4)] by blast
  have "step_input_ok intent config time"
    if "ci_rc intent = fst (collectRcIntent (rt_mailbox t) None)" "ci_motion intent = mo_intent (fold motion_step requests (motion_reset api))" for intent
    using that rc motion_safe_run [OF motion_safe_reset] assms(5,6) by (simp add: step_input_ok_def)
  then have "\<exists>cmd c'. core_step m state intent config time c = Some (cmd, c') \<and>
      goals_ok (cs_robot (co_config_cache c')) (gp_ramping (co_pipeline c')) (mn_targets (ci_maintenance intent)) cmd"
    if "ci_rc intent = fst (collectRcIntent (rt_mailbox t) None)" "ci_motion intent = mo_intent (fold motion_step requests (motion_reset api))" for state intent
    using core_step_ok [OF c(2), of intent config time m state] that by blast
  then show ?thesis using r c(1) by blast
qed

theorem radio_to_goals_witness:
  "\<exists>fl t c cmd c'. rc_run gait_sample_libm [arm_cycle, arm_cycle \<lparr> cy_now_ms := 400, cy_available := [0xC8, 7] \<rparr>] arm_start = Some (fl, t) \<and>
     fold_opt (core_exec gait_sample_libm) [CoreStep sample_state sample_intent sample_config sample_time]
       (ControllerCore_new gait_sample_libm arb_sample sm_initial trick_idle) = Some c \<and>
     core_step gait_sample_libm sample_state (sample_intent \<lparr> ci_rc := fst (collectRcIntent (rt_mailbox t) None),
       ci_motion := mo_intent (motion_step (MotionFrame 0x36 [0xD0, 0x07, 0, 0, 0, 0x80] 64) (motion_reset sample_api)) \<rparr>) sample_config sample_time c = Some (cmd, c') \<and>
     list_all (goal_ok (cs_robot (co_config_cache c')) (gp_ramping (co_pipeline c'))) (po_joints (cm_goals cmd))"
proof -
  let ?cs = "[arm_cycle, arm_cycle \<lparr> cy_now_ms := 400, cy_available := [0xC8, 7] \<rparr>]"
  let ?i = "\<lambda>t. sample_intent \<lparr> ci_rc := fst (collectRcIntent (rt_mailbox t) None),
       ci_motion := mo_intent (motion_step (MotionFrame 0x36 [0xD0, 0x07, 0, 0, 0, 0x80] 64) (motion_reset sample_api)) \<rparr>"
  have m: "libm_exp_ok gait_sample_libm" by (simp add: libm_exp_ok_def gait_sample_libm_def)
  have cs: "list_all accepted_cycle ?cs" by (simp add: accepted_cycle_def arm_cycle_def)
  have ops: "list_all core_op_ok [CoreStep sample_state sample_intent sample_config sample_time]" using sample_input_ok by simp
  have ok: "config_dims (cs_robot sample_config)" "ct_dt_ms sample_time \<le> 1000" using sample_input_ok by (simp_all add: step_input_ok_def)
  have junk: "length (replicate 64 (0 :: u8)) = 64" by simp
  have tg: "targets_ok cfg (mn_targets (ci_maintenance (?i t)))" for cfg t by (simp add: sample_intent_def targets_ok_cleared)
  note ex = radio_to_goals [OF m cs junk ops ok, of True sample_box arb_sample sm_initial trick_idle
      "[MotionFrame 0x36 [0xD0, 0x07, 0, 0, 0, 0x80] 64]" sample_api, folded arm_start_def]
  then obtain fl t c where r: "rc_run gait_sample_libm ?cs arm_start = Some (fl, t)"
    "fold_opt (core_exec gait_sample_libm) [CoreStep sample_state sample_intent sample_config sample_time]
       (ControllerCore_new gait_sample_libm arb_sample sm_initial trick_idle) = Some c"
    "\<exists>cmd c'. core_step gait_sample_libm sample_state (?i t) sample_config sample_time c = Some (cmd, c') \<and>
          goals_ok (cs_robot (co_config_cache c')) (gp_ramping (co_pipeline c')) (mn_targets (ci_maintenance (?i t))) cmd"
    by (elim exE conjE) (drule spec [where x = sample_state], drule_tac x = "?i t" in spec, auto)
  then show ?thesis using tg unfolding goals_ok_def by blast
qed

text \<open>
  C5: the radio moves the robot only while it is heard. However the bytes on the serial port, the cycle
  times and the staged settings of the other tasks turn out, the radio task never fails; and whenever a
  control step on the snapshot it published opens the motion gate, then either a maintenance client holds
  the lock and the robot is in bench maintenance, or some cycle of the radio task decoded a checked channel
  frame and every cycle since then ran within 250 ms of it. Losing the radio therefore closes the gate.
\<close>

theorem radio_silence_stops:
  assumes "length junk = 64"
  shows "\<exists>fl t. rc_run m cs (RcTask_start force (Parser_new junk) bridge box) = Some (fl, t) \<and>
    (\<forall>m' state intent config time c cmd c'.
       ci_rc intent = fst (collectRcIntent (rt_mailbox t) None) \<and>
       core_step m' state intent config time c = Some (cmd, c') \<and> cm_motion_gate cmd \<longrightarrow>
       cm_safety_state cmd = MacMaintenance \<and> mn_lock_held (ci_maintenance intent) \<or>
       (\<exists>before cy later fl0. cs = before @ cy # later \<and> fl = fl0 @ True # replicate (length later) False \<and>
          length fl0 = length before \<and> (\<forall>q \<in> set later. cy_now_ms q - cy_now_ms cy \<le> 250)))"
proof -
  obtain fl t where r: "rc_run m cs (RcTask_start force (Parser_new junk) bridge box) = Some (fl, t)"
    using rc_run_ok [OF rc_start_ok [OF assms]] by blast
  have "cm_safety_state cmd = MacMaintenance \<and> mn_lock_held (ci_maintenance intent) \<or> (\<exists>at0. armed_by_recent_frame cs fl at0)"
    if "ci_rc intent = fst (collectRcIntent (rt_mailbox t) None)" "core_step m' state intent config time c = Some (cmd, c')" "cm_motion_gate cmd"
    for m' state intent config time c cmd c'
    using core_motion_cases [OF that(2,3)] collected_arm [OF assms r] that(1) by (cases "cm_safety_state cmd") auto
  then show ?thesis using r unfolding armed_by_recent_frame_def by blast
qed

theorem radio_silence_stops_witness:
  "\<exists>fl t intent cmd c'. rc_run gait_sample_libm [arm_cycle] arm_start = Some (fl, t) \<and>
     ci_rc intent = fst (collectRcIntent (rt_mailbox t) None) \<and>
     core_step gait_sample_libm sample_state intent sample_config sample_time sample_core = Some (cmd, c') \<and> cm_motion_gate cmd \<and>
     cm_safety_state cmd = RcManual \<and> (\<exists>before cy later. [arm_cycle] = before @ cy # later \<and> (\<forall>q \<in> set later. cy_now_ms q - cy_now_ms cy \<le> 250))"
proof (rule arm_run)
  fix t :: RcTask
  let ?r = "fst (collectRcIntent (rt_mailbox t) None)"
  assume run: "rc_run gait_sample_libm [arm_cycle] arm_start = Some ([True], t)"
    and r: "ri_ever_seen ?r" "\<not> ri_kill ?r" "ri_armed ?r" "\<not> ri_failsafe ?r"
  have "libm_exp_ok gait_sample_libm" "list_all cycle_ok [arm_cycle]" by (simp_all add: libm_exp_ok_def gait_sample_libm_def cycle_ok_def arm_cycle_def)
  then have "command_ok (ri_command ?r)" using collected_command [OF _ _ env_new _ run [unfolded arm_start_def]] by simp
  from armed_step [OF r this] obtain cmd c' where st: "core_step gait_sample_libm sample_state (sample_intent \<lparr> ci_rc := ?r \<rparr>) sample_config sample_time sample_core = Some (cmd, c')"
    "cm_motion_gate cmd" "cm_safety_state cmd = RcManual" by blast
  have junk: "length (replicate 64 (0 :: u8)) = 64" by simp
  obtain fl t' where rs: "rc_run gait_sample_libm [arm_cycle] arm_start = Some (fl, t')"
    "\<And>m' state intent config time c cmd c'. ci_rc intent = fst (collectRcIntent (rt_mailbox t') None) \<and>
       core_step m' state intent config time c = Some (cmd, c') \<and> cm_motion_gate cmd \<Longrightarrow>
       cm_safety_state cmd = MacMaintenance \<and> mn_lock_held (ci_maintenance intent) \<or>
       (\<exists>before cy later fl0. [arm_cycle] = before @ cy # later \<and> fl = fl0 @ True # replicate (length later) False \<and>
          length fl0 = length before \<and> (\<forall>q \<in> set later. cy_now_ms q - cy_now_ms cy \<le> 250))"
    using radio_silence_stops [OF junk, of gait_sample_libm "[arm_cycle]" True "ControllerBridge_new True" sample_box] unfolding arm_start_def by blast
  moreover have "t' = t" using rs(1) run by simp
  ultimately have "\<exists>before cy later. [arm_cycle] = before @ cy # later \<and> (\<forall>q \<in> set later. cy_now_ms q - cy_now_ms cy \<le> 250)"
    using rs(2) [of "sample_intent \<lparr> ci_rc := ?r \<rparr>" gait_sample_libm sample_state sample_config sample_time sample_core cmd c'] st by auto
  then show ?thesis using run st by (intro exI [of _ "[True]"] exI [of _ t] exI [of _ "sample_intent \<lparr> ci_rc := ?r \<rparr>"] exI [of _ cmd] exI [of _ c']) simp
qed

end
