(* ===== verification/Spec2Isabelle.thy ===== *)
theory Spec2Isabelle
  imports StateMachine FrameReader CommandArbiter MaintenanceApi PassiveApi ControlApi ConfigStore ConfigApi
    FeatureApi DxlJobApi ErrorJournal Watchdog Telemetry ObserverApi SensorApi MaintTargetApi ServoMap
    ControllerEnvelope Api CoreSafety RadioPath
begin

text \<open>
  Verification of the HexNav hexapod firmware (\<open>src/firmware/openrb150\<close>).

  \<^bold>\<open>The program.\<close> A six-legged robot with eighteen DYNAMIXEL servos is driven by a microcontroller that
  runs a handful of periodic tasks. Three sources may command it: a radio handset (CRSF receiver on a
  serial port), a host on USB (a companion program, or a Jetson computer with limited authority), and a
  maintenance client on the same USB link. The radio task turns serial bytes into one command snapshot
  per cycle; the API task answers framed USB requests and stages what they ask for; the control task
  collects the state of the robot and the intents of all sources and runs one step of the controller
  core; the core arbitrates the sources, runs the safety state machine, shapes the body command, drives
  the gait and the leg kinematics, and publishes servo goals together with a motion gate; other tasks
  talk to the servo bus, the sensors and the configuration storage. The development follows this path
  from the bytes that come in to the goals that go out.

  \<^bold>\<open>Conventions.\<close> A C++ integer of width \<open>N\<close> is an \<open>N word\<close>, so wrap-around is that of the machine;
  array indices bounded by a small constant are natural numbers. A struct or class is a record, an enum a
  datatype, a member function a state transformer. A store or load outside a buffer, a conversion of an
  out-of-range \<open>float\<close> to an integer, an overflow of a signed integer and a loop that does not end are
  \<open>None\<close>, and the theorems show that \<open>None\<close> does not occur. \<open>float\<close> is IEEE binary32 with
  round-to-nearest-even, written out over the rationals in \<open>Float32\<close> (zero has no sign there; the code
  never inspects it). The mathematical library (\<open>sinf\<close>, \<open>expf\<close>, ...) is not part of the repository:
  it is the record \<open>libm\<close>, an argument of every definition that calls it, and a theorem that needs
  something of it says so as a hypothesis (\<open>libm_exp_ok\<close>: the exponential of a number is a number).
  Time is the 32-bit millisecond counter. Tasks interleave as explicit sequences of operations.

  \<^bold>\<open>Theories and sources\<close> (paths below \<open>src/firmware/openrb150/src\<close>).
  \<^item> \<open>Prelude\<close>: words, little-endian access, checked buffers, elapsed time; \<open>Codec\<close>: the cursor codecs of
    the configuration; \<open>Runs\<close>: the locale \<open>guarded_machine\<close> (an invariant of a partial transition function
    makes every guarded run succeed); \<open>TokenLease\<close>: the locale of an exclusive lease with a token;
    \<open>CrcRegister\<close>: the locale \<open>crc_register\<close> (a check register whose step is injective detects every change
    of one byte); \<open>Float32\<close>, \<open>FloatRange\<close>: binary32, its rounding bounds, representable values, and the
    rounding analysis of first-order filters and rate limiters.
  \<^item> USB link: \<open>Crc16\<close>, \<open>Cobs\<close>, \<open>Framing\<close>, \<open>FrameReader\<close> (\<open>protocol/crc16\<close>, \<open>cobs\<close>, \<open>framing\<close>,
    \<open>frame_reader\<close>): round trip of byte stuffing with its size bound, detection of every single-byte error,
    delivery of all frames behind arbitrary garbage (the streaming reader refines a two-state automaton).
  \<^item> USB requests: \<open>ApiResponse\<close>, \<open>ControlApi\<close>, \<open>PassiveApi\<close>, \<open>MaintenanceApi\<close>, \<open>MaintTargetApi\<close>,
    \<open>MotionApi\<close>, \<open>FeatureApi\<close>, \<open>SensorApi\<close>, \<open>ConfigApi\<close>, \<open>DxlJobApi\<close>, \<open>ControllerApi\<close>, \<open>ObserverApi\<close>,
    \<open>Telemetry\<close>, \<open>Api\<close> (\<open>protocol/*_api\<close>, \<open>config/config_api\<close>, \<open>hil/observer_api\<close>, \<open>hil/output_guard\<close>,
    \<open>protocol/telemetry\<close>, \<open>protocol/api\<close>): each command group with its state, gates, parsers and answers;
    the dispatcher answers every decodable command with exactly one frame.
  \<^item> Configuration: \<open>ConfigSchema\<close>, \<open>ConfigStore\<close> (\<open>config/config_schema\<close>, \<open>config_store\<close>,
    \<open>config_bootstrap\<close>): serialisation round trip, soundness of the validation, atomicity of a commit under
    any failing file operation.
  \<^item> Radio: \<open>CrsfParser\<close> (\<open>input/crsf_parser\<close>), \<open>ChannelPack\<close> (\<open>lib/ChannelPack\<close>), \<open>RcConditioner\<close>
    (\<open>input/rc_input_conditioner\<close>), \<open>ControllerBridge\<close>, \<open>ControllerSafety\<close>, \<open>ControllerEnvelope\<close>
    (\<open>input/controller_bridge\<close>: the model, its arming and fail-safe behaviour, and the envelope of its
    command), \<open>RcTask\<close> (\<open>rcTask\<close> of \<open>app/tasks.cpp\<close>, \<open>input/rc_frame_snapshot.h\<close>).
  \<^item> Safety: \<open>CommandArbiter\<close>, \<open>StateMachine\<close>, \<open>ErrorJournal\<close>, \<open>Watchdog\<close> (\<open>safety/*\<close>).
  \<^item> Motion: \<open>Kinematics\<close> (\<open>gait/leg_ik\<close>, \<open>body_ik\<close>), \<open>GaitEngine\<close>, \<open>GaitPipeline\<close>, \<open>TrickEngine\<close>
    (\<open>gait/*\<close>), \<open>BodyCommandShaper\<close> (\<open>controller/body_command_shaper\<close>), \<open>ServoMap\<close> (\<open>dxl/servo_map\<close>),
    \<open>ContactEstimator\<close> (\<open>sensors/contact_estimator\<close>).
  \<^item> Controller: \<open>ControllerTime\<close>, \<open>ControllerConfig\<close>, \<open>ControllerCore\<close>, \<open>CoreSafety\<close>
    (\<open>controller/*\<close>): the step of the core, and that it always answers, fails closed and moves only under
    authority.
  \<^item> \<open>RadioPath\<close> composes the radio task with the core.

  \<^bold>\<open>Interfaces.\<close> Every locale is interpreted on the model, in the theory that provides its operations:
  \<open>command_group\<close> (a command group ignores messages outside its block and answers within the capacity
  it is given) on each of the command groups of the USB API; \<open>field_codec\<close> (a writer and reader of
  fixed length that are inverse) on the integers and on every record of the configuration;
  \<open>incremental_checksum\<close> and \<open>crc_register\<close> on the CRC-16 of the frames, \<open>crc_register\<close> also on the CRC-8 of
  the radio; \<open>delimited_codec\<close> (frames behind a delimiter are delivered by any reader of delimited
  bodies) on the USB frames; \<open>token_lease\<close> on the maintenance lock and on the lock of the arbiter; and
  \<open>guarded_machine\<close> on the controller core, the gait engine, the gait pipeline, the trick engine and the
  contact estimator, whose run theorems are its facts. Abstract specifications with a refinement: the
  frame reader (delimited bodies), the radio parser (the bytes of the frame under way), the latched host
  intent of the control API, and the configuration store (the list of complete records).

  \<^bold>\<open>Bounds and fuel.\<close> No definition takes fuel: loops are structural or have a termination proof (the
  keyframe loop of the trick engine consumes the elapsed time, the channel decoder the channels left, the
  COBS loops the input), and the bisection of the reach limiter counts its eight steps as the source does.
  Hypotheses of the end-to-end theorems: a controller step covers at most one second (what the controller
  clock lets through), configuration arrays have their declared lengths, and the buffer of the radio
  parser has its 64 bytes of arbitrary content.

  \<^bold>\<open>Findings\<close> proved here: a clear-fault request outlives the state it was meant for
  (\<open>StateMachine\<close>), a torn commit hides the next one (\<open>ConfigStore\<close>), two feature bits are swapped
  between configuration and run time (\<open>FeatureApi\<close>), the ramp of a joint seeded outside its travel emits
  ticks outside it (\<open>GaitPipeline\<close>), a reconfigured contact estimator keeps a silent foot loaded
  (\<open>ContactEstimator\<close>), and the gait shape of a choreography never reaches the gait (\<open>CoreSafety\<close>).

  \<^bold>\<open>Not modelled.\<close> Hardware access (board pins, I2C bus and its devices, flash and SD drivers, USB and
  serial drivers), the scheduler (vendored FreeRTOS) and the vendored radio library; of \<open>app/tasks.cpp\<close>
  everything but the radio task: it is glue that copies between the components under critical
  sections, drives peripherals and formats telemetry; text logging, benchmark counters, status LED and
  OLED; the trace recorder of the hardware-in-the-loop image; the Python companion, the ROS packages and
  the CAD data.
\<close>

end
